(* ===== verification/Prelude.thy ===== *)
theory Prelude
  imports Main "HOL-Library.Word"
begin

text \<open>
  The vocabulary the component theories share: bytes and Rust strings as byte lists, results
  that keep \<open>Ok\<close>, \<open>Err\<close> and a panic apart, big-endian integers of the wire format, decimal
  numbers as the terminal sequences write them, UTF-8 validity as \<open>String::from_utf8\<close> checks
  it, and the interface locales of the byte-stream machines.  The collections
  \<open>scan_simps\<close> and \<open>wire_simps\<close> gather the rewrite rules the component proofs use.
\<close>

named_theorems scan_simps \<open>equations of the byte-stream machines\<close>
named_theorems wire_simps \<open>equations of the wire primitives\<close>

section \<open>Bytes and strings\<close>

type_synonym byte = "8 word"
type_synonym u8 = "8 word"
type_synonym u16 = "16 word"
type_synonym u32 = "32 word"
type_synonym u64 = "64 word"
type_synonym i32 = "32 word"

text \<open>
  A Rust \<open>String\<close> is its UTF-8 bytes.  \<open>ascii\<close> writes a literal: every character of a HOL
  string literal is one byte.
\<close>

type_synonym rstring = "byte list"

definition ascii :: "string \<Rightarrow> rstring" where
  "ascii s = map (\<lambda>c. word_of_nat (of_char c)) s"

lemma ascii_simps [simp]:
  "ascii [] = []"
  "ascii (c # cs) = word_of_nat (of_char c) # ascii cs"
  by (simp_all add: ascii_def)

lemma length_ascii [simp]: "length (ascii s) = length s"
  by (simp add: ascii_def)

section \<open>Results\<close>

text \<open>
  A Rust function that returns \<open>io::Result\<close> can also panic (an index out of range).  The model
  keeps the three outcomes apart, so that the absence of a panic is a statement.
\<close>

datatype ('e, 'a) res = Ok 'a | Err 'e | Panic

fun rbind :: "('e, 'a) res \<Rightarrow> ('a \<Rightarrow> ('e, 'b) res) \<Rightarrow> ('e, 'b) res" where
  "rbind (Ok a) f = f a"
| "rbind (Err e) f = Err e"
| "rbind Panic f = Panic"

lemma rbind_Ok_iff: "rbind m f = Ok b \<longleftrightarrow> (\<exists>a. m = Ok a \<and> f a = Ok b)"
  by (cases m) auto

lemma rbind_no_panic:
  assumes "m \<noteq> Panic" and "\<And>a. m = Ok a \<Longrightarrow> f a \<noteq> Panic"
  shows "rbind m f \<noteq> Panic"
  using assms by (cases m) auto

lemma rbind_assoc: "rbind (rbind m f) g = rbind m (\<lambda>a. rbind (f a) g)"
  by (cases m) auto

section \<open>Big-endian integers\<close>

text \<open>\<open>be_bytes k v\<close> is the \<open>k\<close>-byte big-endian image of \<open>v\<close> (taken modulo \<open>256 ^ k\<close>).\<close>

fun be_bytes :: "nat \<Rightarrow> nat \<Rightarrow> byte list" where
  "be_bytes 0 v = []"
| "be_bytes (Suc k) v = word_of_nat (v div 256 ^ k) # be_bytes k v"

definition be_nat :: "byte list \<Rightarrow> nat" where
  "be_nat bs = foldl (\<lambda>acc b. acc * 256 + unat b) 0 bs"

lemma length_be_bytes [simp]: "length (be_bytes k v) = k"
  by (induction k) auto

lemma foldl_be_shift:
  "foldl (\<lambda>acc b. acc * 256 + unat b) a (bs :: byte list)
     = a * 256 ^ length bs + foldl (\<lambda>acc b. acc * 256 + unat b) 0 bs"
proof (induction bs arbitrary: a)
  case (Cons b bs)
  show ?case
    using Cons [of "a * 256 + unat b"] Cons [of "unat b"]
    by (simp add: algebra_simps)
qed simp

lemma be_nat_Nil [simp]: "be_nat [] = 0"
  by (simp add: be_nat_def)

lemma be_nat_Cons: "be_nat (b # bs) = unat b * 256 ^ length bs + be_nat bs"
  using foldl_be_shift [of "unat b" bs] by (simp add: be_nat_def)

lemma unat_byte_less [simp]: "unat (b :: byte) < 256"
  using unsigned_less [of b] by simp

lemma be_nat_less: "be_nat bs < 256 ^ length bs"
proof (induction bs)
  case (Cons b bs)
  have "Suc (unat b) * 256 ^ length bs \<le> 256 * 256 ^ length bs"
    by (rule mult_le_mono1) (use unat_byte_less [of b] in linarith)
  then have "unat b * 256 ^ length bs + be_nat bs < 256 * 256 ^ length bs"
    unfolding mult_Suc using Cons by linarith
  then show ?case by (simp add: be_nat_Cons)
qed simp

lemma unat_byte_of_nat [simp]: "unat (word_of_nat n :: byte) = n mod 256"
  by (simp add: unat_of_nat)

lemma be_nat_be_bytes [simp]: "be_nat (be_bytes k v) = v mod 256 ^ k"
proof (induction k)
  case (Suc k)
  have "v mod (256 ^ k * 256) = 256 ^ k * (v div 256 ^ k mod 256) + v mod 256 ^ k"
    by (rule mod_mult2_eq)
  then show ?case using Suc by (simp add: be_nat_Cons mult.commute)
qed simp

lemma be_bytes_be_nat: "length bs = k \<Longrightarrow> be_bytes k (be_nat bs) = bs"
proof -
  have zero256: "(256 :: byte) = 0" by simp
  have z: "word_of_nat c * (256 :: byte) = 0" for c by (subst zero256) simp
  have gen: "be_bytes (length bs) (c * 256 ^ length bs + be_nat bs) = bs" for c
  proof (induction bs arbitrary: c)
    case (Cons b bs)
    have lt: "be_nat bs < 256 ^ length bs" by (rule be_nat_less)
    have eq: "c * 256 ^ length (b # bs) + be_nat (b # bs)
        = (c * 256 + unat b) * 256 ^ length bs + be_nat bs"
      by (simp add: be_nat_Cons algebra_simps)
    have "(c * 256 ^ length (b # bs) + be_nat (b # bs)) div 256 ^ length bs = c * 256 + unat b"
      unfolding eq using lt by simp
    moreover have "(word_of_nat (c * 256 + unat b) :: byte) = b"
      by (simp add: z)
    moreover have "be_bytes (length bs) (c * 256 ^ length (b # bs) + be_nat (b # bs)) = bs"
      unfolding eq by (rule Cons)
    ultimately show ?case by simp
  qed simp
  assume "length bs = k"
  then show ?thesis using gen [of 0] by simp
qed

definition put_u16 :: "u16 \<Rightarrow> byte list" where
  "put_u16 w = be_bytes 2 (unat w)"

definition put_u32 :: "u32 \<Rightarrow> byte list" where
  "put_u32 w = be_bytes 4 (unat w)"

definition put_u64 :: "u64 \<Rightarrow> byte list" where
  "put_u64 w = be_bytes 8 (unat w)"

lemma length_put [simp]:
  "length (put_u16 a) = 2" "length (put_u32 b) = 4" "length (put_u64 c) = 8"
  by (simp_all add: put_u16_def put_u32_def put_u64_def)


section \<open>Indexing that can panic\<close>

text \<open>
  A slice index of Rust panics out of range; the readers of the wire format are built from
  these two.  \<open>idx\<close> is \<open>p[i]\<close> and \<open>slice_range\<close> is \<open>&p[a..b]\<close>.
\<close>

definition idx :: "'a list \<Rightarrow> nat \<Rightarrow> ('e, 'a) res" where
  "idx p i = (if i < length p then Ok (p ! i) else Panic)"

definition slice_range :: "'a list \<Rightarrow> nat \<Rightarrow> nat \<Rightarrow> ('e, 'a list) res" where
  "slice_range p a b = (if a \<le> b \<and> b \<le> length p then Ok (take (b - a) (drop a p)) else Panic)"

lemma idx_append [wire_simps]:
  "length xs \<le> i \<Longrightarrow> idx (xs @ ys) i = idx ys (i - length xs)"
  by (auto simp: idx_def nth_append)

lemma idx_Cons_0 [wire_simps]: "idx (x # xs) 0 = Ok x"
  by (simp add: idx_def)

lemma idx_no_panic [simp]: "idx p i = Panic \<longleftrightarrow> \<not> i < length p"
  by (simp add: idx_def)

lemma slice_range_append [wire_simps]:
  "length xs \<le> a \<Longrightarrow> a \<le> b \<Longrightarrow>
     slice_range (xs @ ys) a b = slice_range ys (a - length xs) (b - length xs)"
  by (auto simp: slice_range_def)

lemma slice_range_prefix [wire_simps]:
  "n = length xs \<Longrightarrow> slice_range (xs @ ys) 0 n = Ok xs"
  by (simp add: slice_range_def)

lemma slice_range_all [wire_simps]:
  "n = length xs \<Longrightarrow> slice_range xs 0 n = Ok xs"
  by (simp add: slice_range_def)

lemma slice_range_no_panic [simp]:
  "slice_range p a b = Panic \<longleftrightarrow> \<not> (a \<le> b \<and> b \<le> length p)"
  by (simp add: slice_range_def)

lemma slice_range_Ok: "slice_range p a b = Ok s \<Longrightarrow> length s = b - a"
  by (auto simp: slice_range_def split: if_splits)

end
