(* ===== verification/Framing.thy ===== *)
theory Framing
  imports Prelude
begin

text \<open>
  The interface between the codec and the streams that use it.  The library crate
  \<open>tokio_util\<close> keeps a receive buffer, appends what arrives to it and calls the decoder until
  it asks for more; \<open>drain\<close> and \<open>feed\<close> are that documented loop over an arbitrary decoder.
  The locale states what a decoder owes its encoder, and its lemmas say that the frames
  arrive whole and in order however the bytes are cut into reads.
\<close>

fun drain :: "('b list \<Rightarrow> 'b list \<times> ('e, 'f option) res) \<Rightarrow> nat \<Rightarrow> 'b list \<Rightarrow> 'f list \<times> 'b list" where
  "drain dec 0 buf = ([], buf)"
| "drain dec (Suc n) buf =
     (case dec buf of
        (buf', Ok (Some f)) \<Rightarrow> (let (fs, buf'') = drain dec n buf' in (f # fs, buf''))
      | (buf', _) \<Rightarrow> ([], buf'))"

fun feed :: "('b list \<Rightarrow> 'b list \<times> ('e, 'f option) res) \<Rightarrow> 'b list \<Rightarrow> 'b list list \<Rightarrow> 'f list \<times> 'b list" where
  "feed dec buf [] = ([], buf)"
| "feed dec buf (c # cs) =
     (let (fs, buf') = drain dec (Suc (length (buf @ c))) (buf @ c);
          (fs', buf'') = feed dec buf' cs
      in (fs @ fs', buf''))"

locale frame_codec =
  fixes enc :: "'f \<Rightarrow> 'b list"
    and dec :: "'b list \<Rightarrow> 'b list \<times> ('e, 'f option) res"
    and wf :: "'f \<Rightarrow> bool"
  assumes dec_empty: "dec [] = ([], Ok None)"
    and dec_enc: "wf f \<Longrightarrow> dec (enc f @ rest) = (rest, Ok (Some f))"
    and dec_wait: "wf f \<Longrightarrow> n < length (enc f) \<Longrightarrow> dec (take n (enc f)) = (take n (enc f), Ok None)"
begin

lemma enc_nonempty:
  assumes "wf f"
  shows "enc f \<noteq> []"
  using dec_enc [OF assms, of "[]"] dec_empty by auto

text \<open>What is left of a frame sequence after cutting it at any point.\<close>

definition partial_of :: "'b list \<Rightarrow> 'f list \<Rightarrow> bool" where
  "partial_of part fs \<longleftrightarrow> part = [] \<or> (\<exists>f n. fs \<noteq> [] \<and> f = hd fs \<and> n < length (enc f) \<and> part = take n (enc f))"

lemma drain_frames:
  assumes "\<forall>f \<in> set (fs @ fs2). wf f" and "partial_of part fs2"
    and "length (concat (map enc fs)) < k"
  shows "drain dec k (concat (map enc fs) @ part) = (fs, part)"
  using assms
proof (induction fs arbitrary: k)
  case Nil
  from Nil.prems(3) obtain k' where k: "k = Suc k'" by (cases k) auto
  have "dec part = (part, Ok None)"
    using Nil.prems(1,2) dec_empty dec_wait by (fastforce simp: partial_of_def)
  then show ?case by (simp add: k)
next
  case (Cons f fs)
  from Cons.prems(3) obtain k' where k: "k = Suc k'" by (cases k) auto
  have wf: "wf f" using Cons.prems(1) by simp
  have len: "length (concat (map enc fs)) < k'"
    using Cons.prems(3) k enc_nonempty [OF wf] by (cases "enc f") auto
  have "drain dec k' (concat (map enc fs) @ part) = (fs, part)"
    by (rule Cons.IH [OF _ Cons.prems(2) len]) (use Cons.prems(1) in simp)
  then show ?case by (simp add: k dec_enc [OF wf])
qed

lemma cut_stream:
  assumes "concat (map enc fs) = pre @ post"
  obtains fs1 fs2 part where "fs = fs1 @ fs2" "pre = concat (map enc fs1) @ part"
    "partial_of part fs2" "concat (map enc fs2) = part @ post"
  using assms
proof (induction fs arbitrary: pre thesis)
  case Nil
  show ?case by (rule Nil.prems(1) [of "[]" "[]" "[]"]) (use Nil.prems in \<open>auto simp: partial_of_def\<close>)
next
  case (Cons f fs)
  show ?case
  proof (cases "length pre < length (enc f)")
    case True
    then have "pre = take (length pre) (enc f)"
      using arg_cong [OF Cons.prems(2), of "take (length pre)"] by simp
    with True show ?thesis
      by (intro Cons.prems(1) [of "[]" "f # fs" pre]) (use Cons.prems(2) in \<open>auto simp: partial_of_def\<close>)
  next
    case False
    then have pre: "pre = enc f @ drop (length (enc f)) pre"
      using arg_cong [OF Cons.prems(2), of "take (length (enc f))"] by (metis append_eq_append_conv_if
          append_take_drop_id concat.simps(2) linorder_not_le list.simps(9) Cons.prems(2) nat_less_le take_all_iff)
    then have "concat (map enc fs) = drop (length (enc f)) pre @ post"
      using Cons.prems(2) by (metis append.assoc append_same_eq concat.simps(2) list.simps(9) same_append_eq)
    then obtain fs1 fs2 part where "fs = fs1 @ fs2" "drop (length (enc f)) pre = concat (map enc fs1) @ part"
      "partial_of part fs2" "concat (map enc fs2) = part @ post"
      using Cons.IH by blast
    then show ?thesis
      using pre by (intro Cons.prems(1) [of "f # fs1" fs2 part]) auto
  qed
qed

lemma feed_from:
  assumes "\<forall>f \<in> set fs. wf f" and "partial_of part fs" and "concat (map enc fs) = part @ concat cs"
  shows "feed dec part cs = (fs, [])"
  using assms
proof (induction cs arbitrary: fs part)
  case Nil
  have "fs = []"
  proof (rule ccontr)
    assume "fs \<noteq> []"
    then obtain f fs' where fs: "fs = f # fs'" by (cases fs) auto
    have "0 < length (enc f)" using Nil.prems(1) enc_nonempty fs by auto
    moreover have "length part < length (enc f) \<or> part = []"
      using Nil.prems(2) fs by (auto simp: partial_of_def)
    moreover have "length (enc f) \<le> length part"
      using arg_cong [OF Nil.prems(3), of length] fs by simp
    ultimately show False by auto
  qed
  then show ?case using Nil.prems(2) by (simp add: partial_of_def)
next
  case (Cons c cs)
  have "concat (map enc fs) = (part @ c) @ concat cs" using Cons.prems(3) by simp
  then obtain fs1 fs2 part' where cut: "fs = fs1 @ fs2" "part @ c = concat (map enc fs1) @ part'"
    "partial_of part' fs2" "concat (map enc fs2) = part' @ concat cs"
    by (rule cut_stream)
  have len: "length (concat (map enc fs1)) < Suc (length (part @ c))"
    using arg_cong [OF cut(2), of length] by simp
  have "drain dec (Suc (length (part @ c))) (part @ c) = (fs1, part')"
    unfolding cut(2) using Cons.prems(1) cut(1,3) len cut(2) by (intro drain_frames) auto
  moreover have "feed dec part' cs = (fs2, [])"
    using Cons.prems(1) cut by (intro Cons.IH) auto
  ultimately show ?case using cut(1) by simp
qed

lemma feed_chunks:
  "\<forall>f \<in> set fs. wf f \<Longrightarrow> concat cs = concat (map enc fs) \<Longrightarrow> feed dec [] cs = (fs, [])"
  by (rule feed_from) (auto simp: partial_of_def)

end

end
