(* ===== verification/Utf8.thy ===== *)
theory Utf8
  imports Prelude
begin

text \<open>
  The UTF-8 check of \<open>String::from_utf8\<close> (the standard library's, with the rejection of
  overlong forms, surrogates and code points beyond \<open>U+10FFFF\<close>) and the decimal notation of
  \<open>to_string\<close> and \<open>parse\<close> on unsigned integers.  Every string the model holds is the byte
  list of its UTF-8 form.
\<close>

section \<open>UTF-8\<close>

definition is_cont :: "byte \<Rightarrow> bool" where
  "is_cont b \<longleftrightarrow> 0x80 \<le> b \<and> b \<le> 0xBF"

definition is_ascii :: "byte \<Rightarrow> bool" where
  "is_ascii b \<longleftrightarrow> b < 0x80"

text \<open>The first bytes of two-, three- and four-byte sequences.\<close>

definition lead2 :: "byte \<Rightarrow> bool" where
  "lead2 b \<longleftrightarrow> 0xC2 \<le> b \<and> b \<le> 0xDF"

definition lead3 :: "byte \<Rightarrow> bool" where
  "lead3 b \<longleftrightarrow> 0xE0 \<le> b \<and> b \<le> 0xEF"

definition lead4 :: "byte \<Rightarrow> bool" where
  "lead4 b \<longleftrightarrow> 0xF0 \<le> b \<and> b \<le> 0xF4"

lemmas byte_class_defs = is_cont_def is_ascii_def lead2_def lead3_def lead4_def

text \<open>The range of the second byte of a three- or four-byte sequence depends on the first.\<close>

definition second_ok :: "byte \<Rightarrow> byte \<Rightarrow> bool" where
  "second_ok b c \<longleftrightarrow>
     (if b = 0xE0 then 0xA0 \<le> c \<and> c \<le> 0xBF
      else if b = 0xED then 0x80 \<le> c \<and> c \<le> 0x9F
      else if b = 0xF0 then 0x90 \<le> c \<and> c \<le> 0xBF
      else if b = 0xF4 then 0x80 \<le> c \<and> c \<le> 0x8F
      else is_cont c)"

fun utf8_valid :: "byte list \<Rightarrow> bool" where
  "utf8_valid [] = True"
| "utf8_valid (b # bs) =
     (if is_ascii b then utf8_valid bs
      else if lead2 b then
        (case bs of c # r \<Rightarrow> is_cont c \<and> utf8_valid r | _ \<Rightarrow> False)
      else if lead3 b then
        (case bs of c # d # r \<Rightarrow> second_ok b c \<and> is_cont d \<and> utf8_valid r | _ \<Rightarrow> False)
      else if lead4 b then
        (case bs of c # d # e # r \<Rightarrow> second_ok b c \<and> is_cont d \<and> is_cont e \<and> utf8_valid r
         | _ \<Rightarrow> False)
      else False)"

lemma utf8_valid_ascii: "\<forall>b \<in> set bs. is_ascii b \<Longrightarrow> utf8_valid bs"
  by (induction bs) auto

text \<open>The four shapes of the first character of a valid string.\<close>

lemma utf8_valid_cases [consumes 1, case_names one two three four]:
  assumes "utf8_valid (b # bs)"
  obtains "is_ascii b" "utf8_valid bs"
  | c r where "\<not> is_ascii b" "lead2 b" "bs = c # r" "is_cont c" "utf8_valid r"
  | c d r where "\<not> is_ascii b" "\<not> lead2 b" "lead3 b"
      "bs = c # d # r" "second_ok b c" "is_cont d" "utf8_valid r"
  | c d e r where "\<not> is_ascii b" "\<not> lead2 b" "\<not> lead3 b" "lead4 b"
      "bs = c # d # e # r" "second_ok b c" "is_cont d" "is_cont e" "utf8_valid r"
proof -
  consider "is_ascii b" | "\<not> is_ascii b" "lead2 b" | "\<not> is_ascii b" "\<not> lead2 b" "lead3 b"
    | "\<not> is_ascii b" "\<not> lead2 b" "\<not> lead3 b" "lead4 b"
    | "\<not> is_ascii b" "\<not> lead2 b" "\<not> lead3 b" "\<not> lead4 b"
    by blast
  then show thesis
  proof cases
    case 1
    with assms show ?thesis by (intro that(1)) simp_all
  next
    case c: 2
    with assms obtain c r where "bs = c # r" "is_cont c" "utf8_valid r"
      by (auto split: list.splits)
    with c show ?thesis by (rule that(2))
  next
    case c: 3
    with assms obtain c d r where "bs = c # d # r" "second_ok b c" "is_cont d" "utf8_valid r"
      by (auto split: list.splits)
    with c show ?thesis by (rule that(3))
  next
    case c: 4
    with assms obtain c d e r where "bs = c # d # e # r" "second_ok b c" "is_cont d"
      "is_cont e" "utf8_valid r"
      by (auto split: list.splits)
    with c show ?thesis by (rule that(4))
  next
    case 5
    with assms show ?thesis by simp
  qed
qed

lemma utf8_valid_append: "utf8_valid xs \<Longrightarrow> utf8_valid ys \<Longrightarrow> utf8_valid (xs @ ys)"
proof (induction xs rule: length_induct)
  case (1 xs)
  have IH: "utf8_valid (zs @ ys)" if "length zs < length xs" "utf8_valid zs" for zs
    using 1 that by blast
  show ?case
  proof (cases xs)
    case Nil
    with 1 show ?thesis by simp
  next
    case (Cons b bs)
    with "1.prems" have "utf8_valid (b # bs)" by simp
    then show ?thesis
      by (cases rule: utf8_valid_cases) (simp_all add: Cons IH)
  qed
qed

text \<open>
  \<open>String::from_utf8_lossy\<close>: every maximal prefix of a sequence that cannot be continued
  becomes one replacement character \<open>U+FFFD\<close>.
\<close>

abbreviation replacement :: "byte list" where
  "replacement \<equiv> [0xEF, 0xBF, 0xBD]"

fun utf8_lossy :: "byte list \<Rightarrow> byte list" where
  "utf8_lossy [] = []"
| "utf8_lossy (b # bs) =
     (if is_ascii b then b # utf8_lossy bs
      else if lead2 b then
        (case bs of
           c # r \<Rightarrow> if is_cont c then b # c # utf8_lossy r else replacement @ utf8_lossy bs
         | [] \<Rightarrow> replacement)
      else if lead3 b then
        (case bs of
           c # r \<Rightarrow>
             if second_ok b c then
               (case r of
                  d # r' \<Rightarrow> if is_cont d then b # c # d # utf8_lossy r' else replacement @ utf8_lossy r
                | [] \<Rightarrow> replacement)
             else replacement @ utf8_lossy bs
         | [] \<Rightarrow> replacement)
      else if lead4 b then
        (case bs of
           c # r \<Rightarrow>
             if second_ok b c then
               (case r of
                  d # r' \<Rightarrow>
                    if is_cont d then
                      (case r' of
                         e # r'' \<Rightarrow>
                           if is_cont e then b # c # d # e # utf8_lossy r''
                           else replacement @ utf8_lossy r'
                       | [] \<Rightarrow> replacement)
                    else replacement @ utf8_lossy r
                | [] \<Rightarrow> replacement)
             else replacement @ utf8_lossy bs
         | [] \<Rightarrow> replacement)
      else replacement @ utf8_lossy bs)"

lemma utf8_lossy_valid: "utf8_valid bs \<Longrightarrow> utf8_lossy bs = bs"
proof (induction bs rule: length_induct)
  case (1 bs)
  have IH: "utf8_lossy zs = zs" if "length zs < length bs" "utf8_valid zs" for zs
    using 1 that by blast
  show ?case
  proof (cases bs)
    case (Cons b r)
    with "1.prems" have "utf8_valid (b # r)" by simp
    then show ?thesis
      by (cases rule: utf8_valid_cases) (simp_all add: Cons IH)
  qed simp
qed

lemma utf8_valid_replacement: "utf8_valid (replacement @ bs) = utf8_valid bs"
  by (simp add: byte_class_defs second_ok_def)

lemma utf8_valid_steps:
  "is_ascii b \<Longrightarrow> utf8_valid (b # r) = utf8_valid r"
  "\<not> is_ascii b \<Longrightarrow> lead2 b \<Longrightarrow> utf8_valid (b # c # r) = (is_cont c \<and> utf8_valid r)"
  "\<not> is_ascii b \<Longrightarrow> \<not> lead2 b \<Longrightarrow> lead3 b \<Longrightarrow>
     utf8_valid (b # c # d # r) = (second_ok b c \<and> is_cont d \<and> utf8_valid r)"
  "\<not> is_ascii b \<Longrightarrow> \<not> lead2 b \<Longrightarrow> \<not> lead3 b \<Longrightarrow> lead4 b \<Longrightarrow>
     utf8_valid (b # c # d # e # r) = (second_ok b c \<and> is_cont d \<and> is_cont e \<and> utf8_valid r)"
  by simp_all

lemma utf8_lossy_is_valid: "utf8_valid (utf8_lossy bs)"
proof (induction bs rule: length_induct)
  case (1 bs)
  have IH: "utf8_valid (utf8_lossy zs)" if "length zs < length bs" for zs
    using 1 that by blast
  have rep: "utf8_valid (0xEF # 0xBF # 0xBD # zs) = utf8_valid zs" for zs
    using utf8_valid_replacement [of zs] by simp
  show ?case
  proof (cases bs)
    case (Cons b r)
    show ?thesis
      unfolding Cons utf8_lossy.simps(2)
      by (simp add: Cons IH rep utf8_valid_steps del: utf8_lossy.simps(2) utf8_valid.simps(2)
          split: list.split)
  qed simp
qed

section \<open>Decimal numbers\<close>

text \<open>\<open>dec\<close> is \<open>to_string\<close>; \<open>undec\<close> reads a run of digits, most significant first.\<close>

definition digit :: "nat \<Rightarrow> byte" where
  "digit d = word_of_nat (0x30 + d)"

function dec :: "nat \<Rightarrow> rstring" where
  "dec n = (if n < 10 then [digit n] else dec (n div 10) @ [digit (n mod 10)])"
  by pat_completeness auto
termination
  by (relation "measure id") auto

declare dec.simps [simp del]

definition is_digit :: "byte \<Rightarrow> bool" where
  "is_digit b \<longleftrightarrow> 0x30 \<le> b \<and> b \<le> 0x39"

definition digit_val :: "byte \<Rightarrow> nat" where
  "digit_val b = unat b - 0x30"

definition undec :: "byte list \<Rightarrow> nat" where
  "undec bs = foldl (\<lambda>acc b. acc * 10 + digit_val b) 0 bs"

lemma unat_digit: "d < 10 \<Longrightarrow> unat (digit d) = 0x30 + d"
  using unat_byte_of_nat [of "0x30 + d"] unfolding digit_def by (simp only: mod_less)

lemma digit_val_digit [simp]: "d < 10 \<Longrightarrow> digit_val (digit d) = d"
  by (simp add: digit_val_def unat_digit)

lemma is_digit_digit [simp]: "d < 10 \<Longrightarrow> is_digit (digit d)"
  by (simp add: is_digit_def word_le_nat_alt unat_digit)

lemma dec_nonempty [simp]: "dec n \<noteq> []"
  by (subst dec.simps) simp

lemma dec_digits: "b \<in> set (dec n) \<Longrightarrow> is_digit b"
proof (induction n rule: dec.induct)
  case (1 n)
  show ?case
  proof (cases "n < 10")
    case True
    with 1 show ?thesis by (simp add: dec.simps [of n])
  next
    case False
    with 1 show ?thesis by (auto simp: dec.simps [of n])
  qed
qed

lemma undec_dec [simp]: "undec (dec n) = n"
proof (induction n rule: dec.induct)
  case (1 n)
  show ?case
  proof (cases "n < 10")
    case True
    then show ?thesis by (simp add: dec.simps [of n] undec_def)
  next
    case False
    with 1 show ?thesis by (simp add: dec.simps [of n] undec_def)
  qed
qed

text \<open>\<open>s.parse::<uN>()\<close> with \<open>lim = 2 ^ N\<close>: an optional plus sign and digits, in range.\<close>

definition parse_unsigned :: "nat \<Rightarrow> rstring \<Rightarrow> nat option" where
  "parse_unsigned lim s =
     (let ds = (case s of [] \<Rightarrow> [] | c # cs \<Rightarrow> if c = 0x2B then cs else s)
      in if ds \<noteq> [] \<and> list_all is_digit ds \<and> undec ds < lim then Some (undec ds) else None)"

lemma parse_unsigned_dec: "n < lim \<Longrightarrow> parse_unsigned lim (dec n) = Some n"
proof -
  assume "n < lim"
  moreover obtain c cs where c: "dec n = c # cs" using dec_nonempty by (cases "dec n") auto
  moreover have "is_digit c" using dec_digits [of c n] c by simp
  then have "c \<noteq> 0x2B" by (auto simp: is_digit_def)
  moreover have "list_all is_digit (dec n)" using dec_digits by (auto simp: list_all_iff)
  ultimately show ?thesis using undec_dec [of n] by (simp add: parse_unsigned_def)
qed

end
