(* ===== verification/Protocol.thy ===== *)
theory Protocol
  imports Utf8
begin

text \<open>
  The wire protocol of \<open>src/src/protocol.rs\<close>: the frame type bytes, the \<open>Frame\<close> enum, the
  encoder and the decoder of \<open>FrameCodec\<close> with the helpers they call, over byte lists.  The
  codec theorems (round trip, prefixes, absence of panics) are in \<open>Protocol_Proofs\<close>.
\<close>

section \<open>Frame types\<close>

abbreviation (input) TYPE_HELLO :: u8 where "TYPE_HELLO \<equiv> 0x01"
abbreviation (input) TYPE_HELLO_ACK :: u8 where "TYPE_HELLO_ACK \<equiv> 0x02"

abbreviation (input) TYPE_DATA :: u8 where "TYPE_DATA \<equiv> 0x10"
abbreviation (input) TYPE_RESIZE :: u8 where "TYPE_RESIZE \<equiv> 0x11"
abbreviation (input) TYPE_EXIT :: u8 where "TYPE_EXIT \<equiv> 0x12"
abbreviation (input) TYPE_DETACHED :: u8 where "TYPE_DETACHED \<equiv> 0x13"
abbreviation (input) TYPE_PING :: u8 where "TYPE_PING \<equiv> 0x14"
abbreviation (input) TYPE_PONG :: u8 where "TYPE_PONG \<equiv> 0x15"
abbreviation (input) TYPE_ENV :: u8 where "TYPE_ENV \<equiv> 0x16"
abbreviation (input) TYPE_DIAG_REQUEST :: u8 where "TYPE_DIAG_REQUEST \<equiv> 0x17"
abbreviation (input) TYPE_DIAG_RESPONSE :: u8 where "TYPE_DIAG_RESPONSE \<equiv> 0x18"
abbreviation (input) TYPE_SERVER_SHUTDOWN :: u8 where "TYPE_SERVER_SHUTDOWN \<equiv> 0x19"
abbreviation (input) TYPE_RESUME :: u8 where "TYPE_RESUME \<equiv> 0x1A"
abbreviation (input) TYPE_NOTICE :: u8 where "TYPE_NOTICE \<equiv> 0x1B"

abbreviation (input) TYPE_AGENT_FORWARD :: u8 where "TYPE_AGENT_FORWARD \<equiv> 0x20"
abbreviation (input) TYPE_AGENT_OPEN :: u8 where "TYPE_AGENT_OPEN \<equiv> 0x21"
abbreviation (input) TYPE_AGENT_DATA :: u8 where "TYPE_AGENT_DATA \<equiv> 0x22"
abbreviation (input) TYPE_AGENT_CLOSE :: u8 where "TYPE_AGENT_CLOSE \<equiv> 0x23"

abbreviation (input) TYPE_OPEN_FORWARD :: u8 where "TYPE_OPEN_FORWARD \<equiv> 0x28"
abbreviation (input) TYPE_OPEN_URL :: u8 where "TYPE_OPEN_URL \<equiv> 0x29"

abbreviation (input) TYPE_CLIPBOARD_SET :: u8 where "TYPE_CLIPBOARD_SET \<equiv> 0x2A"
abbreviation (input) TYPE_CLIPBOARD_GET :: u8 where "TYPE_CLIPBOARD_GET \<equiv> 0x2B"
abbreviation (input) TYPE_CLIPBOARD_DATA :: u8 where "TYPE_CLIPBOARD_DATA \<equiv> 0x2C"

abbreviation (input) TYPE_TUNNEL_LISTEN :: u8 where "TYPE_TUNNEL_LISTEN \<equiv> 0x30"
abbreviation (input) TYPE_TUNNEL_OPEN :: u8 where "TYPE_TUNNEL_OPEN \<equiv> 0x31"
abbreviation (input) TYPE_TUNNEL_DATA :: u8 where "TYPE_TUNNEL_DATA \<equiv> 0x32"
abbreviation (input) TYPE_TUNNEL_CLOSE :: u8 where "TYPE_TUNNEL_CLOSE \<equiv> 0x33"

abbreviation (input) TYPE_SEND_OFFER :: u8 where "TYPE_SEND_OFFER \<equiv> 0x38"
abbreviation (input) TYPE_SEND_DONE :: u8 where "TYPE_SEND_DONE \<equiv> 0x39"
abbreviation (input) TYPE_SEND_CANCEL :: u8 where "TYPE_SEND_CANCEL \<equiv> 0x3A"
abbreviation (input) TYPE_SEND_FILE :: u8 where "TYPE_SEND_FILE \<equiv> 0x3B"

abbreviation (input) TYPE_PORT_FORWARD_LISTEN :: u8 where "TYPE_PORT_FORWARD_LISTEN \<equiv> 0x40"
abbreviation (input) TYPE_PORT_FORWARD_READY :: u8 where "TYPE_PORT_FORWARD_READY \<equiv> 0x41"
abbreviation (input) TYPE_PORT_FORWARD_OPEN :: u8 where "TYPE_PORT_FORWARD_OPEN \<equiv> 0x42"
abbreviation (input) TYPE_PORT_FORWARD_DATA :: u8 where "TYPE_PORT_FORWARD_DATA \<equiv> 0x43"
abbreviation (input) TYPE_PORT_FORWARD_CLOSE :: u8 where "TYPE_PORT_FORWARD_CLOSE \<equiv> 0x44"
abbreviation (input) TYPE_PORT_FORWARD_STOP :: u8 where "TYPE_PORT_FORWARD_STOP \<equiv> 0x45"
abbreviation (input) TYPE_PORT_FORWARD_REQUEST :: u8 where "TYPE_PORT_FORWARD_REQUEST \<equiv> 0x46"

abbreviation (input) TYPE_NEW_SESSION :: u8 where "TYPE_NEW_SESSION \<equiv> 0x50"
abbreviation (input) TYPE_ATTACH :: u8 where "TYPE_ATTACH \<equiv> 0x51"
abbreviation (input) TYPE_LIST_SESSIONS :: u8 where "TYPE_LIST_SESSIONS \<equiv> 0x52"
abbreviation (input) TYPE_KILL_SESSION :: u8 where "TYPE_KILL_SESSION \<equiv> 0x53"
abbreviation (input) TYPE_KILL_SERVER :: u8 where "TYPE_KILL_SERVER \<equiv> 0x54"
abbreviation (input) TYPE_TAIL :: u8 where "TYPE_TAIL \<equiv> 0x55"
abbreviation (input) TYPE_RENAME_SESSION :: u8 where "TYPE_RENAME_SESSION \<equiv> 0x56"
abbreviation (input) TYPE_SET_LINGER :: u8 where "TYPE_SET_LINGER \<equiv> 0x57"

abbreviation (input) TYPE_SESSION_CREATED :: u8 where "TYPE_SESSION_CREATED \<equiv> 0x60"
abbreviation (input) TYPE_SESSION_INFO :: u8 where "TYPE_SESSION_INFO \<equiv> 0x61"
abbreviation (input) TYPE_OK :: u8 where "TYPE_OK \<equiv> 0x62"
abbreviation (input) TYPE_ERROR :: u8 where "TYPE_ERROR \<equiv> 0x63"
abbreviation (input) TYPE_ATTACH_ACK :: u8 where "TYPE_ATTACH_ACK \<equiv> 0x64"

abbreviation (input) HEADER_LEN :: nat where "HEADER_LEN \<equiv> 5"
abbreviation (input) MAX_FRAME_SIZE :: nat where "MAX_FRAME_SIZE \<equiv> 1048576"
abbreviation (input) PROTOCOL_VERSION :: u16 where "PROTOCOL_VERSION \<equiv> 23"
abbreviation (input) CAP_CLIPBOARD :: u32 where "CAP_CLIPBOARD \<equiv> 0x01"
abbreviation (input) CLIPBOARD_MAX_BYTES :: nat where "CLIPBOARD_MAX_BYTES \<equiv> 524288"

section \<open>Data\<close>

datatype ErrorCode =
    NoSuchSession | NameAlreadyExists | InvalidName | EmptyName | VersionMismatch
  | UnexpectedFrame | AlreadyAttached | OwnerChanged | Unknown u16

fun to_u16 :: "ErrorCode \<Rightarrow> u16" where
  "to_u16 NoSuchSession = 1"
| "to_u16 NameAlreadyExists = 2"
| "to_u16 InvalidName = 3"
| "to_u16 EmptyName = 4"
| "to_u16 VersionMismatch = 5"
| "to_u16 UnexpectedFrame = 6"
| "to_u16 AlreadyAttached = 7"
| "to_u16 OwnerChanged = 8"
| "to_u16 (Unknown v) = v"

definition from_u16 :: "u16 \<Rightarrow> ErrorCode" where
  "from_u16 v =
     (if v = 1 then NoSuchSession else if v = 2 then NameAlreadyExists
      else if v = 3 then InvalidName else if v = 4 then EmptyName
      else if v = 5 then VersionMismatch else if v = 6 then UnexpectedFrame
      else if v = 7 then AlreadyAttached else if v = 8 then OwnerChanged
      else Unknown v)"

text \<open>The discriminator byte of a connection to the per-session service socket.\<close>

datatype SvcRequest = SvcOpenUrl | SvcSend | SvcReceive | SvcClipboard

definition svc_from_byte :: "u8 \<Rightarrow> SvcRequest option" where
  "svc_from_byte b =
     (if b = 1 then Some SvcOpenUrl else if b = 2 then Some SvcSend
      else if b = 3 then Some SvcReceive else if b = 5 then Some SvcClipboard else None)"

fun svc_to_byte :: "SvcRequest \<Rightarrow> u8" where
  "svc_to_byte SvcOpenUrl = 1"
| "svc_to_byte SvcSend = 2"
| "svc_to_byte SvcReceive = 3"
| "svc_to_byte SvcClipboard = 5"

record SessionEntry =
  entry_id :: u32
  name :: rstring
  pty_path :: rstring
  shell_pid :: u32
  created_at :: u64
  attached :: bool
  last_heartbeat :: u64
  foreground_cmd :: rstring
  cwd :: rstring
  client_name :: rstring
  agent_forwarding_active :: bool
  is_last_attached :: bool
  last_activity :: u64
  linger_secs :: u64

text \<open>\<open>Frame\<close>; an \<open>i32\<close> is kept as its 32 bits, and \<open>Ok\<close> is \<open>OkFrame\<close> here.\<close>

datatype Frame =
    Data "byte list"
  | Resize u16 u16
  | Exit i32
  | Detached
  | Ping
  | Pong
  | Env "(rstring \<times> rstring) list"
  | DiagRequest
  | DiagResponse rstring
  | ServerShutdown
  | Resume u64
  | Notice "byte list"
  | AgentForward
  | AgentOpen u32
  | AgentData u32 "byte list"
  | AgentClose u32
  | ClipboardSet "byte list"
  | ClipboardGet
  | ClipboardData "byte list"
  | OpenForward
  | OpenUrl rstring
  | TunnelListen u16
  | TunnelOpen u32
  | TunnelData u32 "byte list"
  | TunnelClose u32
  | SendOffer u32 u64
  | SendDone
  | SendCancel rstring
  | PortForwardListen u32 u16 u16
  | PortForwardReady u32
  | PortForwardOpen u32 u32 u16
  | PortForwardData u32 "byte list"
  | PortForwardClose u32
  | PortForwardStop u32
  | PortForwardRequest u32 u8 u16 u16
  | Hello u16 u32 u64
  | HelloAck u16 u32 u64
  | SendFile rstring
  | NewSession rstring rstring rstring u16 u16 rstring u64
    \<comment> \<open>name, command, cwd, cols, rows, client name, linger seconds\<close>
  | Attach rstring rstring bool bool u16 u16 u64 u64 bool
    \<comment> \<open>session, client name, force, no replay, cols, rows, token, rendered offset, line dirty\<close>
  | Tail rstring
  | ListSessions
  | KillSession rstring
  | KillServer
  | RenameSession rstring rstring
  | SetLinger rstring u64
  | SessionCreated u32
  | SessionInfo "SessionEntry list"
  | OkFrame
  | AttachAck u64 u32
  | Error ErrorCode rstring

section \<open>Encoder\<close>

definition encode_empty :: "byte list \<Rightarrow> u8 \<Rightarrow> byte list" where
  "encode_empty dst ty = dst @ [ty] @ put_u32 0"

definition encode_str :: "byte list \<Rightarrow> u8 \<Rightarrow> rstring \<Rightarrow> byte list" where
  "encode_str dst ty s = dst @ [ty] @ put_u32 (word_of_nat (length s)) @ s"

definition encode_blob :: "byte list \<Rightarrow> u8 \<Rightarrow> byte list \<Rightarrow> byte list" where
  "encode_blob dst ty data = dst @ [ty] @ put_u32 (word_of_nat (length data)) @ data"

definition encode_prefix_blob :: "byte list \<Rightarrow> u8 \<Rightarrow> u32 \<Rightarrow> byte list \<Rightarrow> byte list" where
  "encode_prefix_blob dst ty prefix data =
     dst @ [ty] @ put_u32 (4 + word_of_nat (length data)) @ put_u32 prefix @ data"

text \<open>A string or blob behind a \<open>u16\<close> length, as several frames write it.\<close>

definition put_str16 :: "rstring \<Rightarrow> byte list" where
  "put_str16 s = put_u16 (word_of_nat (length s)) @ s"

definition put_bool :: "bool \<Rightarrow> byte list" where
  "put_bool b = [if b then 1 else 0]"

definition encode_env :: "byte list \<Rightarrow> (rstring \<times> rstring) list \<Rightarrow> byte list" where
  "encode_env dst vars =
     (let body_len = 4 + sum_list (map (\<lambda>(k, v). 2 + length k + 2 + length v) vars)
      in dst @ [TYPE_ENV] @ put_u32 (word_of_nat body_len) @ put_u32 (word_of_nat (length vars))
         @ concat (map (\<lambda>(k, v). put_str16 k @ put_str16 v) vars))"

definition entry_encoded_len :: "SessionEntry \<Rightarrow> nat" where
  "entry_encoded_len e =
     4 + 2 + length (name e) + 2 + length (pty_path e) + 4 + 8 + 1 + 8
     + 2 + length (foreground_cmd e) + 2 + length (cwd e) + 2 + length (client_name e)
     + 1 + 1 + 8 + 8"

definition put_entry :: "SessionEntry \<Rightarrow> byte list" where
  "put_entry e =
     put_u32 (entry_id e) @ put_str16 (name e) @ put_str16 (pty_path e) @ put_u32 (shell_pid e)
     @ put_u64 (created_at e) @ put_bool (attached e) @ put_u64 (last_heartbeat e)
     @ put_str16 (foreground_cmd e) @ put_str16 (cwd e) @ put_str16 (client_name e)
     @ put_bool (agent_forwarding_active e) @ put_bool (is_last_attached e)
     @ put_u64 (last_activity e) @ put_u64 (linger_secs e)"

definition encode_session_info :: "byte list \<Rightarrow> SessionEntry list \<Rightarrow> byte list" where
  "encode_session_info dst sessions =
     (let body_len = 4 + sum_list (map (\<lambda>e. 4 + entry_encoded_len e) sessions)
      in dst @ [TYPE_SESSION_INFO] @ put_u32 (word_of_nat body_len)
         @ put_u32 (word_of_nat (length sessions))
         @ concat (map (\<lambda>e. put_u32 (word_of_nat (entry_encoded_len e)) @ put_entry e) sessions))"

text \<open>The \<open>encode_fields!\<close> macro: the payload length is the sum of the field sizes.\<close>

datatype field = F8 u8 | F16 u16 | F32 u32 | F64 u64

fun field_size :: "field \<Rightarrow> nat" where
  "field_size (F8 _) = 1"
| "field_size (F16 _) = 2"
| "field_size (F32 _) = 4"
| "field_size (F64 _) = 8"

fun put_field :: "field \<Rightarrow> byte list" where
  "put_field (F8 w) = [w]"
| "put_field (F16 w) = put_u16 w"
| "put_field (F32 w) = put_u32 w"
| "put_field (F64 w) = put_u64 w"

definition encode_fields :: "byte list \<Rightarrow> u8 \<Rightarrow> field list \<Rightarrow> byte list" where
  "encode_fields dst ty fs =
     dst @ [ty] @ put_u32 (word_of_nat (sum_list (map field_size fs))) @ concat (map put_field fs)"

definition encode_rename_session :: "byte list \<Rightarrow> rstring \<Rightarrow> rstring \<Rightarrow> byte list" where
  "encode_rename_session dst session new_name =
     dst @ [TYPE_RENAME_SESSION]
       @ put_u32 (word_of_nat (2 + length session + length new_name)) @ put_str16 session @ new_name"

definition encode_set_linger :: "byte list \<Rightarrow> rstring \<Rightarrow> u64 \<Rightarrow> byte list" where
  "encode_set_linger dst session linger =
     dst @ [TYPE_SET_LINGER]
       @ put_u32 (word_of_nat (2 + length session + 8)) @ put_str16 session @ put_u64 linger"

definition encode_new_session ::
  "byte list \<Rightarrow> rstring \<Rightarrow> rstring \<Rightarrow> rstring \<Rightarrow> u16 \<Rightarrow> u16 \<Rightarrow> rstring \<Rightarrow> u64 \<Rightarrow> byte list" where
  "encode_new_session dst nam command dir cols rows cn linger =
     dst @ [TYPE_NEW_SESSION]
       @ put_u32 (word_of_nat (2 + length nam + 2 + length command + 2 + length dir
           + 2 + 2 + 2 + length cn + 8))
       @ put_str16 nam @ put_str16 command @ put_str16 dir @ put_u16 cols @ put_u16 rows
       @ put_str16 cn @ put_u64 linger"

definition encode_attach ::
  "byte list \<Rightarrow> rstring \<Rightarrow> rstring \<Rightarrow> bool \<Rightarrow> bool \<Rightarrow> u16 \<Rightarrow> u16 \<Rightarrow> u64 \<Rightarrow> u64 \<Rightarrow> bool \<Rightarrow> byte list"
where
  "encode_attach dst session cn force no_replay cols rows token rendered line_dirty =
     dst @ [TYPE_ATTACH]
       @ put_u32 (word_of_nat (2 + length session + 2 + length cn + 2 + 4 + 8 + 8 + 1))
       @ put_str16 session @ put_str16 cn @ put_bool force @ put_bool no_replay
       @ put_u16 cols @ put_u16 rows @ put_u64 token @ put_u64 rendered @ put_bool line_dirty"

definition encode_error :: "byte list \<Rightarrow> ErrorCode \<Rightarrow> rstring \<Rightarrow> byte list" where
  "encode_error dst code message =
     dst @ [TYPE_ERROR] @ put_u32 (word_of_nat (2 + length message))
       @ put_u16 (to_u16 code) @ message"

primrec encode :: "Frame \<Rightarrow> byte list \<Rightarrow> byte list" where
  "encode (Data d) dst = encode_blob dst TYPE_DATA d"
| "encode (Notice d) dst = encode_blob dst TYPE_NOTICE d"
| "encode (Resume offset) dst = dst @ [TYPE_RESUME] @ put_u32 8 @ put_u64 offset"
| "encode (ClipboardSet d) dst = encode_blob dst TYPE_CLIPBOARD_SET d"
| "encode (ClipboardData d) dst = encode_blob dst TYPE_CLIPBOARD_DATA d"
| "encode (Resize cols rows) dst = encode_fields dst TYPE_RESIZE [F16 cols, F16 rows]"
| "encode (Exit code) dst = encode_fields dst TYPE_EXIT [F32 code]"
| "encode (Hello v caps dev) dst = encode_fields dst TYPE_HELLO [F16 v, F32 caps, F64 dev]"
| "encode (HelloAck v caps sid) dst = encode_fields dst TYPE_HELLO_ACK [F16 v, F32 caps, F64 sid]"
| "encode (AgentOpen c) dst = encode_fields dst TYPE_AGENT_OPEN [F32 c]"
| "encode (AgentClose c) dst = encode_fields dst TYPE_AGENT_CLOSE [F32 c]"
| "encode (TunnelListen p) dst = encode_fields dst TYPE_TUNNEL_LISTEN [F16 p]"
| "encode (TunnelOpen c) dst = encode_fields dst TYPE_TUNNEL_OPEN [F32 c]"
| "encode (TunnelClose c) dst = encode_fields dst TYPE_TUNNEL_CLOSE [F32 c]"
| "encode (SendOffer n b) dst = encode_fields dst TYPE_SEND_OFFER [F32 n, F64 b]"
| "encode (PortForwardListen f l t) dst =
     encode_fields dst TYPE_PORT_FORWARD_LISTEN [F32 f, F16 l, F16 t]"
| "encode (PortForwardReady f) dst = encode_fields dst TYPE_PORT_FORWARD_READY [F32 f]"
| "encode (PortForwardOpen f c t) dst =
     encode_fields dst TYPE_PORT_FORWARD_OPEN [F32 f, F32 c, F16 t]"
| "encode (PortForwardClose c) dst = encode_fields dst TYPE_PORT_FORWARD_CLOSE [F32 c]"
| "encode (PortForwardStop f) dst = encode_fields dst TYPE_PORT_FORWARD_STOP [F32 f]"
| "encode (PortForwardRequest f d l t) dst =
     encode_fields dst TYPE_PORT_FORWARD_REQUEST [F32 f, F8 d, F16 l, F16 t]"
| "encode (SessionCreated i) dst = encode_fields dst TYPE_SESSION_CREATED [F32 i]"
| "encode (AgentData c d) dst = encode_prefix_blob dst TYPE_AGENT_DATA c d"
| "encode (TunnelData c d) dst = encode_prefix_blob dst TYPE_TUNNEL_DATA c d"
| "encode (PortForwardData c d) dst = encode_prefix_blob dst TYPE_PORT_FORWARD_DATA c d"
| "encode Detached dst = encode_empty dst TYPE_DETACHED"
| "encode ServerShutdown dst = encode_empty dst TYPE_SERVER_SHUTDOWN"
| "encode Ping dst = encode_empty dst TYPE_PING"
| "encode Pong dst = encode_empty dst TYPE_PONG"
| "encode AgentForward dst = encode_empty dst TYPE_AGENT_FORWARD"
| "encode OpenForward dst = encode_empty dst TYPE_OPEN_FORWARD"
| "encode ClipboardGet dst = encode_empty dst TYPE_CLIPBOARD_GET"
| "encode SendDone dst = encode_empty dst TYPE_SEND_DONE"
| "encode ListSessions dst = encode_empty dst TYPE_LIST_SESSIONS"
| "encode KillServer dst = encode_empty dst TYPE_KILL_SERVER"
| "encode OkFrame dst = encode_empty dst TYPE_OK"
| "encode (OpenUrl url) dst = encode_str dst TYPE_OPEN_URL url"
| "encode (SendCancel r) dst = encode_str dst TYPE_SEND_CANCEL r"
| "encode (Tail s) dst = encode_str dst TYPE_TAIL s"
| "encode (KillSession s) dst = encode_str dst TYPE_KILL_SESSION s"
| "encode (SendFile s) dst = encode_str dst TYPE_SEND_FILE s"
| "encode (RenameSession s n) dst = encode_rename_session dst s n"
| "encode (SetLinger s l) dst = encode_set_linger dst s l"
| "encode (NewSession n c d cols rows cn l) dst = encode_new_session dst n c d cols rows cn l"
| "encode (Attach s cn f nr cols rows tok off ld) dst =
     encode_attach dst s cn f nr cols rows tok off ld"
| "encode (AttachAck tok sid) dst =
     dst @ [TYPE_ATTACH_ACK] @ put_u32 12 @ put_u64 tok @ put_u32 sid"
| "encode (Error code m) dst = encode_error dst code m"
| "encode (Env vars) dst = encode_env dst vars"
| "encode (SessionInfo ss) dst = encode_session_info dst ss"
| "encode DiagRequest dst = encode_empty dst TYPE_DIAG_REQUEST"
| "encode (DiagResponse t) dst = encode_str dst TYPE_DIAG_RESPONSE t"

end
