(* ===== verification/Protocol_Decode.thy ===== *)
theory Protocol_Decode
  imports Protocol
begin

text \<open>
  The decoder of \<open>FrameCodec\<close> in \<open>src/src/protocol.rs\<close>: the header step, the readers and one
  definition per frame shape.  Every index and slice of the code that could panic goes
  through \<open>idx\<close> and \<open>slice_range\<close>.
\<close>

section \<open>Errors and readers\<close>

text \<open>All decoder errors are \<open>io::ErrorKind::InvalidData\<close>; the constructors keep the messages.\<close>

datatype decode_error =
    PayloadTooLarge nat
  | TooShort string nat
  | Malformed string
  | BadUtf8
  | UnknownFrameType u8

type_synonym 'a dec = "(decode_error, 'a) res"

definition from_utf8 :: "byte list \<Rightarrow> rstring dec" where
  "from_utf8 bs = (if utf8_valid bs then Ok bs else Err BadUtf8)"

definition decode_string :: "byte list \<Rightarrow> rstring dec" where
  "decode_string payload = from_utf8 payload"

definition expect_min_len :: "byte list \<Rightarrow> nat \<Rightarrow> string \<Rightarrow> unit dec" where
  "expect_min_len payload mn nam = (if length payload < mn then Err (TooShort nam mn) else Ok ())"

definition read_u16 :: "byte list \<Rightarrow> nat \<Rightarrow> u16 dec" where
  "read_u16 p off = rbind (slice_range p off (off + 2)) (\<lambda>bs. Ok (word_of_nat (be_nat bs)))"

definition read_u32 :: "byte list \<Rightarrow> nat \<Rightarrow> u32 dec" where
  "read_u32 p off = rbind (slice_range p off (off + 4)) (\<lambda>bs. Ok (word_of_nat (be_nat bs)))"

definition read_i32 :: "byte list \<Rightarrow> nat \<Rightarrow> i32 dec" where
  "read_i32 p off = rbind (slice_range p off (off + 4)) (\<lambda>bs. Ok (word_of_nat (be_nat bs)))"

definition read_u64 :: "byte list \<Rightarrow> nat \<Rightarrow> u64 dec" where
  "read_u64 p off = rbind (slice_range p off (off + 8)) (\<lambda>bs. Ok (word_of_nat (be_nat bs)))"

text \<open>The offset-tracking reader.\<close>

record PayloadReader =
  rdata :: "byte list"
  roff :: nat

definition reader :: "byte list \<Rightarrow> PayloadReader" where
  "reader d = \<lparr>rdata = d, roff = 0\<rparr>"

definition r_u16 :: "PayloadReader \<Rightarrow> (u16 \<times> PayloadReader) dec" where
  "r_u16 r = rbind (read_u16 (rdata r) (roff r)) (\<lambda>v. Ok (v, r\<lparr>roff := roff r + 2\<rparr>))"

definition r_u32 :: "PayloadReader \<Rightarrow> (u32 \<times> PayloadReader) dec" where
  "r_u32 r = rbind (read_u32 (rdata r) (roff r)) (\<lambda>v. Ok (v, r\<lparr>roff := roff r + 4\<rparr>))"

definition r_i32 :: "PayloadReader \<Rightarrow> (i32 \<times> PayloadReader) dec" where
  "r_i32 r = rbind (read_i32 (rdata r) (roff r)) (\<lambda>v. Ok (v, r\<lparr>roff := roff r + 4\<rparr>))"

definition r_u64 :: "PayloadReader \<Rightarrow> (u64 \<times> PayloadReader) dec" where
  "r_u64 r = rbind (read_u64 (rdata r) (roff r)) (\<lambda>v. Ok (v, r\<lparr>roff := roff r + 8\<rparr>))"

section \<open>Frames with a list body\<close>

text \<open>
  One iteration of the loop of \<open>decode_env\<close>: a key and a value, each behind a \<open>u16\<close> length.
\<close>

definition decode_env_var :: "byte list \<Rightarrow> nat \<Rightarrow> ((rstring \<times> rstring) \<times> nat) dec" where
  "decode_env_var p off =
     (if off + 2 > length p then Err (Malformed ''env frame truncated'')
      else rbind (read_u16 p off) (\<lambda>klen16. let klen = unat klen16; off = off + 2 in
        if off + klen + 2 > length p then Err (Malformed ''env frame truncated'')
        else rbind (slice_range p off (off + klen)) (\<lambda>kb.
          rbind (from_utf8 kb) (\<lambda>key. let off = off + klen in
          rbind (read_u16 p off) (\<lambda>vlen16. let vlen = unat vlen16; off = off + 2 in
            if off + vlen > length p then Err (Malformed ''env frame truncated'')
            else rbind (slice_range p off (off + vlen)) (\<lambda>vb.
              rbind (from_utf8 vb) (\<lambda>val. Ok ((key, val), off + vlen))))))))"

fun decode_env_vars :: "byte list \<Rightarrow> nat \<Rightarrow> nat \<Rightarrow> (rstring \<times> rstring) list dec" where
  "decode_env_vars p 0 off = Ok []"
| "decode_env_vars p (Suc n) off =
     rbind (decode_env_var p off) (\<lambda>(kv, off').
       rbind (decode_env_vars p n off') (\<lambda>vars. Ok (kv # vars)))"

definition decode_env :: "byte list \<Rightarrow> Frame dec" where
  "decode_env p =
     (if length p < 4 then Err (Malformed ''env frame too short'')
      else rbind (read_u32 p 0) (\<lambda>count.
        rbind (decode_env_vars p (unat count) 4) (\<lambda>vars. Ok (Env vars))))"

text \<open>The closure \<open>read_entry_str\<close> of \<open>decode_session_info\<close>.\<close>

definition read_entry_str :: "byte list \<Rightarrow> nat \<Rightarrow> (rstring \<times> nat) dec" where
  "read_entry_str s eoff =
     (if eoff + 2 > length s then Err (Malformed ''session entry truncated'')
      else rbind (read_u16 s eoff) (\<lambda>len16. let len = unat len16; eoff = eoff + 2 in
        if eoff + len > length s then Err (Malformed ''session entry truncated'')
        else rbind (slice_range s eoff (eoff + len)) (\<lambda>bs.
          rbind (from_utf8 bs) (\<lambda>val. Ok (val, eoff + len)))))"

text \<open>A trailing field that older servers do not send takes its default when it is absent.\<close>

definition opt_bool :: "byte list \<Rightarrow> nat \<Rightarrow> (bool \<times> nat) dec" where
  "opt_bool s eoff =
     (if eoff < length s then rbind (idx s eoff) (\<lambda>b. Ok (b \<noteq> 0, eoff + 1)) else Ok (False, eoff))"

definition opt_u64 :: "byte list \<Rightarrow> nat \<Rightarrow> (u64 \<times> nat) dec" where
  "opt_u64 s eoff =
     (if eoff + 8 \<le> length s then rbind (read_u64 s eoff) (\<lambda>v. Ok (v, eoff + 8)) else Ok (0, eoff))"

definition decode_entry :: "byte list \<Rightarrow> SessionEntry dec" where
  "decode_entry s =
     (if length s < 4 then Err (Malformed ''session entry too short'')
      else
        rbind (read_u32 s 0) (\<lambda>sid.
        rbind (read_entry_str s 4) (\<lambda>(nam, eoff).
        rbind (read_entry_str s eoff) (\<lambda>(pty, eoff).
        if eoff + 21 > length s then Err (Malformed ''session entry truncated'')
        else
          rbind (read_u32 s eoff) (\<lambda>pid. let eoff = eoff + 4 in
          rbind (read_u64 s eoff) (\<lambda>created. let eoff = eoff + 8 in
          rbind (idx s eoff) (\<lambda>att. let eoff = eoff + 1 in
          rbind (read_u64 s eoff) (\<lambda>hb. let eoff = eoff + 8 in
          rbind (read_entry_str s eoff) (\<lambda>(cmd, eoff).
          rbind (read_entry_str s eoff) (\<lambda>(dir, eoff).
          rbind (read_entry_str s eoff) (\<lambda>(cn, eoff).
          rbind (opt_bool s eoff) (\<lambda>(agent, eoff).
          rbind (opt_bool s eoff) (\<lambda>(is_last, eoff).
          rbind (opt_u64 s eoff) (\<lambda>(activity, eoff).
          rbind (opt_u64 s eoff) (\<lambda>(linger, eoff).
          Ok \<lparr>entry_id = sid, name = nam, pty_path = pty, shell_pid = pid, created_at = created,
              attached = (att \<noteq> 0), last_heartbeat = hb, foreground_cmd = cmd, cwd = dir,
              client_name = cn, agent_forwarding_active = agent, is_last_attached = is_last,
              last_activity = activity, linger_secs = linger\<rparr>)))))))))))))))"

fun decode_entries :: "byte list \<Rightarrow> nat \<Rightarrow> nat \<Rightarrow> SessionEntry list dec" where
  "decode_entries p 0 off = Ok []"
| "decode_entries p (Suc n) off =
     (if off + 4 > length p then Err (Malformed ''session info truncated'')
      else rbind (read_u32 p off) (\<lambda>len32. let entry_len = unat len32; off = off + 4 in
        if off + entry_len > length p then Err (Malformed ''session info truncated'')
        else rbind (slice_range p off (off + entry_len)) (\<lambda>entry_slice.
          rbind (decode_entry entry_slice) (\<lambda>e.
          rbind (decode_entries p n (off + entry_len)) (\<lambda>es. Ok (e # es))))))"

definition decode_session_info :: "byte list \<Rightarrow> Frame dec" where
  "decode_session_info p =
     (if length p < 4 then Err (Malformed ''session info frame too short'')
      else rbind (read_u32 p 0) (\<lambda>count.
        rbind (decode_entries p (unat count) 4) (\<lambda>sessions. Ok (SessionInfo sessions))))"

section \<open>Structured frames\<close>

text \<open>A \<open>u16\<close>-prefixed string followed by at least \<open>extra\<close> more bytes, as the arms read it.\<close>

definition take_str16 :: "string \<Rightarrow> byte list \<Rightarrow> nat \<Rightarrow> nat \<Rightarrow> (rstring \<times> nat) dec" where
  "take_str16 what p off extra =
     rbind (read_u16 p off) (\<lambda>len16. let len = unat len16; off = off + 2 in
       if off + len + extra > length p then Err (Malformed what)
       else rbind (slice_range p off (off + len)) (\<lambda>bs.
         rbind (from_utf8 bs) (\<lambda>s. Ok (s, off + len))))"

definition decode_new_session :: "byte list \<Rightarrow> Frame dec" where
  "decode_new_session p =
     rbind (expect_min_len p 12 ''new session'') (\<lambda>_.
     rbind (take_str16 ''new session frame truncated'' p 0 2) (\<lambda>(nam, off).
     rbind (take_str16 ''new session frame truncated'' p off 2) (\<lambda>(command, off).
     rbind (take_str16 ''new session frame truncated'' p off 4) (\<lambda>(dir, off).
     rbind (read_u16 p off) (\<lambda>cols. let off = off + 2 in
     rbind (read_u16 p off) (\<lambda>rows. let off = off + 2 in
     rbind (if off + 2 \<le> length p then take_str16 ''new session frame truncated'' p off 0
            else Ok ([], off)) (\<lambda>(cn, off).
     rbind (if off + 8 \<le> length p then read_u64 p off else Ok 0) (\<lambda>linger.
     Ok (NewSession nam command dir cols rows cn linger)))))))))"

text \<open>\<open>p.get(off).copied().unwrap_or(0) != 0\<close> and the trailing fields of \<open>Attach\<close>.\<close>

definition get_flag :: "byte list \<Rightarrow> nat \<Rightarrow> bool" where
  "get_flag p off \<longleftrightarrow> off < length p \<and> p ! off \<noteq> 0"

definition u16_or_0 :: "byte list \<Rightarrow> nat \<Rightarrow> u16 dec" where
  "u16_or_0 p off = (if off + 2 \<le> length p then read_u16 p off else Ok 0)"

definition u64_or_0 :: "byte list \<Rightarrow> nat \<Rightarrow> u64 dec" where
  "u64_or_0 p off = (if off + 8 \<le> length p then read_u64 p off else Ok 0)"

definition decode_attach :: "byte list \<Rightarrow> Frame dec" where
  "decode_attach p =
     rbind (expect_min_len p 5 ''attach'') (\<lambda>_.
     rbind (take_str16 ''attach frame truncated'' p 0 2) (\<lambda>(session, off).
     rbind (take_str16 ''attach frame truncated'' p off 1) (\<lambda>(cn, off).
     rbind (idx p off) (\<lambda>force_b. let force = (force_b \<noteq> 0); off = off + 1;
       no_replay = get_flag p off; off = off + 1 in
     rbind (u16_or_0 p off) (\<lambda>cols. let off = off + 2 in
     rbind (u16_or_0 p off) (\<lambda>rows. let off = off + 2 in
     rbind (u64_or_0 p off) (\<lambda>token. let off = off + 8 in
     rbind (u64_or_0 p off) (\<lambda>rendered. let off = off + 8 in
     Ok (Attach session cn force no_replay cols rows token rendered (get_flag p off))))))))))"

definition decode_attach_ack :: "byte list \<Rightarrow> Frame dec" where
  "decode_attach_ack p =
     rbind (expect_min_len p 12 ''attach_ack'') (\<lambda>_.
     rbind (read_u64 p 0) (\<lambda>token.
     rbind (read_u32 p 8) (\<lambda>sid. Ok (AttachAck token sid))))"

definition decode_rename_session :: "byte list \<Rightarrow> Frame dec" where
  "decode_rename_session p =
     (if length p < 2 then Err (Malformed ''rename session frame too short'')
      else rbind (read_u16 p 0) (\<lambda>len16. let session_len = unat len16 in
        if 2 + session_len > length p then Err (Malformed ''rename session frame truncated'')
        else rbind (slice_range p 2 (2 + session_len)) (\<lambda>sb. rbind (from_utf8 sb) (\<lambda>session.
          rbind (slice_range p (2 + session_len) (length p)) (\<lambda>nb. rbind (from_utf8 nb) (\<lambda>new_name.
          Ok (RenameSession session new_name)))))))"

definition decode_set_linger :: "byte list \<Rightarrow> Frame dec" where
  "decode_set_linger p =
     rbind (expect_min_len p 10 ''set linger'') (\<lambda>_.
     rbind (read_u16 p 0) (\<lambda>len16. let session_len = unat len16 in
       if 2 + session_len + 8 > length p then Err (Malformed ''set linger frame truncated'')
       else rbind (slice_range p 2 (2 + session_len)) (\<lambda>sb. rbind (from_utf8 sb) (\<lambda>session.
         rbind (read_u64 p (2 + session_len)) (\<lambda>linger. Ok (SetLinger session linger))))))"

definition decode_error_frame :: "byte list \<Rightarrow> Frame dec" where
  "decode_error_frame p =
     rbind (expect_min_len p 2 ''error'') (\<lambda>_.
     rbind (read_u16 p 0) (\<lambda>code.
     rbind (slice_range p 2 (length p)) (\<lambda>mb. rbind (from_utf8 mb) (\<lambda>message.
     Ok (Error (from_u16 code) message)))))"

definition decode_diag_response :: "byte list \<Rightarrow> Frame dec" where
  "decode_diag_response p = Ok (DiagResponse (utf8_lossy p))"

section \<open>Fixed-field and prefixed frames\<close>

definition decode_resume :: "byte list \<Rightarrow> Frame dec" where
  "decode_resume p = rbind (expect_min_len p 8 ''resume'') (\<lambda>_.
     rbind (r_u64 (reader p)) (\<lambda>(offset, _). Ok (Resume offset)))"

definition decode_resize :: "byte list \<Rightarrow> Frame dec" where
  "decode_resize p = rbind (expect_min_len p 4 ''resize'') (\<lambda>_.
     rbind (r_u16 (reader p)) (\<lambda>(cols, r). rbind (r_u16 r) (\<lambda>(rows, _). Ok (Resize cols rows))))"

definition decode_exit :: "byte list \<Rightarrow> Frame dec" where
  "decode_exit p = rbind (expect_min_len p 4 ''exit'') (\<lambda>_.
     rbind (r_i32 (reader p)) (\<lambda>(code, _). Ok (Exit code)))"

definition decode_hello :: "byte list \<Rightarrow> Frame dec" where
  "decode_hello p = rbind (expect_min_len p 6 ''hello'') (\<lambda>_.
     rbind (r_u16 (reader p)) (\<lambda>(version, r).
     rbind (r_u32 r) (\<lambda>(caps, r).
     rbind (if length p - roff r \<ge> 8 then rbind (r_u64 r) (\<lambda>(d, _). Ok d) else Ok 0) (\<lambda>device_id.
     Ok (Hello version caps device_id)))))"

definition decode_hello_ack :: "byte list \<Rightarrow> Frame dec" where
  "decode_hello_ack p = rbind (expect_min_len p 14 ''hello ack'') (\<lambda>_.
     rbind (r_u16 (reader p)) (\<lambda>(version, r).
     rbind (r_u32 r) (\<lambda>(caps, r).
     rbind (r_u64 r) (\<lambda>(server_id, _). Ok (HelloAck version caps server_id)))))"

text \<open>The frames whose only field is a \<open>u32\<close> id or a port.\<close>

definition decode_id :: "string \<Rightarrow> (u32 \<Rightarrow> Frame) \<Rightarrow> byte list \<Rightarrow> Frame dec" where
  "decode_id nam mk p = rbind (expect_min_len p 4 nam) (\<lambda>_.
     rbind (r_u32 (reader p)) (\<lambda>(i, _). Ok (mk i)))"

definition decode_tunnel_listen :: "byte list \<Rightarrow> Frame dec" where
  "decode_tunnel_listen p = rbind (expect_min_len p 2 ''tunnel listen'') (\<lambda>_.
     rbind (r_u16 (reader p)) (\<lambda>(port, _). Ok (TunnelListen port)))"

definition decode_send_offer :: "byte list \<Rightarrow> Frame dec" where
  "decode_send_offer p = rbind (expect_min_len p 12 ''send offer'') (\<lambda>_.
     rbind (r_u32 (reader p)) (\<lambda>(n, r). rbind (r_u64 r) (\<lambda>(b, _). Ok (SendOffer n b))))"

definition decode_pf_listen :: "byte list \<Rightarrow> Frame dec" where
  "decode_pf_listen p = rbind (expect_min_len p 8 ''port forward listen'') (\<lambda>_.
     rbind (r_u32 (reader p)) (\<lambda>(f, r). rbind (r_u16 r) (\<lambda>(l, r). rbind (r_u16 r) (\<lambda>(t, _).
     Ok (PortForwardListen f l t)))))"

definition decode_pf_open :: "byte list \<Rightarrow> Frame dec" where
  "decode_pf_open p = rbind (expect_min_len p 10 ''port forward open'') (\<lambda>_.
     rbind (r_u32 (reader p)) (\<lambda>(f, r). rbind (r_u32 r) (\<lambda>(c, r). rbind (r_u16 r) (\<lambda>(t, _).
     Ok (PortForwardOpen f c t)))))"

definition decode_pf_request :: "byte list \<Rightarrow> Frame dec" where
  "decode_pf_request p = rbind (expect_min_len p 9 ''port forward request'') (\<lambda>_.
     rbind (read_u32 p 0) (\<lambda>f. rbind (idx p 4) (\<lambda>d. rbind (read_u16 p 5) (\<lambda>l.
     rbind (read_u16 p 7) (\<lambda>t. Ok (PortForwardRequest f d l t))))))"

definition decode_prefixed :: "string \<Rightarrow> (u32 \<Rightarrow> byte list \<Rightarrow> Frame) \<Rightarrow> byte list \<Rightarrow> Frame dec" where
  "decode_prefixed nam mk p = rbind (expect_min_len p 4 nam) (\<lambda>_.
     rbind (r_u32 (reader p)) (\<lambda>(c, r).
     rbind (slice_range p (roff r) (length p)) (\<lambda>d. Ok (mk c d))))"

definition decode_str :: "(rstring \<Rightarrow> Frame) \<Rightarrow> byte list \<Rightarrow> Frame dec" where
  "decode_str mk p = rbind (decode_string p) (\<lambda>s. Ok (mk s))"

section \<open>Dispatch and header\<close>

text \<open>The arms of \<open>match frame_type\<close>, in the code's order.\<close>

definition decode_arms :: "(u8 \<times> (byte list \<Rightarrow> Frame dec)) list" where
  "decode_arms =
    [(TYPE_DATA, \<lambda>p. Ok (Data p)),
     (TYPE_NOTICE, \<lambda>p. Ok (Notice p)),
     (TYPE_RESUME, decode_resume),
     (TYPE_CLIPBOARD_SET, \<lambda>p. Ok (ClipboardSet p)),
     (TYPE_CLIPBOARD_DATA, \<lambda>p. Ok (ClipboardData p)),
     (TYPE_RESIZE, decode_resize),
     (TYPE_EXIT, decode_exit),
     (TYPE_HELLO, decode_hello),
     (TYPE_HELLO_ACK, decode_hello_ack),
     (TYPE_AGENT_OPEN, decode_id ''agent open'' AgentOpen),
     (TYPE_AGENT_CLOSE, decode_id ''agent close'' AgentClose),
     (TYPE_TUNNEL_LISTEN, decode_tunnel_listen),
     (TYPE_TUNNEL_OPEN, decode_id ''tunnel open'' TunnelOpen),
     (TYPE_TUNNEL_CLOSE, decode_id ''tunnel close'' TunnelClose),
     (TYPE_SEND_OFFER, decode_send_offer),
     (TYPE_PORT_FORWARD_LISTEN, decode_pf_listen),
     (TYPE_PORT_FORWARD_READY, decode_id ''port forward ready'' PortForwardReady),
     (TYPE_PORT_FORWARD_OPEN, decode_pf_open),
     (TYPE_PORT_FORWARD_CLOSE, decode_id ''port forward close'' PortForwardClose),
     (TYPE_PORT_FORWARD_STOP, decode_id ''port forward stop'' PortForwardStop),
     (TYPE_PORT_FORWARD_REQUEST, decode_pf_request),
     (TYPE_SESSION_CREATED, decode_id ''session created'' SessionCreated),
     (TYPE_AGENT_DATA, decode_prefixed ''agent data'' AgentData),
     (TYPE_TUNNEL_DATA, decode_prefixed ''tunnel data'' TunnelData),
     (TYPE_PORT_FORWARD_DATA, decode_prefixed ''port forward data'' PortForwardData),
     (TYPE_DETACHED, \<lambda>_. Ok Detached),
     (TYPE_SERVER_SHUTDOWN, \<lambda>_. Ok ServerShutdown),
     (TYPE_PING, \<lambda>_. Ok Ping),
     (TYPE_PONG, \<lambda>_. Ok Pong),
     (TYPE_AGENT_FORWARD, \<lambda>_. Ok AgentForward),
     (TYPE_OPEN_FORWARD, \<lambda>_. Ok OpenForward),
     (TYPE_CLIPBOARD_GET, \<lambda>_. Ok ClipboardGet),
     (TYPE_SEND_DONE, \<lambda>_. Ok SendDone),
     (TYPE_LIST_SESSIONS, \<lambda>_. Ok ListSessions),
     (TYPE_KILL_SERVER, \<lambda>_. Ok KillServer),
     (TYPE_OK, \<lambda>_. Ok OkFrame),
     (TYPE_OPEN_URL, decode_str OpenUrl),
     (TYPE_SEND_CANCEL, decode_str SendCancel),
     (TYPE_TAIL, decode_str Tail),
     (TYPE_KILL_SESSION, decode_str KillSession),
     (TYPE_SEND_FILE, decode_str SendFile),
     (TYPE_NEW_SESSION, decode_new_session),
     (TYPE_ATTACH, decode_attach),
     (TYPE_ATTACH_ACK, decode_attach_ack),
     (TYPE_RENAME_SESSION, decode_rename_session),
     (TYPE_SET_LINGER, decode_set_linger),
     (TYPE_ERROR, decode_error_frame),
     (TYPE_ENV, decode_env),
     (TYPE_SESSION_INFO, decode_session_info),
     (TYPE_DIAG_REQUEST, \<lambda>_. Ok DiagRequest),
     (TYPE_DIAG_RESPONSE, decode_diag_response)]"

definition decode_payload :: "u8 \<Rightarrow> byte list \<Rightarrow> Frame dec" where
  "decode_payload ty p =
     (case map_of decode_arms ty of Some d \<Rightarrow> d p | None \<Rightarrow> Err (UnknownFrameType ty))"

text \<open>
  \<open>Decoder::decode\<close>: the buffer after the call and the result.  \<open>Ok None\<close> asks for more
  bytes and leaves the buffer as it is; a frame, good or bad, is taken off the buffer.
\<close>

definition decode :: "byte list \<Rightarrow> byte list \<times> Frame option dec" where
  "decode src =
     (if length src < HEADER_LEN then (src, Ok None)
      else
        let frame_type = src ! 0; payload_len = be_nat (take 4 (drop 1 src)) in
        if payload_len > MAX_FRAME_SIZE then (src, Err (PayloadTooLarge payload_len))
        else if length src < HEADER_LEN + payload_len then (src, Ok None)
        else
          let src = drop HEADER_LEN src; payload = take payload_len src in
          (drop payload_len src,
           rbind (decode_payload frame_type payload) (\<lambda>f. Ok (Some f))))"

end
