(* ===== verification/Protocol_Proofs.thy ===== *)
theory Protocol_Proofs
  imports Protocol_Decode Framing
begin

text \<open>
  The codec of \<open>src/src/protocol.rs\<close>: what it encodes it decodes back, whatever follows in
  the buffer; a partial frame makes the decoder wait and leaves the buffer alone; no input
  makes it panic; and every string it hands out is valid UTF-8.
\<close>

section \<open>Readers over concatenations\<close>

lemma unat_word_bounds:
  "unat (a :: u16) < 65536" "unat (b :: u32) < 4294967296" "unat (c :: u64) < 18446744073709551616"
  using unsigned_less [of a, where 'a = nat] unsigned_less [of b, where 'a = nat]
    unsigned_less [of c, where 'a = nat] by simp_all

lemma be_nat_put [simp]:
  "be_nat (put_u16 a) = unat a" "be_nat (put_u32 b) = unat b" "be_nat (put_u64 c) = unat c"
  using unat_word_bounds(1) [of a] unat_word_bounds(2) [of b] unat_word_bounds(3) [of c]
  by (simp_all add: put_u16_def put_u32_def put_u64_def)

lemma slice_range_front:
  "length xs = n \<Longrightarrow> slice_range (xs @ ys) 0 n = Ok xs" "slice_range xs 0 (length xs) = Ok xs"
  by (auto simp: slice_range_def)

lemma read_here [wire_simps]:
  "read_u16 (put_u16 a @ r) 0 = Ok a" "read_u16 (put_u16 a) 0 = Ok a"
  "read_u32 (put_u32 b @ r) 0 = Ok b" "read_u32 (put_u32 b) 0 = Ok b"
  "read_i32 (put_u32 b @ r) 0 = Ok b" "read_i32 (put_u32 b) 0 = Ok b"
  "read_u64 (put_u64 c @ r) 0 = Ok c" "read_u64 (put_u64 c) 0 = Ok c"
  by (simp_all add: read_u16_def read_u32_def read_i32_def read_u64_def slice_range_def)

lemma read_skip [wire_simps]:
  "length xs \<le> off \<Longrightarrow> read_u16 (xs @ ys) off = read_u16 ys (off - length xs)"
  "length xs \<le> off \<Longrightarrow> read_u32 (xs @ ys) off = read_u32 ys (off - length xs)"
  "length xs \<le> off \<Longrightarrow> read_i32 (xs @ ys) off = read_i32 ys (off - length xs)"
  "length xs \<le> off \<Longrightarrow> read_u64 (xs @ ys) off = read_u64 ys (off - length xs)"
  by (auto simp: read_u16_def read_u32_def read_i32_def read_u64_def slice_range_def
      dest!: le_Suc_ex)

lemma read_skip1 [wire_simps]:
  "1 \<le> off \<Longrightarrow> read_u16 (x # ys) off = read_u16 ys (off - 1)"
  using read_skip(1) [of "[x]" off ys] by simp

lemma length_put_str16 [simp]: "length (put_str16 s) = 2 + length s"
  by (simp add: put_str16_def)

lemma length_put_bool [simp]: "length (put_bool b) = 1"
  by (simp add: put_bool_def)

lemma idx_put_bool [wire_simps]: "idx (put_bool b @ r) 0 = Ok (if b then 1 else 0)"
  by (simp add: put_bool_def idx_def)

lemma get_flag_here [wire_simps]:
  "get_flag (put_bool b @ r) 0 = b" "get_flag (put_bool b) 0 = b"
  by (simp_all add: put_bool_def get_flag_def)

lemma get_flag_skip [wire_simps]:
  "length xs \<le> off \<Longrightarrow> get_flag (xs @ ys) off = get_flag ys (off - length xs)"
  by (auto simp: get_flag_def nth_append)

text \<open>A string that a \<open>u16\<close> length prefix can carry.\<close>

definition str16_ok :: "rstring \<Rightarrow> bool" where
  "str16_ok s \<longleftrightarrow> utf8_valid s \<and> length s < 65536"

lemma unat_len16: "str16_ok s \<Longrightarrow> unat (word_of_nat (length s) :: u16) = length s"
  by (simp add: str16_ok_def unat_of_nat)

lemma from_utf8_ok: "str16_ok s \<Longrightarrow> from_utf8 s = Ok s"
  by (simp add: str16_ok_def from_utf8_def)

lemma from_utf8_Ok [simp]: "from_utf8 bs = Ok s \<longleftrightarrow> s = bs \<and> utf8_valid bs"
  by (auto simp: from_utf8_def)

lemma take_str16_here [wire_simps]:
  "str16_ok s \<Longrightarrow> extra \<le> length r \<Longrightarrow>
     take_str16 what (put_str16 s @ r) 0 extra = Ok (s, 2 + length s)"
  by (simp add: take_str16_def put_str16_def read_here read_skip slice_range_append
      slice_range_front unat_len16 from_utf8_ok Let_def)

lemma read_entry_str_here [wire_simps]:
  "str16_ok s \<Longrightarrow> read_entry_str (put_str16 s @ r) 0 = Ok (s, 2 + length s)"
  by (simp add: read_entry_str_def put_str16_def read_here read_skip slice_range_append
      slice_range_front unat_len16 from_utf8_ok Let_def)

text \<open>Reading behind a prefix is reading what follows it, with the offset moved back.\<close>

definition shift :: "nat \<Rightarrow> ('a \<times> nat) dec \<Rightarrow> ('a \<times> nat) dec" where
  "shift n m = rbind m (\<lambda>(a, off). Ok (a, off + n))"

lemma shift_simps [simp]:
  "shift n (Ok (a, off)) = Ok (a, off + n)" "shift n (Err e) = Err e" "shift n Panic = Panic"
  by (simp_all add: shift_def)

lemma shift_rbind:
  "shift n (rbind m f) = rbind m (\<lambda>a. shift n (f a))"
  by (cases m) auto

lemma shift_if: "shift n (if b then x else y) = (if b then shift n x else shift n y)"
  by simp

lemma take_str16_skip [wire_simps]:
  assumes "length xs \<le> off"
  shows "take_str16 what (xs @ ys) off extra
    = shift (length xs) (take_str16 what ys (off - length xs) extra)"
proof -
  from assms obtain k where "off = length xs + k" using le_Suc_ex by blast
  then show ?thesis
    by (simp add: take_str16_def read_skip shift_rbind Let_def shift_if slice_range_append
        add.commute add.left_commute cong: if_cong)
qed


lemma read_entry_str_skip [wire_simps]:
  assumes "length xs \<le> off"
  shows "read_entry_str (xs @ ys) off = shift (length xs) (read_entry_str ys (off - length xs))"
proof -
  from assms obtain k where "off = length xs + k" using le_Suc_ex by blast
  then show ?thesis
    by (simp add: read_entry_str_def read_skip shift_rbind Let_def shift_if slice_range_append
        add.commute add.left_commute cong: if_cong)
qed

lemma opt_skip [wire_simps]:
  "length xs \<le> off \<Longrightarrow> opt_bool (xs @ ys) off = shift (length xs) (opt_bool ys (off - length xs))"
  "length xs \<le> off \<Longrightarrow> opt_u64 (xs @ ys) off = shift (length xs) (opt_u64 ys (off - length xs))"
  by (auto simp: opt_bool_def opt_u64_def wire_simps shift_rbind dest!: le_Suc_ex)

lemma opt_here [wire_simps]:
  "opt_bool (put_bool b @ r) 0 = Ok (b, 1)"
  "opt_u64 (put_u64 c @ r) 0 = Ok (c, 8)" "opt_u64 (put_u64 c) 0 = Ok (c, 8)"
  by (simp_all add: opt_bool_def opt_u64_def wire_simps)

lemma or_0_simps [wire_simps]:
  "length xs \<le> off \<Longrightarrow> u16_or_0 (xs @ ys) off = u16_or_0 ys (off - length xs)"
  "length xs \<le> off \<Longrightarrow> u64_or_0 (xs @ ys) off = u64_or_0 ys (off - length xs)"
  "u16_or_0 (put_u16 a @ r) 0 = Ok a"
  "u64_or_0 (put_u64 c @ r) 0 = Ok c"
  by (auto simp: u16_or_0_def u64_or_0_def wire_simps dest!: le_Suc_ex)

section \<open>Well-formed frames\<close>

text \<open>
  What the encoder can carry: length prefixes that fit, strings that are UTF-8, an error code
  that is not a known code in \<open>Unknown\<close> disguise, and a payload under the frame limit.  The
  encoder does not check any of this; it truncates length prefixes silently.
\<close>

definition wf_entry :: "SessionEntry \<Rightarrow> bool" where
  "wf_entry e \<longleftrightarrow> str16_ok (name e) \<and> str16_ok (pty_path e) \<and> str16_ok (foreground_cmd e)
     \<and> str16_ok (cwd e) \<and> str16_ok (client_name e)"

fun wf_fields :: "Frame \<Rightarrow> bool" where
  "wf_fields (Env vars) = (\<forall>(k, v) \<in> set vars. str16_ok k \<and> str16_ok v)"
| "wf_fields (SessionInfo ss) = (\<forall>e \<in> set ss. wf_entry e)"
| "wf_fields (DiagResponse t) = utf8_valid t"
| "wf_fields (OpenUrl t) = utf8_valid t"
| "wf_fields (SendCancel t) = utf8_valid t"
| "wf_fields (SendFile t) = utf8_valid t"
| "wf_fields (Tail t) = utf8_valid t"
| "wf_fields (KillSession t) = utf8_valid t"
| "wf_fields (NewSession n c d _ _ cn _) = (str16_ok n \<and> str16_ok c \<and> str16_ok d \<and> str16_ok cn)"
| "wf_fields (Attach s cn _ _ _ _ _ _ _) = (str16_ok s \<and> str16_ok cn)"
| "wf_fields (RenameSession s n) = (str16_ok s \<and> utf8_valid n)"
| "wf_fields (SetLinger s _) = str16_ok s"
| "wf_fields (Error code m) = (from_u16 (to_u16 code) = code \<and> utf8_valid m)"
| "wf_fields _ = True"

definition wf_frame :: "Frame \<Rightarrow> bool" where
  "wf_frame f \<longleftrightarrow> wf_fields f \<and> length (encode f []) \<le> HEADER_LEN + MAX_FRAME_SIZE"

section \<open>Framing\<close>

text \<open>Every frame is a type byte, the length of its body and the body.\<close>

definition framed :: "u8 \<Rightarrow> byte list \<Rightarrow> byte list" where
  "framed ty body = ty # put_u32 (word_of_nat (length body)) @ body"

lemma length_framed [simp]: "length (framed ty body) = 5 + length body"
  by (simp add: framed_def)

lemma length_put_field [simp]: "length (put_field f) = field_size f"
  by (cases f) simp_all

lemma length_put_fields: "length (concat (map put_field fs)) = sum_list (map field_size fs)"
  by (induction fs) simp_all

lemma length_put_vars:
  "length (concat (map (\<lambda>(k, v). put_str16 k @ put_str16 v) vars))
     = sum_list (map (\<lambda>(k, v). 2 + length k + 2 + length v) vars)"
  by (induction vars) auto

lemma length_put_entry: "length (put_entry e) = entry_encoded_len e"
  by (simp add: put_entry_def entry_encoded_len_def)

lemma length_put_entries:
  "length (concat (map (\<lambda>e. put_u32 (word_of_nat (entry_encoded_len e)) @ put_entry e) ss))
     = sum_list (map (\<lambda>e. 4 + entry_encoded_len e) ss)"
  by (induction ss) (auto simp: length_put_entry)

lemma encode_framed:
  "encode_empty dst ty = dst @ framed ty []"
  "encode_str dst ty s = dst @ framed ty s"
  "encode_blob dst ty d = dst @ framed ty d"
  "encode_prefix_blob dst ty c d = dst @ framed ty (put_u32 c @ d)"
  "encode_env dst vars = dst @ framed TYPE_ENV
     (put_u32 (word_of_nat (length vars))
      @ concat (map (\<lambda>(k, v). put_str16 k @ put_str16 v) vars))"
  "encode_session_info dst ss = dst @ framed TYPE_SESSION_INFO
     (put_u32 (word_of_nat (length ss))
      @ concat (map (\<lambda>e. put_u32 (word_of_nat (entry_encoded_len e)) @ put_entry e) ss))"
  "encode_fields dst ty fs = dst @ framed ty (concat (map put_field fs))"
  "encode_rename_session dst s n = dst @ framed TYPE_RENAME_SESSION (put_str16 s @ n)"
  "encode_set_linger dst s l = dst @ framed TYPE_SET_LINGER (put_str16 s @ put_u64 l)"
  "encode_new_session dst nam cm d cols rows cn l = dst @ framed TYPE_NEW_SESSION
     (put_str16 nam @ put_str16 cm @ put_str16 d @ put_u16 cols @ put_u16 rows @ put_str16 cn
      @ put_u64 l)"
  "encode_attach dst s cn f nr cols rows tok ro ld = dst @ framed TYPE_ATTACH
     (put_str16 s @ put_str16 cn @ put_bool f @ put_bool nr @ put_u16 cols @ put_u16 rows
      @ put_u64 tok @ put_u64 ro @ put_bool ld)"
  "encode_error dst code m = dst @ framed TYPE_ERROR (put_u16 (to_u16 code) @ m)"
  by (simp_all add: encode_empty_def encode_str_def encode_blob_def encode_prefix_blob_def
      encode_env_def encode_session_info_def encode_fields_def encode_rename_session_def
      encode_set_linger_def encode_new_session_def encode_attach_def encode_error_def framed_def
      length_put_vars length_put_entries length_put_fields Let_def ac_simps)

lemma encode_framed_direct:
  "encode (Resume ro) dst = dst @ framed TYPE_RESUME (put_u64 ro)"
  "encode (AttachAck tok sid) dst = dst @ framed TYPE_ATTACH_ACK (put_u64 tok @ put_u32 sid)"
  by (simp_all add: framed_def)

declare encode.simps(3, 46) [simp del]

lemma encode_append: "\<exists>ty body. \<forall>dst. encode f dst = dst @ framed ty body"
  by (cases f) (auto simp: encode_framed encode_framed_direct)

lemma encode_dst: "encode f dst = dst @ encode f []"
  using encode_append [of f] by auto

lemma encode_type_body:
  obtains ty body where "encode f [] = framed ty body"
  using encode_append [of f] by auto


lemma unat_word32_of_nat: "n < 4294967296 \<Longrightarrow> unat (word_of_nat n :: u32) = n"
  by (simp add: unat_of_nat)

lemma decode_framed:
  assumes "length body \<le> MAX_FRAME_SIZE"
  shows "decode (framed ty body @ rest)
    = (rest, rbind (decode_payload ty body) (\<lambda>f. Ok (Some f)))"
proof -
  have "be_nat (take 4 (drop 1 (framed ty body @ rest))) = length body"
    using assms by (simp add: framed_def unat_word32_of_nat)
  moreover have "(framed ty body @ rest) ! 0 = ty" by (simp add: framed_def)
  moreover have "drop 5 (framed ty body @ rest) = body @ rest"
    by (simp add: framed_def)
  ultimately show ?thesis
    using assms by (simp add: decode_def Let_def)
qed

text \<open>A buffer that ends inside a frame makes the decoder wait.\<close>

lemma take_framed_header:
  "5 \<le> n \<Longrightarrow> take n (framed ty body) = framed_header @ take (n - 5) body"
  if "framed_header = ty # put_u32 (word_of_nat (length body))" for framed_header
  using that by (simp add: framed_def take_Cons' take_append)

lemma decode_partial:
  assumes "length body \<le> MAX_FRAME_SIZE" and "n < length (framed ty body)"
  shows "decode (take n (framed ty body)) = (take n (framed ty body), Ok None)"
proof (cases "n < 5")
  case True
  then show ?thesis by (simp add: decode_def)
next
  case False
  let ?h = "ty # put_u32 (word_of_nat (length body))"
  have t: "take n (framed ty body) = ?h @ take (n - 5) body"
    using False by (intro take_framed_header) simp_all
  have "be_nat (take 4 (drop 1 (take n (framed ty body)))) = length body"
    using assms(1) unfolding t by (simp add: unat_word32_of_nat)
  then show ?thesis
    using False assms by (simp add: decode_def Let_def)
qed

section \<open>Bodies decode to their frame\<close>

lemma decode_env_var_here:
  "str16_ok k \<Longrightarrow> str16_ok v \<Longrightarrow> decode_env_var (pre @ put_str16 k @ put_str16 v @ r) (length pre)
     = Ok ((k, v), length pre + (2 + length k + 2 + length v))"
  by (simp add: decode_env_var_def put_str16_def wire_simps slice_range_front unat_len16
      from_utf8_ok Let_def)

lemma decode_env_vars_here:
  "\<forall>(k, v) \<in> set vars. str16_ok k \<and> str16_ok v \<Longrightarrow>
   decode_env_vars (pre @ concat (map (\<lambda>(k, v). put_str16 k @ put_str16 v) vars)) (length vars)
     (length pre) = Ok vars"
proof (induction vars arbitrary: pre)
  case (Cons kv vars)
  obtain k v where kv: "kv = (k, v)" by (cases kv)
  show ?case
    using Cons.prems Cons.IH [of "pre @ put_str16 k @ put_str16 v"]
    by (simp add: kv decode_env_var_here ac_simps)
qed simp

lemma decode_env_here:
  assumes "\<forall>(k, v) \<in> set vars. str16_ok k \<and> str16_ok v" and "length vars < 4294967296"
  shows "decode_env (put_u32 (word_of_nat (length vars))
    @ concat (map (\<lambda>(k, v). put_str16 k @ put_str16 v) vars)) = Ok (Env vars)"
  using decode_env_vars_here [OF assms(1), of "put_u32 (word_of_nat (length vars))"] assms(2)
  by (simp add: decode_env_def wire_simps unat_word32_of_nat)

lemma decode_entry_here: "wf_entry e \<Longrightarrow> decode_entry (put_entry e) = Ok e"
  by (simp add: decode_entry_def put_entry_def wf_entry_def wire_simps Let_def)

lemma decode_entries_here:
  "\<forall>e \<in> set ss. wf_entry e \<Longrightarrow> \<forall>e \<in> set ss. entry_encoded_len e < 4294967296 \<Longrightarrow>
   decode_entries (pre @ concat (map (\<lambda>e. put_u32 (word_of_nat (entry_encoded_len e)) @ put_entry e) ss))
     (length ss) (length pre) = Ok ss"
proof (induction ss arbitrary: pre)
  case (Cons e ss)
  let ?l = "put_u32 (word_of_nat (entry_encoded_len e))"
  show ?case
    using Cons.prems Cons.IH [of "pre @ ?l @ put_entry e"]
    by (simp add: wire_simps unat_word32_of_nat length_put_entry slice_range_front
        decode_entry_here Let_def ac_simps)
qed simp


lemma member_le_sum: "x \<in> set xs \<Longrightarrow> f x \<le> (\<Sum>y\<leftarrow>xs. f y :: nat)"
  by (induction xs) auto

lemma length_le_sum: "(\<And>x. x \<in> set xs \<Longrightarrow> 1 \<le> f x) \<Longrightarrow> length xs \<le> (\<Sum>y\<leftarrow>xs. f y :: nat)"
  by (induction xs) (auto, fastforce)

lemma decode_session_info_here:
  assumes "\<forall>e \<in> set ss. wf_entry e"
    and "sum_list (map (\<lambda>e. 4 + entry_encoded_len e) ss) < 4294967296"
  shows "decode_session_info (put_u32 (word_of_nat (length ss))
    @ concat (map (\<lambda>e. put_u32 (word_of_nat (entry_encoded_len e)) @ put_entry e) ss))
    = Ok (SessionInfo ss)"
proof -
  have "\<forall>e \<in> set ss. entry_encoded_len e < 4294967296"
    using assms(2) member_le_sum [of _ ss "\<lambda>e. 4 + entry_encoded_len e"] by fastforce
  moreover have "length ss < 4294967296"
    using assms(2) length_le_sum [of ss "\<lambda>e. 4 + entry_encoded_len e"] by simp
  ultimately show ?thesis
    using decode_entries_here [OF assms(1), of "put_u32 (word_of_nat (length ss))"]
    by (simp add: decode_session_info_def wire_simps unat_word32_of_nat)
qed

lemma decode_text_here:
  "wf_fields (RenameSession s n) \<Longrightarrow>
     decode_rename_session (put_str16 s @ n) = Ok (RenameSession s n)"
  "wf_fields (SetLinger s l) \<Longrightarrow>
     decode_set_linger (put_str16 s @ put_u64 l) = Ok (SetLinger s l)"
  "wf_fields (Error code m) \<Longrightarrow>
     decode_error_frame (put_u16 (to_u16 code) @ m) = Ok (Error code m)"
  by (simp_all add: decode_rename_session_def decode_set_linger_def decode_error_frame_def
      put_str16_def expect_min_len_def wire_simps unat_len16 slice_range_front from_utf8_ok
      from_utf8_def str16_ok_def Let_def)

lemma decode_new_session_here:
  "wf_fields (NewSession nam cm d cols rows cn l) \<Longrightarrow>
   decode_new_session (put_str16 nam @ put_str16 cm @ put_str16 d @ put_u16 cols @ put_u16 rows
     @ put_str16 cn @ put_u64 l) = Ok (NewSession nam cm d cols rows cn l)"
  by (simp add: decode_new_session_def expect_min_len_def wire_simps Let_def)

lemma decode_attach_here:
  "wf_fields (Attach s cn f nr cols rows tok ro ld) \<Longrightarrow>
   decode_attach (put_str16 s @ put_str16 cn @ put_bool f @ put_bool nr @ put_u16 cols
     @ put_u16 rows @ put_u64 tok @ put_u64 ro @ put_bool ld)
   = Ok (Attach s cn f nr cols rows tok ro ld)"
  by (simp add: decode_attach_def expect_min_len_def wire_simps Let_def)

lemma decode_fixed_here:
  "decode_resume (put_u64 ro) = Ok (Resume ro)"
  "decode_resize (put_u16 cols @ put_u16 rows) = Ok (Resize cols rows)"
  "decode_exit (put_u32 code) = Ok (Exit code)"
  "decode_hello (put_u16 v @ put_u32 caps @ put_u64 dev) = Ok (Hello v caps dev)"
  "decode_hello_ack (put_u16 v @ put_u32 caps @ put_u64 sid) = Ok (HelloAck v caps sid)"
  "decode_id nam mk (put_u32 i) = Ok (mk i)"
  "decode_tunnel_listen (put_u16 port) = Ok (TunnelListen port)"
  "decode_send_offer (put_u32 n @ put_u64 b) = Ok (SendOffer n b)"
  "decode_pf_listen (put_u32 fid @ put_u16 lp @ put_u16 tp) = Ok (PortForwardListen fid lp tp)"
  "decode_pf_open (put_u32 fid @ put_u32 ch @ put_u16 tp) = Ok (PortForwardOpen fid ch tp)"
  "decode_pf_request (put_u32 fid @ d # put_u16 lp @ put_u16 tp) = Ok (PortForwardRequest fid d lp tp)"
  "decode_prefixed nam mk2 (put_u32 ch @ body) = Ok (mk2 ch body)"
  "decode_attach_ack (put_u64 tok @ put_u32 i) = Ok (AttachAck tok i)"
  by (simp_all add: decode_resume_def decode_resize_def decode_exit_def decode_hello_def
      decode_hello_ack_def decode_id_def decode_tunnel_listen_def decode_send_offer_def
      decode_pf_listen_def decode_pf_open_def decode_pf_request_def decode_prefixed_def
      decode_attach_ack_def r_u16_def r_u32_def r_i32_def r_u64_def reader_def
      expect_min_len_def wire_simps slice_range_front)

lemma decode_str_here: "utf8_valid t \<Longrightarrow> decode_str mk t = Ok (mk t)"
  by (simp add: decode_str_def decode_string_def from_utf8_def)

lemma decode_env_body:
  assumes "\<forall>(k, v) \<in> set vars. str16_ok k \<and> str16_ok v"
    and "length (concat (map (\<lambda>(k, v). put_str16 k @ put_str16 v) vars)) \<le> 1048572"
  shows "decode_env (put_u32 (word_of_nat (length vars))
    @ concat (map (\<lambda>(k, v). put_str16 k @ put_str16 v) vars)) = Ok (Env vars)"
proof (rule decode_env_here [OF assms(1)])
  have "length vars \<le> (\<Sum>(k, v)\<leftarrow>vars. 2 + length k + 2 + length v)"
    by (rule length_le_sum) auto
  then show "length vars < 4294967296" using assms(2) by (simp add: length_put_vars)
qed

lemma decode_session_info_body:
  assumes "\<forall>e \<in> set ss. wf_entry e"
    and "length (concat (map (\<lambda>e. put_u32 (word_of_nat (entry_encoded_len e)) @ put_entry e) ss))
      \<le> 1048572"
  shows "decode_session_info (put_u32 (word_of_nat (length ss))
    @ concat (map (\<lambda>e. put_u32 (word_of_nat (entry_encoded_len e)) @ put_entry e) ss))
    = Ok (SessionInfo ss)"
  by (rule decode_session_info_here [OF assms(1)]) (use assms(2) in \<open>simp add: length_put_entries\<close>)

text \<open>The dispatch table: the body of an encoded frame decodes to the frame.\<close>

lemma decode_payload_body:
  assumes "wf_frame f" and "encode f [] = framed ty body"
  shows "decode_payload ty body = Ok f"
  using assms
  by (cases f)
    (auto simp: wf_frame_def encode_framed encode_framed_direct framed_def
      decode_payload_def decode_arms_def decode_env_body decode_session_info_body
      decode_fixed_here decode_str_here decode_text_here decode_new_session_here
      decode_attach_here decode_diag_response_def utf8_lossy_valid)

lemma wf_frame_body:
  assumes "wf_frame f"
  obtains ty body where "encode f [] = framed ty body" "length body \<le> MAX_FRAME_SIZE"
    "decode_payload ty body = Ok f"
  using assms decode_payload_body [OF assms]
  by (rule_tac f = f in encode_type_body) (simp add: wf_frame_def)


section \<open>The codec is a frame codec\<close>

interpretation wire: frame_codec "\<lambda>f. encode f []" decode wf_frame
proof unfold_locales
  show "decode [] = ([], Ok None)" by (simp add: decode_def)
next
  fix f rest
  assume "wf_frame f"
  then show "decode (encode f [] @ rest) = (rest, Ok (Some f))"
    by (rule wf_frame_body) (simp add: decode_framed)
next
  fix f n
  assume "wf_frame f" and "n < length (encode f [])"
  then show "decode (take n (encode f [])) = (take n (encode f []), Ok None)"
    by (metis wf_frame_body decode_partial)
qed

section \<open>No panics\<close>

lemma rbind_Panic [simp]:
  "rbind m f = Panic \<longleftrightarrow> m = Panic \<or> (\<exists>a. m = Ok a \<and> f a = Panic)"
  by (cases m) auto

lemma read_Panic [simp]:
  "read_u16 p off = Panic \<longleftrightarrow> \<not> off + 2 \<le> length p"
  "read_u32 p off = Panic \<longleftrightarrow> \<not> off + 4 \<le> length p"
  "read_i32 p off = Panic \<longleftrightarrow> \<not> off + 4 \<le> length p"
  "read_u64 p off = Panic \<longleftrightarrow> \<not> off + 8 \<le> length p"
  by (simp_all add: read_u16_def read_u32_def read_i32_def read_u64_def)

lemma from_utf8_Panic [simp]: "from_utf8 bs \<noteq> Panic"
  by (simp add: from_utf8_def)

lemma expect_min_len_simps [simp]:
  "expect_min_len p n nam \<noteq> Panic" "expect_min_len p n nam = Ok u \<longleftrightarrow> n \<le> length p"
  by (auto simp: expect_min_len_def)

lemma take_str16_Ok:
  "take_str16 what p off extra = Ok (s, off') \<Longrightarrow> off' + extra \<le> length p \<and> utf8_valid s"
  by (auto simp: take_str16_def rbind_Ok_iff Let_def split: if_splits)

lemma take_str16_Panic [simp]:
  "take_str16 what p off extra = Panic \<longleftrightarrow> \<not> off + 2 \<le> length p"
  by (auto simp: take_str16_def Let_def split: if_splits)

lemma read_entry_str_Ok:
  "read_entry_str s off = Ok (v, off') \<Longrightarrow> off' \<le> length s \<and> utf8_valid v"
  by (auto simp: read_entry_str_def rbind_Ok_iff Let_def split: if_splits)

lemma read_entry_str_Panic [simp]: "read_entry_str s off \<noteq> Panic"
  by (auto simp: read_entry_str_def Let_def)

lemma opt_Panic [simp]: "opt_bool s off \<noteq> Panic" "opt_u64 s off \<noteq> Panic"
  by (auto simp: opt_bool_def opt_u64_def)

lemma or_0_Panic [simp]: "u16_or_0 s off \<noteq> Panic" "u64_or_0 s off \<noteq> Panic"
  by (auto simp: u16_or_0_def u64_or_0_def)

lemma decode_env_var_Panic [simp]: "decode_env_var p off \<noteq> Panic"
  by (auto simp: decode_env_var_def Let_def)

lemma decode_env_vars_Panic [simp]: "decode_env_vars p n off \<noteq> Panic"
  by (induction n arbitrary: off) auto

lemma decode_entry_Panic [simp]: "decode_entry s \<noteq> Panic"
  by (auto simp: decode_entry_def Let_def dest!: read_entry_str_Ok)

lemma decode_entries_Panic [simp]: "decode_entries p n off \<noteq> Panic"
  by (induction n arbitrary: off) (auto simp: Let_def)

lemma decode_new_session_Panic [simp]: "decode_new_session p \<noteq> Panic"
  by (auto simp: decode_new_session_def Let_def dest!: take_str16_Ok split: if_splits)

lemma decode_attach_Panic [simp]: "decode_attach p \<noteq> Panic"
  by (auto simp: decode_attach_def Let_def dest!: take_str16_Ok)

lemma decode_arms_Panic: "(ty, d) \<in> set decode_arms \<Longrightarrow> d p \<noteq> Panic"
  unfolding decode_arms_def
  by (auto simp: decode_resume_def decode_resize_def decode_exit_def decode_hello_def
      decode_hello_ack_def decode_id_def decode_tunnel_listen_def decode_send_offer_def
      decode_pf_listen_def decode_pf_open_def decode_pf_request_def decode_prefixed_def
      decode_attach_ack_def r_u16_def r_u32_def r_i32_def r_u64_def reader_def decode_str_def
      decode_string_def decode_rename_session_def decode_set_linger_def decode_error_frame_def
      decode_env_def decode_session_info_def decode_diag_response_def rbind_Ok_iff Let_def
      split: if_splits)

lemma decode_payload_Panic: "decode_payload ty p \<noteq> Panic"
  by (auto simp: decode_payload_def split: option.splits dest!: map_of_SomeD decode_arms_Panic)


section \<open>Decoded strings\<close>

text \<open>Every \<open>String\<close> of a frame is UTF-8, as the type of the code has it.\<close>

definition entry_utf8 :: "SessionEntry \<Rightarrow> bool" where
  "entry_utf8 e \<longleftrightarrow> utf8_valid (name e) \<and> utf8_valid (pty_path e) \<and> utf8_valid (foreground_cmd e)
     \<and> utf8_valid (cwd e) \<and> utf8_valid (client_name e)"

fun frame_utf8 :: "Frame \<Rightarrow> bool" where
  "frame_utf8 (Env vars) = (\<forall>(k, v) \<in> set vars. utf8_valid k \<and> utf8_valid v)"
| "frame_utf8 (SessionInfo ss) = (\<forall>e \<in> set ss. entry_utf8 e)"
| "frame_utf8 (DiagResponse t) = utf8_valid t"
| "frame_utf8 (OpenUrl t) = utf8_valid t"
| "frame_utf8 (SendCancel t) = utf8_valid t"
| "frame_utf8 (SendFile t) = utf8_valid t"
| "frame_utf8 (Tail t) = utf8_valid t"
| "frame_utf8 (KillSession t) = utf8_valid t"
| "frame_utf8 (NewSession n c d _ _ cn _) =
     (utf8_valid n \<and> utf8_valid c \<and> utf8_valid d \<and> utf8_valid cn)"
| "frame_utf8 (Attach s cn _ _ _ _ _ _ _) = (utf8_valid s \<and> utf8_valid cn)"
| "frame_utf8 (RenameSession s n) = (utf8_valid s \<and> utf8_valid n)"
| "frame_utf8 (SetLinger s _) = utf8_valid s"
| "frame_utf8 (Error _ m) = utf8_valid m"
| "frame_utf8 _ = True"

lemma decode_env_var_utf8:
  "decode_env_var p off = Ok ((k, v), off') \<Longrightarrow> utf8_valid k \<and> utf8_valid v"
  by (auto simp: decode_env_var_def rbind_Ok_iff Let_def split: if_splits)

lemma decode_env_vars_utf8:
  "decode_env_vars p n off = Ok vars \<Longrightarrow> \<forall>(k, v) \<in> set vars. utf8_valid k \<and> utf8_valid v"
  by (induction n arbitrary: off vars) (fastforce simp: rbind_Ok_iff dest: decode_env_var_utf8)+

lemma decode_entry_utf8: "decode_entry s = Ok e \<Longrightarrow> entry_utf8 e"
  by (auto simp: decode_entry_def entry_utf8_def rbind_Ok_iff Let_def dest!: read_entry_str_Ok
      split: if_splits)

lemma decode_entries_utf8: "decode_entries p n off = Ok es \<Longrightarrow> \<forall>e \<in> set es. entry_utf8 e"
  by (induction n arbitrary: off es)
    (auto simp: rbind_Ok_iff Let_def dest: decode_entry_utf8 split: if_splits)

lemma decode_new_session_utf8: "decode_new_session p = Ok f \<Longrightarrow> frame_utf8 f"
  by (auto simp: decode_new_session_def rbind_Ok_iff Let_def dest!: take_str16_Ok split: if_splits)

lemma decode_attach_utf8: "decode_attach p = Ok f \<Longrightarrow> frame_utf8 f"
  by (auto simp: decode_attach_def rbind_Ok_iff Let_def dest!: take_str16_Ok)

lemma decode_text_utf8:
  "decode_rename_session p = Ok f \<Longrightarrow> frame_utf8 f"
  "decode_set_linger p = Ok f \<Longrightarrow> frame_utf8 f"
  "decode_error_frame p = Ok f \<Longrightarrow> frame_utf8 f"
  "decode_env p = Ok f \<Longrightarrow> frame_utf8 f"
  "decode_session_info p = Ok f \<Longrightarrow> frame_utf8 f"
  "decode_diag_response p = Ok f \<Longrightarrow> frame_utf8 f"
  by (auto simp: decode_rename_session_def decode_set_linger_def decode_error_frame_def
      decode_env_def decode_session_info_def decode_diag_response_def rbind_Ok_iff Let_def
      utf8_lossy_is_valid dest!: decode_env_vars_utf8 decode_entries_utf8 split: if_splits)

lemma decode_arms_utf8: "(ty, d) \<in> set decode_arms \<Longrightarrow> d p = Ok f \<Longrightarrow> frame_utf8 f"
  unfolding decode_arms_def
  by (auto simp: decode_resume_def decode_resize_def decode_exit_def decode_hello_def
      decode_hello_ack_def decode_id_def decode_tunnel_listen_def decode_send_offer_def
      decode_pf_listen_def decode_pf_open_def decode_pf_request_def decode_prefixed_def
      decode_attach_ack_def decode_str_def decode_string_def rbind_Ok_iff
      dest: decode_text_utf8 decode_new_session_utf8 decode_attach_utf8)

lemma decode_payload_utf8: "decode_payload ty p = Ok f \<Longrightarrow> frame_utf8 f"
  by (auto simp: decode_payload_def split: option.splits dest!: map_of_SomeD
      intro: decode_arms_utf8)

section \<open>What a call of the decoder can do\<close>

lemma framed_split:
  assumes "5 \<le> length src" and "be_nat (take 4 (drop 1 src)) + 5 \<le> length src"
  shows "src = framed (src ! 0) (take (be_nat (take 4 (drop 1 src))) (drop 5 src))
     @ drop (be_nat (take 4 (drop 1 src))) (drop 5 src)"
proof -
  obtain t b1 b2 b3 b4 r where src: "src = t # b1 # b2 # b3 # b4 # r"
    using assms(1) by (auto simp: numeral_eq_Suc Suc_le_length_iff)
  let ?n = "be_nat [b1, b2, b3, b4]"
  have n: "?n < 4294967296" using be_nat_less [of "[b1, b2, b3, b4]"] by simp
  have "put_u32 (word_of_nat ?n) = [b1, b2, b3, b4]"
    using n be_bytes_be_nat [of "[b1, b2, b3, b4]" 4] by (simp add: put_u32_def unat_of_nat)
  moreover have "length (take ?n r) = ?n"
    using assms(2) by (simp add: src)
  ultimately show ?thesis by (simp add: framed_def src)
qed

lemma decode_cases [case_names wait oversize frame]:
  obtains "decode src = (src, Ok None)"
  | n where "decode src = (src, Err (PayloadTooLarge n))" "MAX_FRAME_SIZE < n" "5 \<le> length src"
      "n = be_nat (take 4 (drop 1 src))"
  | ty body rest where "src = framed ty body @ rest" "length body \<le> MAX_FRAME_SIZE"
      "decode src = (rest, rbind (decode_payload ty body) (\<lambda>f. Ok (Some f)))"
proof (cases "length src < 5")
  case True
  then show ?thesis by (intro that(1)) (simp add: decode_def)
next
  case False
  let ?n = "be_nat (take 4 (drop 1 src))"
  consider "MAX_FRAME_SIZE < ?n" | "?n \<le> MAX_FRAME_SIZE" "length src < 5 + ?n"
    | "?n \<le> MAX_FRAME_SIZE" "?n + 5 \<le> length src" by linarith
  then show ?thesis
  proof cases
    case 1
    with False show ?thesis by (intro that(2) [of ?n]) (simp_all add: decode_def Let_def)
  next
    case 2
    with False show ?thesis by (intro that(1)) (simp add: decode_def Let_def)
  next
    case 3
    let ?body = "take ?n (drop 5 src)"
    have split: "src = framed (src ! 0) ?body @ drop ?n (drop 5 src)"
      using False 3(2) by (intro framed_split) auto
    have "length ?body \<le> MAX_FRAME_SIZE" using 3 by simp
    with split show ?thesis
      by (intro that(3) [OF split]) (metis decode_framed, metis decode_framed split)
  qed
qed

section \<open>Properties of the codec\<close>

text \<open>
  C1. Round trip: a well-formed frame encoded in front of anything decodes to the frame, and
  the decoder leaves exactly what followed it in the buffer.
\<close>

theorem decode_encode:
  "wf_frame f \<Longrightarrow> decode (encode f [] @ rest) = (rest, Ok (Some f))"
  by (rule wire.dec_enc)

text \<open>
  C2. Reassembly: frames written back to back arrive whole and in order, and the buffer ends
  empty, however the byte stream is cut into reads.
\<close>

theorem frames_survive_chunking:
  "\<forall>f \<in> set fs. wf_frame f \<Longrightarrow> concat chunks = concat (map (\<lambda>f. encode f []) fs) \<Longrightarrow>
     feed decode [] chunks = (fs, [])"
  by (rule wire.feed_chunks)

text \<open>
  C4. No input makes the decoder panic: every index and slice is guarded.
\<close>

theorem decode_never_panics: "snd (decode src) \<noteq> Panic"
  by (cases src rule: decode_cases) (simp_all add: decode_payload_Panic)



text \<open>
  Older clients: an \<open>Attach\<close> that stops after the \<open>force\<close> byte decodes, and every field
  added later takes its default.
\<close>

theorem decode_legacy_attach:
  assumes "str16_ok s" and "str16_ok cn"
  shows "decode (framed TYPE_ATTACH (put_str16 s @ put_str16 cn @ put_bool fo) @ rest)
    = (rest, Ok (Some (Attach s cn fo False 0 0 0 0 False)))"
proof -
  have "decode_attach (put_str16 s @ put_str16 cn @ put_bool fo)
      = Ok (Attach s cn fo False 0 0 0 0 False)"
    using assms by (simp add: decode_attach_def expect_min_len_def wire_simps Let_def
        u16_or_0_def u64_or_0_def get_flag_def idx_put_bool [of fo "[]", simplified])
  moreover have "decode_payload TYPE_ATTACH p = decode_attach p" for p
    by (simp add: decode_payload_def decode_arms_def)
  moreover have "length (put_str16 s @ put_str16 cn @ put_bool fo) \<le> MAX_FRAME_SIZE"
    using assms by (simp add: str16_ok_def)
  ultimately show ?thesis by (simp add: decode_framed)
qed

text \<open>
  The encoder truncates length prefixes silently: a rename whose session name has exactly
  65536 bytes goes out with length 0, and the peer decodes a rename of the empty name to the
  concatenation of both strings.
\<close>

theorem encode_truncates_length:
  assumes "length s = 65536" and "utf8_valid s" and "utf8_valid n" and "length n \<le> 900000"
  shows "decode (encode (RenameSession s n) []) = ([], Ok (Some (RenameSession [] (s @ n))))"
proof -
  let ?body = "put_u16 0 @ s @ n"
  have "(word_of_nat (length s) :: u16) = 0" unfolding assms(1) by simp
  then have "put_str16 s = put_u16 0 @ s"
    by (simp add: put_str16_def)
  then have enc: "encode (RenameSession s n) [] = framed TYPE_RENAME_SESSION ?body"
    by (simp add: encode_framed)
  have "decode_rename_session ?body = Ok (RenameSession [] (s @ n))"
    using assms utf8_valid_append [OF assms(2,3)]
    by (simp add: decode_rename_session_def wire_simps slice_range_def from_utf8_def Let_def)
  moreover have "decode_payload TYPE_RENAME_SESSION p = decode_rename_session p" for p
    by (simp add: decode_payload_def decode_arms_def)
  ultimately show ?thesis
    using decode_framed [of ?body TYPE_RENAME_SESSION "[]"] assms unfolding enc by simp
qed


section \<open>Witnesses\<close>

lemma str16_ok_work: "str16_ok (ascii ''laptop/work'')"
  by (simp add: str16_ok_def byte_class_defs)

theorem decode_encode_witness:
  "wf_frame (SetLinger (ascii ''laptop/work'') 3600)
   \<and> decode (encode (SetLinger (ascii ''laptop/work'') 3600) [] @ [0x14, 0])
     = ([0x14, 0], Ok (Some (SetLinger (ascii ''laptop/work'') 3600)))"
proof -
  have wf: "wf_frame (SetLinger (ascii ''laptop/work'') 3600)"
    by (simp only: wf_frame_def wf_fields.simps encode.simps encode_framed str16_ok_work
        length_append length_framed length_put_str16 length_ascii length_put) simp
  then show ?thesis using decode_encode [OF wf] by blast
qed

lemma be_bytes_zero: "be_bytes k 0 = replicate k 0"
  by (induction k) simp_all

lemma put_u32_0: "put_u32 0 = [0, 0, 0, 0]"
  by (simp add: put_u32_def be_bytes_zero numeral_eq_Suc)

lemma encode_ping_pong:
  "encode Ping [] = [0x14, 0, 0, 0, 0]" "encode Pong [] = [0x15, 0, 0, 0, 0]"
  by (simp_all add: encode_framed framed_def put_u32_0)

theorem frames_survive_chunking_witness:
  "feed decode [] [[0x14, 0], [0, 0], [0, 0x15, 0, 0, 0, 0]] = ([Ping, Pong], [])"
proof (rule frames_survive_chunking)
  show "\<forall>f \<in> set [Ping, Pong]. wf_frame f"
    unfolding wf_frame_def by (simp add: encode_ping_pong del: encode.simps)
  show "concat [[0x14, 0], [0, 0], [0, 0x15, 0, 0, 0, 0]]
      = concat (map (\<lambda>f. encode f []) [Ping, Pong])"
    by (simp add: encode_ping_pong del: encode.simps)
qed


theorem decode_legacy_attach_witness:
  "decode (framed TYPE_ATTACH (put_str16 (ascii ''laptop/work'') @ put_str16 (ascii ''laptop/work'')
     @ put_bool True) @ []) = ([], Ok (Some (Attach (ascii ''laptop/work'') (ascii ''laptop/work'')
     True False 0 0 0 0 False)))"
  by (rule decode_legacy_attach [OF str16_ok_work str16_ok_work])

theorem encode_truncates_length_witness:
  "decode (encode (RenameSession (replicate 65536 0x61) [0x78]) [])
     = ([], Ok (Some (RenameSession [] (replicate 65536 0x61 @ [0x78]))))"
  by (rule encode_truncates_length) (simp_all add: utf8_valid_ascii is_ascii_def)

end
