(* ===== verification/Strings.thy ===== *)
theory Strings
  imports Utf8
begin

text \<open>
  The functions of \<open>str\<close> the source uses, on the bytes of a string: prefixes and suffixes, splitting
  at an ASCII character, lines, trimming.
\<close>

definition starts_with :: "'a list \<Rightarrow> 'a list \<Rightarrow> bool" where
  "starts_with s p \<longleftrightarrow> take (length p) s = p"

definition strip_prefix :: "'a list \<Rightarrow> 'a list \<Rightarrow> 'a list option" where
  "strip_prefix p s = (if take (length p) s = p then Some (drop (length p) s) else None)"

definition strip_suffix :: "'a list \<Rightarrow> 'a list \<Rightarrow> 'a list option" where
  "strip_suffix p s =
     (if length p \<le> length s \<and> drop (length s - length p) s = p
      then Some (take (length s - length p) s) else None)"

text \<open>Splitting at the first and at the last occurrence of a character.\<close>

definition split_once :: "'a \<Rightarrow> 'a list \<Rightarrow> ('a list \<times> 'a list) option" where
  "split_once c s =
     (if c \<in> set s then Some (takeWhile (\<lambda>x. x \<noteq> c) s, tl (dropWhile (\<lambda>x. x \<noteq> c) s)) else None)"

definition rsplit_once :: "'a \<Rightarrow> 'a list \<Rightarrow> ('a list \<times> 'a list) option" where
  "rsplit_once c s =
     (if c \<in> set s
      then Some (rev (tl (dropWhile (\<lambda>x. x \<noteq> c) (rev s))), rev (takeWhile (\<lambda>x. x \<noteq> c) (rev s)))
      else None)"

text \<open>\<open>str::contains\<close> for a pattern.\<close>

fun contains :: "'a list \<Rightarrow> 'a list \<Rightarrow> bool" where
  "contains p [] \<longleftrightarrow> p = []"
| "contains p (c # cs) \<longleftrightarrow> starts_with (c # cs) p \<or> contains p cs"

text \<open>\<open>str::lines\<close>: pieces ended by a newline, without it and without a carriage return before it.\<close>

fun pieces :: "rstring \<Rightarrow> rstring \<Rightarrow> rstring list" where
  "pieces acc [] = (if acc = [] then [] else [acc])"
| "pieces acc (b # bs) =
     (if b = 0x0A then (if acc \<noteq> [] \<and> last acc = 0x0D then butlast acc else acc) # pieces [] bs
      else pieces (acc @ [b]) bs)"

definition lines :: "rstring \<Rightarrow> rstring list" where
  "lines s = pieces [] s"

text \<open>The encodings of the characters with the \<open>White_Space\<close> property.\<close>

definition whitespace :: "rstring list" where
  "whitespace =
     [[0x09], [0x0A], [0x0B], [0x0C], [0x0D], [0x20], [0xC2, 0x85], [0xC2, 0xA0], [0xE1, 0x9A, 0x80]]
     @ map (\<lambda>b. [0xE2, 0x80, b])
         [0x80, 0x81, 0x82, 0x83, 0x84, 0x85, 0x86, 0x87, 0x88, 0x89, 0x8A, 0xA8, 0xA9, 0xAF]
     @ [[0xE2, 0x81, 0x9F], [0xE3, 0x80, 0x80]]"

lemma whitespace_nonempty [simp]: "[] \<notin> set whitespace"
  by (simp add: whitespace_def)

function trim_start :: "rstring \<Rightarrow> rstring" where
  "trim_start s =
     (case find (\<lambda>w. starts_with s w) whitespace of Some w \<Rightarrow> trim_start (drop (length w) s) | None \<Rightarrow> s)"
  by pat_completeness auto
termination
proof (relation "measure length")
  fix s w
  assume "find (\<lambda>w. starts_with s w) whitespace = Some w"
  then have "w \<in> set whitespace" "starts_with s w" by (auto simp: find_Some_iff)
  moreover from this(1) have "w \<noteq> []" using whitespace_nonempty by metis
  ultimately have "0 < length w" "length w \<le> length s"
    by (auto simp: starts_with_def) (metis length_take min.cobounded1)
  then show "(drop (length w) s, s) \<in> measure length" by (simp, linarith)
qed simp

declare trim_start.simps [simp del]

function trim_end :: "rstring \<Rightarrow> rstring" where
  "trim_end s =
     (case find (\<lambda>w. strip_suffix w s \<noteq> None) whitespace of
        Some w \<Rightarrow> trim_end (take (length s - length w) s) | None \<Rightarrow> s)"
  by pat_completeness auto
termination
proof (relation "measure length")
  fix s w
  assume "find (\<lambda>w. strip_suffix w s \<noteq> None) whitespace = Some w"
  then have "w \<in> set whitespace" "strip_suffix w s \<noteq> None" by (auto simp: find_Some_iff)
  moreover from this(1) have "w \<noteq> []" using whitespace_nonempty by metis
  ultimately have "0 < length w" "length w \<le> length s" by (auto simp: strip_suffix_def split: if_splits)
  then show "(take (length s - length w) s, s) \<in> measure length" by (simp, linarith)
qed simp

declare trim_end.simps [simp del]

definition trim :: "rstring \<Rightarrow> rstring" where
  "trim s = trim_end (trim_start s)"

lemma trim_id:
  "find (\<lambda>w. starts_with s w) whitespace = None \<Longrightarrow> find (\<lambda>w. strip_suffix w s \<noteq> None) whitespace = None
     \<Longrightarrow> trim s = s"
  by (simp add: trim_def trim_start.simps [of s] trim_end.simps [of s])

lemma starts_with_append [simp]: "starts_with (p @ s) p"
  by (simp add: starts_with_def)

lemma strip_prefix_append [simp]: "strip_prefix p (p @ s) = Some s"
  by (simp add: strip_prefix_def)

lemma strip_suffix_append [simp]: "strip_suffix p (s @ p) = Some s"
  by (simp add: strip_suffix_def)

lemma split_once_append [simp]: "c \<notin> set s \<Longrightarrow> split_once c (s @ c # t) = Some (s, t)"
  by (simp add: split_once_def) (metis (mono_tags, lifting) append_Nil2 dropWhile_append2 list.sel(3)
      dropWhile.simps(2) takeWhile.simps(2) takeWhile_append2)

lemma rsplit_once_append [simp]: "c \<notin> set t \<Longrightarrow> rsplit_once c (s @ c # t) = Some (s, t)"
proof -
  assume c: "c \<notin> set t"
  have "takeWhile (\<lambda>x. x \<noteq> c) (rev t @ c # rev s) = rev t" by (subst takeWhile_append2) (use c in auto)
  moreover have "dropWhile (\<lambda>x. x \<noteq> c) (rev t @ c # rev s) = c # rev s"
    by (subst dropWhile_append2) (use c in auto)
  ultimately show ?thesis by (simp add: rsplit_once_def)
qed

lemma split_onceD: "split_once c s = Some (h, t) \<Longrightarrow> s = h @ c # t \<and> c \<notin> set h"
proof -
  assume "split_once c s = Some (h, t)"
  then have "c \<in> set s" "h = takeWhile (\<lambda>x. x \<noteq> c) s" "t = tl (dropWhile (\<lambda>x. x \<noteq> c) s)"
    by (auto simp: split_once_def split: if_splits)
  moreover from this(1) obtain r where "dropWhile (\<lambda>x. x \<noteq> c) s = c # r"
    by (metis (mono_tags, lifting) dropWhile_eq_Nil_conv hd_Cons_tl hd_dropWhile)
  ultimately show ?thesis
    by (metis (mono_tags, lifting) list.sel(3) set_takeWhileD takeWhile_dropWhile_id)
qed

lemma rsplit_onceD: "rsplit_once c s = Some (h, t) \<Longrightarrow> s = h @ c # t \<and> c \<notin> set t"
proof -
  assume "rsplit_once c s = Some (h, t)"
  then have "split_once c (rev s) = Some (rev t, rev h)"
    by (auto simp: rsplit_once_def split_once_def split: if_splits)
  from split_onceD [OF this] show ?thesis by (metis append.assoc append_Cons append_Nil rev_append rev_rev_ident
        rev.simps(2) set_rev)
qed

end
