(* ===== verification/Scanners.thy ===== *)
theory Scanners
  imports Strings
begin

text \<open>
  The interface of the streaming machines: PTY output reaches each of them in chunks cut at
  arbitrary bytes, and what a machine does may not depend on the cuts.  \<open>byte_fold\<close> is a
  machine that only has a state, \<open>byte_scanner\<close> one that also emits; both are stated over a
  one-byte step, and the lemmas about concatenated input and about invariants are proved here
  once for all of them.  The list functions of the Rust iterators follow.
\<close>

section \<open>Machines over bytes\<close>

locale byte_fold =
  fixes step :: "'s \<Rightarrow> 'b \<Rightarrow> 's"
    and scan :: "'s \<Rightarrow> 'b list \<Rightarrow> 's"
  assumes scan_Nil: "scan s [] = s"
    and scan_Cons: "scan s (b # bs) = scan (step s b) bs"
begin

lemma scan_append: "scan s (xs @ ys) = scan (scan s xs) ys"
  by (induction xs arbitrary: s) (simp_all add: scan_Nil scan_Cons)

lemma scan_concat: "scan s (concat cs) = foldl scan s cs"
  by (induction cs arbitrary: s) (simp_all add: scan_Nil scan_append)

lemma scan_inv:
  assumes "\<And>s b. I s \<Longrightarrow> I (step s b)" and "I s"
  shows "I (scan s bs)"
  using assms(2) by (induction bs arbitrary: s) (simp_all add: scan_Nil scan_Cons assms(1))

lemma scan_inv_on:
  assumes "\<And>s b. I s \<Longrightarrow> b \<in> B \<Longrightarrow> I (step s b)" and "I s" and "set bs \<subseteq> B"
  shows "I (scan s bs)"
  using assms(2,3) by (induction bs arbitrary: s) (simp_all add: scan_Nil scan_Cons assms(1))

end

text \<open>Running a machine with output over a list of chunks.\<close>

fun scan_chunks :: "('s \<Rightarrow> 'b list \<Rightarrow> 's \<times> 'o list) \<Rightarrow> 's \<Rightarrow> 'b list list \<Rightarrow> 's \<times> 'o list" where
  "scan_chunks scan s [] = (s, [])"
| "scan_chunks scan s (c # cs) =
     (let (s1, o1) = scan s c; (s2, o2) = scan_chunks scan s1 cs in (s2, o1 @ o2))"

locale byte_scanner =
  fixes step :: "'s \<Rightarrow> 'b \<Rightarrow> 's \<times> 'o list"
    and scan :: "'s \<Rightarrow> 'b list \<Rightarrow> 's \<times> 'o list"
  assumes scan_Nil: "scan s [] = (s, [])"
    and scan_Cons: "scan s (b # bs) =
      (let (s1, o1) = step s b; (s2, o2) = scan s1 bs in (s2, o1 @ o2))"
begin

lemma scan_append:
  "scan s (xs @ ys) = (let (s1, o1) = scan s xs; (s2, o2) = scan s1 ys in (s2, o1 @ o2))"
proof (induction xs arbitrary: s)
  case Nil
  show ?case by (simp add: scan_Nil split: prod.splits)
next
  case (Cons b xs)
  show ?case by (simp add: scan_Cons Cons split: prod.splits)
qed

lemma scan_concat: "scan s (concat cs) = scan_chunks scan s cs"
  by (induction cs arbitrary: s) (simp_all add: scan_Nil scan_append)

lemma scan_inv:
  assumes "\<And>s b. I s \<Longrightarrow> I (fst (step s b))" and "I s"
  shows "I (fst (scan s bs))"
  using assms(2)
proof (induction bs arbitrary: s)
  case (Cons b bs)
  from Cons.prems have "I (fst (step s b))" by (rule assms(1))
  then have "I (fst (scan (fst (step s b)) bs))" by (rule Cons.IH)
  then show ?case by (simp add: scan_Cons case_prod_beta Let_def)
qed (simp add: scan_Nil)

end

text \<open>The state and everything emitted so far is again a machine without output.\<close>

sublocale byte_scanner \<subseteq> acc: byte_fold
  "\<lambda>(s, out) b. let (s', o') = step s b in (s', out @ o')"
  "\<lambda>(s, out) bs. let (s', o') = scan s bs in (s', out @ o')"
  by unfold_locales (simp_all add: scan_Nil scan_Cons split: prod.splits)

section \<open>Iterator and slice functions\<close>

text \<open>\<open>iter().position(P)\<close>\<close>

fun position :: "('a \<Rightarrow> bool) \<Rightarrow> 'a list \<Rightarrow> nat option" where
  "position P [] = None"
| "position P (x # xs) = (if P x then Some 0 else map_option Suc (position P xs))"

lemma position_Some: "position P xs = Some i \<Longrightarrow> i < length xs \<and> P (xs ! i)"
  by (induction xs arbitrary: i) (auto split: if_splits)

lemma position_None: "position P xs = None \<longleftrightarrow> (\<forall>x \<in> set xs. \<not> P x)"
  by (induction xs) auto

text \<open>\<open>slice.split(P)\<close> and \<open>str.split(c)\<close>: the pieces between the separators, at least one.\<close>

fun split_on :: "('a \<Rightarrow> bool) \<Rightarrow> 'a list \<Rightarrow> 'a list list" where
  "split_on P [] = [[]]"
| "split_on P (x # xs) =
     (if P x then [] # split_on P xs
      else (case split_on P xs of [] \<Rightarrow> [[x]] | p # ps \<Rightarrow> (x # p) # ps))"

lemma split_on_nonempty [simp]: "split_on P xs \<noteq> []"
  by (induction xs) (auto split: list.splits)

lemma split_on_none: "\<forall>x \<in> set xs. \<not> P x \<Longrightarrow> split_on P xs = [xs]"
  by (induction xs) auto

lemma split_on_append_sep:
  "\<forall>x \<in> set xs. \<not> P x \<Longrightarrow> P s \<Longrightarrow> split_on P (xs @ s # ys) = xs # split_on P ys"
  by (induction xs) auto

text \<open>\<open>slice.join(sep)\<close>\<close>

fun join :: "'a list \<Rightarrow> 'a list list \<Rightarrow> 'a list" where
  "join sep [] = []"
| "join sep [x] = x"
| "join sep (x # y # ys) = x @ sep @ join sep (y # ys)"

lemma split_join:
  "xs \<noteq> [] \<Longrightarrow> \<forall>x \<in> set xs. \<forall>c \<in> set x. c \<noteq> s \<Longrightarrow> split_on (\<lambda>c. c = s) (join [s] xs) = xs"
  by (induction "[s]" xs rule: join.induct) (auto simp: split_on_none split_on_append_sep)

end
