(* ===== verification/Term_Modes.thy ===== *)
theory Term_Modes
  imports Scanners
begin

text \<open>
  \<open>src/src/term_modes.rs\<close> and \<open>src/src/alt_screen.rs\<close>: the streaming parser of private mode
  changes, the tracker of the modes a terminal should have with the sequence that restores
  them, and the tracker of the alternate screen.
\<close>

section \<open>The private-mode parser\<close>

abbreviation (input) MAX_MODES_PER_SEQUENCE :: nat where "MAX_MODES_PER_SEQUENCE \<equiv> 16"

datatype ModeEvent = Changed u16 bool | FullReset

datatype ScanState = Ground | Esc | Csi | Params

record PrivateModeScanner =
  sstate :: ScanState
  modes :: "u16 list"
  mode_count :: nat
  partial_mode :: "u16 option"

definition scanner_new :: PrivateModeScanner where
  "scanner_new = \<lparr>sstate = Ground, modes = replicate MAX_MODES_PER_SEQUENCE 0, mode_count = 0,
     partial_mode = None\<rparr>"

definition scanner_reset :: "PrivateModeScanner \<Rightarrow> PrivateModeScanner" where
  "scanner_reset s = scanner_new"

definition checked_mul_u16 :: "u16 \<Rightarrow> u16 \<Rightarrow> u16 option" where
  "checked_mul_u16 a b = (if unat a * unat b < 65536 then Some (a * b) else None)"

definition checked_add_u16 :: "u16 \<Rightarrow> u16 \<Rightarrow> u16 option" where
  "checked_add_u16 a b = (if unat a + unat b < 65536 then Some (a + b) else None)"

definition push_digit :: "PrivateModeScanner \<Rightarrow> u8 \<Rightarrow> PrivateModeScanner \<times> ScanState" where
  "push_digit s d =
     (let widened = Option.bind
            (checked_mul_u16 (case partial_mode s of Some m \<Rightarrow> m | None \<Rightarrow> 0) 10)
            (\<lambda>m. checked_add_u16 m (ucast d))
      in (s\<lparr>partial_mode := widened\<rparr>, if widened \<noteq> None then Params else Ground))"

definition end_mode_number :: "PrivateModeScanner \<Rightarrow> PrivateModeScanner \<times> ScanState" where
  "end_mode_number s =
     (case partial_mode s of
        None \<Rightarrow> (s, Params)
      | Some mode \<Rightarrow>
          let s = s\<lparr>partial_mode := None\<rparr> in
          if mode_count s = MAX_MODES_PER_SEQUENCE then (s, Ground)
          else (s\<lparr>modes := (modes s)[mode_count s := mode], mode_count := mode_count s + 1\<rparr>, Params))"

text \<open>One byte: the code's \<open>match (self.state, byte)\<close>, arm by arm.\<close>

definition scan_step :: "PrivateModeScanner \<Rightarrow> byte \<Rightarrow> PrivateModeScanner \<times> ModeEvent list" where
  "scan_step s b =
     (if b = 0x1B then (s\<lparr>sstate := Esc\<rparr>, [])
      else if sstate s = Esc \<and> b = 0x5B then (s\<lparr>sstate := Csi\<rparr>, [])
      else if sstate s = Esc \<and> b = 0x63 then (s\<lparr>sstate := Ground\<rparr>, [FullReset])
      else if sstate s = Csi \<and> b = 0x3F then
        (s\<lparr>mode_count := 0, partial_mode := None, sstate := Params\<rparr>, [])
      else if sstate s = Params \<and> 0x30 \<le> b \<and> b \<le> 0x39 then
        (let (s', st) = push_digit s (b - 0x30) in (s'\<lparr>sstate := st\<rparr>, []))
      else if sstate s = Params \<and> b = 0x3B then
        (let (s', st) = end_mode_number s in (s'\<lparr>sstate := st\<rparr>, []))
      else if sstate s = Params \<and> (b = 0x68 \<or> b = 0x6C) then
        (let (s', st) = end_mode_number s in
         (s'\<lparr>sstate := Ground\<rparr>,
          if st = Params then map (\<lambda>mode. Changed mode (b = 0x68)) (take (mode_count s') (modes s'))
          else []))
      else (s\<lparr>sstate := Ground\<rparr>, []))"

fun scan_modes :: "PrivateModeScanner \<Rightarrow> byte list \<Rightarrow> PrivateModeScanner \<times> ModeEvent list" where
  "scan_modes s [] = (s, [])"
| "scan_modes s (b # bs) =
     (let (s1, o1) = scan_step s b; (s2, o2) = scan_modes s1 bs in (s2, o1 @ o2))"

interpretation mode_scanner: byte_scanner scan_step scan_modes
  by unfold_locales simp_all

section \<open>The mode tracker\<close>

record TrackedMode =
  number :: u16
  is_set_by_default :: bool

definition off_by_default :: "u16 \<Rightarrow> TrackedMode" where
  "off_by_default n = \<lparr>number = n, is_set_by_default = False\<rparr>"

definition on_by_default :: "u16 \<Rightarrow> TrackedMode" where
  "on_by_default n = \<lparr>number = n, is_set_by_default = True\<rparr>"

definition TRACKED_MODES :: "TrackedMode list" where
  "TRACKED_MODES =
    [off_by_default 1, on_by_default 7, off_by_default 9, on_by_default 25,
     off_by_default 1000, off_by_default 1002, off_by_default 1003, off_by_default 1004,
     off_by_default 1005, off_by_default 1006, off_by_default 1015, off_by_default 1016,
     off_by_default 2004, off_by_default 2026, off_by_default 2031, off_by_default 2048]"

record TermModeTracker =
  tscanner :: PrivateModeScanner
  is_set :: "bool list"

definition default_mode_states :: "bool list" where
  "default_mode_states = map is_set_by_default TRACKED_MODES"

definition tracker_new :: TermModeTracker where
  "tracker_new = \<lparr>tscanner = scanner_new, is_set = default_mode_states\<rparr>"

definition apply_event :: "bool list \<Rightarrow> ModeEvent \<Rightarrow> bool list" where
  "apply_event st ev =
     (case ev of
        FullReset \<Rightarrow> default_mode_states
      | Changed mode v \<Rightarrow>
          (case position (\<lambda>t. number t = mode) TRACKED_MODES of
             Some i \<Rightarrow> st[i := v]
           | None \<Rightarrow> st))"

definition tracker_scan :: "TermModeTracker \<Rightarrow> byte list \<Rightarrow> TermModeTracker" where
  "tracker_scan t data =
     (let (sc, evs) = scan_modes (tscanner t) data
      in \<lparr>tscanner = sc, is_set = foldl apply_event (is_set t) evs\<rparr>)"

definition mode_numbers :: "TermModeTracker \<Rightarrow> bool \<Rightarrow> rstring" where
  "mode_numbers t wanted =
     join [0x3B] (map (\<lambda>(tracked, _). dec (unat (number tracked)))
       (filter (\<lambda>(_, s). s = wanted) (zip TRACKED_MODES (is_set t))))"

definition sync_sequence :: "TermModeTracker \<Rightarrow> rstring" where
  "sync_sequence t =
     concat (map (\<lambda>(numbers, terminator).
         if numbers \<noteq> [] then [0x1B, 0x5B, 0x3F] @ numbers @ [terminator] else [])
       [(mode_numbers t False, 0x6C), (mode_numbers t True, 0x68)])"

definition default_mode_sequence :: rstring where
  "default_mode_sequence = sync_sequence tracker_new"

section \<open>The alternate screen\<close>

record AltScreenTracker =
  ascanner :: PrivateModeScanner
  in_alt :: bool

definition alt_new :: AltScreenTracker where
  "alt_new = \<lparr>ascanner = scanner_new, in_alt = False\<rparr>"

definition in_alternate_screen :: "AltScreenTracker \<Rightarrow> bool" where
  "in_alternate_screen a = in_alt a"

definition alt_event :: "bool \<Rightarrow> ModeEvent \<Rightarrow> bool" where
  "alt_event cur ev =
     (case ev of Changed mode entering \<Rightarrow>
        if mode = 1049 \<or> mode = 1047 \<or> mode = 47 then entering else cur
      | _ \<Rightarrow> cur)"

definition alt_scan :: "AltScreenTracker \<Rightarrow> byte list \<Rightarrow> AltScreenTracker" where
  "alt_scan a data =
     (let (sc, evs) = scan_modes (ascanner a) data
      in \<lparr>ascanner = sc, in_alt = foldl alt_event (in_alt a) evs\<rparr>)"

definition note_left :: "AltScreenTracker \<Rightarrow> AltScreenTracker" where
  "note_left a = \<lparr>ascanner = scanner_reset (ascanner a), in_alt = False\<rparr>"

text \<open>Both trackers are machines over the chunks of the stream.\<close>

interpretation term_tracker: byte_fold "\<lambda>t b. tracker_scan t [b]" tracker_scan
proof unfold_locales
  show "tracker_scan t [] = t" for t by (simp add: tracker_scan_def)
  show "tracker_scan t (b # bs) = tracker_scan (tracker_scan t [b]) bs" for t b bs
    by (simp add: tracker_scan_def Let_def split: prod.splits)
qed

interpretation alt_tracker: byte_fold "\<lambda>a b. alt_scan a [b]" alt_scan
proof unfold_locales
  show "alt_scan a [] = a" for a by (simp add: alt_scan_def)
  show "alt_scan a (b # bs) = alt_scan (alt_scan a [b]) bs" for a b bs
    by (simp add: alt_scan_def Let_def split: prod.splits)
qed

end
