(* ===== verification/Term_Modes_Proofs.thy ===== *)
theory Term_Modes_Proofs
  imports Term_Modes
begin

text \<open>
  The restore sequence of the mode tracker brings any terminal into the tracked state, the
  alternate-screen flag follows the last transition of the stream, and neither depends on how
  the stream is cut into chunks.
\<close>

section \<open>Parsing a list of numbers\<close>

definition dec_from :: "nat \<Rightarrow> byte list \<Rightarrow> nat" where
  "dec_from v bs = foldl (\<lambda>acc b. acc * 10 + digit_val b) v bs"

lemma dec_from_simps [simp]:
  "dec_from v [] = v" "dec_from v (b # bs) = dec_from (v * 10 + digit_val b) bs"
  by (simp_all add: dec_from_def)

lemma dec_from_ge: "v \<le> dec_from v bs"
proof (induction bs arbitrary: v)
  case (Cons b bs)
  show ?case using Cons [of "v * 10 + digit_val b"] by simp
qed simp

lemma dec_from_dec: "dec_from 0 (dec n) = n"
  using undec_dec [of n] by (simp add: dec_from_def undec_def)

lemma digit_bounds: "is_digit b \<Longrightarrow> 48 \<le> unat b \<and> unat b \<le> 57"
  by (simp add: is_digit_def word_le_nat_alt)

lemma unat_digit_sub:
  assumes "is_digit b"
  shows "unat (b - 0x30) = digit_val b"
proof -
  have "unat (b - 0x30) = unat b - unat (0x30 :: byte)"
    using assms by (intro unat_sub) (simp add: is_digit_def)
  then show ?thesis by (simp add: digit_val_def)
qed

lemma digit_val_le: "is_digit b \<Longrightarrow> digit_val b \<le> 9"
  unfolding digit_val_def by (drule digit_bounds) arith

lemma digit_not_special: "is_digit b \<Longrightarrow> b \<noteq> 0x1B \<and> b \<noteq> 0x3B \<and> b \<noteq> 0x68 \<and> b \<noteq> 0x6C"
  using digit_bounds [of b] by auto

lemma unat_u16_of_nat: "n < 65536 \<Longrightarrow> unat (word_of_nat n :: u16) = n"
  by (simp add: unat_of_nat)

lemma checked_u16:
  assumes "v * 10 + digit_val b < 65536" and "is_digit b"
  shows "Option.bind (checked_mul_u16 (word_of_nat v) 10) (\<lambda>m. checked_add_u16 m (ucast (b - 0x30)))
    = Some (word_of_nat (v * 10 + digit_val b))"
proof -
  have uc: "(ucast (b - 0x30 :: byte) :: u16) = word_of_nat (digit_val b)"
    unfolding unat_digit_sub [OF assms(2), symmetric] by simp
  have m: "checked_mul_u16 (word_of_nat v) 10 = Some (word_of_nat (v * 10))"
    using assms(1) by (simp add: checked_mul_u16_def unat_u16_of_nat)
  have "unat (word_of_nat (v * 10) :: u16) + unat (word_of_nat (digit_val b) :: u16) < 65536"
    using assms(1) by (simp add: unat_u16_of_nat del: of_nat_mult)
  then have "checked_add_u16 (word_of_nat (v * 10)) (word_of_nat (digit_val b))
      = Some (word_of_nat (v * 10 + digit_val b))"
    by (simp add: checked_add_u16_def)
  with m show ?thesis unfolding uc by simp
qed

lemma scan_digit:
  assumes "sstate s = Params" and "is_digit b" and "dec_from v (b # bs) < 65536"
    and "partial_mode s = Some (word_of_nat v) \<or> partial_mode s = None \<and> v = 0"
  shows "scan_step s b
    = (s\<lparr>partial_mode := Some (word_of_nat (v * 10 + digit_val b))\<rparr>, [])"
proof -
  have lt: "v * 10 + digit_val b < 65536"
    using assms(3) dec_from_ge [of "v * 10 + digit_val b" bs] by simp
  have pm: "(case partial_mode s of Some m \<Rightarrow> m | None \<Rightarrow> 0) = word_of_nat v"
    using assms(4) by auto
  have "push_digit s (b - 0x30)
      = (s\<lparr>partial_mode := Some (word_of_nat (v * 10 + digit_val b))\<rparr>, Params)"
    unfolding push_digit_def pm checked_u16 [OF lt assms(2)] by simp
  then show ?thesis
    using assms(1,2) digit_not_special [OF assms(2)]
    by (simp add: scan_step_def is_digit_def)
qed

lemma scan_digits:
  assumes "sstate s = Params" and "\<forall>b \<in> set bs. is_digit b" and "dec_from v bs < 65536"
    and "bs \<noteq> []" and "partial_mode s = Some (word_of_nat v) \<or> partial_mode s = None \<and> v = 0"
  shows "scan_modes s bs = (s\<lparr>partial_mode := Some (word_of_nat (dec_from v bs))\<rparr>, [])"
  using assms
proof (induction bs arbitrary: s v)
  case (Cons b bs)
  have st: "scan_step s b = (s\<lparr>partial_mode := Some (word_of_nat (v * 10 + digit_val b))\<rparr>, [])"
    using Cons.prems by (intro scan_digit) auto
  show ?case
  proof (cases "bs = []")
    case True
    with st show ?thesis by simp
  next
    case False
    then have "scan_modes (s\<lparr>partial_mode := Some (word_of_nat (v * 10 + digit_val b))\<rparr>) bs
      = (s\<lparr>partial_mode := Some (word_of_nat (dec_from (v * 10 + digit_val b) bs))\<rparr>, [])"
      using Cons.prems Cons.IH [of "s\<lparr>partial_mode := Some (word_of_nat (v * 10 + digit_val b))\<rparr>"
        "v * 10 + digit_val b"] by simp
    with st show ?thesis by simp
  qed
qed simp

lemma scan_number:
  assumes "sstate s = Params" and "partial_mode s = None"
  shows "scan_modes s (dec (unat n)) = (s\<lparr>partial_mode := Some n\<rparr>, [])"
proof -
  have "unat (n :: u16) < 65536" using unsigned_less [of n, where 'a = nat] by simp
  then show ?thesis
    using scan_digits [of s "dec (unat n)" 0] assms dec_digits [of _ "unat n"]
    by (simp add: dec_from_dec)
qed

lemma end_mode_number_Some:
  "partial_mode s = Some n \<Longrightarrow> mode_count s < 16 \<Longrightarrow> end_mode_number s
    = (s\<lparr>partial_mode := None, modes := (modes s)[mode_count s := n],
        mode_count := mode_count s + 1\<rparr>, Params)"
  by (simp add: end_mode_number_def Let_def)

text \<open>The numbers of a sequence, separated by semicolons and ended by \<open>h\<close> or \<open>l\<close>.\<close>

definition finished :: "PrivateModeScanner \<Rightarrow> u16 list \<Rightarrow> bool" where
  "finished s ns \<longleftrightarrow> sstate s = Params \<and> length (modes s) = 16 \<and> partial_mode s = None
     \<and> mode_count s + length ns \<le> 16"

lemma scan_terminator:
  assumes "sstate s = Params" and "partial_mode s = Some n" and "mode_count s < 16"
    and "length (modes s) = 16" and "b = 0x68 \<or> b = 0x6C"
  shows "\<exists>s'. scan_step s b
    = (s', map (\<lambda>m. Changed m (b = 0x68)) (take (mode_count s) (modes s) @ [n]))
      \<and> sstate s' = Ground \<and> length (modes s') = 16"
  using assms
  by (auto simp: scan_step_def end_mode_number_Some take_Suc_conv_app_nth take_update_cancel)

lemma scan_numbers:
  assumes "ns \<noteq> []" and "finished s ns" and "b = 0x68 \<or> b = 0x6C"
  shows "\<exists>s'. scan_modes s (join [0x3B] (map (\<lambda>n. dec (unat n)) ns) @ [b])
    = (s', map (\<lambda>m. Changed m (b = 0x68)) (take (mode_count s) (modes s) @ ns))
      \<and> sstate s' = Ground \<and> length (modes s') = 16"
  using assms(1,2)
proof (induction ns arbitrary: s rule: list_nonempty_induct)
  case (single n)
  then have d: "scan_modes s (dec (unat n)) = (s\<lparr>partial_mode := Some n\<rparr>, [])"
    by (intro scan_number) (simp_all add: finished_def)
  obtain s' where "scan_step (s\<lparr>partial_mode := Some n\<rparr>) b
      = (s', map (\<lambda>m. Changed m (b = 0x68)) (take (mode_count s) (modes s) @ [n]))"
      "sstate s' = Ground" "length (modes s') = 16"
    using single assms(3) scan_terminator [of "s\<lparr>partial_mode := Some n\<rparr>" n b]
    by (auto simp: finished_def)
  with d show ?case by (simp add: mode_scanner.scan_append)
next
  case (cons n ns)
  let ?s1 = "s\<lparr>partial_mode := Some n\<rparr>"
  let ?s2 = "s\<lparr>modes := (modes s)[mode_count s := n], mode_count := mode_count s + 1\<rparr>"
  have d: "scan_modes s (dec (unat n)) = (?s1, [])"
    using cons.prems by (intro scan_number) (simp_all add: finished_def)
  have lt: "mode_count s < 16" using cons by (cases ns) (auto simp: finished_def)
  have sep: "scan_step ?s1 0x3B = (?s2, [])"
    using cons.prems lt by (simp add: scan_step_def end_mode_number_Some finished_def)
  have "finished ?s2 ns" using cons.prems by (simp add: finished_def)
  then obtain s' where IH: "scan_modes ?s2 (join [0x3B] (map (\<lambda>n. dec (unat n)) ns) @ [b])
      = (s', map (\<lambda>m. Changed m (b = 0x68)) (take (mode_count ?s2) (modes ?s2) @ ns))"
      "sstate s' = Ground" "length (modes s') = 16"
    using cons.IH by blast
  have "join [0x3B] (map (\<lambda>n. dec (unat n)) (n # ns))
      = dec (unat n) @ [0x3B] @ join [0x3B] (map (\<lambda>n. dec (unat n)) ns)"
    using cons.hyps by (cases ns) simp_all
  then have "scan_modes s (join [0x3B] (map (\<lambda>n. dec (unat n)) (n # ns)) @ [b])
      = (s', map (\<lambda>m. Changed m (b = 0x68)) (take (mode_count ?s2) (modes ?s2) @ ns))"
    using d sep IH(1) by (simp add: mode_scanner.scan_append del: join.simps)
  moreover have "take (mode_count ?s2) (modes ?s2) = take (mode_count s) (modes s) @ [n]"
    using cons.prems lt by (simp add: finished_def take_Suc_conv_app_nth take_update_cancel)
  ultimately show ?case using IH(2,3) by auto
qed

lemma scan_sequence:
  assumes "ns \<noteq> []" and "length ns \<le> 16" and "length (modes s) = 16" and "b = 0x68 \<or> b = 0x6C"
  shows "\<exists>s'. scan_modes s ([0x1B, 0x5B, 0x3F] @ join [0x3B] (map (\<lambda>n. dec (unat n)) ns) @ [b])
    = (s', map (\<lambda>m. Changed m (b = 0x68)) ns) \<and> sstate s' = Ground \<and> length (modes s') = 16"
proof -
  let ?s = "s\<lparr>mode_count := 0, partial_mode := None, sstate := Params\<rparr>"
  have "scan_modes s [0x1B, 0x5B, 0x3F] = (?s, [])"
    by (simp add: scan_step_def)
  moreover have "\<exists>s'. scan_modes ?s (join [0x3B] (map (\<lambda>n. dec (unat n)) ns) @ [b])
    = (s', map (\<lambda>m. Changed m (b = 0x68)) ns) \<and> sstate s' = Ground \<and> length (modes s') = 16"
    using scan_numbers [of ns ?s b] assms by (simp add: finished_def)
  ultimately show ?thesis
    unfolding mode_scanner.scan_append [of s "[0x1B, 0x5B, 0x3F]"] by fastforce
qed

section \<open>What the sequences do to the tracked modes\<close>

definition tracker_ok :: "TermModeTracker \<Rightarrow> bool" where
  "tracker_ok t \<longleftrightarrow> length (is_set t) = length TRACKED_MODES \<and> length (modes (tscanner t)) = 16"

lemma length_tracked [simp]: "length TRACKED_MODES = 16"
  by (simp add: TRACKED_MODES_def)

lemma length_defaults [simp]: "length default_mode_states = 16"
  by (simp add: default_mode_states_def)

lemma distinct_tracked: "distinct (map number TRACKED_MODES)"
  by (simp add: TRACKED_MODES_def off_by_default_def on_by_default_def)

lemma scan_step_modes: "length (modes (fst (scan_step s b))) = length (modes s)"
  by (simp add: scan_step_def push_digit_def end_mode_number_def Let_def split: option.splits)

lemma scan_modes_length: "length (modes (fst (scan_modes s bs))) = length (modes s)"
  by (rule mode_scanner.scan_inv) (simp_all add: scan_step_modes)

lemma length_apply_event [simp]: "length st = 16 \<Longrightarrow> length (apply_event st ev) = 16"
  by (simp add: apply_event_def split: ModeEvent.splits option.splits)

lemma length_apply_events [simp]: "length st = 16 \<Longrightarrow> length (foldl apply_event st evs) = 16"
  by (induction evs arbitrary: st) simp_all

lemma tracker_ok_new: "tracker_ok tracker_new"
  by (simp add: tracker_ok_def tracker_new_def scanner_new_def)

lemma tracker_ok_scan: "tracker_ok t \<Longrightarrow> tracker_ok (tracker_scan t bs)"
  using scan_modes_length [of "tscanner t" bs]
  by (simp add: tracker_ok_def tracker_scan_def split_beta)

lemma tracker_ok_reachable: "tracker_ok (tracker_scan tracker_new bs)"
  by (intro tracker_ok_scan tracker_ok_new)

lemma apply_changed_nth:
  assumes "length st = 16" and "i < 16"
  shows "apply_event st (Changed m v) ! i = (if number (TRACKED_MODES ! i) = m then v else st ! i)"
proof (cases "position (\<lambda>t. number t = m) TRACKED_MODES")
  case None
  then have "number (TRACKED_MODES ! i) \<noteq> m"
    using assms nth_mem [of i TRACKED_MODES] by (auto simp: position_None)
  with None show ?thesis by (simp add: apply_event_def)
next
  case (Some j)
  from position_Some [OF this] have j: "j < 16" "number (TRACKED_MODES ! j) = m" by simp_all
  have "number (TRACKED_MODES ! i) = m \<longleftrightarrow> i = j"
    using j assms(2) nth_eq_iff_index_eq [OF distinct_tracked, of i j] by auto
  with Some j assms show ?thesis by (auto simp: apply_event_def)
qed

lemma apply_changes_nth:
  assumes "length st = 16" and "i < 16"
  shows "foldl apply_event st (map (\<lambda>m. Changed m v) ns) ! i
    = (if number (TRACKED_MODES ! i) \<in> set ns then v else st ! i)"
  using assms(1)
  by (induction ns arbitrary: st) (auto simp: apply_changed_nth assms(2))

section \<open>The restore sequence\<close>

definition wanted_numbers :: "bool list \<Rightarrow> bool \<Rightarrow> u16 list" where
  "wanted_numbers st w =
     map (\<lambda>(tracked, _). number tracked) (filter (\<lambda>(_, s). s = w) (zip TRACKED_MODES st))"

lemma mode_numbers_alt:
  "mode_numbers t w = join [0x3B] (map (\<lambda>n. dec (unat n)) (wanted_numbers (is_set t) w))"
  by (simp add: mode_numbers_def wanted_numbers_def comp_def case_prod_unfold)

lemma wanted_numbers_iff:
  assumes "length st = 16" and "i < 16"
  shows "number (TRACKED_MODES ! i) \<in> set (wanted_numbers st w) \<longleftrightarrow> st ! i = w"
proof -
  have "number (TRACKED_MODES ! i) = number (TRACKED_MODES ! j) \<longleftrightarrow> i = j" if "j < 16" for j
    using that assms(2) nth_eq_iff_index_eq [OF distinct_tracked, of i j] by auto
  then show ?thesis
    using assms by (auto simp: wanted_numbers_def in_set_zip image_iff Bex_def)
qed

lemma length_wanted: "length (wanted_numbers st w) \<le> 16"
  using length_filter_le [of "\<lambda>(_, s). s = w" "zip TRACKED_MODES st"]
  by (simp add: wanted_numbers_def)

lemma join_nonempty: "xs \<noteq> [] \<Longrightarrow> \<forall>x \<in> set xs. x \<noteq> [] \<Longrightarrow> join sep xs \<noteq> []"
  by (induction sep xs rule: join.induct) simp_all

definition sync_part :: "bool list \<Rightarrow> bool \<Rightarrow> rstring" where
  "sync_part st w =
     (let ns = wanted_numbers st w in
      if ns = [] then []
      else [0x1B, 0x5B, 0x3F] @ join [0x3B] (map (\<lambda>n. dec (unat n)) ns)
             @ [if w then 0x68 else 0x6C])"

lemma sync_sequence_parts: "sync_sequence t = sync_part (is_set t) False @ sync_part (is_set t) True"
proof -
  have e: "join [0x3B] (map (\<lambda>n. dec (unat n)) ns) = [] \<longleftrightarrow> ns = []" for ns :: "u16 list"
    using join_nonempty [of "map (\<lambda>n. dec (unat n)) ns" "[0x3B]"] by auto
  show ?thesis
    by (simp add: sync_sequence_def sync_part_def Let_def mode_numbers_alt e)
qed

lemma sync_part_events:
  assumes "length (modes s) = 16"
  shows "snd (scan_modes s (sync_part st w)) = map (\<lambda>m. Changed m w) (wanted_numbers st w)"
proof (cases "wanted_numbers st w = []")
  case False
  have "(if w then 0x68 else 0x6C :: byte) = 0x68 \<or> (if w then 0x68 else 0x6C :: byte) = 0x6C"
    by simp
  from scan_sequence [OF False length_wanted assms this] False show ?thesis
    by (cases w) (auto simp: sync_part_def Let_def)
qed (simp add: sync_part_def)

lemma tracker_sync_part:
  assumes "tracker_ok t" and "length st = 16" and "i < 16"
  shows "is_set (tracker_scan t (sync_part st w)) ! i = (if st ! i = w then w else is_set t ! i)"
  using assms sync_part_events [of "tscanner t" st w]
  by (simp add: tracker_scan_def tracker_ok_def apply_changes_nth wanted_numbers_iff split_beta)

lemma tracker_sync:
  assumes "tracker_ok t" and "tracker_ok t0"
  shows "is_set (tracker_scan t0 (sync_sequence t)) = is_set t"
proof (rule nth_equalityI)
  let ?t1 = "tracker_scan t0 (sync_part (is_set t) False)"
  have eq: "tracker_scan t0 (sync_sequence t) = tracker_scan ?t1 (sync_part (is_set t) True)"
    by (simp add: sync_sequence_parts term_tracker.scan_append)
  have ok: "tracker_ok ?t1" "tracker_ok (tracker_scan t0 (sync_sequence t))"
    by (simp_all add: assms tracker_ok_scan)
  then show "length (is_set (tracker_scan t0 (sync_sequence t))) = length (is_set t)"
    using assms by (simp add: tracker_ok_def)
  fix i assume "i < length (is_set (tracker_scan t0 (sync_sequence t)))"
  with ok assms have "i < 16" "length (is_set t) = 16" by (simp_all add: tracker_ok_def)
  then show "is_set (tracker_scan t0 (sync_sequence t)) ! i = is_set t ! i"
    unfolding eq using ok(1) assms(2) by (auto simp: tracker_sync_part)
qed

text \<open>
  Whatever bytes a session produced, the sequence the server sends on a resume brings the
  modes of any terminal into the tracked state: a terminal in an arbitrary state (any bytes,
  even one cut inside an escape sequence) that receives \<open>sync_sequence\<close> holds exactly the modes
  the session's tracker holds.
\<close>

theorem sync_sequence_restores:
  "is_set (tracker_scan (tracker_scan tracker_new junk)
       (sync_sequence (tracker_scan tracker_new output)))
     = is_set (tracker_scan tracker_new output)"
  by (intro tracker_sync tracker_ok_reachable)

section \<open>The alternate screen\<close>

definition private_sequence :: "u16 list \<Rightarrow> byte \<Rightarrow> byte list" where
  "private_sequence ns final =
     [0x1B, 0x5B, 0x3F] @ join [0x3B] (map (\<lambda>n. dec (unat n)) ns) @ [final]"

definition is_alt_mode :: "u16 \<Rightarrow> bool" where
  "is_alt_mode n \<longleftrightarrow> n = 1049 \<or> n = 1047 \<or> n = 47"

lemma alt_event_changed [simp]:
  "alt_event cur (Changed n v) = (if is_alt_mode n then v else cur)"
  by (simp add: alt_event_def is_alt_mode_def)

lemma alt_events:
  "foldl alt_event cur (map (\<lambda>m. Changed m v) ns) = (if \<exists>n \<in> set ns. is_alt_mode n then v else cur)"
  by (induction ns arbitrary: cur) auto

lemma alt_scanner_length: "length (modes (ascanner (alt_scan alt_new bs))) = 16"
  using scan_modes_length [of scanner_new bs]
  by (simp add: alt_scan_def alt_new_def scanner_new_def split_beta)

lemma alt_scan_in_alt:
  "in_alt (alt_scan a bs) = foldl alt_event (in_alt a) (snd (scan_modes (ascanner a) bs))"
  by (simp add: alt_scan_def split_beta)

text \<open>
  The alternate-screen flag after a complete private mode sequence: at any point of the
  stream, \<open>ESC [ ? n1;...;nk h\<close> (or \<open>l\<close>) with at most sixteen modes sets the flag to the
  direction of the sequence exactly when one of the modes is 1049, 1047 or 47, wherever it
  stands among the others, and leaves it alone otherwise.
\<close>

theorem alt_screen_follows_sequence:
  assumes "ns \<noteq> []" and "length ns \<le> 16" and "final = 0x68 \<or> final = 0x6C"
  shows "in_alternate_screen (alt_scan (alt_scan alt_new before) (private_sequence ns final))
    = (if \<exists>n \<in> set ns. is_alt_mode n then final = 0x68
       else in_alternate_screen (alt_scan alt_new before))"
proof -
  let ?a = "alt_scan alt_new before"
  have "snd (scan_modes (ascanner ?a) (private_sequence ns final))
      = map (\<lambda>m. Changed m (final = 0x68)) ns"
    using scan_sequence [of ns "ascanner ?a" final] assms
    by (auto simp: private_sequence_def alt_scanner_length)
  then show ?thesis
    by (simp add: in_alternate_screen_def alt_scan_in_alt [of ?a] alt_events)
qed

theorem alt_screen_follows_sequence_witness:
  "in_alternate_screen (alt_scan (alt_scan alt_new [0x1B, 0x5B]) (private_sequence [25, 1049] 0x68))"
  using alt_screen_follows_sequence [of "[25, 1049]" "0x68" "[0x1B, 0x5B]"]
  by (simp add: is_alt_mode_def)

lemma tracked_not_alt: "t \<in> set TRACKED_MODES \<Longrightarrow> \<not> is_alt_mode (number t)"
  by (auto simp: TRACKED_MODES_def off_by_default_def on_by_default_def is_alt_mode_def)

lemma sync_part_alt:
  assumes "length (modes (ascanner a)) = 16"
  shows "in_alt (alt_scan a (sync_part st w)) = in_alt a"
proof -
  have "\<not> is_alt_mode n" if "n \<in> set (wanted_numbers st w)" for n
    using that tracked_not_alt by (auto simp: wanted_numbers_def dest: set_zip_leftD)
  then show ?thesis
    by (auto simp: alt_scan_in_alt sync_part_events [OF assms] alt_events)
qed

lemma alt_scan_length: "length (modes (ascanner (alt_scan a bs))) = length (modes (ascanner a))"
  using scan_modes_length [of "ascanner a" bs] by (simp add: alt_scan_def split_beta)

lemma sync_sequence_alt:
  "length (modes (ascanner a)) = 16 \<Longrightarrow> in_alt (alt_scan a (sync_sequence t)) = in_alt a"
  by (simp only: sync_sequence_parts alt_tracker.scan_append sync_part_alt alt_scan_length)

text \<open>
  Neither tracker depends on how the PTY output is cut into reads, and the restore
  sequence of one is invisible to the other: replaying it never moves a client between the
  main and the alternate screen.
\<close>

theorem trackers_ignore_chunking:
  "foldl tracker_scan tracker_new chunks = tracker_scan tracker_new (concat chunks)
   \<and> foldl alt_scan alt_new chunks = alt_scan alt_new (concat chunks)
   \<and> in_alternate_screen (alt_scan (foldl alt_scan alt_new chunks) (sync_sequence t))
     = in_alternate_screen (alt_scan alt_new (concat chunks))"
  by (simp only: term_tracker.scan_concat alt_tracker.scan_concat [symmetric] refl simp_thms
      in_alternate_screen_def sync_sequence_alt alt_scanner_length)

end
