(* ===== verification/Scrollback.thy ===== *)
theory Scrollback
  imports Scanners
begin

text \<open>
  \<open>src/src/scrollback.rs\<close>: the last lines of the PTY output, hard-wrapped so that one line
  always fits in one Data frame, with the unfinished line (a prompt) kept apart.
\<close>

abbreviation (input) DEFAULT_MAX_LINES :: nat where "DEFAULT_MAX_LINES \<equiv> 50"
abbreviation (input) MAX_LINE_BYTES :: nat where "MAX_LINE_BYTES \<equiv> 4096"

record ScrollbackBuffer =
  sb_lines :: "byte list list"
  sb_partial :: "byte list"
  sb_max_lines :: nat

definition scrollback_new :: ScrollbackBuffer where
  "scrollback_new = \<lparr>sb_lines = [], sb_partial = [], sb_max_lines = DEFAULT_MAX_LINES\<rparr>"

definition flush_partial :: "ScrollbackBuffer \<Rightarrow> ScrollbackBuffer" where
  "flush_partial sb =
     (let ls = sb_lines sb @ [sb_partial sb]
      in sb\<lparr>sb_partial := [], sb_lines := (if sb_max_lines sb < length ls then tl ls else ls)\<rparr>)"

definition push_byte :: "ScrollbackBuffer \<Rightarrow> byte \<Rightarrow> ScrollbackBuffer" where
  "push_byte sb b =
     (let sb = sb\<lparr>sb_partial := sb_partial sb @ [b]\<rparr>
      in if b = 0x0A \<or> MAX_LINE_BYTES \<le> length (sb_partial sb) then flush_partial sb else sb)"

definition scrollback_push :: "ScrollbackBuffer \<Rightarrow> byte list \<Rightarrow> ScrollbackBuffer" where
  "scrollback_push sb data = foldl push_byte sb data"

definition lines_and_partial :: "ScrollbackBuffer \<Rightarrow> byte list list" where
  "lines_and_partial sb = sb_lines sb @ (if sb_partial sb \<noteq> [] then [sb_partial sb] else [])"

definition scrollback_clear :: "ScrollbackBuffer \<Rightarrow> ScrollbackBuffer" where
  "scrollback_clear sb = sb\<lparr>sb_lines := []\<rparr>"

interpretation scrollback: byte_fold push_byte scrollback_push
  by unfold_locales (simp_all add: scrollback_push_def)

section \<open>Lines of a stream\<close>

text \<open>A complete line ends at its only newline or is hard-wrapped; the open one does neither.\<close>

definition complete_line :: "byte list \<Rightarrow> bool" where
  "complete_line l \<longleftrightarrow> l \<noteq> [] \<and> length l \<le> MAX_LINE_BYTES \<and> 0x0A \<notin> set (butlast l)
     \<and> (last l = 0x0A \<or> length l = MAX_LINE_BYTES)"

definition open_line :: "byte list \<Rightarrow> bool" where
  "open_line l \<longleftrightarrow> length l < MAX_LINE_BYTES \<and> 0x0A \<notin> set l"

definition last_lines :: "nat \<Rightarrow> 'a list \<Rightarrow> 'a list" where
  "last_lines n ls = drop (length ls - n) ls"

lemma last_lines_snoc:
  assumes "0 < n"
  shows "last_lines n (ls @ [l])
    = (let k = last_lines n ls @ [l] in if n < length k then tl k else k)"
proof (cases "length ls < n")
  case True
  then show ?thesis by (simp add: last_lines_def)
next
  case False
  then have "drop (length ls - n) ls \<noteq> []" using assms by simp
  then have "tl (drop (length ls - n) ls @ [l]) = drop (Suc (length ls - n)) ls @ [l]"
    by (simp add: tl_append2 drop_Suc tl_drop)
  then show ?thesis
    using False assms by (simp add: last_lines_def Let_def Suc_diff_le drop_Cons' diff_is_0_eq)
qed

text \<open>The buffer is the abstract view of the bytes pushed: lines \<open>ls\<close> and the open line.\<close>

definition scrollback_view :: "byte list \<Rightarrow> byte list list \<Rightarrow> ScrollbackBuffer \<Rightarrow> bool" where
  "scrollback_view data ls sb \<longleftrightarrow>
     data = concat ls @ sb_partial sb \<and> (\<forall>l \<in> set ls. complete_line l)
     \<and> open_line (sb_partial sb) \<and> sb_max_lines sb = DEFAULT_MAX_LINES
     \<and> sb_lines sb = last_lines DEFAULT_MAX_LINES ls"

lemma view_new: "scrollback_view [] [] scrollback_new"
  by (simp add: scrollback_view_def scrollback_new_def open_line_def last_lines_def)

lemma view_push_byte:
  assumes "scrollback_view data ls sb"
  shows "\<exists>ls'. scrollback_view (data @ [b]) ls' (push_byte sb b)"
proof (cases "b = 0x0A \<or> MAX_LINE_BYTES \<le> Suc (length (sb_partial sb))")
  case True
  have "complete_line (sb_partial sb @ [b])"
    using assms True by (auto simp: scrollback_view_def complete_line_def open_line_def)
  then have "scrollback_view (data @ [b]) (ls @ [sb_partial sb @ [b]]) (push_byte sb b)"
    using assms True
    by (simp add: scrollback_view_def push_byte_def flush_partial_def last_lines_snoc Let_def
        open_line_def)
  then show ?thesis ..
next
  case False
  then have "scrollback_view (data @ [b]) ls (push_byte sb b)"
    using assms by (simp add: scrollback_view_def push_byte_def open_line_def Let_def)
  then show ?thesis ..
qed

lemma view_push:
  "\<exists>ls. scrollback_view data ls (scrollback_push scrollback_new data)"
proof (induction data rule: rev_induct)
  case Nil
  show ?case using view_new by (auto simp: scrollback_push_def)
next
  case (snoc b data)
  then obtain ls where "scrollback_view data ls (scrollback_push scrollback_new data)" ..
  from view_push_byte [OF this] show ?case by (simp add: scrollback_push_def)
qed

lemma last_lines_suffix: "\<exists>xs. ls = xs @ last_lines n ls"
  unfolding last_lines_def by (metis append_take_drop_id)

lemma length_last_lines: "length (last_lines n ls) \<le> n"
  by (simp add: last_lines_def)

lemma set_last_lines: "l \<in> set (last_lines n ls) \<Longrightarrow> l \<in> set ls"
  by (simp add: last_lines_def in_set_dropD)

text \<open>
  The scrollback is the tail of the output: after any chunks, the bytes pushed are a list
  of complete lines (ended by their only newline, or wrapped at 4096 bytes) followed by the
  open line, the buffer holds the last fifty of them and the open line unchanged, so what it
  replays is a suffix of the output.
\<close>

theorem scrollback_is_tail:
  "\<exists>ls. let sb = foldl scrollback_push scrollback_new chunks in
     concat chunks = concat ls @ sb_partial sb \<and> list_all complete_line ls
     \<and> open_line (sb_partial sb) \<and> sb_lines sb = last_lines 50 ls
     \<and> (\<exists>evicted. concat chunks = evicted @ concat (lines_and_partial sb))"
proof -
  let ?sb = "scrollback_push scrollback_new (concat chunks)"
  obtain ls where ls: "scrollback_view (concat chunks) ls ?sb"
    using view_push by blast
  obtain xs where "ls = xs @ last_lines 50 ls" using last_lines_suffix by blast
  then have "concat ls = concat xs @ concat (last_lines 50 ls)"
    by (metis concat_append)
  moreover have "concat (lines_and_partial ?sb) = concat (last_lines 50 ls) @ sb_partial ?sb"
    using ls by (simp add: lines_and_partial_def scrollback_view_def)
  ultimately have "concat chunks = concat xs @ concat (lines_and_partial ?sb)"
    using ls by (simp add: scrollback_view_def)
  with ls show ?thesis
    by (auto simp: scrollback.scan_concat [symmetric] scrollback_view_def list_all_iff Let_def)
qed

definition scrollback_bounded :: "ScrollbackBuffer \<Rightarrow> bool" where
  "scrollback_bounded sb \<longleftrightarrow> sb_max_lines sb = DEFAULT_MAX_LINES
     \<and> length (sb_lines sb) \<le> DEFAULT_MAX_LINES
     \<and> (\<forall>l \<in> set (sb_lines sb). l \<noteq> [] \<and> length l \<le> MAX_LINE_BYTES)
     \<and> length (sb_partial sb) < MAX_LINE_BYTES"

lemma set_tl: "x \<in> set (tl xs) \<Longrightarrow> x \<in> set xs"
  by (cases xs) simp_all

lemma bounded_push_byte: "scrollback_bounded sb \<Longrightarrow> scrollback_bounded (push_byte sb b)"
  by (fastforce simp: scrollback_bounded_def push_byte_def flush_partial_def Let_def dest: set_tl)

lemma bounded_push: "scrollback_bounded sb \<Longrightarrow> scrollback_bounded (scrollback_push sb data)"
  by (erule scrollback.scan_inv [rotated]) (rule bounded_push_byte)

lemma bounded_clear: "scrollback_bounded sb \<Longrightarrow> scrollback_bounded (scrollback_clear sb)"
  by (simp add: scrollback_bounded_def scrollback_clear_def)

lemma bounded_new: "scrollback_bounded scrollback_new"
  by (simp add: scrollback_bounded_def scrollback_new_def)

lemma bounded_replay:
  assumes "scrollback_bounded sb" and "l \<in> set (lines_and_partial sb)"
  shows "l \<noteq> [] \<and> length l \<le> 4096"
  using assms by (auto simp: scrollback_bounded_def lines_and_partial_def split: if_splits)

end
