(* ===== verification/Query_Filter.thy ===== *)
theory Query_Filter
  imports Scanners "HOL-Library.Sublist"
begin

text \<open>
  \<open>src/src/query_filter.rs\<close>: the filter that takes terminal capability queries out of replayed
  output.  One definition per state of the code's \<open>step\<close>: the recursive calls of the code are
  made in a state that is known at the call, so each arm calls the definition of that state.
  The slices \<open>&self.pending[2..]\<close> are written \<open>drop 2\<close>; \<open>filter_inv\<close> shows that at least two
  bytes are pending wherever one is taken.
\<close>

abbreviation (input) MAX_CSI_BYTES :: nat where "MAX_CSI_BYTES \<equiv> 64"
abbreviation (input) MAX_STRING_BYTES :: nat where "MAX_STRING_BYTES \<equiv> 4096"

definition XTWINOPS_REPORTS :: "rstring list" where
  "XTWINOPS_REPORTS = [[0x31, 0x31], [0x31, 0x33], [0x31, 0x34], [0x31, 0x35], [0x31, 0x36],
     [0x31, 0x38], [0x31, 0x39], [0x32, 0x30], [0x32, 0x31]]"

datatype FilterState = QGround | QEsc | QCsi | QStringBody | QStringEsc

datatype StringKind = Osc | Dcs | Apc

record QueryFilter =
  qstate :: FilterState
  qkind :: "StringKind option"
  qpending :: "byte list"

definition filter_new :: QueryFilter where
  "filter_new = \<lparr>qstate = QGround, qkind = None, qpending = []\<rparr>"

definition qpush :: "QueryFilter \<Rightarrow> byte \<Rightarrow> QueryFilter" where
  "qpush q b = q\<lparr>qpending := qpending q @ [b]\<rparr>"

section \<open>Classification\<close>

definition strip_terminator :: "byte list \<Rightarrow> byte list" where
  "strip_terminator body =
     (case strip_suffix [0x1B, 0x5C] body of
        Some x \<Rightarrow> x
      | None \<Rightarrow> (case strip_suffix [0x07] body of Some x \<Rightarrow> x | None \<Rightarrow> body))"

definition kitty_is_query :: "byte list \<Rightarrow> bool" where
  "kitty_is_query control \<longleftrightarrow>
     list_ex (\<lambda>kv. kv = [0x61, 0x3D, 0x71]) (split_on (\<lambda>c. c = 0x2C) control)"

definition is_csi_query :: "byte list \<Rightarrow> byte \<Rightarrow> bool" where
  "is_csi_query inner fin =
     (let params_end = (case position (\<lambda>b. 0x20 \<le> b \<and> b \<le> 0x2F) inner of
            Some i \<Rightarrow> i | None \<Rightarrow> length inner);
          params = take params_end inner;
          intermediates = drop params_end inner;
          fields = split_on (\<lambda>c. c = 0x3B)
            (case strip_prefix [0x3F] params of Some x \<Rightarrow> x | None \<Rightarrow>
              (case strip_prefix [0x3E] params of Some x \<Rightarrow> x | None \<Rightarrow>
                (case strip_prefix [0x3D] params of Some x \<Rightarrow> x | None \<Rightarrow> params)));
          first = (case fields of f # _ \<Rightarrow> f | [] \<Rightarrow> []);
          second = (case fields of _ # f # _ \<Rightarrow> f | _ \<Rightarrow> [])
      in if fin = 0x63 \<and> intermediates = [] then True
         else if fin = 0x6E \<and> intermediates = [] then True
         else if fin = 0x70 \<and> intermediates = [0x24] then True
         else if fin = 0x71 \<and> intermediates = [] then starts_with params [0x3E]
         else if fin = 0x75 \<and> intermediates = [] then params = [0x3F]
         else if fin = 0x74 \<and> intermediates = [] then first \<in> set XTWINOPS_REPORTS
         else if fin = 0x53 \<and> intermediates = []
           then starts_with params [0x3F] \<and> (second = [0x31] \<or> second = [0x34])
         else False)"

definition string_may_be_query :: "QueryFilter \<Rightarrow> bool" where
  "string_may_be_query q =
     (let body = drop 2 (qpending q) in
      case qkind q of
        Some Dcs \<Rightarrow> length body < 2 \<or> starts_with body [0x24, 0x71] \<or> starts_with body [0x2B, 0x71]
      | Some Apc \<Rightarrow>
          (if body = [] then True
           else if body ! 0 \<noteq> 0x47 then False
           else (case position (\<lambda>c. c = 0x3B) body of
                   Some e \<Rightarrow> kitty_is_query (take (e - 1) (drop 1 body))
                 | None \<Rightarrow> True))
      | _ \<Rightarrow> True)"

definition string_is_query :: "StringKind option \<Rightarrow> byte list \<Rightarrow> bool" where
  "string_is_query kind body =
     (case kind of
        Some Osc \<Rightarrow> last (split_on (\<lambda>c. c = 0x3B) body) = [0x3F]
      | Some Dcs \<Rightarrow> starts_with body [0x24, 0x71] \<or> starts_with body [0x2B, 0x71]
      | Some Apc \<Rightarrow>
          (let control = (case strip_prefix [0x47] body of Some c \<Rightarrow> c | None \<Rightarrow> []);
               e = (case position (\<lambda>c. c = 0x3B) control of Some i \<Rightarrow> i | None \<Rightarrow> length control)
           in kitty_is_query (take e control))
      | None \<Rightarrow> False)"

section \<open>The step\<close>

definition qdrop :: "QueryFilter \<Rightarrow> QueryFilter \<times> byte list" where
  "qdrop q = (q\<lparr>qpending := [], qkind := None, qstate := QGround\<rparr>, [])"

definition flush_raw :: "QueryFilter \<Rightarrow> QueryFilter \<times> byte list" where
  "flush_raw q = (q\<lparr>qpending := [], qkind := None, qstate := QGround\<rparr>, qpending q)"

definition end_string :: "QueryFilter \<Rightarrow> QueryFilter \<times> byte list" where
  "end_string q =
     (if string_is_query (qkind q) (strip_terminator (drop 2 (qpending q))) then qdrop q
      else flush_raw q)"

definition step_ground :: "QueryFilter \<Rightarrow> byte \<Rightarrow> QueryFilter \<times> byte list" where
  "step_ground q b =
     (if b = 0x1B then ((qpush q b)\<lparr>qstate := QEsc\<rparr>, []) else (q, [b]))"

text \<open>\<open>self.flush_raw(out); self.step(b, out)\<close>: the flush leaves the filter in the ground state.\<close>

definition flush_then_ground :: "QueryFilter \<Rightarrow> byte \<Rightarrow> QueryFilter \<times> byte list" where
  "flush_then_ground q b =
     (let (q1, o1) = flush_raw q; (q2, o2) = step_ground q1 b in (q2, o1 @ o2))"

definition step_esc :: "QueryFilter \<Rightarrow> byte \<Rightarrow> QueryFilter \<times> byte list" where
  "step_esc q b =
     (if b = 0x5B then ((qpush q b)\<lparr>qstate := QCsi\<rparr>, [])
      else if b = 0x5D \<or> b = 0x50 \<or> b = 0x5F then
        ((qpush q b)\<lparr>qkind := Some (if b = 0x5D then Osc else if b = 0x50 then Dcs else Apc),
            qstate := QStringBody\<rparr>, [])
      else if b = 0x5A then qdrop q
      else flush_then_ground q b)"

definition step_csi :: "QueryFilter \<Rightarrow> byte \<Rightarrow> QueryFilter \<times> byte list" where
  "step_csi q b =
     (if MAX_CSI_BYTES \<le> length (qpending q) then flush_then_ground q b
      else if 0x20 \<le> b \<and> b \<le> 0x3F then (qpush q b, [])
      else if 0x40 \<le> b \<and> b \<le> 0x7E then
        (if is_csi_query (drop 2 (qpending q)) b then qdrop q else flush_raw (qpush q b))
      else flush_then_ground q b)"

definition step_string_body :: "QueryFilter \<Rightarrow> byte \<Rightarrow> QueryFilter \<times> byte list" where
  "step_string_body q b =
     (if b = 0x1B then ((qpush q b)\<lparr>qstate := QStringEsc\<rparr>, [])
      else if b = 0x07 then end_string (qpush q b)
      else (let q = qpush q b in
            if MAX_STRING_BYTES < length (qpending q) \<or> \<not> string_may_be_query q then flush_raw q
            else (q, [])))"

definition step_string_esc :: "QueryFilter \<Rightarrow> byte \<Rightarrow> QueryFilter \<times> byte list" where
  "step_string_esc q b =
     (if b = 0x5C then end_string (qpush q b)
      else (let esc = (if qpending q = [] then [] else [last (qpending q)]);
                (q1, o1) = flush_raw (q\<lparr>qpending := butlast (qpending q)\<rparr>);
                (q2, o2) = step_esc (q1\<lparr>qpending := qpending q1 @ esc, qstate := QEsc\<rparr>) b
            in (q2, o1 @ o2)))"

definition filter_step :: "QueryFilter \<Rightarrow> byte \<Rightarrow> QueryFilter \<times> byte list" where
  "filter_step q b =
     (case qstate q of
        QGround \<Rightarrow> step_ground q b
      | QEsc \<Rightarrow> step_esc q b
      | QCsi \<Rightarrow> step_csi q b
      | QStringBody \<Rightarrow> step_string_body q b
      | QStringEsc \<Rightarrow> step_string_esc q b)"

fun scrub :: "QueryFilter \<Rightarrow> byte list \<Rightarrow> QueryFilter \<times> byte list" where
  "scrub q [] = (q, [])"
| "scrub q (b # bs) =
     (let (q1, o1) = filter_step q b; (q2, o2) = scrub q1 bs in (q2, o1 @ o2))"

definition filter_finish :: "QueryFilter \<Rightarrow> byte list" where
  "filter_finish q = qpending q"

definition strip_queries :: "byte list \<Rightarrow> byte list" where
  "strip_queries bytes = (let (q, out) = scrub filter_new bytes in out @ filter_finish q)"

interpretation query_filter: byte_scanner filter_step scrub
  by unfold_locales simp_all

end
