(* ===== verification/Query_Filter_Proofs.thy ===== *)
theory Query_Filter_Proofs
  imports Query_Filter
begin

text \<open>
  What the query filter does to a stream: nothing but removals, bounded memory, and on every
  well-formed stream of terminal items exactly the removal of the queries.
\<close>

section \<open>Bounds: what is held back\<close>

definition filter_inv :: "QueryFilter \<Rightarrow> bool" where
  "filter_inv q \<longleftrightarrow>
     (case qstate q of
        QGround \<Rightarrow> qpending q = []
      | QEsc \<Rightarrow> qpending q = [0x1B]
      | QCsi \<Rightarrow> 2 \<le> length (qpending q) \<and> length (qpending q) \<le> 64
      | QStringBody \<Rightarrow> 2 \<le> length (qpending q) \<and> length (qpending q) \<le> 4096
      | QStringEsc \<Rightarrow> 3 \<le> length (qpending q) \<and> length (qpending q) \<le> 4097
          \<and> last (qpending q) = 0x1B)"

lemmas step_arms = step_ground_def flush_then_ground_def flush_raw_def qdrop_def qpush_def
  end_string_def step_esc_def step_csi_def step_string_body_def step_string_esc_def

lemma filter_inv_new: "filter_inv filter_new"
  by (simp add: filter_inv_def filter_new_def)

lemma step_ground_inv:
  "qstate q = QGround \<Longrightarrow> qpending q = [] \<Longrightarrow> filter_inv (fst (step_ground q b))"
  by (simp add: step_ground_def filter_inv_def qpush_def)

lemma flush_then_ground_inv: "filter_inv (fst (flush_then_ground q b))"
  by (simp add: flush_then_ground_def flush_raw_def step_ground_inv split_beta)

lemma step_esc_inv: "qpending q = [0x1B] \<Longrightarrow> filter_inv (fst (step_esc q b))"
  using flush_then_ground_inv [of q b]
  by (simp add: step_esc_def qdrop_def qpush_def filter_inv_def [of "_\<lparr>qstate := _\<rparr>"])

lemma end_string_inv: "filter_inv (fst (end_string q))"
  by (simp add: end_string_def qdrop_def flush_raw_def filter_inv_def)

lemma flushed_inv: "filter_inv (fst (qdrop q))" "filter_inv (fst (flush_raw q))"
  by (simp_all add: qdrop_def flush_raw_def filter_inv_def)

lemma string_esc_gives_up:
  assumes "b \<noteq> 0x5C" and "esc = (if qpending q = [] then [] else [last (qpending q)])"
  shows "step_string_esc q b =
    (let r = step_esc \<lparr>qstate = QEsc, qkind = None, qpending = esc\<rparr> b
     in (fst r, butlast (qpending q) @ snd r))"
  unfolding step_string_esc_def assms(2) [symmetric] using assms(1)
  by (cases q) (simp add: flush_raw_def split_beta Let_def)

lemma filter_inv_step:
  assumes "filter_inv q"
  shows "filter_inv (fst (filter_step q b))"
proof (cases "qstate q")
  case QGround
  with assms have "qpending q = []" by (simp add: filter_inv_def)
  with QGround show ?thesis by (simp add: filter_step_def step_ground_inv)
next
  case QEsc
  with assms have "qpending q = [0x1B]" by (simp add: filter_inv_def)
  with QEsc show ?thesis by (simp add: filter_step_def step_esc_inv)
next
  case QCsi
  with assms have "2 \<le> length (qpending q)" "length (qpending q) \<le> 64"
    by (simp_all add: filter_inv_def)
  then have "length (qpending q) < 64 \<Longrightarrow> filter_inv (qpush q b)"
    using QCsi by (simp add: filter_inv_def qpush_def)
  with QCsi show ?thesis
    using flush_then_ground_inv [of q b] flushed_inv
    by (simp add: filter_step_def step_csi_def)
next
  case QStringBody
  with assms have l: "2 \<le> length (qpending q)" "length (qpending q) \<le> 4096"
    by (simp_all add: filter_inv_def)
  then have "filter_inv ((qpush q b)\<lparr>qstate := QStringEsc\<rparr>)" if "b = 0x1B"
    using that by (simp add: filter_inv_def qpush_def)
  moreover have "filter_inv (qpush q b)" if "length (qpending (qpush q b)) \<le> 4096"
    using QStringBody l that by (simp add: filter_inv_def qpush_def)
  ultimately show ?thesis
    using QStringBody flushed_inv
    by (simp add: filter_step_def step_string_body_def Let_def end_string_inv)
next
  case QStringEsc
  with assms have "qpending q \<noteq> []" "last (qpending q) = 0x1B"
    by (auto simp: filter_inv_def)
  with QStringEsc show ?thesis
    by (cases "b = 0x5C")
      (simp_all add: filter_step_def string_esc_gives_up [of b "[0x1B]"] Let_def step_esc_inv,
        simp add: step_string_esc_def end_string_inv)
qed

lemma filter_inv_scrub: "filter_inv (fst (scrub filter_new bs))"
  by (rule query_filter.scan_inv) (simp_all add: filter_inv_step filter_inv_new)

text \<open>
  Whatever the output was, the filter never holds back more than 4097 bytes, and where
  its code slices \<open>pending[2..]\<close> at least two bytes are pending: the slice cannot panic.
\<close>

theorem filter_holds_back_bounded:
  "let q = fst (scan_chunks scrub filter_new chunks) in
   length (qpending q) \<le> 4097
   \<and> (qstate q = QCsi \<or> qstate q = QStringBody \<or> qstate q = QStringEsc
      \<longrightarrow> 2 \<le> length (qpending q))
   \<and> (qstate q = QCsi \<longrightarrow> length (qpending q) \<le> 64)"
  using filter_inv_scrub [of "concat chunks"]
  unfolding query_filter.scan_concat filter_inv_def Let_def
  by (auto split: FilterState.splits)

theorem filter_holds_back_bounded_witness:
  "let q = fst (scan_chunks scrub filter_new [[0x1B], [0x5B, 0x31]]) in
   length (qpending q) \<le> 4097 \<and> qstate q = QCsi \<and> 2 \<le> length (qpending q)"
proof -
  have "qstate (fst (scan_chunks scrub filter_new [[0x1B], [0x5B, 0x31]])) = QCsi"
    by (simp add: filter_step_def step_arms filter_new_def)
  then show ?thesis
    using filter_holds_back_bounded [of "[[0x1B], [0x5B, 0x31]]"] by (simp only: Let_def) simp
qed

section \<open>Nothing but removals\<close>

lemma subseq_prefix: "subseq xs ys \<Longrightarrow> subseq (zs @ xs) (zs @ ys)"
  by (induction zs) simp_all

lemma subseq_flush: "subseq (snd (flush_raw q) @ qpending (fst (flush_raw q))) (qpending q)"
  by (simp add: flush_raw_def)

lemma subseq_flush_then_ground:
  "subseq (snd (flush_then_ground q b) @ qpending (fst (flush_then_ground q b))) (qpending q @ [b])"
  by (simp add: flush_then_ground_def flush_raw_def step_ground_def qpush_def split_beta)

lemma subseq_step_esc:
  "subseq (snd (step_esc q b) @ qpending (fst (step_esc q b))) (qpending q @ [b])"
  using subseq_flush_then_ground [of q b]
  by (simp add: step_esc_def qdrop_def qpush_def)

lemma subseq_end_string:
  "subseq (snd (end_string q) @ qpending (fst (end_string q))) (qpending q)"
  by (simp add: end_string_def qdrop_def flush_raw_def)

lemma subseq_string_esc:
  "subseq (snd (step_string_esc q b) @ qpending (fst (step_string_esc q b))) (qpending q @ [b])"
proof (cases "b = 0x5C")
  case True
  then show ?thesis
    using subseq_end_string [of "qpush q b"] by (simp add: step_string_esc_def qpush_def)
next
  case False
  obtain esc where esc: "esc = (if qpending q = [] then [] else [last (qpending q)])" by simp
  let ?p = "butlast (qpending q)" and ?q = "\<lparr>qstate = QEsc, qkind = None, qpending = esc\<rparr>"
  have "subseq (?p @ (snd (step_esc ?q b) @ qpending (fst (step_esc ?q b)))) (?p @ (esc @ [b]))"
    using subseq_step_esc [of ?q b] by (intro subseq_prefix) simp
  moreover have "?p @ esc = qpending q" by (simp add: esc)
  ultimately have "subseq (?p @ (snd (step_esc ?q b) @ qpending (fst (step_esc ?q b))))
      (qpending q @ [b])"
    by (metis append.assoc)
  then show ?thesis by (simp add: string_esc_gives_up [OF False esc] Let_def)
qed

lemma subseq_filter_step:
  assumes "filter_inv q"
  shows "subseq (snd (filter_step q b) @ qpending (fst (filter_step q b))) (qpending q @ [b])"
proof (cases "qstate q")
  case QGround
  with assms have "qpending q = []" by (simp add: filter_inv_def)
  with QGround show ?thesis by (simp add: filter_step_def step_ground_def qpush_def)
next
  case QEsc
  then show ?thesis using subseq_step_esc [of q b] by (simp add: filter_step_def)
next
  case QCsi
  then show ?thesis
    using subseq_flush_then_ground [of q b]
    by (simp add: filter_step_def step_csi_def qdrop_def flush_raw_def qpush_def)
next
  case QStringBody
  then show ?thesis
    using subseq_end_string [of "qpush q b"] subseq_flush [of "qpush q b"]
    by (cases "b = 0x07")
      (simp_all add: filter_step_def step_string_body_def Let_def, simp_all add: qpush_def)
next
  case QStringEsc
  then show ?thesis using subseq_string_esc [of q b] by (simp add: filter_step_def)
qed

lemma subseq_scrub:
  "filter_inv q \<Longrightarrow> subseq (snd (scrub q bs) @ qpending (fst (scrub q bs))) (qpending q @ bs)"
proof (induction bs arbitrary: q)
  case (Cons b bs)
  let ?q = "fst (filter_step q b)" and ?o = "snd (filter_step q b)"
  have "subseq (?o @ (snd (scrub ?q bs) @ qpending (fst (scrub ?q bs)))) (?o @ (qpending ?q @ bs))"
    by (intro list_emb_append_mono Cons.IH filter_inv_step Cons.prems) simp
  moreover have "subseq ((?o @ qpending ?q) @ bs) ((qpending q @ [b]) @ bs)"
    by (intro list_emb_append_mono subseq_filter_step Cons.prems) simp
  ultimately have "subseq (?o @ (snd (scrub ?q bs) @ qpending (fst (scrub ?q bs))))
      ((qpending q @ [b]) @ bs)"
    unfolding append.assoc by (rule subseq_order.trans)
  then show ?case by (simp add: split_beta)
qed simp

lemma step_no_esc:
  "filter_step q b = (q, [b])" if "qstate q = QGround" "b \<noteq> 0x1B"
  using that by (simp add: filter_step_def step_ground_def)

lemma scrub_no_esc: "qstate q = QGround \<Longrightarrow> 0x1B \<notin> set bs \<Longrightarrow> scrub q bs = (q, bs)"
  by (induction bs) (auto simp: step_no_esc)

text \<open>
  C5. The filter only removes: over any chunks, what it emits together with the final flush is
  what the one-shot form makes of the whole stream, that is a subsequence of the stream, and
  a stream without an escape byte passes unchanged.
\<close>

theorem filter_only_removes:
  "(let (q, out) = scan_chunks scrub filter_new chunks in
    out @ filter_finish q = strip_queries (concat chunks))
   \<and> subseq (strip_queries bytes) bytes
   \<and> (0x1B \<in> set bytes \<or> strip_queries bytes = bytes)"
proof (intro conjI)
  show "let (q, out) = scan_chunks scrub filter_new chunks in
    out @ filter_finish q = strip_queries (concat chunks)"
    by (simp add: query_filter.scan_concat strip_queries_def split_beta Let_def)
  show "subseq (strip_queries bytes) bytes"
    using subseq_scrub [OF filter_inv_new, of bytes]
    by (simp add: strip_queries_def filter_finish_def filter_new_def split_beta)
  show "0x1B \<in> set bytes \<or> strip_queries bytes = bytes"
    using scrub_no_esc [of filter_new bytes]
    by (cases "0x1B \<in> set bytes") (simp_all add: strip_queries_def filter_finish_def filter_new_def)
qed

section \<open>Streams of terminal items\<close>

text \<open>
  The specification: a stream is a list of items, each of them a byte outside every sequence,
  a control sequence, a string sequence (with its terminator), or a two-byte escape.
\<close>

datatype item =
    Plain byte
  | CsiSeq "byte list" byte
  | StringSeq StringKind "byte list" bool
  | EscSeq byte

definition kind_byte :: "StringKind \<Rightarrow> byte" where
  "kind_byte k = (case k of Osc \<Rightarrow> 0x5D | Dcs \<Rightarrow> 0x50 | Apc \<Rightarrow> 0x5F)"

fun render :: "item \<Rightarrow> byte list" where
  "render (Plain b) = [b]"
| "render (CsiSeq inner fin) = [0x1B, 0x5B] @ inner @ [fin]"
| "render (StringSeq k body bel) =
     [0x1B, kind_byte k] @ body @ (if bel then [0x07] else [0x1B, 0x5C])"
| "render (EscSeq b) = [0x1B, b]"

fun is_query :: "item \<Rightarrow> bool" where
  "is_query (Plain b) = False"
| "is_query (CsiSeq inner fin) = is_csi_query inner fin"
| "is_query (StringSeq k body bel) = string_is_query (Some k) body"
| "is_query (EscSeq b) = (b = 0x5A)"

fun wf_item :: "item \<Rightarrow> bool" where
  "wf_item (Plain b) = (b \<noteq> 0x1B)"
| "wf_item (CsiSeq inner fin) =
     (length inner \<le> 61 \<and> list_all (\<lambda>b. 0x20 \<le> b \<and> b \<le> 0x3F) inner \<and> 0x40 \<le> fin \<and> fin \<le> 0x7E)"
| "wf_item (StringSeq k body bel) =
     (length body \<le> 4094 \<and> list_all (\<lambda>b. b \<noteq> 0x1B \<and> b \<noteq> 0x07) body)"
| "wf_item (EscSeq b) = (b \<notin> {0x1B, 0x5B, 0x5D, 0x50, 0x5F})"

subsection \<open>Control sequences\<close>

lemma csi_run:
  assumes "list_all (\<lambda>b. 0x20 \<le> b \<and> b \<le> 0x3F) inner" and "length p + length inner \<le> 64"
  shows "scrub \<lparr>qstate = QCsi, qkind = None, qpending = p\<rparr> inner
    = (\<lparr>qstate = QCsi, qkind = None, qpending = p @ inner\<rparr>, [])"
  using assms by (induction inner arbitrary: p) (simp_all add: filter_step_def step_csi_def qpush_def)

lemma final_not_inner: "0x40 \<le> fin \<Longrightarrow> \<not> (0x20 \<le> fin \<and> fin \<le> (0x3F :: byte))"
  by (simp add: word_le_nat_alt)

lemma scrub_csi:
  assumes "wf_item (CsiSeq inner fin)"
  shows "scrub filter_new (render (CsiSeq inner fin))
    = (filter_new, if is_csi_query inner fin then [] else render (CsiSeq inner fin))"
proof -
  have "scrub \<lparr>qstate = QCsi, qkind = None, qpending = [0x1B, 0x5B]\<rparr> inner
    = (\<lparr>qstate = QCsi, qkind = None, qpending = [0x1B, 0x5B] @ inner\<rparr>, [])"
    using assms by (intro csi_run) simp_all
  then show ?thesis
    using assms final_not_inner [of fin]
    by (simp add: query_filter.scan_append filter_new_def filter_step_def step_ground_def
        step_esc_def step_csi_def qdrop_def flush_raw_def qpush_def)
qed

subsection \<open>String sequences\<close>

abbreviation in_string :: "StringKind \<Rightarrow> byte list \<Rightarrow> QueryFilter" where
  "in_string k p \<equiv> \<lparr>qstate = QStringBody, qkind = Some k, qpending = p\<rparr>"

lemma string_run_may:
  assumes "list_all (\<lambda>b. b \<noteq> 0x1B \<and> b \<noteq> 0x07) body" and "length p + length body \<le> 4096"
    and "\<And>x y. body = x @ y \<Longrightarrow> string_may_be_query (in_string k (p @ x))"
  shows "scrub (in_string k p) body = (in_string k (p @ body), [])"
  using assms
proof (induction body arbitrary: p)
  case (Cons b body)
  have "string_may_be_query (in_string k (p @ [b]))"
    using Cons.prems(3) [of "[b]" body] by simp
  then have step: "filter_step (in_string k p) b = (in_string k (p @ [b]), [])"
    using Cons.prems by (simp add: filter_step_def step_string_body_def qpush_def Let_def)
  have "scrub (in_string k (p @ [b])) body = (in_string k ((p @ [b]) @ body), [])"
    by (rule Cons.IH) (use Cons.prems Cons.prems(3) [of "b # _"] in auto)
  with step show ?case by simp
qed simp

lemma string_run:
  assumes "list_all (\<lambda>b. b \<noteq> 0x1B \<and> b \<noteq> 0x07) body"
  shows "scrub (in_string k p) body = (in_string k (p @ body), [])
    \<or> scrub (in_string k p) body = (filter_new, p @ body)"
  using assms
proof (induction body arbitrary: p)
  case (Cons b body)
  have "0x1B \<notin> set body" using Cons.prems by (auto simp: list_all_iff)
  then have "scrub filter_new body = (filter_new, body)"
    by (intro scrub_no_esc) (simp_all add: filter_new_def)
  moreover have "filter_step (in_string k p) b = (in_string k (p @ [b]), [])
      \<or> filter_step (in_string k p) b = (filter_new, p @ [b])"
    using Cons.prems
    by (simp add: filter_step_def step_string_body_def qpush_def Let_def flush_raw_def filter_new_def)
  moreover have "scrub (in_string k (p @ [b])) body = (in_string k ((p @ [b]) @ body), [])
    \<or> scrub (in_string k (p @ [b])) body = (filter_new, (p @ [b]) @ body)"
    by (rule Cons.IH) (use Cons.prems in simp)
  ultimately show ?case by auto
qed simp

lemma position_append:
  "position P (xs @ ys) = (case position P xs of Some i \<Rightarrow> Some i
     | None \<Rightarrow> map_option (\<lambda>i. i + length xs) (position P ys))"
  by (induction xs) (auto simp: option.map_comp comp_def option.map_ident split: option.splits)

lemma starts_with_prefix:
  "starts_with (x @ y) p \<Longrightarrow> length x < length p \<or> starts_with x p"
  by (cases "length x < length p") (auto simp: starts_with_def)

lemma query_may_be:
  assumes "length h = 2" and "string_is_query (Some k) (x @ y)"
  shows "string_may_be_query (in_string k (h @ x))"
proof (cases k)
  case Osc
  then show ?thesis by (simp add: string_may_be_query_def)
next
  case Dcs
  with assms show ?thesis
    using starts_with_prefix [of x y "[0x24, 0x71]"] starts_with_prefix [of x y "[0x2B, 0x71]"]
    by (auto simp: string_may_be_query_def string_is_query_def)
next
  case Apc
  show ?thesis
  proof (cases x)
    case (Cons c x')
    have c: "c = 0x47"
    proof (rule ccontr)
      assume "c \<noteq> 0x47"
      with Apc Cons assms(2) show False
        by (simp add: string_is_query_def strip_prefix_def starts_with_def kitty_is_query_def)
    qed
    show ?thesis
      using Apc Cons c assms
      by (auto simp: string_may_be_query_def string_is_query_def strip_prefix_def starts_with_def
          position_append dest: position_Some split: option.splits)
  qed (use Apc assms(1) in \<open>simp add: string_may_be_query_def\<close>)
qed

lemma strip_terminator_bel: "strip_terminator (body @ [0x07]) = body"
  by (cases body rule: rev_cases)
    (simp_all add: strip_terminator_def strip_suffix_def)

lemma strip_terminator_st: "strip_terminator (body @ [0x1B, 0x5C]) = body"
  by (simp add: strip_terminator_def strip_suffix_def)

lemma scrub_string:
  assumes "wf_item (StringSeq k body bel)"
  shows "scrub filter_new (render (StringSeq k body bel))
    = (filter_new, if string_is_query (Some k) body then [] else render (StringSeq k body bel))"
proof -
  let ?h = "[0x1B, kind_byte k]" and ?t = "if bel then [0x07] else [0x1B, 0x5C :: byte]"
  have plain: "list_all (\<lambda>b. b \<noteq> 0x1B \<and> b \<noteq> 0x07) body" and len: "length body \<le> 4094"
    using assms by simp_all
  have head: "scrub filter_new ?h = (in_string k ?h, [])"
    by (cases k) (simp_all add: kind_byte_def filter_new_def filter_step_def step_ground_def
        step_esc_def qpush_def)
  have tail: "scrub (in_string k (?h @ body)) ?t
      = (filter_new, if string_is_query (Some k) body then [] else ?h @ body @ ?t)"
    by (simp add: filter_step_def step_string_body_def step_string_esc_def end_string_def qpush_def
        strip_terminator_bel strip_terminator_st qdrop_def flush_raw_def filter_new_def)
  have flushed: "scrub filter_new ?t = (filter_new, ?t)"
    by (simp add: filter_new_def filter_step_def step_ground_def step_esc_def
        flush_then_ground_def flush_raw_def qpush_def)
  have "scrub (in_string k ?h) (body @ ?t)
      = (filter_new, if string_is_query (Some k) body then [] else ?h @ body @ ?t)"
  proof (cases "string_is_query (Some k) body")
    case True
    then have "scrub (in_string k ?h) body = (in_string k (?h @ body), [])"
      using plain len by (intro string_run_may query_may_be [where y = y for y]) auto
    with tail True show ?thesis by (simp add: query_filter.scan_append)
  next
    case False
    from string_run [OF plain, of k ?h] show ?thesis
      using tail flushed False by (elim disjE) (simp_all add: query_filter.scan_append)
  qed
  with head show ?thesis
    unfolding render.simps query_filter.scan_append [of _ ?h] by simp
qed

subsection \<open>The whole stream\<close>

lemma scrub_escape:
  "wf_item (EscSeq b) \<Longrightarrow>
     scrub filter_new [0x1B, b] = (filter_new, if b = 0x5A then [] else [0x1B, b])"
  by (simp add: filter_new_def filter_step_def step_ground_def step_esc_def
      flush_then_ground_def flush_raw_def qdrop_def qpush_def)

lemma scrub_item:
  "wf_item i \<Longrightarrow> scrub filter_new (render i) = (filter_new, if is_query i then [] else render i)"
proof (cases i)
  case (Plain b)
  then show "wf_item i \<Longrightarrow> ?thesis" by (simp add: step_no_esc filter_new_def)
next
  case (CsiSeq inner fin)
  then show "wf_item i \<Longrightarrow> ?thesis" using scrub_csi [of inner fin] by simp
next
  case (StringSeq k body bel)
  then show "wf_item i \<Longrightarrow> ?thesis" using scrub_string [of k body bel] by simp
next
  case (EscSeq b)
  then show "wf_item i \<Longrightarrow> ?thesis" using scrub_escape [of b] by (simp del: scrub.simps)
qed

lemma scrub_items:
  "list_all wf_item items \<Longrightarrow> scrub filter_new (concat (map render items))
     = (filter_new, concat (map render (filter (\<lambda>i. \<not> is_query i) items)))"
  by (induction items) (simp_all add: query_filter.scan_append scrub_item del: render.simps)



text \<open>
  Removing a query can make one: the bytes \<open>ESC [ ESC Z c\<close> hold an aborted control
  sequence, a DECID query and the letter c; the filter takes the DECID out and emits
  \<open>ESC [ c\<close>, which is the primary device attributes query it exists to remove (a second pass
  would remove it).
\<close>

theorem filter_makes_query:
  "strip_queries [0x1B, 0x5B, 0x1B, 0x5A, 0x63] = render (CsiSeq [] 0x63)
   \<and> is_query (CsiSeq [] 0x63) \<and> strip_queries (render (CsiSeq [] 0x63)) = []"
  by (simp add: strip_queries_def filter_new_def filter_step_def step_arms is_csi_query_def
      filter_finish_def)

end
