(* ===== verification/Line_Shadow.thy ===== *)
theory Line_Shadow
  imports Scanners
begin

text \<open>
  \<open>src/src/line_shadow.rs\<close>: the cursor-state emulator.  The width of a character comes from the
  \<open>unicode_width\<close> crate and is the argument \<open>cw\<close>: it receives the UTF-8 bytes of one valid
  character and returns its width, or None for a control character.  \<open>usize\<close> is a nat with the
  64-bit wrap of a release build (\<open>usize_add\<close>) or the saturation the code asks for
  (\<open>saturating_add\<close>) written out.
\<close>

unbundle bit_operations_syntax

abbreviation (input) MAX_SGR_SEGMENTS :: nat where "MAX_SGR_SEGMENTS \<equiv> 64"
abbreviation (input) SHADOW_MAX_CSI :: nat where "SHADOW_MAX_CSI \<equiv> 64"
abbreviation (input) USIZE :: nat where "USIZE \<equiv> 2 ^ 64"

definition usize_add :: "nat \<Rightarrow> nat \<Rightarrow> nat" where
  "usize_add a b = (a + b) mod USIZE"

definition saturating_add :: "nat \<Rightarrow> nat \<Rightarrow> nat" where
  "saturating_add a b = min (a + b) (USIZE - 1)"

datatype ShadowState = LGround | LEsc | LEscIntermediate | LCsi | LStringBody | LStringEsc

record LineShadow =
  cols :: nat
  col :: nat
  autowrap :: bool
  sgr :: "rstring list"
  saved :: "(nat \<times> rstring list) option"
  lstate :: ShadowState
  csi :: "byte list"
  csi_overflow :: bool
  utf8 :: "byte list"
  utf8_len :: nat
  utf8_need :: nat

definition shadow_new :: "u16 \<Rightarrow> LineShadow" where
  "shadow_new c = \<lparr>cols = unat c, col = 0, autowrap = True, sgr = [], saved = None,
     lstate = LGround, csi = [], csi_overflow = False, utf8 = [0, 0, 0, 0], utf8_len = 0,
     utf8_need = 0\<rparr>"

definition cursor_column :: "LineShadow \<Rightarrow> nat" where
  "cursor_column s = col s"

definition restore_sequence :: "LineShadow \<Rightarrow> rstring" where
  "restore_sequence s =
     (let c = (if 0 < cols s then min (col s) (cols s - 1) else col s)
      in (if c = 0 then [0x0D] else [0x1B, 0x5B] @ dec (usize_add c 1) @ [0x47])
         @ [0x1B, 0x5B, 0x30, 0x6D]
         @ concat (map (\<lambda>seg. [0x1B, 0x5B] @ seg @ [0x6D]) (sgr s)))"

section \<open>Printed characters\<close>

definition advance :: "LineShadow \<Rightarrow> nat \<Rightarrow> LineShadow" where
  "advance s w =
     (if w = 0 then s
      else if cols s = 0 then s\<lparr>col := usize_add (col s) w\<rparr>
      else if autowrap s then
        (let c = (if cols s < col s + w then 0 else col s) in s\<lparr>col := min (c + w) (cols s)\<rparr>)
      else s\<lparr>col := min (col s + w) (cols s - 1)\<rparr>)"

definition start_utf8 :: "LineShadow \<Rightarrow> byte \<Rightarrow> nat \<Rightarrow> LineShadow" where
  "start_utf8 s b need = s\<lparr>utf8 := (utf8 s)[0 := b], utf8_len := 1, utf8_need := need\<rparr>"

definition printable_fresh :: "LineShadow \<Rightarrow> byte \<Rightarrow> LineShadow" where
  "printable_fresh s b =
     (if 0x20 \<le> b \<and> b \<le> 0x7E then advance s 1
      else if 0xC2 \<le> b \<and> b \<le> 0xDF then start_utf8 s b 1
      else if 0xE0 \<le> b \<and> b \<le> 0xEF then start_utf8 s b 2
      else if 0xF0 \<le> b \<and> b \<le> 0xF4 then start_utf8 s b 3
      else advance s 1)"

definition printable :: "(byte list \<Rightarrow> nat option) \<Rightarrow> LineShadow \<Rightarrow> byte \<Rightarrow> LineShadow" where
  "printable cw s b =
     (if 0 < utf8_need s then
        if b AND 0xC0 = 0x80 then
          (let s = s\<lparr>utf8 := (utf8 s)[utf8_len s := b], utf8_len := utf8_len s + 1,
                     utf8_need := utf8_need s - 1\<rparr>
           in if utf8_need s = 0 then
                (let ch = take (utf8_len s) (utf8 s);
                     w = (case (if utf8_valid ch then cw ch else None) of Some w \<Rightarrow> w | None \<Rightarrow> 1)
                 in advance (s\<lparr>utf8_len := 0\<rparr>) w)
              else s)
        else printable_fresh (s\<lparr>utf8_need := 0, utf8_len := 0\<rparr>) b
      else printable_fresh s b)"

definition ground :: "(byte list \<Rightarrow> nat option) \<Rightarrow> LineShadow \<Rightarrow> byte \<Rightarrow> LineShadow" where
  "ground cw s b =
     (let s = (if b < 0x20 \<or> b = 0x7F then s\<lparr>utf8_need := 0, utf8_len := 0\<rparr> else s)
      in if b = 0x1B then s\<lparr>lstate := LEsc\<rparr>
         else if b = 0x0D then s\<lparr>col := 0\<rparr>
         else if b = 0x08 then s\<lparr>col := col s - 1\<rparr>
         else if b = 0x09 then
           (let next_stop = usize_add (col s div 8 * 8) 8
            in s\<lparr>col := (if 0 < cols s then min next_stop (cols s - 1) else next_stop)\<rparr>)
         else if b = 0x0A \<or> b = 0x0B \<or> b = 0x0C then s
         else if b < 0x20 \<or> b = 0x7F then s
         else printable cw s b)"

definition shadow_esc :: "LineShadow \<Rightarrow> byte \<Rightarrow> LineShadow" where
  "shadow_esc s b =
     (let s = s\<lparr>lstate := LGround\<rparr>
      in if b = 0x5B then s\<lparr>csi := [], csi_overflow := False, lstate := LCsi\<rparr>
         else if b = 0x5D \<or> b = 0x50 \<or> b = 0x58 \<or> b = 0x5E \<or> b = 0x5F
           then s\<lparr>lstate := LStringBody\<rparr>
         else if b = 0x37 then s\<lparr>saved := Some (col s, sgr s)\<rparr>
         else if b = 0x38 then
           (case saved s of Some (c, g) \<Rightarrow> s\<lparr>col := c, sgr := g\<rparr> | None \<Rightarrow> s)
         else if b = 0x63 then s\<lparr>col := 0, autowrap := True, sgr := [], saved := None\<rparr>
         else if b = 0x45 then s\<lparr>col := 0\<rparr>
         else if b \<in> {0x28, 0x29, 0x2A, 0x2B, 0x23, 0x25, 0x20}
           then s\<lparr>lstate := LEscIntermediate\<rparr>
         else s)"

section \<open>Control sequences\<close>

definition nth_param :: "rstring \<Rightarrow> nat \<Rightarrow> nat \<Rightarrow> nat" where
  "nth_param params i dflt =
     (let ts = split_on (\<lambda>c. c = 0x3B) params
      in if i < length ts \<and> ts ! i \<noteq> []
         then (case parse_unsigned USIZE (hd (split_on (\<lambda>c. c = 0x3A) (ts ! i))) of
                 Some n \<Rightarrow> n | None \<Rightarrow> dflt)
         else dflt)"

definition set_col :: "LineShadow \<Rightarrow> nat \<Rightarrow> LineShadow" where
  "set_col s c = s\<lparr>col := (if 0 < cols s then min c (cols s - 1) else c)\<rparr>"

definition push_sgr :: "rstring list \<Rightarrow> rstring \<Rightarrow> rstring list" where
  "push_sgr segs seg = (if MAX_SGR_SEGMENTS \<le> length segs then [] else segs) @ [seg]"

definition sgr_number :: "rstring \<Rightarrow> nat option" where
  "sgr_number t =
     (if t = [] then Some 0 else parse_unsigned (2 ^ 32) (hd (split_on (\<lambda>c. c = 0x3A) t)))"

definition sgr_take :: "rstring list \<Rightarrow> nat" where
  "sgr_take ts =
     (case ts of t # _ \<Rightarrow> if t = [0x35] then 3 else if t = [0x32] then 5 else 1 | [] \<Rightarrow> 1)"

text \<open>The loop over \<open>toks\<close>: the tokens from the code's index \<open>i\<close> on are the argument.\<close>

function (sequential) sgr_loop :: "rstring list \<Rightarrow> rstring list \<Rightarrow> rstring list" where
  "sgr_loop segs [] = segs"
| "sgr_loop segs (t # ts) =
     (case sgr_number t of
        None \<Rightarrow> sgr_loop segs ts
      | Some n \<Rightarrow>
          if n = 0 then sgr_loop [] ts
          else if (n = 38 \<or> n = 48 \<or> n = 58) \<and> 0x3A \<notin> set t then
            sgr_loop (push_sgr segs (join [0x3B] (take (sgr_take ts) (t # ts))))
              (drop (sgr_take ts) (t # ts))
          else sgr_loop (push_sgr segs t) ts)"
  by pat_completeness auto

termination
  by (relation "measure (\<lambda>(_, ts). length ts)") (auto simp: sgr_take_def split: list.splits)

definition apply_sgr :: "rstring list \<Rightarrow> rstring \<Rightarrow> rstring list" where
  "apply_sgr segs params =
     (if params = [] then [] else sgr_loop segs (split_on (\<lambda>c. c = 0x3B) params))"

definition csi_public :: "LineShadow \<Rightarrow> rstring \<Rightarrow> byte \<Rightarrow> LineShadow" where
  "csi_public s params fin =
     (if fin = 0x6D then s\<lparr>sgr := apply_sgr (sgr s) params\<rparr>
      else if fin = 0x47 \<or> fin = 0x60 then set_col s (nth_param params 0 1 - 1)
      else if fin = 0x43 \<or> fin = 0x61 then
        (let target = saturating_add (col s) (max (nth_param params 0 1) 1)
         in s\<lparr>col := (if 0 < cols s then min target (cols s - 1) else target)\<rparr>)
      else if fin = 0x44 then s\<lparr>col := col s - max (nth_param params 0 1) 1\<rparr>
      else if fin = 0x48 \<or> fin = 0x66 then set_col s (nth_param params 1 1 - 1)
      else if fin = 0x45 \<or> fin = 0x46 then s\<lparr>col := 0\<rparr>
      else s)"

definition csi_dispatch :: "LineShadow \<Rightarrow> byte \<Rightarrow> LineShadow" where
  "csi_dispatch s fin =
     (let raw = csi s; s = s\<lparr>csi := []\<rparr>
      in if list_ex (\<lambda>b. 0x20 \<le> b \<and> b \<le> 0x2F) raw then s
         else
           (let private = (case raw of b # _ \<Rightarrow> 0x3C \<le> b \<and> b \<le> 0x3F | [] \<Rightarrow> False);
                body = (if private then drop 1 raw else raw);
                params = (if utf8_valid body then body else [])
            in if private then
                 (if (fin = 0x68 \<or> fin = 0x6C) \<and> starts_with raw [0x3F]
                     \<and> list_ex (\<lambda>p. p = [0x37]) (split_on (\<lambda>c. c = 0x3B) params)
                  then s\<lparr>autowrap := (fin = 0x68)\<rparr> else s)
               else csi_public s params fin))"

definition csi_byte :: "LineShadow \<Rightarrow> byte \<Rightarrow> LineShadow" where
  "csi_byte s b =
     (if 0x20 \<le> b \<and> b \<le> 0x3F then
        (if length (csi s) < SHADOW_MAX_CSI then s\<lparr>csi := csi s @ [b]\<rparr>
         else s\<lparr>csi_overflow := True\<rparr>)
      else if 0x40 \<le> b \<and> b \<le> 0x7E then
        (let s = (if \<not> csi_overflow s then csi_dispatch s b else s) in s\<lparr>lstate := LGround\<rparr>)
      else if b = 0x1B then s\<lparr>lstate := LEsc\<rparr>
      else s)"

section \<open>The machine\<close>

definition shadow_step :: "(byte list \<Rightarrow> nat option) \<Rightarrow> LineShadow \<Rightarrow> byte \<Rightarrow> LineShadow" where
  "shadow_step cw s b =
     (case lstate s of
        LGround \<Rightarrow> ground cw s b
      | LEsc \<Rightarrow> shadow_esc s b
      | LEscIntermediate \<Rightarrow> s\<lparr>lstate := LGround\<rparr>
      | LCsi \<Rightarrow> csi_byte s b
      | LStringBody \<Rightarrow>
          (if b = 0x07 then s\<lparr>lstate := LGround\<rparr>
           else if b = 0x1B then s\<lparr>lstate := LStringEsc\<rparr> else s)
      | LStringEsc \<Rightarrow> s\<lparr>lstate := (if b = 0x5C then LGround else LStringBody)\<rparr>)"

definition shadow_scan :: "(byte list \<Rightarrow> nat option) \<Rightarrow> LineShadow \<Rightarrow> byte list \<Rightarrow> LineShadow" where
  "shadow_scan cw s data = foldl (shadow_step cw) s data"

interpretation shadow: byte_fold "shadow_step cw" "shadow_scan cw" for cw
  by unfold_locales (simp_all add: shadow_scan_def)

end
