(* ===== verification/Line_Shadow_Proofs.thy ===== *)
theory Line_Shadow_Proofs
  imports Line_Shadow
begin

text \<open>
  The cursor shadow stays on the screen and within its caps, and the sequence it gives for a
  restore brings a terminal back to the tracked column and attributes.
\<close>

section \<open>Lists of parameters\<close>

definition param_byte :: "byte \<Rightarrow> bool" where
  "param_byte b \<longleftrightarrow> 0x30 \<le> b \<and> b \<le> 0x3F"

lemma param_byte_facts:
  assumes "param_byte b"
  shows "0x20 \<le> b" "b \<le> 0x3F" "\<not> b \<le> 0x2F" "is_ascii b" "b \<noteq> 0x2B"
proof -
  have n: "48 \<le> unat b" "unat b \<le> 63" using assms by (simp_all add: param_byte_def word_le_nat_alt)
  then show "0x20 \<le> b" "b \<le> 0x3F" "\<not> b \<le> 0x2F" "is_ascii b"
    by (simp_all add: word_le_nat_alt word_less_nat_alt is_ascii_def)
  show "b \<noteq> 0x2B" using n by auto
qed

lemma join_split: "join [s] (split_on (\<lambda>c. c = s) xs) = xs"
proof (induction xs)
  case (Cons x xs)
  obtain p ps where p: "split_on (\<lambda>c. c = s) xs = p # ps"
    by (cases "split_on (\<lambda>c. c = s) xs") simp_all
  have "join [s] ((x # p) # ps) = x # join [s] (p # ps)" by (cases ps) simp_all
  with p Cons show ?case by simp
qed simp

lemma split_on_parts: "t \<in> set (split_on (\<lambda>c. c = s) xs) \<Longrightarrow> s \<notin> set t \<and> set t \<subseteq> set xs"
  by (induction xs arbitrary: t) (fastforce split: if_splits list.splits)+

lemma length_join_append: "length (join sep xs) \<le> length (join sep (xs @ ys))"
  by (induction sep xs rule: join.induct) (cases ys; simp)+

lemma length_join_suffix: "length (join sep ys) \<le> length (join sep (xs @ ys))"
proof (induction xs)
  case (Cons x xs)
  then show ?case by (cases "xs @ ys") simp_all
qed simp

lemma set_join: "set (join sep xs) \<subseteq> set sep \<union> \<Union> (set ` set xs)"
  by (induction sep xs rule: join.induct) auto

section \<open>The SGR segments\<close>

definition wf_seg :: "rstring \<Rightarrow> bool" where
  "wf_seg seg \<longleftrightarrow> seg \<noteq> [] \<and> length seg \<le> 64 \<and> list_all param_byte seg \<and> is_digit (hd seg)
     \<and> (\<forall>segs. apply_sgr segs seg = push_sgr segs seg)"

definition wf_toks :: "rstring list \<Rightarrow> bool" where
  "wf_toks ts \<longleftrightarrow> (\<forall>t \<in> set ts. list_all param_byte t \<and> 0x3B \<notin> set t)
     \<and> length (join [0x3B] ts) \<le> 64"

lemma wf_toks_suffix: "wf_toks (xs @ ys) \<Longrightarrow> wf_toks ys"
  using length_join_suffix [of "[0x3B]" ys xs] by (auto simp: wf_toks_def)

lemma wf_toks_prefix: "wf_toks (xs @ ys) \<Longrightarrow> wf_toks xs"
  using length_join_append [of "[0x3B]" xs ys] by (auto simp: wf_toks_def)

lemma hd_split_on: "xs \<noteq> [] \<Longrightarrow> hd (split_on P xs) \<noteq> [] \<Longrightarrow> hd (hd (split_on P xs)) = hd xs"
  by (cases xs) (auto split: if_splits list.splits)

lemma number_digit:
  assumes "sgr_number t = Some n" and "t \<noteq> []" and "list_all param_byte t"
  shows "is_digit (hd t)"
proof -
  let ?h = "hd (split_on (\<lambda>c. c = 0x3A) t)"
  have p: "parse_unsigned (2 ^ 32) ?h = Some n"
    using assms by (simp add: sgr_number_def)
  then have ne: "?h \<noteq> []" by (auto simp: parse_unsigned_def split: if_splits)
  have hd: "hd ?h = hd t" using assms(2) ne by (rule hd_split_on)
  have "param_byte (hd t)" using assms(2,3) by (cases t) simp_all
  then have "hd ?h \<noteq> 0x2B" using param_byte_facts hd by simp
  then show ?thesis
    using p ne hd by (cases ?h) (auto simp: parse_unsigned_def Let_def split: if_splits)
qed

lemma sgr_take_take:
  "sgr_take (take (sgr_take ts - 1) ts) = sgr_take ts"
  by (cases ts) (auto simp: sgr_take_def)

lemma wf_toks_seg:
  assumes "wf_toks (t # ts)" and "sgr_number t = Some n" and "t \<noteq> []"
  shows "list_all param_byte (join [0x3B] (t # ts)) \<and> length (join [0x3B] (t # ts)) \<le> 64
     \<and> join [0x3B] (t # ts) \<noteq> [] \<and> is_digit (hd (join [0x3B] (t # ts)))
     \<and> split_on (\<lambda>c. c = 0x3B) (join [0x3B] (t # ts)) = t # ts"
proof -
  have "list_all param_byte t" using assms(1) by (simp add: wf_toks_def)
  then have d: "is_digit (hd t)" using assms by (intro number_digit)
  have sep: "param_byte 0x3B" by (simp add: param_byte_def)
  have toks: "param_byte c" if "u \<in> set (t # ts)" "c \<in> set u" for u c
    using assms(1) that unfolding wf_toks_def list_all_iff by blast
  have "param_byte c" if "c \<in> set (join [0x3B] (t # ts))" for c
  proof -
    have "c \<in> set [0x3B] \<union> \<Union> (set ` set (t # ts))"
      using that set_join [of "[0x3B]" "t # ts"] by (rule rev_subsetD)
    then show ?thesis using sep toks by (elim UnE UN_E) (simp, blast)
  qed
  then show ?thesis
    using assms d split_join [of "t # ts" "0x3B"]
    by (cases ts) (auto simp: wf_toks_def list_all_iff)
qed

lemma number_nonempty: "sgr_number t = Some n \<Longrightarrow> n \<noteq> 0 \<Longrightarrow> t \<noteq> []"
  by (auto simp: sgr_number_def)

lemma wf_seg_extended:
  assumes "wf_toks (t # ts)" and "sgr_number t = Some n" and "n = 38 \<or> n = 48 \<or> n = 58"
    and "0x3A \<notin> set t"
  shows "wf_seg (join [0x3B] (take (sgr_take ts) (t # ts)))"
proof -
  define us where "us = take (sgr_take ts - 1) ts"
  have k: "0 < sgr_take ts" by (simp add: sgr_take_def split: list.splits)
  then have tk: "take (sgr_take ts) (t # ts) = t # us" by (simp add: us_def take_Cons')
  have wf: "wf_toks (t # us)"
    using assms(1) wf_toks_prefix [of "t # us" "drop (sgr_take ts - 1) ts"] by (simp add: us_def)
  have ne: "t \<noteq> []" using assms(3) by (intro number_nonempty [OF assms(2)]) auto
  have take_us: "sgr_take us = sgr_take ts" by (simp only: us_def sgr_take_take)
  have "length us \<le> sgr_take ts - 1" by (simp add: us_def)
  then have "take (sgr_take us) (t # us) = t # us" "drop (sgr_take us) (t # us) = []"
    using k by (simp_all add: take_us)
  then have "sgr_loop segs (t # us) = push_sgr segs (join [0x3B] (t # us))" for segs
    using assms(2-4) by auto
  then show ?thesis
    using wf_toks_seg [OF wf assms(2) ne] by (simp add: wf_seg_def apply_sgr_def tk)
qed

lemma wf_seg_single:
  assumes "wf_toks (t # ts)" and "sgr_number t = Some n" and "n \<noteq> 0"
    and "\<not> ((n = 38 \<or> n = 48 \<or> n = 58) \<and> 0x3A \<notin> set t)"
  shows "wf_seg t"
proof -
  have ne: "t \<noteq> []" using assms(2,3) by (rule number_nonempty)
  have wf: "wf_toks [t]" using assms(1) wf_toks_prefix [of "[t]" ts] by simp
  have "sgr_loop segs [t] = push_sgr segs t" for segs
    using assms(2-4) by auto
  then show ?thesis
    using wf_toks_seg [OF wf assms(2) ne] ne by (simp add: wf_seg_def apply_sgr_def)
qed

definition wf_segs :: "rstring list \<Rightarrow> bool" where
  "wf_segs segs \<longleftrightarrow> length segs \<le> 64 \<and> list_all wf_seg segs"

lemma wf_segs_Nil [simp]: "wf_segs []"
  by (simp add: wf_segs_def)

lemma wf_push_sgr: "wf_segs segs \<Longrightarrow> wf_seg seg \<Longrightarrow> wf_segs (push_sgr segs seg)"
  by (simp add: wf_segs_def push_sgr_def)

lemma wf_sgr_loop: "wf_segs segs \<Longrightarrow> wf_toks ts \<Longrightarrow> wf_segs (sgr_loop segs ts)"
proof (induction segs ts rule: sgr_loop.induct)
  case (2 segs t ts)
  have ts: "wf_toks ts" using "2.prems"(2) wf_toks_suffix [of "[t]" ts] by simp
  have dr: "wf_toks (drop k (t # ts))" for k
    using "2.prems"(2) wf_toks_suffix [of "take k (t # ts)" "drop k (t # ts)"] by simp
  show ?case
  proof (cases "sgr_number t")
    case None
    with 2 ts show ?thesis by simp
  next
    case (Some n)
    consider "n = 0" | "n \<noteq> 0" "(n = 38 \<or> n = 48 \<or> n = 58) \<and> 0x3A \<notin> set t"
      | "n \<noteq> 0" "\<not> ((n = 38 \<or> n = 48 \<or> n = 58) \<and> 0x3A \<notin> set t)" by blast
    then show ?thesis
    proof cases
      case 1
      with Some "2.IH"(2) [OF Some 1] ts show ?thesis by simp
    next
      case 2
      have "wf_segs (push_sgr segs (join [0x3B] (take (sgr_take ts) (t # ts))))"
        using "2.prems" Some 2 by (intro wf_push_sgr wf_seg_extended) auto
      then show ?thesis using "2.IH"(3) [OF Some 2] Some 2 dr by simp
    next
      case 3
      have "wf_segs (push_sgr segs t)"
        using "2.prems" Some 3 by (intro wf_push_sgr wf_seg_single) auto
      then have "wf_segs (sgr_loop (push_sgr segs t) ts)" using "2.IH"(4) [OF Some 3] ts by simp
      moreover have "sgr_loop segs (t # ts) = sgr_loop (push_sgr segs t) ts"
        using Some 3 by auto
      ultimately show ?thesis by simp
    qed
  qed
qed simp

lemma wf_apply_sgr:
  assumes "wf_segs segs" and "list_all param_byte params" and "length params \<le> 64"
  shows "wf_segs (apply_sgr segs params)"
proof -
  have "wf_toks (split_on (\<lambda>c. c = 0x3B) params)"
    using assms(2,3) split_on_parts [of _ "0x3B" params]
    by (auto simp: wf_toks_def join_split list_all_iff)
  with assms(1) show ?thesis by (simp add: apply_sgr_def wf_sgr_loop)
qed

section \<open>The invariant of the machine\<close>

text \<open>
  The segments, the sequence buffer and the UTF-8 buffer keep within their bounds, so that the
  code's \<open>self.utf8[self.utf8_len]\<close> never indexes past the four bytes.
\<close>

definition buffers_ok :: "LineShadow \<Rightarrow> bool" where
  "buffers_ok s \<longleftrightarrow> wf_segs (sgr s) \<and> (\<forall>c g. saved s = Some (c, g) \<longrightarrow> wf_segs g)
     \<and> length (csi s) \<le> 64 \<and> list_all (\<lambda>b. 0x20 \<le> b \<and> b \<le> 0x3F) (csi s)
     \<and> length (utf8 s) = 4 \<and> utf8_len s + utf8_need s \<le> 4"

definition col_ok :: "LineShadow \<Rightarrow> bool" where
  "col_ok s \<longleftrightarrow> (0 < cols s \<longrightarrow> col s \<le> cols s \<and> (\<forall>c g. saved s = Some (c, g) \<longrightarrow> c \<le> cols s))"

definition shadow_inv :: "u16 \<Rightarrow> LineShadow \<Rightarrow> bool" where
  "shadow_inv c s \<longleftrightarrow> cols s = unat c \<and> buffers_ok s \<and> col_ok s"

lemma shadow_inv_new: "shadow_inv c (shadow_new c)"
  by (simp add: shadow_inv_def shadow_new_def buffers_ok_def col_ok_def)

lemma inv_col:
  "shadow_inv c s \<Longrightarrow> 0 < cols s \<longrightarrow> k \<le> cols s \<Longrightarrow> shadow_inv c (s\<lparr>col := k\<rparr>)"
  by (auto simp: shadow_inv_def buffers_ok_def col_ok_def)

lemma inv_state [simp]: "shadow_inv c (s\<lparr>lstate := st\<rparr>) = shadow_inv c s"
  by (auto simp: shadow_inv_def buffers_ok_def col_ok_def)

lemma inv_drop_utf8: "shadow_inv c s \<Longrightarrow> shadow_inv c (s\<lparr>utf8_need := 0, utf8_len := 0\<rparr>)"
  by (auto simp: shadow_inv_def buffers_ok_def col_ok_def)

lemma inv_utf8_len: "shadow_inv c s \<Longrightarrow> shadow_inv c (s\<lparr>utf8_len := 0\<rparr>)"
  by (auto simp: shadow_inv_def buffers_ok_def col_ok_def)

lemma inv_le: "shadow_inv c s \<Longrightarrow> 0 < cols s \<Longrightarrow> col s \<le> cols s"
  by (simp add: shadow_inv_def col_ok_def)

lemma inv_advance: "shadow_inv c s \<Longrightarrow> shadow_inv c (advance s w)"
  by (auto simp: advance_def Let_def intro!: inv_col)

lemma inv_start_utf8: "shadow_inv c s \<Longrightarrow> n \<le> 3 \<Longrightarrow> shadow_inv c (start_utf8 s b n)"
  by (auto simp: start_utf8_def shadow_inv_def buffers_ok_def col_ok_def)

lemma inv_printable_fresh: "shadow_inv c s \<Longrightarrow> shadow_inv c (printable_fresh s b)"
  by (simp add: printable_fresh_def inv_advance inv_start_utf8)

lemma inv_utf8:
  assumes "shadow_inv c s" and "length u = 4" and "k + n \<le> 4"
  shows "shadow_inv c (s\<lparr>utf8 := u, utf8_len := k, utf8_need := n\<rparr>)"
    and "shadow_inv c (s\<lparr>utf8 := u\<rparr>)"
  using assms by (auto simp: shadow_inv_def buffers_ok_def col_ok_def)

lemma inv_utf8_fields: "shadow_inv c s \<Longrightarrow> length (utf8 s) = 4 \<and> utf8_len s + utf8_need s \<le> 4"
  by (simp add: shadow_inv_def buffers_ok_def)

lemma inv_printable:
  assumes "shadow_inv c s"
  shows "shadow_inv c (printable cw s b)"
  unfolding printable_def Let_def
  using inv_utf8_fields [OF assms]
  by (auto intro!: inv_advance inv_utf8 inv_printable_fresh inv_drop_utf8 assms)

lemma inv_ground:
  assumes "shadow_inv c s"
  shows "shadow_inv c (ground cw s b)"
proof -
  obtain s' where s': "s' = (if b < 0x20 \<or> b = 0x7F then s\<lparr>utf8_need := 0, utf8_len := 0\<rparr> else s)"
    by simp
  have "shadow_inv c s'" using assms by (simp add: s' inv_drop_utf8)
  then show ?thesis
    using inv_le [of c s']
    unfolding ground_def Let_def s' [symmetric]
    by (auto intro!: inv_col inv_printable)
qed

lemma inv_esc: "shadow_inv c s \<Longrightarrow> shadow_inv c (shadow_esc s b)"
  unfolding shadow_esc_def Let_def
  by (simp split: option.splits prod.splits)
    (auto simp: shadow_inv_def buffers_ok_def col_ok_def)

lemma inv_set_col: "shadow_inv c s \<Longrightarrow> shadow_inv c (set_col s k)"
  by (auto simp: set_col_def intro!: inv_col)

lemma inv_sgr: "shadow_inv c s \<Longrightarrow> wf_segs g \<Longrightarrow> shadow_inv c (s\<lparr>sgr := g\<rparr>)"
  by (auto simp: shadow_inv_def buffers_ok_def col_ok_def)

lemma inv_csi_public:
  assumes "shadow_inv c s" and "list_all param_byte params" and "length params \<le> 64"
  shows "shadow_inv c (csi_public s params fin)"
proof -
  have "wf_segs (apply_sgr (sgr s) params)"
    using assms by (intro wf_apply_sgr) (simp_all add: shadow_inv_def buffers_ok_def)
  then show ?thesis
    using assms(1) inv_le [OF assms(1)]
    by (auto simp: csi_public_def Let_def intro!: inv_sgr inv_set_col inv_col)
qed

lemma inv_csi_dispatch:
  assumes "shadow_inv c s"
  shows "shadow_inv c (csi_dispatch s fin)"
proof (cases "list_ex (\<lambda>b. 0x20 \<le> b \<and> b \<le> 0x2F) (csi s)")
  case True
  with assms show ?thesis
    by (auto simp: csi_dispatch_def shadow_inv_def buffers_ok_def col_ok_def)
next
  case False
  have inv: "shadow_inv c (s\<lparr>csi := []\<rparr>)" "shadow_inv c (s\<lparr>csi := [], autowrap := a\<rparr>)" for a
    using assms by (auto simp: shadow_inv_def buffers_ok_def col_ok_def)
  have "list_all param_byte (csi s)" "length (csi s) \<le> 64"
    using assms False
    by (auto simp: shadow_inv_def buffers_ok_def list_all_iff list_ex_iff param_byte_def
        word_le_nat_alt)
  then have "shadow_inv c (csi_public (s\<lparr>csi := []\<rparr>) (csi s) fin)"
    "shadow_inv c (csi_public (s\<lparr>csi := []\<rparr>) [] fin)"
    using inv by (simp_all add: inv_csi_public)
  with False inv show ?thesis by (simp add: csi_dispatch_def Let_def)
qed

lemma inv_csi_byte: "shadow_inv c s \<Longrightarrow> shadow_inv c (csi_byte s b)"
  using inv_csi_dispatch [of c s b]
  by (simp add: csi_byte_def Let_def) (auto simp: shadow_inv_def buffers_ok_def col_ok_def)

lemma inv_step: "shadow_inv c s \<Longrightarrow> shadow_inv c (shadow_step cw s b)"
  by (simp add: shadow_step_def inv_ground inv_esc inv_csi_byte split: ShadowState.splits)

lemma inv_scan: "shadow_inv c s \<Longrightarrow> shadow_inv c (shadow_scan cw s bs)"
  by (erule shadow.scan_inv [rotated]) (rule inv_step)

text \<open>
  On a terminal of known width the shadow stays on the screen: after any output the column
  is at most the width (the width itself being the wrap-pending position), at most 64 SGR
  segments of at most 64 bytes and at most 64 sequence bytes are kept, and the index into the
  four-byte UTF-8 buffer is in range whenever a continuation byte is still expected.
\<close>

theorem shadow_stays_bounded:
  "let s = foldl (shadow_scan cw) (shadow_new c) chunks in
     (c = 0 \<or> cursor_column s \<le> unat c) \<and> length (sgr s) \<le> 64
     \<and> list_all (\<lambda>seg. length seg \<le> 64) (sgr s) \<and> length (csi s) \<le> 64
     \<and> length (utf8 s) = 4 \<and> (utf8_need s = 0 \<or> utf8_len s < length (utf8 s))"
proof -
  let ?s = "shadow_scan cw (shadow_new c) (concat chunks)"
  have inv: "shadow_inv c ?s" by (intro inv_scan shadow_inv_new)
  have "c = 0 \<or> 0 < unat c" by (simp add: unat_gt_0)
  with inv have "c = 0 \<or> col ?s \<le> unat c"
    using inv_le [OF inv] by (auto simp: shadow_inv_def)
  then show ?thesis
    using inv unfolding shadow.scan_concat [symmetric] Let_def
    by (auto simp: shadow_inv_def buffers_ok_def wf_segs_def wf_seg_def list_all_iff
        cursor_column_def)
qed

section \<open>The restore sequence\<close>

lemma ground_esc:
  "lstate s = LGround \<Longrightarrow> shadow_step cw s 0x1B
     = s\<lparr>utf8_need := 0, utf8_len := 0, lstate := LEsc\<rparr>"
  by (simp add: shadow_step_def ground_def)

lemma esc_bracket:
  "lstate s = LEsc \<Longrightarrow> shadow_step cw s 0x5B = s\<lparr>csi := [], csi_overflow := False, lstate := LCsi\<rparr>"
  by (simp add: shadow_step_def shadow_esc_def)

lemma csi_collect:
  assumes "lstate s = LCsi" and "list_all param_byte ps" and "length (csi s) + length ps \<le> 64"
  shows "shadow_scan cw s ps = s\<lparr>csi := csi s @ ps\<rparr>"
  using assms
proof (induction ps arbitrary: s)
  case (Cons b ps)
  have "shadow_step cw s b = s\<lparr>csi := csi s @ [b]\<rparr>"
    using Cons.prems param_byte_facts [of b] by (simp add: shadow_step_def csi_byte_def)
  moreover have "shadow_scan cw (s\<lparr>csi := csi s @ [b]\<rparr>) ps = s\<lparr>csi := csi s @ b # ps\<rparr>"
    using Cons.prems by (subst Cons.IH) simp_all
  ultimately show ?case by (simp add: shadow.scan_Cons)
qed (simp add: shadow.scan_Nil)

lemma dispatch_public:
  assumes "list_all param_byte (csi s)" and "csi s = [] \<or> is_digit (hd (csi s))"
  shows "csi_dispatch s fin = csi_public (s\<lparr>csi := []\<rparr>) (csi s) fin"
proof -
  have v: "utf8_valid (csi s)"
    using assms(1) param_byte_facts by (intro utf8_valid_ascii) (auto simp: list_all_iff)
  have n: "\<not> list_ex (\<lambda>b. 0x20 \<le> b \<and> b \<le> 0x2F) (csi s)"
    using assms(1) param_byte_facts by (auto simp: list_all_iff list_ex_iff)
  have "\<not> 0x3C \<le> b" if "is_digit b" for b
    using that by (simp add: is_digit_def word_le_nat_alt)
  then show ?thesis
    using assms(2) v n by (cases "csi s") (auto simp: csi_dispatch_def Let_def)
qed

text \<open>A complete public control sequence read in the ground state.\<close>

definition after_csi :: "LineShadow \<Rightarrow> rstring \<Rightarrow> byte \<Rightarrow> LineShadow" where
  "after_csi s ps fin =
     (csi_public (s\<lparr>utf8_need := 0, utf8_len := 0, csi_overflow := False, lstate := LCsi,
        csi := []\<rparr>) ps fin)\<lparr>lstate := LGround\<rparr>"

lemma scan_csi:
  assumes "lstate s = LGround" and "list_all param_byte ps" and "length ps \<le> 64"
    and "ps = [] \<or> is_digit (hd ps)" and "0x40 \<le> fin" and "fin \<le> 0x7E"
  shows "shadow_scan cw s ([0x1B, 0x5B] @ ps @ [fin]) = after_csi s ps fin"
proof -
  let ?s = "s\<lparr>utf8_need := 0, utf8_len := 0, csi := [], csi_overflow := False, lstate := LCsi\<rparr>"
  have "shadow_scan cw s [0x1B, 0x5B] = ?s"
    using assms(1) by (simp add: shadow.scan_Cons shadow.scan_Nil ground_esc esc_bracket)
  moreover have "shadow_scan cw ?s ps = ?s\<lparr>csi := ps\<rparr>"
    using assms(2,3) by (simp add: csi_collect)
  moreover have "\<not> fin \<le> 0x3F" using assms(5) by (simp add: word_le_nat_alt)
  then have "shadow_scan cw (?s\<lparr>csi := ps\<rparr>) [fin] = after_csi s ps fin"
    using assms dispatch_public [of "?s\<lparr>csi := ps\<rparr>" fin]
    by (simp add: shadow.scan_Cons shadow.scan_Nil shadow_step_def csi_byte_def after_csi_def)
  ultimately show ?thesis by (simp only: shadow.scan_append)
qed

definition same_screen :: "LineShadow \<Rightarrow> LineShadow \<Rightarrow> bool" where
  "same_screen s t \<longleftrightarrow> lstate t = LGround \<and> cols t = cols s \<and> col t = col s"

lemma after_sgr:
  "lstate (after_csi s ps 0x6D) = LGround \<and> cols (after_csi s ps 0x6D) = cols s
   \<and> col (after_csi s ps 0x6D) = col s \<and> sgr (after_csi s ps 0x6D) = apply_sgr (sgr s) ps"
  by (simp add: after_csi_def csi_public_def)

lemma scan_segments:
  assumes "lstate s = LGround" and "list_all wf_seg segs" and "length (sgr s) + length segs \<le> 64"
  shows "\<exists>t. shadow_scan cw s (concat (map (\<lambda>seg. [0x1B, 0x5B] @ seg @ [0x6D]) segs)) = t
    \<and> lstate t = LGround \<and> cols t = cols s \<and> col t = col s \<and> sgr t = sgr s @ segs"
  using assms
proof (induction segs arbitrary: s)
  case (Cons seg segs)
  let ?s = "after_csi s seg 0x6D"
  have wf: "wf_seg seg" using Cons.prems by simp
  then have sc: "shadow_scan cw s ([0x1B, 0x5B] @ seg @ [0x6D]) = ?s"
    using Cons.prems(1) by (intro scan_csi) (simp_all add: wf_seg_def)
  have sg: "sgr ?s = sgr s @ [seg]"
    using wf Cons.prems by (simp add: after_sgr wf_seg_def push_sgr_def)
  have "\<exists>t. shadow_scan cw ?s (concat (map (\<lambda>seg. [0x1B, 0x5B] @ seg @ [0x6D]) segs)) = t
    \<and> lstate t = LGround \<and> cols t = cols ?s \<and> col t = col ?s \<and> sgr t = sgr ?s @ segs"
    using Cons.prems sg by (intro Cons.IH) (simp_all add: after_sgr)
  then show ?case
    using sc sg by (simp add: shadow.scan_append after_sgr del: append_Cons)
qed (simp add: shadow.scan_Nil)

lemma is_digit_param: "is_digit b \<Longrightarrow> param_byte b"
  by (simp add: is_digit_def param_byte_def word_le_nat_alt)

lemma length_dec: "n < 10 ^ k \<Longrightarrow> 0 < k \<Longrightarrow> length (dec n) \<le> k"
proof (induction k arbitrary: n)
  case (Suc k)
  show ?case
  proof (cases "n < 10")
    case True
    then show ?thesis by (simp add: dec.simps [of n])
  next
    case False
    then have "n div 10 < 10 ^ k" "0 < k" using Suc.prems by (auto intro: ccontr)
    with Suc.IH False show ?thesis by (simp add: dec.simps [of n])
  qed
qed simp

lemma nth_param_dec: "n < USIZE \<Longrightarrow> nth_param (dec n) 0 d = n"
proof -
  assume n: "n < USIZE"
  have ns: "b \<noteq> 0x3B \<and> b \<noteq> 0x3A" if "b \<in> set (dec n)" for b
    using dec_digits [OF that] by (auto simp: is_digit_def)
  then have "split_on (\<lambda>c. c = 0x3B) (dec n) = [dec n]" "split_on (\<lambda>c. c = 0x3A) (dec n) = [dec n]"
    by (simp_all add: split_on_none)
  with n show ?thesis by (simp add: nth_param_def parse_unsigned_dec)
qed

lemma scan_column:
  assumes "lstate t = LGround" and "k < 65535" and "k = 0 \<or> k < cols t"
  shows "\<exists>t'. shadow_scan cw t (if k = 0 then [0x0D] else [0x1B, 0x5B] @ dec (k + 1) @ [0x47]) = t'
    \<and> lstate t' = LGround \<and> cols t' = cols t \<and> col t' = k"
proof (cases "k = 0")
  case True
  with assms(1) show ?thesis
    by (simp add: shadow.scan_Cons shadow.scan_Nil shadow_step_def ground_def)
next
  case False
  have d: "\<forall>b \<in> set (dec (k + 1)). is_digit b" using dec_digits by blast
  have "length (dec (k + 1)) \<le> 5" using assms(2) by (intro length_dec) simp_all
  then have "shadow_scan cw t ([0x1B, 0x5B] @ dec (k + 1) @ [0x47]) = after_csi t (dec (k + 1)) 0x47"
    using assms(1) d dec_nonempty [of "k + 1"]
    by (intro scan_csi) (auto simp: list_all_iff is_digit_param)
  moreover have "nth_param (dec (k + 1)) 0 1 = k + 1" using assms(2) by (intro nth_param_dec) simp
  ultimately show ?thesis
    using False assms(3) by (simp add: after_csi_def csi_public_def set_col_def)
qed

text \<open>
  C7. The restore sequence restores: a terminal of the same known width, between two sequences
  but in any other state (any column, any attributes, even half a character), that receives the
  restore sequence of a shadow that has followed any output ends up in the shadow's column
  (the wrap-pending column drawn back onto the last one) with exactly the shadow's SGR state.
\<close>

theorem restore_sequence_restores:
  assumes "c \<noteq> 0" and "lstate (shadow_scan cw (shadow_new c) seen) = LGround"
  shows "let s = shadow_scan cw (shadow_new c) output;
             t = shadow_scan cw (shadow_scan cw (shadow_new c) seen) (restore_sequence s)
    in cursor_column t = min (cursor_column s) (unat c - 1) \<and> sgr t = sgr s \<and> lstate t = LGround"
proof -
  define s where "s = shadow_scan cw (shadow_new c) output"
  let ?t0 = "shadow_scan cw (shadow_new c) seen" and ?k = "min (col s) (unat c - 1)"
  have inv: "shadow_inv c s" "shadow_inv c ?t0"
    unfolding s_def by (intro inv_scan shadow_inv_new)+
  have c: "0 < unat c" "unat c < 65536"
    using assms(1) unsigned_less [of c, where 'a = nat] by (simp_all add: unat_gt_0)
  then have w: "cols s = unat c" "cols ?t0 = unat c" "?k < 65535" "?k < cols ?t0"
    using inv by (simp_all add: shadow_inv_def)
  have segs: "list_all wf_seg (sgr s)" "length (sgr s) \<le> 64"
    using inv(1) by (simp_all add: shadow_inv_def buffers_ok_def wf_segs_def)
  have u: "usize_add ?k 1 = ?k + 1" using w(3) by (simp add: usize_add_def)
  have k: "(if 0 < cols s then min (col s) (cols s - 1) else col s) = ?k" using c(1) w(1) by simp
  have eq: "restore_sequence s
      = (if ?k = 0 then [0x0D] else [0x1B, 0x5B] @ dec (?k + 1) @ [0x47])
        @ ([0x1B, 0x5B] @ [0x30] @ [0x6D])
        @ concat (map (\<lambda>seg. [0x1B, 0x5B] @ seg @ [0x6D]) (sgr s))"
    unfolding restore_sequence_def Let_def k u by (simp only: append_Cons append_Nil)
  obtain t1 where t1: "shadow_scan cw ?t0
      (if ?k = 0 then [0x0D] else [0x1B, 0x5B] @ dec (?k + 1) @ [0x47]) = t1"
      "lstate t1 = LGround" "cols t1 = unat c" "col t1 = ?k"
    using scan_column [of ?t0 ?k cw] assms(2) w by auto
  have reset: "apply_sgr g [0x30] = []" for g
    by (simp add: apply_sgr_def sgr_number_def parse_unsigned_def is_digit_def undec_def digit_val_def)
  have t2: "shadow_scan cw t1 ([0x1B, 0x5B] @ [0x30] @ [0x6D]) = after_csi t1 [0x30] 0x6D"
    using t1(2) by (intro scan_csi) (simp_all add: param_byte_def is_digit_def)
  obtain t3 where t3: "shadow_scan cw (after_csi t1 [0x30] 0x6D)
      (concat (map (\<lambda>seg. [0x1B, 0x5B] @ seg @ [0x6D]) (sgr s))) = t3"
      "lstate t3 = LGround" "col t3 = ?k" "sgr t3 = sgr s"
    using scan_segments [of "after_csi t1 [0x30] 0x6D" "sgr s" cw] segs t1
    by (auto simp: after_sgr reset)
  have "shadow_scan cw ?t0 (restore_sequence s) = t3"
    unfolding eq
    by (subst shadow.scan_append, subst t1(1), subst shadow.scan_append, subst t2, rule t3(1))
  with t3 show ?thesis by (simp add: s_def cursor_column_def)
qed

theorem restore_sequence_restores_witness:
  "let s = shadow_scan (\<lambda>_. Some 1) (shadow_new 80) [0x1B, 0x5B, 0x33, 0x31, 0x6D, 0x61, 0x62];
       t = shadow_scan (\<lambda>_. Some 1) (shadow_scan (\<lambda>_. Some 1) (shadow_new 80) [0x78, 0xC3])
             (restore_sequence s)
   in cursor_column t = 2 \<and> sgr t = [[0x33, 0x31]]"
proof -
  let ?s = "shadow_scan (\<lambda>_. Some 1) (shadow_new 80) [0x1B, 0x5B, 0x33, 0x31, 0x6D, 0x61, 0x62]"
  have g: "lstate (shadow_scan (\<lambda>_. Some 1) (shadow_new 80) [0x78, 0xC3]) = LGround"
    by (simp add: shadow_scan_def shadow_new_def shadow_step_def ground_def printable_def
        printable_fresh_def advance_def start_utf8_def)
  have s: "?s = (after_csi (shadow_new 80) [0x33, 0x31] 0x6D)\<lparr>col := 2\<rparr>"
    by (simp add: shadow_scan_def shadow_new_def shadow_step_def ground_def shadow_esc_def
        csi_byte_def csi_dispatch_def is_ascii_def printable_def printable_fresh_def advance_def
        after_csi_def csi_public_def)
  have "sgr (shadow_new 80) = []" by (simp add: shadow_new_def)
  then have "sgr ?s = [[0x33, 0x31]]" "cursor_column ?s = 2"
    unfolding s cursor_column_def
    by (simp_all add: after_sgr apply_sgr_def sgr_number_def push_sgr_def
        parse_unsigned_def is_digit_def undec_def digit_val_def)
  then show ?thesis
    using restore_sequence_restores [OF _ g, of "[0x1B, 0x5B, 0x33, 0x31, 0x6D, 0x61, 0x62]"]
    by (simp add: Let_def)
qed

text \<open>
  With an unknown width (0 columns, no clamp) one control sequence can drive the column to
  the end of \<open>usize\<close>: after CUF with \<open>usize::MAX\<close> as its parameter the 1-based column of the
  restore sequence wraps to \<open>ESC [ 0 G\<close> (an overflow panic in a build with checks), which a
  terminal reads as column one.
\<close>

theorem restore_wraps_without_width:
  "restore_sequence (shadow_scan cw (shadow_new 0)
      ([0x1B, 0x5B] @ dec (2 ^ 64 - 1) @ [0x43])) = [0x1B, 0x5B, 0x30, 0x47, 0x1B, 0x5B, 0x30, 0x6D]"
proof -
  have d: "\<forall>b \<in> set (dec (2 ^ 64 - 1)). is_digit b" using dec_digits by blast
  have "length (dec (2 ^ 64 - 1)) \<le> 20" by (intro length_dec) simp_all
  then have "shadow_scan cw (shadow_new 0) ([0x1B, 0x5B] @ dec (2 ^ 64 - 1) @ [0x43])
      = after_csi (shadow_new 0) (dec (2 ^ 64 - 1)) 0x43"
    using d dec_nonempty [of "2 ^ 64 - 1"]
    by (intro scan_csi) (auto simp: list_all_iff is_digit_param shadow_new_def)
  moreover have "nth_param (dec (2 ^ 64 - 1)) 0 1 = 2 ^ 64 - 1" by (intro nth_param_dec) simp
  ultimately show ?thesis
    by (simp add: after_csi_def csi_public_def saturating_add_def restore_sequence_def
        shadow_new_def usize_add_def dec.simps digit_def)
qed

end
