(* ===== verification/Destination.thy ===== *)
theory Destination
  imports Strings
begin

text \<open>
  SSH destinations and the command lines built from them, from \<open>src/src/connect.rs\<close>: parsing,
  the arguments that precede the destination, the tunnel's command, the connection names, and the
  answer of a remote host to the readiness probe.
\<close>

section \<open>Parsing\<close>

record Destination =
  dst_user :: "rstring option"
  dst_host :: rstring
  dst_port :: "u16 option"

datatype DestError =
    EmptyDestination
  | LeadingDash
  | EmptyUser
  | InvalidPort
  | AfterBracket
  | UnclosedBracket
  | EmptyHost

abbreviation (input) COLON :: byte where "COLON \<equiv> 0x3A"
abbreviation (input) AT :: byte where "AT \<equiv> 0x40"
abbreviation (input) DASH :: byte where "DASH \<equiv> 0x2D"
abbreviation (input) LBRACKET :: byte where "LBRACKET \<equiv> 0x5B"
abbreviation (input) RBRACKET :: byte where "RBRACKET \<equiv> 0x5D"
abbreviation (input) SLASH :: byte where "SLASH \<equiv> 0x2F"

definition parse_port :: "rstring \<Rightarrow> u16 option" where
  "parse_port s = map_option word_of_nat (parse_unsigned (2 ^ 16) s)"

text \<open>The user before the first \<open>@\<close>, and what is left.\<close>

definition split_user :: "rstring \<Rightarrow> DestError + (rstring option \<times> rstring)" where
  "split_user s =
     (case split_once AT s of
        Some (u, r) \<Rightarrow> (if u = [] then Inl EmptyUser else Inr (Some u, r))
      | None \<Rightarrow> Inr (None, s))"

text \<open>Host and port; \<open>inner\<close> is what follows an opening bracket.\<close>

definition split_bracketed :: "rstring \<Rightarrow> DestError + (rstring \<times> u16 option)" where
  "split_bracketed inner =
     (case split_once RBRACKET inner of
        None \<Rightarrow> Inl UnclosedBracket
      | Some (h, after) \<Rightarrow>
          (case after of
             [] \<Rightarrow> Inr (h, None)
           | c # rest \<Rightarrow>
               (if c = COLON then
                  (case parse_port rest of Some p \<Rightarrow> Inr (h, Some p) | None \<Rightarrow> Inl InvalidPort)
                else Inl AfterBracket)))"

definition split_plain :: "rstring \<Rightarrow> rstring \<times> u16 option" where
  "split_plain r =
     (if 1 < length (filter (\<lambda>c. c = COLON) r) then (r, None)
      else
        (case rsplit_once COLON r of
           Some (h, t) \<Rightarrow> (case parse_port t of Some p \<Rightarrow> (h, Some p) | None \<Rightarrow> (r, None))
         | None \<Rightarrow> (r, None)))"

definition split_host :: "rstring \<Rightarrow> DestError + (rstring \<times> u16 option)" where
  "split_host r =
     (case r of
        [] \<Rightarrow> Inr (split_plain r)
      | c # inner \<Rightarrow> (if c = LBRACKET then split_bracketed inner else Inr (split_plain r)))"

definition parse_destination :: "rstring \<Rightarrow> DestError + Destination" where
  "parse_destination s =
     (if s = [] then Inl EmptyDestination
      else if hd s = DASH then Inl LeadingDash
      else
        (case split_user s of
           Inl e \<Rightarrow> Inl e
         | Inr (user, r) \<Rightarrow>
             (case split_host r of
                Inl e \<Rightarrow> Inl e
              | Inr (h, p) \<Rightarrow>
                  (if h = [] then Inl EmptyHost else Inr \<lparr>dst_user = user, dst_host = h, dst_port = p\<rparr>))))"

definition ssh_dest :: "Destination \<Rightarrow> rstring" where
  "ssh_dest d = (case dst_user d of Some u \<Rightarrow> u @ AT # dst_host d | None \<Rightarrow> dst_host d)"

definition port_args :: "Destination \<Rightarrow> rstring list" where
  "port_args d = (case dst_port d of Some p \<Rightarrow> [ascii ''-p'', dec (unat p)] | None \<Rightarrow> [])"

text \<open>\<open>parse_host\<close>.\<close>

definition parse_host :: "rstring \<Rightarrow> DestError + rstring" where
  "parse_host s = (case parse_destination s of Inl e \<Rightarrow> Inl e | Inr d \<Rightarrow> Inr (dst_host d))"

text \<open>\<open>validate_connection_name\<close>: whether the name is accepted.\<close>

definition validate_connection_name :: "rstring \<Rightarrow> bool" where
  "validate_connection_name n \<longleftrightarrow> n \<noteq> [] \<and> SLASH \<notin> set n \<and> 0 \<notin> set n \<and> \<not> contains (ascii ''..'') n"

definition connect_sidecar_path :: "rstring \<Rightarrow> rstring \<Rightarrow> rstring \<Rightarrow> rstring" where
  "connect_sidecar_path socket_dir connection_name ext =
     socket_dir @ ascii ''/connect-'' @ connection_name @ ascii ''.'' @ ext"

definition ctl_socket_tunnel_name :: "rstring \<Rightarrow> rstring option" where
  "ctl_socket_tunnel_name file =
     (case strip_prefix (ascii ''connect-'') file of
        Some rest \<Rightarrow> strip_suffix (ascii ''.sock'') rest
      | None \<Rightarrow> None)"

text \<open>\<open>destination_from_sidecar\<close>, and the arguments that recreate a tunnel.\<close>

definition destination_from_sidecar :: "rstring option \<Rightarrow> rstring option \<Rightarrow> rstring \<Rightarrow> rstring" where
  "destination_from_sidecar contents config_dest connection_name =
     (case (case contents of Some s \<Rightarrow> if trim s = [] then None else Some (trim s) | None \<Rightarrow> None) of
        Some t \<Rightarrow> t
      | None \<Rightarrow> (case config_dest of Some d \<Rightarrow> d | None \<Rightarrow> connection_name))"

definition merge_ssh_options :: "rstring list \<Rightarrow> rstring list \<Rightarrow> rstring list" where
  "merge_ssh_options cli configured = cli @ configured"

definition build_tunnel_recreate_args :: "rstring \<Rightarrow> rstring \<Rightarrow> rstring list \<Rightarrow> rstring list" where
  "build_tunnel_recreate_args connection_name destination ssh_options =
     [ascii ''tunnel-create'', ascii ''--name'', connection_name]
       @ concat (map (\<lambda>opt. [ascii ''-o'', opt]) ssh_options) @ [destination]"

section \<open>Command lines\<close>

definition base_ssh_args :: "Destination \<Rightarrow> rstring list \<Rightarrow> bool \<Rightarrow> nat \<Rightarrow> rstring list" where
  "base_ssh_args dest extra foreground connect_timeout =
     port_args dest @ concat (map (\<lambda>opt. [ascii ''-o'', opt]) extra)
       @ (if 0 < connect_timeout then [ascii ''-o'', ascii ''ConnectTimeout='' @ dec connect_timeout] else [])
       @ (if foreground then [] else [ascii ''-o'', ascii ''BatchMode=yes''])"

definition TUNNEL_SSH_OPTS :: "rstring list" where
  "TUNNEL_SSH_OPTS =
     [ascii ''ServerAliveInterval=3'', ascii ''ServerAliveCountMax=2'', ascii ''StreamLocalBindUnlink=yes'',
      ascii ''ExitOnForwardFailure=yes'', ascii ''ForwardAgent=no'', ascii ''ForwardX11=no'']"

definition tunnel_command ::
  "Destination \<Rightarrow> rstring \<Rightarrow> rstring \<Rightarrow> rstring list \<Rightarrow> bool \<Rightarrow> bool \<Rightarrow> nat \<Rightarrow> rstring list" where
  "tunnel_command dest local_sock remote_sock extra foreground isolate connect_timeout =
     base_ssh_args dest extra foreground connect_timeout
       @ concat (map (\<lambda>opt. [ascii ''-o'', opt]) TUNNEL_SSH_OPTS)
       @ (if isolate then [ascii ''-o'', ascii ''ControlPath=none''] else [])
       @ [ascii ''-T'', ascii ''-L'', local_sock @ COLON # remote_sock]
       @ (if isolate then [ascii ''-N''] else [])
       @ [ssh_dest dest]
       @ (if isolate then [] else [ascii ''exec sleep 2147483647''])"

text \<open>The arguments of a remote command, with its wrapped text.\<close>

definition remote_exec_args :: "Destination \<Rightarrow> rstring \<Rightarrow> rstring list \<Rightarrow> bool \<Rightarrow> nat \<Rightarrow> rstring list" where
  "remote_exec_args dest wrapped extra foreground connect_timeout =
     base_ssh_args dest extra foreground connect_timeout
       @ concat (map (\<lambda>opt. [ascii ''-o'', opt]) [ascii ''ServerAliveInterval=3'', ascii ''ServerAliveCountMax=2''])
       @ [ssh_dest dest, wrapped]"

section \<open>The remote's answer\<close>

datatype EnsureError = Unusable "rstring option" | EmptySocketPath | InvalidSocketPath rstring

text \<open>\<open>parse_ensure_remote_output\<close>: the first line tagged \<open>ERR:\<close> wins; else path and version.\<close>

definition err_reason :: "rstring \<Rightarrow> rstring option" where
  "err_reason l = map_option trim (strip_prefix (ascii ''ERR:'') (trim l))"

definition parse_ensure_remote_output :: "rstring \<Rightarrow> EnsureError + (rstring \<times> u16 option)" where
  "parse_ensure_remote_output output =
     (case List.map_filter err_reason (lines output) of
        reason # _ \<Rightarrow> Inl (Unusable (if reason = [] then None else Some reason))
      | [] \<Rightarrow>
          (let sock = (case lines output of l # _ \<Rightarrow> trim l | [] \<Rightarrow> []);
               version = (case lines output of _ # l # _ \<Rightarrow> parse_port (trim l) | _ \<Rightarrow> None)
           in if sock = [] then Inl EmptySocketPath
              else if hd sock \<noteq> SLASH then Inl (InvalidSocketPath sock)
              else Inr (sock, version)))"

text \<open>\<open>spawn_tunnel\<close> refuses a path that is not absolute; the rest is the operating system's.\<close>

definition spawn_allowed :: "rstring \<Rightarrow> bool" where
  "spawn_allowed remote_sock \<longleftrightarrow> starts_with remote_sock [SLASH]"

datatype Probe = Version u16 | NotOnPath | Unknown

definition parse_probe_output :: "rstring \<Rightarrow> Probe" where
  "parse_probe_output out =
     (case lines out of
        [] \<Rightarrow> Unknown
      | ls \<Rightarrow> (case parse_port (trim (last ls)) of Some v \<Rightarrow> Version v | None \<Rightarrow> Unknown))"

section \<open>What a destination is\<close>

lemma split_plain_cases:
  "fst (split_plain r) = r \<or> (\<exists>t. r = fst (split_plain r) @ COLON # t)"
proof (cases "rsplit_once COLON r")
  case None
  then show ?thesis by (simp add: split_plain_def)
next
  case (Some x)
  obtain h t where x: "x = (h, t)" by (cases x)
  then have "r = h @ COLON # t" using rsplit_onceD [of COLON r h t] Some by simp
  then show ?thesis using Some x by (auto simp: split_plain_def simp del: filter.simps split: option.split)
qed

lemma split_plain_hd: "fst (split_plain (c # cs)) \<noteq> [] \<Longrightarrow> hd (fst (split_plain (c # cs))) = c"
  using split_plain_cases [of "c # cs"] by (cases "fst (split_plain (c # cs))") auto

lemma split_bracketed_host:
  assumes "split_bracketed inner = Inr (h, p)"
  shows "\<exists>rest. inner = h @ RBRACKET # rest"
proof (cases "split_once RBRACKET inner")
  case None
  with assms show ?thesis by (simp add: split_bracketed_def)
next
  case (Some x)
  obtain h' after where x: "x = (h', after)" by (cases x)
  with assms Some have "h = h'" by (auto simp: split_bracketed_def split: list.splits option.splits if_splits)
  with split_onceD [of RBRACKET inner h' after] Some x show ?thesis by blast
qed

lemma parse_destinationD:
  assumes "parse_destination s = Inr d"
  shows "s \<noteq> [] \<and> hd s \<noteq> DASH \<and> (\<exists>r p. split_user s = Inr (dst_user d, r)
    \<and> split_host r = Inr (dst_host d, p)) \<and> dst_host d \<noteq> []"
proof -
  obtain user r where u: "split_user s = Inr (user, r)"
    using assms by (cases "split_user s") (auto simp: parse_destination_def split: if_splits)
  obtain h p where h: "split_host r = Inr (h, p)"
    using assms u by (cases "split_host r") (auto simp: parse_destination_def split: if_splits)
  show ?thesis using assms u h by (auto simp: parse_destination_def split: if_splits)
qed

lemma split_userD:
  "split_user s = Inr (Some u, r) \<Longrightarrow> u \<noteq> [] \<and> s = u @ AT # r"
  "split_user s = Inr (None, r) \<Longrightarrow> AT \<notin> set s \<and> r = s"
proof -
  assume "split_user s = Inr (Some u, r)"
  then have "split_once AT s = Some (u, r)" "u \<noteq> []"
    by (cases "split_once AT s"; auto simp: split_user_def split: if_splits)+
  with split_onceD [OF this(1)] show "u \<noteq> [] \<and> s = u @ AT # r" by blast
next
  assume "split_user s = Inr (None, r)"
  then have "split_once AT s = None" "r = s"
    by (cases "split_once AT s"; auto simp: split_user_def split: if_splits)+
  then show "AT \<notin> set s \<and> r = s" by (simp add: split_once_def split: if_splits)
qed

text \<open>
  The destination handed to ssh: it is never empty, and it begins with a dash -- which ssh
  would read as an option -- exactly when the given text has no user and is a bracketed host that
  begins with one.
\<close>

theorem ssh_dest_dash_iff:
  "case parse_destination s of
     Inl e \<Rightarrow> True
   | Inr d \<Rightarrow> ssh_dest d \<noteq> []
       \<and> (hd (ssh_dest d) = DASH \<longleftrightarrow> AT \<notin> set s \<and> starts_with s [LBRACKET, DASH])"
proof (cases "parse_destination s")
  case (Inr d)
  from parse_destinationD [OF this] obtain r p where s: "s \<noteq> []" "hd s \<noteq> DASH"
    and u: "split_user s = Inr (dst_user d, r)" and h: "split_host r = Inr (dst_host d, p)" "dst_host d \<noteq> []"
    by blast
  show ?thesis
  proof (cases "dst_user d")
    case (Some user)
    with u have "user \<noteq> []" "s = user @ AT # r" using split_userD(1) by auto
    with Inr Some s show ?thesis by (cases user) (auto simp: ssh_dest_def)
  next
    case None
    with u have at: "AT \<notin> set s" "r = s" using split_userD(2) by auto
    obtain c cs where c: "s = c # cs" using s by (cases s) auto
    show ?thesis
    proof (cases "c = LBRACKET")
      case True
      with h(1) at c have "split_bracketed cs = Inr (dst_host d, p)" by (simp add: split_host_def)
      then obtain rest where "cs = dst_host d @ RBRACKET # rest" using split_bracketed_host by blast
      with h(2) True c at Inr None show ?thesis
        by (cases "dst_host d") (auto simp: ssh_dest_def starts_with_def)
    next
      case False
      with h(1) at c have "fst (split_plain (c # cs)) = dst_host d" by (simp add: split_host_def)
      with split_plain_hd [of c cs] h(2) False c at s Inr None show ?thesis
        by (simp add: ssh_dest_def starts_with_def)
    qed
  qed
qed simp

section \<open>Round trip\<close>

text \<open>The written form of a destination, an address with colons in brackets.\<close>

definition show_destination :: "Destination \<Rightarrow> rstring" where
  "show_destination d =
     (case dst_user d of Some u \<Rightarrow> u @ [AT] | None \<Rightarrow> [])
       @ (if COLON \<in> set (dst_host d) then LBRACKET # dst_host d @ [RBRACKET] else dst_host d)
       @ (case dst_port d of Some p \<Rightarrow> COLON # dec (unat p) | None \<Rightarrow> [])"

definition destination_ok :: "Destination \<Rightarrow> bool" where
  "destination_ok d \<longleftrightarrow>
     (case dst_user d of
        Some u \<Rightarrow> u \<noteq> [] \<and> hd u \<noteq> DASH \<and> AT \<notin> set u
      | None \<Rightarrow> AT \<notin> set (dst_host d) \<and> hd (dst_host d) \<noteq> DASH)
     \<and> dst_host d \<noteq> [] \<and> hd (dst_host d) \<noteq> LBRACKET \<and> RBRACKET \<notin> set (dst_host d)"

lemma parse_port_dec: "parse_port (dec (unat p)) = Some p"
proof -
  have "parse_unsigned (2 ^ 16) (dec (unat p)) = Some (unat p)"
    by (rule parse_unsigned_dec) (use unsigned_less [of p] in simp)
  then show ?thesis by (simp add: parse_port_def)
qed

lemma split_plain_port:
  "COLON \<notin> set h \<Longrightarrow> split_plain (h @ COLON # dec (unat p)) = (h, Some p)"
  "COLON \<notin> set h \<Longrightarrow> split_plain h = (h, None)"
proof -
  assume h: "COLON \<notin> set h"
  have no: "COLON \<notin> set (dec (unat p))" using dec_digits [of COLON "unat p"] by (auto simp: is_digit_def)
  have none: "filter (\<lambda>c. c = COLON) xs = []" if "COLON \<notin> set xs" for xs
    using that by (induction xs) auto
  have "filter (\<lambda>c. c = COLON) (h @ COLON # dec (unat p)) = [COLON]"
    by (simp add: none h no)
  with no show "split_plain (h @ COLON # dec (unat p)) = (h, Some p)"
    by (simp add: split_plain_def parse_port_dec del: filter_append)
  from none [OF h] h show "split_plain h = (h, None)" by (simp add: split_plain_def rsplit_once_def)
qed

lemma split_host_shown:
  assumes "dst_host d \<noteq> []" "hd (dst_host d) \<noteq> LBRACKET" "RBRACKET \<notin> set (dst_host d)"
  shows "split_host ((if COLON \<in> set (dst_host d) then LBRACKET # dst_host d @ [RBRACKET] else dst_host d)
       @ (case dst_port d of Some p \<Rightarrow> COLON # dec (unat p) | None \<Rightarrow> [])) = Inr (dst_host d, dst_port d)"
proof (cases "COLON \<in> set (dst_host d)")
  case True
  have "split_once RBRACKET (dst_host d @ RBRACKET # t) = Some (dst_host d, t)" for t
    using assms(3) by simp
  with True show ?thesis
    by (auto simp: split_host_def split_bracketed_def parse_port_dec split: option.split)
next
  case False
  obtain c cs where "dst_host d = c # cs" using assms(1) by (cases "dst_host d") auto
  with False assms(2) split_plain_port [of "dst_host d"] show ?thesis
    by (auto simp: split_host_def split: option.split)
qed

text \<open>
  Destinations round trip: the written form of a destination, with or without user and port,
  with names and with addresses in brackets, is parsed back to it.
\<close>

theorem parse_shown_destination:
  assumes "destination_ok d"
  shows "parse_destination (show_destination d) = Inr d"
proof -
  let ?rest = "(if COLON \<in> set (dst_host d) then LBRACKET # dst_host d @ [RBRACKET] else dst_host d)
       @ (case dst_port d of Some p \<Rightarrow> COLON # dec (unat p) | None \<Rightarrow> [])"
  have host: "split_host ?rest = Inr (dst_host d, dst_port d)"
    by (rule split_host_shown) (use assms in \<open>auto simp: destination_ok_def split: option.splits\<close>)
  show ?thesis
  proof (cases "dst_user d")
    case (Some u)
    then have u: "u \<noteq> []" "hd u \<noteq> DASH" "AT \<notin> set u" "dst_host d \<noteq> []"
      using assms by (simp_all add: destination_ok_def)
    have "show_destination d = u @ AT # ?rest" using Some by (simp add: show_destination_def)
    with u Some host show ?thesis
      by (simp add: parse_destination_def split_user_def)
  next
    case None
    have "AT \<notin> set (dec n)" for n using dec_digits [of AT n] by (auto simp: is_digit_def)
    with None assms have "split_once AT ?rest = None"
      by (auto simp: split_once_def destination_ok_def split: option.split)
    moreover have "show_destination d = ?rest" using None by (simp add: show_destination_def)
    moreover have "?rest \<noteq> []" "hd ?rest \<noteq> DASH" "dst_host d \<noteq> []"
      using None assms by (auto simp: destination_ok_def hd_append split: if_splits)
    ultimately show ?thesis using None host
      by (simp only: parse_destination_def split_user_def if_False option.case sum.case prod.case) simp
  qed
qed

theorem parse_shown_destination_witness:
  "parse_destination (ascii ''root@[::1]:2222'')
     = Inr \<lparr>dst_user = Some (ascii ''root''), dst_host = ascii ''::1'', dst_port = Some 2222\<rparr>"
proof -
  have "dec (unat (2222 :: u16)) = ascii ''2222''" by (simp add: dec.simps digit_def)
  then show ?thesis
    using parse_shown_destination [of "\<lparr>dst_user = Some (ascii ''root''), dst_host = ascii ''::1'', dst_port = Some 2222\<rparr>"]
    by (simp add: destination_ok_def show_destination_def)
qed

text \<open>The bracket that lets an option through.\<close>

lemma bracketed_option:
  "map_option ssh_dest (case parse_destination (ascii ''[-oProxyCommand=x]'') of Inr d \<Rightarrow> Some d | Inl e \<Rightarrow> None)
     = Some (ascii ''-oProxyCommand=x'')"
  by (simp add: parse_destination_def split_user_def split_once_def split_host_def split_bracketed_def ssh_dest_def)

end
