(* ===== verification/Tunnel.thy ===== *)
theory Tunnel
  imports Destination
begin

text \<open>
  The supervisor of an SSH tunnel, from \<open>src/src/connect.rs\<close>: the policy functions, the interruptible
  backoff, the respawn loop and the monitor, one definition per arm of its \<open>select\<close>.  Monotonic
  and wall clock are nanoseconds; what the lock file, the probes, ssh and the remote answer is the
  event's environment.
\<close>

section \<open>Policy\<close>

abbreviation (input) SEC :: nat where "SEC \<equiv> 1000000000"
abbreviation (input) MIN_RESPAWN_BACKOFF :: nat where "MIN_RESPAWN_BACKOFF \<equiv> SEC"
abbreviation (input) MAX_RESPAWN_BACKOFF :: nat where "MAX_RESPAWN_BACKOFF \<equiv> 60 * SEC"
abbreviation (input) HEALTHY_CHILD_THRESHOLD :: nat where "HEALTHY_CHILD_THRESHOLD \<equiv> 30 * SEC"
abbreviation (input) PROBE_FAILURES_BEFORE_RESPAWN :: nat where "PROBE_FAILURES_BEFORE_RESPAWN \<equiv> 2"
abbreviation (input) NET_PROBE_DEBOUNCE :: nat where "NET_PROBE_DEBOUNCE \<equiv> 500000000"
abbreviation (input) SPAWN_GRACE :: nat where "SPAWN_GRACE \<equiv> 5 * SEC"
abbreviation (input) SUSPEND_JUMP_THRESHOLD :: nat where "SUSPEND_JUMP_THRESHOLD \<equiv> 5 * SEC"
abbreviation (input) SKIP_ENSURE_REMOTE_THRESHOLD :: nat where "SKIP_ENSURE_REMOTE_THRESHOLD \<equiv> 60 * SEC"

definition respawn_now :: "bool \<Rightarrow> nat \<Rightarrow> bool" where
  "respawn_now socket_file_exists consecutive_failures \<longleftrightarrow>
     \<not> socket_file_exists \<or> PROBE_FAILURES_BEFORE_RESPAWN \<le> consecutive_failures"

datatype ExitClass = Transient | NonTransient

definition classify_exit :: "int option \<Rightarrow> ExitClass" where
  "classify_exit code =
     (case code of
        None \<Rightarrow> Transient
      | Some c \<Rightarrow> (if c = 255 \<or> 128 \<le> c \<and> c \<le> 159 then Transient else NonTransient))"

definition respawn_sleep :: "nat \<Rightarrow> nat \<Rightarrow> nat" where
  "respawn_sleep prev prior_uptime =
     (if HEALTHY_CHILD_THRESHOLD \<le> prior_uptime then MIN_RESPAWN_BACKOFF else prev)"

definition suspend_jump :: "nat \<Rightarrow> nat \<Rightarrow> bool" where
  "suspend_jump mono_d wall_d \<longleftrightarrow> mono_d + SUSPEND_JUMP_THRESHOLD < wall_d"

definition double_backoff :: "nat \<Rightarrow> nat" where
  "double_backoff cur = min (max cur MIN_RESPAWN_BACKOFF * 2) MAX_RESPAWN_BACKOFF"

section \<open>State\<close>

record ChildState =
  spawned_at :: nat
  spawned_at_wall :: nat
  probe_failures :: nat

record MonitorState =
  remote_sock :: rstring
  backoff :: nat
  last_healthy :: "nat option"
  net_probe_at :: "nat option"
  we_killed :: bool
  saw_unsatisfied :: bool

definition child_new :: "nat \<Rightarrow> nat \<Rightarrow> ChildState" where
  "child_new now wall = \<lparr>spawned_at = now, spawned_at_wall = wall, probe_failures = 0\<rparr>"

definition uptime :: "nat \<Rightarrow> ChildState \<Rightarrow> nat" where
  "uptime now c = now - spawned_at c"

definition past_spawn_grace :: "nat \<Rightarrow> ChildState \<Rightarrow> bool" where
  "past_spawn_grace now c \<longleftrightarrow> SPAWN_GRACE \<le> uptime now c"

definition monitor_start :: "rstring \<Rightarrow> nat \<Rightarrow> MonitorState" where
  "monitor_start initial_remote_sock wall =
     \<lparr>remote_sock = initial_remote_sock, backoff = MIN_RESPAWN_BACKOFF,
      last_healthy = (if initial_remote_sock = [] then None else Some wall), net_probe_at = None,
      we_killed = False, saw_unsatisfied = False\<rparr>"

datatype MonitorOut =
    Slept nat
  | SkippedSleep nat
  | EnsureRemote
  | SpawnSsh rstring
  | KillChild

section \<open>The backoff\<close>

datatype WaitOutcome = Elapsed | Wake | Kicked | NetRecovered | Cancelled

text \<open>
  What happens during a wait: a poll with its finding of the kick file and the time passed on both
  clocks, a change of the network, the stop; the list ends with the timer.
\<close>

datatype WaitEvent = Poll bool nat nat | NetChanged bool | Stopped

fun backoff_wait :: "WaitEvent list \<Rightarrow> bool \<Rightarrow> WaitOutcome \<times> bool" where
  "backoff_wait [] saw = (Elapsed, saw)"
| "backoff_wait (ev # evs) saw =
     (case ev of
        Poll kicked mono_d wall_d \<Rightarrow>
          (if kicked then (Kicked, saw)
           else if suspend_jump mono_d wall_d then (Wake, saw)
           else backoff_wait evs saw)
      | NetChanged unsatisfied \<Rightarrow>
          (if unsatisfied then backoff_wait evs True
           else if saw then (NetRecovered, False)
           else backoff_wait evs saw)
      | Stopped \<Rightarrow> (Cancelled, saw))"

text \<open>One turn of the respawn loop: the lock, the wait, the readiness of the remote, the spawn.\<close>

record Round =
  rd_owned :: bool
  rd_wait :: "WaitEvent list"
  rd_wall :: nat
  rd_output :: "rstring option"
  rd_spawn_ok :: bool
  rd_spawned :: nat

datatype RespawnResult = NewChild ChildState | ExitMonitor

text \<open>
  \<open>ensure_remote_ready\<close>, unless the tunnel was healthy within the last minute: from the output of
  the remote command, None when ssh failed.
\<close>

definition recently_healthy :: "nat \<Rightarrow> MonitorState \<Rightarrow> bool" where
  "recently_healthy wall ms \<longleftrightarrow>
     (case last_healthy ms of None \<Rightarrow> False | Some t \<Rightarrow> wall - t < SKIP_ENSURE_REMOTE_THRESHOLD)"

definition ensure_remote :: "Round \<Rightarrow> MonitorState \<Rightarrow> (MonitorState \<times> MonitorOut list) option" where
  "ensure_remote rd ms =
     (if recently_healthy (rd_wall rd) ms \<and> remote_sock ms \<noteq> [] then Some (ms, [])
      else
        (case rd_output rd of
           None \<Rightarrow> None
         | Some output \<Rightarrow>
             (case parse_ensure_remote_output output of
                Inl err \<Rightarrow> None
              | Inr (sock, version) \<Rightarrow> Some (ms\<lparr>remote_sock := sock\<rparr>, [EnsureRemote]))))"

text \<open>The rounds; None when they run out before the loop has ended.\<close>

fun respawn_rounds ::
  "Round list \<Rightarrow> nat \<Rightarrow> bool \<Rightarrow> bool \<Rightarrow> MonitorState \<Rightarrow> MonitorState \<times> MonitorOut list \<times> RespawnResult option" where
  "respawn_rounds [] sleep skip saw ms = (ms, [], None)"
| "respawn_rounds (rd # rds) sleep skip saw ms =
     (if \<not> rd_owned rd then (ms, [], Some ExitMonitor)
      else
        (let (outcome, saw) = (if skip then (Elapsed, saw) else backoff_wait (rd_wait rd) saw);
             slept = (if skip then SkippedSleep sleep else Slept sleep)
         in if outcome = Cancelled then (ms, [slept], Some ExitMonitor)
            else
              (let sleep = (if outcome = NetRecovered then MIN_RESPAWN_BACKOFF else sleep);
                   ms = ms\<lparr>backoff := double_backoff sleep\<rparr>
               in case ensure_remote rd ms of
                    None \<Rightarrow>
                      (let (ms', outs, r) = respawn_rounds rds (backoff ms) False saw ms in (ms', slept # outs, r))
                  | Some (ms, ensured) \<Rightarrow>
                      (if spawn_allowed (remote_sock ms) \<and> rd_spawn_ok rd then
                         (ms, slept # ensured @ [SpawnSsh (remote_sock ms)],
                          Some (NewChild (child_new (rd_spawned rd) (rd_wall rd))))
                       else
                         (let (ms', outs, r) = respawn_rounds rds (backoff ms) False saw ms
                          in (ms', slept # ensured @ outs, r))))))"

definition respawn_tunnel ::
  "Round list \<Rightarrow> nat \<Rightarrow> bool \<Rightarrow> MonitorState \<Rightarrow> MonitorState \<times> MonitorOut list \<times> RespawnResult option" where
  "respawn_tunnel rds died_uptime woke ms =
     (let sleep = (if we_killed ms then 0 else respawn_sleep (backoff ms) died_uptime);
          ms = ms\<lparr>we_killed := False\<rparr>
      in respawn_rounds rds sleep (woke \<and> sleep \<noteq> 0) False ms)"

section \<open>The monitor\<close>

text \<open>
  The arms: the stop, a change of the network, the debounced probe, the periodic tick and the end of
  the child (None when waiting failed) with the clocks and the rounds that follow.
\<close>

datatype MonitorEvent =
    Stop
  | PathChanged bool nat
  | NetProbe bool nat nat
  | ProbeTick bool bool bool nat
  | ChildExited "int option option" bool nat nat "Round list"

text \<open>Where the monitor is after an arm: in its loop, gone, or still in the respawn loop.\<close>

datatype Progress = Supervising | Over | Respawning

type_synonym Monitor = "MonitorState \<times> ChildState"

definition probed_ok :: "nat \<Rightarrow> Monitor \<Rightarrow> Monitor" where
  "probed_ok wall m =
     (case m of (ms, c) \<Rightarrow>
        (ms\<lparr>last_healthy := Some wall, saw_unsatisfied := False\<rparr>, c\<lparr>probe_failures := 0\<rparr>))"

definition path_changed :: "bool \<Rightarrow> nat \<Rightarrow> Monitor \<Rightarrow> Monitor" where
  "path_changed unsatisfied now m =
     (case m of (ms, c) \<Rightarrow>
        (ms\<lparr>saw_unsatisfied := saw_unsatisfied ms \<or> unsatisfied, net_probe_at := Some (now + NET_PROBE_DEBOUNCE)\<rparr>, c))"

text \<open>The debounced probe, with the answer it would get.\<close>

definition net_probe :: "bool \<Rightarrow> nat \<Rightarrow> nat \<Rightarrow> Monitor \<Rightarrow> Monitor \<times> MonitorOut list" where
  "net_probe alive now wall m =
     (case m of (ms, c) \<Rightarrow>
        (let ms = ms\<lparr>net_probe_at := None\<rparr> in
         if \<not> saw_unsatisfied ms then ((ms, c), [])
         else if alive then (probed_ok wall (ms, c), [])
         else if past_spawn_grace now c then ((ms\<lparr>we_killed := True\<rparr>, c), [KillChild])
         else ((ms, c), [])))"

definition probe_tick :: "bool \<Rightarrow> bool \<Rightarrow> bool \<Rightarrow> nat \<Rightarrow> Monitor \<Rightarrow> Monitor \<times> MonitorOut list \<times> Progress" where
  "probe_tick owned socket_exists alive wall m =
     (if \<not> owned then (m, [KillChild], Over)
      else
        (let (ms, c) = (if socket_exists then
               (if alive then probed_ok wall m
                else (case m of (ms, c) \<Rightarrow> (ms, c\<lparr>probe_failures := probe_failures c + 1\<rparr>)))
             else m)
         in if respawn_now socket_exists (probe_failures c)
            then ((ms\<lparr>we_killed := True\<rparr>, c), [KillChild], Supervising)
            else ((ms, c), [], Supervising)))"

definition child_exited ::
  "int option option \<Rightarrow> bool \<Rightarrow> nat \<Rightarrow> nat \<Rightarrow> Round list \<Rightarrow> Monitor \<Rightarrow> Monitor \<times> MonitorOut list \<times> Progress" where
  "child_exited status stopped now wall rds m =
     (case m of (ms, c) \<Rightarrow>
        (case status of
           None \<Rightarrow> (m, [], Over)
         | Some code \<Rightarrow>
             (if stopped then (m, [], Over)
              else
                (let ms = ms\<lparr>saw_unsatisfied := False\<rparr> in
                 if classify_exit code = NonTransient then ((ms, c), [], Over)
                 else
                   (let died_uptime = uptime now c;
                        died_wall = (if spawned_at_wall c \<le> wall then wall - spawned_at_wall c else died_uptime);
                        (ms, outs, r) = respawn_tunnel rds died_uptime (suspend_jump died_uptime died_wall) ms
                    in case r of
                         Some (NewChild c') \<Rightarrow> ((ms\<lparr>net_probe_at := None\<rparr>, c'), outs, Supervising)
                       | Some ExitMonitor \<Rightarrow> ((ms, c), outs, Over)
                       | None \<Rightarrow> ((ms, c), outs, Respawning))))))"

definition monitor_step :: "MonitorEvent \<Rightarrow> Monitor \<Rightarrow> Monitor \<times> MonitorOut list \<times> Progress" where
  "monitor_step ev m =
     (case ev of
        Stop \<Rightarrow> (m, [KillChild], Over)
      | PathChanged unsatisfied now \<Rightarrow> (path_changed unsatisfied now m, [], Supervising)
      | NetProbe alive now wall \<Rightarrow>
          (if net_probe_at (fst m) = None then (m, [], Supervising)
           else (let (m, outs) = net_probe alive now wall m in (m, outs, Supervising)))
      | ProbeTick owned socket_exists alive wall \<Rightarrow> probe_tick owned socket_exists alive wall m
      | ChildExited status stopped now wall rds \<Rightarrow> child_exited status stopped now wall rds m)"

fun monitor_run :: "MonitorEvent list \<Rightarrow> Monitor \<Rightarrow> Monitor \<times> MonitorOut list \<times> Progress" where
  "monitor_run [] m = (m, [], Supervising)"
| "monitor_run (ev # evs) m =
     (case monitor_step ev m of
        (m', outs, p) \<Rightarrow>
          (if p = Supervising
           then (let (m'', outs', p') = monitor_run evs m' in (m'', outs @ outs', p'))
           else (m', outs, p)))"

end
