(* ===== verification/Tunnel_Proofs.thy ===== *)
theory Tunnel_Proofs
  imports Tunnel
begin

text \<open>
  The supervisor never gives up on what may pass, its respawn sleeps climb to a minute and no
  further, every ssh it starts forwards to an absolute path, and isolated failures of the probe
  kill nothing.
\<close>

section \<open>The sleeps of an episode\<close>

definition sleeps :: "MonitorOut list \<Rightarrow> nat list" where
  "sleeps outs = List.map_filter (\<lambda>out. case out of Slept n \<Rightarrow> Some n | _ \<Rightarrow> None) outs"

lemma sleeps_simps [simp]:
  "sleeps [] = []" "sleeps (Slept n # outs) = n # sleeps outs" "sleeps (SkippedSleep n # outs) = sleeps outs"
  "sleeps (EnsureRemote # outs) = sleeps outs" "sleeps (SpawnSsh p # outs) = sleeps outs"
  "sleeps (KillChild # outs) = sleeps outs"
  by (simp_all add: sleeps_def map_filter_simps)

text \<open>A round that fails although nobody interrupts it and the network does not recover.\<close>

definition failing :: "Round \<Rightarrow> bool" where
  "failing rd \<longleftrightarrow> rd_owned rd \<and> \<not> rd_spawn_ok rd
     \<and> fst (backoff_wait (rd_wait rd) False) \<in> {Elapsed, Wake, Kicked}
     \<and> fst (backoff_wait (rd_wait rd) True) \<in> {Elapsed, Wake, Kicked}"

fun climb :: "nat \<Rightarrow> nat \<Rightarrow> nat list" where
  "climb s 0 = []"
| "climb s (Suc n) = s # climb (double_backoff s) n"

lemma ensure_remote_quiet:
  "ensure_remote rd ms = Some (ms', outs) \<Longrightarrow> sleeps (outs @ outs') = sleeps outs' \<and> backoff ms' = backoff ms"
  by (auto simp: ensure_remote_def split: if_splits option.splits sum.splits)

lemma failing_rounds:
  "list_all failing rds \<Longrightarrow>
     (case respawn_rounds rds sleep False saw ms of
        (ms', outs, r) \<Rightarrow> r = None \<and> sleeps outs = climb sleep (length rds))"
proof (induction rds arbitrary: sleep saw ms)
  case (Cons rd rds)
  obtain outcome saw' where w: "backoff_wait (rd_wait rd) saw = (outcome, saw')" by (metis prod.exhaust)
  have rd: "failing rd" and rds: "list_all failing rds" using Cons.prems by simp_all
  have "fst (backoff_wait (rd_wait rd) saw) \<in> {Elapsed, Wake, Kicked}"
    using rd by (cases saw) (simp_all add: failing_def)
  then have f: "rd_owned rd" "\<not> rd_spawn_ok rd" "outcome \<noteq> Cancelled" "outcome \<noteq> NetRecovered"
    using rd w by (auto simp: failing_def)
  note ih = Cons.IH [OF rds, of "double_backoff sleep" saw']
  let ?ms = "ms\<lparr>backoff := double_backoff sleep\<rparr>"
  show ?case
  proof (cases "ensure_remote rd ?ms")
    case None
    then show ?thesis using ih [of ?ms] w f by (simp add: Let_def split_beta)
  next
    case (Some x)
    obtain ms1 ensured where x: "x = (ms1, ensured)" by (cases x)
    have b: "backoff ms1 = double_backoff sleep" and q: "sleeps (ensured @ outs) = sleeps outs" for outs
      using Some x by (auto simp: ensure_remote_def split: if_splits option.splits sum.splits)
    from Some x show ?thesis using ih [of ms1] w f b q by (simp add: Let_def split_beta)
  qed
qed simp

lemma skipped_round:
  assumes "list_all failing (rd # rds)"
  shows "case respawn_rounds (rd # rds) sleep True saw ms of
      (ms', outs, r) \<Rightarrow> r = None \<and> sleeps outs = climb (double_backoff sleep) (length rds)"
proof -
  let ?ms = "ms\<lparr>backoff := double_backoff sleep\<rparr>"
  have f: "rd_owned rd" "\<not> rd_spawn_ok rd" "list_all failing rds" using assms by (auto simp: failing_def)
  note ih = failing_rounds [OF f(3), of "double_backoff sleep" saw]
  show ?thesis
  proof (cases "ensure_remote rd ?ms")
    case None
    then show ?thesis using ih [of ?ms] f by (simp add: Let_def split_beta)
  next
    case (Some x)
    obtain ms1 ensured where x: "x = (ms1, ensured)" by (cases x)
    have b: "backoff ms1 = double_backoff sleep" and q: "sleeps (ensured @ outs) = sleeps outs" for outs
      using Some x by (auto simp: ensure_remote_def split: if_splits option.splits sum.splits)
    from Some x show ?thesis using ih [of ms1] f b q by (simp add: Let_def split_beta)
  qed
qed

text \<open>The climb in closed form: the given sleep first, then doubled from at least a second up to a minute.\<close>

definition schedule :: "nat \<Rightarrow> nat \<Rightarrow> nat" where
  "schedule s k = (if k = 0 then s else min (2 ^ k * max s SEC) MAX_RESPAWN_BACKOFF)"

lemma double_schedule: "schedule (double_backoff s) k = schedule s (Suc k)"
proof (cases k)
  case (Suc j)
  define m where "m = max s SEC"
  have "min (2 ^ k * min (2 * m) MAX_RESPAWN_BACKOFF) MAX_RESPAWN_BACKOFF = min (2 ^ Suc k * m) MAX_RESPAWN_BACKOFF"
  proof (cases "2 * m \<le> MAX_RESPAWN_BACKOFF")
    case True
    then show ?thesis by (simp add: min_def mult.assoc mult.left_commute)
  next
    case False
    have grows: "x \<le> 2 ^ k * x" for x :: nat by simp
    have "MAX_RESPAWN_BACKOFF \<le> 2 * m" using False by simp
    also have "\<dots> \<le> 2 ^ k * (2 * m)" by (rule grows)
    also have "\<dots> = 2 ^ Suc k * m" by simp
    finally have "MAX_RESPAWN_BACKOFF \<le> 2 ^ Suc k * m" .
    then have "min (2 ^ Suc k * m) MAX_RESPAWN_BACKOFF = MAX_RESPAWN_BACKOFF" by (rule min.absorb2)
    moreover have "min (2 * m) MAX_RESPAWN_BACKOFF = MAX_RESPAWN_BACKOFF" using False by (intro min.absorb2) simp
    moreover have "min (2 ^ k * MAX_RESPAWN_BACKOFF) MAX_RESPAWN_BACKOFF = MAX_RESPAWN_BACKOFF"
      by (rule min.absorb2 [OF grows])
    ultimately show ?thesis by simp
  qed
  moreover have "max (double_backoff s) SEC = min (2 * m) MAX_RESPAWN_BACKOFF"
    by (simp add: m_def double_backoff_def max_def min_def)
  ultimately show ?thesis using Suc by (simp only: schedule_def m_def) simp
qed (simp add: schedule_def double_backoff_def mult.commute)

lemma climb_schedule: "climb s n = map (schedule s) [0..<n]"
proof (induction n arbitrary: s)
  case (Suc n)
  have "[0..<Suc n] = 0 # map Suc [0..<n]" by (simp add: map_Suc_upt upt_conv_Cons)
  with Suc [of "double_backoff s"] show ?case by (simp add: double_schedule schedule_def [of s 0] del: upt_Suc)
qed simp

text \<open>
  The respawn schedule: while every round of an episode fails and neither the network recovers
  nor anybody stops the supervisor, the loop goes on, and its sleeps are the first one -- none after
  its own kill, a second after a child that lived half a minute, else where the last episode
  stopped -- and then doubled each time from at least a second up to a minute; when the child died of
  a suspend the first sleep is left out and the climb kept.
\<close>

theorem respawn_sleeps_climb:
  fixes ms died
  defines "first \<equiv> (if we_killed ms then 0 else respawn_sleep (backoff ms) died)"
  assumes "list_all failing rds"
  shows "case respawn_tunnel rds died woke ms of
      (ms', outs, r) \<Rightarrow> r = None
        \<and> sleeps outs = drop (if woke \<and> first \<noteq> 0 then 1 else 0) (map (schedule first) [0..<length rds])"
proof (cases "woke \<and> first \<noteq> 0")
  case False
  then have "respawn_tunnel rds died woke ms = respawn_rounds rds first False False (ms\<lparr>we_killed := False\<rparr>)"
    unfolding respawn_tunnel_def Let_def first_def [symmetric] by (simp only: if_False)
  moreover have "(if woke \<and> first \<noteq> 0 then 1 else 0) = (0::nat)" using False by (rule if_not_P)
  ultimately show ?thesis using failing_rounds [OF assms(2), of first False "ms\<lparr>we_killed := False\<rparr>"]
    by (simp only: split_beta climb_schedule drop_0)
next
  case True
  then have t: "respawn_tunnel rds died woke ms = respawn_rounds rds first True False (ms\<lparr>we_killed := False\<rparr>)"
    unfolding respawn_tunnel_def Let_def first_def [symmetric] by (simp only: if_True simp_thms)
  show ?thesis
  proof (cases rds)
    case Nil
    with True t show ?thesis by simp
  next
    case (Cons rd rs)
    have "map (schedule first) [0..<length rds] = first # climb (double_backoff first) (length rs)"
      using climb_schedule [of first "length rds"] Cons by (simp del: upt_Suc)
    with True t Cons skipped_round [of rd rs first False "ms\<lparr>we_killed := False\<rparr>"] assms(2) show ?thesis
      by (simp add: split_beta del: respawn_rounds.simps upt_Suc)
  qed
qed

section \<open>The monitor\<close>

text \<open>An event that asks nothing of the supervisor: a tick of the owner of the lock, a passing death.\<close>

definition passing :: "MonitorEvent \<Rightarrow> bool" where
  "passing ev =
     (case ev of
        Stop \<Rightarrow> False
      | ProbeTick owned _ _ _ \<Rightarrow> owned
      | ChildExited status stopped _ _ rds \<Rightarrow>
          (case status of None \<Rightarrow> False | Some code \<Rightarrow> classify_exit code = Transient)
            \<and> \<not> stopped \<and> list_all (\<lambda>rd. rd_owned rd \<and> Stopped \<notin> set (rd_wait rd)) rds
      | _ \<Rightarrow> True)"

lemma backoff_not_cancelled: "Stopped \<notin> set evs \<Longrightarrow> fst (backoff_wait evs saw) \<noteq> Cancelled"
  by (induction evs arbitrary: saw) (auto split: WaitEvent.splits)

lemma rounds_never_exit:
  "list_all (\<lambda>rd. rd_owned rd \<and> Stopped \<notin> set (rd_wait rd)) rds \<Longrightarrow>
     snd (snd (respawn_rounds rds sleep skip saw ms)) \<noteq> Some ExitMonitor"
proof (induction rds arbitrary: sleep skip saw ms)
  case (Cons rd rds)
  then have rd: "rd_owned rd" "fst (backoff_wait (rd_wait rd) saw) \<noteq> Cancelled"
    and ih: "snd (snd (respawn_rounds rds sleep skip saw ms)) \<noteq> Some ExitMonitor" for sleep skip saw ms
    by (simp_all add: backoff_not_cancelled)
  then show ?case by (auto simp: Let_def split_beta split: option.split)
qed simp

lemma passing_step: "passing ev \<Longrightarrow> snd (snd (monitor_step ev m)) \<noteq> Over"
  by (auto simp: passing_def monitor_step_def probe_tick_def child_exited_def net_probe_def respawn_tunnel_def
        Let_def split_beta rounds_never_exit split: MonitorEvent.splits option.splits RespawnResult.splits)


text \<open>Two probes in a row without an answer, or a tick that finds no socket; before is whether the last failed.\<close>

fun struck_out :: "bool \<Rightarrow> MonitorEvent list \<Rightarrow> bool" where
  "struck_out before [] = False"
| "struck_out before (ProbeTick _ socket_exists alive _ # evs) =
     (\<not> socket_exists \<or> before \<and> \<not> alive \<or> struck_out (\<not> alive) evs)"
| "struck_out before (_ # evs) = struck_out before evs"

definition quiet :: "MonitorEvent \<Rightarrow> bool" where
  "quiet ev = (case ev of
     PathChanged unsatisfied _ \<Rightarrow> \<not> unsatisfied | NetProbe _ _ _ \<Rightarrow> True | ProbeTick owned _ _ _ \<Rightarrow> owned | _ \<Rightarrow> False)"

text \<open>
  The probes kill a tunnel exactly when they must: while the network does not report a loss,
  the supervisor kills its ssh iff a tick finds the socket gone or two ticks in a row get no answer --
  one failure alone, or any number of them with an answer between, kills nothing.
\<close>

theorem probes_kill_iff_struck_out:
  "list_all quiet evs \<Longrightarrow> \<not> saw_unsatisfied ms \<Longrightarrow>
     KillChild \<in> set (fst (snd (monitor_run evs (ms, c)))) \<longleftrightarrow> struck_out (probe_failures c \<noteq> 0) evs"
proof (induction evs arbitrary: ms c)
  case (Cons ev evs)
  then show ?case
    by (cases ev; cases "probe_failures c")
      (auto simp: quiet_def monitor_step_def path_changed_def net_probe_def probe_tick_def probed_ok_def
        respawn_now_def Let_def split_beta)
qed simp

lemma rounds_spawn: "SpawnSsh p \<in> set (fst (snd (respawn_rounds rds sleep skip saw ms))) \<Longrightarrow> spawn_allowed p"
proof (induction rds arbitrary: sleep skip saw ms)
  case (Cons rd rds)
  have q: "SpawnSsh p \<notin> set outs" if "ensure_remote rd ms = Some (ms', outs)" for ms ms' outs
    using that by (auto simp: ensure_remote_def split: if_splits option.splits sum.splits)
  from Cons.prems show ?case
    by (auto simp: Let_def split_beta dest: Cons.IH q split: if_splits option.splits)
qed simp

lemma step_spawn: "SpawnSsh p \<in> set (fst (snd (monitor_step ev m))) \<Longrightarrow> spawn_allowed p"
  by (auto simp: monitor_step_def probe_tick_def child_exited_def net_probe_def respawn_tunnel_def
        Let_def split_beta dest: rounds_spawn split: MonitorEvent.splits option.splits RespawnResult.splits if_splits)

lemma monitor_spawns_absolute:
  "SpawnSsh p \<in> set (fst (snd (monitor_run evs m))) \<Longrightarrow> spawn_allowed p"
proof (induction evs arbitrary: m)
  case (Cons ev evs)
  have "SpawnSsh p \<in> set (fst (snd (monitor_step ev m)))
      \<or> SpawnSsh p \<in> set (fst (snd (monitor_run evs (fst (monitor_step ev m)))))"
    using Cons.prems by (auto simp: Let_def split_beta split: if_splits)
  then show ?case using step_spawn Cons.IH by blast
qed simp

section \<open>Witnesses\<close>

definition sleeping_round :: Round where
  "sleeping_round = \<lparr>rd_owned = True, rd_wait = [Poll False SEC SEC], rd_wall = 0, rd_output = None,
     rd_spawn_ok = False, rd_spawned = 0\<rparr>"

lemma respawn_sleeps_climb_witness:
  "sleeps (fst (snd (respawn_tunnel (replicate 3 sleeping_round) 0 False (monitor_start [] 0)))) = [SEC, 2 * SEC, 4 * SEC]"
proof -
  have "list_all failing (replicate 3 sleeping_round)"
    by (simp add: failing_def sleeping_round_def suspend_jump_def numeral_3_eq_3)
  from respawn_sleeps_climb [OF this, where died = 0 and woke = False and ms = "monitor_start [] 0"]
  show ?thesis by (simp add: split_beta schedule_def monitor_start_def respawn_sleep_def upt_rec)
qed


lemma probes_kill_iff_struck_out_witness:
  "KillChild \<notin> set (fst (snd (monitor_run [ProbeTick True True False 0, ProbeTick True True True 0, ProbeTick True True False 0]
     (monitor_start [] 0, child_new 0 0))))"
  using probes_kill_iff_struck_out [of "[ProbeTick True True False 0, ProbeTick True True True 0, ProbeTick True True False 0]"
      "monitor_start [] 0" "child_new 0 0"]
  by (simp add: quiet_def monitor_start_def child_new_def)

end
