(* ===== verification/Tunnel_Lock.thy ===== *)
theory Tunnel_Lock
  imports Destination
begin

text \<open>
  The lock files of the tunnel supervisors, from \<open>src/src/connect.rs\<close>: the state of one tunnel's files
  in the socket directory, and what each process that creates, sweeps or probes the tunnel does with
  them, one system call or one guarded group of calls at a time.  A lock is held on an inode, not on a
  path.
\<close>

section \<open>The files of a tunnel\<close>

text \<open>The files that \<open>cleanup_stale_files\<close> removes.\<close>

datatype Sidecar = SockFile | PidFile | InfoFile | KickFile

text \<open>
  What a process wants the lock for (\<open>run\<close>, \<open>cleanup_if_unheld\<close>, \<open>is_lock_held\<close>) and where it is:
  it has opened an inode, holds its lock, has written its pid, supervises, has decided to remove the
  files, has removed the sidecars, has removed the lock file.
\<close>

datatype Job = Create | Sweep | ProbeLock

datatype Pc =
    Out
  | Opened Job nat
  | Locked Job nat
  | SettingUp nat
  | Up nat
  | Leaving nat
  | Unlinking nat
  | Unlinked nat

record Dir =
  lock_path :: "nat option"
  next_inode :: nat
  flocks :: "nat \<Rightarrow> nat option"
  sidecars :: "Sidecar \<Rightarrow> nat option"
  pcs :: "nat \<Rightarrow> Pc"

definition goto :: "nat \<Rightarrow> Pc \<Rightarrow> Dir \<Rightarrow> Dir" where
  "goto p pc d = d\<lparr>pcs := (pcs d)(p := pc)\<rparr>"

section \<open>Opening and locking\<close>

text \<open>The \<open>open\<close> of \<open>try_acquire_lock\<close>, which creates the file, and that of \<open>is_lock_held\<close>.\<close>

definition open_lock :: "Job \<Rightarrow> nat \<Rightarrow> Dir \<Rightarrow> Dir" where
  "open_lock job p d =
     (if pcs d p \<noteq> Out then d
      else
        (case lock_path d of
           Some i \<Rightarrow> goto p (Opened job i) d
         | None \<Rightarrow>
             (if job = ProbeLock then d
              else goto p (Opened job (next_inode d))
                (d\<lparr>lock_path := Some (next_inode d), next_inode := next_inode d + 1\<rparr>))))"

text \<open>\<open>LockIdentity::matches_path\<close>, and \<open>lock_still_owned\<close> for an identity that may be unknown.\<close>

definition matches_path :: "nat \<Rightarrow> Dir \<Rightarrow> bool" where
  "matches_path i d \<longleftrightarrow> lock_path d = Some i"

definition lock_still_owned :: "nat option \<Rightarrow> Dir \<Rightarrow> bool" where
  "lock_still_owned held d \<longleftrightarrow> (case held of None \<Rightarrow> True | Some i \<Rightarrow> matches_path i d)"

definition cleanup_stale_files :: "Dir \<Rightarrow> Dir" where
  "cleanup_stale_files d = d\<lparr>sidecars := (\<lambda>_. None)\<rparr>"

definition release :: "nat \<Rightarrow> nat \<Rightarrow> Dir \<Rightarrow> Dir" where
  "release p i d = goto p Out (d\<lparr>flocks := (flocks d)(i := None)\<rparr>)"

definition try_flock :: "Job \<Rightarrow> nat \<Rightarrow> nat \<Rightarrow> Dir \<Rightarrow> Dir" where
  "try_flock job i p d =
     (if flocks d i = None then goto p (Locked job i) (d\<lparr>flocks := (flocks d)(i \<mapsto> p)\<rparr>)
      else goto p Out d)"

section \<open>The processes\<close>

text \<open>
  The supervisor after it got the lock: stale files go, pid and info are written; ssh binds the
  socket once \<open>spawn_tunnel\<close> has removed an old one; \<open>monitor_tick\<close> is the ownership check of the
  probe tick, after which a ghost drops its guard without touching a file.
\<close>

definition begin_setup :: "nat \<Rightarrow> nat \<Rightarrow> Dir \<Rightarrow> Dir" where
  "begin_setup p i d =
     (let d = cleanup_stale_files d
      in goto p (SettingUp i) (d\<lparr>sidecars := (sidecars d)(PidFile \<mapsto> p, InfoFile \<mapsto> p)\<rparr>))"

definition finish_setup :: "nat \<Rightarrow> nat \<Rightarrow> Dir \<Rightarrow> Dir" where
  "finish_setup p i d = goto p (Up i) (d\<lparr>sidecars := (sidecars d)(SockFile \<mapsto> p)\<rparr>)"

definition monitor_tick :: "nat \<Rightarrow> nat \<Rightarrow> Dir \<Rightarrow> Dir" where
  "monitor_tick p i d = (if lock_still_owned (Some i) d then d else release p i d)"

text \<open>
  The end of a supervisor, in order (\<open>LockFileBailGuard::drop\<close> during the setup,
  \<open>ConnectGuard::drop\<close> after it): files are removed only when the lock file is still its own.
\<close>

definition drop_guard :: "nat \<Rightarrow> nat \<Rightarrow> Dir \<Rightarrow> Dir" where
  "drop_guard p i d = (if matches_path i d then goto p (Leaving i) d else release p i d)"

text \<open>
  The next step of a process: locking what it opened, then \<open>cleanup_if_unheld\<close>, the probe or the
  supervisor; the last three are shared by every removal of the files.
\<close>

definition advance :: "nat \<Rightarrow> Dir \<Rightarrow> Dir" where
  "advance p d =
     (case pcs d p of
        Out \<Rightarrow> d
      | Opened job i \<Rightarrow> try_flock job i p d
      | Locked job i \<Rightarrow>
          (case job of
             Create \<Rightarrow> begin_setup p i d
           | Sweep \<Rightarrow> goto p (Leaving i) d
           | ProbeLock \<Rightarrow> release p i d)
      | SettingUp i \<Rightarrow> finish_setup p i d
      | Up i \<Rightarrow> monitor_tick p i d
      | Leaving i \<Rightarrow> goto p (Unlinking i) (cleanup_stale_files d)
      | Unlinking i \<Rightarrow> goto p (Unlinked i) (d\<lparr>lock_path := None\<rparr>)
      | Unlinked i \<Rightarrow> release p i d)"

text \<open>A signal, or a failing setup; and the death of a process, whose lock the kernel releases.\<close>

definition stop_supervisor :: "nat \<Rightarrow> Dir \<Rightarrow> Dir" where
  "stop_supervisor p d =
     (case pcs d p of SettingUp i \<Rightarrow> drop_guard p i d | Up i \<Rightarrow> drop_guard p i d | _ \<Rightarrow> d)"

definition held_inode :: "Pc \<Rightarrow> nat option" where
  "held_inode pc =
     (case pc of
        Out \<Rightarrow> None | Opened _ _ \<Rightarrow> None
      | Locked _ i \<Rightarrow> Some i | SettingUp i \<Rightarrow> Some i | Up i \<Rightarrow> Some i
      | Leaving i \<Rightarrow> Some i | Unlinking i \<Rightarrow> Some i | Unlinked i \<Rightarrow> Some i)"

definition crash :: "nat \<Rightarrow> Dir \<Rightarrow> Dir" where
  "crash p d = (case held_inode (pcs d p) of Some i \<Rightarrow> release p i d | None \<Rightarrow> goto p Out d)"

section \<open>Undisturbed acquisitions\<close>

text \<open>
  The states that are reached when no process gets between another's opening and its locking of the
  file, from a directory with any leftovers of dead supervisors.
\<close>

inductive undisturbed :: "Dir \<Rightarrow> bool" where
  leftovers: "(\<And>i. lock_path d = Some i \<Longrightarrow> i < next_inode d) \<Longrightarrow> flocks d = (\<lambda>_. None) \<Longrightarrow> pcs d = (\<lambda>_. Out)
    \<Longrightarrow> undisturbed d"
| acquired: "undisturbed d \<Longrightarrow> pcs d p = Out \<Longrightarrow> undisturbed (advance p (open_lock job p d))"
| advanced: "undisturbed d \<Longrightarrow> undisturbed (advance p d)"
| stopped: "undisturbed d \<Longrightarrow> undisturbed (stop_supervisor p d)"
| crashed: "undisturbed d \<Longrightarrow> undisturbed (crash p d)"

text \<open>Where the lock of a process is that of the file at the path.\<close>

definition at_path :: "Pc \<Rightarrow> nat option" where
  "at_path pc = (case pc of Unlinked _ \<Rightarrow> None | _ \<Rightarrow> held_inode pc)"

definition dir_inv :: "Dir \<Rightarrow> bool" where
  "dir_inv d \<longleftrightarrow>
     (\<forall>p i. flocks d i = Some p \<longleftrightarrow> held_inode (pcs d p) = Some i)
     \<and> (\<forall>p i. at_path (pcs d p) = Some i \<longrightarrow> lock_path d = Some i)
     \<and> (\<forall>p job i. pcs d p \<noteq> Opened job i)
     \<and> (\<forall>i. lock_path d = Some i \<longrightarrow> i < next_inode d)
     \<and> (\<forall>p i. held_inode (pcs d p) = Some i \<longrightarrow> i < next_inode d)
     \<and> (\<forall>p i. pcs d p = SettingUp i \<or> pcs d p = Up i \<longrightarrow> sidecars d PidFile = Some p)
     \<and> (\<forall>p i. pcs d p = Up i \<longrightarrow> sidecars d SockFile = Some p)"

end
