(* ===== verification/Tunnel_Lock_Proofs.thy ===== *)
theory Tunnel_Lock_Proofs
  imports Tunnel_Lock
begin

text \<open>
  What the lock files guarantee: as long as acquisitions are undisturbed, a supervisor's lock is that
  of the file at the path and its files are its own; and how a sweep that opened the lock file before
  it was removed takes away the files of a live supervisor.
\<close>

section \<open>The invariant\<close>

lemma held_inode_simps [simp]:
  "held_inode Out = None" "held_inode (Opened job i) = None" "held_inode (Locked job i) = Some i"
  "held_inode (SettingUp i) = Some i" "held_inode (Up i) = Some i" "held_inode (Leaving i) = Some i"
  "held_inode (Unlinking i) = Some i" "held_inode (Unlinked i) = Some i"
  by (simp_all add: held_inode_def)

lemma at_path_simps [simp]:
  "at_path Out = None" "at_path (Opened job i) = None" "at_path (Locked job i) = Some i"
  "at_path (SettingUp i) = Some i" "at_path (Up i) = Some i" "at_path (Leaving i) = Some i"
  "at_path (Unlinking i) = Some i" "at_path (Unlinked i) = None"
  by (simp_all add: at_path_def)

lemmas lock_steps = advance_def try_flock_def begin_setup_def finish_setup_def monitor_tick_def
  stop_supervisor_def drop_guard_def crash_def release_def goto_def cleanup_stale_files_def
  lock_still_owned_def matches_path_def

lemma dir_inv_intro:
  assumes "\<And>p i. flocks d i = Some p \<longleftrightarrow> held_inode (pcs d p) = Some i"
    and "\<And>p i. at_path (pcs d p) = Some i \<Longrightarrow> lock_path d = Some i"
    and "\<And>p job i. pcs d p \<noteq> Opened job i"
    and "\<And>i. lock_path d = Some i \<Longrightarrow> i < next_inode d"
    and "\<And>p i. held_inode (pcs d p) = Some i \<Longrightarrow> i < next_inode d"
    and "\<And>p i. pcs d p = SettingUp i \<or> pcs d p = Up i \<Longrightarrow> sidecars d PidFile = Some p"
    and "\<And>p i. pcs d p = Up i \<Longrightarrow> sidecars d SockFile = Some p"
  shows "dir_inv d"
  using assms unfolding dir_inv_def by blast

lemma invD:
  assumes "dir_inv d"
  shows "flocks d i = Some p \<longleftrightarrow> held_inode (pcs d p) = Some i"
    and "at_path (pcs d p) = Some i \<Longrightarrow> lock_path d = Some i"
    and "pcs d p \<noteq> Opened job i"
    and "lock_path d = Some i \<Longrightarrow> i < next_inode d"
    and "held_inode (pcs d p) = Some i \<Longrightarrow> i < next_inode d"
    and "pcs d p = SettingUp i \<Longrightarrow> sidecars d PidFile = Some p"
    and "pcs d p = Up i \<Longrightarrow> sidecars d PidFile = Some p"
    and "pcs d p = Up i \<Longrightarrow> sidecars d SockFile = Some p"
  using assms unfolding dir_inv_def by blast+

lemma at_path_held: "at_path pc = Some i \<Longrightarrow> held_inode pc = Some i"
  by (cases pc) auto

lemma one_holder: "dir_inv d \<Longrightarrow> held_inode (pcs d p) = Some i \<Longrightarrow> held_inode (pcs d q) = Some i \<Longrightarrow> q = p"
  using invD(1) by (metis option.inject)

text \<open>Two processes with the lock of the file at the path are one.\<close>

lemma one_at_path:
  assumes "dir_inv d" "at_path (pcs d p) = Some i" "at_path (pcs d q) = Some j"
  shows "q = p"
  using one_holder [OF assms(1), of p i q] invD(2) [OF assms(1,2)] invD(2) [OF assms(1,3)]
    assms(2,3) [THEN at_path_held] by simp

lemma supervising_at_path: "pc = SettingUp i \<or> pc = Up i \<Longrightarrow> at_path pc = Some i"
  by auto

text \<open>A process that moves on with the lock it has; the sidecars are only touched at the path.\<close>

lemma inv_move:
  assumes inv: "dir_inv d" and held: "held_inode (pcs d p) = Some i" "held_inode pc = Some i"
    and at: "at_path (pcs d p) = Some i \<or> at_path pc = None \<and> s = sidecars d"
    and own: "pc = SettingUp i \<or> pc = Up i \<Longrightarrow> s PidFile = Some p" "pc = Up i \<Longrightarrow> s SockFile = Some p"
  shows "dir_inv (goto p pc (d\<lparr>sidecars := s\<rparr>))"
proof (rule dir_inv_intro)
  let ?d = "goto p pc (d\<lparr>sidecars := s\<rparr>)"
  note I = invD [OF inv]
  show "flocks ?d j = Some q \<longleftrightarrow> held_inode (pcs ?d q) = Some j" for q j
    using held by (simp add: goto_def I(1))
  show "lock_path ?d = Some j" if "at_path (pcs ?d q) = Some j" for q j
  proof (cases "q = p")
    case True
    with that held(2) have "j = i" "at_path pc = Some i" using at_path_held [of pc j] by (auto simp: goto_def)
    with at I(2) [of p i] show ?thesis by (simp add: goto_def)
  qed (use that I(2) in \<open>simp add: goto_def\<close>)
  show "pcs ?d q \<noteq> Opened job j" for q job j using held I(3) by (auto simp: goto_def)
  show "lock_path ?d = Some j \<Longrightarrow> j < next_inode ?d" for j using I(4) by (simp add: goto_def)
  show "held_inode (pcs ?d q) = Some j \<Longrightarrow> j < next_inode ?d" for q j
    using I(5) held by (auto simp: goto_def split: if_splits)
  have others: "sidecars ?d f = sidecars d f" if "pcs d q = SettingUp j \<or> pcs d q = Up j" "q \<noteq> p" for q j f
    using at one_at_path [OF inv _ supervising_at_path [OF that(1)], of p i] that(2) by (auto simp: goto_def)
  show "pcs ?d q = SettingUp j \<or> pcs ?d q = Up j \<Longrightarrow> sidecars ?d PidFile = Some q" for q j
    using own(1) held(2) others [of q j] I(6,7) [of q j] by (cases "q = p") (auto simp: goto_def)
  show "pcs ?d q = Up j \<Longrightarrow> sidecars ?d SockFile = Some q" for q j
    using own(2) held(2) others [of q j] I(8) [of q j] by (cases "q = p") (auto simp: goto_def)
qed

lemma inv_goto:
  "dir_inv d \<Longrightarrow> at_path (pcs d p) = Some i \<Longrightarrow> held_inode pc = Some i \<Longrightarrow> pc \<noteq> SettingUp i \<Longrightarrow> pc \<noteq> Up i
     \<Longrightarrow> dir_inv (goto p pc d)"
  using inv_move [of d p i pc "sidecars d"] at_path_held [of "pcs d p" i] by simp

lemma inv_release:
  assumes inv: "dir_inv d" and held: "held_inode (pcs d p) = Some i"
  shows "dir_inv (release p i d)"
proof (rule dir_inv_intro)
  let ?d = "release p i d"
  note I = invD [OF inv]
  have other: "held_inode (pcs d q) \<noteq> Some i" if "q \<noteq> p" for q
    using one_holder [OF inv held, of q] that by blast
  show "flocks ?d j = Some q \<longleftrightarrow> held_inode (pcs ?d q) = Some j" for q j
    using other [of q] held by (cases "q = p"; cases "j = i") (auto simp: release_def goto_def I(1))
  show "at_path (pcs ?d q) = Some j \<Longrightarrow> lock_path ?d = Some j" for q j
    using I(2) by (cases "q = p") (simp_all add: release_def goto_def)
  show "pcs ?d q \<noteq> Opened job j" for q job j using I(3) by (simp add: release_def goto_def)
  show "lock_path ?d = Some j \<Longrightarrow> j < next_inode ?d" for j using I(4) by (simp add: release_def goto_def)
  show "held_inode (pcs ?d q) = Some j \<Longrightarrow> j < next_inode ?d" for q j
    using I(5) by (cases "q = p") (simp_all add: release_def goto_def)
  show "pcs ?d q = SettingUp j \<or> pcs ?d q = Up j \<Longrightarrow> sidecars ?d PidFile = Some q" for q j
    using I(6,7) [of q j] by (cases "q = p") (auto simp: release_def goto_def)
  show "pcs ?d q = Up j \<Longrightarrow> sidecars ?d SockFile = Some q" for q j
    using I(8) [of q j] by (cases "q = p") (auto simp: release_def goto_def)
qed

lemma inv_unlink:
  assumes inv: "dir_inv d" and pc: "pcs d p = Unlinking i"
  shows "dir_inv (goto p (Unlinked i) (d\<lparr>lock_path := None\<rparr>))"
proof (rule dir_inv_intro)
  let ?d = "goto p (Unlinked i) (d\<lparr>lock_path := None\<rparr>)"
  have moved: "dir_inv (goto p (Unlinked i) d)" using inv_goto [OF inv, of p i "Unlinked i"] pc by simp
  note I = invD [OF moved]
  have same: "pcs ?d = pcs (goto p (Unlinked i) d)" "sidecars ?d = sidecars (goto p (Unlinked i) d)"
    "flocks ?d = flocks (goto p (Unlinked i) d)" "next_inode ?d = next_inode (goto p (Unlinked i) d)"
    by (simp_all add: goto_def)
  show "at_path (pcs ?d q) = Some j \<Longrightarrow> lock_path ?d = Some j" for q j
    using one_at_path [OF inv, of p i q j] pc by (cases "q = p") (simp_all add: goto_def)
  show "lock_path ?d = Some j \<Longrightarrow> j < next_inode ?d" for j by (simp add: goto_def)
  show "flocks ?d j = Some q \<longleftrightarrow> held_inode (pcs ?d q) = Some j" for q j using I(1) by (simp add: same)
  show "pcs ?d q \<noteq> Opened job j" for q job j using I(3) by (simp add: same)
  show "held_inode (pcs ?d q) = Some j \<Longrightarrow> j < next_inode ?d" for q j using I(5) by (simp add: same)
  show "pcs ?d q = SettingUp j \<or> pcs ?d q = Up j \<Longrightarrow> sidecars ?d PidFile = Some q" for q j
    using I(6,7) by (auto simp: same)
  show "pcs ?d q = Up j \<Longrightarrow> sidecars ?d SockFile = Some q" for q j using I(8) by (simp add: same)
qed

lemma dir_inv_advance:
  assumes inv: "dir_inv d"
  shows "dir_inv (advance p d)"
proof (cases "pcs d p")
  case (Locked job i)
  then have at: "at_path (pcs d p) = Some i" and held: "held_inode (pcs d p) = Some i" by simp_all
  have "dir_inv (begin_setup p i d)"
    using inv_move [OF inv held, of "SettingUp i" "(\<lambda>_. None)(PidFile \<mapsto> p, InfoFile \<mapsto> p)"] at
    by (simp add: begin_setup_def cleanup_stale_files_def Let_def)
  moreover have "dir_inv (goto p (Leaving i) d)" using inv at by (rule inv_goto) simp_all
  moreover have "dir_inv (release p i d)" using inv held by (rule inv_release)
  ultimately show ?thesis using Locked by (simp add: advance_def split: Job.split)
next
  case (SettingUp i)
  with inv_move [OF inv, of p i "Up i" "(sidecars d)(SockFile \<mapsto> p)"] invD(6) [OF inv SettingUp]
  show ?thesis by (simp add: advance_def finish_setup_def)
next
  case (Leaving i)
  with inv_move [OF inv, of p i "Unlinking i" "\<lambda>_. None"] show ?thesis
    by (simp add: advance_def cleanup_stale_files_def)
next
  case (Unlinking i)
  then show ?thesis using inv_unlink [OF inv] by (simp add: advance_def)
qed (use inv in \<open>simp_all add: advance_def monitor_tick_def invD(3) inv_release\<close>)

lemma dir_inv_crash: "dir_inv d \<Longrightarrow> dir_inv (crash p d)"
proof (cases "held_inode (pcs d p)")
  case None
  assume inv: "dir_inv d"
  with None have "pcs d p = Out" using invD(3) by (cases "pcs d p") auto
  then have "goto p Out d = d" by (simp add: goto_def fun_upd_idem)
  with None inv show ?thesis by (simp add: crash_def)
qed (simp add: crash_def inv_release)

lemma dir_inv_stop: "dir_inv d \<Longrightarrow> dir_inv (stop_supervisor p d)"
  by (cases "pcs d p") (simp_all add: stop_supervisor_def drop_guard_def inv_release inv_goto)

lemma dir_inv_acquire:
  assumes inv: "dir_inv d" and out: "pcs d p = Out"
  shows "dir_inv (advance p (open_lock job p d))"
proof -
  note I = invD [OF inv]
  have taken: "dir_inv d'" if path: "lock_path d = Some i \<or> lock_path d = None" and n: "next_inode d \<le> n" "i < n"
      and free: "\<And>q. held_inode (pcs d q) \<noteq> Some i"
      and d': "pcs d' = (pcs d)(p := Locked job i)" "flocks d' = (flocks d)(i \<mapsto> p)" "lock_path d' = Some i"
        "next_inode d' = n" "sidecars d' = sidecars d" for i n d'
  proof (rule dir_inv_intro)
    have at: "at_path (pcs d q) = None" for q
      using I(2) [of q] path at_path_held [of "pcs d q"] free [of q] by (cases "at_path (pcs d q)") auto
    then have sup: "pcs d q \<noteq> SettingUp j" "pcs d q \<noteq> Up j" for q j
      using supervising_at_path [of "pcs d q" j] by auto
    show "flocks d' j = Some q \<longleftrightarrow> held_inode (pcs d' q) = Some j" for q j
      using out free [of q] by (cases "q = p"; cases "j = i") (auto simp: d' I(1))
    show "at_path (pcs d' q) = Some j \<Longrightarrow> lock_path d' = Some j" for q j
      using at [of q] by (cases "q = p") (simp_all add: d')
    show "pcs d' q \<noteq> Opened job' j" for q job' j using I(3) by (simp add: d')
    show "lock_path d' = Some j \<Longrightarrow> j < next_inode d'" for j using n by (simp add: d')
    show "held_inode (pcs d' q) = Some j \<Longrightarrow> j < next_inode d'" for q j
      using n I(5) [of q j] by (cases "q = p") (auto simp: d')
    show "pcs d' q = SettingUp j \<or> pcs d' q = Up j \<Longrightarrow> sidecars d' PidFile = Some q" for q j
      using sup by (auto simp: d' split: if_splits)
    show "pcs d' q = Up j \<Longrightarrow> sidecars d' SockFile = Some q" for q j
      using sup by (auto simp: d' split: if_splits)
  qed
  show ?thesis
  proof (cases "lock_path d")
    case path: (Some i)
    then have d: "advance p (open_lock job p d) = try_flock job i p (goto p (Opened job i) d)"
      using out by (simp add: open_lock_def advance_def goto_def)
    show ?thesis
    proof (cases "flocks d i")
      case None
      then have "held_inode (pcs d q) \<noteq> Some i" for q using I(1) [of i q] by simp
      with taken [of i "next_inode d"] path I(4) [OF path] None d out show ?thesis by (simp add: try_flock_def goto_def)
    next
      case (Some q)
      then have "try_flock job i p (goto p (Opened job i) d) = d"
        using out by (simp add: try_flock_def goto_def fun_upd_idem)
      with inv d show ?thesis by simp
    qed
  next
    case None
    have free: "held_inode (pcs d q) \<noteq> Some (next_inode d)" for q using I(5) [of q "next_inode d"] by auto
    then have "flocks d (next_inode d) = None" using I(1) by (cases "flocks d (next_inode d)") auto
    with taken [of "next_inode d" "next_inode d + 1"] None free inv out show ?thesis
      by (cases "job = ProbeLock") (simp_all add: open_lock_def advance_def goto_def try_flock_def)
  qed
qed

lemma undisturbed_inv: "undisturbed d \<Longrightarrow> dir_inv d"
proof (induction rule: undisturbed.induct)
  case (leftovers d)
  then show ?case by (simp add: dir_inv_def)
qed (simp_all add: dir_inv_acquire dir_inv_advance dir_inv_stop dir_inv_crash)


section \<open>The race\<close>

datatype LockEvent = Begin Job nat | Step nat | StopIt nat

fun lock_event :: "LockEvent \<Rightarrow> Dir \<Rightarrow> Dir" where
  "lock_event (Begin job p) d = open_lock job p d"
| "lock_event (Step p) d = advance p d"
| "lock_event (StopIt p) d = stop_supervisor p d"

definition empty_dir :: Dir where
  "empty_dir = \<lparr>lock_path = None, next_inode = 0, flocks = \<lambda>_. None, sidecars = \<lambda>_. None, pcs = \<lambda>_. Out\<rparr>"

text \<open>
  Process 1 supervises; 2 sweeps and has opened its lock file; 1 is told to stop and removes the
  file; 3 creates the tunnel again; 2 goes on.
\<close>

definition race :: "LockEvent list" where
  "race = [Begin Create 1, Step 1, Step 1, Step 1, Begin Sweep 2, StopIt 1, Step 1, Step 1, Step 1,
     Begin Create 3, Step 3, Step 3, Step 3, Step 2, Step 2, Step 2, Step 2, Step 2]"

text \<open>
  The sweep is not safe: a process that opened the lock file just before its owner removed it gets
  the lock of the removed inode, and then removes the socket, the pid and the lock file of the
  supervisor that is up meanwhile; that supervisor is a ghost, and the next to create the tunnel gets
  the lock and supervises beside it.
\<close>

theorem sweep_removes_live_lock:
  defines "d \<equiv> fold lock_event race empty_dir"
  shows "pcs d 3 = Up 1 \<and> flocks d 1 = Some 3 \<and> lock_path d = None \<and> sidecars d = (\<lambda>_. None)
    \<and> (let d' = fold lock_event [Begin Create 4, Step 4, Step 4, Step 4] d in pcs d' 3 = Up 1 \<and> pcs d' 4 = Up 2)"
  unfolding d_def race_def empty_dir_def by (simp add: open_lock_def lock_steps Let_def)

section \<open>Witnesses\<close>


end
