(* ===== verification/Tunnel_Setup.thy ===== *)
theory Tunnel_Setup
  imports Destination Protocol Scanners
begin

text \<open>
  The setup of a tunnel once its lock is held, from \<open>connect::run\<close> in \<open>src/src/connect.rs\<close>: the remote's
  socket path from the cache or from the remote, the version gate, ssh, the probe through the tunnel
  and the files that let a restart find its way back.  What the remote answers and whether ssh works
  is the environment; every step writes what it does to the outside.
\<close>

section \<open>Steps that may fail\<close>

datatype SetupOut =
    DropCache
  | AskRemote
  | Warned rstring
  | StartSsh "rstring list"
  | ProbeTunnel
  | WriteCache rstring
  | WriteDestination rstring
  | WriteSshOptions rstring
  | RemoveSshOptions
  | SignalReady

datatype SetupErr =
    RemoteExecFailed
  | RemoteUnusable EnsureError
  | VersionRefused rstring
  | RelativeSocketPath
  | SshFailed
  | NeverBound
  | CacheStale rstring rstring
  | DaemonUnreachable

type_synonym 'a phase = "SetupOut list \<times> (SetupErr + 'a)"

fun and_then :: "'a phase \<Rightarrow> ('a \<Rightarrow> 'b phase) \<Rightarrow> 'b phase" where
  "and_then (outs, Inl err) f = (outs, Inl err)"
| "and_then (outs, Inr a) f = (let (outs', r) = f a in (outs @ outs', r))"

record SetupOpts =
  so_destination :: rstring
  so_dest :: Destination
  so_local_sock :: rstring
  so_ssh_options :: "rstring list"
  so_cli_ssh_options :: "rstring list"
  so_foreground :: bool
  so_isolate :: bool
  so_timeout :: nat
  so_ignore_mismatch :: bool

text \<open>
  The cache file, the outputs of the two remote commands (None when ssh failed), whether ssh starts
  and its socket comes up, and the versions the two probes find.
\<close>

record SetupEnv =
  se_cached :: "rstring option"
  se_ensure :: "rstring option"
  se_spawns :: bool
  se_bound :: bool
  se_probe :: "u16 option"
  se_ensure_again :: "rstring option"
  se_probe_again :: "u16 option"

section \<open>The version gate\<close>

definition mismatch_message :: "u16 \<Rightarrow> u16 \<Rightarrow> bool \<Rightarrow> rstring option" where
  "mismatch_message remote local ignoring =
     (if remote = local then None
      else Some (ascii ''remote speaks protocol v'' @ dec (unat remote) @ ascii '', this gritty speaks v''
        @ dec (unat local)
        @ (if ignoring
           then ascii '' -- tunnel started anyway (--ignore-version-mismatch); session commands will be refused until the versions match''
           else ascii ''; upgrade one side (gritty bootstrap <host>), or pass --ignore-version-mismatch to start the tunnel anyway'')))"

definition check_remote_protocol_version :: "u16 \<Rightarrow> bool \<Rightarrow> unit phase" where
  "check_remote_protocol_version remote ignore =
     (case mismatch_message remote PROTOCOL_VERSION ignore of
        None \<Rightarrow> ([], Inr ())
      | Some msg \<Rightarrow> (if ignore then ([Warned msg], Inr ()) else ([], Inl (VersionRefused msg))))"

section \<open>The phases\<close>

definition cached_remote_sock :: "rstring option \<Rightarrow> SetupOut list \<times> rstring option" where
  "cached_remote_sock contents =
     (case contents of
        None \<Rightarrow> ([], None)
      | Some s \<Rightarrow>
          (if trim s = [] then ([], None)
           else if starts_with (trim s) [SLASH] then ([], Some (trim s))
           else ([DropCache], None)))"

definition ensure_remote_ready :: "rstring option \<Rightarrow> (rstring \<times> u16 option) phase" where
  "ensure_remote_ready output =
     ([AskRemote],
      (case output of
         None \<Rightarrow> Inl RemoteExecFailed
       | Some out \<Rightarrow>
           (case parse_ensure_remote_output out of Inl err \<Rightarrow> Inl (RemoteUnusable err) | Inr r \<Rightarrow> Inr r)))"

text \<open>The remote's socket path and, from the remote only, its version.\<close>

definition find_remote :: "SetupEnv \<Rightarrow> rstring option \<Rightarrow> (rstring \<times> u16 option) phase" where
  "find_remote e cached =
     (case cached of Some sock \<Rightarrow> ([], Inr (sock, None)) | None \<Rightarrow> ensure_remote_ready (se_ensure e))"

definition gate_reported :: "SetupOpts \<Rightarrow> u16 option \<Rightarrow> unit phase" where
  "gate_reported opts version =
     (case version of
        Some v \<Rightarrow> check_remote_protocol_version v (so_ignore_mismatch opts)
      | None \<Rightarrow> ([], Inr ()))"

definition start_tunnel :: "SetupOpts \<Rightarrow> SetupEnv \<Rightarrow> rstring \<Rightarrow> unit phase" where
  "start_tunnel opts e sock =
     (if \<not> spawn_allowed sock then ([], Inl RelativeSocketPath)
      else
        (let cmd = tunnel_command (so_dest opts) (so_local_sock opts) sock (so_ssh_options opts)
               (so_foreground opts) (so_isolate opts) (so_timeout opts)
         in if \<not> se_spawns e then ([StartSsh cmd], Inl SshFailed)
            else if \<not> se_bound e then ([StartSsh cmd], Inl NeverBound)
            else ([StartSsh cmd], Inr ())))"

text \<open>The probe through the tunnel; a cached path gets a second chance once the remote is ready.\<close>

definition probe_again :: "SetupEnv \<Rightarrow> rstring \<Rightarrow> rstring \<times> u16 option \<Rightarrow> u16 phase" where
  "probe_again e sock fresh =
     (if fst fresh \<noteq> sock then ([DropCache], Inl (CacheStale sock (fst fresh)))
      else ([ProbeTunnel], (case se_probe_again e of Some v \<Rightarrow> Inr v | None \<Rightarrow> Inl DaemonUnreachable)))"

definition confirm_daemon :: "SetupEnv \<Rightarrow> bool \<Rightarrow> rstring \<Rightarrow> u16 phase" where
  "confirm_daemon e used_cache sock =
     (case se_probe e of
        Some v \<Rightarrow> ([ProbeTunnel], Inr v)
      | None \<Rightarrow>
          (if used_cache
           then and_then ([ProbeTunnel], Inr ()) (\<lambda>_. and_then (ensure_remote_ready (se_ensure_again e)) (probe_again e sock))
           else ([ProbeTunnel], Inl DaemonUnreachable)))"

definition gate_probed :: "SetupOpts \<Rightarrow> bool \<Rightarrow> u16 \<Rightarrow> unit phase" where
  "gate_probed opts used_cache v =
     (if used_cache then check_remote_protocol_version v (so_ignore_mismatch opts) else ([], Inr ()))"

text \<open>What later invocations read: the path, the destination and the options of the command line.\<close>

definition persist :: "SetupOpts \<Rightarrow> rstring \<Rightarrow> SetupOut list" where
  "persist opts sock =
     [WriteCache sock, WriteDestination (so_destination opts),
      if so_cli_ssh_options opts = [] then RemoveSshOptions
      else WriteSshOptions (join [0x0A] (so_cli_ssh_options opts)), SignalReady]"

definition connect_setup :: "SetupOpts \<Rightarrow> SetupEnv \<Rightarrow> rstring phase" where
  "connect_setup opts e =
     (let (dropped, cached) = cached_remote_sock (se_cached e); used_cache = cached \<noteq> None
      in and_then (dropped, Inr ()) (\<lambda>_.
         and_then (find_remote e cached) (\<lambda>(sock, version).
         and_then (gate_reported opts version) (\<lambda>_.
         and_then (start_tunnel opts e sock) (\<lambda>_.
         and_then (confirm_daemon e used_cache sock) (\<lambda>v.
         and_then (gate_probed opts used_cache v) (\<lambda>_.
         (persist opts sock, Inr sock))))))))"

text \<open>\<open>read_persisted_ssh_options\<close>, from the contents of the file.\<close>

definition read_persisted_ssh_options :: "rstring option \<Rightarrow> rstring list" where
  "read_persisted_ssh_options contents =
     (case contents of Some s \<Rightarrow> filter (\<lambda>l. l \<noteq> []) (lines s) | None \<Rightarrow> [])"

definition tunnel_recreate_args :: "rstring \<Rightarrow> rstring \<Rightarrow> rstring option \<Rightarrow> rstring list" where
  "tunnel_recreate_args connection_name destination contents =
     build_tunnel_recreate_args connection_name destination (read_persisted_ssh_options contents)"

section \<open>Which versions get through\<close>

text \<open>The version the probe of a successful setup found.\<close>

definition probed :: "SetupEnv \<Rightarrow> u16 option" where
  "probed e = (case se_probe e of Some v \<Rightarrow> Some v | None \<Rightarrow> se_probe_again e)"

definition used_cache :: "SetupEnv \<Rightarrow> bool" where
  "used_cache e \<longleftrightarrow> snd (cached_remote_sock (se_cached e)) \<noteq> None"

lemma and_then_Inr [simp]:
  "snd (and_then m f) = Inr b \<longleftrightarrow> (\<exists>a. snd m = Inr a \<and> snd (f a) = Inr b)"
  by (cases "(m, f)" rule: and_then.cases) (auto simp: split_beta)

lemma gate_strict: "snd (check_remote_protocol_version v False) = Inr () \<longleftrightarrow> v = PROTOCOL_VERSION"
  by (simp add: check_remote_protocol_version_def mismatch_message_def)

lemma confirm_probed: "snd (confirm_daemon e c sock) = Inr v \<Longrightarrow> probed e = Some v"
  by (auto simp: confirm_daemon_def probed_def probe_again_def split_beta split: option.splits if_splits)

lemma setup_Inr:
  "snd (connect_setup opts e) = Inr sock \<Longrightarrow>
     \<exists>version v. snd (find_remote e (snd (cached_remote_sock (se_cached e)))) = Inr (sock, version)
       \<and> snd (gate_reported opts version) = Inr () \<and> probed e = Some v
       \<and> snd (gate_probed opts (used_cache e) v) = Inr ()"
  by (auto simp: connect_setup_def Let_def split_beta used_cache_def dest!: confirm_probed)

text \<open>An environment of a remote that answers with a path and, if any, a version.\<close>

definition remote_env :: "rstring option \<Rightarrow> rstring \<Rightarrow> u16 \<Rightarrow> SetupEnv" where
  "remote_env cached output v = \<lparr>se_cached = cached, se_ensure = Some output, se_spawns = True, se_bound = True,
     se_probe = Some v, se_ensure_again = None, se_probe_again = None\<rparr>"


section \<open>Recreating a tunnel\<close>

lemma pieces_line: "0x0A \<notin> set l \<Longrightarrow> pieces acc (l @ 0x0A # s) =
    (if acc @ l \<noteq> [] \<and> last (acc @ l) = 0x0D then butlast (acc @ l) else acc @ l) # pieces [] s"
  by (induction l arbitrary: acc) auto

lemma pieces_last: "0x0A \<notin> set l \<Longrightarrow> pieces acc l = (if acc @ l = [] then [] else [acc @ l])"
  by (induction l arbitrary: acc) auto

definition plain_option :: "rstring \<Rightarrow> bool" where
  "plain_option opt \<longleftrightarrow> opt \<noteq> [] \<and> 0x0A \<notin> set opt \<and> last opt \<noteq> 0x0D"

lemma lines_join: "list_all plain_option opts \<Longrightarrow> lines (join [0x0A] opts) = opts"
  by (induction "[0x0A :: byte]" opts rule: join.induct)
    (auto simp: lines_def plain_option_def pieces_line pieces_last)

text \<open>
  A restart comes back to the same tunnel: the options written for the command line read back as
  they were given, so the recreated tunnel is created with the same name, the same options in the same
  order and the same destination -- provided no option is empty, has a line break or ends in a carriage
  return.
\<close>

theorem recreated_with_same_options:
  "list_all plain_option (so_cli_ssh_options opts) \<Longrightarrow> so_cli_ssh_options opts \<noteq> [] \<Longrightarrow>
     \<exists>contents. WriteSshOptions contents \<in> set (persist opts sock)
       \<and> tunnel_recreate_args conn (so_destination opts) (Some contents)
         = build_tunnel_recreate_args conn (so_destination opts) (so_cli_ssh_options opts)"
proof -
  assume plain: "list_all plain_option (so_cli_ssh_options opts)" and some: "so_cli_ssh_options opts \<noteq> []"
  have "filter (\<lambda>l. l \<noteq> []) (so_cli_ssh_options opts) = so_cli_ssh_options opts"
    using plain by (intro filter_True) (auto simp: list_all_iff plain_option_def)
  with plain some show ?thesis
    by (simp add: persist_def tunnel_recreate_args_def read_persisted_ssh_options_def lines_join)
qed

definition example_opts :: SetupOpts where
  "example_opts = \<lparr>so_destination = ascii ''u@h'', so_dest = \<lparr>dst_user = Some (ascii ''u''), dst_host = ascii ''h'', dst_port = None\<rparr>,
     so_local_sock = [SLASH], so_ssh_options = [], so_cli_ssh_options = [ascii ''A=1'', ascii ''B=2''],
     so_foreground = False, so_isolate = True, so_timeout = 5, so_ignore_mismatch = False\<rparr>"

lemma recreated_with_same_options_witness:
  "\<exists>contents. tunnel_recreate_args (ascii ''h'') (ascii ''u@h'') (Some contents)
     = [ascii ''tunnel-create'', ascii ''--name'', ascii ''h'', ascii ''-o'', ascii ''A=1'', ascii ''-o'', ascii ''B=2'', ascii ''u@h'']"
proof -
  have plain: "list_all plain_option (so_cli_ssh_options example_opts)" and some: "so_cli_ssh_options example_opts \<noteq> []"
    by (simp_all add: example_opts_def plain_option_def)
  from recreated_with_same_options [OF plain some, of "[SLASH]" "ascii ''h''"] show ?thesis
    by (auto simp: example_opts_def build_tunnel_recreate_args_def)
qed

end
