(* ===== verification/History.thy ===== *)
theory History
  imports Line_Shadow
begin

text \<open>
  \<open>History\<close>, \<open>ReplayPlan\<close> and \<open>plan_replay\<close> of \<open>src/src/server.rs\<close>: the trailing byte ring of
  the PTY output with its absolute offsets, and the decision how a client is brought back in
  sync.  Offsets are naturals: the code's \<open>u64\<close> would need 2^64 bytes of output to wrap.
\<close>

section \<open>The ring\<close>

record History =
  hchunks :: "byte list list"
  hsize :: nat
  hcap :: nat
  total_out :: nat

definition history_new :: "nat \<Rightarrow> History" where
  "history_new cap = \<lparr>hchunks = [], hsize = 0, hcap = max cap 1, total_out = 0\<rparr>"

text \<open>The \<open>while self.size > self.cap\<close> loop of \<open>push\<close>.\<close>

fun evict :: "byte list list \<Rightarrow> nat \<Rightarrow> nat \<Rightarrow> byte list list \<times> nat" where
  "evict cs sz cap =
     (if cap < sz then
        (case cs of [] \<Rightarrow> ([], sz) | old # rest \<Rightarrow> evict rest (sz - length old) cap)
      else (cs, sz))"

declare evict.simps [simp del]

lemma evict_stop: "\<not> cap < sz \<Longrightarrow> evict cs sz cap = (cs, sz)"
  by (subst evict.simps) simp

lemma evict_more: "cap < sz \<Longrightarrow> evict (old # rest) sz cap = evict rest (sz - length old) cap"
  by (subst evict.simps) simp

definition history_push :: "History \<Rightarrow> byte list \<Rightarrow> History" where
  "history_push h chunk =
     (if chunk = [] then h
      else
        (let (cs, sz) = evict (hchunks h @ [chunk]) (hsize h + length chunk) (hcap h)
         in h\<lparr>total_out := total_out h + length chunk, hsize := sz, hchunks := cs\<rparr>))"

definition history_total :: "History \<Rightarrow> nat" where
  "history_total h = total_out h"

definition history_base :: "History \<Rightarrow> nat" where
  "history_base h = total_out h - hsize h"

fun slice_chunks :: "byte list list \<Rightarrow> nat \<Rightarrow> byte list list" where
  "slice_chunks [] skip = []"
| "slice_chunks (chunk # cs) skip =
     (if length chunk \<le> skip then slice_chunks cs (skip - length chunk)
      else (if 0 < skip then drop skip chunk else chunk) # slice_chunks cs 0)"

definition slice_from :: "History \<Rightarrow> nat \<Rightarrow> byte list list" where
  "slice_from h from_off = slice_chunks (hchunks h) (from_off - history_base h)"

text \<open>The loop of \<open>cursor_restore\<close>: feed the shadow chunk by chunk up to \<open>remaining\<close> bytes.\<close>

fun shadow_chunks ::
  "(byte list \<Rightarrow> nat option) \<Rightarrow> LineShadow \<Rightarrow> byte list list \<Rightarrow> nat \<Rightarrow> LineShadow" where
  "shadow_chunks cw s [] remaining = s"
| "shadow_chunks cw s (chunk # cs) remaining =
     (if remaining = 0 then s
      else
        (let k = min remaining (length chunk)
         in shadow_chunks cw (shadow_scan cw s (take k chunk)) cs (remaining - k)))"

definition cursor_restore :: "(byte list \<Rightarrow> nat option) \<Rightarrow> History \<Rightarrow> nat \<Rightarrow> u16 \<Rightarrow> rstring" where
  "cursor_restore cw h up_to c =
     (let remaining = min (up_to - history_base h) (hsize h)
      in restore_sequence (shadow_chunks cw (shadow_new c) (hchunks h) remaining))"

section \<open>The plan\<close>

datatype ReplayPlan =
    AltRedraw nat
  | Fresh nat
  | Clean nat
  | Truncated nat nat

definition plan_replay :: "nat \<Rightarrow> bool \<Rightarrow> bool \<Rightarrow> nat \<Rightarrow> nat \<Rightarrow> ReplayPlan" where
  "plan_replay rendered is_fresh in_alt_screen base end_off =
     (if in_alt_screen then AltRedraw end_off
      else if is_fresh \<or> end_off < rendered then Fresh end_off
      else if rendered < base then Truncated base (base - rendered)
      else Clean rendered)"

section \<open>The ring is the tail of the stream\<close>

text \<open>The abstraction: what the ring holds is the stream without its first \<open>base\<close> bytes.\<close>

definition history_of :: "byte list \<Rightarrow> History \<Rightarrow> bool" where
  "history_of stream h \<longleftrightarrow>
     total_out h = length stream \<and> hsize h \<le> length stream \<and> hsize h \<le> hcap h
     \<and> concat (hchunks h) = drop (length stream - hsize h) stream
     \<and> [] \<notin> set (hchunks h)"

lemma length_concat_history: "history_of stream h \<Longrightarrow> length (concat (hchunks h)) = hsize h"
  by (simp add: history_of_def)

lemma evict_spec:
  assumes "evict cs sz cap = (cs', sz')" and "sz = length (concat cs)"
  shows "sz' = length (concat cs') \<and> sz' \<le> cap
    \<and> concat cs' = drop (sz - sz') (concat cs) \<and> sz' \<le> sz \<and> set cs' \<subseteq> set cs"
  using assms
proof (induction cs sz cap rule: evict.induct)
  case (1 cs sz cap)
  show ?case
  proof (cases "cap < sz")
    case False
    then have "cs' = cs" "sz' = sz" using "1.prems"(1) by (simp_all add: evict_stop)
    then show ?thesis using False "1.prems"(2) by simp
  next
    case True
    then obtain old rest where cs: "cs = old # rest" using "1.prems"(2) by (cases cs) auto
    have ev: "evict rest (sz - length old) cap = (cs', sz')"
      using "1.prems"(1) True cs by (simp add: evict_more)
    have IH: "sz' = length (concat cs') \<and> sz' \<le> cap
        \<and> concat cs' = drop (sz - length old - sz') (concat rest)
        \<and> sz' \<le> sz - length old \<and> set cs' \<subseteq> set rest"
      by (rule "1.IH" [OF True cs ev]) (simp add: "1.prems"(2) cs)
    have "length old \<le> sz" using "1.prems"(2) cs by simp
    moreover have "sz' \<le> sz - length old" using IH by blast
    ultimately have d: "sz - sz' = length old + (sz - length old - sz')" and le: "sz' \<le> sz"
      by arith+
    have dr: "drop (sz - sz') (concat cs) = drop (sz - length old - sz') (concat rest)"
      unfolding d cs by simp
    from IH have i: "sz' = length (concat cs')" "sz' \<le> cap"
        "concat cs' = drop (sz - length old - sz') (concat rest)" "set cs' \<subseteq> set rest"
      by blast+
    show ?thesis
      unfolding dr
      by (intro conjI, fact i(1), fact i(2), fact i(3), fact le, use i(4) cs in auto)
  qed
qed

lemma history_of_new: "history_of [] (history_new cap)"
  by (simp add: history_of_def history_new_def)

lemma history_of_push:
  assumes "history_of stream h"
  shows "history_of (stream @ chunk) (history_push h chunk)"
proof (cases "chunk = []")
  case False
  obtain cs sz where ev: "evict (hchunks h @ [chunk]) (hsize h + length chunk) (hcap h) = (cs, sz)"
    by fastforce
  have len: "hsize h + length chunk = length (concat (hchunks h @ [chunk]))"
    using length_concat_history [OF assms] by simp
  from evict_spec [OF ev len]
  have spec: "sz = length (concat cs)" "sz \<le> hcap h"
      "concat cs = drop (hsize h + length chunk - sz) (concat (hchunks h @ [chunk]))"
      "sz \<le> hsize h + length chunk" "set cs \<subseteq> set (hchunks h @ [chunk])"
    by blast+
  have h: "hsize h \<le> length stream" "concat (hchunks h) = drop (length stream - hsize h) stream"
    using assms by (simp_all add: history_of_def)
  have "concat cs = drop (hsize h + length chunk - sz) (drop (length stream - hsize h) (stream @ chunk))"
    unfolding spec(3) using h by (simp only: concat_append concat.simps) simp
  also have "\<dots> = drop (length (stream @ chunk) - sz) (stream @ chunk)"
  proof -
    have "hsize h + length chunk - sz + (length stream - hsize h) = length (stream @ chunk) - sz"
      using spec(4) h(1) by simp
    then show ?thesis by (simp only: drop_drop)
  qed
  finally have c: "concat cs = drop (length (stream @ chunk) - sz) (stream @ chunk)" .
  have ne: "[] \<notin> set cs" using spec(5) assms False by (auto simp: history_of_def)
  have push: "history_push h chunk
      = h\<lparr>total_out := total_out h + length chunk, hsize := sz, hchunks := cs\<rparr>"
    using False ev by (simp add: history_push_def)
  have "total_out h = length stream" using assms by (simp add: history_of_def)
  then show ?thesis
    unfolding history_of_def push using c ne spec(2,4) h(1) by (simp del: concat.simps)
qed (use assms in \<open>simp add: history_push_def\<close>)

lemma history_of_pushes:
  "history_of (concat chunks) (foldl history_push (history_new cap) chunks)"
proof (induction chunks rule: rev_induct)
  case (snoc c cs)
  then show ?case using history_of_push [of "concat cs" _ c] by simp
qed (simp add: history_of_new)

lemma concat_slice_chunks: "concat (slice_chunks cs k) = drop k (concat cs)"
  by (induction cs k rule: slice_chunks.induct) auto

lemma concat_slice_from:
  assumes "history_of stream h"
  shows "concat (slice_from h k) = drop (max (history_base h) k) stream"
  using assms
  by (simp add: slice_from_def concat_slice_chunks history_of_def history_base_def max_def)

lemma shadow_chunks_take: "shadow_chunks cw s cs k = shadow_scan cw s (take k (concat cs))"
proof (induction cs arbitrary: s k)
  case (Cons c cs)
  show ?case
    by (cases "k = 0")
      (simp_all add: Cons Let_def shadow.scan_Nil shadow.scan_append min_def)
qed (simp add: shadow.scan_Nil)

lemma cursor_restore_stream:
  assumes "history_of stream h" and "history_base h \<le> up_to" and "up_to \<le> length stream"
  shows "cursor_restore cw h up_to c
    = restore_sequence (shadow_scan cw (shadow_new c)
        (take (up_to - history_base h) (drop (history_base h) stream)))"
  using assms
  by (simp add: cursor_restore_def shadow_chunks_take history_of_def history_base_def Let_def)

lemma history_keeps_all:
  assumes "history_of stream h" and "hsize h = length stream" and "length (stream @ c) \<le> hcap h"
  shows "hsize (history_push h c) = length (stream @ c)"
  using assms by (simp add: history_push_def evict_stop)

lemma hcap_push [simp]: "hcap (history_push h c) = hcap h"
  by (simp add: history_push_def split_beta)

lemma history_complete:
  "length (concat chunks) \<le> max cap 1 \<Longrightarrow>
     hsize (foldl history_push (history_new cap) chunks) = length (concat chunks)"
proof (induction chunks rule: rev_induct)
  case (snoc c cs)
  let ?h = "foldl history_push (history_new cap) cs"
  have "hcap ?h = max cap 1"
    by (induction cs rule: rev_induct) (simp_all add: history_new_def)
  then show ?case
    using snoc history_keeps_all [OF history_of_pushes, of cap cs c] by simp
qed (simp add: history_new_def)

text \<open>
  C8. The history is the tail of the stream under absolute offsets: after any output it holds
  at most the cap, its end is the number of bytes produced, the chunks sliced from an offset
  are exactly the stream from there on (from the base when the offset fell out of the ring),
  and nothing is lost before the output exceeds the cap.
\<close>

theorem history_is_stream_tail:
  "let h = foldl history_push (history_new cap) chunks; stream = concat chunks in
     history_total h = length stream \<and> history_base h \<le> history_total h
     \<and> history_total h - history_base h \<le> max cap 1
     \<and> concat (slice_from h k) = drop (max (history_base h) k) stream
     \<and> (max cap 1 < length stream \<or> history_base h = 0)"
proof -
  let ?h = "foldl history_push (history_new cap) chunks"
  have h: "history_of (concat chunks) ?h" by (rule history_of_pushes)
  have "hcap ?h = max cap 1"
    by (induction chunks rule: rev_induct) (simp_all add: history_new_def)
  moreover have "max cap 1 < length (concat chunks) \<or> hsize ?h = length (concat chunks)"
    using history_complete [of chunks cap] by (meson not_less)
  ultimately show ?thesis
    using h concat_slice_from [OF h, of k]
    by (auto simp: Let_def history_total_def history_base_def history_of_def)
qed

end
