(* ===== verification/Replay.thy ===== *)
theory Replay
  imports History Term_Modes Scrollback Query_Filter Protocol
begin

text \<open>
  The output side of a session in \<open>src/src/server.rs\<close>: what happens to a chunk read from the PTY,
  and \<open>send_reconnect_replay\<close> with its helpers.  The client's socket is a number of frames it
  will still accept: the send after that fails, and the code returns early.  What a TUI paints
  during the 50 ms of \<open>force_tui_redraw\<close> is the list of chunks read there.  \<open>cw\<close> is the
  character width of the \<open>unicode_width\<close> crate, \<open>human\<close> the number format of \<open>humansize\<close>.
\<close>

section \<open>State and window size\<close>

record Output =
  o_history :: History
  o_scrollback :: ScrollbackBuffer
  o_alt :: AltScreenTracker
  o_modes :: TermModeTracker
  o_win :: "u16 \<times> u16"

definition output_new :: "nat \<Rightarrow> u16 \<times> u16 \<Rightarrow> Output" where
  "output_new cap win = \<lparr>o_history = history_new cap, o_scrollback = scrollback_new,
     o_alt = alt_new, o_modes = tracker_new, o_win = win\<rparr>"

abbreviation (input) MAX_WINSIZE :: u16 where "MAX_WINSIZE \<equiv> 10000"

definition clamp_winsize :: "u16 \<Rightarrow> u16 \<Rightarrow> u16 \<times> u16" where
  "clamp_winsize c r = (min (max c 1) MAX_WINSIZE, min (max r 1) MAX_WINSIZE)"

definition apply_winsize :: "Output \<Rightarrow> u16 \<Rightarrow> u16 \<Rightarrow> Output" where
  "apply_winsize out c r = out\<lparr>o_win := clamp_winsize c r\<rparr>"

definition query_cols :: "Output \<Rightarrow> u16" where
  "query_cols out = fst (o_win out)"

text \<open>One chunk of PTY output, the same in every loop that reads the master.\<close>

definition absorb :: "Output \<Rightarrow> byte list \<Rightarrow> Output" where
  "absorb out chunk =
     (let alt = alt_scan (o_alt out) chunk;
          modes = tracker_scan (o_modes out) chunk;
          sb = (if \<not> in_alternate_screen alt then scrollback_push (o_scrollback out) chunk
                else o_scrollback out)
      in out\<lparr>o_history := history_push (o_history out) chunk, o_scrollback := sb, o_alt := alt,
             o_modes := modes\<rparr>)"

section \<open>Sending\<close>

definition send_frames :: "nat \<Rightarrow> Frame list \<Rightarrow> Frame list \<times> bool" where
  "send_frames k fs = (take k fs, length fs \<le> k)"

definition resume_frames :: "nat \<Rightarrow> rstring \<Rightarrow> Frame list" where
  "resume_frames off mode_sync = [Resume (word_of_nat off), Notice mode_sync]"

text \<open>\<open>send_scrubbed\<close>: one Notice for every chunk that is not empty after the filter.\<close>

fun scrub_frames :: "QueryFilter \<Rightarrow> byte list list \<Rightarrow> Frame list" where
  "scrub_frames q [] = (if filter_finish q \<noteq> [] then [Notice (filter_finish q)] else [])"
| "scrub_frames q (c # cs) =
     (let (q', scrubbed) = scrub q c
      in (if scrubbed \<noteq> [] then [Notice scrubbed] else []) @ scrub_frames q' cs)"

definition scrubbed_frames :: "byte list list \<Rightarrow> Frame list" where
  "scrubbed_frames chunks = scrub_frames filter_new chunks"

text \<open>The dim rule above replayed context; the two characters are U+2500 and U+25B8.\<close>

definition rule_char :: rstring where "rule_char = [0xE2, 0x94, 0x80]"

definition arrow_char :: rstring where "arrow_char = [0xE2, 0x96, 0xB8]"

definition char_count :: "rstring \<Rightarrow> nat" where
  "char_count s = length (filter (\<lambda>b. \<not> is_cont b) s)"

definition replay_divider :: "u16 \<Rightarrow> rstring option \<Rightarrow> rstring" where
  "replay_divider c annotation =
     (let width = (if 0 < c then unat c else 40);
          rule = (case annotation of
              Some txt \<Rightarrow>
                (let prefix = rule_char @ rule_char @ [0x20] @ txt @ [0x20];
                     fill = width - char_count prefix
                 in prefix @ concat (replicate fill rule_char))
            | None \<Rightarrow> concat (replicate width rule_char))
      in [0x0D, 0x1B, 0x5B, 0x32, 0x6D] @ rule @ [0x1B, 0x5B, 0x30, 0x6D, 0x0D, 0x0A])"

definition clear_line :: rstring where "clear_line = [0x0D, 0x1B, 0x5B, 0x4B]"

definition lost_marker :: "(nat \<Rightarrow> rstring) \<Rightarrow> nat \<Rightarrow> rstring" where
  "lost_marker human dropped =
     [0x1B, 0x5B, 0x32, 0x6D] @ arrow_char @ [0x20] @ human dropped
     @ ascii '' lost while disconnected'' @ [0x1B, 0x5B, 0x30, 0x6D, 0x0D, 0x0A]"

definition enter_alt :: rstring where
  "enter_alt = [0x1B, 0x5B, 0x3F, 0x31, 0x30, 0x34, 0x39, 0x68, 0x1B, 0x5B, 0x48,
     0x1B, 0x5B, 0x32, 0x4A]"

definition leave_alt :: rstring where
  "leave_alt = [0x1B, 0x5B, 0x3F, 0x31, 0x30, 0x34, 0x39, 0x6C]"

section \<open>Forcing a TUI to repaint\<close>

definition nudge_size :: "u16 \<Rightarrow> u16 \<Rightarrow> u16 \<times> u16" where
  "nudge_size c r =
     (let toggle_cols = (r \<le> 1 \<and> 2 \<le> c)
      in (if toggle_cols then max (if c = 0 then 0 else c - 1) 1 else c,
          if toggle_cols then r else max (if r = 0 then 0 else r - 1) 1))"

fun redraw_loop :: "nat \<Rightarrow> Output \<Rightarrow> byte list list \<Rightarrow> Output \<times> Frame list \<times> bool" where
  "redraw_loop k out [] = (out, [], True)"
| "redraw_loop k out (c # cs) =
     (let out = absorb out c in
      case k of
        0 \<Rightarrow> (out, [], False)
      | Suc k \<Rightarrow> (let (out, fs, ok) = redraw_loop k out cs in (out, Data c # fs, ok)))"

definition force_tui_redraw ::
  "nat \<Rightarrow> byte list list \<Rightarrow> Output \<Rightarrow> u16 \<Rightarrow> u16 \<Rightarrow> Output \<times> Frame list \<times> bool" where
  "force_tui_redraw k reads out c r =
     (let (nc, nr) = nudge_size c r;
          (out, fs, ok) = redraw_loop k (apply_winsize out nc nr) reads
      in (apply_winsize out c r, fs, ok))"

section \<open>The replay\<close>

record Attach_request =
  rendered_offset :: nat
  line_dirty :: bool
  is_fresh_client :: bool
  a_cols :: u16
  a_rows :: u16

definition apply_attach_size :: "Output \<Rightarrow> Attach_request \<Rightarrow> Output" where
  "apply_attach_size out a =
     (if 0 < a_cols a \<and> 0 < a_rows a then apply_winsize out (a_cols a) (a_rows a) else out)"

definition replay_alt ::
  "nat \<Rightarrow> byte list list \<Rightarrow> Output \<Rightarrow> Attach_request \<Rightarrow> nat \<Rightarrow> Output \<times> Frame list \<times> bool" where
  "replay_alt k reads out a off =
     (let head = resume_frames off (sync_sequence (o_modes out)) @ [Notice enter_alt];
          (sent, ok) = send_frames k head
      in if \<not> ok then (out, sent, False)
         else if 0 < a_cols a \<and> 0 < a_rows a then
           (let (out, fs, ok) = force_tui_redraw (k - length head) reads out (a_cols a) (a_rows a)
            in (out, head @ fs, ok))
         else (out, head, True))"

definition replay_fresh ::
  "nat \<Rightarrow> Output \<Rightarrow> Attach_request \<Rightarrow> nat \<Rightarrow> Output \<times> Frame list \<times> bool" where
  "replay_fresh k out a off =
     (let mode_sync = sync_sequence (o_modes out);
          out = apply_attach_size out a;
          divider = replay_divider (a_cols a) None;
          msg = (if line_dirty a then clear_line @ divider else divider);
          (sent, ok) = send_frames k (resume_frames off mode_sync @ [Notice msg]
              @ scrubbed_frames (lines_and_partial (o_scrollback out)))
      in (if ok then out\<lparr>o_scrollback := scrollback_clear (o_scrollback out)\<rparr> else out, sent, ok))"

definition replay_clean ::
  "(byte list \<Rightarrow> nat option) \<Rightarrow> nat \<Rightarrow> Output \<Rightarrow> Attach_request \<Rightarrow> nat
    \<Rightarrow> Output \<times> Frame list \<times> bool" where
  "replay_clean cw k out a off =
     (let mode_sync = sync_sequence (o_modes out);
          restore = (if line_dirty a
            then [Notice (cursor_restore cw (o_history out) off (query_cols out))] else []);
          out = apply_attach_size out a;
          (sent, ok) = send_frames k (resume_frames (history_total (o_history out)) mode_sync
              @ restore @ scrubbed_frames (slice_from (o_history out) off))
      in (out, sent, ok))"

definition replay_truncated ::
  "(nat \<Rightarrow> rstring) \<Rightarrow> nat \<Rightarrow> Output \<Rightarrow> Attach_request \<Rightarrow> nat \<Rightarrow> nat
    \<Rightarrow> Output \<times> Frame list \<times> bool" where
  "replay_truncated human k out a off dropped =
     (let mode_sync = sync_sequence (o_modes out);
          out = apply_attach_size out a;
          lead = (if line_dirty a then clear_line else [0x0D, 0x0A]);
          (sent, ok) = send_frames k (resume_frames (history_total (o_history out)) mode_sync
              @ [Notice (leave_alt @ lead @ lost_marker human dropped)]
              @ scrubbed_frames (slice_from (o_history out) off))
      in (out, sent, ok))"

definition send_reconnect_replay ::
  "(byte list \<Rightarrow> nat option) \<Rightarrow> (nat \<Rightarrow> rstring) \<Rightarrow> nat \<Rightarrow> byte list list \<Rightarrow> Output
    \<Rightarrow> Attach_request \<Rightarrow> Output \<times> Frame list \<times> bool" where
  "send_reconnect_replay cw human k reads out a =
     (case plan_replay (rendered_offset a) (is_fresh_client a) (in_alternate_screen (o_alt out))
             (history_base (o_history out)) (history_total (o_history out)) of
        AltRedraw off \<Rightarrow> replay_alt k reads out a off
      | Fresh off \<Rightarrow> replay_fresh k out a off
      | Clean off \<Rightarrow> replay_clean cw k out a off
      | Truncated off dropped \<Rightarrow> replay_truncated human k out a off dropped)"

section \<open>The client's side\<close>

text \<open>
  The arms of \<open>ClientRelay::handle_server_frame\<close> in \<open>src/src/client.rs\<close> that receive the stream:
  Data is rendered and counted, Notice rendered only, Resume sets the position.
\<close>

record Viewer =
  v_offset :: nat
  v_rendered :: "byte list"
  v_alt :: AltScreenTracker

definition view_frame :: "Viewer \<Rightarrow> Frame \<Rightarrow> Viewer" where
  "view_frame v f =
     (case f of
        Data d \<Rightarrow> v\<lparr>v_offset := v_offset v + length d, v_alt := alt_scan (v_alt v) d,
                    v_rendered := v_rendered v @ d\<rparr>
      | Resume off \<Rightarrow> v\<lparr>v_offset := unat off\<rparr>
      | Notice d \<Rightarrow> v\<lparr>v_alt := alt_scan (v_alt v) d, v_rendered := v_rendered v @ d\<rparr>
      | _ \<Rightarrow> v)"

definition view_frames :: "Viewer \<Rightarrow> Frame list \<Rightarrow> Viewer" where
  "view_frames v fs = foldl view_frame v fs"

end
