(* ===== verification/Replay_Proofs.thy ===== *)
theory Replay_Proofs
  imports Replay Line_Shadow_Proofs Query_Filter_Proofs Term_Modes_Proofs
begin

text \<open>
  What a client that (re)attaches receives, whatever the session produced before: its offset
  always ends at the end of the stream, a resume replays exactly the bytes it has not seen
  (without the queries), and its terminal ends in the modes the session has.
\<close>

section \<open>The state of a session that has produced a stream\<close>

definition session_of :: "byte list \<Rightarrow> Output \<Rightarrow> bool" where
  "session_of stream out \<longleftrightarrow>
     history_of stream (o_history out) \<and> o_modes out = tracker_scan tracker_new stream
     \<and> o_alt out = alt_scan alt_new stream \<and> scrollback_bounded (o_scrollback out)"

lemma session_new: "session_of [] (output_new cap win)"
  by (simp add: session_of_def output_new_def history_of_new bounded_new
      term_tracker.scan_Nil alt_tracker.scan_Nil)

lemma session_absorb:
  "session_of stream out \<Longrightarrow> session_of (stream @ c) (absorb out c)"
  by (simp add: session_of_def absorb_def Let_def history_of_push bounded_push
      term_tracker.scan_append alt_tracker.scan_append)

lemma session_chunks:
  "session_of stream out \<Longrightarrow> session_of (stream @ concat cs) (foldl absorb out cs)"
proof (induction cs arbitrary: stream out)
  case (Cons c cs)
  show ?case using Cons.IH [OF session_absorb [OF Cons.prems, of c]] by simp
qed simp

lemma session_run: "session_of (concat cs) (foldl absorb (output_new cap win) cs)"
  using session_chunks [OF session_new, of cs] by simp

lemma session_winsize [simp]:
  "session_of stream (apply_winsize out c r) = session_of stream out"
  "session_of stream (apply_attach_size out a) = session_of stream out"
  by (simp_all add: session_of_def apply_attach_size_def apply_winsize_def)

lemma attach_size_fields [simp]:
  "o_history (apply_attach_size out a) = o_history out"
  "o_scrollback (apply_attach_size out a) = o_scrollback out"
  "o_modes (apply_attach_size out a) = o_modes out"
  "o_alt (apply_attach_size out a) = o_alt out"
  by (simp_all add: apply_attach_size_def apply_winsize_def)

lemma cleared_lines [simp]: "sb_lines (scrollback_clear sb) = []"
  by (simp add: scrollback_clear_def)

lemma session_total: "session_of stream out \<Longrightarrow> history_total (o_history out) = length stream"
  by (simp add: session_of_def history_of_def history_total_def)

lemma session_alt:
  "session_of stream out \<Longrightarrow>
     in_alternate_screen (o_alt out) = in_alternate_screen (alt_scan alt_new stream)"
  by (simp add: session_of_def)

section \<open>Frames and what they render\<close>

definition payload :: "Frame \<Rightarrow> byte list" where
  "payload f = (case f of Data d \<Rightarrow> d | Notice d \<Rightarrow> d | _ \<Rightarrow> [])"

definition is_notice :: "Frame \<Rightarrow> bool" where
  "is_notice f \<longleftrightarrow> (case f of Notice d \<Rightarrow> True | _ \<Rightarrow> False)"

lemma view_frames_simps [simp]:
  "view_frames v [] = v" "view_frames v (f # fs) = view_frames (view_frame v f) fs"
  "view_frames v (fs @ gs) = view_frames (view_frames v fs) gs"
  by (simp_all add: view_frames_def)

lemma view_rendered_frame: "v_rendered (view_frame v f) = v_rendered v @ payload f"
  by (cases f) (simp_all add: view_frame_def payload_def)

lemma view_rendered: "v_rendered (view_frames v fs) = v_rendered v @ concat (map payload fs)"
  by (induction fs arbitrary: v) (simp_all add: view_rendered_frame)

lemma view_alt_frame: "v_alt (view_frame v f) = alt_scan (v_alt v) (payload f)"
  by (cases f) (simp_all add: view_frame_def payload_def alt_tracker.scan_Nil)

lemma view_alt: "v_alt (view_frames v fs) = alt_scan (v_alt v) (concat (map payload fs))"
  by (induction fs arbitrary: v)
    (simp_all add: view_alt_frame alt_tracker.scan_Nil alt_tracker.scan_append)

lemma view_notices: "list_all is_notice fs \<Longrightarrow> v_offset (view_frames v fs) = v_offset v"
  by (induction fs arbitrary: v)
    (auto simp: is_notice_def view_frame_def split: Frame.splits)

lemma scrub_frames_payload:
  "concat (map payload (scrub_frames q cs))
     = (let (q', out) = scan_chunks scrub q cs in out @ filter_finish q')"
  by (induction cs arbitrary: q) (simp_all add: payload_def split_beta)

lemma scrub_frames_notices: "list_all is_notice (scrub_frames q cs)"
  by (induction cs arbitrary: q) (simp_all add: is_notice_def split_beta)

lemma scrubbed_payload: "concat (map payload (scrubbed_frames cs)) = strip_queries (concat cs)"
  unfolding scrubbed_frames_def scrub_frames_payload query_filter.scan_concat [symmetric]
    strip_queries_def by simp

lemma resume_frames_view:
  assumes "off < 2 ^ 64"
  shows "v_offset (view_frames v (resume_frames off s)) = off"
    and "concat (map payload (resume_frames off s)) = s"
  using assms
  by (simp_all add: resume_frames_def view_frame_def payload_def unat_of_nat)

lemma send_frames_ok: "send_frames k fs = (sent, True) \<Longrightarrow> sent = fs"
  by (auto simp: send_frames_def)

section \<open>The offset a client ends up with\<close>

lemma redraw_session:
  assumes "redraw_loop k out cs = (out', fs, True)" and "session_of stream out"
  shows "session_of (stream @ concat cs) out' \<and> fs = map Data cs"
  using assms
proof (induction cs arbitrary: k out fs stream out')
  case (Cons c cs)
  obtain j where k: "k = Suc j" using Cons.prems(1) by (cases k) simp_all
  obtain out1 fs1 where rd: "redraw_loop j (absorb out c) cs = (out1, fs1, True)"
    and eq: "out' = out1" "fs = Data c # fs1"
    using Cons.prems(1) k by (auto simp: Let_def split: prod.splits)
  have "session_of ((stream @ c) @ concat cs) out1 \<and> fs1 = map Data cs"
    by (rule Cons.IH [OF rd session_absorb [OF Cons.prems(2)]])
  then show ?case using eq by simp
qed simp

lemma view_data: "v_offset (view_frames v (map Data cs)) = v_offset v + length (concat cs)"
  by (induction cs arbitrary: v) (simp_all add: view_frame_def)

lemma session_clear:
  "session_of stream out \<Longrightarrow>
     session_of stream (out\<lparr>o_scrollback := scrollback_clear (o_scrollback out)\<rparr>)"
  by (simp add: session_of_def bounded_clear)

text \<open>Every plan, when the client takes all frames.\<close>

lemma replay_alt_ok:
  assumes "replay_alt k reads out a (length stream) = (out', fs, True)" and "session_of stream out"
    and "length stream < 2 ^ 64"
  shows "\<exists>produced. session_of (stream @ produced) out'
    \<and> v_offset (view_frames v fs) = length stream + length produced"
proof -
  let ?head = "resume_frames (length stream) (sync_sequence (o_modes out)) @ [Notice enter_alt]"
  have head: "v_offset (view_frames v ?head) = length stream"
    using view_notices [of "[Notice enter_alt]"] resume_frames_view(1) [OF assms(3)]
    by (simp add: is_notice_def)
  show ?thesis
  proof (cases "0 < a_cols a \<and> 0 < a_rows a")
    case False
    then have "out' = out" "fs = ?head"
      using assms(1) by (auto simp: replay_alt_def send_frames_def Let_def split: if_splits)
    with head assms(2) show ?thesis by (intro exI [of _ "[]"]) simp
  next
    case True
    then obtain k' nc nr out1 fs1 where
      rd: "redraw_loop k' (apply_winsize out nc nr) reads = (out1, fs1, True)"
      and eq: "out' = apply_winsize out1 (a_cols a) (a_rows a)" "fs = ?head @ fs1"
      using assms(1)
      by (auto simp: replay_alt_def force_tui_redraw_def send_frames_def Let_def
          split: if_splits prod.splits)
    have "session_of (stream @ concat reads) out1 \<and> fs1 = map Data reads"
      by (rule redraw_session [OF rd]) (simp add: assms(2))
    with eq head show ?thesis by (intro exI [of _ "concat reads"]) (simp add: view_data)
  qed
qed

lemma replay_notices_offset:
  assumes "list_all is_notice ns" and "off < 2 ^ 64"
  shows "v_offset (view_frames v (resume_frames off s @ ns)) = off"
  using assms by (simp add: view_notices resume_frames_view)

lemma replay_fresh_ok:
  assumes "replay_fresh k out a off = (out', fs, True)" and "session_of stream out"
  shows "session_of stream out' \<and> sb_lines (o_scrollback out') = []
    \<and> fs = resume_frames off (sync_sequence (o_modes out))
         @ [Notice ((if line_dirty a then clear_line else []) @ replay_divider (a_cols a) None)]
         @ scrubbed_frames (lines_and_partial (o_scrollback out))"
  using assms session_clear [of stream "apply_attach_size out a"]
  by (auto simp: replay_fresh_def Let_def dest!: send_frames_ok split: if_splits prod.splits)

lemma replay_clean_ok:
  assumes "replay_clean cw k out a off = (out', fs, True)"
  shows "out' = apply_attach_size out a
    \<and> fs = resume_frames (history_total (o_history out)) (sync_sequence (o_modes out))
         @ (if line_dirty a then [Notice (cursor_restore cw (o_history out) off (query_cols out))]
            else [])
         @ scrubbed_frames (slice_from (o_history out) off)"
  using assms
  by (auto simp: replay_clean_def Let_def dest!: send_frames_ok split: if_splits prod.splits)

lemma replay_truncated_ok:
  assumes "replay_truncated human k out a off dropped = (out', fs, True)"
  shows "out' = apply_attach_size out a
    \<and> fs = resume_frames (history_total (o_history out)) (sync_sequence (o_modes out))
         @ [Notice (leave_alt @ (if line_dirty a then clear_line else [0x0D, 0x0A])
              @ lost_marker human dropped)]
         @ scrubbed_frames (slice_from (o_history out) off)"
  using assms
  by (auto simp: replay_truncated_def Let_def dest!: send_frames_ok split: if_splits prod.splits)

lemma view_notice [simp]: "v_offset (view_frame v (Notice d)) = v_offset v"
  by (simp add: view_frame_def)

lemma notices_simps [simp]:
  "list_all is_notice (scrubbed_frames cs)" "is_notice (Notice d)" "payload (Notice d) = d"
  by (simp_all add: scrubbed_frames_def scrub_frames_notices is_notice_def payload_def)

text \<open>
  C9. The client's offset never drifts: whatever the session produced and whatever plan is
  chosen, a client that takes all the frames of the replay ends at the offset that is the
  length of the session's output, repaint bytes of a TUI read meanwhile included.
\<close>

theorem client_offset_tracks:
  assumes "send_reconnect_replay cw human k reads (foldl absorb (output_new cap win) chunks) a
      = (out', fs, True)"
    and "length (concat chunks) < 2 ^ 64"
  shows "v_offset (view_frames v fs) = history_total (o_history out')"
proof -
  let ?out = "foldl absorb (output_new cap win) chunks"
  have s: "session_of (concat chunks) ?out" by (rule session_run)
  show ?thesis
  proof (cases "plan_replay (rendered_offset a) (is_fresh_client a)
      (in_alternate_screen (o_alt ?out)) (history_base (o_history ?out))
      (history_total (o_history ?out))")
    case (AltRedraw off)
    then have "off = length (concat chunks)"
      using session_total [OF s] by (auto simp: plan_replay_def split: if_splits)
    then obtain produced where "session_of (concat chunks @ produced) out'"
      "v_offset (view_frames v fs) = length (concat chunks) + length produced"
      using AltRedraw assms replay_alt_ok [OF _ s]
      by (fastforce simp: send_reconnect_replay_def)
    then show ?thesis using session_total by fastforce
  next
    case (Fresh off)
    then have "off = length (concat chunks)"
      using session_total [OF s] by (auto simp: plan_replay_def split: if_splits)
    moreover have "replay_fresh k ?out a off = (out', fs, True)"
      using assms(1) Fresh by (simp add: send_reconnect_replay_def)
    note r = replay_fresh_ok [OF this s]
    from r have "session_of (concat chunks) out'" by blast
    ultimately show ?thesis
      using r assms(2) session_total [of "concat chunks" out']
      by (simp add: view_notices resume_frames_view)
  next
    case (Clean off)
    then have "replay_clean cw k ?out a off = (out', fs, True)"
      using assms(1) by (simp add: send_reconnect_replay_def)
    note r = replay_clean_ok [OF this]
    have "session_of (concat chunks) out'" using r s by simp
    then show ?thesis
      using r assms(2) session_total [OF s] session_total
      by (simp add: view_notices resume_frames_view)
  next
    case (Truncated off dropped)
    then have "replay_truncated human k ?out a off dropped = (out', fs, True)"
      using assms(1) by (simp add: send_reconnect_replay_def)
    note r = replay_truncated_ok [OF this]
    have "session_of (concat chunks) out'" using r s by simp
    then show ?thesis
      using r assms(2) session_total [OF s] session_total
      by (simp add: view_notices resume_frames_view)
  qed
qed

text \<open>
  C10. An incremental resume is exact: a client that comes back on the main screen with an
  offset \<open>R\<close> inside the stream is shown the mode restore sequence, the chrome of its case, and
  then precisely the bytes produced since \<open>R\<close> (since the ring's base when those before it are
  lost, with their number in the marker), minus the terminal queries among them.
\<close>

theorem resume_replays_exactly:
  fixes chunks cap win
  defines "out \<equiv> foldl absorb (output_new cap win) chunks"
  assumes "send_reconnect_replay cw human k reads out a = (out', fs, True)"
    and "\<not> in_alternate_screen (alt_scan alt_new (concat chunks))"
    and "\<not> is_fresh_client a" and "rendered_offset a \<le> length (concat chunks)"
  shows "let base = history_base (o_history out); r = rendered_offset a in
    v_rendered (view_frames v fs) = v_rendered v @ sync_sequence (o_modes out)
      @ (if r < base
         then leave_alt @ (if line_dirty a then clear_line else [0x0D, 0x0A])
                @ lost_marker human (base - r)
         else if line_dirty a then cursor_restore cw (o_history out) r (query_cols out) else [])
      @ strip_queries (drop (max base r) (concat chunks))
    \<and> o_history out' = o_history out \<and> o_scrollback out' = o_scrollback out"
proof -
  have s: "session_of (concat chunks) out" unfolding out_def by (rule session_run)
  then have h: "history_of (concat chunks) (o_history out)" by (simp add: session_of_def)
  have alt: "\<not> in_alternate_screen (o_alt out)"
    using assms(3) session_alt [OF s] by simp
  let ?b = "history_base (o_history out)" and ?r = "rendered_offset a"
  have tail: "strip_queries (concat (slice_from (o_history out) (max ?b ?r)))
      = strip_queries (drop (max ?b ?r) (concat chunks))"
    by (simp add: concat_slice_from [OF h])
  show ?thesis
  proof (cases "?r < ?b")
    case True
    then have "replay_truncated human k out a ?b (?b - ?r) = (out', fs, True)"
      using assms(2-5) alt session_total [OF s]
      by (simp add: send_reconnect_replay_def plan_replay_def)
    note r = replay_truncated_ok [OF this]
    from True have "max ?b ?r = ?b" by simp
    with r True tail show ?thesis
      by (simp add: Let_def view_rendered view_rendered_frame resume_frames_def payload_def scrubbed_payload)
  next
    case False
    then have "replay_clean cw k out a ?r = (out', fs, True)"
      using assms(2-5) alt session_total [OF s]
      by (simp add: send_reconnect_replay_def plan_replay_def)
    note r = replay_clean_ok [OF this]
    from False have "max ?b ?r = ?r" by simp
    with r False tail show ?thesis
      by (simp add: Let_def view_rendered view_rendered_frame resume_frames_def payload_def scrubbed_payload)
  qed
qed

text \<open>
  A fresh viewer gets context, not a resume: on the main screen a client that connects
  explicitly (or claims an offset beyond the stream) is shown the mode restore sequence, the
  divider, and the retained scrollback lines with the unfinished line minus their queries; the
  lines are then cleared and the unfinished line is kept for the next replay.
\<close>

theorem fresh_viewer_context:
  fixes chunks cap win
  defines "out \<equiv> foldl absorb (output_new cap win) chunks"
  assumes "send_reconnect_replay cw human k reads out a = (out', fs, True)"
    and "\<not> in_alternate_screen (alt_scan alt_new (concat chunks))"
    and "is_fresh_client a \<or> length (concat chunks) < rendered_offset a"
  shows "v_rendered (view_frames v fs) = v_rendered v @ sync_sequence (o_modes out)
      @ (if line_dirty a then clear_line else []) @ replay_divider (a_cols a) None
      @ strip_queries (concat (lines_and_partial (o_scrollback out)))
    \<and> sb_lines (o_scrollback out') = [] \<and> sb_partial (o_scrollback out') = sb_partial (o_scrollback out)"
proof -
  have s: "session_of (concat chunks) out" unfolding out_def by (rule session_run)
  have alt: "\<not> in_alternate_screen (o_alt out)"
    using assms(3) session_alt [OF s] by simp
  have fr: "replay_fresh k out a (length (concat chunks)) = (out', fs, True)"
    using assms(2,4) alt session_total [OF s]
    by (simp add: send_reconnect_replay_def plan_replay_def)
  have "sb_partial (o_scrollback out') = sb_partial (o_scrollback out)"
    using fr by (auto simp: replay_fresh_def Let_def scrollback_clear_def split: prod.splits)
  with replay_fresh_ok [OF fr s] show ?thesis
    by (simp add: view_rendered view_rendered_frame resume_frames_def payload_def scrubbed_payload)
qed

section \<open>A client that goes away during the replay\<close>

lemma redraw_fails: "redraw_loop k out cs = (out', fs, False) \<Longrightarrow> length fs = k"
  by (induction k out cs arbitrary: fs rule: redraw_loop.induct)
    (auto simp: Let_def split: nat.splits prod.splits)

lemma send_frames_fails: "send_frames k fs = (sent, False) \<Longrightarrow> length sent = k"
  by (auto simp: send_frames_def)

lemma send_frames_cases:
  "send_frames k fs = (sent, ok) \<Longrightarrow> ok \<and> sent = fs \<and> length fs \<le> k \<or> \<not> ok \<and> length sent = k"
  by (auto simp: send_frames_def)

lemma replay_alt_fails: "replay_alt k reads out a off = (out', fs, False) \<Longrightarrow> length fs = k"
  by (auto simp: replay_alt_def force_tui_redraw_def Let_def
      dest!: send_frames_cases redraw_fails split: if_splits prod.splits)

text \<open>
  A failed replay loses nothing: when the client's socket stops taking frames after the
  first \<open>k\<close>, exactly \<open>k\<close> frames went out, and on the main screen the history and the scrollback
  (which only a complete fresh replay clears) are what they were, so the next attach starts
  from the same material.
\<close>

theorem failed_replay_keeps_output:
  assumes "send_reconnect_replay cw human k reads out a = (out', fs, False)"
  shows "length fs = k
    \<and> (in_alternate_screen (o_alt out)
       \<or> o_history out' = o_history out \<and> o_scrollback out' = o_scrollback out
         \<and> o_modes out' = o_modes out)"
proof (cases "plan_replay (rendered_offset a) (is_fresh_client a) (in_alternate_screen (o_alt out))
    (history_base (o_history out)) (history_total (o_history out))")
  case (AltRedraw off)
  then have "in_alternate_screen (o_alt out)" by (auto simp: plan_replay_def split: if_splits)
  with AltRedraw assms show ?thesis
    using replay_alt_fails by (fastforce simp: send_reconnect_replay_def)
next
  case (Fresh off)
  with assms show ?thesis
    by (auto simp: send_reconnect_replay_def replay_fresh_def Let_def
        dest!: send_frames_cases split: if_splits prod.splits)
next
  case (Clean off)
  with assms show ?thesis
    by (auto simp: send_reconnect_replay_def replay_clean_def Let_def
        dest!: send_frames_cases split: prod.splits)
next
  case (Truncated off dropped)
  with assms show ?thesis
    by (auto simp: send_reconnect_replay_def replay_truncated_def Let_def
        dest!: send_frames_cases split: prod.splits)
qed

section \<open>The forced repaint\<close>

lemma unat_pred: "c \<noteq> 0 \<Longrightarrow> unat (c - 1 :: u16) = unat c - 1"
  by (simp add: unat_minus_one)

lemma unat_clamp: "unat (min (max c 1) (10000 :: u16)) = min (max (unat c) 1) 10000"
  by (simp add: min_def max_def word_le_nat_alt)

text \<open>
  When the repaint is really forced: the size applied first differs from the client's size
  (so that the TUI sees a change) exactly when the rows are between 2 and 10000, or the rows
  are at most one and the columns between 2 and 10000.  Beyond 10000 rows both sizes are
  clamped to the same one, and no change of size happens.
\<close>

theorem nudge_changes_size_iff:
  "(case nudge_size c r of (nc, nr) \<Rightarrow> clamp_winsize nc nr \<noteq> clamp_winsize c r)
     \<longleftrightarrow> (if r \<le> 1 then 2 \<le> c \<and> c \<le> 10000 else r \<le> 10000)"
proof (cases "r \<le> 1")
  case True
  show ?thesis
  proof (cases "2 \<le> c")
    case True
    then have "c \<noteq> 0" "2 \<le> unat c" by (auto simp: word_le_nat_alt)
    with \<open>r \<le> 1\<close> True show ?thesis
      by (simp add: nudge_size_def clamp_winsize_def word_unat_eq_iff unat_clamp unat_pred
          word_le_nat_alt) (simp add: max_def min_def word_le_nat_alt unat_pred, arith)
  next
    case False
    have "unat r = 0 \<or> unat r = 1" using \<open>r \<le> 1\<close> by (simp add: word_le_nat_alt) arith
    then have "r = 0 \<or> r = 1" by (simp add: word_unat_eq_iff)
    with False show ?thesis by (auto simp: nudge_size_def clamp_winsize_def)
  qed
next
  case False
  then have "r \<noteq> 0" "2 \<le> unat r" by (auto simp: word_le_nat_alt)
  with False show ?thesis
    by (simp add: nudge_size_def clamp_winsize_def word_unat_eq_iff unat_clamp unat_pred
        word_le_nat_alt) (simp add: max_def min_def word_le_nat_alt unat_pred, arith)
qed

end
