(* ===== verification/Replay_Modes.thy ===== *)
theory Replay_Modes
  imports Replay_Proofs
begin

text \<open>
  The terminal after a resume.  The server sends the mode restore sequence before the replayed
  tail, and the tail without its queries; this theory shows that the client's terminal still
  ends in the modes the session's tracker holds.
\<close>

section \<open>Mode events of a stream\<close>

definition mode_events :: "PrivateModeScanner \<Rightarrow> byte list \<Rightarrow> ModeEvent list" where
  "mode_events s bs = snd (scan_modes s bs)"

lemma mode_events_simps [simp]:
  "mode_events s [] = []"
  "mode_events s (b # bs) = snd (scan_step s b) @ mode_events (fst (scan_step s b)) bs"
  by (simp_all add: mode_events_def split_beta)

lemma mode_events_append:
  "mode_events s (xs @ ys) = mode_events s xs @ mode_events (fst (scan_modes s xs)) ys"
  by (simp add: mode_events_def mode_scanner.scan_append split_beta)

text \<open>Two scanners that a byte cannot tell apart.\<close>

definition same_scan :: "PrivateModeScanner \<Rightarrow> PrivateModeScanner \<Rightarrow> bool" where
  "same_scan s t \<longleftrightarrow> sstate s = sstate t \<and> length (modes s) = 16 \<and> length (modes t) = 16
     \<and> (sstate s = Params \<longrightarrow> partial_mode s = partial_mode t \<and> mode_count s = mode_count t
          \<and> mode_count s \<le> 16 \<and> take (mode_count s) (modes s) = take (mode_count t) (modes t))"

lemma same_ground:
  "sstate s = Ground \<Longrightarrow> sstate t = Ground \<Longrightarrow> length (modes s) = 16 \<Longrightarrow> length (modes t) = 16
     \<Longrightarrow> same_scan s t"
  by (simp add: same_scan_def)

lemma take_snoc_update:
  "k < length xs \<Longrightarrow> take (Suc k) (xs[k := v]) = take k xs @ [v]"
  by (simp add: take_Suc_conv_app_nth take_update_cancel)

lemma end_number_same:
  assumes "same_scan s t" and "sstate s = Params"
  shows "snd (end_mode_number s) = snd (end_mode_number t)
    \<and> (snd (end_mode_number s) = Params \<longrightarrow>
         same_scan (fst (end_mode_number s)) (fst (end_mode_number t))
         \<and> sstate (fst (end_mode_number s)) = Params)"
  using assms
  by (auto simp: end_mode_number_def same_scan_def Let_def take_snoc_update split: option.splits)

lemma same_length: "same_scan s t \<Longrightarrow> length (modes s) = 16 \<and> length (modes t) = 16"
  by (simp add: same_scan_def)

lemma same_scan_step:
  assumes "same_scan s t"
  shows "snd (scan_step s b) = snd (scan_step t b) \<and> same_scan (fst (scan_step s b)) (fst (scan_step t b))"
proof (cases "sstate s = Params \<and> b \<noteq> 0x1B")
  case False
  have st: "sstate t = sstate s" using assms by (simp add: same_scan_def)
  from False show ?thesis
    using assms same_length [OF assms]
    by (cases "sstate s") (auto simp: scan_step_def st same_scan_def)
next
  case True
  have st: "sstate t = Params" using assms True by (simp add: same_scan_def)
  note len = same_length [OF assms]
  consider "0x30 \<le> b \<and> b \<le> 0x39" | "b = 0x3B" | "b = 0x68 \<or> b = 0x6C"
    | "\<not> (0x30 \<le> b \<and> b \<le> 0x39)" "b \<notin> {0x3B, 0x68, 0x6C}" by blast
  then show ?thesis
  proof cases
    case 1
    then show ?thesis
      using True st assms
      by (auto simp: scan_step_def push_digit_def same_scan_def Let_def)
  next
    case 2
    then have "scan_step s b = (let (s', st) = end_mode_number s in (s'\<lparr>sstate := st\<rparr>, []))"
      "scan_step t b = (let (s', st) = end_mode_number t in (s'\<lparr>sstate := st\<rparr>, []))"
      using True st by (simp_all add: scan_step_def)
    then show ?thesis
      using True assms end_number_same [OF assms] scan_step_modes [of s b] scan_step_modes [of t b] len
      by (auto simp: split_beta same_scan_def)
  next
    case 3
    then have "\<not> (0x30 \<le> b \<and> b \<le> 0x39)" "b \<noteq> 0x3B" by auto
    with 3 True st have e: "scan_step u b = (let (u', st) = end_mode_number u in
         (u'\<lparr>sstate := Ground\<rparr>,
          if st = Params then map (\<lambda>mode. Changed mode (b = 0x68)) (take (mode_count u') (modes u'))
          else []))" if "sstate u = Params" for u
      using that by (auto simp: scan_step_def)
    have s': "sstate s = Params" using True by simp
    show ?thesis
      using assms end_number_same [OF assms s'] scan_step_modes [of s b] scan_step_modes [of t b] len
      by (simp add: e [OF s'] e [OF st] split_beta) (auto simp: same_scan_def)
  next
    case 4
    then show ?thesis using True st assms by (auto simp: scan_step_def same_scan_def)
  qed
qed

lemma same_scan_events: "same_scan s t \<Longrightarrow> mode_events s bs = mode_events t bs"
proof (induction bs arbitrary: s t)
  case (Cons b bs)
  show ?case using same_scan_step [OF Cons.prems, of b] Cons.IH by simp
qed simp

text \<open>
  Reading on from the middle of a sequence emits the events that reading from the ground state
  emits, after at most the one that completes the sequence.
\<close>

lemma events_from_anywhere:
  assumes "length (modes s) = 16" and "length (modes g) = 16" and "sstate g = Ground"
  shows "\<exists>pre. mode_events s bs = pre @ mode_events g bs"
  using assms
proof (induction bs arbitrary: s)
  case (Cons b bs)
  show ?case
  proof (cases "b = 0x1B")
    case True
    have "same_scan (s\<lparr>sstate := Esc\<rparr>) (g\<lparr>sstate := Esc\<rparr>)"
      using Cons.prems by (simp add: same_scan_def)
    with True show ?thesis
      using same_scan_events by (intro exI [of _ "[]"]) (simp add: scan_step_def)
  next
    case False
    then have "scan_step g b = (g, [])" using Cons.prems(3) by (simp add: scan_step_def)
    moreover obtain pre where "mode_events (fst (scan_step s b)) bs = pre @ mode_events g bs"
      using Cons.IH [of "fst (scan_step s b)"] Cons.prems by (auto simp: scan_step_modes)
    ultimately show ?thesis by (intro exI [of _ "snd (scan_step s b) @ pre"]) simp
  qed
qed simp

section \<open>Events and the last write\<close>

text \<open>What a list of events leaves in each tracked mode: a fixed value, or what was there.\<close>

lemma events_overwrite:
  "\<exists>f. \<forall>st i. length st = 16 \<longrightarrow> i < 16 \<longrightarrow>
     foldl apply_event st evs ! i = (case f i of Some v \<Rightarrow> v | None \<Rightarrow> st ! i)"
proof (induction evs rule: rev_induct)
  case Nil
  show ?case by (intro exI [of _ "\<lambda>_. None"]) simp
next
  case (snoc e evs)
  then obtain f where f: "\<And>st i. length st = 16 \<Longrightarrow> i < 16 \<Longrightarrow>
      foldl apply_event st evs ! i = (case f i of Some v \<Rightarrow> v | None \<Rightarrow> st ! i)"
    by blast
  show ?case
  proof (cases e)
    case FullReset
    then show ?thesis
      by (intro exI [of _ "\<lambda>i. Some (default_mode_states ! i)"]) (simp add: apply_event_def)
  next
    case (Changed m v)
    then show ?thesis
      by (intro exI [of _ "\<lambda>i. if number (TRACKED_MODES ! i) = m then Some v else f i"])
        (simp add: apply_changed_nth f)
  qed
qed

lemma events_idempotent:
  assumes "length st = 16"
  shows "foldl apply_event (foldl apply_event st evs) evs = foldl apply_event st evs"
proof (rule nth_equalityI)
  obtain f where f: "\<And>st i. length st = 16 \<Longrightarrow> i < 16 \<Longrightarrow>
      foldl apply_event st evs ! i = (case f i of Some v \<Rightarrow> v | None \<Rightarrow> st ! i)"
    using events_overwrite [of evs] by blast
  fix i assume "i < length (foldl apply_event (foldl apply_event st evs) evs)"
  then have "i < 16" using assms by simp
  with assms show "foldl apply_event (foldl apply_event st evs) evs ! i
      = foldl apply_event st evs ! i"
    by (simp add: f split: option.splits)
qed (simp add: assms)

section \<open>Events of the terminal items\<close>

definition at_ground :: "PrivateModeScanner \<Rightarrow> bool" where
  "at_ground s \<longleftrightarrow> sstate s = Ground \<and> length (modes s) = 16"

lemma ground_quiet:
  "sstate s = Ground \<Longrightarrow> 0x1B \<notin> set bs \<Longrightarrow> scan_modes s bs = (s, [])"
proof (induction bs)
  case (Cons b bs)
  then have "scan_step s b = (s, [])" by (auto simp: scan_step_def)
  with Cons show ?case by simp
qed simp

text \<open>Parameter bytes never emit and never leave a control sequence half-escaped.\<close>

lemma inner_quiet:
  assumes "list_all (\<lambda>b. 0x20 \<le> b \<and> b \<le> 0x3F) inner" and "sstate s \<noteq> Esc"
  shows "mode_events s inner = [] \<and> sstate (fst (scan_modes s inner)) \<noteq> Esc"
  using assms
proof (induction inner arbitrary: s)
  case (Cons b inner)
  have b: "b \<noteq> 0x1B" "b \<noteq> 0x68" "b \<noteq> 0x6C" using Cons.prems(1) by auto
  have "snd (scan_step s b) = [] \<and> sstate (fst (scan_step s b)) \<noteq> Esc"
    using b Cons.prems(2)
    by (auto simp: scan_step_def push_digit_def end_mode_number_def Let_def split: option.splits)
  with Cons show ?case by (simp add: split_beta)
qed simp

lemma final_to_ground:
  assumes "sstate s \<noteq> Esc" and "0x40 \<le> fin" and "fin \<le> 0x7E"
  shows "sstate (fst (scan_step s fin)) = Ground"
    and "fin \<noteq> 0x68 \<and> fin \<noteq> 0x6C \<Longrightarrow> snd (scan_step s fin) = []"
proof -
  have "64 \<le> unat fin" using assms(2) by (simp add: word_le_nat_alt)
  then have "fin \<noteq> 0x1B" "fin \<noteq> 0x3F" "\<not> fin \<le> 0x39" "fin \<noteq> 0x3B"
    by (auto simp: word_le_nat_alt)
  with assms(1) show "sstate (fst (scan_step s fin)) = Ground"
    and "fin \<noteq> 0x68 \<and> fin \<noteq> 0x6C \<Longrightarrow> snd (scan_step s fin) = []"
    by (auto simp: scan_step_def split_beta)
qed

lemma scan_state_append:
  "fst (scan_modes s (xs @ ys)) = fst (scan_modes (fst (scan_modes s xs)) ys)"
  by (simp add: mode_scanner.scan_append split_beta)

lemma scan_esc_two:
  "scan_modes s [0x1B, 0x5B] = (s\<lparr>sstate := Csi\<rparr>, [])"
  "b \<noteq> 0x1B \<Longrightarrow> b \<noteq> 0x5B \<Longrightarrow>
     scan_modes s [0x1B, b] = (s\<lparr>sstate := Ground\<rparr>, if b = 0x63 then [FullReset] else [])"
  by (simp_all add: scan_step_def)

lemma query_final: "is_csi_query inner fin \<Longrightarrow> fin \<noteq> 0x68 \<and> fin \<noteq> 0x6C"
  by (auto simp: is_csi_query_def Let_def)

lemma item_scan:
  assumes "wf_item i" and "at_ground s"
  shows "at_ground (fst (scan_modes s (render i))) \<and> (is_query i \<longrightarrow> mode_events s (render i) = [])"
proof -
  have len: "length (modes (fst (scan_modes s (render i)))) = 16"
    using assms(2) by (simp add: scan_modes_length at_ground_def)
  have "sstate (fst (scan_modes s (render i))) = Ground
    \<and> (is_query i \<longrightarrow> mode_events s (render i) = [])"
  proof (cases i)
    case (Plain b)
    with assms show ?thesis using ground_quiet [of s "[b]"] by (simp add: at_ground_def)
  next
    case (CsiSeq inner fin)
    let ?s = "s\<lparr>sstate := Csi\<rparr>"
    have q: "mode_events ?s inner = []" "sstate (fst (scan_modes ?s inner)) \<noteq> Esc"
      using inner_quiet [of inner ?s] assms(1) CsiSeq by simp_all
    have "scan_modes s (render i) = scan_modes s ([0x1B, 0x5B] @ (inner @ [fin]))"
      using CsiSeq by simp
    also have "\<dots> = scan_modes ?s (inner @ [fin])"
      unfolding mode_scanner.scan_append [of s "[0x1B, 0x5B]"] scan_esc_two by (simp add: split_beta)
    finally have r: "scan_modes s (render i) = scan_modes ?s (inner @ [fin])" .
    show ?thesis
      unfolding mode_events_def r
      using q final_to_ground [OF q(2), of fin] query_final [of inner fin] assms(1) CsiSeq
      by (auto simp: mode_scanner.scan_append mode_events_def split_beta)
  next
    case (StringSeq k body bel)
    have kb: "kind_byte k \<noteq> 0x1B" "kind_byte k \<noteq> 0x5B" "kind_byte k \<noteq> 0x63"
      by (cases k; simp add: kind_byte_def)+
    have body: "0x1B \<notin> set body" using assms(1) StringSeq by (auto simp: list_all_iff)
    have "scan_modes s (render i) = scan_modes s ([0x1B, kind_byte k] @ (body
        @ (if bel then [0x07] else [0x1B, 0x5C])))"
      using StringSeq by simp
    also have "\<dots> = (s\<lparr>sstate := Ground\<rparr>, [])"
      unfolding mode_scanner.scan_append [of s "[0x1B, kind_byte k]"]
        scan_esc_two(2) [OF kb(1,2)]
      using kb(3) ground_quiet [of "s\<lparr>sstate := Ground\<rparr>" body] body
        ground_quiet [of "s\<lparr>sstate := Ground\<rparr>" "[0x07]"] scan_esc_two(2) [of "0x5C" "s\<lparr>sstate := Ground\<rparr>"]
      by (simp add: mode_scanner.scan_append del: scan_modes.simps)
    finally show ?thesis by (simp add: mode_events_def)
  next
    case (EscSeq b)
    with assms show ?thesis using scan_esc_two(2) [of b s]
      by (auto simp: mode_events_def simp del: scan_modes.simps)
  qed
  with len show ?thesis by (simp add: at_ground_def)
qed

lemma ground_events: "at_ground s \<Longrightarrow> at_ground t \<Longrightarrow> mode_events s bs = mode_events t bs"
  by (rule same_scan_events) (simp add: at_ground_def same_ground)

lemma unqueried_events:
  assumes "list_all wf_item items" and "at_ground s"
  shows "mode_events s (concat (map render (filter (\<lambda>i. \<not> is_query i) items)))
    = mode_events s (concat (map render items))"
  using assms
proof (induction items arbitrary: s)
  case (Cons i items)
  let ?s = "fst (scan_modes s (render i))"
  have i: "at_ground ?s" "is_query i \<Longrightarrow> mode_events s (render i) = []"
    using item_scan [of i s] Cons.prems by auto
  have IH: "mode_events ?s (concat (map render (filter (\<lambda>i. \<not> is_query i) items)))
      = mode_events ?s (concat (map render items))"
    using Cons i(1) by simp
  show ?case
  proof (cases "is_query i")
    case True
    with IH i ground_events [OF Cons.prems(2) i(1)] show ?thesis
      by (simp add: mode_events_append del: render.simps)
  next
    case False
    with IH show ?thesis by (simp add: mode_events_append del: render.simps)
  qed
qed simp

section \<open>After the restore sequence\<close>

lemma wanted_some: "length st = 16 \<Longrightarrow> wanted_numbers st False \<noteq> [] \<or> wanted_numbers st True \<noteq> []"
  using wanted_numbers_iff [of st 0 False] wanted_numbers_iff [of st 0 True]
  by (cases "st ! 0") auto

lemma sync_part_ground:
  assumes "length (modes s) = 16" and "wanted_numbers st w \<noteq> [] \<or> sstate s = Ground"
  shows "at_ground (fst (scan_modes s (sync_part st w)))"
proof (cases "wanted_numbers st w = []")
  case False
  have "(if w then 0x68 else 0x6C :: byte) = 0x68 \<or> (if w then 0x68 else 0x6C :: byte) = 0x6C"
    by simp
  from scan_sequence [OF False length_wanted assms(1) this] False show ?thesis
    by (auto simp: sync_part_def Let_def at_ground_def)
qed (use assms in \<open>simp add: sync_part_def at_ground_def\<close>)

lemma sync_ground:
  assumes "length (modes s) = 16" and "tracker_ok t"
  shows "at_ground (fst (scan_modes s (sync_sequence t)))"
proof -
  let ?s = "fst (scan_modes s (sync_part (is_set t) False))"
  have "length (modes ?s) = 16" by (simp add: scan_modes_length assms(1))
  moreover have "wanted_numbers (is_set t) True \<noteq> [] \<or> sstate ?s = Ground"
    using wanted_some [of "is_set t"] sync_part_ground [of s "is_set t" False] assms
    by (auto simp: tracker_ok_def at_ground_def)
  ultimately have "at_ground (fst (scan_modes ?s (sync_part (is_set t) True)))"
    by (rule sync_part_ground)
  then show ?thesis by (simp add: sync_sequence_parts scan_state_append)
qed

lemma tracker_is_set:
  "is_set (tracker_scan t bs) = foldl apply_event (is_set t) (mode_events (tscanner t) bs)"
  by (simp add: tracker_scan_def mode_events_def split_beta)

lemma tracker_scanner: "tscanner (tracker_scan t bs) = fst (scan_modes (tscanner t) bs)"
  by (simp add: tracker_scan_def split_beta)

lemma scanner_new_ground: "at_ground scanner_new"
  by (simp add: at_ground_def scanner_new_def)

lemma finish_new: "filter_finish filter_new = []"
  by (simp add: filter_finish_def filter_new_def)

lemma replayed_modes:
  fixes before items
  assumes "tracker_ok t0" and "list_all wf_item items"
  defines "t \<equiv> tracker_scan tracker_new (before @ concat (map render items))"
  shows "is_set (tracker_scan t0 (sync_sequence t @ strip_queries (concat (map render items))))
    = is_set t"
proof -
  let ?tail = "concat (map render items)" and ?t1 = "tracker_scan tracker_new before"
  have ok: "tracker_ok t" "tracker_ok ?t1" unfolding t_def by (rule tracker_ok_reachable)+
  let ?es = "mode_events scanner_new ?tail"
  have strip: "strip_queries ?tail = concat (map render (filter (\<lambda>i. \<not> is_query i) items))"
    by (simp add: strip_queries_def scrub_items [OF assms(2)] finish_new)
  have len: "length (is_set ?t1) = 16" "length (modes (tscanner ?t1)) = 16"
    using ok(2) by (simp_all add: tracker_ok_def)
  obtain pre where "mode_events (tscanner ?t1) ?tail = pre @ ?es"
    using events_from_anywhere [OF len(2)] scanner_new_ground by (auto simp: at_ground_def)
  then have t: "is_set t = foldl apply_event (foldl apply_event (is_set ?t1) pre) ?es"
    unfolding t_def by (simp add: term_tracker.scan_append tracker_is_set)
  let ?t2 = "tracker_scan t0 (sync_sequence t)"
  have g: "at_ground (tscanner ?t2)"
    using assms(1) sync_ground [OF _ ok(1)] by (simp add: tracker_scanner tracker_ok_def)
  have "mode_events (tscanner ?t2) (strip_queries ?tail) = ?es"
    unfolding strip unqueried_events [OF assms(2) g] by (rule ground_events [OF g scanner_new_ground])
  then have "is_set (tracker_scan ?t2 (strip_queries ?tail)) = foldl apply_event (is_set t) ?es"
    unfolding tracker_is_set [of ?t2] by (simp add: tracker_sync [OF ok(1) assms(1)])
  also have "\<dots> = is_set t" unfolding t by (rule events_idempotent) (simp add: len)
  finally show ?thesis by (simp add: term_tracker.scan_append)
qed


end
