(* ===== verification/Replay_Witnesses.thy ===== *)
theory Replay_Witnesses
  imports Replay_Modes
begin

text \<open>
  The replay theorems applied to one small session: the output \<open>a\<close>, newline, \<open>b\<close>, DA1 query,
  \<open>c\<close> in two chunks, a client that had seen the first two bytes, one that connects afresh,
  and one whose socket takes a single frame.
\<close>

abbreviation (input) shown :: "byte list list" where
  "shown \<equiv> [[0x61, 0x0A], [0x62, 0x1B, 0x5B, 0x63, 0x63]]"

abbreviation (input) session :: Output where
  "session \<equiv> foldl absorb (output_new 1024 (80, 24)) shown"

abbreviation (input) request :: "nat \<Rightarrow> bool \<Rightarrow> Attach_request" where
  "request off fresh \<equiv> \<lparr>rendered_offset = off, line_dirty = False, is_fresh_client = fresh,
     a_cols = 80, a_rows = 24\<rparr>"

abbreviation (input) replay :: "nat \<Rightarrow> Attach_request \<Rightarrow> Output \<times> Frame list \<times> bool" where
  "replay k a \<equiv> send_reconnect_replay (\<lambda>_. Some 1) (\<lambda>_. []) k [] session a"

lemma shown_alt: "\<not> in_alternate_screen (alt_scan alt_new (concat shown))"
  by (simp add: in_alternate_screen_def alt_scan_def alt_new_def scanner_new_def scan_step_def)

lemma session_facts:
  "\<not> in_alternate_screen (o_alt session)" "history_total (o_history session) = 7"
  "history_base (o_history session) = 0"
proof -
  have s: "session_of (concat shown) session" by (rule session_run)
  show "\<not> in_alternate_screen (o_alt session)" using session_alt [OF s] shown_alt by simp
  show "history_total (o_history session) = 7" using session_total [OF s] by simp
  show "history_base (o_history session) = 0"
    by (simp add: history_base_def absorb_def output_new_def history_new_def history_push_def
        evict_stop Let_def)
qed

lemma scrub_frames_length: "length (scrub_frames q cs) \<le> Suc (length cs)"
proof (induction cs arbitrary: q)
  case (Cons c cs)
  show ?case using Cons [of "fst (scrub q c)"] by (simp add: split_beta)
qed simp

lemma slice_chunks_length: "length (slice_chunks cs n) \<le> length cs"
  by (induction cs n rule: slice_chunks.induct) auto

lemma clean_sent:
  assumes "\<not> in_alternate_screen (o_alt out)" and "history_total (o_history out) = 7"
    and "history_base (o_history out) = 0" and "length (hchunks (o_history out)) = 2"
  shows "snd (snd (send_reconnect_replay cw human 9 reads out (request 2 False)))"
proof -
  have "length (scrubbed_frames (slice_from (o_history out) 2)) \<le> 3"
    using scrub_frames_length [of filter_new "slice_from (o_history out) 2"]
      slice_chunks_length [of "hchunks (o_history out)" 2] assms(3,4)
    by (simp add: scrubbed_frames_def slice_from_def)
  then show ?thesis
    using assms(1-3)
    by (simp add: send_reconnect_replay_def plan_replay_def replay_clean_def send_frames_def
        resume_frames_def Let_def)
qed

lemma session_chunk_count: "length (hchunks (o_history session)) = 2"
  by (simp add: absorb_def output_new_def history_new_def history_push_def evict_stop Let_def)

lemma sent_triple: "snd (snd p) = ok \<Longrightarrow> \<exists>a b. p = (a, b, ok)"
  by (cases p) auto

lemma clean_result: "\<exists>out' fs. replay 9 (request 2 False) = (out', fs, True)"
  by (rule sent_triple) (simp only: clean_sent [OF session_facts session_chunk_count])

lemma fresh_sent:
  assumes "\<not> in_alternate_screen (o_alt out)"
  shows "snd (snd (send_reconnect_replay cw human 100 reads out (request 2 True)))
    = (length (lines_and_partial (o_scrollback out)) \<le> 96
       \<or> length (scrubbed_frames (lines_and_partial (o_scrollback out))) \<le> 97)"
proof -
  have "length (scrubbed_frames (lines_and_partial (o_scrollback out)))
      \<le> Suc (length (lines_and_partial (o_scrollback out)))"
    by (simp add: scrubbed_frames_def scrub_frames_length)
  then show ?thesis
    using assms
    by (auto simp: send_reconnect_replay_def plan_replay_def replay_fresh_def send_frames_def
        resume_frames_def Let_def)
qed

lemma lines_bound: "scrollback_bounded sb \<Longrightarrow> length (lines_and_partial sb) \<le> 51"
  by (simp add: scrollback_bounded_def lines_and_partial_def)

lemma fresh_result: "\<exists>out' fs. replay 100 (request 2 True) = (out', fs, True)"
proof (rule sent_triple)
  have "session_of (concat shown) session" by (rule session_run)
  then have "length (lines_and_partial (o_scrollback session)) \<le> 51"
    by (intro lines_bound) (simp only: session_of_def)
  then show "snd (snd (replay 100 (request 2 True))) = True"
    unfolding fresh_sent [OF session_facts(1)] by (simp only: simp_thms) linarith
qed

lemma short_sent:
  assumes "\<not> in_alternate_screen (o_alt out)" and "history_total (o_history out) = 7"
    and "history_base (o_history out) = 0"
  shows "snd (snd (send_reconnect_replay cw human 1 reads out (request 2 False))) = False"
  using assms
  by (simp add: send_reconnect_replay_def plan_replay_def replay_clean_def send_frames_def
      resume_frames_def Let_def)

lemma short_result: "\<exists>out' fs. replay 1 (request 2 False) = (out', fs, False)"
  by (rule sent_triple) (rule short_sent [OF session_facts])

section \<open>Witnesses\<close>

abbreviation (input) viewer :: Viewer where
  "viewer \<equiv> \<lparr>v_offset = 2, v_rendered = [], v_alt = alt_new\<rparr>"

theorem client_offset_tracks_witness:
  "\<exists>out' fs. replay 9 (request 2 False) = (out', fs, True)
     \<and> v_offset (view_frames viewer fs) = history_total (o_history out')"
proof -
  obtain out' fs where r: "replay 9 (request 2 False) = (out', fs, True)"
    using clean_result by blast
  have "v_offset (view_frames viewer fs) = history_total (o_history out')"
    by (rule client_offset_tracks [OF r]) simp
  with r show ?thesis by blast
qed

theorem resume_replays_exactly_witness:
  "\<exists>out' fs. replay 9 (request 2 False) = (out', fs, True)
     \<and> v_rendered (view_frames viewer fs) = sync_sequence (o_modes session) @ [0x62, 0x63]"
proof -
  obtain out' fs where r: "replay 9 (request 2 False) = (out', fs, True)"
    using clean_result by blast
  have "strip_queries [0x62, 0x1B, 0x5B, 0x63, 0x63] = [0x62, 0x63]"
    by (simp add: strip_queries_def filter_new_def filter_step_def step_arms is_csi_query_def
        filter_finish_def)
  then have "v_rendered (view_frames viewer fs) = sync_sequence (o_modes session) @ [0x62, 0x63]"
    using resume_replays_exactly [OF r shown_alt, of viewer] session_facts(3)
    by (simp add: Let_def del: foldl.simps)
  with r show ?thesis by blast
qed

theorem fresh_viewer_context_witness:
  "\<exists>out' fs. replay 100 (request 2 True) = (out', fs, True) \<and> sb_lines (o_scrollback out') = []"
proof -
  obtain out' fs where r: "replay 100 (request 2 True) = (out', fs, True)"
    using fresh_result by blast
  have "sb_lines (o_scrollback out') = []"
    using fresh_viewer_context [OF r shown_alt] by simp
  with r show ?thesis by blast
qed

theorem failed_replay_keeps_output_witness:
  "\<exists>out' fs. replay 1 (request 2 False) = (out', fs, False) \<and> length fs = 1
     \<and> o_history out' = o_history session"
proof -
  obtain out' fs where r: "replay 1 (request 2 False) = (out', fs, False)"
    using short_result by blast
  show ?thesis
    using failed_replay_keeps_output [OF r] r session_facts(1) by blast
qed


end
