(* ===== verification/File_Transfer.thy ===== *)
theory File_Transfer
  imports Scanners Protocol
begin

text \<open>
  File transfer, the daemon's side (\<open>src/src/server.rs\<close>) and the commands' side
  (\<open>src/src/commands/transfer.rs\<close>): file names, the sender's manifest, the relay task, the
  receive stream, and the rendezvous of senders and receivers.  A stream that is read is the
  list of bytes it will deliver before its end; a stream that is written takes a number of
  \<open>write_all\<close> calls and fails from then on.
\<close>

section \<open>File names\<close>

text \<open>\<open>std::path::Path::components\<close> on Unix, over the bytes of the name.\<close>

datatype component = RootDir | CurDir | ParentDir | Normal rstring

fun piece_components :: "bool \<Rightarrow> rstring list \<Rightarrow> component list" where
  "piece_components first [] = []"
| "piece_components first (p # ps) =
     (if p = [] then []
      else if p = [0x2E] then (if first then [CurDir] else [])
      else if p = [0x2E, 0x2E] then [ParentDir]
      else [Normal p]) @ piece_components False ps"

definition path_components :: "rstring \<Rightarrow> component list" where
  "path_components s =
     (let pieces = split_on (\<lambda>c. c = 0x2F) s in
      if starts_with s [0x2F] then RootDir # piece_components False pieces
      else piece_components True pieces)"

definition is_normal :: "component \<Rightarrow> bool" where
  "is_normal c \<longleftrightarrow> (case c of Normal _ \<Rightarrow> True | _ \<Rightarrow> False)"

definition sanitize_filename :: "rstring \<Rightarrow> rstring option" where
  "sanitize_filename nm =
     (if nm = [] \<or> 0 \<in> set nm \<or> 0x5C \<in> set nm then None
      else if list_ex (\<lambda>c. \<not> is_normal c) (path_components nm) then None
      else if path_components nm \<noteq> [] then Some nm else None)"

datatype xfer_error = UnexpectedEof | InvalidData rstring | BadPath rstring

definition sanitize_path :: "rstring \<Rightarrow> (xfer_error, rstring) res" where
  "sanitize_path nm =
     (if starts_with nm [0x2F] then Err (BadPath (ascii ''absolute path not allowed''))
      else if list_ex (\<lambda>c. c = ParentDir \<or> c = RootDir) (path_components nm)
        then Err (BadPath (ascii ''not allowed in path''))
      else if nm = [] then Err (BadPath (ascii ''empty path''))
      else Ok nm)"

section \<open>The manifest\<close>

definition read_exact :: "nat \<Rightarrow> byte list \<Rightarrow> (xfer_error, byte list \<times> byte list) res" where
  "read_exact n bs = (if n \<le> length bs then Ok (take n bs, drop n bs) else Err UnexpectedEof)"

text \<open>A file of the manifest: name, size, mode.\<close>

type_synonym entry = "rstring \<times> u64 \<times> u32"

text \<open>
  \<open>write_send_manifest\<close>; the header the relay writes for a file is the same bytes.
\<close>

definition entry_bytes :: "entry \<Rightarrow> byte list" where
  "entry_bytes e =
     (case e of (nm, sz, mode) \<Rightarrow>
        put_u16 (word_of_nat (length nm)) @ nm @ put_u64 sz @ put_u32 mode)"

definition write_send_manifest :: "entry list \<Rightarrow> byte list" where
  "write_send_manifest es = put_u32 (word_of_nat (length es)) @ concat (map entry_bytes es)"

definition parse_name :: "byte list \<Rightarrow> (xfer_error, rstring \<times> byte list) res" where
  "parse_name bs =
     rbind (read_exact 2 bs) (\<lambda>(b2, bs).
       let name_len = be_nat b2 in
       if name_len = 0 \<or> 4096 < name_len
       then Err (InvalidData (ascii ''invalid filename length''))
       else rbind (read_exact name_len bs) (\<lambda>(nm, bs).
         if \<not> utf8_valid nm then Err (InvalidData (ascii ''utf8''))
         else (case sanitize_filename nm of
             None \<Rightarrow> Err (InvalidData (ascii ''invalid filename''))
           | Some nm \<Rightarrow> Ok (nm, bs))))"

definition read_meta :: "byte list \<Rightarrow> (xfer_error, (u64 \<times> u32) \<times> byte list) res" where
  "read_meta bs =
     rbind (read_exact 8 bs) (\<lambda>(b8, bs). rbind (read_exact 4 bs) (\<lambda>(b4, bs).
       Ok ((word_of_nat (be_nat b8), word_of_nat (be_nat b4)), bs)))"

fun parse_entries ::
  "nat \<Rightarrow> byte list \<Rightarrow> (xfer_error, entry list \<times> byte list) res" where
  "parse_entries 0 bs = Ok ([], bs)"
| "parse_entries (Suc n) bs =
     rbind (parse_name bs) (\<lambda>(nm, bs). rbind (read_meta bs) (\<lambda>((sz, mode), bs).
       rbind (parse_entries n bs) (\<lambda>(es, bs). Ok ((nm, sz, mode) # es, bs))))"

definition parse_sender_manifest ::
  "byte list \<Rightarrow> (xfer_error, entry list \<times> byte list) res" where
  "parse_sender_manifest bs =
     rbind (read_exact 4 bs) (\<lambda>(b4, bs).
       let file_count = be_nat b4 in
       if file_count = 0 \<or> 10000 < file_count
       then Err (InvalidData (ascii ''invalid file count''))
       else parse_entries file_count bs)"

text \<open>\<open>parse_receiver_dest\<close>: up to a newline or the end, at most 4096 bytes.\<close>

fun receiver_dest :: "byte list \<Rightarrow> byte list \<Rightarrow> (xfer_error, rstring) res" where
  "receiver_dest buf [] = (if utf8_valid buf then Ok buf else Err (InvalidData (ascii ''utf8'')))"
| "receiver_dest buf (b # bs) =
     (if b = 0x0A then
        (if utf8_valid buf then Ok buf else Err (InvalidData (ascii ''utf8'')))
      else if 4096 < length (buf @ [b]) then Err (InvalidData (ascii ''dest dir too long''))
      else receiver_dest (buf @ [b]) bs)"

definition parse_receiver_dest :: "byte list \<Rightarrow> (xfer_error, rstring) res" where
  "parse_receiver_dest bs = receiver_dest [] bs"

section \<open>The relay\<close>

abbreviation (input) COPY_BUF :: nat where "COPY_BUF \<equiv> 65536"

datatype relay_end = Relayed | SenderGone | ReceiverGone

text \<open>
  \<open>relay_data\<close> is the inner loop over one file: it returns what was written, what is left of
  the sender's bytes and of the writes, and how it ended.
\<close>

function relay_data ::
  "nat \<Rightarrow> nat \<Rightarrow> byte list \<Rightarrow> byte list \<times> byte list \<times> nat \<times> relay_end" where
  "relay_data k remaining src =
     (if remaining = 0 then ([], src, k, Relayed)
      else
        (let n = min remaining COPY_BUF in
         if length src < n then ([], [], k, SenderGone)
         else if k = 0 then ([], drop n src, 0, ReceiverGone)
         else
           (let (out, src', k', e) = relay_data (k - 1) (remaining - n) (drop n src)
            in (take n src @ out, src', k', e))))"
  by pat_completeness auto

termination
  by (relation "measure (\<lambda>(_, remaining, _). remaining)") (auto simp: min_def)

declare relay_data.simps [simp del]

fun relay_files ::
  "nat \<Rightarrow> entry list \<Rightarrow> byte list \<Rightarrow> byte list \<times> byte list \<times> nat \<times> relay_end" where
  "relay_files k [] src = ([], src, k, Relayed)"
| "relay_files k (e # es) src =
     (if k = 0 then ([], src, 0, ReceiverGone)
      else
        (case relay_data (k - 1) (unat (fst (snd e))) src of
           (out, src', k', Relayed) \<Rightarrow>
             (let (out', src'', k'', fin) = relay_files k' es src'
              in (entry_bytes e @ out @ out', src'', k'', fin))
         | (out, src', k', fin) \<Rightarrow> (entry_bytes e @ out, src', k', fin)))"

definition total_bytes :: "entry list \<Rightarrow> u64" where
  "total_bytes es = sum_list (map (\<lambda>e. fst (snd e)) es)"

record RelayResult =
  to_receiver :: "byte list"
  go_sent :: bool
  notified :: "Frame list"

definition cancel_frame :: "relay_end \<Rightarrow> Frame" where
  "cancel_frame e = SendCancel (if e = SenderGone then ascii ''sender disconnected''
     else ascii ''receiver disconnected'')"

text \<open>
  \<open>spawn_transfer_relay\<close>: \<open>go\<close> tells whether the go byte could be written to the sender, \<open>k\<close>
  how many writes the receiver takes.
\<close>

definition transfer_relay :: "bool \<Rightarrow> nat \<Rightarrow> entry list \<Rightarrow> byte list \<Rightarrow> RelayResult" where
  "transfer_relay go k es src =
     (let offer = SendOffer (word_of_nat (length es)) (total_bytes es) in
      if \<not> go then
        \<lparr>to_receiver = [], go_sent = False, notified = [offer, cancel_frame SenderGone]\<rparr>
      else if k = 0 then
        \<lparr>to_receiver = [], go_sent = True, notified = [offer, cancel_frame ReceiverGone]\<rparr>
      else
        (let count = put_u32 (word_of_nat (length es)) in
         case relay_files (k - 1) es src of
           (out, _, k', Relayed) \<Rightarrow>
             (if k' = 0 then
                \<lparr>to_receiver = count @ out, go_sent = True,
                 notified = [offer, cancel_frame ReceiverGone]\<rparr>
              else
                \<lparr>to_receiver = count @ out @ [0, 0], go_sent = True, notified = [offer, SendDone]\<rparr>)
         | (out, _, _, e) \<Rightarrow>
             \<lparr>to_receiver = count @ out, go_sent = True, notified = [offer, cancel_frame e]\<rparr>))"

section \<open>Receiving\<close>

definition read_entry_header ::
  "byte list \<Rightarrow> (xfer_error, entry option \<times> byte list) res" where
  "read_entry_header bs =
     rbind (read_exact 2 bs) (\<lambda>(b2, bs).
       let name_len = be_nat b2 in
       if name_len = 0 then Ok (None, bs)
       else rbind (read_exact name_len bs) (\<lambda>(nm, bs).
         if \<not> utf8_valid nm then Err (InvalidData (ascii ''utf8''))
         else rbind (sanitize_path nm) (\<lambda>nm. rbind (read_meta bs) (\<lambda>((sz, mode), bs).
           Ok (Some (nm, sz, mode), bs)))))"

text \<open>
  The loops of \<open>receive_to_writer\<close> and \<open>receive_to_dir\<close>: every file with its content, or the
  error.  Both copy exactly the announced size (in pieces of any length) or fail at the end of
  the stream.  Each round consumes the two bytes of a header at least.
\<close>

lemma read_exact_length: "read_exact n bs = Ok (a, r) \<Longrightarrow> length bs = n + length r \<and> length a = n"
  by (auto simp: read_exact_def split: if_splits)

lemma read_entry_header_length:
  "read_entry_header bs = Ok (h, r) \<Longrightarrow> length r < length bs"
  by (auto simp: read_entry_header_def read_meta_def rbind_Ok_iff Let_def split: if_splits
      dest!: read_exact_length)

function receive_files ::
  "byte list \<Rightarrow> (xfer_error, (entry \<times> byte list) list) res" where
  "receive_files bs =
     (case read_entry_header bs of
        Err e \<Rightarrow> Err e
      | Panic \<Rightarrow> Panic
      | Ok (None, _) \<Rightarrow> Ok []
      | Ok (Some e, r) \<Rightarrow>
          (case read_exact (unat (fst (snd e))) r of
             Err x \<Rightarrow> Err x
           | Panic \<Rightarrow> Panic
           | Ok (content, r') \<Rightarrow> rbind (receive_files r') (\<lambda>fs. Ok ((e, content) # fs))))"
  by pat_completeness auto

termination
  by (relation "measure length")
    (auto dest!: read_entry_header_length read_exact_length)

declare receive_files.simps [simp del]

definition receive_stream :: "byte list \<Rightarrow> (xfer_error, nat \<times> (entry \<times> byte list) list) res" where
  "receive_stream bs =
     rbind (read_exact 4 bs) (\<lambda>(b4, bs). rbind (receive_files bs) (\<lambda>fs. Ok (be_nat b4, fs)))"

end
