(* ===== verification/File_Transfer_Proofs.thy ===== *)
theory File_Transfer_Proofs
  imports File_Transfer
begin

text \<open>
  The manifest format is exact, names cannot leave the destination, and a transfer that
  reports its end has delivered every byte of every file.
\<close>

section \<open>Names\<close>

lemma sanitize_filename_id: "sanitize_filename nm = Some x \<Longrightarrow> x = nm"
  by (auto simp: sanitize_filename_def split: if_splits)

lemma sanitize_filename_facts:
  assumes "sanitize_filename nm = Some nm"
  shows "nm \<noteq> []" "list_all is_normal (path_components nm)" "path_components nm \<noteq> []"
    "\<not> starts_with nm [0x2F]"
proof -
  show n: "nm \<noteq> []" "list_all is_normal (path_components nm)" "path_components nm \<noteq> []"
    using assms by (auto simp: sanitize_filename_def list_all_iff list_ex_iff split: if_splits)
  show "\<not> starts_with nm [0x2F]"
    using n(2) by (auto simp: path_components_def Let_def is_normal_def)
qed

lemma sanitize_filename_path: "sanitize_filename nm = Some nm \<Longrightarrow> sanitize_path nm = Ok nm"
  using sanitize_filename_facts [of nm]
  by (auto simp: sanitize_path_def list_ex_iff list_all_iff is_normal_def)

text \<open>Where a path leads when it is resolved in a directory, component by component.\<close>

fun walk :: "rstring list \<Rightarrow> component list \<Rightarrow> rstring list" where
  "walk dir [] = dir"
| "walk dir (c # cs) =
     walk (case c of RootDir \<Rightarrow> [] | CurDir \<Rightarrow> dir | ParentDir \<Rightarrow> butlast dir
             | Normal p \<Rightarrow> dir @ [p]) cs"

lemma walk_normal:
  "list_all is_normal cs \<Longrightarrow> \<exists>ps. walk dir cs = dir @ ps \<and> length ps = length cs"
proof (induction cs arbitrary: dir)
  case (Cons c cs)
  then obtain p where c: "c = Normal p" by (cases c) (simp_all add: is_normal_def)
  obtain ps where "walk (dir @ [p]) cs = (dir @ [p]) @ ps" "length ps = length cs"
    using Cons by fastforce
  with c show ?case by simp
qed simp

lemma walk_inside:
  "list_all (\<lambda>c. c \<noteq> ParentDir \<and> c \<noteq> RootDir) cs \<Longrightarrow> \<exists>ps. walk dir cs = dir @ ps"
proof (induction cs arbitrary: dir)
  case (Cons c cs)
  then have IH: "\<exists>ps. walk d cs = d @ ps" for d by simp
  show ?case
    using Cons.prems IH [of dir] by (cases c) (auto, use IH in \<open>metis append.assoc\<close>)
qed simp

text \<open>
  C12. A transferred file stays in the destination: a name the daemon accepts leads, from any
  directory, strictly below that directory; the receiver accepts every such name, and whatever
  name the receiver accepts never leads outside the directory.
\<close>

theorem accepted_names_stay_inside:
  "(case sanitize_filename nm of
      Some x \<Rightarrow> x = nm \<and> sanitize_path nm = Ok nm
        \<and> (\<exists>ps. ps \<noteq> [] \<and> walk dir (path_components nm) = dir @ ps)
    | None \<Rightarrow> True)
   \<and> (case sanitize_path nm of
        Ok x \<Rightarrow> x = nm \<and> (\<exists>ps. walk dir (path_components nm) = dir @ ps)
      | _ \<Rightarrow> True)"
proof (intro conjI)
  show "case sanitize_filename nm of
      Some x \<Rightarrow> x = nm \<and> sanitize_path nm = Ok nm
        \<and> (\<exists>ps. ps \<noteq> [] \<and> walk dir (path_components nm) = dir @ ps)
    | None \<Rightarrow> True"
  proof (cases "sanitize_filename nm")
    case (Some x)
    then have nm: "sanitize_filename nm = Some nm" "x = nm"
      by (auto simp: sanitize_filename_def split: if_splits)
    from walk_normal [OF sanitize_filename_facts(2) [OF nm(1)], of dir]
    obtain ps where "walk dir (path_components nm) = dir @ ps" "length ps = length (path_components nm)"
      by blast
    with nm sanitize_filename_facts(3) [OF nm(1)] show ?thesis
      by (auto simp: sanitize_filename_path)
  qed simp
  show "case sanitize_path nm of
        Ok x \<Rightarrow> x = nm \<and> (\<exists>ps. walk dir (path_components nm) = dir @ ps)
      | _ \<Rightarrow> True"
    using walk_inside [of "path_components nm" dir]
    by (auto simp: sanitize_path_def list_ex_iff list_all_iff)
qed

section \<open>The manifest\<close>

lemma read_exact_append [wire_simps]: "length xs = n \<Longrightarrow> read_exact n (xs @ ys) = Ok (xs, ys)"
  by (simp add: read_exact_def)

lemma read_exact_Ok: "read_exact n bs = Ok (a, r) \<longleftrightarrow> bs = a @ r \<and> length a = n"
  by (auto simp: read_exact_def)

lemma read_exact_no_panic [simp]: "read_exact n bs \<noteq> Panic"
  by (simp add: read_exact_def)

definition wf_entry :: "entry \<Rightarrow> bool" where
  "wf_entry e \<longleftrightarrow> length (fst e) \<le> 4096 \<and> utf8_valid (fst e)
     \<and> sanitize_filename (fst e) = Some (fst e)"

lemma entry_simps:
  "wf_entry (nm, sz, mode) \<longleftrightarrow>
     length nm \<le> 4096 \<and> utf8_valid nm \<and> sanitize_filename nm = Some nm"
  "entry_bytes (nm, sz, mode) =
     put_u16 (word_of_nat (length nm)) @ nm @ put_u64 sz @ put_u32 mode"
  by (simp_all add: wf_entry_def entry_bytes_def)

definition wf_manifest :: "entry list \<Rightarrow> bool" where
  "wf_manifest es \<longleftrightarrow> es \<noteq> [] \<and> length es \<le> 10000 \<and> list_all wf_entry es"

lemma be_nat_put_words:
  "be_nat (put_u16 a) = unat a" "be_nat (put_u32 b) = unat b" "be_nat (put_u64 c) = unat c"
  using unsigned_less [of a, where 'a = nat] unsigned_less [of b, where 'a = nat]
    unsigned_less [of c, where 'a = nat]
  by (simp_all add: put_u16_def put_u32_def put_u64_def)

lemma put_be_nat:
  "length bs = 2 \<Longrightarrow> put_u16 (word_of_nat (be_nat bs)) = bs"
  "length bs = 4 \<Longrightarrow> put_u32 (word_of_nat (be_nat bs)) = bs"
  "length bs = 8 \<Longrightarrow> put_u64 (word_of_nat (be_nat bs)) = bs"
  using be_nat_less [of bs] be_bytes_be_nat [of bs]
  by (simp_all add: put_u16_def put_u32_def put_u64_def unat_of_nat)

lemma rbind_readE:
  assumes "rbind (read_exact n bs) (\<lambda>(a, r). F a r) = Ok x"
  obtains a r where "bs = a @ r" "length a = n" "F a r = Ok x"
  using assms by (auto simp: rbind_Ok_iff read_exact_Ok)

lemma read_meta_Ok:
  "read_meta bs = Ok ((sz, mode), r) \<longleftrightarrow> bs = put_u64 sz @ put_u32 mode @ r"
proof
  assume "read_meta bs = Ok ((sz, mode), r)"
  then show "bs = put_u64 sz @ put_u32 mode @ r"
    by (auto simp: read_meta_def rbind_Ok_iff read_exact_Ok put_be_nat)
next
  assume "bs = put_u64 sz @ put_u32 mode @ r"
  then show "read_meta bs = Ok ((sz, mode), r)"
    by (simp add: read_meta_def read_exact_append be_nat_put_words)
qed

lemma name_length: "length nm \<le> 4096 \<Longrightarrow> be_nat (put_u16 (word_of_nat (length nm))) = length nm"
  by (simp only: be_nat_put_words) (simp add: unat_of_nat)

lemma parse_name_Ok:
  "parse_name bs = Ok (nm, r) \<longleftrightarrow>
     length nm \<le> 4096 \<and> utf8_valid nm \<and> sanitize_filename nm = Some nm
     \<and> bs = put_u16 (word_of_nat (length nm)) @ nm @ r"
proof
  assume "parse_name bs = Ok (nm, r)"
  then obtain b2 r1 where b2: "bs = b2 @ r1" "length b2 = 2"
    and k0: "(let name_len = be_nat b2 in
       if name_len = 0 \<or> 4096 < name_len
       then Err (InvalidData (ascii ''invalid filename length''))
       else rbind (read_exact name_len r1) (\<lambda>(nm, bs).
         if \<not> utf8_valid nm then Err (InvalidData (ascii ''utf8''))
         else (case sanitize_filename nm of
             None \<Rightarrow> Err (InvalidData (ascii ''invalid filename''))
           | Some nm \<Rightarrow> Ok (nm, bs)))) = Ok (nm, r)"
    unfolding parse_name_def by (elim rbind_readE)
  have le: "be_nat b2 \<le> 4096" and nz: "be_nat b2 \<noteq> 0"
    using k0 by (cases "be_nat b2 = 0 \<or> 4096 < be_nat b2"; simp add: Let_def)+
  have "\<not> (be_nat b2 = 0 \<or> 4096 < be_nat b2)" using le nz by simp
  then have k: "rbind (read_exact (be_nat b2) r1) (\<lambda>(nm, bs).
         if \<not> utf8_valid nm then Err (InvalidData (ascii ''utf8''))
         else (case sanitize_filename nm of
             None \<Rightarrow> Err (InvalidData (ascii ''invalid filename''))
           | Some nm \<Rightarrow> Ok (nm, bs))) = Ok (nm, r)"
    using k0 by (simp only: Let_def if_False)
  then obtain a r2 where a: "r1 = a @ r2" "length a = be_nat b2"
    and k1: "(if \<not> utf8_valid a then Err (InvalidData (ascii ''utf8''))
         else (case sanitize_filename a of
             None \<Rightarrow> Err (InvalidData (ascii ''invalid filename''))
           | Some nm \<Rightarrow> Ok (nm, r2))) = Ok (nm, r)"
    by (elim rbind_readE)
  then have "r1 = nm @ r \<and> length nm = be_nat b2 \<and> utf8_valid nm \<and> sanitize_filename nm = Some nm"
    using sanitize_filename_id [of a] by (auto split: if_splits option.splits)
  with b2 le show "length nm \<le> 4096 \<and> utf8_valid nm \<and> sanitize_filename nm = Some nm
     \<and> bs = put_u16 (word_of_nat (length nm)) @ nm @ r"
    by (simp add: put_be_nat)
next
  assume a: "length nm \<le> 4096 \<and> utf8_valid nm \<and> sanitize_filename nm = Some nm
     \<and> bs = put_u16 (word_of_nat (length nm)) @ nm @ r"
  then have "nm \<noteq> []" using sanitize_filename_facts(1) by blast
  with a show "parse_name bs = Ok (nm, r)"
    by (simp add: parse_name_def read_exact_append name_length Let_def del: unsigned_of_nat)
qed

lemma parse_entries_exact:
  "parse_entries n bs = Ok (es, rest) \<longleftrightarrow>
     length es = n \<and> list_all wf_entry es \<and> bs = concat (map entry_bytes es) @ rest"
proof (induction n arbitrary: bs es)
  case (Suc n)
  show ?case
  proof
    assume "parse_entries (Suc n) bs = Ok (es, rest)"
    then show "length es = Suc n \<and> list_all wf_entry es \<and> bs = concat (map entry_bytes es) @ rest"
      by (auto simp: rbind_Ok_iff parse_name_Ok read_meta_Ok Suc.IH entry_simps)
  next
    assume a: "length es = Suc n \<and> list_all wf_entry es \<and> bs = concat (map entry_bytes es) @ rest"
    then obtain nm sz mode es' where es: "es = (nm, sz, mode) # es'" by (cases es) auto
    have "parse_name bs = Ok (nm, put_u64 sz @ put_u32 mode @ concat (map entry_bytes es') @ rest)"
      using a by (simp add: parse_name_Ok es entry_simps)
    moreover have "read_meta (put_u64 sz @ put_u32 mode @ concat (map entry_bytes es') @ rest)
        = Ok ((sz, mode), concat (map entry_bytes es') @ rest)"
      by (simp only: read_meta_Ok)
    moreover have "parse_entries n (concat (map entry_bytes es') @ rest) = Ok (es', rest)"
      using a es by (simp add: Suc.IH)
    ultimately show "parse_entries (Suc n) bs = Ok (es, rest)" by (simp add: es)
  qed
qed auto

text \<open>
  C13. The manifest format is exact: the daemon reads a manifest off a stream precisely when the
  stream starts with what the sender's command writes for it and the manifest is well-formed
  (1 to 10000 files, names of at most 4096 bytes that are valid UTF-8 and sanitized), and
  leaves the file data that follows untouched.
\<close>

theorem manifest_exact:
  "parse_sender_manifest bs = Ok (es, rest)
     \<longleftrightarrow> wf_manifest es \<and> bs = write_send_manifest es @ rest"
proof
  assume "parse_sender_manifest bs = Ok (es, rest)"
  then obtain b4 r where b: "bs = b4 @ r" "length b4 = 4" and n: "be_nat b4 \<noteq> 0" "be_nat b4 \<le> 10000"
    and p: "parse_entries (be_nat b4) r = Ok (es, rest)"
    by (auto simp: parse_sender_manifest_def rbind_Ok_iff read_exact_Ok Let_def split: if_splits)
  from p b n show "wf_manifest es \<and> bs = write_send_manifest es @ rest"
    by (auto simp: parse_entries_exact wf_manifest_def write_send_manifest_def put_be_nat)
next
  assume a: "wf_manifest es \<and> bs = write_send_manifest es @ rest"
  then have "unat (word_of_nat (length es) :: u32) = length es"
    by (simp add: wf_manifest_def unat_of_nat)
  with a show "parse_sender_manifest bs = Ok (es, rest)"
    by (simp add: parse_sender_manifest_def write_send_manifest_def read_exact_append be_nat_put_words
        wf_manifest_def parse_entries_exact Let_def del: unsigned_of_nat)
qed

section \<open>What the receiver reads\<close>

lemma header_entry: "wf_entry e \<Longrightarrow> read_entry_header (entry_bytes e @ r) = Ok (Some e, r)"
proof -
  assume wf: "wf_entry e"
  obtain nm sz mode where e: "e = (nm, sz, mode)" by (cases e) auto
  have nm: "length nm \<le> 4096" "utf8_valid nm" "sanitize_filename nm = Some nm"
    using wf by (simp_all add: e entry_simps)
  then have n: "nm \<noteq> []" "sanitize_path nm = Ok nm"
    using sanitize_filename_facts(1) sanitize_filename_path by blast+
  have "read_meta (put_u64 sz @ put_u32 mode @ r) = Ok ((sz, mode), r)" by (simp only: read_meta_Ok)
  then show ?thesis
    using nm n by (simp add: e entry_simps read_entry_header_def read_exact_append name_length
        Let_def del: unsigned_of_nat)
qed

lemma receive_nil: "receive_files [] = Err UnexpectedEof"
  by (simp add: receive_files.simps [of "[]"] read_entry_header_def read_exact_def)

lemma receive_sentinel: "receive_files [0, 0] = Ok []"
  by (simp add: receive_files.simps [of "[0, 0]"] read_entry_header_def read_exact_def be_nat_Cons)

lemma receive_entry:
  assumes "wf_entry e" and "length content = unat (fst (snd e))"
  shows "receive_files (entry_bytes e @ content @ rest)
    = rbind (receive_files rest) (\<lambda>fs. Ok ((e, content) # fs))"
  by (subst receive_files.simps) (simp add: header_entry assms read_exact_append)

lemma receive_cut:
  assumes "wf_entry e" and "length content < unat (fst (snd e))"
  shows "receive_files (entry_bytes e @ content) = Err UnexpectedEof"
  using assms by (subst receive_files.simps) (simp add: header_entry read_exact_def)

section \<open>What the relay writes\<close>

lemma relay_data_spec:
  assumes "relay_data k n src = (out, src', k', fin)"
  shows "if fin = Relayed then src = out @ src' \<and> length out = n else length out < n"
  using assms
proof (induction k n src arbitrary: out src' k' fin rule: relay_data.induct)
  case (1 k n src)
  let ?m = "min n 65536"
  show ?case
  proof (cases "n = 0 \<or> length src < ?m \<or> k = 0")
    case True
    with "1.prems" show ?thesis
      by (auto simp: relay_data.simps [of k n src] Let_def split: if_splits)
  next
    case False
    then obtain out1 where r: "relay_data (k - 1) (n - ?m) (drop ?m src) = (out1, src', k', fin)"
      and out: "out = take ?m src @ out1"
      using "1.prems" by (auto simp: relay_data.simps [of k n src] Let_def split: prod.splits)
    have "if fin = Relayed then drop ?m src = out1 @ src' \<and> length out1 = n - ?m
        else length out1 < n - ?m"
      by (rule "1.IH" [OF _ refl _ _ r]) (use False in auto)
    moreover have "?m \<le> length src" using False by arith
    then have "length (take ?m src) = ?m" by (simp only: length_take min_absorb2)
    moreover have "?m \<le> n" by simp
    moreover have "src = take ?m src @ drop ?m src" by simp
    ultimately show ?thesis
      unfolding out append_assoc length_append by (cases "fin = Relayed") (simp_all only: if_True if_False, auto)
  qed
qed

lemma relay_files_spec:
  assumes "relay_files k es src = (out, src', k', fin)" and "list_all wf_entry es"
  shows "if fin = Relayed
    then \<exists>cs. map length cs = map (\<lambda>e. unat (fst (snd e))) es \<and> src = concat cs @ src'
      \<and> (\<forall>rest. receive_files (out @ rest)
            = rbind (receive_files rest) (\<lambda>fs. Ok (zip es cs @ fs)))
    else receive_files out = Err UnexpectedEof"
  using assms
proof (induction es arbitrary: k src out)
  case Nil
  then show ?case by (auto simp: rbind_Ok_iff) (metis rbind.elims)
next
  case (Cons e es)
  have wf: "wf_entry e" using Cons.prems by simp
  show ?case
  proof (cases "k = 0")
    case True
    with Cons.prems show ?thesis by (auto simp: receive_nil)
  next
    case False
    obtain o1 s1 k1 f1 where d: "relay_data (k - 1) (unat (fst (snd e))) src = (o1, s1, k1, f1)"
      by (metis prod_cases4)
    note spec = relay_data_spec [OF d]
    show ?thesis
    proof (cases "f1 = Relayed")
      case False
      then have "fin = f1" "out = entry_bytes e @ o1"
        using Cons.prems(1) d \<open>k \<noteq> 0\<close> by (cases f1; simp)+
      with False spec receive_cut [OF wf] show ?thesis by simp
    next
      case True
      obtain o2 where r: "relay_files k1 es s1 = (o2, src', k', fin)"
        and out: "out = entry_bytes e @ o1 @ o2"
        using Cons.prems(1) d \<open>k \<noteq> 0\<close> True by (auto split: prod.splits)
      have s: "src = o1 @ s1" "length o1 = unat (fst (snd e))" using spec True by simp_all
      note IH = Cons.IH [OF r]
      show ?thesis
      proof (cases "fin = Relayed")
        case False
        with IH Cons.prems(2) receive_entry [OF wf s(2), of o2] show ?thesis by (simp add: out)
      next
        case True
        with IH Cons.prems(2) obtain cs where
          cs: "map length cs = map (\<lambda>e. unat (fst (snd e))) es" "s1 = concat cs @ src'"
            "\<And>rest. receive_files (o2 @ rest) = rbind (receive_files rest) (\<lambda>fs. Ok (zip es cs @ fs))"
          by auto
        then show ?thesis
          using True s receive_entry [OF wf s(2)]
          by (intro if_P [THEN iffD2] exI [of _ "o1 # cs"]) (simp_all add: out rbind_assoc)
      qed
    qed
  qed
qed

lemma receive_stream_count:
  "length es \<le> 10000 \<Longrightarrow> receive_stream (put_u32 (word_of_nat (length es)) @ out)
     = rbind (receive_files out) (\<lambda>fs. Ok (length es, fs))"
proof -
  assume "length es \<le> 10000"
  then have "be_nat (put_u32 (word_of_nat (length es))) = length es"
    by (simp only: be_nat_put_words) (simp add: unat_of_nat)
  then show ?thesis
    by (simp add: receive_stream_def read_exact_append del: unsigned_of_nat)
qed

lemma relay_result_cases:
  assumes "go" and "0 < k" and "relay_files (k - 1) es src = (out, src', k', fin)"
  shows "to_receiver (transfer_relay go k es src) = put_u32 (word_of_nat (length es)) @ out
      @ (if fin = Relayed \<and> 0 < k' then [0, 0] else [])"
    and "last (notified (transfer_relay go k es src)) = SendDone \<longleftrightarrow> fin = Relayed \<and> 0 < k'"
  using assms by (cases fin; simp add: transfer_relay_def Let_def cancel_frame_def)+

text \<open>
  C15. A reported end is a complete transfer: when the relay's last notification is SendDone the
  receiver reads the announced number of files, each with its name, size, mode and exactly the
  sender's bytes for it; when it is a SendCancel the receiver's command fails at the end of its
  stream, and never takes a shortened file or list of files for the whole.
\<close>

theorem transfer_all_or_error:
  fixes go k es src
  assumes "wf_manifest es"
  defines "r \<equiv> transfer_relay go k es src"
  shows "if last (notified r) = SendDone
    then \<exists>contents rest. src = concat contents @ rest
      \<and> map length contents = map (\<lambda>e. unat (fst (snd e))) es
      \<and> receive_stream (to_receiver r) = Ok (length es, zip es contents)
    else receive_stream (to_receiver r) = Err UnexpectedEof"
proof (cases "go \<and> 0 < k")
  case False
  then have "to_receiver r = []" "last (notified r) \<noteq> SendDone"
    by (auto simp: r_def transfer_relay_def Let_def cancel_frame_def)
  then show ?thesis by (simp add: receive_stream_def read_exact_def)
next
  case True
  have wf: "list_all wf_entry es" "length es \<le> 10000"
    using assms(1) by (simp_all add: wf_manifest_def)
  obtain out src' k' fin where d: "relay_files (k - 1) es src = (out, src', k', fin)"
    by (metis prod_cases4)
  from True have go: "go" "0 < k" by simp_all
  note r = relay_result_cases [OF go d, folded r_def]
  note spec = relay_files_spec [OF d wf(1)]
  show ?thesis
  proof (cases "fin = Relayed")
    case False
    with r spec show ?thesis by (simp add: receive_stream_count [OF wf(2)])
  next
    case True
    with spec obtain cs where
      cs: "map length cs = map (\<lambda>e. unat (fst (snd e))) es" "src = concat cs @ src'"
      and rec: "\<And>rest. receive_files (out @ rest) = rbind (receive_files rest) (\<lambda>fs. Ok (zip es cs @ fs))"
      by auto
    have "receive_files out = Err UnexpectedEof" using rec [of "[]"] by (simp add: receive_nil)
    moreover have "receive_files (out @ [0, 0]) = Ok (zip es cs)"
      using rec [of "[0, 0]"] by (simp add: receive_sentinel)
    ultimately show ?thesis
      using True r cs by (cases "0 < k'") (auto simp: receive_stream_count [OF wf(2)])
  qed
qed

theorem transfer_all_or_error_witness:
  "let r = transfer_relay True 9 [([0x61], 2, 0x1A4), ([0x62], 0, 0x1A4)] [0x68, 0x69, 0x21] in
   \<exists>contents rest. [0x68, 0x69, 0x21] = concat contents @ rest \<and> map length contents = [2, 0]
     \<and> receive_stream (to_receiver r)
         = Ok (Suc (Suc 0), zip [([0x61], 2, 0x1A4), ([0x62], 0, 0x1A4)] contents)"
proof -
  let ?es = "[([0x61], 2, 0x1A4), ([0x62], 0, 0x1A4)] :: entry list"
  have wf: "wf_manifest ?es"
    by (simp add: wf_manifest_def wf_entry_def is_ascii_def sanitize_filename_def
        path_components_def starts_with_def is_normal_def)
  have sent: "last (notified (transfer_relay True 9 ?es [0x68, 0x69, 0x21])) = SendDone"
    by (simp add: transfer_relay_def relay_data.simps Let_def)
  show ?thesis
    using transfer_all_or_error [OF wf, of True 9 "[0x68, 0x69, 0x21]"] sent
    by simp
qed

section \<open>Enough writes and bytes\<close>

definition writes_for :: "entry \<Rightarrow> nat" where
  "writes_for e = Suc ((unat (fst (snd e)) + 65535) div 65536)"

lemma relay_data_enough:
  "n \<le> length src \<Longrightarrow> (n + 65535) div 65536 \<le> k \<Longrightarrow>
     relay_data k n src = (take n src, drop n src, k - (n + 65535) div 65536, Relayed)"
proof (induction k n src rule: relay_data.induct)
  case (1 k n src)
  let ?m = "min n 65536"
  show ?case
  proof (cases "n = 0")
    case True
    then show ?thesis by (subst relay_data.simps) simp
  next
    case False
    then have k: "0 < k" using "1.prems"(2) by (cases k) (simp_all add: div_eq_0_iff)
    have q: "(n + 65535) div 65536 = Suc ((n - ?m + 65535) div 65536)"
    proof (cases "n \<le> 65536")
      case True
      then have "(n + 65535) div 65536 = 1" using False by (intro div_nat_eqI) simp_all
      then show ?thesis using True by simp
    next
      case False
      then have "n + 65535 = (n - 65536 + 65535) + 65536" by simp
      then have "(n + 65535) div 65536 = Suc ((n - 65536 + 65535) div 65536)"
        by simp
      then show ?thesis using False by simp
    qed
    have m: "\<not> length src < ?m" "?m \<le> n" using "1.prems"(1) by auto
    have IH: "relay_data (k - 1) (n - ?m) (drop ?m src)
        = (take (n - ?m) (drop ?m src), drop (n - ?m) (drop ?m src),
           k - 1 - (n - ?m + 65535) div 65536, Relayed)"
    proof (rule "1.IH" [OF False refl m(1)])
      show "k \<noteq> 0" using k by simp
      show "n - ?m \<le> length (drop ?m src)"
        unfolding length_drop using "1.prems"(1) by (rule diff_le_mono)
      show "(n - ?m + 65535) div 65536 \<le> k - 1" using "1.prems"(2) unfolding q by arith
    qed
    have "take ?m src @ take (n - ?m) (drop ?m src) = take n src"
      using m(2) by (metis le_add_diff_inverse take_add)
    moreover have "drop (n - ?m) (drop ?m src) = drop n src" using m(2) by simp
    ultimately show ?thesis
      using False m(1) k q IH by (simp add: relay_data.simps [of k n src] Let_def)
  qed
qed

lemma relay_files_enough:
  "sum_list (map (\<lambda>e. unat (fst (snd e))) es) \<le> length src \<Longrightarrow> sum_list (map writes_for es) \<le> k \<Longrightarrow>
     \<exists>out src'. relay_files k es src = (out, src', k - sum_list (map writes_for es), Relayed)"
proof (induction es arbitrary: k src)
  case (Cons e es)
  let ?n = "unat (fst (snd e))" and ?w = "(unat (fst (snd e)) + 65535) div 65536"
  have k: "k \<noteq> 0" "?w \<le> k - 1" using Cons.prems(2) by (simp_all add: writes_for_def)
  have d: "relay_data (k - 1) ?n src = (take ?n src, drop ?n src, k - 1 - ?w, Relayed)"
    by (rule relay_data_enough) (use k Cons.prems(1) in simp_all)
  have "\<exists>o2 s2. relay_files (k - 1 - ?w) es (drop ?n src)
      = (o2, s2, k - 1 - ?w - sum_list (map writes_for es), Relayed)"
  proof (rule Cons.IH)
    show "sum_list (map (\<lambda>e. unat (fst (snd e))) es) \<le> length (drop ?n src)"
      using Cons.prems(1) by simp
    have "Suc ?w + sum_list (map writes_for es) \<le> k"
      using Cons.prems(2) by (simp add: writes_for_def [of e])
    then show "sum_list (map writes_for es) \<le> k - 1 - ?w" by arith
  qed
  then obtain o2 s2 where "relay_files (k - 1 - ?w) es (drop ?n src)
      = (o2, s2, k - 1 - ?w - sum_list (map writes_for es), Relayed)"
    by blast
  with d k show ?case by (simp add: writes_for_def [of e])
qed simp

text \<open>
  A transfer that can complete does: when the go byte goes out, the sender delivers at
  least the announced bytes, and the receiver takes the count, the headers, the data in pieces
  of 64 KiB and the end mark, the relay ends with SendDone.
\<close>

theorem transfer_completes:
  assumes "sum_list (map (\<lambda>e. unat (fst (snd e))) es) \<le> length src"
    and "2 + sum_list (map writes_for es) \<le> k"
  shows "notified (transfer_relay True k es src)
    = [SendOffer (word_of_nat (length es)) (total_bytes es), SendDone]"
proof -
  have "\<exists>out src'. relay_files (k - 1) es src
      = (out, src', k - 1 - sum_list (map writes_for es), Relayed)"
    by (rule relay_files_enough [OF assms(1)]) (use assms(2) in simp)
  then obtain out src' where "relay_files (k - 1) es src
      = (out, src', k - 1 - sum_list (map writes_for es), Relayed)"
    by blast
  then show ?thesis using assms(2) by (simp add: transfer_relay_def Let_def)
qed

theorem transfer_completes_witness:
  "notified (transfer_relay True 5 [([0x61], 2, 0x1A4), ([0x62], 0, 0x1A4)] [0x68, 0x69])
    = [SendOffer 2 2, SendDone]"
  using transfer_completes [of "[([0x61], 2, 0x1A4), ([0x62], 0, 0x1A4)]" "[0x68, 0x69]" 5]
  by (simp add: writes_for_def total_bytes_def)

end
