(* ===== verification/Receive_Files.thy ===== *)
theory Receive_Files
  imports File_Transfer
begin

text \<open>
  The receiver's files, from \<open>receive_to_dir\<close> and \<open>PartialFile\<close> in \<open>src/src/commands/transfer.rs\<close>: every
  file is written beside its place under a name of its own and renamed over it once it is whole.  Which
  file operations fail and how many bytes a read delivers is the environment; a path is the list of its
  plain components, and the model has no links, so different paths are different files.  The functions
  return every state the files go through.
\<close>

section \<open>Files\<close>

type_synonym path = "rstring list"

text \<open>Contents and mode by path; directories are not recorded.\<close>

type_synonym Files = "path \<Rightarrow> (byte list \<times> u32) option"

definition file_key :: "rstring \<Rightarrow> path" where
  "file_key nm = concat (map (\<lambda>c. case c of Normal n \<Rightarrow> [n] | _ \<Rightarrow> []) (path_components nm))"

text \<open>\<open>PartialFile::tmp_path_for\<close>; the path of the current directory has no file name.\<close>

definition partial_name :: "rstring \<Rightarrow> rstring" where
  "partial_name n = ascii ''.'' @ n @ ascii ''.gritty-partial''"

definition tmp_path_for :: "path \<Rightarrow> path" where
  "tmp_path_for target = (if target = [] then [partial_name []] else butlast target @ [partial_name (last target)])"

definition recv_mode :: "u32 \<Rightarrow> u32" where
  "recv_mode mode = (if mode = 0 then 420 else and mode 4095)"

datatype RecvStep = MakeDirs | OpenPartial | SetMode | WriteAt nat | FlushPartial | RenameOver

datatype RecvErr = BadHeader xfer_error | Denied RecvStep | Interrupted nat

record RecvEnv =
  re_denies :: "RecvStep \<Rightarrow> path \<Rightarrow> bool"
  re_got :: "nat \<Rightarrow> nat"

definition append_to :: "path \<Rightarrow> byte list \<Rightarrow> Files \<Rightarrow> Files" where
  "append_to p bytes fs = (case fs p of Some (c, m) \<Rightarrow> fs(p \<mapsto> (c @ bytes, m)) | None \<Rightarrow> fs)"

section \<open>One file\<close>

text \<open>The copying loop, whose reads deliver at least one byte until the stream ends.\<close>

definition read_size :: "RecvEnv \<Rightarrow> nat \<Rightarrow> nat \<Rightarrow> byte list \<Rightarrow> nat" where
  "read_size env len pos bs = max 1 (min (re_got env pos) (min (min (len - pos) 65536) (length bs)))"

lemma read_size_pos: "0 < read_size env len pos bs"
  by (simp add: read_size_def)

lemma read_size_le: "pos < len \<Longrightarrow> bs \<noteq> [] \<Longrightarrow> read_size env len pos bs \<le> len - pos \<and> read_size env len pos bs \<le> length bs"
  by (cases bs) (auto simp: read_size_def)

function copy_file ::
  "RecvEnv \<Rightarrow> path \<Rightarrow> nat \<Rightarrow> nat \<Rightarrow> byte list \<Rightarrow> Files \<Rightarrow> Files list \<times> Files \<times> (RecvErr + byte list)" where
  "copy_file env tmp len pos bs fs =
     (if len \<le> pos then ([], fs, if re_denies env FlushPartial tmp then Inl (Interrupted pos) else Inr bs)
      else if bs = [] then ([], fs, Inl (Interrupted pos))
      else
        (let n = read_size env len pos bs
         in if re_denies env (WriteAt pos) tmp then ([], fs, Inl (Interrupted pos))
            else
              (let fs1 = append_to tmp (take n bs) fs;
                   (states, fs2, r) = copy_file env tmp len (pos + n) (drop n bs) fs1
               in (fs1 # states, fs2, r))))"
  by pat_completeness auto
termination
  by (relation "measure (\<lambda>(env, tmp, len, pos, bs, fs). len - pos)") (auto intro!: diff_less_mono2 simp: read_size_pos)

declare copy_file.simps [simp del]

text \<open>
  An entry of the stream.  When a step fails after the name of the partial file is known, dropping
  \<open>PartialFile\<close> removes that file.  The mode of a partial file before its mode is set, and a write that
  fails half way, are not told apart from what follows them.
\<close>

definition receive_entry ::
  "RecvEnv \<Rightarrow> path \<Rightarrow> entry \<Rightarrow> byte list \<Rightarrow> Files \<Rightarrow> Files list \<times> Files \<times> (RecvErr + byte list)" where
  "receive_entry env dest e bs fs =
     (case e of (nm, sz, mode) \<Rightarrow>
       (let target = dest @ file_key nm; tmp = tmp_path_for target; m = recv_mode mode; gone = fs(tmp := None)
        in if re_denies env MakeDirs target then ([], fs, Inl (Denied MakeDirs))
           else if re_denies env OpenPartial tmp then ([gone], gone, Inl (Denied OpenPartial))
           else
             (let fs1 = fs(tmp \<mapsto> ([], m))
              in if re_denies env SetMode tmp then ([fs1, gone], gone, Inl (Denied SetMode))
                 else
                   (case copy_file env tmp (unat sz) 0 bs fs1 of
                      (states, fs2, Inl err) \<Rightarrow> (fs1 # states @ [gone], gone, Inl err)
                    | (states, fs2, Inr rest) \<Rightarrow>
                        (if re_denies env RenameOver target then (fs1 # states @ [gone], gone, Inl (Denied RenameOver))
                         else
                           (let fs3 = (fs2(tmp := None))(target := fs2 tmp)
                            in (fs1 # states @ [fs3], fs3, Inr rest)))))))"

section \<open>The stream\<close>

lemma copy_file_ends:
  "len \<le> pos \<Longrightarrow> copy_file env tmp len pos bs fs = ([], fs, if re_denies env FlushPartial tmp then Inl (Interrupted pos) else Inr bs)"
  "\<not> len \<le> pos \<Longrightarrow> bs = [] \<or> re_denies env (WriteAt pos) tmp \<Longrightarrow> copy_file env tmp len pos bs fs = ([], fs, Inl (Interrupted pos))"
  by (auto simp: copy_file.simps [of env tmp len pos bs fs])

lemma copy_file_step:
  assumes "\<not> len \<le> pos" and "\<not> (bs = [] \<or> re_denies env (WriteAt pos) tmp)" and "n = read_size env len pos bs"
  shows "copy_file env tmp len pos bs fs =
    (case copy_file env tmp len (pos + n) (drop n bs) (append_to tmp (take n bs) fs) of
       (states, fs2, r) \<Rightarrow> (append_to tmp (take n bs) fs # states, fs2, r))"
  using assms by (subst copy_file.simps) (simp add: Let_def)

text \<open>The loop only ever appends to the partial file, and ends well only with all of it.\<close>

lemma copy_file_spec:
  assumes "copy_file env tmp len pos bs fs = (states, fs', r)" and "fs tmp = Some (c, m)" and "pos \<le> len"
  shows "list_all (\<lambda>s. \<exists>k. s = fs(tmp \<mapsto> (c @ take k bs, m))) states"
    "\<exists>k. fs' = fs(tmp \<mapsto> (c @ take k bs, m))"
    "r = Inr rest \<Longrightarrow> len - pos \<le> length bs \<and> rest = drop (len - pos) bs \<and> fs' = fs(tmp \<mapsto> (c @ take (len - pos) bs, m))"
    "(\<And>x. \<not> re_denies env x tmp) \<Longrightarrow> len - pos \<le> length bs \<Longrightarrow> r = Inr (drop (len - pos) bs)"
proof -
  have "list_all (\<lambda>s. \<exists>k. s = fs(tmp \<mapsto> (c @ take k bs, m))) states
    \<and> (\<exists>k. fs' = fs(tmp \<mapsto> (c @ take k bs, m)))
    \<and> (\<forall>rest. r = Inr rest \<longrightarrow>
         len - pos \<le> length bs \<and> rest = drop (len - pos) bs \<and> fs' = fs(tmp \<mapsto> (c @ take (len - pos) bs, m)))
    \<and> ((\<forall>x. \<not> re_denies env x tmp) \<longrightarrow> len - pos \<le> length bs \<longrightarrow> r = Inr (drop (len - pos) bs))"
    using assms
  proof (induction "len - pos" arbitrary: pos bs fs c states rule: less_induct)
    case less
    show ?case
    proof (cases "len \<le> pos")
      case True
      then have "pos = len" using less.prems(3) by simp
      moreover have "fs(tmp \<mapsto> (c @ take 0 bs, m)) = fs" using less.prems(2) by (simp add: fun_upd_idem)
      ultimately show ?thesis using less.prems(1,2) by (auto simp: copy_file_ends(1) intro: exI [of _ 0] split: if_splits)
    next
      case False
      show ?thesis
      proof (cases "bs = [] \<or> re_denies env (WriteAt pos) tmp")
        case True
        moreover have "fs(tmp \<mapsto> (c @ take 0 bs, m)) = fs" using less.prems(2) by (simp add: fun_upd_idem)
        ultimately show ?thesis using less.prems(1) False copy_file_ends(2) [OF False True]
          by (auto intro: exI [of _ 0])
      next
        case go: False
        define n where "n = read_size env len pos bs"
        have n: "0 < n" "n \<le> len - pos" "n \<le> length bs"
          using read_size_pos read_size_le [of pos len bs env] False go by (simp_all add: n_def)
        let ?fs1 = "fs(tmp \<mapsto> (c @ take n bs, m))"
        have app: "append_to tmp (take n bs) fs = ?fs1" using less.prems(2) by (simp add: append_to_def)
        obtain states' where rec: "copy_file env tmp len (pos + n) (drop n bs) ?fs1 = (states', fs', r)" "states = ?fs1 # states'"
          using less.prems(1) copy_file_step [OF False go n_def] by (auto simp: app split: prod.splits)
        have "len - (pos + n) < len - pos" "pos + n \<le> len" using n False by simp_all
        then have IH: "list_all (\<lambda>s. \<exists>k. s = ?fs1(tmp \<mapsto> ((c @ take n bs) @ take k (drop n bs), m))) states'
          \<and> (\<exists>k. fs' = ?fs1(tmp \<mapsto> ((c @ take n bs) @ take k (drop n bs), m)))
          \<and> (\<forall>rest. r = Inr rest \<longrightarrow>
               len - (pos + n) \<le> length (drop n bs) \<and> rest = drop (len - (pos + n)) (drop n bs)
               \<and> fs' = ?fs1(tmp \<mapsto> ((c @ take n bs) @ take (len - (pos + n)) (drop n bs), m)))
          \<and> ((\<forall>x. \<not> re_denies env x tmp) \<longrightarrow> len - (pos + n) \<le> length (drop n bs)
               \<longrightarrow> r = Inr (drop (len - (pos + n)) (drop n bs)))"
          using rec(1) by (intro less.hyps) simp_all
        have glue: "?fs1(tmp \<mapsto> ((c @ take n bs) @ take k (drop n bs), m)) = fs(tmp \<mapsto> (c @ take (n + k) bs, m))" for k
          by (simp add: take_add)
        have facts: "len - (pos + n) \<le> length (drop n bs) \<longleftrightarrow> len - pos \<le> length bs"
            "drop (len - (pos + n)) (drop n bs) = drop (len - pos) bs" "n + (len - (pos + n)) = len - pos"
          using n by auto
        have first: "\<exists>k. ?fs1 = fs(tmp \<mapsto> (c @ take k bs, m))" by blast
        have "list_all (\<lambda>s. \<exists>k. s = fs(tmp \<mapsto> (c @ take k bs, m))) states'"
          using IH unfolding glue list_all_iff by blast
        then show ?thesis using IH first unfolding glue facts rec(2) list.pred_inject(2) by blast
      qed
    qed
  qed
  then show "list_all (\<lambda>s. \<exists>k. s = fs(tmp \<mapsto> (c @ take k bs, m))) states"
    "\<exists>k. fs' = fs(tmp \<mapsto> (c @ take k bs, m))"
    "r = Inr rest \<Longrightarrow> len - pos \<le> length bs \<and> rest = drop (len - pos) bs \<and> fs' = fs(tmp \<mapsto> (c @ take (len - pos) bs, m))"
    "(\<And>x. \<not> re_denies env x tmp) \<Longrightarrow> len - pos \<le> length bs \<Longrightarrow> r = Inr (drop (len - pos) bs)"
    by blast+
qed

lemma receive_entry_rest:
  assumes "receive_entry env dest e bs fs = (states, fs', Inr rest)"
  shows "length rest \<le> length bs"
proof -
  obtain nm sz mode where e: "e = (nm, sz, mode)" by (cases e)
  let ?tmp = "tmp_path_for (dest @ file_key nm)"
  obtain copied fs2 r where c: "copy_file env ?tmp (unat sz) 0 bs (fs(?tmp \<mapsto> ([], recv_mode mode))) = (copied, fs2, r)"
    by (metis prod_cases3)
  show ?thesis
  proof (cases r)
    case (Inl err)
    then show ?thesis using assms c by (simp add: receive_entry_def e Let_def split: if_split_asm)
  next
    case (Inr rest')
    then have "rest' = rest" using assms c by (simp add: receive_entry_def e Let_def split: if_split_asm)
    with copy_file_spec(3) [OF c [unfolded Inr], of "[]" "recv_mode mode" rest'] show ?thesis by simp
  qed
qed

function receive_to_dir ::
  "RecvEnv \<Rightarrow> path \<Rightarrow> byte list \<Rightarrow> Files \<Rightarrow> Files list \<times> Files \<times> (RecvErr + nat)" where
  "receive_to_dir env dest bs fs =
     (case read_entry_header bs of
        Err x \<Rightarrow> ([], fs, Inl (BadHeader x))
      | Panic \<Rightarrow> ([], fs, Inl (BadHeader UnexpectedEof))
      | Ok (None, _) \<Rightarrow> ([], fs, Inr 0)
      | Ok (Some e, r) \<Rightarrow>
          (case receive_entry env dest e r fs of
             (states, fs1, Inl err) \<Rightarrow> (states, fs1, Inl err)
           | (states, fs1, Inr rest) \<Rightarrow>
               (case receive_to_dir env dest rest fs1 of
                  (later, fs2, Inl err) \<Rightarrow> (states @ later, fs2, Inl err)
                | (later, fs2, Inr n) \<Rightarrow> (states @ later, fs2, Inr (n + 1)))))"
  by pat_completeness auto
termination
  by (relation "measure (\<lambda>(env, dest, bs, fs). length bs)")
    (auto dest!: read_entry_header_length receive_entry_rest [OF sym])

declare receive_to_dir.simps [simp del]

section \<open>What the stream holds\<close>

text \<open>The files that are whole in a stream, and the headers read from it.\<close>

function whole_files :: "byte list \<Rightarrow> (entry \<times> byte list) list" where
  "whole_files bs =
     (case read_entry_header bs of
        Ok (Some e, r) \<Rightarrow>
          (if unat (fst (snd e)) \<le> length r
           then (e, take (unat (fst (snd e))) r) # whole_files (drop (unat (fst (snd e))) r) else [])
      | _ \<Rightarrow> [])"
  by pat_completeness auto
termination
  by (relation "measure length") (auto dest!: read_entry_header_length)

declare whole_files.simps [simp del]

function announced :: "byte list \<Rightarrow> entry list" where
  "announced bs =
     (case read_entry_header bs of
        Ok (Some e, r) \<Rightarrow> e # announced (drop (unat (fst (snd e))) r)
      | _ \<Rightarrow> [])"
  by pat_completeness auto
termination
  by (relation "measure length") (auto dest!: read_entry_header_length)

declare announced.simps [simp del]

definition place :: "path \<Rightarrow> entry \<Rightarrow> path" where
  "place dest e = dest @ file_key (fst e)"

definition file_of :: "entry \<times> byte list \<Rightarrow> byte list \<times> u32" where
  "file_of x = (snd x, recv_mode (snd (snd (fst x))))"

end
