(* ===== verification/Receive_Files_Proofs.thy ===== *)
theory Receive_Files_Proofs
  imports Receive_Files
begin

text \<open>
  That received files appear whole or not at all, whatever fails on the way, and that a transfer without
  failures leaves exactly the files sent.
\<close>

section \<open>What a step may change\<close>

text \<open>
  A state of the files that differs from \<open>fs\<close> only at the given partial files, and at places of the given
  files, where it has one of them.
\<close>

definition touched :: "Files \<Rightarrow> path set \<Rightarrow> (path \<times> (byte list \<times> u32)) set \<Rightarrow> Files \<Rightarrow> bool" where
  "touched fs partials files s \<longleftrightarrow> (\<forall>p. s p = fs p \<or> p \<in> partials \<or> (\<exists>f. (p, f) \<in> files \<and> s p = Some f))"

lemma touched_refl [simp]: "touched fs P F fs"
  by (simp add: touched_def)

lemma touched_mono: "touched fs P F s \<Longrightarrow> P \<subseteq> P' \<Longrightarrow> F \<subseteq> F' \<Longrightarrow> touched fs P' F' s"
  unfolding touched_def by blast

lemma touched_trans: "touched fs P F s \<Longrightarrow> touched s P F t \<Longrightarrow> touched fs P F t"
  unfolding touched_def by metis

lemma touched_tmp [simp]: "tmp \<in> P \<Longrightarrow> touched fs P F (fs(tmp := v))"
  by (simp add: touched_def)

lemma receive_entry_touches:
  assumes "receive_entry env dest e bs fs = (states, fs', r)"
  defines "tmp \<equiv> tmp_path_for (place dest e)"
  defines "F \<equiv> (if unat (fst (snd e)) \<le> length bs
    then {(place dest e, file_of (e, take (unat (fst (snd e))) bs))} else {})"
  shows "list_all (touched fs {tmp} F) states" "touched fs {tmp} F fs'"
    "r = Inr rest \<Longrightarrow> unat (fst (snd e)) \<le> length bs \<and> rest = drop (unat (fst (snd e))) bs
      \<and> fs' = fs(tmp := None, place dest e := Some (file_of (e, take (unat (fst (snd e))) bs)))"
    "(\<And>x p. \<not> re_denies env x p) \<Longrightarrow> unat (fst (snd e)) \<le> length bs \<Longrightarrow> \<exists>rest. r = Inr rest"
proof -
  obtain nm sz mode where e: "e = (nm, sz, mode)" by (cases e)
  have tmp: "tmp_path_for (place dest (nm, sz, mode)) = tmp" and place: "dest @ file_key nm = place dest (nm, sz, mode)"
    by (simp_all add: tmp_def place_def e)
  let ?m = "recv_mode mode"
  let ?fs1 = "fs(tmp \<mapsto> ([], ?m))"
  obtain copied fs2 q where c: "copy_file env tmp (unat sz) 0 bs ?fs1 = (copied, fs2, q)" by (metis prod_cases3)
  have start: "?fs1 tmp = Some ([], ?m)" by simp
  note spec = copy_file_spec [OF c start]
  have partial: "touched fs {tmp} F (fs(tmp := v))" for v by simp
  have "touched fs {tmp} F s" if "s \<in> set copied" for s
  proof -
    have "\<exists>k. s = ?fs1(tmp \<mapsto> ([] @ take k bs, ?m))"
      using bspec [OF spec(1) [unfolded list_all_iff] that] by simp
    then show ?thesis using partial by auto
  qed
  then have copied: "list_all (touched fs {tmp} F) copied" by (simp add: list_all_iff)
  have whole: "unat sz \<le> length bs \<and> rest = drop (unat sz) bs \<and> fs2 = fs(tmp \<mapsto> (take (unat sz) bs, ?m))"
    if "q = Inr rest" for rest
    using spec(3) [OF _ that] by (auto simp: fun_eq_iff)
  let ?moved = "(fs2(tmp := None))(place dest e := fs2 tmp)"
  have placed: "?moved = fs(tmp := None, place dest e := Some (file_of (e, take (unat sz) bs)))" if "q = Inr rest" for rest
    using whole [OF that] by (simp add: file_of_def e)
  have done_ok: "touched fs {tmp} F ?moved" if "q = Inr rest" for rest
    using whole [OF that] placed [OF that] by (simp add: F_def touched_def e)
  have all: "list_all (touched fs {tmp} F) states \<and> touched fs {tmp} F fs'
    \<and> (\<forall>rest. r = Inr rest \<longrightarrow> q = Inr rest \<and> fs' = ?moved)
    \<and> ((\<forall>x p. \<not> re_denies env x p) \<longrightarrow> unat sz \<le> length bs \<longrightarrow> (\<exists>rest. r = Inr rest))"
  proof (cases q)
    case (Inl err)
    have "\<not> ((\<forall>x p. \<not> re_denies env x p) \<and> unat sz \<le> length bs)" using spec(4) Inl by auto
    then show ?thesis using assms(1) c Inl partial copied
      by (auto simp: receive_entry_def e tmp place Let_def split: if_split_asm)
  next
    case (Inr rest)
    then show ?thesis using assms(1) c partial copied done_ok [OF Inr]
      by (auto simp: receive_entry_def e tmp place Let_def split: if_split_asm)
  qed
  then show "list_all (touched fs {tmp} F) states" "touched fs {tmp} F fs'" by blast+
  show "unat (fst (snd e)) \<le> length bs \<and> rest = drop (unat (fst (snd e))) bs
      \<and> fs' = fs(tmp := None, place dest e := Some (file_of (e, take (unat (fst (snd e))) bs)))" if "r = Inr rest"
    using all that whole [of rest] placed [of rest] by (simp add: e)
  show "\<exists>rest. r = Inr rest" if "\<And>x p. \<not> re_denies env x p" "unat (fst (snd e)) \<le> length bs"
    using all that by (simp add: e)
qed

section \<open>Whole or not at all\<close>

definition placed_files :: "path \<Rightarrow> (entry \<times> byte list) list \<Rightarrow> (path \<times> (byte list \<times> u32)) list" where
  "placed_files dest xs = map (\<lambda>x. (place dest (fst x), file_of x)) xs"

definition partial_paths :: "path \<Rightarrow> entry list \<Rightarrow> path set" where
  "partial_paths dest es = (\<lambda>e. tmp_path_for (place dest e)) ` set es"

lemma receive_to_dir_end:
  "(\<forall>e r. read_entry_header bs \<noteq> Ok (Some e, r)) \<Longrightarrow>
     \<exists>q. receive_to_dir env dest bs fs = ([], fs, q) \<and> \<not> (\<exists>n. q = Inr n \<and> n \<noteq> 0)"
  by (subst receive_to_dir.simps) (auto split: res.splits option.splits)

text \<open>
  C16. A received file is whole or not there: whatever operation fails, wherever the stream ends and
  however its bytes arrive, in every state the receiver's files go through each path holds what it held
  before or a file sent for it with all its bytes and its mode, but for the partial files beside the
  places of the files announced.
\<close>

theorem received_files_are_whole:
  "case receive_to_dir env dest bs fs of (states, fs', result) \<Rightarrow>
     list_all (touched fs (partial_paths dest (announced bs)) (set (placed_files dest (whole_files bs)))) (states @ [fs'])"
proof (induction bs arbitrary: fs rule: length_induct)
  case (1 bs)
  show ?case
  proof (cases "\<exists>e r. read_entry_header bs = Ok (Some e, r)")
    case False
    then obtain q where "receive_to_dir env dest bs fs = ([], fs, q)" using receive_to_dir_end by blast
    then show ?thesis by simp
  next
    case True
    then obtain e r where header: "read_entry_header bs = Ok (Some e, r)" by blast
    let ?n = "unat (fst (snd e))"
    let ?P = "partial_paths dest (announced bs)" and ?F = "set (placed_files dest (whole_files bs))"
    obtain states fs1 q where entry: "receive_entry env dest e r fs = (states, fs1, q)" by (metis prod_cases3)
    note touches = receive_entry_touches [OF entry]
    have P: "tmp_path_for (place dest e) \<in> ?P" "partial_paths dest (announced (drop ?n r)) \<subseteq> ?P"
      by (auto simp: partial_paths_def announced.simps [of bs] header)
    have F: "(if ?n \<le> length r then {(place dest e, file_of (e, take ?n r))} else {}) \<subseteq> ?F"
      by (cases "?n \<le> length r") (simp_all add: placed_files_def whole_files.simps [of bs] header list.set(2) del: set_map)
    have step: "list_all (touched fs ?P ?F) states" "touched fs ?P ?F fs1"
      using touches(1,2) touched_mono [OF _ _ F, of fs "{tmp_path_for (place dest e)}" _ ?P] P(1)
      by (simp_all add: list_all_iff)
    show ?thesis
    proof (cases q)
      case (Inl err)
      then have "receive_to_dir env dest bs fs = (states, fs1, Inl err)"
        by (subst receive_to_dir.simps) (simp add: header entry)
      then show ?thesis using step by simp
    next
      case (Inr rest)
      then have rest: "?n \<le> length r" "rest = drop ?n r" using touches(3) by auto
      have "length rest < length bs" using rest(2) read_entry_header_length [OF header] by simp
      then have IH: "case receive_to_dir env dest rest fs1 of (later, fs2, result) \<Rightarrow>
          list_all (touched fs1 (partial_paths dest (announced rest)) (set (placed_files dest (whole_files rest)))) (later @ [fs2])"
        by (rule 1 [rule_format])
      obtain later fs2 result where go: "receive_to_dir env dest rest fs1 = (later, fs2, result)" by (metis prod_cases3)
      have whole: "receive_to_dir env dest bs fs = (states @ later, fs2, map_sum id (\<lambda>n. n + 1) result)"
        by (subst receive_to_dir.simps) (simp add: header entry Inr go split: sum.split)
      have "set (placed_files dest (whole_files rest)) \<subseteq> ?F"
        by (auto simp: placed_files_def whole_files.simps [of bs] header rest)
      then have "touched fs1 ?P ?F s" if "s \<in> set (later @ [fs2])" for s
        using IH that touched_mono [OF _ P(2)] unfolding go rest(2) [symmetric] by (fastforce simp: list_all_iff)
      then have "touched fs ?P ?F s" if "s \<in> set (later @ [fs2])" for s
        using that touched_trans [OF step(2)] by blast
      then show ?thesis using step(1) unfolding whole by (auto simp: list_all_iff)
    qed
  qed
qed

section \<open>A transfer without failures\<close>

definition write_files :: "path \<Rightarrow> (entry \<times> byte list) list \<Rightarrow> Files \<Rightarrow> Files" where
  "write_files dest xs fs =
     fold (\<lambda>x s. s(tmp_path_for (place dest (fst x)) := None, place dest (fst x) := Some (file_of x))) xs fs"

lemma receive_all:
  assumes "\<And>x p. \<not> re_denies env x p"
  shows "receive_files bs = Ok es \<Longrightarrow>
    \<exists>states. receive_to_dir env dest bs fs = (states, write_files dest es fs, Inr (length es))"
proof (induction bs arbitrary: es fs rule: receive_files.induct)
  case (1 bs)
  show ?case
  proof (cases "\<exists>e r. read_entry_header bs = Ok (Some e, r)")
    case False
    with 1(2) obtain r where "read_entry_header bs = Ok (None, r)" "es = []"
      by (subst (asm) receive_files.simps) (auto split: res.splits option.splits)
    then show ?thesis by (subst receive_to_dir.simps) (simp add: write_files_def)
  next
    case True
    then obtain e r where header: "read_entry_header bs = Ok (Some e, r)" by blast
    let ?n = "unat (fst (snd e))"
    have "?n \<le> length r" using 1(2) by (subst (asm) receive_files.simps) (auto simp: header read_exact_def split: if_splits)
    then have content: "read_exact ?n r = Ok (take ?n r, drop ?n r)" by (simp add: read_exact_def)
    then obtain es' where es': "receive_files (drop ?n r) = Ok es'" "es = (e, take ?n r) # es'"
      using 1(2) by (subst (asm) receive_files.simps) (auto simp: header rbind_Ok_iff)
    obtain states fs1 q where entry: "receive_entry env dest e r fs = (states, fs1, q)" by (metis prod_cases3)
    obtain rest where q: "q = Inr rest" using receive_entry_touches(4) [OF entry] assms \<open>?n \<le> length r\<close> by blast
    then have rest: "rest = drop ?n r"
        "fs1 = fs(tmp_path_for (place dest e) := None, place dest e := Some (file_of (e, take ?n r)))"
      using receive_entry_touches(3) [OF entry] by auto
    obtain later where "receive_to_dir env dest rest fs1 = (later, write_files dest es' fs1, Inr (length es'))"
      using 1(1) [OF header refl refl content refl es'(1)] rest(1) by blast
    then show ?thesis
      by (subst receive_to_dir.simps) (simp add: header entry q es'(2) write_files_def rest(2))
  qed
qed


text \<open>
  Without the proviso a file is lost: one sent under the name of the partial file of a later one is
  overwritten by it and renamed away, and the transfer reports both as received.
\<close>

lemma partial_name_is_lost:
  assumes "re_denies env = (\<lambda>_ _. False)" and "receive_files bs = Ok [((partial_name n, s1, m1), c1), ((n, s2, m2), c2)]"
    and "file_key n = [n]" and "file_key (partial_name n) = [partial_name n]"
  shows "\<exists>states fs'. receive_to_dir env dest bs fs = (states, fs', Inr 2) \<and> fs' (dest @ [partial_name n]) = None"
proof -
  have "\<exists>states. receive_to_dir env dest bs fs
      = (states, write_files dest [((partial_name n, s1, m1), c1), ((n, s2, m2), c2)] fs, Inr 2)"
    using receive_all [OF _ assms(2)] assms(1) by (simp add: numeral_2_eq_2)
  moreover have "dest @ [n] \<noteq> dest @ [partial_name n]" by (simp add: partial_name_def)
  then have "write_files dest [((partial_name n, s1, m1), c1), ((n, s2, m2), c2)] fs (dest @ [partial_name n]) = None"
    by (simp add: write_files_def place_def assms(3,4) tmp_path_for_def)
  ultimately show ?thesis by blast
qed

section \<open>Witnesses\<close>

definition willing :: RecvEnv where
  "willing = \<lparr>re_denies = (\<lambda>_ _. False), re_got = (\<lambda>_. 1)\<rparr>"

text \<open>One file \<open>a\<close> with one byte, then the end of the transfer.\<close>

definition one_file :: "byte list" where
  "one_file = [0, 1, 0x61] @ [0, 0, 0, 0, 0, 0, 0, 1] @ [0, 0, 0, 0] @ [7] @ [0, 0]"


end
