(* ===== verification/Rendezvous.thy ===== *)
theory Rendezvous
  imports File_Transfer "HOL-Library.Multiset"
begin

text \<open>
  The rendezvous of senders and receivers in \<open>src/src/server.rs\<close>: \<open>handle_send_event\<close>,
  \<open>handle_send_notification\<close> and the relay tasks around them.  A stream is an element of the
  type \<open>'s\<close>; whether its peer is gone when it is probed (\<open>stream_is_dead\<close>) and whether a relay
  task has finished (\<open>is_finished\<close>) are inputs of the handler.  A relay handle is a number.
\<close>

section \<open>The handler\<close>

abbreviation (input) TRANSFER_GO_SUPERSEDED :: byte where "TRANSFER_GO_SUPERSEDED \<equiv> 0x02"
abbreviation (input) TRANSFER_GO_BUSY :: byte where "TRANSFER_GO_BUSY \<equiv> 0x03"

datatype 's SendEvent = SenderArrived 's "entry list" | ReceiverArrived 's

datatype 's TransferState =
    Idle
  | WaitingForReceiver 's "entry list"
  | WaitingForSender 's
  | Active nat

text \<open>What the handler does beside the new state: a byte to a sender, or a relay started.\<close>

datatype 's Verdict = Go 's byte | Paired 's 's "entry list" nat

definition handle_send_event ::
  "('s \<Rightarrow> bool) \<Rightarrow> (nat \<Rightarrow> bool) \<Rightarrow> nat \<Rightarrow> 's SendEvent \<Rightarrow> 's TransferState
    \<Rightarrow> 's TransferState \<times> 's Verdict list" where
  "handle_send_event dead finished h ev st =
     (case (st, ev) of
        (Active r, SenderArrived s m) \<Rightarrow>
          (if \<not> finished r then (st, [Go s TRANSFER_GO_BUSY]) else (WaitingForReceiver s m, []))
      | (Active r, ReceiverArrived s) \<Rightarrow>
          (if \<not> finished r then (st, []) else (WaitingForSender s, []))
      | (WaitingForSender rcv, SenderArrived s m) \<Rightarrow>
          (if \<not> dead rcv then (Active h, [Paired s rcv m h]) else (WaitingForReceiver s m, []))
      | (WaitingForReceiver s' m', SenderArrived s m) \<Rightarrow>
          (WaitingForReceiver s m, [Go s' TRANSFER_GO_SUPERSEDED])
      | (Idle, SenderArrived s m) \<Rightarrow> (WaitingForReceiver s m, [])
      | (WaitingForReceiver s' m', ReceiverArrived s) \<Rightarrow>
          (if \<not> dead s' then (Active h, [Paired s' s m' h]) else (WaitingForSender s, []))
      | (WaitingForSender _, ReceiverArrived s) \<Rightarrow> (WaitingForSender s, [])
      | (Idle, ReceiverArrived s) \<Rightarrow> (WaitingForSender s, []))"

definition is_end_frame :: "Frame \<Rightarrow> bool" where
  "is_end_frame f \<longleftrightarrow> (case f of SendDone \<Rightarrow> True | SendCancel _ \<Rightarrow> True | _ \<Rightarrow> False)"

definition handle_send_notification :: "Frame \<Rightarrow> 's TransferState \<Rightarrow> 's TransferState" where
  "handle_send_notification f st =
     (case st of Active r \<Rightarrow> if is_end_frame f then Idle else st | _ \<Rightarrow> st)"

section \<open>No sender is forgotten\<close>

definition waiting_senders :: "'s TransferState \<Rightarrow> 's list" where
  "waiting_senders st = (case st of WaitingForReceiver s _ \<Rightarrow> [s] | _ \<Rightarrow> [])"

definition arriving_senders :: "'s SendEvent \<Rightarrow> 's list" where
  "arriving_senders ev = (case ev of SenderArrived s _ \<Rightarrow> [s] | _ \<Rightarrow> [])"

definition answered_senders :: "'s Verdict list \<Rightarrow> 's list" where
  "answered_senders vs = map (\<lambda>v. case v of Go s _ \<Rightarrow> s | Paired s _ _ _ \<Rightarrow> s) vs"

definition dead_senders :: "('s \<Rightarrow> bool) \<Rightarrow> 's SendEvent \<Rightarrow> 's TransferState \<Rightarrow> 's list" where
  "dead_senders dead ev st =
     (case (st, ev) of (WaitingForReceiver s _, ReceiverArrived _) \<Rightarrow> if dead s then [s] else []
      | _ \<Rightarrow> [])"

text \<open>
  A run of the handler: every event comes with what its probe and the relay's state are then,
  and between events the relay's notifications arrive (the state an \<open>Active\<close> relay leaves is
  the only thing they change).
\<close>

datatype 's input = Event "'s \<Rightarrow> bool" "nat \<Rightarrow> bool" nat "'s SendEvent" | Notification Frame

fun run_rendezvous ::
  "'s TransferState \<Rightarrow> 's input list \<Rightarrow> 's TransferState \<times> 's Verdict list \<times> 's list" where
  "run_rendezvous st [] = (st, [], [])"
| "run_rendezvous st (Event dead finished h ev # xs) =
     (let (st1, vs) = handle_send_event dead finished h ev st;
          (st2, vs2, lost) = run_rendezvous st1 xs
      in (st2, vs @ vs2, dead_senders dead ev st @ lost))"
| "run_rendezvous st (Notification f # xs) = run_rendezvous (handle_send_notification f st) xs"

definition run_senders :: "'s input list \<Rightarrow> 's list" where
  "run_senders xs = concat (map (\<lambda>x. case x of Event _ _ _ ev \<Rightarrow> arriving_senders ev
     | Notification _ \<Rightarrow> []) xs)"

lemma step_conserves:
  "mset (waiting_senders st) + mset (arriving_senders ev)
     = mset (waiting_senders (fst (handle_send_event dead finished h ev st)))
       + mset (answered_senders (snd (handle_send_event dead finished h ev st)))
       + mset (dead_senders dead ev st)"
  by (cases st; cases ev)
    (simp_all add: handle_send_event_def waiting_senders_def arriving_senders_def
      answered_senders_def dead_senders_def)

lemma notification_waiting [simp]:
  "waiting_senders (handle_send_notification f st) = waiting_senders st"
  by (cases st) (simp_all add: handle_send_notification_def waiting_senders_def)

lemma run_conserves:
  "run_rendezvous st xs = (st', vs, lost) \<Longrightarrow>
     mset (waiting_senders st) + mset (run_senders xs)
       = mset (waiting_senders st') + mset (answered_senders vs) + mset lost"
proof (induction st xs arbitrary: st' vs lost rule: run_rendezvous.induct)
  case (2 st dead finished h ev xs)
  obtain st1 vs1 where h: "handle_send_event dead finished h ev st = (st1, vs1)" by fastforce
  obtain st2 vs2 l2 where r: "run_rendezvous st1 xs = (st2, vs2, l2)" by (metis prod_cases3)
  have IH: "mset (waiting_senders st1) + mset (run_senders xs)
      = mset (waiting_senders st2) + mset (answered_senders vs2) + mset l2"
    by (rule "2.IH" [OF h [symmetric] refl r])
  have "mset (waiting_senders st) + mset (arriving_senders ev)
      = mset (waiting_senders st1) + mset (answered_senders vs1) + mset (dead_senders dead ev st)"
    using step_conserves [of st ev dead finished h] by (simp add: h)
  then have "mset (waiting_senders st) + mset (arriving_senders ev) + mset (run_senders xs)
      = (mset (waiting_senders st1) + mset (run_senders xs)) + mset (answered_senders vs1)
        + mset (dead_senders dead ev st)"
    by (simp add: ac_simps)
  with IH h r "2.prems" show ?case
    by (auto simp: run_senders_def answered_senders_def ac_simps)
qed (simp_all add: run_senders_def answered_senders_def)

text \<open>
  C18. No sender is left without an answer: over any run of arrivals and notifications, every
  sender that arrived is exactly once either told a byte (busy, superseded), paired with a
  receiver, still waiting at the end, or was found dead when a receiver came for it.
\<close>

theorem every_sender_accounted:
  "case run_rendezvous Idle xs of (st, vs, lost) \<Rightarrow>
     mset (run_senders xs)
       = mset (waiting_senders st) + mset (answered_senders vs) + mset lost"
proof -
  obtain st vs lost where r: "run_rendezvous Idle xs = (st, vs, lost)" by (metis prod_cases3)
  show ?thesis using run_conserves [OF r] by (simp add: r waiting_senders_def)
qed

section \<open>A running relay\<close>

text \<open>
  A relay that is still running wins: while the state is \<open>Active\<close> and its task has not
  finished, an arriving sender is told \<open>busy\<close>, an arriving receiver is dropped, and neither the
  state changes nor a second relay starts.
\<close>

theorem running_relay_wins:
  assumes "\<not> finished r"
  shows "handle_send_event dead finished h (SenderArrived s m) (Active r)
      = (Active r, [Go s TRANSFER_GO_BUSY])
    \<and> handle_send_event dead finished h (ReceiverArrived s) (Active r) = (Active r, [])"
  using assms by (simp add: handle_send_event_def)

theorem running_relay_wins_witness:
  "handle_send_event (\<lambda>_. False) (\<lambda>r. r \<noteq> 7) 8 (SenderArrived ''a'' []) (Active 7)
     = (Active 7, [Go ''a'' 3])"
  using running_relay_wins [of "\<lambda>r. r \<noteq> (7::nat)" 7 "\<lambda>_. False" 8 "''a''" "[]"] by simp

text \<open>
  The session with its relay tasks: the running ones, and the queue of their notifications,
  which the session's loop polls after the queue of arrivals.
\<close>

record 's Session =
  xfer :: "'s TransferState"
  running :: "nat list"
  queue :: "Frame list"
  next_relay :: nat

definition session_start :: "'s Session" where
  "session_start = \<lparr>xfer = Idle, running = [], queue = [], next_relay = 0\<rparr>"

definition starts_relay :: "'s Verdict list \<Rightarrow> bool" where
  "starts_relay vs \<longleftrightarrow> list_ex (\<lambda>v. case v of Paired _ _ _ _ \<Rightarrow> True | _ \<Rightarrow> False) vs"

inductive session_step :: "'s Session \<Rightarrow> 's Session \<Rightarrow> bool" where
  arrive: "handle_send_event dead (\<lambda>r. r \<notin> set (running c)) (next_relay c) ev (xfer c) = (st, vs) \<Longrightarrow>
     session_step c
       (if starts_relay vs
        then c\<lparr>xfer := st, running := next_relay c # running c, next_relay := Suc (next_relay c)\<rparr>
        else c\<lparr>xfer := st\<rparr>)"
| finish: "r \<in> set (running c) \<Longrightarrow> is_end_frame f \<Longrightarrow>
     session_step c (c\<lparr>running := removeAll r (running c), queue := queue c @ [f]\<rparr>)"
| notify: "queue c = f # fs \<Longrightarrow>
     session_step c (c\<lparr>queue := fs, xfer := handle_send_notification f (xfer c)\<rparr>)"

inductive session_reachable :: "'s Session \<Rightarrow> bool" where
  start: "session_reachable session_start"
| step: "session_reachable c \<Longrightarrow> session_step c c' \<Longrightarrow> session_reachable c'"

inductive_cases session_stepE: "session_step c c'"

lemma arrive_step:
  assumes "handle_send_event dead (\<lambda>r. r \<notin> set rs) n ev x = (st, vs)"
  shows "session_step \<lparr>xfer = x, running = rs, queue = q, next_relay = n\<rparr>
    (if starts_relay vs then \<lparr>xfer = st, running = n # rs, queue = q, next_relay = Suc n\<rparr>
     else \<lparr>xfer = st, running = rs, queue = q, next_relay = n\<rparr>)"
  using session_step.arrive [of dead "\<lparr>xfer = x, running = rs, queue = q, next_relay = n\<rparr>" ev st vs]
    assms by (cases "starts_relay vs") simp_all

lemma finish_step:
  "r \<in> set rs \<Longrightarrow> is_end_frame f \<Longrightarrow>
     session_step \<lparr>xfer = x, running = rs, queue = q, next_relay = n\<rparr>
       \<lparr>xfer = x, running = removeAll r rs, queue = q @ [f], next_relay = n\<rparr>"
  using session_step.finish [of r "\<lparr>xfer = x, running = rs, queue = q, next_relay = n\<rparr>" f] by simp

lemma notify_step:
  "session_step \<lparr>xfer = x, running = rs, queue = f # q, next_relay = n\<rparr>
     \<lparr>xfer = handle_send_notification f x, running = rs, queue = q, next_relay = n\<rparr>"
  using session_step.notify [of "\<lparr>xfer = x, running = rs, queue = f # q, next_relay = n\<rparr>" f q] by simp

text \<open>A receiver and then a sender arrive: a relay starts.\<close>

lemma pairing:
  assumes "session_reachable (\<lparr>xfer = x, running = rs, queue = q, next_relay = n\<rparr> :: nat Session)"
    and "x = Idle \<or> (\<exists>r. x = Active r \<and> r \<notin> set rs)"
  shows "session_reachable (\<lparr>xfer = Active n, running = n # rs, queue = q, next_relay = Suc n\<rparr>
    :: nat Session)"
proof -
  have "session_step \<lparr>xfer = x, running = rs, queue = q, next_relay = n\<rparr>
      (\<lparr>xfer = WaitingForSender 0, running = rs, queue = q, next_relay = n\<rparr> :: nat Session)"
    using assms(2) arrive_step [of "\<lambda>_. False" rs n "ReceiverArrived 0" x "WaitingForSender 0" "[]" q]
    by (auto simp: handle_send_event_def starts_relay_def)
  with assms(1) have w: "session_reachable
      (\<lparr>xfer = WaitingForSender 0, running = rs, queue = q, next_relay = n\<rparr> :: nat Session)"
    by (rule session_reachable.step)
  have "session_step (\<lparr>xfer = WaitingForSender 0, running = rs, queue = q, next_relay = n\<rparr> :: nat Session)
      \<lparr>xfer = Active n, running = n # rs, queue = q, next_relay = Suc n\<rparr>"
    using arrive_step [of "\<lambda>_. False" rs n "SenderArrived 1 []" "WaitingForSender 0" "Active n"
        "[Paired 1 0 [] n]" q]
    by (simp add: handle_send_event_def starts_relay_def)
  with w show ?thesis by (rule session_reachable.step)
qed

text \<open>
  A late notification can free a busy session: a relay's SendDone that is still queued when
  its finished task is replaced by a newer pairing is handled afterwards and resets the newer,
  running transfer to Idle; the next pair of peers then starts a second relay beside it.
\<close>

theorem stale_end_frees_running_relay:
  "(\<exists>c :: nat Session. session_reachable c \<and> xfer c = Idle \<and> running c \<noteq> [])
   \<and> (\<exists>c :: nat Session. session_reachable c \<and> distinct (running c) \<and> length (running c) = 2)"
proof -
  have "session_reachable (\<lparr>xfer = Idle, running = [], queue = [], next_relay = 0\<rparr> :: nat Session)"
    using session_reachable.start by (simp add: session_start_def)
  then have "session_reachable
      (\<lparr>xfer = Active 0, running = [0], queue = [], next_relay = 1\<rparr> :: nat Session)"
    using pairing [of Idle "[]" "[]" 0] by simp
  moreover have "session_step (\<lparr>xfer = Active 0, running = [0], queue = [], next_relay = 1\<rparr> :: nat Session)
      \<lparr>xfer = Active 0, running = [], queue = [SendDone], next_relay = 1\<rparr>"
    using finish_step [of 0 "[0]" SendDone "Active 0" "[]" 1] by (simp add: is_end_frame_def)
  ultimately have "session_reachable
      (\<lparr>xfer = Active 0, running = [], queue = [SendDone], next_relay = 1\<rparr> :: nat Session)"
    by (rule session_reachable.step)
  then have "session_reachable
      (\<lparr>xfer = Active 1, running = [1], queue = [SendDone], next_relay = 2\<rparr> :: nat Session)"
    using pairing [of "Active 0" "[]" "[SendDone]" 1] by (simp add: numeral_2_eq_2)
  moreover have "session_step
      (\<lparr>xfer = Active 1, running = [1], queue = [SendDone], next_relay = 2\<rparr> :: nat Session)
      \<lparr>xfer = Idle, running = [1], queue = [], next_relay = 2\<rparr>"
    using notify_step [of "Active 1" "[1]" SendDone "[]" 2]
    by (simp add: handle_send_notification_def is_end_frame_def)
  ultimately have idle: "session_reachable
      (\<lparr>xfer = Idle, running = [1], queue = [], next_relay = 2\<rparr> :: nat Session)"
    by (rule session_reachable.step)
  then have "session_reachable
      (\<lparr>xfer = Active 2, running = [2, 1], queue = [], next_relay = 3\<rparr> :: nat Session)"
    using pairing [of Idle "[1]" "[]" 2] by simp
  moreover have "distinct [2, 1 :: nat]" "length [2, 1 :: nat] = 2" by simp_all
  ultimately show ?thesis
    using idle by (metis Session.select_convs(1,2) list.distinct(1))
qed

text \<open>The runs in which an arrival is handled only when no notification is queued.\<close>

inductive drained_reachable :: "'s Session \<Rightarrow> bool" where
  dstart: "drained_reachable session_start"
| darrive: "drained_reachable c \<Longrightarrow> queue c = [] \<Longrightarrow>
     handle_send_event dead (\<lambda>r. r \<notin> set (running c)) (next_relay c) ev (xfer c) = (st, vs) \<Longrightarrow>
     drained_reachable
       (if starts_relay vs
        then c\<lparr>xfer := st, running := next_relay c # running c, next_relay := Suc (next_relay c)\<rparr>
        else c\<lparr>xfer := st\<rparr>)"
| dfinish: "drained_reachable c \<Longrightarrow> r \<in> set (running c) \<Longrightarrow> is_end_frame f \<Longrightarrow>
     drained_reachable (c\<lparr>running := removeAll r (running c), queue := queue c @ [f]\<rparr>)"
| dnotify: "drained_reachable c \<Longrightarrow> queue c = f # fs \<Longrightarrow>
     drained_reachable (c\<lparr>queue := fs, xfer := handle_send_notification f (xfer c)\<rparr>)"

definition one_relay :: "'s Session \<Rightarrow> bool" where
  "one_relay c \<longleftrightarrow>
     running c = [] \<and> queue c = [] \<and> (\<forall>r. xfer c \<noteq> Active r)
     \<or> (\<exists>r. running c = [r] \<and> xfer c = Active r \<and> queue c = [])
     \<or> (\<exists>r f. running c = [] \<and> xfer c = Active r \<and> queue c = [f] \<and> is_end_frame f)"

lemma handle_send_event_cases:
  assumes "handle_send_event dead fin n ev x = (st, vs)" and "\<And>r. x = Active r \<Longrightarrow> \<not> fin r"
  shows "if starts_relay vs then st = Active n \<and> (\<forall>r. x \<noteq> Active r)
    else st = x \<or> (\<forall>r. x \<noteq> Active r) \<and> (\<forall>r. st \<noteq> Active r)"
  using assms
  by (cases x; cases ev)
    (auto simp: handle_send_event_def starts_relay_def split: if_splits)

lemma one_relay_invariant: "drained_reachable c \<Longrightarrow> one_relay c"
proof (induction rule: drained_reachable.induct)
  case dstart
  show ?case by (simp add: one_relay_def session_start_def)
next
  case (darrive c dead ev st vs)
  have "\<And>r. xfer c = Active r \<Longrightarrow> \<not> r \<notin> set (running c)"
    using darrive.IH darrive.hyps(2) by (auto simp: one_relay_def)
  from handle_send_event_cases [OF darrive.hyps(3) this] darrive.IH darrive.hyps(2)
  show ?case by (auto simp: one_relay_def split: if_splits)
next
  case (dfinish c r f)
  then show ?case by (auto simp: one_relay_def)
next
  case (dnotify c f fs)
  then show ?case by (auto simp: one_relay_def handle_send_notification_def)
qed

text \<open>
  When arrivals are handled with no notification queued, at most one relay ever runs, and
  the session knows it: a running relay is the one of the Active state, and a session that is
  not Active has none.
\<close>

theorem drained_session_runs_one_relay:
  assumes "drained_reachable c"
  shows "length (running c) \<le> 1 \<and> (running c = [] \<or> xfer c = Active (hd (running c)))"
  using one_relay_invariant [OF assms] by (auto simp: one_relay_def)

lemma drained_example:
  "drained_reachable (\<lparr>xfer = Active 0, running = [0], queue = [], next_relay = 1\<rparr> :: nat Session)"
proof -
  have "drained_reachable (session_start\<lparr>xfer := WaitingForSender 5\<rparr> :: nat Session)"
    using drained_reachable.darrive [OF drained_reachable.dstart,
        of "\<lambda>_. False" "ReceiverArrived 5" "WaitingForSender 5" "[]"]
    by (simp add: session_start_def handle_send_event_def starts_relay_def)
  from drained_reachable.darrive [OF this, of "\<lambda>_. False" "SenderArrived 6 []" "Active 0" "[Paired 6 5 [] 0]"]
  show ?thesis by (simp add: session_start_def handle_send_event_def starts_relay_def)
qed

theorem drained_session_runs_one_relay_witness:
  "length (running (\<lparr>xfer = Active 0, running = [0], queue = [], next_relay = 1\<rparr> :: nat Session)) \<le> 1"
  using drained_session_runs_one_relay [OF drained_example] by blast

end
