(* ===== verification/Server_Relay.thy ===== *)
theory Server_Relay
  imports Replay
begin

text \<open>
  \<open>ServerRelay\<close> of \<open>src/src/server.rs\<close>: the state of the attached relay and its handlers, for the
  client's frames and for the events of the agent, tunnel and port-forward tasks.  A writer (the
  sending half of a channel to a relay task) and a service stream are numbers.  What the
  operating system answers is the environment \<open>Env\<close>: which writers are full, which connects and
  binds succeed, the time.  The effects of a handler are a list of \<open>Out\<close>.
\<close>

section \<open>State\<close>

record Metadata =
  m_attached :: bool
  m_last_heartbeat :: nat
  m_last_activity :: nat
  m_client_name :: rstring
  m_wants_agent :: bool
  m_wants_open :: bool
  m_linger_secs :: u64

record AgentForwardState =
  enabled :: bool
  agent_channels :: "u32 \<rightharpoonup> nat"
  acceptor :: bool

record TunnelRelayState =
  tport :: "u16 option"
  tunnel_channels :: "u32 \<rightharpoonup> nat"
  idle_deadline :: "nat option"
  idle_timeout :: nat

record PortForwardState =
  has_listener :: bool
  fwd_channels :: "u32 \<rightharpoonup> nat"
  has_stop :: bool
  fwd_target :: u16

record PortForwardTable =
  forwards :: "u32 \<rightharpoonup> PortForwardState"
  pf_channels :: "u32 \<rightharpoonup> u32 \<times> nat"
  pending_remote :: "u32 \<rightharpoonup> nat"

record ServerRelay =
  pending_input :: "byte list list"
  pending_input_bytes :: nat
  agent :: AgentForwardState
  tunnel :: TunnelRelayState
  pf :: PortForwardTable
  open_forward_enabled :: bool
  paste_deadline :: "nat option"
  pending_paste :: "nat option"
  caps :: u32
  meta :: "Metadata option"

record Env =
  full :: "nat \<Rightarrow> bool"
  connects :: "u16 \<Rightarrow> bool"
  binds :: "u16 \<Rightarrow> bool"
  agent_binds :: bool
  now :: nat
  fresh :: nat

datatype Out =
    ToClient Frame
  | ToWriter nat "byte list"
  | SvcWrite nat "byte list"
  | ResizePty u16 u16
  | PasteReply nat "byte list option"
  | CopyReply nat bool
  | StartAcceptor
  | StopAcceptor
  | StartListener u32
  | StopListener u32
  | StopForwards
  | StartReader u32
  | ToPty "byte list"

abbreviation (input) PENDING_INPUT_CAP :: nat where "PENDING_INPUT_CAP \<equiv> 1048576"

definition update_meta :: "(Metadata \<Rightarrow> Metadata) \<Rightarrow> ServerRelay \<Rightarrow> ServerRelay" where
  "update_meta f s = s\<lparr>meta := map_option f (meta s)\<rparr>"

definition touch_activity :: "Env \<Rightarrow> Metadata \<Rightarrow> Metadata" where
  "touch_activity e m = m\<lparr>m_last_activity := now e\<rparr>"

definition touch_presence :: "Env \<Rightarrow> Metadata \<Rightarrow> Metadata" where
  "touch_presence e m = m\<lparr>m_last_heartbeat := now e\<rparr>"

definition mark_detached :: "Env \<Rightarrow> Metadata \<Rightarrow> Metadata" where
  "mark_detached e m = (touch_presence e m)\<lparr>m_attached := False\<rparr>"

section \<open>The sub-states\<close>

definition agent_enable :: "Env \<Rightarrow> AgentForwardState \<Rightarrow> AgentForwardState \<times> Out list" where
  "agent_enable e a =
     (let a = a\<lparr>enabled := True\<rparr> in
      if \<not> acceptor a \<and> agent_binds e then (a\<lparr>acceptor := True\<rparr>, [StartAcceptor]) else (a, []))"

definition agent_disable :: "AgentForwardState \<Rightarrow> AgentForwardState \<times> Out list" where
  "agent_disable a =
     (a\<lparr>enabled := False, agent_channels := Map.empty, acceptor := False\<rparr>,
      if acceptor a then [StopAcceptor] else [])"

definition tunnel_teardown :: "TunnelRelayState \<Rightarrow> TunnelRelayState" where
  "tunnel_teardown t = t\<lparr>tunnel_channels := Map.empty, tport := None, idle_deadline := None\<rparr>"

definition pf_teardown :: "PortForwardTable \<Rightarrow> PortForwardTable" where
  "pf_teardown p = p\<lparr>forwards := Map.empty, pf_channels := Map.empty, pending_remote := Map.empty\<rparr>"

text \<open>The idle deadline is armed when the last channel of a tunnel is gone.\<close>

definition arm_idle :: "Env \<Rightarrow> TunnelRelayState \<Rightarrow> TunnelRelayState" where
  "arm_idle e t =
     (if tunnel_channels t = Map.empty \<and> tport t \<noteq> None
      then t\<lparr>idle_deadline := Some (now e + idle_timeout t)\<rparr> else t)"

definition tunnel_remove :: "u32 \<Rightarrow> TunnelRelayState \<Rightarrow> TunnelRelayState" where
  "tunnel_remove c t = t\<lparr>tunnel_channels := (tunnel_channels t)(c := None)\<rparr>"

text \<open>\<open>fwd.channels.remove(&channel_id)\<close> of the forward a channel belonged to.\<close>

definition forward_forget :: "u32 \<Rightarrow> u32 \<Rightarrow> PortForwardTable \<Rightarrow> PortForwardTable" where
  "forward_forget fid c p =
     (case forwards p fid of
        Some fwd \<Rightarrow> p\<lparr>forwards := (forwards p)(fid \<mapsto> fwd\<lparr>fwd_channels := (fwd_channels fwd)(c := None)\<rparr>)\<rparr>
      | None \<Rightarrow> p)"

definition forward_insert :: "u32 \<Rightarrow> u32 \<Rightarrow> nat \<Rightarrow> PortForwardTable \<Rightarrow> PortForwardTable" where
  "forward_insert fid c w p =
     (case forwards p fid of
        Some fwd \<Rightarrow> p\<lparr>forwards := (forwards p)(fid \<mapsto> fwd\<lparr>fwd_channels := (fwd_channels fwd)(c \<mapsto> w)\<rparr>)\<rparr>
      | None \<Rightarrow> p)"

text \<open>Removing a forward: its channels leave the table, its tasks are aborted.\<close>

definition forward_remove :: "u32 \<Rightarrow> PortForwardTable \<Rightarrow> PortForwardTable \<times> Out list" where
  "forward_remove fid p =
     (case forwards p fid of
        None \<Rightarrow> (p, [])
      | Some fwd \<Rightarrow>
          (p\<lparr>forwards := (forwards p)(fid := None),
             pf_channels := (\<lambda>c. if c \<in> dom (fwd_channels fwd) then None else pf_channels p c)\<rparr>,
           if has_listener fwd then [StopListener fid] else []))"

section \<open>The client's frames\<close>

datatype Incoming = Got Frame | StreamError | StreamEnd

definition agent_data :: "Env \<Rightarrow> ServerRelay \<Rightarrow> u32 \<Rightarrow> byte list \<Rightarrow> ServerRelay \<times> Out list" where
  "agent_data e s c d =
     (case agent_channels (agent s) c of
        None \<Rightarrow> (s, [])
      | Some w \<Rightarrow>
          if full e w then
            (s\<lparr>agent := (agent s)\<lparr>agent_channels := (agent_channels (agent s))(c := None)\<rparr>\<rparr>,
             [ToClient (AgentClose c)])
          else (s, [ToWriter w d]))"

definition tunnel_open :: "Env \<Rightarrow> ServerRelay \<Rightarrow> u32 \<Rightarrow> ServerRelay \<times> Out list" where
  "tunnel_open e s c =
     (case tport (tunnel s) of
        None \<Rightarrow> (s, [])
      | Some port \<Rightarrow>
          (let t = (tunnel s)\<lparr>idle_deadline := None\<rparr> in
           if connects e port then
             (s\<lparr>tunnel := t\<lparr>tunnel_channels := (tunnel_channels t)(c \<mapsto> fresh e)\<rparr>\<rparr>, [StartReader c])
           else (s\<lparr>tunnel := t\<rparr>, [ToClient (TunnelClose c)])))"

definition tunnel_data :: "Env \<Rightarrow> ServerRelay \<Rightarrow> u32 \<Rightarrow> byte list \<Rightarrow> ServerRelay \<times> Out list" where
  "tunnel_data e s c d =
     (case tunnel_channels (tunnel s) c of
        None \<Rightarrow> (s, [])
      | Some w \<Rightarrow>
          if full e w then
            (s\<lparr>tunnel := arm_idle e (tunnel_remove c (tunnel s))\<rparr>, [ToClient (TunnelClose c)])
          else (s, [ToWriter w d]))"

definition pf_ready :: "ServerRelay \<Rightarrow> u32 \<Rightarrow> ServerRelay \<times> Out list" where
  "pf_ready s fid =
     (case pending_remote (pf s) fid of
        None \<Rightarrow> (s, [])
      | Some svc \<Rightarrow>
          (let p = (pf s)\<lparr>pending_remote := (pending_remote (pf s))(fid := None)\<rparr>;
               p = (case forwards p fid of
                  Some fwd \<Rightarrow> p\<lparr>forwards := (forwards p)(fid \<mapsto> fwd\<lparr>has_stop := True\<rparr>)\<rparr>
                | None \<Rightarrow> p)
           in (s\<lparr>pf := p\<rparr>, [SvcWrite svc [0x01]])))"

definition pf_open ::
  "Env \<Rightarrow> ServerRelay \<Rightarrow> u32 \<Rightarrow> u32 \<Rightarrow> u16 \<Rightarrow> ServerRelay \<times> Out list" where
  "pf_open e s fid c target =
     (if forwards (pf s) fid = None then (s, [])
      else if connects e target then
        (let p = (pf s)\<lparr>pf_channels := (pf_channels (pf s))(c \<mapsto> (fid, fresh e))\<rparr>
         in (s\<lparr>pf := forward_insert fid c (fresh e) p\<rparr>, [StartReader c]))
      else (s, [ToClient (PortForwardClose c)]))"

definition pf_data :: "Env \<Rightarrow> ServerRelay \<Rightarrow> u32 \<Rightarrow> byte list \<Rightarrow> ServerRelay \<times> Out list" where
  "pf_data e s c d =
     (case pf_channels (pf s) c of
        None \<Rightarrow> (s, [])
      | Some (fid, w) \<Rightarrow>
          if full e w then
            (s\<lparr>pf := forward_forget fid c ((pf s)\<lparr>pf_channels := (pf_channels (pf s))(c := None)\<rparr>)\<rparr>,
             [ToClient (PortForwardClose c)])
          else (s, [ToWriter w d]))"

definition pf_close :: "ServerRelay \<Rightarrow> u32 \<Rightarrow> ServerRelay" where
  "pf_close s c =
     (case pf_channels (pf s) c of
        None \<Rightarrow> s
      | Some (fid, w) \<Rightarrow>
          s\<lparr>pf := forward_forget fid c ((pf s)\<lparr>pf_channels := (pf_channels (pf s))(c := None)\<rparr>)\<rparr>)"

definition pf_stop :: "ServerRelay \<Rightarrow> u32 \<Rightarrow> ServerRelay \<times> Out list" where
  "pf_stop s fid =
     (let declined = (case pending_remote (pf s) fid of
            Some svc \<Rightarrow> [SvcWrite svc [0x02], SvcWrite svc (ascii ''client declined forward'')]
          | None \<Rightarrow> []);
          p = (pf s)\<lparr>pending_remote := (pending_remote (pf s))(fid := None)\<rparr>;
          (p, outs) = forward_remove fid p
      in (s\<lparr>pf := p\<rparr>, declined @ outs))"

definition pf_request ::
  "Env \<Rightarrow> ServerRelay \<Rightarrow> u32 \<Rightarrow> u8 \<Rightarrow> u16 \<Rightarrow> u16 \<Rightarrow> ServerRelay \<times> Out list" where
  "pf_request e s fid direction listen target =
     (let state = (\<lambda>l. \<lparr>has_listener = l, fwd_channels = Map.empty, has_stop = False, fwd_target = target\<rparr>);
          put = (\<lambda>l. s\<lparr>pf := (pf s)\<lparr>forwards := (forwards (pf s))(fid \<mapsto> state l)\<rparr>\<rparr>)
      in if direction = 0 then
           (if binds e listen then (put True, [StartListener fid, ToClient (PortForwardReady fid)])
            else (s, [ToClient (PortForwardStop fid)]))
         else (put False, [ToClient (PortForwardReady fid)]))"

definition queue_input :: "Env \<Rightarrow> ServerRelay \<Rightarrow> byte list \<Rightarrow> ServerRelay" where
  "queue_input e s d =
     (let s = update_meta (touch_activity e) s in
      if PENDING_INPUT_CAP < pending_input_bytes s + length d then s
      else s\<lparr>pending_input_bytes := pending_input_bytes s + length d,
             pending_input := pending_input s @ [d]\<rparr>)"

text \<open>\<open>handle_client_frame\<close>: the new state, the effects, and whether the client is gone.\<close>

definition handle_client_frame ::
  "Env \<Rightarrow> ServerRelay \<Rightarrow> Incoming \<Rightarrow> ServerRelay \<times> Out list \<times> bool" where
  "handle_client_frame e s inc =
     (case inc of
        StreamEnd \<Rightarrow> (s, [], True)
      | StreamError \<Rightarrow> (s, [], True)
      | Got f \<Rightarrow>
          (case f of
             Data d \<Rightarrow> (queue_input e s d, [], False)
           | Resize c r \<Rightarrow> (let (c, r) = clamp_winsize c r in (s, [ResizePty c r], False))
           | Ping \<Rightarrow> (update_meta (touch_presence e) s, [ToClient Pong], False)
           | AgentForward \<Rightarrow>
               (let (a, outs) = agent_enable e (agent s)
                in (update_meta (\<lambda>m. m\<lparr>m_wants_agent := True\<rparr>) (s\<lparr>agent := a\<rparr>), outs, False))
           | AgentData c d \<Rightarrow> (let (s, outs) = agent_data e s c d in (s, outs, False))
           | AgentClose c \<Rightarrow>
               (s\<lparr>agent := (agent s)\<lparr>agent_channels := (agent_channels (agent s))(c := None)\<rparr>\<rparr>, [], False)
           | OpenForward \<Rightarrow>
               (update_meta (\<lambda>m. m\<lparr>m_wants_open := True\<rparr>) (s\<lparr>open_forward_enabled := True\<rparr>), [], False)
           | TunnelOpen c \<Rightarrow> (let (s, outs) = tunnel_open e s c in (s, outs, False))
           | TunnelData c d \<Rightarrow> (let (s, outs) = tunnel_data e s c d in (s, outs, False))
           | TunnelClose c \<Rightarrow> (s\<lparr>tunnel := arm_idle e (tunnel_remove c (tunnel s))\<rparr>, [], False)
           | PortForwardReady fid \<Rightarrow> (let (s, outs) = pf_ready s fid in (s, outs, False))
           | PortForwardOpen fid c target \<Rightarrow> (let (s, outs) = pf_open e s fid c target in (s, outs, False))
           | PortForwardData c d \<Rightarrow> (let (s, outs) = pf_data e s c d in (s, outs, False))
           | PortForwardClose c \<Rightarrow> (pf_close s c, [], False)
           | PortForwardStop fid \<Rightarrow> (let (s, outs) = pf_stop s fid in (s, outs, False))
           | ClipboardData d \<Rightarrow>
               (s\<lparr>paste_deadline := None, pending_paste := None\<rparr>,
                case pending_paste s of Some r \<Rightarrow> [PasteReply r (Some d)] | None \<Rightarrow> [], False)
           | PortForwardRequest fid direction listen target \<Rightarrow>
               (let (s, outs) = pf_request e s fid direction listen target in (s, outs, False))
           | Env vars \<Rightarrow> (s, [], False)
           | Exit code \<Rightarrow> (s, [], True)
           | _ \<Rightarrow> (s, [], False)))"

text \<open>
  The relay loop answers two frames itself before it calls the handler; \<open>diag\<close> is the text of
  \<open>format_server_diag\<close>.
\<close>

definition relay_frame ::
  "Env \<Rightarrow> (ServerRelay \<Rightarrow> rstring) \<Rightarrow> ServerRelay \<Rightarrow> Incoming \<Rightarrow> ServerRelay \<times> Out list \<times> bool" where
  "relay_frame e diag s inc =
     (case inc of
        Got DiagRequest \<Rightarrow> (s, [ToClient (DiagResponse (diag s))], False)
      | Got (SetLinger session secs) \<Rightarrow>
          (update_meta (\<lambda>m. m\<lparr>m_linger_secs := secs\<rparr>) s, [ToClient OkFrame], False)
      | _ \<Rightarrow> handle_client_frame e s inc)"

section \<open>Events of the tasks\<close>

datatype AgentEvent = AgentAccepted u32 nat | AgentGot u32 "byte list" | AgentEnded u32

definition handle_agent_event :: "ServerRelay \<Rightarrow> AgentEvent \<Rightarrow> ServerRelay \<times> Out list" where
  "handle_agent_event s ev =
     (case ev of
        AgentAccepted c w \<Rightarrow>
          (if enabled (agent s) then
             (s\<lparr>agent := (agent s)\<lparr>agent_channels := (agent_channels (agent s))(c \<mapsto> w)\<rparr>\<rparr>,
              [ToClient (AgentOpen c)])
           else (s, []))
      | AgentGot c d \<Rightarrow>
          (s, if enabled (agent s) \<and> agent_channels (agent s) c \<noteq> None
              then [ToClient (AgentData c d)] else [])
      | AgentEnded c \<Rightarrow>
          (if agent_channels (agent s) c \<noteq> None then
             (s\<lparr>agent := (agent s)\<lparr>agent_channels := (agent_channels (agent s))(c := None)\<rparr>\<rparr>,
              [ToClient (AgentClose c)])
           else (s, [])))"

text \<open>
  \<open>redirect\<close> is the port \<open>extract_redirect_port\<close> finds in the URL with the \<open>url\<close> crate, when
  \<open>port_in_use\<close> holds for it.
\<close>

definition handle_open_event ::
  "ServerRelay \<Rightarrow> rstring \<Rightarrow> u16 option \<Rightarrow> nat \<Rightarrow> ServerRelay \<times> Out list" where
  "handle_open_event s url redirect svc =
     (if open_forward_enabled s then
        (case redirect of
           Some port \<Rightarrow>
             (s\<lparr>tunnel := (tunnel s)\<lparr>tport := Some port, idle_deadline := None\<rparr>\<rparr>,
              [ToClient (TunnelListen port), ToClient (OpenUrl url), SvcWrite svc [0x01]])
         | None \<Rightarrow> (s, [ToClient (OpenUrl url), SvcWrite svc [0x01]]))
      else (s, [SvcWrite svc [0x00]]))"

datatype TunnelEvent = TunnelGot u32 "byte list" | TunnelEnded u32

definition handle_tunnel_event :: "Env \<Rightarrow> ServerRelay \<Rightarrow> TunnelEvent \<Rightarrow> ServerRelay \<times> Out list" where
  "handle_tunnel_event e s ev =
     (case ev of
        TunnelGot c d \<Rightarrow>
          (s, if tunnel_channels (tunnel s) c \<noteq> None then [ToClient (TunnelData c d)] else [])
      | TunnelEnded c \<Rightarrow>
          (if tunnel_channels (tunnel s) c \<noteq> None then
             (s\<lparr>tunnel := arm_idle e (tunnel_remove c (tunnel s))\<rparr>, [ToClient (TunnelClose c)])
           else (s, [])))"

definition tunnel_idle_fired :: "ServerRelay \<Rightarrow> ServerRelay" where
  "tunnel_idle_fired s =
     (if tunnel_channels (tunnel s) = Map.empty then s\<lparr>tunnel := tunnel_teardown (tunnel s)\<rparr> else s)"

datatype PortForwardEvent =
    PfAccepted u32 u32 nat
  | PfGot u32 "byte list"
  | PfEnded u32
  | PfStopped u32

definition handle_pf_event :: "ServerRelay \<Rightarrow> PortForwardEvent \<Rightarrow> ServerRelay \<times> Out list" where
  "handle_pf_event s ev =
     (case ev of
        PfAccepted fid c w \<Rightarrow>
          (case forwards (pf s) fid of
             None \<Rightarrow> (s, [])
           | Some fwd \<Rightarrow>
               (let p = forward_insert fid c w (pf s)
                in (s\<lparr>pf := p\<lparr>pf_channels := (pf_channels p)(c \<mapsto> (fid, w))\<rparr>\<rparr>,
                    [ToClient (PortForwardOpen fid c (fwd_target fwd))])))
      | PfGot c d \<Rightarrow>
          (s, if pf_channels (pf s) c \<noteq> None then [ToClient (PortForwardData c d)] else [])
      | PfEnded c \<Rightarrow>
          (case pf_channels (pf s) c of
             None \<Rightarrow> (s, [])
           | Some (fid, w) \<Rightarrow> (pf_close s c, [ToClient (PortForwardClose c)]))
      | PfStopped fid \<Rightarrow>
          (case forwards (pf s) fid of
             None \<Rightarrow> (s, [])
           | Some fwd \<Rightarrow>
               (let (p, outs) = forward_remove fid (pf s)
                in (s\<lparr>pf := p\<rparr>, outs @ [ToClient (PortForwardStop fid)]))))"

text \<open>The clipboard arm of the relay loop, and the paste deadline.\<close>

datatype ClipboardEvent = Copy "byte list" nat | Paste nat

abbreviation (input) PASTE_TIMEOUT :: nat where "PASTE_TIMEOUT \<equiv> 5"

definition handle_clipboard_event ::
  "Env \<Rightarrow> ServerRelay \<Rightarrow> ClipboardEvent \<Rightarrow> ServerRelay \<times> Out list" where
  "handle_clipboard_event e s ev =
     (if and (caps s) CAP_CLIPBOARD = 0 then
        (s, case ev of Paste r \<Rightarrow> [PasteReply r None] | Copy d r \<Rightarrow> [CopyReply r False])
      else
        (case ev of
           Copy d r \<Rightarrow> (s, [ToClient (ClipboardSet d), CopyReply r True])
         | Paste r \<Rightarrow>
             (s\<lparr>pending_paste := Some r, paste_deadline := Some (now e + PASTE_TIMEOUT)\<rparr>,
              (case pending_paste s of Some old \<Rightarrow> [PasteReply old None] | None \<Rightarrow> [])
                @ [ToClient ClipboardGet])))"

definition paste_deadline_fired :: "ServerRelay \<Rightarrow> ServerRelay \<times> Out list" where
  "paste_deadline_fired s =
     (s\<lparr>paste_deadline := None, pending_paste := None\<rparr>,
      case pending_paste s of Some r \<Rightarrow> [PasteReply r None] | None \<Rightarrow> [])"

section \<open>Change of client\<close>

definition drop_forwards :: "ServerRelay \<Rightarrow> ServerRelay \<times> Out list" where
  "drop_forwards s =
     (let (a, outs) = agent_disable (agent s)
      in (s\<lparr>agent := a, tunnel := tunnel_teardown (tunnel s), pf := pf_teardown (pf s),
            open_forward_enabled := False, pending_paste := None\<rparr>,
          outs @ [StopForwards] @ (case pending_paste s of Some r \<Rightarrow> [PasteReply r None] | None \<Rightarrow> [])))"

text \<open>A new client takes over while one is attached.\<close>

definition takeover :: "Env \<Rightarrow> ServerRelay \<Rightarrow> rstring \<Rightarrow> u32 \<Rightarrow> ServerRelay \<times> Out list" where
  "takeover e s nm new_caps =
     (let (s', outs) = drop_forwards (s\<lparr>caps := new_caps\<rparr>)
      in (update_meta (\<lambda>m. (touch_presence e m)\<lparr>m_client_name := nm\<rparr>) (s'\<lparr>paste_deadline := None\<rparr>),
          ToClient Detached # outs))"

text \<open>The client is gone: the arm \<open>RelayExit::ClientGone\<close> after the relay loop.\<close>

definition client_gone :: "Env \<Rightarrow> ServerRelay \<Rightarrow> ServerRelay \<times> Out list" where
  "client_gone e s = drop_forwards (update_meta (mark_detached e) s)"

text \<open>While no client is attached: requests are refused, task events are dropped.\<close>

definition detached_open_event :: "nat \<Rightarrow> Out list" where
  "detached_open_event svc = [SvcWrite svc [0x00]]"

definition detached_clipboard_event :: "ClipboardEvent \<Rightarrow> Out list" where
  "detached_clipboard_event ev =
     (case ev of Paste r \<Rightarrow> [PasteReply r None] | Copy d r \<Rightarrow> [CopyReply r False])"

definition attach_detached :: "Env \<Rightarrow> ServerRelay \<Rightarrow> rstring \<Rightarrow> u32 \<Rightarrow> ServerRelay" where
  "attach_detached e s nm new_caps =
     update_meta (\<lambda>m. (touch_presence e m)\<lparr>m_client_name := nm, m_attached := True\<rparr>)
       (s\<lparr>caps := new_caps, paste_deadline := None\<rparr>)"

section \<open>Input that waits for the PTY\<close>

datatype WriteResult = Wrote nat | WouldBlock | WriteEIO | WriteError

text \<open>
  \<open>drain_pending_input\<close> over the results of its \<open>write\<close> calls; it stops when they run out.  A
  \<open>write\<close> reports at most the bytes it was given.
\<close>

fun drain_pending ::
  "byte list list \<Rightarrow> nat \<Rightarrow> WriteResult list \<Rightarrow> byte list list \<times> nat \<times> byte list \<times> bool" where
  "drain_pending [] n rs = ([], n, [], True)"
| "drain_pending (d # ds) n [] = (d # ds, n, [], True)"
| "drain_pending (d # ds) n (r # rs) =
     (case r of
        Wrote k \<Rightarrow>
          (if length d \<le> k then
             (let (q, n', out, ok) = drain_pending ds (n - length d) rs in (q, n', d @ out, ok))
           else
             (let (q, n', out, ok) = drain_pending (drop k d # ds) (n - k) rs
              in (q, n', take k d @ out, ok)))
      | WouldBlock \<Rightarrow> (d # ds, n, [], True)
      | WriteEIO \<Rightarrow> ([], 0, [], True)
      | WriteError \<Rightarrow> (d # ds, n, [], False))"

end
