(* ===== verification/Server_Session.thy ===== *)
theory Server_Session
  imports Server_Relay
begin

text \<open>
  The two select loops of \<open>session_main\<close> in \<open>src/src/server.rs\<close>, as one step per event: the relay
  loop while a client is attached, the drain loop while none is.  The PTY's output, the tails and
  the transfers are the subject of \<open>Replay\<close> and \<open>Rendezvous\<close>.  An event arrives together with
  the answers \<open>Env\<close> of the operating system at that moment.
\<close>

text \<open>
  \<open>EvLost\<close> is every way the relay loop gives a client up itself: its silence for
  \<open>idle_evict_timeout\<close>, and a failed or timed-out send of the PTY's output.  \<open>EvClient\<close> is
  \<open>ClientConn::Active\<close>, with whether the replay to the new client succeeds.  \<open>EvShellExit\<close> has
  the exit code and the chunks that \<open>drain_pty_final\<close> reads.
\<close>

datatype RelayEvent =
    EvFrame Incoming
  | EvWritable "WriteResult list"
  | EvLost
  | EvClient rstring u32 bool
  | EvShutdown
  | EvAgent AgentEvent
  | EvOpen rstring "u16 option" nat
  | EvTunnel TunnelEvent
  | EvTunnelIdle
  | EvPf PortForwardEvent
  | EvClipboard ClipboardEvent
  | EvPasteDeadline
  | EvShellExit i32 "byte list list"

datatype RelayExit = ClientGone | ShellExited i32 "byte list list" | Shutdown | RelayFailed

definition deadline_passed :: "Env \<Rightarrow> nat option \<Rightarrow> bool" where
  "deadline_passed e d = (case d of Some t \<Rightarrow> t \<le> now e | None \<Rightarrow> False)"

text \<open>The writable arm of both loops; the flag is False when the write fails for good.\<close>

definition drain_input :: "ServerRelay \<Rightarrow> WriteResult list \<Rightarrow> ServerRelay \<times> Out list \<times> bool" where
  "drain_input s rs =
     (if pending_input s = [] then (s, [], True)
      else (let (q, n, out, ok) = drain_pending (pending_input s) (pending_input_bytes s) rs
            in (s\<lparr>pending_input := q, pending_input_bytes := n\<rparr>, [ToPty out], ok)))"

text \<open>One turn of the relay loop: the new state, the effects, and the reason to leave the loop.\<close>

definition relay_event ::
  "Env \<Rightarrow> (ServerRelay \<Rightarrow> rstring) \<Rightarrow> ServerRelay \<Rightarrow> RelayEvent
     \<Rightarrow> ServerRelay \<times> Out list \<times> RelayExit option" where
  "relay_event e diag s ev =
     (let on = (\<lambda>(s, outs). (s, outs, None)) in
      case ev of
        EvFrame inc \<Rightarrow>
          (let (s, outs, gone) = relay_frame e diag s inc
           in (s, outs, if gone then Some ClientGone else None))
      | EvWritable rs \<Rightarrow>
          (let (s, outs, ok) = drain_input s rs in (s, outs, if ok then None else Some RelayFailed))
      | EvLost \<Rightarrow> (s, [], Some ClientGone)
      | EvClient nm c replayed \<Rightarrow> on (takeover e s nm c)
      | EvShutdown \<Rightarrow> (s, [], Some Shutdown)
      | EvAgent a \<Rightarrow> on (handle_agent_event s a)
      | EvOpen url redirect svc \<Rightarrow> on (handle_open_event s url redirect svc)
      | EvTunnel t \<Rightarrow> on (handle_tunnel_event e s t)
      | EvTunnelIdle \<Rightarrow>
          (if deadline_passed e (idle_deadline (tunnel s)) then tunnel_idle_fired s else s, [], None)
      | EvPf p \<Rightarrow> on (handle_pf_event s p)
      | EvClipboard c \<Rightarrow> on (handle_clipboard_event e s c)
      | EvPasteDeadline \<Rightarrow>
          (if deadline_passed e (paste_deadline s) then on (paste_deadline_fired s) else (s, [], None))
      | EvShellExit code chunks \<Rightarrow> (s, [], Some (ShellExited code chunks)))"

text \<open>The state of a session: which of the two loops it is in, and the state of the relay.\<close>

datatype Phase = Attached | Waiting | Ended

type_synonym Session = "Phase \<times> ServerRelay"

text \<open>After the relay loop: the match on the reason.\<close>

definition relay_exit :: "Env \<Rightarrow> ServerRelay \<Rightarrow> RelayExit \<Rightarrow> Session \<times> Out list" where
  "relay_exit e s r =
     (case r of
        ClientGone \<Rightarrow> (let (s, outs) = client_gone e s in ((Waiting, s), outs))
      | ShellExited code chunks \<Rightarrow>
          ((Ended, s), map (\<lambda>c. ToClient (Data c)) chunks @ [ToClient (Exit code)])
      | Shutdown \<Rightarrow> ((Ended, s), [ToClient ServerShutdown])
      | RelayFailed \<Rightarrow> ((Ended, s), []))"

text \<open>One turn of the drain loop: a client attaches, or the event is refused or dropped.\<close>

definition detached_event :: "Env \<Rightarrow> ServerRelay \<Rightarrow> RelayEvent \<Rightarrow> Session \<times> Out list" where
  "detached_event e s ev =
     (case ev of
        EvClient nm c replayed \<Rightarrow>
          (let s = attach_detached e s nm c in
           if replayed then ((Attached, s), [])
           else ((Waiting, update_meta (mark_detached e) s), []))
      | EvWritable rs \<Rightarrow>
          (let (s, outs, ok) = drain_input s rs in ((if ok then Waiting else Ended, s), outs))
      | EvShutdown \<Rightarrow> ((Ended, s), [])
      | EvShellExit code chunks \<Rightarrow> ((Ended, s), [])
      | EvOpen url redirect svc \<Rightarrow> ((Waiting, s), detached_open_event svc)
      | EvClipboard c \<Rightarrow> ((Waiting, s), detached_clipboard_event c)
      | _ \<Rightarrow> ((Waiting, s), []))"

definition session_event ::
  "(ServerRelay \<Rightarrow> rstring) \<Rightarrow> Session \<Rightarrow> Env \<times> RelayEvent \<Rightarrow> Session \<times> Out list" where
  "session_event diag st x =
     (case (st, x) of ((ph, s), (e, ev)) \<Rightarrow>
        (case ph of
           Attached \<Rightarrow>
             (let (s, outs, r) = relay_event e diag s ev in
              case r of
                None \<Rightarrow> ((Attached, s), outs)
              | Some r \<Rightarrow> (let (st, outs') = relay_exit e s r in (st, outs @ outs')))
         | Waiting \<Rightarrow> detached_event e s ev
         | Ended \<Rightarrow> ((Ended, s), [])))"

fun session_run ::
  "(ServerRelay \<Rightarrow> rstring) \<Rightarrow> Session \<Rightarrow> (Env \<times> RelayEvent) list \<Rightarrow> Session \<times> Out list" where
  "session_run diag st [] = (st, [])"
| "session_run diag st (x # xs) =
     (let (st, outs) = session_event diag st x; (st, outs') = session_run diag st xs
      in (st, outs @ outs'))"

text \<open>A session when its shell has just been spawned: the first client is attached.\<close>

definition initial_meta :: "Env \<Rightarrow> nat \<Rightarrow> rstring \<Rightarrow> u64 \<Rightarrow> Metadata" where
  "initial_meta e created nm linger =
     \<lparr>m_attached = True, m_last_heartbeat = now e, m_last_activity = created, m_client_name = nm,
      m_wants_agent = False, m_wants_open = False, m_linger_secs = linger\<rparr>"

definition initial_relay :: "Metadata \<Rightarrow> u32 \<Rightarrow> nat \<Rightarrow> ServerRelay" where
  "initial_relay m c timeout =
     \<lparr>pending_input = [], pending_input_bytes = 0,
      agent = \<lparr>enabled = False, agent_channels = Map.empty, acceptor = False\<rparr>,
      tunnel = \<lparr>tport = None, tunnel_channels = Map.empty, idle_deadline = None, idle_timeout = timeout\<rparr>,
      pf = \<lparr>forwards = Map.empty, pf_channels = Map.empty, pending_remote = Map.empty\<rparr>,
      open_forward_enabled = False, paste_deadline = None, pending_paste = None, caps = c,
      meta = Some m\<rparr>"

end
