(* ===== verification/Server_Relay_Proofs.thy ===== *)
theory Server_Relay_Proofs
  imports Server_Relay
begin

text \<open>
  What the handlers of the attached relay keep: the queue of input, and the two tables of port
  forwarding.
\<close>

section \<open>Input that waits for the PTY\<close>

definition input_ok :: "ServerRelay \<Rightarrow> bool" where
  "input_ok s \<longleftrightarrow> pending_input_bytes s = length (concat (pending_input s))
     \<and> pending_input_bytes s \<le> PENDING_INPUT_CAP"

definition same_input :: "ServerRelay \<Rightarrow> ServerRelay \<Rightarrow> bool" where
  "same_input s t \<longleftrightarrow> pending_input t = pending_input s \<and> pending_input_bytes t = pending_input_bytes s"

lemma same_input_ok: "same_input s t \<Longrightarrow> input_ok s \<Longrightarrow> input_ok t"
  by (simp add: same_input_def input_ok_def)

lemma update_meta_fields [simp]:
  "pending_input (update_meta f s) = pending_input s"
  "pending_input_bytes (update_meta f s) = pending_input_bytes s"
  "agent (update_meta f s) = agent s" "tunnel (update_meta f s) = tunnel s"
  "pf (update_meta f s) = pf s" "pending_paste (update_meta f s) = pending_paste s"
  "open_forward_enabled (update_meta f s) = open_forward_enabled s"
  "caps (update_meta f s) = caps s" "paste_deadline (update_meta f s) = paste_deadline s"
  by (simp_all add: update_meta_def)

lemmas pf_handlers = pf_ready_def pf_open_def pf_data_def pf_close_def pf_stop_def pf_request_def
lemmas frame_handlers = agent_data_def tunnel_open_def tunnel_data_def pf_handlers

lemma frame_input:
  "(\<exists>d. inc = Got (Data d)) \<or> same_input s (fst (handle_client_frame e s inc))"
proof (cases inc)
  case (Got f)
  then show ?thesis
    by (cases f)
      (simp_all add: handle_client_frame_def frame_handlers same_input_def Let_def split_beta
        split: option.splits)
qed (simp_all add: handle_client_frame_def same_input_def)

lemma input_ok_frame: "input_ok s \<Longrightarrow> input_ok (fst (handle_client_frame e s inc))"
  using frame_input [of inc s e]
  by (auto simp: same_input_ok)
    (auto simp: handle_client_frame_def queue_input_def input_ok_def Let_def)

lemma drain_spec:
  assumes "drain_pending ds n rs = (q, n', out, ok)" and "n = length (concat ds)"
    and "WriteEIO \<notin> set rs"
  shows "out @ concat q = concat ds \<and> n' = length (concat q)"
  using assms
proof (induction ds n rs arbitrary: q n' out ok rule: drain_pending.induct)
  case (3 d ds n r rs)
  show ?case
  proof (cases r)
    case (Wrote k)
    show ?thesis
    proof (cases "length d \<le> k")
      case True
      obtain q1 n1 o1 ok1 where r1: "drain_pending ds (n - length d) rs = (q1, n1, o1, ok1)"
        by (metis prod_cases4)
      have "o1 @ concat q1 = concat ds \<and> n1 = length (concat q1)"
        by (rule "3.IH"(1) [OF Wrote True r1]) (use "3.prems" in auto)
      with r1 "3.prems" Wrote True show ?thesis by auto
    next
      case False
      obtain q1 n1 o1 ok1 where r1: "drain_pending (drop k d # ds) (n - k) rs = (q1, n1, o1, ok1)"
        by (metis prod_cases4)
      have "o1 @ concat q1 = concat (drop k d # ds) \<and> n1 = length (concat q1)"
        by (rule "3.IH"(2) [OF Wrote False r1]) (use "3.prems" False in auto)
      moreover have "take k d @ drop k d = d" by simp
      ultimately have "(take k d @ o1) @ concat q1 = d @ concat ds" by simp
      with r1 "3.prems" Wrote False \<open>o1 @ _ = _ \<and> _\<close> show ?thesis by auto
    qed
  qed (use "3.prems" in auto)
qed auto

lemma drain_bound:
  assumes "drain_pending ds n rs = (q, n', out, ok)" and "n = length (concat ds)"
  shows "n' = length (concat q) \<and> n' \<le> n"
  using assms
proof (induction ds n rs arbitrary: q n' out ok rule: drain_pending.induct)
  case (3 d ds n r rs)
  show ?case
  proof (cases r)
    case (Wrote k)
    show ?thesis
    proof (cases "length d \<le> k")
      case True
      obtain q1 n1 o1 ok1 where r1: "drain_pending ds (n - length d) rs = (q1, n1, o1, ok1)"
        by (metis prod_cases4)
      have "n1 = length (concat q1) \<and> n1 \<le> n - length d"
        by (rule "3.IH"(1) [OF Wrote True r1]) (use "3.prems" in auto)
      with r1 "3.prems" Wrote True show ?thesis by auto
    next
      case False
      obtain q1 n1 o1 ok1 where r1: "drain_pending (drop k d # ds) (n - k) rs = (q1, n1, o1, ok1)"
        by (metis prod_cases4)
      have "n1 = length (concat q1) \<and> n1 \<le> n - k"
        by (rule "3.IH"(2) [OF Wrote False r1]) (use "3.prems" False in auto)
      with r1 "3.prems" Wrote False show ?thesis by auto
    qed
  qed (use "3.prems" in auto)
qed auto

section \<open>The tables of port forwarding\<close>

text \<open>Every channel of the table belongs to exactly the forward that lists it, and conversely.\<close>

definition pf_consistent :: "PortForwardTable \<Rightarrow> bool" where
  "pf_consistent p \<longleftrightarrow> (\<forall>c fid w. pf_channels p c = Some (fid, w) \<longleftrightarrow>
     (\<exists>fwd. forwards p fid = Some fwd \<and> fwd_channels fwd c = Some w))"

lemma consistent_empty: "pf_consistent (pf_teardown p)"
  by (simp add: pf_consistent_def pf_teardown_def)

lemma consistent_forget:
  assumes "pf_consistent p" and "pf_channels p c = Some (fid, w)"
  shows "pf_consistent (forward_forget fid c (p\<lparr>pf_channels := (pf_channels p)(c := None)\<rparr>))"
proof -
  from assms obtain fwd where f: "forwards p fid = Some fwd" "fwd_channels fwd c = Some w"
    unfolding pf_consistent_def by blast
  have only: "forwards p g = Some fw \<Longrightarrow> fwd_channels fw c = Some v \<Longrightarrow> g = fid" for g fw v
    using assms unfolding pf_consistent_def by (metis option.inject prod.inject)
  let ?p = "forward_forget fid c (p\<lparr>pf_channels := (pf_channels p)(c := None)\<rparr>)"
  have ch: "pf_channels ?p = (pf_channels p)(c := None)"
    and fw: "forwards ?p = (forwards p)(fid \<mapsto> fwd\<lparr>fwd_channels := (fwd_channels fwd)(c := None)\<rparr>)"
    using f(1) by (simp_all add: forward_forget_def)
  have "pf_channels ?p c' = Some (g, v)
      \<longleftrightarrow> (\<exists>fw. forwards ?p g = Some fw \<and> fwd_channels fw c' = Some v)" for c' g v
  proof (cases "c' = c")
    case True
    with only show ?thesis by (auto simp: ch fw)
  next
    case False
    have "pf_channels p c' = Some (g, v)
        \<longleftrightarrow> (\<exists>fw. forwards p g = Some fw \<and> fwd_channels fw c' = Some v)"
      using assms(1) by (simp add: pf_consistent_def)
    with False f show ?thesis by (auto simp: ch fw)
  qed
  then show ?thesis by (simp add: pf_consistent_def)
qed

lemma consistent_insert:
  assumes "pf_consistent p" and "pf_channels p c = None" and "forwards p fid = Some fwd"
  shows "pf_consistent (forward_insert fid c w (p\<lparr>pf_channels := (pf_channels p)(c \<mapsto> (fid, w))\<rparr>))"
proof -
  have none: "forwards p g = Some fw \<Longrightarrow> fwd_channels fw c = None" for g fw
    using assms(1,2) unfolding pf_consistent_def by (metis not_Some_eq)
  show ?thesis
    using assms none unfolding pf_consistent_def
    by (auto simp: forward_insert_def)
qed

lemma consistent_remove:
  assumes "pf_consistent p"
  shows "pf_consistent (fst (forward_remove fid p))"
proof (cases "forwards p fid")
  case (Some fwd)
  have "pf_channels p c = Some (g, w) \<Longrightarrow> c \<in> dom (fwd_channels fwd) \<longleftrightarrow> g = fid" for c g w
    using assms Some unfolding pf_consistent_def by (metis domD domI option.inject prod.inject)
  then show ?thesis
    using assms Some unfolding pf_consistent_def
    by (auto simp: forward_remove_def)
qed (use assms in \<open>simp add: forward_remove_def\<close>)


text \<open>
  The identifiers a client (or, for accepted connections, the server) chooses are new: what the
  counters of both sides provide within one attachment.
\<close>

definition fresh_frame :: "Incoming \<Rightarrow> ServerRelay \<Rightarrow> bool" where
  "fresh_frame inc s =
     (case inc of
        Got f \<Rightarrow>
          (case f of
             PortForwardOpen fid c target \<Rightarrow> pf_channels (pf s) c = None
           | PortForwardRequest fid direction listen target \<Rightarrow> forwards (pf s) fid = None
           | _ \<Rightarrow> True)
      | _ \<Rightarrow> True)"

definition fresh_accept :: "PortForwardEvent \<Rightarrow> ServerRelay \<Rightarrow> bool" where
  "fresh_accept ev s =
     (case ev of PfAccepted fid c w \<Rightarrow> pf_channels (pf s) c = None | _ \<Rightarrow> True)"

lemma consistent_cong:
  "\<lbrakk>pf_consistent p; forwards q = forwards p; pf_channels q = pf_channels p\<rbrakk> \<Longrightarrow> pf_consistent q"
  by (simp add: pf_consistent_def)

lemma consistent_put:
  assumes "pf_consistent p" and "forwards p fid = None" and "fwd_channels fwd = Map.empty"
  shows "pf_consistent (p\<lparr>forwards := (forwards p)(fid \<mapsto> fwd)\<rparr>)"
  using assms unfolding pf_consistent_def by auto

lemma consistent_stop_handle:
  assumes "pf_consistent p" and "forwards p fid = Some fwd"
  shows "pf_consistent (p\<lparr>forwards := (forwards p)(fid \<mapsto> fwd\<lparr>has_stop := b\<rparr>)\<rparr>)"
  using assms unfolding pf_consistent_def by auto

lemma consistent_close: "pf_consistent (pf s) \<Longrightarrow> pf_consistent (pf (pf_close s c))"
  by (auto simp: pf_close_def consistent_forget split: option.splits)

lemma consistent_data: "pf_consistent (pf s) \<Longrightarrow> pf_consistent (pf (fst (pf_data e s c d)))"
  by (auto simp: pf_data_def consistent_forget split: option.splits)

lemma consistent_open:
  "\<lbrakk>pf_consistent (pf s); pf_channels (pf s) c = None\<rbrakk> \<Longrightarrow> pf_consistent (pf (fst (pf_open e s fid c t)))"
  by (auto simp: pf_open_def Let_def consistent_insert)

lemma consistent_ready: "pf_consistent (pf s) \<Longrightarrow> pf_consistent (pf (fst (pf_ready s fid)))"
  by (auto simp: pf_ready_def Let_def split: option.splits
      intro: consistent_stop_handle consistent_cong)

lemma consistent_stop: "pf_consistent (pf s) \<Longrightarrow> pf_consistent (pf (fst (pf_stop s fid)))"
  by (simp add: pf_stop_def Let_def split_beta)
    (rule consistent_remove, rule consistent_cong, simp_all)

lemma consistent_request:
  "\<lbrakk>pf_consistent (pf s); forwards (pf s) fid = None\<rbrakk>
     \<Longrightarrow> pf_consistent (pf (fst (pf_request e s fid d l t)))"
  by (simp add: pf_request_def Let_def consistent_put)

lemma consistent_frame:
  assumes "pf_consistent (pf s)" and "fresh_frame inc s"
  shows "pf_consistent (pf (fst (handle_client_frame e s inc)))"
proof (cases inc)
  case (Got f)
  then show ?thesis
    using assms
    by (cases f)
      (auto simp: handle_client_frame_def agent_data_def tunnel_open_def tunnel_data_def
        queue_input_def Let_def split_beta fresh_frame_def consistent_close consistent_data consistent_open
        consistent_ready consistent_stop consistent_request split: option.splits)
qed (use assms in \<open>simp_all add: handle_client_frame_def\<close>)

lemma consistent_event:
  assumes "pf_consistent (pf s)" and "fresh_accept ev s"
  shows "pf_consistent (pf (fst (handle_pf_event s ev)))"
proof (cases ev)
  case (PfAccepted fid c w)
  show ?thesis
  proof (cases "forwards (pf s) fid")
    case (Some fwd)
    have "pf_consistent (forward_insert fid c w ((pf s)\<lparr>pf_channels := (pf_channels (pf s))(c \<mapsto> (fid, w))\<rparr>))"
      using assms PfAccepted Some by (simp add: fresh_accept_def consistent_insert)
    then show ?thesis
      using PfAccepted Some
      by (simp add: handle_pf_event_def Let_def forward_insert_def pf_consistent_def)
  qed (use assms PfAccepted in \<open>simp add: handle_pf_event_def\<close>)
next
  case (PfStopped fid)
  with assms consistent_remove show ?thesis
    by (auto simp: handle_pf_event_def split_beta split: option.splits)
qed (use assms in \<open>auto simp: handle_pf_event_def consistent_close split: option.splits\<close>)

end
