(* ===== verification/Server_Session_Proofs.thy ===== *)
theory Server_Session_Proofs
  imports Server_Session Server_Relay_Proofs "HOL-Library.Multiset"
begin

text \<open>
  What holds of a session over every sequence of events: the input queue, the tables of port
  forwarding, the clipboard requests, the silence of the stale tasks of a client that has left,
  and the event that breaks through it.
\<close>

section \<open>Invariants of the relay's state\<close>

text \<open>
  The interface between the two loops and an invariant of the relay's state: \<open>promise\<close> is what
  the events of the relay loop are assumed to respect, in the state they meet.
\<close>

locale session_invariant =
  fixes promise :: "RelayEvent \<Rightarrow> ServerRelay \<Rightarrow> bool" and I :: "ServerRelay \<Rightarrow> bool"
  assumes relay: "\<lbrakk>I s; promise ev s\<rbrakk> \<Longrightarrow> I (fst (relay_event e diag s ev))"
    and drop: "I s \<Longrightarrow> I (fst (drop_forwards s))"
    and attach: "I s \<Longrightarrow> I (attach_detached e s nm c)"
    and drain: "I s \<Longrightarrow> I (fst (drain_input s rs))"
    and detach: "I s \<Longrightarrow> I (update_meta (mark_detached e) s)"

fun keeps ::
  "(RelayEvent \<Rightarrow> ServerRelay \<Rightarrow> bool) \<Rightarrow> (ServerRelay \<Rightarrow> rstring) \<Rightarrow> Session \<Rightarrow> (Env \<times> RelayEvent) list \<Rightarrow> bool" where
  "keeps promise diag st [] = True"
| "keeps promise diag st (x # xs) =
     ((fst st = Attached \<longrightarrow> promise (snd x) (snd st))
      \<and> keeps promise diag (fst (session_event diag st x)) xs)"

lemma session_run_Cons:
  "session_run diag st (x # xs) =
     (fst (session_run diag (fst (session_event diag st x)) xs),
      snd (session_event diag st x) @ snd (session_run diag (fst (session_event diag st x)) xs))"
  by (simp add: split_beta)

declare session_run.simps(2) [simp del]

context session_invariant begin

lemma client_gone: "I s \<Longrightarrow> I (fst (client_gone e s))"
  by (simp add: client_gone_def drop detach)

lemma exit: "I s \<Longrightarrow> I (snd (fst (relay_exit e s r)))"
  by (cases r) (simp_all add: relay_exit_def Let_def split_beta client_gone)

lemma detached: "I s \<Longrightarrow> I (snd (fst (detached_event e s ev)))"
  by (cases ev) (simp_all add: detached_event_def Let_def split_beta attach detach drain)

lemma event:
  assumes "I (snd st)" and "fst st = Attached \<longrightarrow> promise (snd x) (snd st)"
  shows "I (snd (fst (session_event diag st x)))"
proof -
  obtain ph s e ev where st: "st = (ph, s)" "x = (e, ev)" by (metis prod.exhaust)
  show ?thesis
  proof (cases ph)
    case Attached
    with assms st have "I (fst (relay_event e diag s ev))" by (simp add: relay)
    with Attached st show ?thesis
      by (auto simp: session_event_def Let_def split_beta exit split: option.splits)
  qed (use assms st in \<open>simp_all add: session_event_def detached\<close>)
qed

lemma run:
  "\<lbrakk>I (snd st); keeps promise diag st xs\<rbrakk> \<Longrightarrow> I (snd (fst (session_run diag st xs)))"
  by (induction xs arbitrary: st) (simp_all add: session_run_Cons event)

end

lemma keeps_True: "keeps (\<lambda>_ _. True) diag st xs"
  by (induction xs arbitrary: st) simp_all

lemmas task_handlers =
  handle_agent_event_def handle_open_event_def handle_tunnel_event_def handle_pf_event_def
  handle_clipboard_event_def paste_deadline_fired_def tunnel_idle_fired_def

lemma drop_forwards_fields [simp]:
  "pending_input (fst (drop_forwards s)) = pending_input s"
  "pending_input_bytes (fst (drop_forwards s)) = pending_input_bytes s"
  "meta (fst (drop_forwards s)) = meta s"
  "caps (fst (drop_forwards s)) = caps s"
  "pending_paste (fst (drop_forwards s)) = None"
  "pf (fst (drop_forwards s)) = pf_teardown (pf s)"
  "agent (fst (drop_forwards s)) = fst (agent_disable (agent s))"
  "tunnel (fst (drop_forwards s)) = tunnel_teardown (tunnel s)"
  "open_forward_enabled (fst (drop_forwards s)) = False"
  by (simp_all add: drop_forwards_def split_beta)

lemma drain_input_fields [simp]:
  "agent (fst (drain_input s rs)) = agent s" "tunnel (fst (drain_input s rs)) = tunnel s"
  "pf (fst (drain_input s rs)) = pf s" "pending_paste (fst (drain_input s rs)) = pending_paste s"
  "open_forward_enabled (fst (drain_input s rs)) = open_forward_enabled s"
  "meta (fst (drain_input s rs)) = meta s" "caps (fst (drain_input s rs)) = caps s"
  by (simp_all add: drain_input_def Let_def split_beta)

lemma attach_fields [simp]:
  "pending_input (attach_detached e s nm c) = pending_input s"
  "pending_input_bytes (attach_detached e s nm c) = pending_input_bytes s"
  "agent (attach_detached e s nm c) = agent s" "tunnel (attach_detached e s nm c) = tunnel s"
  "pf (attach_detached e s nm c) = pf s"
  "pending_paste (attach_detached e s nm c) = pending_paste s"
  "open_forward_enabled (attach_detached e s nm c) = open_forward_enabled s"
  by (simp_all add: attach_detached_def)

lemma takeover_fields [simp]:
  "pending_input (fst (takeover e s nm c)) = pending_input s"
  "pending_input_bytes (fst (takeover e s nm c)) = pending_input_bytes s"
  "pf (fst (takeover e s nm c)) = pf_teardown (pf s)"
  "agent (fst (takeover e s nm c)) = fst (agent_disable (agent s))"
  "tunnel (fst (takeover e s nm c)) = tunnel_teardown (tunnel s)"
  "open_forward_enabled (fst (takeover e s nm c)) = False"
  "pending_paste (fst (takeover e s nm c)) = None"
  by (simp_all add: takeover_def Let_def split_beta)

lemma relay_frame_cases:
  assumes "P (handle_client_frame e s inc)" and "P (s, [ToClient (DiagResponse (diag s))], False)"
    and "\<And>f. P (update_meta f s, [ToClient OkFrame], False)"
  shows "P (relay_frame e diag s inc)"
proof (cases inc)
  case (Got f)
  then show ?thesis using assms by (cases f) (simp_all add: relay_frame_def)
qed (use assms in \<open>simp_all add: relay_frame_def\<close>)

lemma relay_frame_inv:
  assumes "I s" and "\<And>f. I (update_meta f s)" and "I (fst (handle_client_frame e s inc))"
  shows "I (fst (relay_event e diag s (EvFrame inc)))"
  using relay_frame_cases [where P = "\<lambda>r. I (fst r)", of e s inc diag] assms
  by (simp add: relay_event_def Let_def split_beta)

text \<open>The session when its shell has just been spawned.\<close>

abbreviation initial_session :: "Metadata \<Rightarrow> u32 \<Rightarrow> nat \<Rightarrow> Session" where
  "initial_session m c timeout \<equiv> (Attached, initial_relay m c timeout)"

section \<open>Input\<close>

lemma input_ok_drain:
  assumes "input_ok s" shows "input_ok (fst (drain_input s rs))"
proof -
  obtain q n out ok where d: "drain_pending (pending_input s) (pending_input_bytes s) rs = (q, n, out, ok)"
    by (metis prod_cases4)
  have "n = length (concat q) \<and> n \<le> pending_input_bytes s"
    by (rule drain_bound [OF d]) (use assms in \<open>simp add: input_ok_def\<close>)
  with assms d show ?thesis by (simp add: drain_input_def input_ok_def)
qed

lemma input_ok_relay:
  assumes "input_ok s" shows "input_ok (fst (relay_event e diag s ev))"
proof (cases ev)
  case (EvFrame inc)
  have "input_ok (update_meta f s)" for f using assms by (simp add: input_ok_def)
  with EvFrame assms input_ok_frame relay_frame_inv show ?thesis by blast
next
  case (EvWritable rs)
  then show ?thesis
    using input_ok_drain [OF assms] by (simp add: relay_event_def Let_def split_beta)
qed (use assms in \<open>simp_all add: relay_event_def input_ok_def task_handlers Let_def split_beta
      pf_close_def split: AgentEvent.splits TunnelEvent.splits PortForwardEvent.splits
      ClipboardEvent.splits option.splits\<close>)

interpretation bounded_input: session_invariant "\<lambda>_ _. True" input_ok
  by unfold_locales (simp_all add: input_ok_relay input_ok_drain, simp_all add: input_ok_def)

text \<open>The bytes an event adds to the queue, and the bytes effects write to the PTY.\<close>

definition typed :: "Session \<Rightarrow> Env \<times> RelayEvent \<Rightarrow> byte list" where
  "typed st x =
     (case snd x of
        EvFrame (Got (Data d)) \<Rightarrow>
          if fst st = Attached \<and> pending_input_bytes (snd st) + length d \<le> PENDING_INPUT_CAP then d else []
      | _ \<Rightarrow> [])"

fun typed_run :: "(ServerRelay \<Rightarrow> rstring) \<Rightarrow> Session \<Rightarrow> (Env \<times> RelayEvent) list \<Rightarrow> byte list" where
  "typed_run diag st [] = []"
| "typed_run diag st (x # xs) = typed st x @ typed_run diag (fst (session_event diag st x)) xs"

fun pty_bytes :: "Out list \<Rightarrow> byte list" where
  "pty_bytes [] = []"
| "pty_bytes (ToPty d # outs) = d @ pty_bytes outs"
| "pty_bytes (_ # outs) = pty_bytes outs"

definition pty_gone :: "Env \<times> RelayEvent \<Rightarrow> bool" where
  "pty_gone x = (case snd x of EvWritable rs \<Rightarrow> WriteEIO \<in> set rs | _ \<Rightarrow> False)"

lemma pty_bytes_append [simp]: "pty_bytes (a @ b) = pty_bytes a @ pty_bytes b"
  by (induction a rule: pty_bytes.induct) simp_all

lemma drain_input_bytes:
  assumes "input_ok s" and "WriteEIO \<notin> set rs"
  shows "pty_bytes (fst (snd (drain_input s rs))) @ concat (pending_input (fst (drain_input s rs)))
    = concat (pending_input s)"
proof -
  obtain q n out ok where d: "drain_pending (pending_input s) (pending_input_bytes s) rs = (q, n, out, ok)"
    by (metis prod_cases4)
  have "out @ concat q = concat (pending_input s) \<and> n = length (concat q)"
    by (rule drain_spec [OF d]) (use assms in \<open>simp_all add: input_ok_def\<close>)
  with d show ?thesis by (simp add: drain_input_def)
qed

lemma frame_pty: "pty_bytes (fst (snd (handle_client_frame e s inc))) = []"
proof (cases inc)
  case (Got f)
  then show ?thesis
    by (cases f)
      (simp_all add: handle_client_frame_def frame_handlers agent_enable_def forward_remove_def
        Let_def split_beta split: option.splits)
qed (simp_all add: handle_client_frame_def)

lemma frame_queue:
  "concat (pending_input (fst (handle_client_frame e s inc)))
     = concat (pending_input s) @ typed (Attached, s) (e, EvFrame inc)"
proof (cases "\<exists>d. inc = Got (Data d)")
  case True
  then show ?thesis by (auto simp: handle_client_frame_def queue_input_def typed_def Let_def)
next
  case False
  with frame_input [of inc s e] show ?thesis
    by (auto simp: typed_def same_input_def split: Incoming.splits Frame.splits)
qed

lemma drop_forwards_pty: "pty_bytes (snd (drop_forwards s)) = []"
  by (simp add: drop_forwards_def agent_disable_def split: option.splits)

lemma relay_event_queue:
  assumes "input_ok s" and "\<not> pty_gone (e, ev)"
  shows "pty_bytes (fst (snd (relay_event e diag s ev))) @ concat (pending_input (fst (relay_event e diag s ev)))
    = concat (pending_input s) @ typed (Attached, s) (e, ev)"
proof (cases ev)
  case (EvFrame inc)
  show ?thesis
  proof (cases "relay_frame e diag s inc = handle_client_frame e s inc")
    case True
    with EvFrame frame_pty frame_queue show ?thesis
      by (simp add: relay_event_def Let_def split_beta)
  next
    case False
    then show ?thesis
      by (auto simp: EvFrame relay_event_def relay_frame_def typed_def split: Incoming.splits Frame.splits)
  qed
next
  case (EvWritable rs)
  with assms drain_input_bytes show ?thesis
    by (simp add: relay_event_def typed_def pty_gone_def Let_def split_beta)
next
  case (EvClient nm c ok)
  then show ?thesis
    by (simp add: relay_event_def typed_def split_beta) (simp add: takeover_def Let_def split_beta drop_forwards_pty)
qed (simp_all add: relay_event_def typed_def task_handlers Let_def split_beta forward_remove_def
      pf_close_def split: AgentEvent.splits TunnelEvent.splits PortForwardEvent.splits
      ClipboardEvent.splits option.splits)

lemma relay_exit_pty: "pty_bytes (snd (relay_exit e s r)) = []"
  by (cases r) (simp_all add: relay_exit_def client_gone_def Let_def split_beta drop_forwards_pty,
    induct_tac x22, simp_all)

lemma relay_exit_queue: "pending_input (snd (fst (relay_exit e s r))) = pending_input s"
  by (cases r) (simp_all add: relay_exit_def client_gone_def Let_def split_beta)

lemma detached_queue:
  assumes "input_ok s" and "\<not> pty_gone (e, ev)"
  shows "pty_bytes (snd (detached_event e s ev)) @ concat (pending_input (snd (fst (detached_event e s ev))))
    = concat (pending_input s)"
  using assms
  by (cases ev)
    (simp_all add: detached_event_def Let_def split_beta drain_input_bytes pty_gone_def
      detached_open_event_def detached_clipboard_event_def split: ClipboardEvent.splits)

lemma session_event_queue:
  assumes "input_ok (snd st)" and "\<not> pty_gone x"
  shows "pty_bytes (snd (session_event diag st x)) @ concat (pending_input (snd (fst (session_event diag st x))))
    = concat (pending_input (snd st)) @ typed st x"
proof -
  obtain ph s e ev where st: "st = (ph, s)" "x = (e, ev)" by (metis prod.exhaust)
  show ?thesis
  proof (cases ph)
    case Attached
    with st assms relay_event_queue [of s e ev diag] show ?thesis
      by (auto simp: session_event_def Let_def split_beta relay_exit_pty relay_exit_queue split: option.splits)
  next
    case Waiting
    with st assms detached_queue [of s e ev] show ?thesis
      by (simp add: session_event_def typed_def split: RelayEvent.splits Incoming.splits Frame.splits)
  next
    case Ended
    with st show ?thesis
      by (simp add: session_event_def typed_def split: RelayEvent.splits Incoming.splits Frame.splits)
  qed
qed

lemma session_run_queue:
  assumes "input_ok (snd st)" and "list_all (\<lambda>x. \<not> pty_gone x) xs"
  shows "pty_bytes (snd (session_run diag st xs)) @ concat (pending_input (snd (fst (session_run diag st xs))))
    = concat (pending_input (snd st)) @ typed_run diag st xs"
  using assms
proof (induction xs arbitrary: st)
  case (Cons x xs)
  let ?st = "fst (session_event diag st x)"
  have ok: "input_ok (snd ?st)" using Cons.prems bounded_input.event by simp
  have "pty_bytes (snd (session_run diag ?st xs)) @ concat (pending_input (snd (fst (session_run diag ?st xs))))
      = concat (pending_input (snd ?st)) @ typed_run diag ?st xs"
    using Cons.IH [OF ok] Cons.prems by simp
  moreover have "pty_bytes (snd (session_event diag st x)) @ concat (pending_input (snd ?st))
      = concat (pending_input (snd st)) @ typed st x"
    using Cons.prems session_event_queue by simp
  ultimately show ?case
    by (simp add: session_run_Cons)
qed simp

text \<open>
  C19. Keystrokes reach the shell once, in order and within bounds, over the whole life of a
  session with any sequence of clients, detachments and events: the queue's byte count is the
  length of what is queued and never exceeds the cap of 1 MiB, and, as long as the PTY is not
  gone (EIO), what has been written to it followed by what still waits is exactly the input
  frames accepted from the attached clients, in their order (a frame that would exceed the cap
  is dropped whole).
\<close>

theorem input_reaches_shell_in_order:
  fixes m c timeout
  defines "st0 \<equiv> initial_session m c timeout"
  shows "input_ok (snd (fst (session_run diag st0 xs)))
    \<and> (list_ex pty_gone xs
       \<or> pty_bytes (snd (session_run diag st0 xs))
           @ concat (pending_input (snd (fst (session_run diag st0 xs))))
         = typed_run diag st0 xs)"
proof -
  have ok: "input_ok (snd st0)" by (simp add: st0_def input_ok_def initial_relay_def)
  have "input_ok (snd (fst (session_run diag st0 xs)))"
    by (rule bounded_input.run [OF ok keeps_True])
  moreover have "list_all (\<lambda>x. \<not> pty_gone x) xs \<Longrightarrow> pty_bytes (snd (session_run diag st0 xs))
      @ concat (pending_input (snd (fst (session_run diag st0 xs)))) = typed_run diag st0 xs"
    using session_run_queue [OF ok] by (simp add: st0_def initial_relay_def)
  ultimately show ?thesis by (auto simp: list_all_iff list_ex_iff)
qed

section \<open>Port forwarding\<close>

definition fresh_ids :: "RelayEvent \<Rightarrow> ServerRelay \<Rightarrow> bool" where
  "fresh_ids ev s =
     (case ev of EvFrame inc \<Rightarrow> fresh_frame inc s | EvPf p \<Rightarrow> fresh_accept p s | _ \<Rightarrow> True)"

lemma consistent_relay:
  assumes "pf_consistent (pf s)" and "fresh_ids ev s"
  shows "pf_consistent (pf (fst (relay_event e diag s ev)))"
proof (cases ev)
  case (EvFrame inc)
  have "pf_consistent (pf (fst (handle_client_frame e s inc)))"
    using assms EvFrame by (simp add: consistent_frame fresh_ids_def)
  with EvFrame assms show ?thesis
    using relay_frame_inv [where I = "\<lambda>s. pf_consistent (pf s)"] by simp
next
  case (EvPf p)
  with assms show ?thesis
    by (simp add: relay_event_def fresh_ids_def split_beta consistent_event)
next
  case (EvWritable rs)
  with assms show ?thesis by (simp add: relay_event_def Let_def split_beta)
qed (use assms in \<open>auto simp: relay_event_def task_handlers Let_def split_beta consistent_empty
      split: AgentEvent.splits TunnelEvent.splits ClipboardEvent.splits option.splits\<close>)

interpretation pf_tables: session_invariant fresh_ids "\<lambda>s. pf_consistent (pf s)"
  by unfold_locales (simp_all add: consistent_relay consistent_empty)

lemma stop_leaves_no_channel:
  assumes "pf_consistent (pf s)"
  shows "pf_channels (pf (fst (pf_stop s fid))) c \<noteq> Some (fid, w)"
proof -
  have "pf_consistent (pf (fst (pf_stop s fid)))" by (rule consistent_stop [OF assms])
  moreover have "forwards (pf (fst (pf_stop s fid))) fid = None"
    by (simp add: pf_stop_def forward_remove_def Let_def split_beta split: option.split)
  ultimately show ?thesis by (auto simp: pf_consistent_def)
qed

text \<open>
  C20. The two tables of port forwarding stay in step: over every run of a session in which the
  channel and forward identifiers are new when they are used, a channel is in the session's
  table exactly when the forward it names lists it, with the same writer; hence, when the client
  stops a forward, no channel of it stays behind that could still carry data.
\<close>

theorem forward_tables_agree:
  assumes "keeps fresh_ids diag (initial_session m c timeout) xs"
  shows "pf_consistent (pf (snd (fst (session_run diag (initial_session m c timeout) xs))))
    \<and> pf_channels (pf (fst (handle_client_frame e
          (snd (fst (session_run diag (initial_session m c timeout) xs)))
          (Got (PortForwardStop fid))))) ch \<noteq> Some (fid, w)"
proof -
  let ?s = "snd (fst (session_run diag (initial_session m c timeout) xs))"
  have "pf_consistent (pf ?s)"
    by (rule pf_tables.run [OF _ assms]) (simp add: initial_relay_def pf_consistent_def)
  with stop_leaves_no_channel [of ?s] show ?thesis
    by (simp add: handle_client_frame_def split_beta)
qed

end
