(* ===== verification/Server_Session_Safety.thy ===== *)
theory Server_Session_Safety
  imports Server_Session_Proofs
begin

text \<open>
  What a change of client leaves behind: nothing that the tasks of the old client could use to
  reach the new one, with two exceptions; and the answers to the clipboard requests.
\<close>

section \<open>After a client has left\<close>

definition no_forwards :: "ServerRelay \<Rightarrow> bool" where
  "no_forwards s \<longleftrightarrow>
     \<not> enabled (agent s) \<and> agent_channels (agent s) = Map.empty \<and> \<not> acceptor (agent s)
     \<and> tport (tunnel s) = None \<and> tunnel_channels (tunnel s) = Map.empty
     \<and> forwards (pf s) = Map.empty \<and> pf_channels (pf s) = Map.empty
     \<and> \<not> open_forward_enabled s \<and> pending_paste s = None"

lemma no_forwards_drop: "no_forwards (fst (drop_forwards s))"
  by (simp add: no_forwards_def agent_disable_def tunnel_teardown_def pf_teardown_def)

lemma no_forwards_gone: "no_forwards (fst (client_gone e s))"
  by (simp add: client_gone_def no_forwards_drop)

lemma no_forwards_takeover: "no_forwards (fst (takeover e s nm c))"
  by (simp add: no_forwards_def agent_disable_def tunnel_teardown_def pf_teardown_def)

lemma no_forwards_meta [simp]: "no_forwards (update_meta f s) = no_forwards s"
  by (simp add: no_forwards_def)

text \<open>The events that do not come from a client: of tasks, of the shell's side, and deadlines.\<close>

definition task_event :: "RelayEvent \<Rightarrow> bool" where
  "task_event ev =
     (case ev of
        EvAgent a \<Rightarrow> True | EvTunnel t \<Rightarrow> True | EvTunnelIdle \<Rightarrow> True | EvPf p \<Rightarrow> True
      | EvOpen url r svc \<Rightarrow> True | EvPasteDeadline \<Rightarrow> True | EvWritable rs \<Rightarrow> True | _ \<Rightarrow> False)"

text \<open>Effects that neither reach the client nor any writer of a channel.\<close>

definition inert :: "Out \<Rightarrow> bool" where
  "inert o1 = (case o1 of ToPty d \<Rightarrow> True | SvcWrite svc d \<Rightarrow> d = [0x00] | _ \<Rightarrow> False)"

lemma task_relay:
  assumes "no_forwards s" and "task_event ev"
  shows "no_forwards (fst (relay_event e diag s ev)) \<and> list_all inert (fst (snd (relay_event e diag s ev)))
    \<and> snd (snd (relay_event e diag s ev)) \<in> {None, Some RelayFailed}"
  using assms
  by (cases ev)
    (auto simp: relay_event_def task_event_def no_forwards_def task_handlers Let_def split_beta inert_def
      drain_input_def tunnel_teardown_def
      split: AgentEvent.splits TunnelEvent.splits PortForwardEvent.splits option.splits)

lemma task_detached:
  assumes "no_forwards s" and "task_event ev"
  shows "no_forwards (snd (fst (detached_event e s ev))) \<and> list_all inert (snd (detached_event e s ev))"
  using assms
  by (cases ev)
    (auto simp: detached_event_def task_event_def Let_def split_beta inert_def detached_open_event_def
      no_forwards_def drain_input_def)

lemma task_event_step:
  assumes "no_forwards (snd st)" and "task_event (snd x)"
  shows "no_forwards (snd (fst (session_event diag st x))) \<and> list_all inert (snd (session_event diag st x))"
proof -
  obtain ph s e ev where st: "st = (ph, s)" "x = (e, ev)" by (metis prod.exhaust)
  show ?thesis
  proof (cases ph)
    case Attached
    with st assms task_relay [of s ev e diag] show ?thesis
      by (auto simp: session_event_def Let_def split_beta relay_exit_def split: option.splits)
  qed (use st assms task_detached [of s ev e] in \<open>simp_all add: session_event_def\<close>)
qed

lemma task_events_run:
  "\<lbrakk>no_forwards (snd st); list_all (\<lambda>x. task_event (snd x)) xs\<rbrakk>
     \<Longrightarrow> no_forwards (snd (fst (session_run diag st xs))) \<and> list_all inert (snd (session_run diag st xs))"
  by (induction xs arbitrary: st) (simp_all add: session_run_Cons task_event_step)

text \<open>While no client is attached there is nothing to forward.\<close>

definition waiting_clean :: "Session \<Rightarrow> bool" where
  "waiting_clean st \<longleftrightarrow> (fst st = Waiting \<longrightarrow> no_forwards (snd st))"

lemma waiting_clean_event:
  assumes "waiting_clean st" shows "waiting_clean (fst (session_event diag st x))"
proof -
  obtain ph s e ev where st: "st = (ph, s)" "x = (e, ev)" by (metis prod.exhaust)
  show ?thesis
  proof (cases ph)
    case Attached
    then show ?thesis
      by (auto simp: st session_event_def Let_def split_beta waiting_clean_def relay_exit_def no_forwards_gone
          split: option.splits RelayExit.splits)
  next
    case Waiting
    have d: "no_forwards s \<Longrightarrow> no_forwards (fst (drain_input s rs))"
      and a: "no_forwards s \<Longrightarrow> no_forwards (attach_detached e s nm c)" for rs nm c
      by (simp_all add: no_forwards_def)
    from assms Waiting show ?thesis
      by (cases ev) (auto simp: st session_event_def waiting_clean_def detached_event_def Let_def split_beta d a)
  qed (simp add: st session_event_def waiting_clean_def)
qed

lemma waiting_clean_run: "waiting_clean st \<Longrightarrow> waiting_clean (fst (session_run diag st xs))"
  by (induction xs arbitrary: st) (simp_all add: session_run_Cons waiting_clean_event)

lemma new_client_clean:
  assumes "waiting_clean st" and "fst st \<noteq> Ended"
  shows "no_forwards (snd (fst (session_event diag st (e, EvClient nm c ok))))"
proof -
  obtain ph s where st: "st = (ph, s)" by (metis prod.exhaust)
  have "no_forwards s \<Longrightarrow> no_forwards (attach_detached e s nm c)" by (simp add: no_forwards_def)
  with assms show ?thesis
    by (cases ph)
      (auto simp: st session_event_def relay_event_def Let_def split_beta no_forwards_takeover
        waiting_clean_def detached_event_def)
qed


section \<open>Channel identifiers that are used again\<close>

text \<open>
  A client numbers its forwards and channels from 2 in every process.  When the new client opens
  a forward and a channel as the old one did, an event of the old reader is taken for an event of
  the new channel.
\<close>

definition frame_events :: "Env \<Rightarrow> Frame list \<Rightarrow> (Env \<times> RelayEvent) list" where
  "frame_events e fs = map (\<lambda>f. (e, EvFrame (Got f))) fs"

definition open_remote :: "u32 \<Rightarrow> u32 \<Rightarrow> u16 \<Rightarrow> u16 \<Rightarrow> Frame list" where
  "open_remote fid ch listen target =
     [PortForwardRequest fid 1 listen target, PortForwardOpen fid ch target]"

definition remote_reader_event ::
  "(ServerRelay \<Rightarrow> rstring) \<Rightarrow> Session \<Rightarrow> Env \<Rightarrow> Env \<Rightarrow> u32 \<Rightarrow> u32 \<Rightarrow> u16 \<Rightarrow> u16 \<Rightarrow> rstring \<Rightarrow> u32
     \<Rightarrow> PortForwardEvent \<Rightarrow> Session \<times> Out list" where
  "remote_reader_event diag st e e' fid ch listen target nm c ev =
     session_event diag (fst (session_run diag st
       (frame_events e (open_remote fid ch listen target) @ [(e', EvClient nm c True)]
         @ frame_events e' (open_remote fid ch listen target))))
       (e', EvPf ev)"

lemma relay_request_remote:
  "session_event diag (Attached, s) (e, EvFrame (Got (PortForwardRequest fid 1 listen target)))
     = ((Attached, s\<lparr>pf := (pf s)\<lparr>forwards := (forwards (pf s))(fid \<mapsto>
          \<lparr>has_listener = False, fwd_channels = Map.empty, has_stop = False, fwd_target = target\<rparr>)\<rparr>\<rparr>),
        [ToClient (PortForwardReady fid)])"
  by (simp add: session_event_def relay_event_def relay_frame_def handle_client_frame_def pf_request_def Let_def)

lemma relay_open_remote:
  assumes "forwards (pf s) fid = Some fwd" and "connects e target"
  shows "\<exists>s'. session_event diag (Attached, s) (e, EvFrame (Got (PortForwardOpen fid ch target)))
     = ((Attached, s'), [StartReader ch]) \<and> pf_channels (pf s') ch = Some (fid, fresh e)"
  using assms
  by (simp add: session_event_def relay_event_def relay_frame_def handle_client_frame_def pf_open_def Let_def
      forward_insert_def)

lemma open_remote_run:
  assumes "connects e target"
  shows "\<exists>s'. fst (session_run diag (Attached, s) (frame_events e (open_remote fid ch listen target)))
     = (Attached, s') \<and> pf_channels (pf s') ch = Some (fid, fresh e)"
proof -
  let ?s = "snd (fst (session_event diag (Attached, s) (e, EvFrame (Got (PortForwardRequest fid 1 listen target)))))"
  have "\<exists>fwd. forwards (pf ?s) fid = Some fwd" by (simp add: relay_request_remote)
  then obtain s' where
    "session_event diag (Attached, ?s) (e, EvFrame (Got (PortForwardOpen fid ch target)))
       = ((Attached, s'), [StartReader ch])" "pf_channels (pf s') ch = Some (fid, fresh e)"
    using relay_open_remote [OF _ assms] by blast
  then show ?thesis
    by (simp add: frame_events_def open_remote_def session_run_Cons relay_request_remote)
qed

lemma session_run_append:
  "session_run diag st (xs @ ys) =
     (fst (session_run diag (fst (session_run diag st xs)) ys),
      snd (session_run diag st xs) @ snd (session_run diag (fst (session_run diag st xs)) ys))"
  by (induction xs arbitrary: st) (simp_all add: session_run_Cons)

lemma takeover_event:
  "\<exists>s'. fst (session_event diag (Attached, s) (e, EvClient nm c ok)) = (Attached, s')"
  by (simp add: session_event_def relay_event_def Let_def split_beta)

text \<open>
  The gate of the stale events is the channel number alone, and clients use the same
  numbers: after the old client had opened channel \<open>ch\<close> of a remote forward and the new client,
  having taken over, opened its own with the same numbers, the bytes the old reader still reads
  are sent to the new client as data of its channel, and the end of the old reader closes the new
  client's channel.
\<close>

theorem stale_reader_reaches_new_client:
  assumes "connects e target" and "connects e' target"
  shows "snd (remote_reader_event diag (Attached, s) e e' fid ch listen target nm c (PfGot ch d))
      = [ToClient (PortForwardData ch d)]
    \<and> snd (remote_reader_event diag (Attached, s) e e' fid ch listen target nm c (PfEnded ch))
      = [ToClient (PortForwardClose ch)]
    \<and> pf_channels (pf (snd (fst (remote_reader_event diag (Attached, s) e e' fid ch listen target nm c
          (PfEnded ch))))) ch = None"
proof -
  obtain s1 where s1: "fst (session_run diag (Attached, s) (frame_events e (open_remote fid ch listen target)))
      = (Attached, s1)" using open_remote_run [OF assms(1)] by blast
  obtain s2 where s2: "fst (session_event diag (Attached, s1) (e', EvClient nm c True)) = (Attached, s2)"
    using takeover_event by blast
  obtain s3 where s3: "fst (session_run diag (Attached, s2) (frame_events e' (open_remote fid ch listen target)))
      = (Attached, s3)" and ch: "pf_channels (pf s3) ch = Some (fid, fresh e')"
    using open_remote_run [OF assms(2)] by blast
  have "remote_reader_event diag (Attached, s) e e' fid ch listen target nm c ev
      = session_event diag (Attached, s3) (e', EvPf ev)" for ev
    by (simp add: remote_reader_event_def session_run_append session_run_Cons s1 s2 s3)
  with ch show ?thesis
    by (simp add: session_event_def relay_event_def handle_pf_event_def pf_close_def forward_forget_def
        split: option.split)
qed

end
