(* ===== verification/Server_Clipboard.thy ===== *)
theory Server_Clipboard
  imports Server_Session_Safety
begin

text \<open>
  The answers to the clipboard requests of a session, the flag for agent forwarding that
  \<open>gritty ls\<close> shows, and the witnesses of the properties about sessions.
\<close>

section \<open>Pastes\<close>

text \<open>The paste requests of an event, those answered by effects, and the one that waits.\<close>

definition asked :: "Session \<Rightarrow> Env \<times> RelayEvent \<Rightarrow> nat multiset" where
  "asked st x =
     (case snd x of
        EvClipboard (Paste r) \<Rightarrow> if fst st = Ended then {#} else {#r#}
      | _ \<Rightarrow> {#})"

fun asked_run :: "(ServerRelay \<Rightarrow> rstring) \<Rightarrow> Session \<Rightarrow> (Env \<times> RelayEvent) list \<Rightarrow> nat multiset" where
  "asked_run diag st [] = {#}"
| "asked_run diag st (x # xs) = asked st x + asked_run diag (fst (session_event diag st x)) xs"

fun answered :: "Out list \<Rightarrow> nat multiset" where
  "answered [] = {#}"
| "answered (PasteReply r d # outs) = {#r#} + answered outs"
| "answered (_ # outs) = answered outs"

definition waiting_paste :: "ServerRelay \<Rightarrow> nat multiset" where
  "waiting_paste s = (case pending_paste s of Some r \<Rightarrow> {#r#} | None \<Rightarrow> {#})"

lemma answered_append [simp]: "answered (a @ b) = answered a + answered b"
  by (induction a rule: answered.induct) (simp_all add: ac_simps)

lemma answered_chunks [simp]: "answered (map (\<lambda>c. ToClient (f c)) cs) = {#}"
  by (induction cs) simp_all

lemma waiting_paste_cong: "pending_paste t = pending_paste s \<Longrightarrow> waiting_paste t = waiting_paste s"
  by (simp add: waiting_paste_def)

lemma frame_paste:
  "answered (fst (snd (handle_client_frame e s inc))) + waiting_paste (fst (handle_client_frame e s inc))
     = waiting_paste s"
proof (cases inc)
  case (Got f)
  then show ?thesis
    by (cases f)
      (simp_all add: handle_client_frame_def queue_input_def frame_handlers agent_enable_def forward_remove_def
        pf_close_def waiting_paste_def Let_def split_beta split: option.splits)
qed (simp_all add: handle_client_frame_def)

lemma drop_forwards_paste: "answered (snd (drop_forwards s)) = waiting_paste s"
  by (simp add: drop_forwards_def agent_disable_def waiting_paste_def split: option.splits)

lemma drop_forwards_none: "waiting_paste (fst (drop_forwards s)) = {#}"
  by (simp add: waiting_paste_def)

lemma drain_paste:
  "answered (fst (snd (drain_input s rs))) = {#} \<and> waiting_paste (fst (drain_input s rs)) = waiting_paste s"
  by (simp add: drain_input_def waiting_paste_def Let_def split_beta)

lemma relay_event_paste:
  "answered (fst (snd (relay_event e diag s ev))) + waiting_paste (fst (relay_event e diag s ev))
     = waiting_paste s + asked (Attached, s) (e, ev)"
proof (cases ev)
  case (EvFrame inc)
  have "answered (fst (snd (relay_frame e diag s inc))) + waiting_paste (fst (relay_frame e diag s inc))
      = waiting_paste s"
    using frame_paste
    by (rule relay_frame_cases [where P = "\<lambda>r. answered (fst (snd r)) + waiting_paste (fst r) = waiting_paste s"])
      (simp_all add: waiting_paste_def)
  with EvFrame show ?thesis by (simp add: relay_event_def asked_def Let_def split_beta)
next
  case (EvWritable rs)
  with drain_paste show ?thesis by (simp add: relay_event_def asked_def Let_def split_beta)
next
  case (EvClient nm c ok)
  have "answered (snd (takeover e s nm c)) = waiting_paste s"
    by (simp add: takeover_def Let_def split_beta drop_forwards_paste waiting_paste_def)
  with EvClient show ?thesis
    by (simp add: relay_event_def asked_def split_beta) (simp add: waiting_paste_def)
qed (simp_all add: relay_event_def asked_def task_handlers waiting_paste_def Let_def split_beta
      forward_remove_def pf_close_def
      split: AgentEvent.splits TunnelEvent.splits PortForwardEvent.splits ClipboardEvent.splits option.splits)

lemma relay_exit_paste:
  "answered (snd (relay_exit e s r)) + waiting_paste (snd (fst (relay_exit e s r))) = waiting_paste s"
proof (cases r)
  case ClientGone
  have "waiting_paste (update_meta f s) = waiting_paste s" for f by (simp add: waiting_paste_def)
  with ClientGone show ?thesis
    by (simp add: relay_exit_def client_gone_def Let_def split_beta drop_forwards_paste drop_forwards_none)
qed (simp_all add: relay_exit_def)

lemma session_event_paste:
  "answered (snd (session_event diag st x)) + waiting_paste (snd (fst (session_event diag st x)))
     = waiting_paste (snd st) + asked st x"
proof -
  obtain ph s e ev where st: "st = (ph, s)" "x = (e, ev)" by (metis prod.exhaust)
  show ?thesis
  proof (cases ph)
    case Attached
    let ?r = "relay_event e diag s ev"
    show ?thesis
    proof (cases "snd (snd ?r)")
      case None
      with st Attached relay_event_paste [of e diag s ev] show ?thesis
        by (simp add: session_event_def split_beta)
    next
      case (Some r)
      then have "session_event diag st x =
          (fst (relay_exit e (fst ?r) r), fst (snd ?r) @ snd (relay_exit e (fst ?r) r))"
        using st Attached by (simp add: session_event_def split_beta)
      with st Attached relay_event_paste [of e diag s ev] relay_exit_paste [of e "fst ?r" r]
      show ?thesis by (simp add: ac_simps)
    qed
  next
    case Waiting
    have "waiting_paste (attach_detached e s nm c) = waiting_paste s" for nm c
      by (simp add: waiting_paste_def)
    moreover have "waiting_paste (update_meta f t) = waiting_paste t" for f t
      by (simp add: waiting_paste_def)
    ultimately show ?thesis
      using st Waiting drain_paste
      by (cases ev) (simp_all add: session_event_def detached_event_def asked_def Let_def split_beta
          detached_open_event_def detached_clipboard_event_def split: ClipboardEvent.splits)
  qed (use st in \<open>simp add: session_event_def asked_def split: RelayEvent.splits ClipboardEvent.splits\<close>)
qed


section \<open>The flag for agent forwarding\<close>

definition flagged :: "ServerRelay \<Rightarrow> bool" where
  "flagged s = (case meta s of Some m \<Rightarrow> m_wants_agent m | None \<Rightarrow> False)"

definition no_agent_request :: "RelayEvent \<Rightarrow> ServerRelay \<Rightarrow> bool" where
  "no_agent_request ev s = (ev \<noteq> EvFrame (Got AgentForward))"

lemma flagged_meta:
  "flagged s \<Longrightarrow> (\<And>m. m_wants_agent m \<Longrightarrow> m_wants_agent (f m)) \<Longrightarrow> flagged (update_meta f s)"
  by (auto simp: flagged_def update_meta_def split: option.splits)

lemma flagged_cong: "meta t = meta s \<Longrightarrow> flagged t = flagged s"
  by (simp add: flagged_def)

lemma flagged_frame:
  assumes "flagged s \<and> \<not> enabled (agent s)" and "inc \<noteq> Got AgentForward"
  shows "flagged (fst (relay_frame e diag s inc)) \<and> \<not> enabled (agent (fst (relay_frame e diag s inc)))"
proof (cases inc)
  case (Got f)
  then show ?thesis
    using assms
    by (cases f)
      (auto simp: relay_frame_def handle_client_frame_def queue_input_def frame_handlers agent_enable_def
        forward_remove_def touch_activity_def touch_presence_def flagged_def update_meta_def Let_def split_beta
        split: option.splits)
qed (use assms in \<open>simp_all add: relay_frame_def handle_client_frame_def\<close>)

lemma flagged_relay:
  assumes "flagged s \<and> \<not> enabled (agent s)" and "no_agent_request ev s"
  shows "flagged (fst (relay_event e diag s ev)) \<and> \<not> enabled (agent (fst (relay_event e diag s ev)))"
proof (cases ev)
  case (EvFrame inc)
  with assms flagged_frame show ?thesis
    by (simp add: relay_event_def no_agent_request_def Let_def split_beta)
next
  case (EvWritable rs)
  with assms show ?thesis by (simp add: relay_event_def flagged_def Let_def split_beta)
next
  case (EvClient nm c ok)
  with assms show ?thesis
    by (auto simp: relay_event_def takeover_def flagged_def update_meta_def touch_presence_def
        agent_disable_def Let_def split_beta split: option.splits)
qed (use assms in \<open>auto simp: relay_event_def task_handlers flagged_def Let_def split_beta pf_close_def
      split: AgentEvent.splits TunnelEvent.splits PortForwardEvent.splits ClipboardEvent.splits option.splits\<close>)

interpretation stale_flag: session_invariant no_agent_request "\<lambda>s. flagged s \<and> \<not> enabled (agent s)"
  by (unfold_locales, rule flagged_relay, assumption, assumption)
    (auto simp: agent_disable_def attach_detached_def touch_presence_def mark_detached_def
      flagged_def update_meta_def split: option.splits)

text \<open>
  \<open>gritty ls\<close> keeps reporting agent forwarding after the client that asked for it is gone:
  the flag it reads (\<open>wants_agent\<close>) is set by a client's request and never cleared, so after
  another client has taken the session over, and through everything that follows without a new
  request, the flag is set while forwarding is disabled.
\<close>

theorem agent_flag_outlives_forwarding:
  assumes "meta s = Some md"
    and "keeps no_agent_request diag
      (fst (session_run diag (Attached, s) [(e, EvFrame (Got AgentForward)), (e', EvClient nm c ok)])) ys"
  shows "let t = snd (fst (session_run diag (Attached, s)
      ([(e, EvFrame (Got AgentForward)), (e', EvClient nm c ok)] @ ys)))
    in (\<exists>md'. meta t = Some md' \<and> m_wants_agent md') \<and> \<not> enabled (agent t)"
proof -
  let ?st = "fst (session_run diag (Attached, s) [(e, EvFrame (Got AgentForward)), (e', EvClient nm c ok)])"
  have "flagged (snd ?st) \<and> \<not> enabled (agent (snd ?st))"
    using assms(1)
    by (simp add: session_run_Cons session_event_def relay_event_def relay_frame_def handle_client_frame_def
        takeover_def flagged_def update_meta_def touch_presence_def agent_disable_def Let_def split_beta)
  from stale_flag.run [OF this assms(2)] show ?thesis
    unfolding session_run_append [of diag _ "[_, _]"] Let_def fst_conv snd_conv
    by (simp add: flagged_def split: option.splits)
qed

end
