(* ===== verification/Server_Witnesses.thy ===== *)
theory Server_Witnesses
  imports Server_Clipboard
begin

text \<open>Concrete sessions at which the properties of the sessions with hypotheses apply.\<close>

definition w_env :: Env where
  "w_env = \<lparr>full = (\<lambda>w. False), connects = (\<lambda>p. p = 80), binds = (\<lambda>p. True), agent_binds = True,
     now = 100, fresh = 7\<rparr>"

definition w_meta :: Metadata where
  "w_meta = initial_meta w_env 90 (ascii ''laptop'') 3600"

definition w_forward :: "(Env \<times> RelayEvent) list" where
  "w_forward = frame_events w_env (open_remote 2 4 8080 80)"

lemmas w_run = w_forward_def frame_events_def open_remote_def session_run_Cons session_event_def
  relay_event_def relay_frame_def handle_client_frame_def

lemma w_forward_fresh: "keeps fresh_ids (\<lambda>_. []) (initial_session w_meta 0 60) w_forward"
  by (simp add: w_run fresh_ids_def fresh_frame_def pf_request_def initial_relay_def Let_def)

theorem forward_tables_agree_witness:
  "pf_consistent (pf (snd (fst (session_run (\<lambda>_. []) (initial_session w_meta 0 60) w_forward))))
    \<and> pf_channels (pf (fst (handle_client_frame w_env
          (snd (fst (session_run (\<lambda>_. []) (initial_session w_meta 0 60) w_forward)))
          (Got (PortForwardStop 2))))) 4 \<noteq> Some (2, 7)"
  by (rule forward_tables_agree [OF w_forward_fresh])


theorem stale_reader_reaches_new_client_witness:
  "snd (remote_reader_event (\<lambda>_. []) (initial_session w_meta 0 60) w_env (w_env\<lparr>fresh := 8\<rparr>) 2 4 8080 80
      (ascii ''desk'') 0 (PfGot 4 [0x41])) = [ToClient (PortForwardData 4 [0x41])]
    \<and> snd (remote_reader_event (\<lambda>_. []) (initial_session w_meta 0 60) w_env (w_env\<lparr>fresh := 8\<rparr>) 2 4 8080 80
      (ascii ''desk'') 0 (PfEnded 4)) = [ToClient (PortForwardClose 4)]
    \<and> pf_channels (pf (snd (fst (remote_reader_event (\<lambda>_. []) (initial_session w_meta 0 60) w_env
      (w_env\<lparr>fresh := 8\<rparr>) 2 4 8080 80 (ascii ''desk'') 0 (PfEnded 4))))) 4 = None"
  by (rule stale_reader_reaches_new_client) (simp_all add: w_env_def)

theorem agent_flag_outlives_forwarding_witness:
  "let t = snd (fst (session_run (\<lambda>_. []) (initial_session w_meta 0 60)
      ([(w_env, EvFrame (Got AgentForward)), (w_env, EvClient (ascii ''desk'') 0 True)]
        @ [(w_env, EvFrame (Got Ping))])))
   in (\<exists>md. meta t = Some md \<and> m_wants_agent md) \<and> \<not> enabled (agent t)"
  by (rule agent_flag_outlives_forwarding) (simp_all add: initial_relay_def no_agent_request_def)

end
