(* ===== verification/Daemon.thy ===== *)
theory Daemon
  imports Protocol Utf8 "HOL-Library.AList"
begin

text \<open>
  The daemon of \<open>src/src/daemon.rs\<close>: the table of sessions, the resolution of a session's name,
  the control requests of \<open>dispatch_control\<close>, the reapers, the version gate of a connection and
  the turns of the main loop.  The table is a \<open>HashMap\<close>; the model keeps it as the list of its
  entries in the order the map iterates them, whatever that is.
\<close>

section \<open>State\<close>

record SessionMeta =
  sm_pty :: rstring
  sm_shell_pid :: u32
  sm_created :: u64
  sm_attached :: bool
  sm_heartbeat :: u64
  sm_activity :: u64
  sm_client :: rstring
  sm_wants_agent :: bool
  sm_owner :: u64
  sm_linger :: u64

text \<open>
  A session's entry: whether its task has finished, whether the task has closed its channel
  (\<open>client_tx.is_closed()\<close>), the metadata once published, the name.  The last two fields are what
  the task got to put into the metadata it publishes.
\<close>

record SessionState =
  st_finished :: bool
  st_closed :: bool
  st_meta :: "SessionMeta option"
  st_name :: "rstring option"
  st_initial_device :: u64
  st_initial_linger :: u64

type_synonym Sessions = "(u32 \<times> SessionState) list"

record Daemon =
  sessions :: Sessions
  next_id :: u32
  last_attached :: "u32 option"

text \<open>
  The environment of one request: the clock, whether the first and the second frame of the reply
  reach the client, what the session's task publishes while the request waits for it, and the
  foreground command and directory of a shell.
\<close>

record DaemonEnv =
  de_now :: u64
  de_sent1 :: bool
  de_sent2 :: bool
  de_ready :: "SessionMeta option"
  de_foreground :: "u32 \<Rightarrow> rstring \<times> rstring"

text \<open>The effects: frames of the reply, and what goes to the tasks of the sessions.\<close>

record HandOff =
  ho_client :: rstring
  ho_caps :: u32
  ho_cols :: u16
  ho_rows :: u16
  ho_offset :: u64
  ho_dirty :: bool
  ho_fresh :: bool

datatype DaemonOut =
    Reply Frame
  | Spawn u32 "rstring option" "rstring option" "rstring option" u16 u16
  | HandActive u32 HandOff
  | HandTail u32
  | HandSend u32
  | Abort u32
  | HandShutdown u32
  | UnlinkFiles

section \<open>The table\<close>

definition has_session :: "u32 \<Rightarrow> Sessions \<Rightarrow> bool" where
  "has_session i ss \<longleftrightarrow> i \<in> fst ` set ss"

definition remove_session :: "u32 \<Rightarrow> Sessions \<Rightarrow> Sessions" where
  "remove_session i ss = filter (\<lambda>(j, _). j \<noteq> i) ss"

definition update_session :: "u32 \<Rightarrow> (SessionState \<Rightarrow> SessionState) \<Rightarrow> Sessions \<Rightarrow> Sessions" where
  "update_session i f ss = map (\<lambda>(j, s). (j, if j = i then f s else s)) ss"

definition insert_session :: "u32 \<Rightarrow> SessionState \<Rightarrow> Sessions \<Rightarrow> Sessions" where
  "insert_session i s ss = remove_session i ss @ [(i, s)]"

definition abort_session :: "u32 \<Rightarrow> Sessions \<Rightarrow> Sessions \<times> DaemonOut list" where
  "abort_session i ss = (remove_session i ss, if has_session i ss then [Abort i] else [])"

definition linger_baseline :: "u64 \<Rightarrow> u64 \<Rightarrow> u64" where
  "linger_baseline heartbeat created = max heartbeat created"

definition linger_expired :: "u64 \<Rightarrow> SessionState \<Rightarrow> bool" where
  "linger_expired now s =
     (case st_meta s of
        None \<Rightarrow> False
      | Some m \<Rightarrow>
          \<not> (sm_linger m = 0 \<or> sm_attached m)
          \<and> unat (sm_linger m) \<le> unat now - unat (linger_baseline (sm_heartbeat m) (sm_created m)))"

definition reap_lingering :: "u64 \<Rightarrow> Sessions \<Rightarrow> Sessions \<times> DaemonOut list" where
  "reap_lingering now ss =
     (let expired = map fst (filter (\<lambda>(_, s). linger_expired now s) ss)
      in (fold remove_session expired ss, map Abort expired))"

definition reap_sessions :: "Sessions \<Rightarrow> Sessions" where
  "reap_sessions ss = filter (\<lambda>(_, s). \<not> st_finished s) ss"

definition resolve_session :: "Sessions \<Rightarrow> rstring \<Rightarrow> u32 option \<Rightarrow> u32 option" where
  "resolve_session ss target la =
     (if target = ascii ''-'' then
        (case la of Some i \<Rightarrow> if has_session i ss then Some i else None | None \<Rightarrow> None)
      else
        (case find (\<lambda>(_, s). st_name s = Some target) ss of
           Some (i, _) \<Rightarrow> Some i
         | None \<Rightarrow>
             (case parse_unsigned (2 ^ 32) target of
                Some n \<Rightarrow> (if has_session (word_of_nat n) ss then Some (word_of_nat n) else None)
              | None \<Rightarrow> None)))"

definition is_ascii_control :: "byte \<Rightarrow> bool" where
  "is_ascii_control b \<longleftrightarrow> b < 0x20 \<or> b = 0x7F"

text \<open>The error frame for a name that is not allowed, or None.\<close>

definition validate_session_name :: "rstring \<Rightarrow> Sessions \<Rightarrow> Frame option" where
  "validate_session_name n ss =
     (if list_ex is_ascii_control n then
        Some (Error InvalidName (ascii ''session name must not contain control characters''))
      else if parse_unsigned (2 ^ 32) n \<noteq> None then
        Some (Error InvalidName
          (ascii ''session name must not be purely numeric (ambiguous with session IDs)''))
      else if n = ascii ''-'' then
        Some (Error InvalidName
          (ascii ''session name must not be '' @ [0x27, 0x2D, 0x27] @ ascii '' (reserved for last-attached)''))
      else if list_ex (\<lambda>(_, s). st_name s = Some n) ss then
        Some (Error NameAlreadyExists (ascii ''session name already exists: '' @ n))
      else None)"

definition no_such_session :: "rstring \<Rightarrow> Frame" where
  "no_such_session session = Error NoSuchSession (ascii ''no such session: '' @ session)"

definition session_of :: "Sessions \<Rightarrow> u32 \<Rightarrow> SessionState option" where
  "session_of ss i = map_of ss i"

text \<open>\<open>resolve_live_session\<close>: the table without what was found dead, and the session or the error.\<close>

definition resolve_live_session ::
  "Sessions \<Rightarrow> rstring \<Rightarrow> u32 option \<Rightarrow> Sessions \<times> (Frame + u32)" where
  "resolve_live_session ss session la =
     (let ss = reap_sessions ss in
      case resolve_session ss session la of
        None \<Rightarrow> (ss, Inl (no_such_session session))
      | Some i \<Rightarrow>
          (case session_of ss i of
             Some s \<Rightarrow>
               if st_closed s then (remove_session i ss, Inl (no_such_session session)) else (ss, Inr i)
           | None \<Rightarrow> (ss, Inl (no_such_session session))))"

definition build_entry :: "DaemonEnv \<Rightarrow> u32 option \<Rightarrow> u32 \<times> SessionState \<Rightarrow> SessionEntry" where
  "build_entry e la x =
     (case x of (i, s) \<Rightarrow>
       (let nm = (case st_name s of Some n \<Rightarrow> n | None \<Rightarrow> []) in
        case st_meta s of
          Some m \<Rightarrow>
            \<lparr>entry_id = i, name = nm, pty_path = sm_pty m, shell_pid = sm_shell_pid m,
             created_at = sm_created m, attached = sm_attached m, last_heartbeat = sm_heartbeat m,
             foreground_cmd = fst (de_foreground e (sm_shell_pid m)),
             cwd = snd (de_foreground e (sm_shell_pid m)), client_name = sm_client m,
             agent_forwarding_active = sm_wants_agent m, is_last_attached = (la = Some i),
             last_activity = sm_activity m, linger_secs = sm_linger m\<rparr>
        | None \<Rightarrow>
            \<lparr>entry_id = i, name = nm, pty_path = [], shell_pid = 0, created_at = 0, attached = False,
             last_heartbeat = 0, foreground_cmd = ascii ''-'', cwd = [], client_name = [],
             agent_forwarding_active = False, is_last_attached = (la = Some i),
             last_activity = 0, linger_secs = 0\<rparr>))"

definition build_session_entries :: "DaemonEnv \<Rightarrow> Sessions \<Rightarrow> u32 option \<Rightarrow> SessionEntry list" where
  "build_session_entries e ss la = sort_key entry_id (map (build_entry e la) ss)"

end
