(* ===== verification/Daemon_Control.thy ===== *)
theory Daemon_Control
  imports Daemon
begin

text \<open>
  The control requests of \<open>src/src/daemon.rs\<close>: \<open>dispatch_control\<close>, one definition per arm, the
  handshake and the version gate, and the turns of the main loop with the changes the session
  tasks make between them.
\<close>

section \<open>Requests\<close>

text \<open>An arm yields the daemon, its effects, and whether the daemon should exit.\<close>

type_synonym Result = "Daemon \<times> DaemonOut list \<times> bool"

definition nonempty :: "rstring \<Rightarrow> rstring option" where
  "nonempty s = (if s = [] then None else Some s)"

definition refuse :: "Daemon \<Rightarrow> Frame \<Rightarrow> Result" where
  "refuse d f = (d, [Reply f], False)"

definition mark_attached :: "u64 \<Rightarrow> SessionMeta \<Rightarrow> SessionMeta" where
  "mark_attached now m = m\<lparr>sm_attached := True, sm_heartbeat := now\<rparr>"

text \<open>What a task publishes has the owner and the linger it was started with.\<close>

definition published :: "SessionState \<Rightarrow> SessionMeta \<Rightarrow> SessionMeta" where
  "published s m = m\<lparr>sm_owner := st_initial_device s, sm_linger := st_initial_linger s\<rparr>"

definition publish :: "SessionMeta \<Rightarrow> SessionState \<Rightarrow> SessionState" where
  "publish m s = (if st_meta s = None then s\<lparr>st_meta := Some (published s m)\<rparr> else s)"

text \<open>The polling loops: the metadata of a session after at most three seconds.\<close>

definition await_meta :: "DaemonEnv \<Rightarrow> SessionState \<Rightarrow> SessionState" where
  "await_meta e s = (case de_ready e of Some m \<Rightarrow> publish m s | None \<Rightarrow> s)"

definition mark_attached_when_ready :: "DaemonEnv \<Rightarrow> SessionState \<Rightarrow> SessionState" where
  "mark_attached_when_ready e s =
     (let s = await_meta e s in s\<lparr>st_meta := map_option (mark_attached (de_now e)) (st_meta s)\<rparr>)"

text \<open>An empty name means "unnamed"; only a given one is validated.\<close>

definition new_name_error :: "rstring \<Rightarrow> Sessions \<Rightarrow> Frame option" where
  "new_name_error nm ss = (if nm = [] then None else validate_session_name nm ss)"

definition new_session ::
  "DaemonEnv \<Rightarrow> Daemon \<Rightarrow> u32 \<Rightarrow> u64 \<Rightarrow> rstring \<Rightarrow> rstring \<Rightarrow> rstring \<Rightarrow> u16 \<Rightarrow> u16 \<Rightarrow> rstring
     \<Rightarrow> u64 \<Rightarrow> Result" where
  "new_session e d caps device nm command dir cols rows client linger =
     (let d = d\<lparr>sessions := reap_sessions (sessions d)\<rparr> in
      case new_name_error nm (sessions d) of
        Some f \<Rightarrow> refuse d f
      | None \<Rightarrow>
          (let i = next_id d;
               s = \<lparr>st_finished = False, st_closed = False, st_meta = None, st_name = nonempty nm,
                    st_initial_device = device, st_initial_linger = linger\<rparr>;
               d = d\<lparr>next_id := i + 1, sessions := insert_session i s (sessions d)\<rparr>;
               sent = [Spawn i (nonempty nm) (nonempty command) (nonempty dir) cols rows, Reply (SessionCreated i)]
                      @ (if de_sent1 e then [Reply (AttachAck device i)] else [])
           in if de_sent1 e \<and> de_sent2 e then
                (d\<lparr>sessions := update_session i (mark_attached_when_ready e) (sessions d),
                   last_attached := Some i\<rparr>,
                 sent @ [HandActive i \<lparr>ho_client = client, ho_caps = caps, ho_cols = 0, ho_rows = 0,
                                       ho_offset = 0, ho_dirty = False, ho_fresh = True\<rparr>], False)
              else
                (let (ss, outs) = abort_session i (sessions d)
                 in (d\<lparr>sessions := ss\<rparr>, sent @ outs, False))))"

text \<open>The last part of an attach: the session is free or to be taken over.\<close>

definition attach_hand_off ::
  "DaemonEnv \<Rightarrow> Daemon \<Rightarrow> u64 \<Rightarrow> u32 \<Rightarrow> SessionState \<Rightarrow> rstring \<Rightarrow> HandOff \<Rightarrow> Result" where
  "attach_hand_off e d device i s session h =
     (let d = d\<lparr>sessions := update_session i (await_meta e) (sessions d)\<rparr> in
      case st_meta (await_meta e s) of
        None \<Rightarrow> refuse d (Error NoSuchSession (ascii ''session '' @ session @ ascii '' is still initializing''))
      | Some m \<Rightarrow>
          (if de_sent1 e then
             (d\<lparr>sessions := update_session i
                  (\<lambda>s. s\<lparr>st_meta := map_option (\<lambda>m. (mark_attached (de_now e) m)\<lparr>sm_owner := device\<rparr>) (st_meta s)\<rparr>)
                  (sessions d),
                last_attached := Some i\<rparr>,
              [Reply (AttachAck device i), HandActive i h], False)
           else (d, [Reply (AttachAck device i)], False)))"

definition already_attached :: "rstring \<Rightarrow> SessionState \<Rightarrow> Frame" where
  "already_attached session s =
     (let current = (case st_meta s of Some m \<Rightarrow> sm_client m | None \<Rightarrow> []) in
      Error AlreadyAttached (ascii ''session '' @ session @ ascii '' is already attached''
        @ (if current = [] then [] else ascii '' by '' @ current)))"

definition attach ::
  "DaemonEnv \<Rightarrow> Daemon \<Rightarrow> u32 \<Rightarrow> u64 \<Rightarrow> rstring \<Rightarrow> rstring \<Rightarrow> bool \<Rightarrow> bool \<Rightarrow> u16 \<Rightarrow> u16 \<Rightarrow> u64 \<Rightarrow> u64
     \<Rightarrow> bool \<Rightarrow> Result" where
  "attach e d caps device session client force no_replay cols rows token offset dirty =
     (let d = d\<lparr>sessions := reap_sessions (sessions d)\<rparr> in
      case resolve_session (sessions d) session (last_attached d) of
        None \<Rightarrow> refuse d (no_such_session session)
      | Some i \<Rightarrow>
          (case session_of (sessions d) i of
             None \<Rightarrow> refuse d (no_such_session session)
           | Some s \<Rightarrow>
               if st_closed s then
                 refuse (d\<lparr>sessions := remove_session i (sessions d)\<rparr>) (no_such_session session)
               else if no_replay then refuse d OkFrame
               else if token \<noteq> 0 \<and> device \<noteq> (case st_meta s of Some m \<Rightarrow> sm_owner m | None \<Rightarrow> 0) then
                 refuse d (Error OwnerChanged
                   (ascii ''session '' @ session @ ascii '' was taken over by another client''))
               else if (case st_meta s of Some m \<Rightarrow> sm_attached m | None \<Rightarrow> False) \<and> \<not> force then
                 refuse d (already_attached session s)
               else
                 attach_hand_off e d device i s session
                   \<lparr>ho_client = client, ho_caps = caps, ho_cols = cols, ho_rows = rows,
                    ho_offset = offset, ho_dirty = dirty, ho_fresh = (token = 0)\<rparr>))"

text \<open>The arms that start with \<open>resolve_live_session\<close>.\<close>

definition with_live ::
  "Daemon \<Rightarrow> rstring \<Rightarrow> (Daemon \<Rightarrow> u32 \<Rightarrow> Result) \<Rightarrow> Result" where
  "with_live d session arm =
     (case resolve_live_session (sessions d) session (last_attached d) of
        (ss, Inl f) \<Rightarrow> refuse (d\<lparr>sessions := ss\<rparr>) f
      | (ss, Inr i) \<Rightarrow> arm (d\<lparr>sessions := ss\<rparr>) i)"

definition tail_session :: "DaemonEnv \<Rightarrow> Daemon \<Rightarrow> rstring \<Rightarrow> Result" where
  "tail_session e d session =
     with_live d session (\<lambda>d i. (d, Reply OkFrame # (if de_sent1 e then [HandTail i] else []), False))"

definition send_file :: "DaemonEnv \<Rightarrow> Daemon \<Rightarrow> rstring \<Rightarrow> Result" where
  "send_file e d session =
     with_live d session (\<lambda>d i. (d, Reply OkFrame # (if de_sent1 e then [HandSend i] else []), False))"

definition kill_session :: "Daemon \<Rightarrow> rstring \<Rightarrow> Result" where
  "kill_session d session =
     with_live d session (\<lambda>d i.
       let (ss, outs) = abort_session i (sessions d) in (d\<lparr>sessions := ss\<rparr>, outs @ [Reply OkFrame], False))"

definition rename_session :: "Daemon \<Rightarrow> rstring \<Rightarrow> rstring \<Rightarrow> Result" where
  "rename_session d session new_name =
     with_live d session (\<lambda>d i.
       if new_name = [] then refuse d (Error EmptyName (ascii ''new name must not be empty''))
       else
         (case validate_session_name new_name (sessions d) of
            Some f \<Rightarrow> refuse d f
          | None \<Rightarrow>
              refuse (d\<lparr>sessions := update_session i (\<lambda>s. s\<lparr>st_name := Some new_name\<rparr>) (sessions d)\<rparr>) OkFrame))"

definition set_linger :: "Daemon \<Rightarrow> rstring \<Rightarrow> u64 \<Rightarrow> Result" where
  "set_linger d session linger =
     with_live d session (\<lambda>d i.
       case session_of (sessions d) i of
         Some s \<Rightarrow>
           (if st_meta s = None
            then refuse d (Error NoSuchSession (ascii ''session not yet initialized''))
            else refuse (d\<lparr>sessions := update_session i
                   (\<lambda>s. s\<lparr>st_meta := map_option (\<lambda>m. m\<lparr>sm_linger := linger\<rparr>) (st_meta s)\<rparr>) (sessions d)\<rparr>) OkFrame)
       | None \<Rightarrow> refuse d (Error NoSuchSession (ascii ''session not yet initialized'')))"

text \<open>\<open>drain_sessions\<close> and \<open>shutdown\<close>.\<close>

definition drain_sessions :: "Daemon \<Rightarrow> Daemon \<times> DaemonOut list" where
  "drain_sessions d = (d\<lparr>sessions := []\<rparr>, map (\<lambda>(i, _). HandShutdown i) (sessions d))"

definition shutdown :: "Daemon \<Rightarrow> Daemon \<times> DaemonOut list" where
  "shutdown d = (let (d, outs) = drain_sessions d in (d, outs @ [UnlinkFiles]))"

definition dispatch_control :: "DaemonEnv \<Rightarrow> Daemon \<Rightarrow> u32 \<Rightarrow> u64 \<Rightarrow> Frame \<Rightarrow> Result" where
  "dispatch_control e d caps device f =
     (case f of
        NewSession nm command dir cols rows client linger \<Rightarrow>
          new_session e d caps device nm command dir cols rows client linger
      | Attach session client force no_replay cols rows token offset dirty \<Rightarrow>
          attach e d caps device session client force no_replay cols rows token offset dirty
      | Tail session \<Rightarrow> tail_session e d session
      | ListSessions \<Rightarrow>
          (let d = d\<lparr>sessions := reap_sessions (sessions d)\<rparr>
           in refuse d (SessionInfo (build_session_entries e (sessions d) (last_attached d))))
      | KillSession session \<Rightarrow> kill_session d session
      | SendFile session \<Rightarrow> send_file e d session
      | RenameSession session new_name \<Rightarrow> rename_session d session new_name
      | SetLinger session linger \<Rightarrow> set_linger d session linger
      | KillServer \<Rightarrow> (let (d, outs) = shutdown d in (d, outs @ [Reply OkFrame], True))
      | _ \<Rightarrow> refuse d (Error UnexpectedFrame (ascii ''unexpected frame type'')))"

section \<open>Connections\<close>

datatype VersionCheck = Matched | Mismatched u16

text \<open>
  \<open>connection_handshake\<close>: from the first frame (None for end, error or timeout), the frames sent
  and the negotiated capabilities with the check, when the connection goes on to its request.
\<close>

definition connection_handshake ::
  "u64 \<Rightarrow> Frame option \<Rightarrow> bool \<Rightarrow> Frame list \<times> (u32 \<times> VersionCheck \<times> u64) option" where
  "connection_handshake server_id first sent =
     (case first of
        Some (Hello version client_caps device) \<Rightarrow>
          ([HelloAck PROTOCOL_VERSION CAP_CLIPBOARD server_id],
           if \<not> sent then None
           else if version = PROTOCOL_VERSION then Some (and client_caps CAP_CLIPBOARD, Matched, device)
           else Some (0, Mismatched version, device))
      | Some _ \<Rightarrow> ([Error UnexpectedFrame (ascii ''expected Hello handshake'')], None)
      | None \<Rightarrow> ([], None))"

text \<open>
  The arm of the main loop for a request: under a version mismatch only \<open>KillServer\<close> is honoured;
  \<open>text\<close> stands for the formatted message with the version numbers.
\<close>

definition version_message :: "u16 \<Rightarrow> rstring" where
  "version_message v =
     ascii ''protocol version mismatch: client='' @ dec (unat v) @ ascii '' server=''
       @ dec (unat PROTOCOL_VERSION)
       @ ascii ''; only KillServer is accepted -- run `gritty refresh` to upgrade''"

definition handle_request ::
  "DaemonEnv \<Rightarrow> Daemon \<Rightarrow> Frame \<Rightarrow> u32 \<Rightarrow> VersionCheck \<Rightarrow> u64 \<Rightarrow> Result" where
  "handle_request e d f caps check device =
     (case check of
        Mismatched v \<Rightarrow>
          (if f = KillServer then dispatch_control e d caps device f
           else refuse d (Error VersionMismatch (version_message v)))
      | Matched \<Rightarrow> dispatch_control e d caps device f)"

section \<open>The socket on disk\<close>

datatype 'i SocketCheck = Intact | Recovered 'i | Lost

text \<open>
  \<open>check_socket\<close>: the identity found at the path, ours, whether the directory could be made,
  whether the path could be bound again, and the identity found then.
\<close>

definition check_socket :: "'i option \<Rightarrow> 'i \<Rightarrow> bool \<Rightarrow> bool \<Rightarrow> 'i option \<Rightarrow> 'i SocketCheck" where
  "check_socket found ours dir_ok bind_ok rebound =
     (if found = Some ours then Intact
      else if \<not> dir_ok then Lost
      else if bind_ok then (case rebound of Some i \<Rightarrow> Recovered i | None \<Rightarrow> Lost)
      else Lost)"

section \<open>The main loop\<close>

text \<open>
  Between two turns the session tasks publish their metadata, write to it (never the owner, the
  creation time or the PTY's path), close their channel and finish.
\<close>

datatype TaskEvent =
    Publishes u32 SessionMeta
  | Writes u32 SessionMeta
  | Closes u32
  | Finishes u32

definition task_write :: "SessionMeta \<Rightarrow> SessionMeta \<Rightarrow> SessionMeta" where
  "task_write w m =
     m\<lparr>sm_shell_pid := sm_shell_pid w, sm_attached := sm_attached w, sm_heartbeat := sm_heartbeat w,
       sm_activity := sm_activity w, sm_client := sm_client w, sm_wants_agent := sm_wants_agent w,
       sm_linger := sm_linger w\<rparr>"

definition task_event :: "TaskEvent \<Rightarrow> Sessions \<Rightarrow> Sessions" where
  "task_event ev ss =
     (case ev of
        Publishes i m \<Rightarrow> update_session i (publish m) ss
      | Writes i w \<Rightarrow> update_session i (\<lambda>s. s\<lparr>st_meta := map_option (task_write w) (st_meta s)\<rparr>) ss
      | Closes i \<Rightarrow> update_session i (\<lambda>s. s\<lparr>st_closed := True\<rparr>) ss
      | Finishes i \<Rightarrow> update_session i (\<lambda>s. s\<lparr>st_closed := True, st_finished := True\<rparr>) ss)"

datatype DaemonEvent =
    Task TaskEvent
  | Request Frame u32 VersionCheck u64
  | Terminate
  | SocketFound "nat SocketCheck"
  | OtherWakeup

definition daemon_turn :: "DaemonEnv \<Rightarrow> Daemon \<Rightarrow> DaemonEvent \<Rightarrow> Result" where
  "daemon_turn e d ev =
     (case ev of
        Task t \<Rightarrow> (d\<lparr>sessions := task_event t (sessions d)\<rparr>, [], False)
      | _ \<Rightarrow>
          (let (ss, outs) = reap_lingering (de_now e) (sessions d);
               d = d\<lparr>sessions := reap_sessions ss\<rparr>;
               (d, outs', stop) =
                 (case ev of
                    Request f caps check device \<Rightarrow> handle_request e d f caps check device
                  | Terminate \<Rightarrow> (let (d, outs) = shutdown d in (d, outs, True))
                  | SocketFound Lost \<Rightarrow> (let (d, outs) = drain_sessions d in (d, outs, True))
                  | _ \<Rightarrow> (d, [], False))
           in (d, outs @ outs', stop)))"

fun daemon_run :: "Daemon \<Rightarrow> (DaemonEnv \<times> DaemonEvent) list \<Rightarrow> Daemon \<times> DaemonOut list" where
  "daemon_run d [] = (d, [])"
| "daemon_run d ((e, ev) # evs) =
     (case daemon_turn e d ev of
        (d, outs, stop) \<Rightarrow>
          (if stop then (d, outs) else (let (d, outs') = daemon_run d evs in (d, outs @ outs'))))"

definition daemon_start :: Daemon where
  "daemon_start = \<lparr>sessions = [], next_id = 0, last_attached = None\<rparr>"

end
