(* ===== verification/Daemon_Proofs.thy ===== *)
theory Daemon_Proofs
  imports Daemon_Control
begin

text \<open>
  The table of sessions over every run of the daemon: names and identifiers stay unambiguous,
  identifiers are not used twice, a name resolves to one session, and exactly the sessions whose
  linger has run out are reaped.
\<close>

section \<open>Operations on the table\<close>

definition ids :: "Sessions \<Rightarrow> u32 list" where
  "ids ss = map fst ss"

definition names :: "Sessions \<Rightarrow> rstring list" where
  "names ss = List.map_filter (\<lambda>(_, s). st_name s) ss"

definition valid_name :: "rstring \<Rightarrow> bool" where
  "valid_name n \<longleftrightarrow> n \<noteq> [] \<and> \<not> list_ex is_ascii_control n \<and> parse_unsigned (2 ^ 32) n = None \<and> n \<noteq> ascii ''-''"

definition table_ok :: "Sessions \<Rightarrow> bool" where
  "table_ok ss \<longleftrightarrow> distinct (ids ss) \<and> distinct (names ss) \<and> list_all valid_name (names ss)"

lemma ids_simps [simp]:
  "ids [] = []" "ids (x # ss) = fst x # ids ss" "ids (ss @ ts) = ids ss @ ids ts"
  by (simp_all add: ids_def)

lemma names_simps [simp]:
  "names [] = []" "names ((i, s) # ss) = (case st_name s of Some n \<Rightarrow> n # names ss | None \<Rightarrow> names ss)"
  "names (ss @ ts) = names ss @ names ts"
  by (simp_all add: names_def map_filter_simps split: option.split)
    (simp add: List.map_filter_def)

lemma names_map_filter: "names ss = map (the \<circ> st_name) (filter (\<lambda>s. st_name s \<noteq> None) (map snd ss))"
  by (induction ss) (auto split: option.splits)

lemma in_names: "n \<in> set (names ss) \<longleftrightarrow> (\<exists>i s. (i, s) \<in> set ss \<and> st_name s = Some n)"
proof (induction ss)
  case (Cons x ss)
  obtain i s where "x = (i, s)" by (cases x)
  with Cons show ?case by (cases "st_name s") auto
qed simp

lemma names_mono: "set ts \<subseteq> set ss \<Longrightarrow> set (names ts) \<subseteq> set (names ss)"
  unfolding subset_iff in_names by blast

lemma has_session_ids: "has_session i ss \<longleftrightarrow> i \<in> set (ids ss)"
  by (simp add: has_session_def ids_def)

lemma ids_filter: "set (ids (filter P ss)) \<subseteq> set (ids ss)"
  by (auto simp: ids_def)

lemma distinct_names_filter: "distinct (names ss) \<Longrightarrow> distinct (names (filter P ss))"
proof (induction ss)
  case (Cons x ss)
  obtain i s where x: "x = (i, s)" by (cases x)
  have "set (names (filter P ss)) \<subseteq> set (names ss)" by (rule names_mono) auto
  with Cons x show ?case by (auto split: option.splits)
qed simp

lemma table_ok_filter: "table_ok ss \<Longrightarrow> table_ok (filter P ss)"
  using distinct_names_filter [of ss P] names_mono [of "filter P ss" ss]
  by (auto simp: table_ok_def ids_def list_all_iff distinct_map_filter)

lemma remove_session_filter: "remove_session i ss = filter (\<lambda>x. fst x \<noteq> i) ss"
  by (simp add: remove_session_def case_prod_unfold)

lemma table_ok_remove: "table_ok ss \<Longrightarrow> table_ok (remove_session i ss)"
  by (simp add: remove_session_filter table_ok_filter)

lemma table_ok_reap: "table_ok ss \<Longrightarrow> table_ok (reap_sessions ss)"
  by (simp add: reap_sessions_def table_ok_filter)

lemma fold_remove: "fold remove_session is ss = filter (\<lambda>x. fst x \<notin> set is) ss"
  by (induction "is" arbitrary: ss) (auto simp: remove_session_filter intro: filter_cong)

lemma reap_lingering_filter:
  assumes "distinct (ids ss)"
  shows "fst (reap_lingering now ss) = filter (\<lambda>(_, s). \<not> linger_expired now s) ss"
proof -
  have "x \<in> set ss \<Longrightarrow> fst x \<in> fst ` set (filter (\<lambda>(_, s). linger_expired now s) ss)
      \<longleftrightarrow> linger_expired now (snd x)" for x
    using assms by (auto simp: ids_def distinct_map inj_on_def)
  then have "filter (\<lambda>x. fst x \<notin> fst ` set (filter (\<lambda>(_, s). linger_expired now s) ss)) ss
      = filter (\<lambda>x. \<not> linger_expired now (snd x)) ss"
    by (intro filter_cong refl) blast
  then show ?thesis by (simp add: reap_lingering_def fold_remove Let_def case_prod_unfold)
qed

lemma table_ok_lingering: "table_ok ss \<Longrightarrow> table_ok (fst (reap_lingering now ss))"
  by (simp add: reap_lingering_filter table_ok_def [of ss] table_ok_filter)

lemma ids_update [simp]: "ids (update_session i f ss) = ids ss"
  by (simp add: ids_def update_session_def case_prod_unfold comp_def)

lemma names_update: "(\<And>s. st_name (f s) = st_name s) \<Longrightarrow> names (update_session i f ss) = names ss"
  by (induction ss) (auto simp: update_session_def split: option.splits)

lemma table_ok_update:
  "\<lbrakk>table_ok ss; \<And>s. st_name (f s) = st_name s\<rbrakk> \<Longrightarrow> table_ok (update_session i f ss)"
  by (simp add: table_ok_def names_update)

lemma set_names_rename:
  "set (names (update_session i (\<lambda>s. s\<lparr>st_name := Some n\<rparr>) ss)) \<subseteq> insert n (set (names ss))"
  by (auto simp: in_names update_session_def split: if_splits)

lemma table_ok_rename:
  assumes "table_ok ss" and "valid_name n" and "n \<notin> set (names ss)"
  shows "table_ok (update_session i (\<lambda>s. s\<lparr>st_name := Some n\<rparr>) ss)"
proof -
  have "\<lbrakk>distinct (ids ts); distinct (names ts); n \<notin> set (names ts)\<rbrakk>
      \<Longrightarrow> distinct (names (update_session i (\<lambda>s. s\<lparr>st_name := Some n\<rparr>) ts))" for ts
  proof (induction ts)
    case (Cons x ts)
    obtain j s where x: "x = (j, s)" by (cases x)
    have sub: "set (names (update_session i (\<lambda>s. s\<lparr>st_name := Some n\<rparr>) ts)) \<subseteq> insert n (set (names ts))"
      by (rule set_names_rename)
    show ?case
    proof (cases "j = i")
      case True
      with Cons x have "i \<notin> set (ids ts)" by simp
      then have "update_session i (\<lambda>s. s\<lparr>st_name := Some n\<rparr>) ts = ts"
        by (induction ts) (auto simp: update_session_def)
      with True Cons x show ?thesis by (simp add: update_session_def split: option.splits)
    next
      case False
      with Cons x sub show ?thesis by (auto simp: update_session_def split: option.splits)
    qed
  qed (simp add: update_session_def)
  with assms set_names_rename [of i n ss] show ?thesis
    by (auto simp: table_ok_def list_all_iff)
qed

lemma validate_ok:
  "validate_session_name n ss = None \<Longrightarrow> n \<noteq> [] \<Longrightarrow> valid_name n \<and> n \<notin> set (names ss)"
  by (auto simp: validate_session_name_def valid_name_def in_names list_ex_iff split: if_splits)

lemma table_ok_insert:
  assumes "table_ok ss" and "\<And>n. st_name s = Some n \<Longrightarrow> valid_name n \<and> n \<notin> set (names ss)"
  shows "table_ok (insert_session i s ss)"
proof -
  have "set (names (remove_session i ss)) \<subseteq> set (names ss)"
    by (rule names_mono) (auto simp: remove_session_filter)
  moreover have "i \<notin> set (ids (remove_session i ss))" by (auto simp: ids_def remove_session_filter)
  ultimately show ?thesis
    using assms table_ok_remove [OF assms(1), of i]
    by (auto simp: insert_session_def table_ok_def list_all_iff split: option.split)
qed

section \<open>Every request keeps the table\<close>

lemma st_name_simps [simp]:
  "st_name (publish m s) = st_name s" "st_name (await_meta e s) = st_name s"
  "st_name (mark_attached_when_ready e s) = st_name s"
  by (simp_all add: publish_def await_meta_def mark_attached_when_ready_def Let_def split: option.split)

lemma refuse_simps [simp]: "fst (refuse d f) = d" "fst (snd (refuse d f)) = [Reply f]" "snd (snd (refuse d f)) = False"
  by (simp_all add: refuse_def)

lemma abort_simps [simp]: "fst (abort_session i ss) = remove_session i ss"
  by (simp add: abort_session_def)

lemma table_ok_new:
  assumes "table_ok (sessions d)"
  shows "table_ok (sessions (fst (new_session e d caps device nm command dir cols rows client linger)))"
proof -
  let ?d = "d\<lparr>sessions := reap_sessions (sessions d)\<rparr>"
  have ok: "table_ok (reap_sessions (sessions d))" using assms by (rule table_ok_reap)
  show ?thesis
  proof (cases "new_name_error nm (reap_sessions (sessions d))")
    case (Some f)
    with ok show ?thesis by (simp add: new_session_def Let_def)
  next
    case None
    let ?s = "\<lparr>st_finished = False, st_closed = False, st_meta = None, st_name = nonempty nm,
      st_initial_device = device, st_initial_linger = linger\<rparr>"
    have "valid_name n \<and> n \<notin> set (names (reap_sessions (sessions d)))" if "nonempty nm = Some n" for n
      using None that validate_ok by (auto simp: nonempty_def new_name_error_def split: if_splits)
    then have "table_ok (insert_session (next_id d) ?s (reap_sessions (sessions d)))"
      by (intro table_ok_insert [OF ok]) simp
    with None show ?thesis
      by (simp add: new_session_def Let_def split_beta table_ok_update table_ok_remove)
  qed
qed

lemma table_ok_attach:
  assumes "table_ok (sessions d)"
  shows "table_ok (sessions (fst (attach e d caps device session client force no_replay cols rows token offset dirty)))"
  using table_ok_reap [OF assms]
  by (simp add: attach_def attach_hand_off_def Let_def table_ok_remove table_ok_update split: option.split)

lemma table_ok_live:
  assumes "table_ok (sessions d)"
    and "\<And>d i. table_ok (sessions d) \<Longrightarrow> table_ok (sessions (fst (arm d i)))"
  shows "table_ok (sessions (fst (with_live d session arm)))"
proof -
  have "table_ok (fst (resolve_live_session (sessions d) session (last_attached d)))"
    using table_ok_reap [OF assms(1)]
    by (simp add: resolve_live_session_def Let_def table_ok_remove split: option.split)
  with assms(2) show ?thesis
    by (auto simp: with_live_def split: prod.split sum.split)
qed

lemma table_ok_dispatch:
  assumes "table_ok (sessions d)"
  shows "table_ok (sessions (fst (dispatch_control e d caps device f)))"
proof (cases f)
  case (RenameSession session new_name)
  have "table_ok (sessions (fst (rename_session d session new_name)))"
    unfolding rename_session_def
    by (rule table_ok_live [OF assms])
      (auto simp: table_ok_rename validate_ok split: option.split)
  with RenameSession show ?thesis by (simp add: dispatch_control_def)
qed (use assms in \<open>auto simp: dispatch_control_def table_ok_new table_ok_attach table_ok_reap shutdown_def
      drain_sessions_def tail_session_def send_file_def kill_session_def set_linger_def Let_def split_beta
      table_ok_def [of "[]"] intro!: table_ok_live table_ok_remove table_ok_update split: option.split\<close>)

lemma table_ok_turn:
  assumes "table_ok (sessions d)"
  shows "table_ok (sessions (fst (daemon_turn e d ev)))"
proof (cases ev)
  case (Task t)
  with assms show ?thesis
    by (cases t) (simp_all add: daemon_turn_def task_event_def table_ok_update)
next
  case (Request f caps check device)
  have "table_ok (reap_sessions (fst (reap_lingering (de_now e) (sessions d))))"
    by (intro table_ok_reap table_ok_lingering assms)
  with Request show ?thesis
    by (simp add: daemon_turn_def handle_request_def Let_def split_beta table_ok_dispatch split: VersionCheck.split)
qed (use assms in \<open>auto simp: daemon_turn_def Let_def split_beta shutdown_def drain_sessions_def
      table_ok_reap table_ok_lingering table_ok_def [of "[]"] split: SocketCheck.split\<close>)

lemma table_ok_run: "table_ok (sessions d) \<Longrightarrow> table_ok (sessions (fst (daemon_run d evs)))"
proof (induction d evs rule: daemon_run.induct)
  case (2 d e ev evs)
  obtain d' outs stop where t: "daemon_turn e d ev = (d', outs, stop)" by (metis prod_cases3)
  have "table_ok (sessions d')" using table_ok_turn [OF "2.prems", of e ev] t by simp
  with "2.IH" [OF t [symmetric]] t show ?case by (simp add: split_beta)
qed simp


text \<open>
  C23. Session names stay unambiguous: whatever requests arrive and whatever the session tasks do,
  in every reachable table the identifiers are distinct, no two sessions have the same name, and
  every name is non-empty, without control characters, not the reserved \<open>-\<close>, and not readable as
  a session identifier.
\<close>

theorem session_names_unambiguous:
  "table_ok (sessions (fst (daemon_run daemon_start evs)))"
  by (rule table_ok_run) (simp add: daemon_start_def table_ok_def)

section \<open>Identifiers\<close>

fun spawned :: "DaemonOut list \<Rightarrow> u32 list" where
  "spawned [] = []"
| "spawned (Spawn i nm cmd dir cols rows # outs) = i # spawned outs"
| "spawned (_ # outs) = spawned outs"

lemma spawned_append [simp]: "spawned (xs @ ys) = spawned xs @ spawned ys"
  by (induction xs rule: spawned.induct) simp_all

lemma spawned_maps [simp]:
  "spawned (map (\<lambda>x. Abort (f x)) xs) = []" "spawned (map (\<lambda>(i, _). HandShutdown i) ss) = []"
  by (induction xs) (simp_all, induction ss, auto)

lemma spawned_aborts [simp]: "spawned (map Abort xs) = []" "spawned (map (Abort \<circ> f) ys) = []"
  by (induction xs, simp_all) (induction ys, simp_all)

text \<open>What a turn may do to the identifiers: nothing new, or exactly the next one.\<close>

definition ids_step :: "Daemon \<Rightarrow> Daemon \<Rightarrow> DaemonOut list \<Rightarrow> bool" where
  "ids_step d d' outs \<longleftrightarrow>
     set (ids (sessions d')) \<subseteq> set (ids (sessions d)) \<union> set (spawned outs)
     \<and> (spawned outs = [] \<and> next_id d' = next_id d
        \<or> spawned outs = [next_id d] \<and> next_id d' = next_id d + 1)"

lemma ids_reap: "set (ids (reap_sessions ss)) \<subseteq> set (ids ss)"
  by (auto simp: reap_sessions_def ids_def)

lemma ids_remove: "set (ids (remove_session i ss)) \<subseteq> set (ids ss)"
  by (auto simp: remove_session_filter ids_def)

lemma ids_lingering: "set (ids (fst (reap_lingering now ss))) \<subseteq> set (ids ss)"
  by (auto simp: reap_lingering_def Let_def fold_remove ids_def)

lemma ids_insert: "set (ids (insert_session i s ss)) \<subseteq> insert i (set (ids ss))"
  using ids_remove [of i ss] by (auto simp: insert_session_def)

lemma spawned_abort [simp]: "spawned (snd (abort_session i ss)) = []"
  by (simp add: abort_session_def)

lemma ids_step_new:
  "ids_step d (fst (new_session e d caps device nm command dir cols rows client linger))
     (fst (snd (new_session e d caps device nm command dir cols rows client linger)))"
  using ids_reap [of "sessions d"]
    ids_insert [of "next_id d" _ "reap_sessions (sessions d)"]
    ids_remove [of "next_id d" "insert_session (next_id d) _ (reap_sessions (sessions d))"]
  by (simp add: new_session_def ids_step_def Let_def split_beta split: option.split) blast

lemma ids_step_attach:
  "ids_step d (fst (attach e d caps device session client force no_replay cols rows token offset dirty))
     (fst (snd (attach e d caps device session client force no_replay cols rows token offset dirty)))"
  using ids_reap [of "sessions d"] ids_remove [of _ "reap_sessions (sessions d)"]
  by (fastforce simp: attach_def attach_hand_off_def ids_step_def Let_def split: option.split)

lemma ids_live: "set (ids (fst (resolve_live_session ss session la))) \<subseteq> set (ids ss)"
proof
  fix x assume "x \<in> set (ids (fst (resolve_live_session ss session la)))"
  then have "x \<in> set (ids (reap_sessions ss))"
    using ids_remove [of _ "reap_sessions ss"]
    by (auto simp: resolve_live_session_def Let_def split: option.splits if_splits)
  then show "x \<in> set (ids ss)" using ids_reap by blast
qed

lemma ids_step_live:
  assumes "\<And>ss i. set (ids ss) \<subseteq> set (ids (sessions d)) \<Longrightarrow>
    ids_step (d\<lparr>sessions := ss\<rparr>) (fst (arm (d\<lparr>sessions := ss\<rparr>) i)) (fst (snd (arm (d\<lparr>sessions := ss\<rparr>) i)))"
  shows "ids_step d (fst (with_live d session arm)) (fst (snd (with_live d session arm)))"
proof -
  obtain ss r where l: "resolve_live_session (sessions d) session (last_attached d) = (ss, r)"
    by (metis prod.exhaust)
  have sub: "set (ids ss) \<subseteq> set (ids (sessions d))"
    using ids_live [of "sessions d" session "last_attached d"] l by simp
  then show ?thesis
    using assms [OF sub] l by (auto simp: with_live_def ids_step_def split: sum.split)
qed

lemma ids_step_dispatch:
  "ids_step d (fst (dispatch_control e d caps device f)) (fst (snd (dispatch_control e d caps device f)))"
proof -
  have live: "ids_step d (fst (with_live d session arm)) (fst (snd (with_live d session arm)))"
    if "\<And>d i. set (ids (sessions (fst (arm d i)))) \<subseteq> set (ids (sessions d))"
      and "\<And>d i. spawned (fst (snd (arm d i))) = []" and "\<And>d i. next_id (fst (arm d i)) = next_id d"
    for session arm
  proof (rule ids_step_live)
    fix ss i
    show "ids_step (d\<lparr>sessions := ss\<rparr>) (fst (arm (d\<lparr>sessions := ss\<rparr>) i)) (fst (snd (arm (d\<lparr>sessions := ss\<rparr>) i)))"
      using that(1) [of "d\<lparr>sessions := ss\<rparr>" i] that(2,3) by (simp add: ids_step_def)
  qed
  show ?thesis
  proof (cases f)
    case (NewSession nm command dir cols rows client linger)
    then show ?thesis by (simp add: dispatch_control_def ids_step_new)
  next
    case (Attach session client force no_replay cols rows token offset dirty)
    then show ?thesis by (simp add: dispatch_control_def ids_step_attach)
  next
    case (RenameSession session new_name)
    have "ids_step d (fst (rename_session d session new_name)) (fst (snd (rename_session d session new_name)))"
      unfolding rename_session_def by (rule live) (auto split: option.split)
    with RenameSession show ?thesis by (simp add: dispatch_control_def)
  next
    case (SetLinger session linger)
    have "ids_step d (fst (set_linger d session linger)) (fst (snd (set_linger d session linger)))"
      unfolding set_linger_def by (rule live) (auto split: option.split)
    with SetLinger show ?thesis by (simp add: dispatch_control_def)
  next
    case (KillSession session)
    have "ids_step d (fst (kill_session d session)) (fst (snd (kill_session d session)))"
      unfolding kill_session_def by (rule live) (use ids_remove in \<open>auto simp: Let_def split_beta\<close>)
    with KillSession show ?thesis by (simp add: dispatch_control_def)
  next
    case (Tail session)
    have "ids_step d (fst (tail_session e d session)) (fst (snd (tail_session e d session)))"
      unfolding tail_session_def by (rule live) auto
    with Tail show ?thesis by (simp add: dispatch_control_def)
  next
    case (SendFile session)
    have "ids_step d (fst (send_file e d session)) (fst (snd (send_file e d session)))"
      unfolding send_file_def by (rule live) auto
    with SendFile show ?thesis by (simp add: dispatch_control_def)
  qed (use ids_reap [of "sessions d"] in \<open>simp_all add: dispatch_control_def ids_step_def shutdown_def drain_sessions_def Let_def\<close>)
qed

lemma ids_step_refused: "ids_step d d [Reply f]"
  by (simp add: ids_step_def)

lemma ids_step_after:
  assumes "ids_step (d\<lparr>sessions := ss\<rparr>) d' outs" and "set (ids ss) \<subseteq> set (ids (sessions d))"
    and "spawned pre = []"
  shows "ids_step d d' (pre @ outs)"
  using assms by (auto simp: ids_step_def)

lemma reap_lingering_quiet [simp]: "spawned (snd (reap_lingering now ss)) = []"
  by (simp add: reap_lingering_def Let_def)

lemma ids_step_turn: "ids_step d (fst (daemon_turn e d ev)) (fst (snd (daemon_turn e d ev)))"
proof -
  let ?ss = "reap_sessions (fst (reap_lingering (de_now e) (sessions d)))"
  have sub: "set (ids ?ss) \<subseteq> set (ids (sessions d))" using ids_reap ids_lingering by blast
  have quiet: "ids_step d d' (snd (reap_lingering (de_now e) (sessions d)) @ outs)"
    if "ids_step (d\<lparr>sessions := ?ss\<rparr>) d' outs" for d' outs
    by (rule ids_step_after [OF that sub]) simp
  show ?thesis
  proof (cases ev)
    case (Task t)
    then show ?thesis by (cases t) (simp_all add: daemon_turn_def task_event_def ids_step_def)
  next
    case (Request f caps check device)
    have "ids_step (d\<lparr>sessions := ?ss\<rparr>) (fst (handle_request e (d\<lparr>sessions := ?ss\<rparr>) f caps check device))
        (fst (snd (handle_request e (d\<lparr>sessions := ?ss\<rparr>) f caps check device)))"
      by (cases check) (simp_all add: handle_request_def ids_step_dispatch ids_step_refused)
    from quiet [OF this] Request show ?thesis
      by (simp add: daemon_turn_def Let_def split_beta)
  qed (use sub quiet in \<open>auto simp: daemon_turn_def Let_def split_beta shutdown_def drain_sessions_def
      ids_step_def split: SocketCheck.split\<close>)
qed

lemma spawned_run:
  "\<exists>k \<le> length evs. spawned (snd (daemon_run d evs)) = map (\<lambda>j. next_id d + word_of_nat j) [0..<k]
     \<and> next_id (fst (daemon_run d evs)) = next_id d + word_of_nat k
     \<and> set (ids (sessions (fst (daemon_run d evs))))
         \<subseteq> set (ids (sessions d)) \<union> set (spawned (snd (daemon_run d evs)))"
proof (induction d evs rule: daemon_run.induct)
  case (2 d e ev evs)
  obtain d' outs stop where t: "daemon_turn e d ev = (d', outs, stop)" by (metis prod_cases3)
  have st: "ids_step d d' outs" using ids_step_turn [of d e ev] t by simp
  define a where "a = length (spawned outs)"
  have a: "a \<le> 1" "spawned outs = map (\<lambda>j. next_id d + word_of_nat j) [0..<a]"
    "next_id d' = next_id d + word_of_nat a"
    using st by (auto simp: ids_step_def a_def)
  show ?case
  proof (cases stop)
    case True
    with t st a show ?thesis by (intro exI [of _ a]) (auto simp: ids_step_def)
  next
    case False
    from "2.IH" [OF t [symmetric] refl False] obtain k where k: "k \<le> length evs"
      "spawned (snd (daemon_run d' evs)) = map (\<lambda>j. next_id d' + word_of_nat j) [0..<k]"
      "next_id (fst (daemon_run d' evs)) = next_id d' + word_of_nat k"
      "set (ids (sessions (fst (daemon_run d' evs))))
         \<subseteq> set (ids (sessions d')) \<union> set (spawned (snd (daemon_run d' evs)))" by blast
    have "[0..<a + k] = [0..<a] @ [a..<a + k]" using upt_add_eq_append [of 0 a k] by simp
    moreover have "map (\<lambda>j. j + a) [0..<k] = [a..<k + a]" by (rule map_add_upt)
    ultimately have "[0..<a + k] = [0..<a] @ map (\<lambda>j. j + a) [0..<k]"
      by (simp only: add.commute [of k a])
    then have "map (\<lambda>j. next_id d + word_of_nat j) [0..<a + k]
        = spawned outs @ map (\<lambda>j. next_id d' + word_of_nat j) [0..<k]"
      by (simp add: a ac_simps)
    with t False k a st show ?thesis
      by (intro exI [of _ "a + k"]) (auto simp: split_beta ids_step_def ac_simps)
  qed
qed (rule exI [of _ 0], simp)

text \<open>
  A session identifier is never given twice: over any run of fewer than \<open>2 ^ 32\<close> events the
  identifiers of the sessions created are distinct, in the order 0, 1, 2, and so on, and every
  session in the table has one of them; so an identifier a client or a shell remembers can only
  mean the session it meant.
\<close>

theorem session_ids_never_reused:
  assumes "length evs < 2 ^ 32"
  shows "distinct (spawned (snd (daemon_run daemon_start evs)))
    \<and> spawned (snd (daemon_run daemon_start evs))
        = map word_of_nat [0..<length (spawned (snd (daemon_run daemon_start evs)))]
    \<and> set (ids (sessions (fst (daemon_run daemon_start evs))))
        \<subseteq> set (spawned (snd (daemon_run daemon_start evs)))"
proof -
  obtain k where k: "k \<le> length evs"
    "spawned (snd (daemon_run daemon_start evs)) = map (\<lambda>j. next_id daemon_start + word_of_nat j) [0..<k]"
    "set (ids (sessions (fst (daemon_run daemon_start evs))))
       \<subseteq> set (ids (sessions daemon_start)) \<union> set (spawned (snd (daemon_run daemon_start evs)))"
    using spawned_run by blast
  have "inj_on (word_of_nat :: nat \<Rightarrow> u32) (set [0..<k])"
    by (rule inj_on_inverseI [where g = unat]) (use k(1) assms in \<open>simp add: unat_of_nat\<close>)
  moreover have "spawned (snd (daemon_run daemon_start evs)) = map word_of_nat [0..<k]"
    using k(2) by (simp add: daemon_start_def)
  moreover have "set (ids (sessions daemon_start)) = {}" by (simp add: daemon_start_def)
  ultimately show ?thesis using k(3) by (simp add: distinct_map)
qed

end
