(* ===== verification/Daemon_Safety.thy ===== *)
theory Daemon_Safety
  imports Daemon_Proofs "HOL-Library.Multiset"
begin

text \<open>
  What a request may reach: the session a name means, who is handed a session, the client that
  another device has displaced, and the sessions whose linger has run out.
\<close>

section \<open>Resolution\<close>

lemma dec_not_dash: "dec n \<noteq> ascii ''-''"
proof
  assume "dec n = ascii ''-''"
  then have "is_digit 0x2D" using dec_digits [of "0x2D" n] by simp
  then show False by (simp add: is_digit_def)
qed

lemma name_determines:
  "\<lbrakk>distinct (names ss); (i, s) \<in> set ss; (j, t) \<in> set ss; st_name s = Some n; st_name t = Some n\<rbrakk> \<Longrightarrow> i = j"
proof (induction ss)
  case (Cons x ss)
  obtain k u where x: "x = (k, u)" by (cases x)
  have "n \<in> set (names ss)" if "(l, v) \<in> set ss" "st_name v = Some n" for l v
    using that in_names by blast
  with Cons x show ?case by (auto split: option.splits)
qed simp

lemma find_name:
  assumes "distinct (names ss)"
  shows "map_option fst (find (\<lambda>(_, s). st_name s = Some n) ss) = Some i
    \<longleftrightarrow> (\<exists>s. (i, s) \<in> set ss \<and> st_name s = Some n)"
proof
  assume "map_option fst (find (\<lambda>(_, s). st_name s = Some n) ss) = Some i"
  then show "\<exists>s. (i, s) \<in> set ss \<and> st_name s = Some n"
    by (auto simp: find_Some_iff) (metis nth_mem)
next
  assume "\<exists>s. (i, s) \<in> set ss \<and> st_name s = Some n"
  then obtain s where s: "(i, s) \<in> set ss" "st_name s = Some n" by blast
  then obtain j t where f: "find (\<lambda>(_, s). st_name s = Some n) ss = Some (j, t)"
    by (cases "find (\<lambda>(_, s). st_name s = Some n) ss") (auto simp: find_None_iff)
  then have "(j, t) \<in> set ss" "st_name t = Some n"
    by (auto simp: find_Some_iff) (metis nth_mem)
  with f s name_determines [OF assms] show "map_option fst (find (\<lambda>(_, s). st_name s = Some n) ss) = Some i"
    by auto
qed

lemma resolve_by_find:
  "resolve_session ss target la =
     (if target = ascii ''-'' then
        (case la of Some i \<Rightarrow> if has_session i ss then Some i else None | None \<Rightarrow> None)
      else
        (case map_option fst (find (\<lambda>(_, s). st_name s = Some target) ss) of
           Some i \<Rightarrow> Some i
         | None \<Rightarrow>
             (case parse_unsigned (2 ^ 32) target of
                Some n \<Rightarrow> (if has_session (word_of_nat n) ss then Some (word_of_nat n) else None)
              | None \<Rightarrow> None)))"
  unfolding resolve_session_def by (simp split: option.split)

lemma option_eqI: "(\<And>x. a = Some x \<longleftrightarrow> b = Some x) \<Longrightarrow> a = b"
  by (cases a; cases b) auto

lemma resolve_perm:
  assumes "mset ss = mset ts" and "distinct (names ss)" and "distinct (names ts)"
  shows "resolve_session ss target la = resolve_session ts target la"
proof -
  have set: "set ss = set ts" using assms(1) by (metis set_mset_mset)
  have "map_option fst (find (\<lambda>(_, s). st_name s = Some target) ss)
      = map_option fst (find (\<lambda>(_, s). st_name s = Some target) ts)"
    by (rule option_eqI) (simp only: find_name [OF assms(2)] find_name [OF assms(3)] set)
  then show ?thesis by (simp only: resolve_by_find has_session_def set)
qed

lemma resolve_name:
  assumes "table_ok ss" and "(i, s) \<in> set ss" and "st_name s = Some n"
  shows "resolve_session ss n la = Some i"
proof -
  have "n \<in> set (names ss)" using assms in_names by blast
  then have "n \<noteq> ascii ''-''" using assms(1) by (auto simp: table_ok_def list_all_iff valid_name_def)
  moreover have "map_option fst (find (\<lambda>(_, s). st_name s = Some n) ss) = Some i"
    using find_name [of ss n i] assms by (auto simp: table_ok_def)
  ultimately show ?thesis by (simp only: resolve_by_find if_False option.case)
qed

lemma resolve_id:
  assumes "table_ok ss" and "(i, s) \<in> set ss"
  shows "resolve_session ss (dec (unat i)) la = Some i"
proof -
  have p: "parse_unsigned (2 ^ 32) (dec (unat i)) = Some (unat i)"
    by (rule parse_unsigned_dec) (use unsigned_less [of i] in simp)
  have "find (\<lambda>(_, s). st_name s = Some (dec (unat i))) ss = None"
  proof -
    have "dec (unat i) \<notin> set (names ss)"
      using assms(1) p by (auto simp: table_ok_def list_all_iff valid_name_def)
    then show ?thesis by (auto simp: find_None_iff in_names)
  qed
  moreover have "has_session i ss" using assms(2) by (force simp: has_session_def)
  ultimately show ?thesis
    using p dec_not_dash [of "unat i"]
    by (simp only: resolve_by_find if_False option.case option.map of_nat_unat ucast_id if_True)
qed

text \<open>
  A session name means one session: in every reachable table, whatever order the hash map
  iterates it in, a name resolves to the same session, the decimal identifier of a session resolves
  to it (no name can shadow it), and so does its own name.
\<close>

theorem resolution_unambiguous:
  assumes "mset ss = mset (sessions (fst (daemon_run daemon_start evs)))"
  shows "resolve_session ss target la = resolve_session (sessions (fst (daemon_run daemon_start evs))) target la
    \<and> list_all (\<lambda>(i, s). resolve_session ss (dec (unat i)) la = Some i
        \<and> (case st_name s of Some n \<Rightarrow> resolve_session ss n la = Some i | None \<Rightarrow> True)) ss"
proof -
  let ?ts = "sessions (fst (daemon_run daemon_start evs))"
  have ok: "table_ok ?ts" by (rule table_ok_run) (simp add: daemon_start_def table_ok_def)
  have "mset (ids ss) = mset (ids ?ts)" "mset (names ss) = mset (names ?ts)"
    using assms by (simp_all add: ids_def names_map_filter mset_filter)
  then have "table_ok ss"
    using ok unfolding table_ok_def list_all_iff by (metis mset_eq_imp_distinct_iff set_mset_mset)
  have perm: "resolve_session ss target la = resolve_session ?ts target la"
    using resolve_perm [OF assms] ok \<open>table_ok ss\<close> by (simp add: table_ok_def)
  show ?thesis
    unfolding perm [symmetric] list_all_iff
    using resolve_id [OF \<open>table_ok ss\<close>] resolve_name [OF \<open>table_ok ss\<close>] by (auto split: option.split)
qed

section \<open>Handing a session over\<close>

definition owner_of :: "SessionState \<Rightarrow> u64" where
  "owner_of s = (case st_meta s of Some m \<Rightarrow> sm_owner m | None \<Rightarrow> 0)"

definition is_attached :: "SessionState \<Rightarrow> bool" where
  "is_attached s = (case st_meta s of Some m \<Rightarrow> sm_attached m | None \<Rightarrow> False)"

fun handed :: "DaemonOut list \<Rightarrow> u32 list" where
  "handed [] = []"
| "handed (HandActive i h # outs) = i # handed outs"
| "handed (_ # outs) = handed outs"

lemma handed_append [simp]: "handed (xs @ ys) = handed xs @ handed ys"
  by (induction xs rule: handed.induct) simp_all

lemma handed_maps [simp]: "handed (map (\<lambda>(i, _). HandShutdown i) ss) = []"
  by (induction ss) auto

lemma handed_aborts [simp]: "handed (map Abort xs) = []" "handed (map (Abort \<circ> f) ys) = []"
  by (induction xs, simp_all) (induction ys, simp_all)

lemma handed_quiet [simp]:
  "handed (snd (abort_session i ss)) = []" "handed (snd (reap_lingering now ts)) = []"
  by (simp_all add: abort_session_def reap_lingering_def Let_def)

text \<open>
  Who gets a session: a client is handed a session exactly when its name resolves to a live
  one, the request is no probe, a reconnecting client (non-zero token) comes from the device that
  owns the session, nobody is attached or the request forces the takeover, the session has
  published its metadata, and the acknowledgement reached the client.
\<close>

theorem attach_hands_off_iff:
  "handed (fst (snd (attach e d caps device session client force no_replay cols rows token offset dirty))) = [i]
     \<longleftrightarrow> resolve_session (reap_sessions (sessions d)) session (last_attached d) = Some i
        \<and> (case session_of (reap_sessions (sessions d)) i of
             None \<Rightarrow> False
           | Some s \<Rightarrow>
               \<not> st_closed s \<and> \<not> no_replay \<and> (token = 0 \<or> device = owner_of s)
               \<and> \<not> (is_attached s \<and> \<not> force) \<and> st_meta (await_meta e s) \<noteq> None)
        \<and> de_sent1 e"
  by (auto simp: attach_def attach_hand_off_def Let_def refuse_def owner_of_def is_attached_def
      split: option.splits)

section \<open>The displaced client\<close>

text \<open>Every entry under the identifier belongs to the device, and has published its metadata.\<close>

definition owned :: "u32 \<Rightarrow> u64 \<Rightarrow> Sessions \<Rightarrow> bool" where
  "owned i dev ss \<longleftrightarrow> list_all (\<lambda>(j, s). j \<noteq> i \<or> st_meta s \<noteq> None \<and> owner_of s = dev) ss"

lemma owned_filter: "owned i dev ss \<Longrightarrow> owned i dev (filter P ss)"
  by (auto simp: owned_def list_all_iff)

lemma owned_subset:
  "owned i dev ss \<Longrightarrow> owned i dev (reap_sessions ss)" "owned i dev ss \<Longrightarrow> owned i dev (remove_session j ss)"
  "owned i dev ss \<Longrightarrow> owned i dev (fst (reap_lingering now ss))"
  by (simp_all add: reap_sessions_def remove_session_def reap_lingering_def fold_remove Let_def owned_filter)

lemma owned_update:
  assumes "owned i dev ss"
    and "\<And>s. \<lbrakk>st_meta s \<noteq> None; owner_of s = dev\<rbrakk> \<Longrightarrow> st_meta (f s) \<noteq> None \<and> owner_of (f s) = dev"
  shows "owned i dev (update_session j f ss)"
  using assms by (auto simp: owned_def update_session_def list_all_iff split: prod.splits if_splits)

lemma owned_update_other: "owned i dev ss \<Longrightarrow> j \<noteq> i \<Longrightarrow> owned i dev (update_session j f ss)"
  by (auto simp: owned_def update_session_def list_all_iff)

lemma owned_insert_other: "owned i dev ss \<Longrightarrow> j \<noteq> i \<Longrightarrow> owned i dev (insert_session j s ss)"
  by (simp add: owned_def insert_session_def remove_session_def list_all_iff)

lemma owned_insert_remove: "owned i dev ss \<Longrightarrow> owned i dev (remove_session j (insert_session j s ss))"
  by (auto simp: owned_def insert_session_def remove_session_def list_all_iff)

lemma owner_simps [simp]:
  "st_meta s \<noteq> None \<Longrightarrow> owner_of (publish m s) = owner_of s"
  "st_meta s \<noteq> None \<Longrightarrow> owner_of (await_meta e s) = owner_of s"
  "owner_of (s\<lparr>st_name := n\<rparr>) = owner_of s" "owner_of (s\<lparr>st_closed := c\<rparr>) = owner_of s"
  "owner_of (s\<lparr>st_finished := f\<rparr>) = owner_of s"
  by (auto simp: owner_of_def publish_def await_meta_def split: option.split)

lemma st_meta_stays [simp]:
  "st_meta s = Some m \<Longrightarrow> st_meta (publish w s) = Some m" "st_meta s = Some m \<Longrightarrow> st_meta (await_meta e s) = Some m"
  by (simp_all add: publish_def await_meta_def split: option.split)

lemma owned_await: "owned i dev ss \<Longrightarrow> owned i dev (update_session j (await_meta e) ss)"
  by (rule owned_update) auto

lemma owned_hand_off:
  assumes "owned i dev (sessions d)"
    and "i \<notin> set (handed (fst (snd (attach_hand_off e d device j s session h))))"
  shows "owned i dev (sessions (fst (attach_hand_off e d device j s session h)))"
  using assms owned_await [of i dev "sessions d" j e]
  by (cases "st_meta (await_meta e s)"; cases "de_sent1 e")
    (simp_all add: attach_hand_off_def Let_def owned_update_other)

lemma owned_attach:
  assumes "owned i dev (sessions d)"
    and "i \<notin> set (handed (fst (snd (attach e d caps device session client force no_replay cols rows token offset dirty))))"
  shows "owned i dev (sessions (fst (attach e d caps device session client force no_replay cols rows token offset dirty)))"
proof (cases "resolve_session (reap_sessions (sessions d)) session (last_attached d)")
  case None
  with assms(1) show ?thesis by (simp add: attach_def Let_def owned_subset)
next
  case (Some j)
  show ?thesis
  proof (cases "session_of (reap_sessions (sessions d)) j")
    case None
    with Some assms(1) show ?thesis by (simp add: attach_def Let_def owned_subset)
  next
    case s: (Some s)
    from assms Some s show ?thesis
      by (auto simp: attach_def Let_def owned_subset intro!: owned_hand_off split: if_split_asm)
  qed
qed

lemma owned_new:
  assumes "owned i dev (sessions d)"
    and "i \<notin> set (handed (fst (snd (new_session e d caps device nm command dir cols rows client linger))))"
  shows "owned i dev (sessions (fst (new_session e d caps device nm command dir cols rows client linger)))"
proof -
  have "owned i dev (reap_sessions (sessions d))" using assms(1) by (rule owned_subset)
  with assms(2) show ?thesis
    by (cases "new_name_error nm (reap_sessions (sessions d))"; cases "de_sent1 e"; cases "de_sent2 e")
      (simp_all add: new_session_def Let_def split_beta owned_insert_remove owned_update_other owned_insert_other)
qed

lemma owned_live:
  assumes "owned i dev (sessions d)"
    and "\<And>d j. owned i dev (sessions d) \<Longrightarrow> owned i dev (sessions (fst (arm d j)))"
  shows "owned i dev (sessions (fst (with_live d session arm)))"
proof -
  have "owned i dev (fst (resolve_live_session (sessions d) session (last_attached d)))"
    using assms(1) by (simp add: resolve_live_session_def Let_def owned_subset split: option.split)
  with assms(2) show ?thesis by (auto simp: with_live_def split: prod.split sum.split)
qed

lemma owned_nil: "owned i dev []"
  by (simp add: owned_def)

lemma owned_linger: "owned i dev ss \<Longrightarrow>
    owned i dev (update_session j (\<lambda>s. s\<lparr>st_meta := map_option (\<lambda>m. m\<lparr>sm_linger := l\<rparr>) (st_meta s)\<rparr>) ss)"
  by (rule owned_update) (auto simp: owner_of_def)

lemma owned_dispatch:
  assumes "owned i dev (sessions d)"
    and "i \<notin> set (handed (fst (snd (dispatch_control e d caps device f))))"
  shows "owned i dev (sessions (fst (dispatch_control e d caps device f)))"
proof (cases f)
  case (NewSession nm command dir cols rows client linger)
  with assms show ?thesis by (simp add: dispatch_control_def owned_new)
next
  case (Attach session client force no_replay cols rows token offset dirty)
  with assms show ?thesis by (simp add: dispatch_control_def owned_attach)
next
  case (RenameSession session new_name)
  have "owned i dev (sessions (fst (rename_session d session new_name)))"
    unfolding rename_session_def
    by (rule owned_live [OF assms(1)]) (auto intro!: owned_update split: option.split)
  with RenameSession show ?thesis by (simp add: dispatch_control_def)
next
  case (SetLinger session linger)
  have "owned i dev (sessions (fst (set_linger d session linger)))"
    unfolding set_linger_def
    by (rule owned_live [OF assms(1)]) (auto intro!: owned_linger split: option.split)
  with SetLinger show ?thesis by (simp add: dispatch_control_def)
qed (use assms(1) in \<open>auto simp: dispatch_control_def owned_subset owned_nil shutdown_def drain_sessions_def
      tail_session_def send_file_def kill_session_def Let_def split_beta intro!: owned_live\<close>)

lemma owned_task: "owned i dev ss \<Longrightarrow> owned i dev (task_event t ss)"
  by (cases t) (auto simp: task_event_def intro!: owned_update, simp add: owner_of_def task_write_def)

lemma owned_turn:
  assumes "owned i dev (sessions d)" and "i \<notin> set (handed (fst (snd (daemon_turn e d ev))))"
  shows "owned i dev (sessions (fst (daemon_turn e d ev)))"
proof (cases ev)
  case (Task t)
  with assms show ?thesis by (simp add: daemon_turn_def owned_task)
next
  case (Request f caps check device)
  with assms show ?thesis
    by (cases check) (auto simp: daemon_turn_def handle_request_def Let_def split_beta owned_subset
        intro!: owned_dispatch split: if_split_asm)
qed (use assms(1) in \<open>auto simp: daemon_turn_def Let_def split_beta shutdown_def drain_sessions_def
      owned_subset owned_nil split: SocketCheck.split\<close>)

lemma owned_run:
  "owned i dev (sessions d) \<Longrightarrow> i \<notin> set (handed (snd (daemon_run d evs)))
    \<Longrightarrow> owned i dev (sessions (fst (daemon_run d evs)))"
proof (induction d evs rule: daemon_run.induct)
  case (2 d e ev evs)
  obtain d' outs stop where t: "daemon_turn e d ev = (d', outs, stop)" by (metis prod_cases3)
  have "i \<notin> set (handed outs)" using "2.prems"(2) t by (auto simp: split_beta split: if_splits)
  then have "owned i dev (sessions d')" using owned_turn [OF "2.prems"(1), of e ev] t by simp
  with "2.IH" [OF t [symmetric]] "2.prems"(2) t show ?case by (simp add: split_beta split: if_splits)
qed simp

lemma owned_refuses:
  assumes "owned i dev (sessions d)" and "token \<noteq> 0" and "device \<noteq> dev"
  shows "i \<notin> set (handed (fst (snd (attach e d caps device session client force no_replay cols rows token offset dirty))))"
proof -
  have o: "owned i dev (reap_sessions (sessions d))" using assms(1) by (rule owned_subset)
  have "owner_of s = dev" if "session_of (reap_sessions (sessions d)) i = Some s" for s
    using o that by (auto simp: owned_def session_of_def list_all_iff dest!: map_of_SomeD)
  with assms(2,3) show ?thesis
    by (auto simp: attach_def attach_hand_off_def Let_def owner_of_def [symmetric] split: option.splits)
qed

lemma owned_taken:
  assumes "distinct (ids ss)" and "session_of ss i = Some s" and "st_meta (await_meta e s) \<noteq> None"
  shows "owned i dev (update_session i
           (\<lambda>s. s\<lparr>st_meta := map_option (\<lambda>m. (mark_attached now m)\<lparr>sm_owner := dev\<rparr>) (st_meta s)\<rparr>)
           (update_session i (await_meta e) ss))"
proof -
  have "t = s" if "(i, t) \<in> set ss" for t
    using assms(1,2) that by (simp add: session_of_def ids_def)
  with assms(3) show ?thesis
    by (auto simp: owned_def update_session_def list_all_iff owner_of_def)
qed

lemma owned_after:
  assumes "distinct (ids (sessions d))"
    and "i \<in> set (handed (fst (snd (attach e d caps dev session client force no_replay cols rows token offset dirty))))"
  shows "owned i dev (sessions (fst (attach e d caps dev session client force no_replay cols rows token offset dirty)))"
proof -
  have "distinct (ids (reap_sessions (sessions d)))"
    using assms(1) by (simp add: reap_sessions_def ids_def distinct_map_filter)
  note taken = owned_taken [OF this]
  show ?thesis
    using assms(2) taken
    by (auto simp: attach_def attach_hand_off_def Let_def split: option.splits if_split_asm)
qed

text \<open>
  C24. Once displaced, a client stays out: after the session was handed to device B, and until it is
  handed to somebody again, whatever happens, a reconnecting client of another device never gets it
  back, with force or without.
\<close>

theorem displaced_client_stays_displaced:
  fixes before e caps B session client force no_replay cols rows token offset dirty
  defines "d \<equiv> fst (daemon_run daemon_start before)"
  defines "d' \<equiv> fst (attach e d caps B session client force no_replay cols rows token offset dirty)"
  assumes "i \<in> set (handed (fst (snd (attach e d caps B session client force no_replay cols rows token offset dirty))))"
    and "i \<notin> set (handed (snd (daemon_run d' after)))"
    and "token' \<noteq> 0" and "A \<noteq> B"
  shows "i \<notin> set (handed (fst (snd (attach e' (fst (daemon_run d' after)) caps' A session' client' force'
           no_replay' cols' rows' token' offset' dirty'))))"
proof -
  have "table_ok (sessions d)" unfolding d_def by (rule table_ok_run) (simp add: daemon_start_def table_ok_def)
  then have "distinct (ids (sessions d))" by (simp add: table_ok_def)
  then have "owned i B (sessions d')" unfolding d'_def using assms(3) by (rule owned_after)
  then have "owned i B (sessions (fst (daemon_run d' after)))" using assms(4) by (rule owned_run)
  then show ?thesis using assms(5,6) by (rule owned_refuses)
qed

section \<open>Linger\<close>

text \<open>
  Linger reaps exactly the idle sessions: the pass keeps, in order, exactly the sessions that
  are attached, keep no linger, have not published their metadata, or whose last client was there
  less than the linger ago; it aborts exactly the others, each once, and a second pass at the same
  time does nothing.
\<close>

theorem linger_reaps_exactly:
  fixes evs and now :: u64
  defines "ss \<equiv> sessions (fst (daemon_run daemon_start evs))"
  defines "idle \<equiv> \<lambda>(_, s). case st_meta s of None \<Rightarrow> False
      | Some m \<Rightarrow> \<not> sm_attached m \<and> sm_linger m \<noteq> 0
          \<and> unat (sm_heartbeat m) + unat (sm_linger m) \<le> unat now
          \<and> unat (sm_created m) + unat (sm_linger m) \<le> unat now"
  shows "reap_lingering now ss = (filter (Not \<circ> idle) ss, map (Abort \<circ> fst) (filter idle ss))
    \<and> distinct (map fst (filter idle ss))
    \<and> reap_lingering now (filter (Not \<circ> idle) ss) = (filter (Not \<circ> idle) ss, [])"
proof -
  have ok: "distinct (ids ss)"
    using table_ok_run [of daemon_start evs] by (simp add: ss_def daemon_start_def table_ok_def)
  have pos: "0 < unat l" if "l \<noteq> 0" for l :: u64 using that by (simp add: unat_gt_0)
  have idle: "(\<lambda>(_, s). linger_expired now s) = idle"
    by (auto simp: fun_eq_iff idle_def linger_expired_def linger_baseline_def max_def word_le_nat_alt
        dest: pos split: option.split)
  have filt: "(\<lambda>(_, s). \<not> linger_expired now s) = Not \<circ> idle"
    by (auto simp: fun_eq_iff idle [symmetric])
  have "fst (reap_lingering now ts) = filter (Not \<circ> idle) ts" if "distinct (ids ts)" for ts
    using reap_lingering_filter [OF that, of now] by (simp add: filt)
  moreover have "snd (reap_lingering now ts) = map (Abort \<circ> fst) (filter idle ts)" for ts
    by (simp add: reap_lingering_def Let_def idle)
  moreover have "distinct (ids (filter (Not \<circ> idle) ss))" using ok by (simp add: ids_def distinct_map_filter)
  moreover have "distinct (map fst (filter idle ss))" using ok by (simp add: ids_def distinct_map_filter)
  ultimately show ?thesis using ok
    by (simp add: prod_eq_iff comp_def)
qed

end
