(* ===== verification/Daemon_Witnesses.thy ===== *)
theory Daemon_Witnesses
  imports Daemon_Safety
begin

text \<open>The properties of the daemon that have hypotheses, each at a concrete run.\<close>

section \<open>A concrete run\<close>

definition meta0 :: SessionMeta where
  "meta0 = \<lparr>sm_pty = ascii ''/dev/pts/3'', sm_shell_pid = 77, sm_created = 100, sm_attached = False,
     sm_heartbeat = 100, sm_activity = 100, sm_client = ascii ''lap'', sm_wants_agent = False,
     sm_owner = 0, sm_linger = 0\<rparr>"

definition env0 :: DaemonEnv where
  "env0 = \<lparr>de_now = 100, de_sent1 = True, de_sent2 = True, de_ready = Some meta0,
     de_foreground = (\<lambda>_. ([], []))\<rparr>"

text \<open>Device 7 creates a session called \<open>w\<close>; device 9 may then take it over.\<close>

definition created :: "(DaemonEnv \<times> DaemonEvent) list" where
  "created = [(env0, Request (NewSession (ascii ''w'') [] [] 80 24 (ascii ''lap'') 0) 1 Matched 7)]"

lemma created_run:
  "daemon_run daemon_start created =
     (\<lparr>sessions = [(0, \<lparr>st_finished = False, st_closed = False,
         st_meta = Some (meta0\<lparr>sm_owner := 7, sm_attached := True\<rparr>), st_name = Some (ascii ''w''),
         st_initial_device = 7, st_initial_linger = 0\<rparr>)], next_id = 1, last_attached = Some 0\<rparr>,
      [Spawn 0 (Some (ascii ''w'')) None None 80 24, Reply (SessionCreated 0), Reply (AttachAck 7 0),
       HandActive 0 \<lparr>ho_client = ascii ''lap'', ho_caps = 1, ho_cols = 0, ho_rows = 0,
         ho_offset = 0, ho_dirty = False, ho_fresh = True\<rparr>])"
  by (simp add: created_def daemon_start_def env0_def daemon_turn_def handle_request_def dispatch_control_def
      new_session_def new_name_error_def validate_session_name_def parse_unsigned_def is_digit_def
      is_ascii_control_def reap_lingering_def reap_sessions_def insert_session_def remove_session_def
      update_session_def mark_attached_when_ready_def await_meta_def publish_def published_def
      mark_attached_def meta0_def nonempty_def Let_def)

theorem session_ids_never_reused_witness:
  "length created < 2 ^ 32 \<and> distinct (spawned (snd (daemon_run daemon_start created)))
    \<and> spawned (snd (daemon_run daemon_start created)) = [0]"
  using session_ids_never_reused [of created] by (simp add: created_run) (simp add: created_def)

theorem resolution_unambiguous_witness:
  "resolve_session (sessions (fst (daemon_run daemon_start created))) (ascii ''0'') None = Some 0
    \<and> resolve_session (sessions (fst (daemon_run daemon_start created))) (ascii ''w'') None = Some 0"
proof -
  have "dec (unat (0 :: u32)) = ascii ''0''" by (simp add: dec.simps digit_def)
  then show ?thesis
    using resolution_unambiguous [of _ created _ None, OF refl] by (simp add: created_run)
qed

definition taken :: Result where
  "taken = attach env0 (fst (daemon_run daemon_start created)) 1 9 (ascii ''w'') (ascii ''desk'') True False
     80 24 0 0 False"

lemma taken_handed: "handed (fst (snd taken)) = [0]"
  by (simp add: taken_def created_run env0_def attach_def attach_hand_off_def resolve_session_def
      reap_sessions_def session_of_def await_meta_def publish_def refuse_def Let_def)

theorem displaced_client_stays_displaced_witness:
  "handed (fst (snd taken)) = [0]
    \<and> 0 \<notin> set (handed (fst (snd (attach env0 (fst (daemon_run (fst taken) [])) 1 7 (ascii ''w'')
        (ascii ''lap'') True False 80 24 55 0 False))))"
proof -
  have "0 \<in> set (handed (fst (snd taken)))" by (simp add: taken_handed)
  then show ?thesis
    using displaced_client_stays_displaced [of 0 env0 created 1 9 "ascii ''w''" "ascii ''desk''" True False
        80 24 0 0 False "[]" 55 7 env0 1 "ascii ''w''" "ascii ''lap''" True False 80 24 0 False]
    by (simp del: ascii_simps add: taken_handed taken_def [symmetric])
qed

end
