(* ===== verification/Client_Input.thy ===== *)
theory Client_Input
  imports Term_Modes Strings
begin

text \<open>
  The client's keyboard and its clocks, from \<open>src/src/client.rs\<close>: the escape processor, the rate
  limiters for what a server may ask of the client, the staleness of the link and the idleness of
  the user.  Times and durations are nanoseconds as natural numbers: \<open>SystemTime\<close> may go back, an
  \<open>Instant\<close> does not, and the differences are saturating, as subtraction on \<open>nat\<close> is.
\<close>

section \<open>The escape processor\<close>

datatype EscapeState = Normal | AfterNewline | AfterTilde

datatype EscapeAction =
    Keys "byte list"
  | Detach
  | Reconnect
  | Pin
  | Suspend
  | Status
  | Help

definition flush_pending :: "byte list \<Rightarrow> EscapeAction list" where
  "flush_pending buf = (if buf = [] then [] else [Keys buf])"

definition is_newline :: "byte \<Rightarrow> bool" where
  "is_newline b \<longleftrightarrow> b = 0x0A \<or> b = 0x0D"

text \<open>
  One byte of \<open>process\<close>: the next state, the buffered bytes, the actions pushed, and whether
  processing stops.
\<close>

definition escape_step ::
  "EscapeState \<Rightarrow> byte list \<Rightarrow> byte \<Rightarrow> EscapeState \<times> byte list \<times> EscapeAction list \<times> bool" where
  "escape_step st buf b =
     (case st of
        Normal \<Rightarrow> (if is_newline b then AfterNewline else Normal, buf @ [b], [], False)
      | AfterNewline \<Rightarrow>
          (if b = 0x7E then (AfterTilde, [], flush_pending buf, False)
           else if is_newline b then (AfterNewline, buf @ [b], [], False)
           else (Normal, buf @ [b], [], False))
      | AfterTilde \<Rightarrow>
          (if b = 0x2E then (AfterTilde, [], flush_pending buf @ [Detach], True)
           else if b = 0x52 then (Normal, [], flush_pending buf @ [Reconnect], True)
           else if b = 0x4B then (Normal, [], flush_pending buf @ [Pin], False)
           else if b = 0x1A then (Normal, [], flush_pending buf @ [Suspend], False)
           else if b = 0x23 then (Normal, [], flush_pending buf @ [Status], False)
           else if b = 0x3F then (Normal, [], flush_pending buf @ [Help], False)
           else if b = 0x7E then (Normal, buf @ [0x7E], [], False)
           else if is_newline b then (AfterNewline, buf @ [0x7E, b], [], False)
           else (Normal, buf @ [0x7E, b], [], False)))"

fun process_bytes :: "EscapeState \<Rightarrow> byte list \<Rightarrow> byte list \<Rightarrow> EscapeState \<times> EscapeAction list" where
  "process_bytes st buf [] = (st, flush_pending buf)"
| "process_bytes st buf (b # bs) =
     (case escape_step st buf b of
        (st', buf', acts, stop) \<Rightarrow>
          (if stop then (st', acts)
           else (let (st'', acts') = process_bytes st' buf' bs in (st'', acts @ acts'))))"

text \<open>\<open>EscapeProcessor::process\<close>, on the bytes of one read.\<close>

definition process :: "EscapeState \<Rightarrow> byte list \<Rightarrow> EscapeState \<times> EscapeAction list" where
  "process st input = process_bytes st [] input"

definition escape_new :: EscapeState where
  "escape_new = AfterNewline"

section \<open>Rate limits\<close>

record RateLimiter =
  timestamps :: "nat list"
  max_count :: nat
  window :: nat

definition limiter_new :: "nat \<Rightarrow> nat \<Rightarrow> RateLimiter" where
  "limiter_new n w = \<lparr>timestamps = [], max_count = n, window = w\<rparr>"

definition limiter_check :: "nat \<Rightarrow> RateLimiter \<Rightarrow> RateLimiter \<times> bool" where
  "limiter_check now r =
     (let ts = dropWhile (\<lambda>t. window r < now - t) (timestamps r) in
      if max_count r \<le> length ts then (r\<lparr>timestamps := ts\<rparr>, False)
      else (r\<lparr>timestamps := ts @ [now]\<rparr>, True))"

record SecurityLimiters =
  url_limiter :: RateLimiter
  clipboard_set_limiter :: RateLimiter
  tunnel_listen_limiter :: RateLimiter
  agent_open_limiter :: RateLimiter

abbreviation (input) SECOND :: nat where "SECOND \<equiv> 1000000000"

definition limiters_new :: SecurityLimiters where
  "limiters_new =
     \<lparr>url_limiter = limiter_new 2 (30 * SECOND), clipboard_set_limiter = limiter_new 5 (30 * SECOND),
      tunnel_listen_limiter = limiter_new 2 (30 * SECOND), agent_open_limiter = limiter_new 10 (30 * SECOND)\<rparr>"

section \<open>Silence\<close>

definition wall_elapsed :: "nat \<Rightarrow> nat \<Rightarrow> nat" where
  "wall_elapsed since now = now - since"

definition link_is_stale :: "nat \<Rightarrow> nat \<Rightarrow> nat \<Rightarrow> bool" where
  "link_is_stale last_activity hb_timeout now \<longleftrightarrow> hb_timeout < wall_elapsed last_activity now"

definition is_agent_idle :: "nat \<Rightarrow> nat option \<Rightarrow> nat \<Rightarrow> bool" where
  "is_agent_idle last_input_at idle_timeout now \<longleftrightarrow>
     (case idle_timeout of None \<Rightarrow> False | Some timeout \<Rightarrow> timeout < wall_elapsed last_input_at now)"

section \<open>Handing the terminal back\<close>

definition leave_alt_screen :: rstring where
  "leave_alt_screen = [0x1B] @ ascii ''[?1049l''"

definition terminal_handback_sequence :: "bool \<Rightarrow> rstring" where
  "terminal_handback_sequence alt_live =
     (if alt_live then leave_alt_screen else []) @ [0x1B] @ ascii ''[0m'' @ default_mode_sequence"

text \<open>\<open>AltScreenState::leave_prefix\<close>; the shared flag always equals the tracker's state.\<close>

definition leave_prefix :: "AltScreenTracker \<Rightarrow> AltScreenTracker \<times> rstring" where
  "leave_prefix a =
     (if in_alternate_screen a then (note_left a, leave_alt_screen) else (a, []))"

section \<open>Forward sockets\<close>

definition forward_socket_name :: "rstring \<Rightarrow> u32 \<Rightarrow> rstring" where
  "forward_socket_name host i = ascii ''fwd-'' @ host @ ascii ''-'' @ dec (unat i) @ ascii ''.sock''"

definition parse_forward_socket_name :: "rstring \<Rightarrow> (rstring \<times> u32) option" where
  "parse_forward_socket_name file =
     (case strip_prefix (ascii ''fwd-'') file of
        None \<Rightarrow> None
      | Some rest \<Rightarrow>
          (case strip_suffix (ascii ''.sock'') rest of
             None \<Rightarrow> None
           | Some stem \<Rightarrow>
               (case rsplit_once 0x2D stem of
                  None \<Rightarrow> None
                | Some (host, i) \<Rightarrow>
                    (case parse_unsigned (2 ^ 32) i of
                       None \<Rightarrow> None
                     | Some n \<Rightarrow> Some (host, word_of_nat n)))))"

end
