(* ===== verification/Client_Relay.thy ===== *)
theory Client_Relay
  imports Client_Input Protocol
begin

text \<open>
  The attached client: \<open>ClientRelay\<close> and the function \<open>relay\<close> of \<open>src/src/client.rs\<close>.  A sending
  half of a channel to a relay task and a stream of a \<open>gritty lf\<close> or \<open>rf\<close> process are numbers.
  The answers of the operating system are the environment \<open>ClientEnv\<close> of one event; the effects
  are a list of \<open>ClientOut\<close>.
\<close>

section \<open>State\<close>

record ClientPortForwardState =
  listener_handle :: bool
  keepalive_handle :: bool
  target_port :: u16

record ClientPortForwardTable =
  cpf_forwards :: "u32 \<rightharpoonup> ClientPortForwardState"
  cpf_channels :: "u32 \<rightharpoonup> u32 \<times> nat"
  pending_lf :: "u32 \<rightharpoonup> nat"

record ClientTunnelState =
  tun_listener :: bool
  tun_channels :: "u32 \<rightharpoonup> nat"

record ClientConfig =
  agent_socket :: bool
  agent_idle_timeout :: "nat option"
  oauth_redirect :: bool
  forward_open :: bool
  hb_interval :: nat
  hb_timeout :: nat

record ClientRelay =
  escape :: "EscapeState option"
  alt_screen :: AltScreenTracker
  agent_chans :: "u32 \<rightharpoonup> nat"
  ctunnel :: ClientTunnelState
  cpf :: ClientPortForwardTable
  client_initiated_forwards :: "u32 \<rightharpoonup> u16"
  last_input_at :: nat
  last_activity :: nat
  last_outbound_at :: nat
  last_ping_sent :: nat
  last_rtt :: "nat option"
  bytes_relayed :: u64
  rendered_offset :: u64
  limiters :: SecurityLimiters

text \<open>
  One event's environment: both clocks, whether sends and writes to the terminal succeed, which
  channels are full, what connects and binds, the identifiers handed out by the shared counter
  and to new channels, the terminal's size, the text of a bind error, the clock after a suspend.
\<close>

record ClientEnv =
  wall :: nat
  mono :: nat
  link_up :: bool
  stdout_ok :: bool
  chan_full :: "nat \<Rightarrow> bool"
  agent_connects :: bool
  tcp_connects :: "u16 \<Rightarrow> bool"
  tcp_binds :: "u16 \<Rightarrow> bool"
  counter :: u32
  fresh_chan :: nat
  term_size :: "u16 \<times> u16"
  bind_error :: rstring
  suspends :: bool
  wall_resumed :: nat

text \<open>What the client paints itself, with the styling of \<open>ui.rs\<close> left out.\<close>

datatype Chrome =
    StatusMsg rstring
  | SuccessMsg rstring
  | ErrorMsg rstring
  | ErrLine rstring
  | OfferMsg u32 u64
  | StatusReport
  | HelpText

datatype ClientOut =
    ToServer Frame
  | Stdout "byte list"
  | Paint "byte list" Chrome
  | OpenBrowser rstring
  | SetClipboard "byte list"
  | ConnectAgent u32
  | BindTunnel u16
  | AbortTunnel
  | ConnectTarget u32 u32 u16
  | BindForward u32 u16
  | AbortForward u32
  | ToChannel nat "byte list"
  | FwdReply nat "byte list"
  | WatchForward u32 nat
  | UnwatchForward u32
  | SuspendSelf

datatype ClientExit = ExitCode i32 | Disconnected | IoFailed

text \<open>A handler yields the state, its effects, and the exit of the relay, if any.\<close>

type_synonym ClientStep = "ClientRelay \<times> ClientOut list \<times> ClientExit option"

abbreviation (input) TUNNEL_DECLINE_CHANNEL :: u32 where "TUNNEL_DECLINE_CHANNEL \<equiv> 0"

section \<open>Sending and painting\<close>

definition client_timed_send :: "ClientEnv \<Rightarrow> Frame \<Rightarrow> ClientRelay \<Rightarrow> ClientRelay \<times> ClientOut list \<times> bool" where
  "client_timed_send e f s =
     (if link_up e then (s\<lparr>last_outbound_at := mono e\<rparr>, [ToServer f], True) else (s, [], False))"

definition notify :: "ClientEnv \<Rightarrow> Frame \<Rightarrow> ClientRelay \<Rightarrow> ClientStep" where
  "notify e f s = (let (s, outs, _) = client_timed_send e f s in (s, outs, None))"

text \<open>A send the relay cannot do without: the caller leaves with \<open>Disconnected\<close> when it fails.\<close>

definition send_or_leave :: "ClientEnv \<Rightarrow> Frame \<Rightarrow> ClientRelay \<Rightarrow> ClientStep" where
  "send_or_leave e f s =
     (let (s, outs, sent) = client_timed_send e f s in (s, outs, if sent then None else Some Disconnected))"

definition paint :: "ClientEnv \<Rightarrow> ClientOut \<Rightarrow> ClientExit option \<Rightarrow> ClientRelay \<Rightarrow> ClientStep" where
  "paint e out next s = (if stdout_ok e then (s, [out], next) else (s, [], Some IoFailed))"

definition tunnel_teardown :: "ClientTunnelState \<Rightarrow> ClientTunnelState \<times> ClientOut list" where
  "tunnel_teardown t =
     (t\<lparr>tun_channels := Map.empty, tun_listener := False\<rparr>, if tun_listener t then [AbortTunnel] else [])"

definition pf_teardown :: "ClientPortForwardTable \<Rightarrow> ClientPortForwardTable" where
  "pf_teardown p = p\<lparr>cpf_forwards := Map.empty, cpf_channels := Map.empty, pending_lf := Map.empty\<rparr>"

definition teardown_all :: "ClientRelay \<Rightarrow> ClientRelay \<times> ClientOut list" where
  "teardown_all s =
     (let (t, outs) = tunnel_teardown (ctunnel s)
      in (s\<lparr>agent_chans := Map.empty, ctunnel := t, cpf := pf_teardown (cpf s)\<rparr>, outs))"

text \<open>The last words of an arm that ends the client: leave the alternate screen, then the message.\<close>

definition farewell :: "ClientEnv \<Rightarrow> Chrome \<Rightarrow> i32 \<Rightarrow> ClientRelay \<Rightarrow> ClientStep" where
  "farewell e msg code s =
     (let (a, prefix) = leave_prefix (alt_screen s)
      in paint e (Paint prefix msg) (Some (ExitCode code)) (s\<lparr>alt_screen := a\<rparr>))"

definition dismissed :: "ClientEnv \<Rightarrow> Chrome \<Rightarrow> i32 \<Rightarrow> ClientRelay \<Rightarrow> ClientStep" where
  "dismissed e msg code s =
     (let (s, outs) = teardown_all s; (s, outs', exit) = farewell e msg code s in (s, outs @ outs', exit))"

section \<open>The server's frames\<close>

definition got_data :: "ClientEnv \<Rightarrow> byte list \<Rightarrow> ClientRelay \<Rightarrow> ClientStep" where
  "got_data e d s =
     paint e (Stdout d) None
       (s\<lparr>bytes_relayed := bytes_relayed s + word_of_nat (length d),
          rendered_offset := rendered_offset s + word_of_nat (length d),
          alt_screen := alt_scan (alt_screen s) d\<rparr>)"

definition got_notice :: "ClientEnv \<Rightarrow> byte list \<Rightarrow> ClientRelay \<Rightarrow> ClientStep" where
  "got_notice e d s = paint e (Stdout d) None (s\<lparr>alt_screen := alt_scan (alt_screen s) d\<rparr>)"

definition got_agent_open :: "ClientConfig \<Rightarrow> ClientEnv \<Rightarrow> u32 \<Rightarrow> ClientRelay \<Rightarrow> ClientStep" where
  "got_agent_open cfg e c s =
     (if is_agent_idle (last_input_at s) (agent_idle_timeout cfg) (wall e) \<or> \<not> agent_socket cfg
      then notify e (AgentClose c) s
      else
        (let (r, ok) = limiter_check (mono e) (agent_open_limiter (limiters s));
             s = s\<lparr>limiters := (limiters s)\<lparr>agent_open_limiter := r\<rparr>\<rparr>
         in if \<not> ok then notify e (AgentClose c) s
            else if agent_connects e then
              (s\<lparr>agent_chans := (agent_chans s)(c \<mapsto> fresh_chan e)\<rparr>, [ConnectAgent c], None)
            else notify e (AgentClose c) s))"

definition got_agent_data :: "ClientEnv \<Rightarrow> u32 \<Rightarrow> byte list \<Rightarrow> ClientRelay \<Rightarrow> ClientStep" where
  "got_agent_data e c d s =
     (case agent_chans s c of
        None \<Rightarrow> (s, [], None)
      | Some w \<Rightarrow>
          (if chan_full e w then notify e (AgentClose c) (s\<lparr>agent_chans := (agent_chans s)(c := None)\<rparr>)
           else (s, [ToChannel w d], None)))"

definition got_open_url :: "ClientConfig \<Rightarrow> ClientEnv \<Rightarrow> rstring \<Rightarrow> ClientRelay \<Rightarrow> ClientStep" where
  "got_open_url cfg e url s =
     (if \<not> forward_open cfg then (s, [], None)
      else
        (let (r, ok) = limiter_check (mono e) (url_limiter (limiters s));
             s = s\<lparr>limiters := (limiters s)\<lparr>url_limiter := r\<rparr>\<rparr>
         in if \<not> ok then (s, [], None)
            else if starts_with url (ascii ''http://'') \<or> starts_with url (ascii ''https://'')
            then (s, [OpenBrowser url], None)
            else (s, [], None)))"

definition got_clipboard_set :: "ClientEnv \<Rightarrow> byte list \<Rightarrow> ClientRelay \<Rightarrow> ClientStep" where
  "got_clipboard_set e d s =
     (let (r, ok) = limiter_check (mono e) (clipboard_set_limiter (limiters s))
      in (s\<lparr>limiters := (limiters s)\<lparr>clipboard_set_limiter := r\<rparr>\<rparr>, if ok then [SetClipboard d] else [], None))"

definition got_tunnel_listen :: "ClientConfig \<Rightarrow> ClientEnv \<Rightarrow> u16 \<Rightarrow> ClientRelay \<Rightarrow> ClientStep" where
  "got_tunnel_listen cfg e port s =
     (if \<not> oauth_redirect cfg then notify e (TunnelClose TUNNEL_DECLINE_CHANNEL) s
      else
        (let (r, ok) = limiter_check (mono e) (tunnel_listen_limiter (limiters s));
             s = s\<lparr>limiters := (limiters s)\<lparr>tunnel_listen_limiter := r\<rparr>\<rparr>
         in if \<not> ok then notify e (TunnelClose TUNNEL_DECLINE_CHANNEL) s
            else
              (let old = (if tun_listener (ctunnel s) then [AbortTunnel] else []) in
               if tcp_binds e port then
                 (s\<lparr>ctunnel := (ctunnel s)\<lparr>tun_listener := True\<rparr>\<rparr>, old @ [BindTunnel port], None)
               else
                 (let (s, outs, exit) =
                    notify e (TunnelClose TUNNEL_DECLINE_CHANNEL) (s\<lparr>ctunnel := (ctunnel s)\<lparr>tun_listener := False\<rparr>\<rparr>)
                  in (s, old @ outs, exit)))))"

definition got_tunnel_data :: "ClientEnv \<Rightarrow> u32 \<Rightarrow> byte list \<Rightarrow> ClientRelay \<Rightarrow> ClientStep" where
  "got_tunnel_data e c d s =
     (case tun_channels (ctunnel s) c of
        None \<Rightarrow> (s, [], None)
      | Some w \<Rightarrow>
          (if chan_full e w then
             notify e (TunnelClose c)
               (s\<lparr>ctunnel := (ctunnel s)\<lparr>tun_channels := (tun_channels (ctunnel s))(c := None)\<rparr>\<rparr>)
           else (s, [ToChannel w d], None)))"

text \<open>
  A connection for a forward: only to the port the user asked for, whatever port the server names.
\<close>

definition got_pf_open :: "ClientEnv \<Rightarrow> u32 \<Rightarrow> u32 \<Rightarrow> u16 \<Rightarrow> ClientRelay \<Rightarrow> ClientStep" where
  "got_pf_open e fid c target s =
     (case client_initiated_forwards s fid of
        None \<Rightarrow> notify e (PortForwardClose c) s
      | Some expected \<Rightarrow>
          (if tcp_connects e expected then
             (s\<lparr>cpf := (cpf s)\<lparr>cpf_channels := (cpf_channels (cpf s))(c \<mapsto> (fid, fresh_chan e))\<rparr>\<rparr>,
              [ConnectTarget fid c expected], None)
           else notify e (PortForwardClose c) s))"

definition got_pf_data :: "ClientEnv \<Rightarrow> u32 \<Rightarrow> byte list \<Rightarrow> ClientRelay \<Rightarrow> ClientStep" where
  "got_pf_data e c d s =
     (case cpf_channels (cpf s) c of
        None \<Rightarrow> (s, [], None)
      | Some (fid, w) \<Rightarrow>
          (if chan_full e w then
             notify e (PortForwardClose c)
               (s\<lparr>cpf := (cpf s)\<lparr>cpf_channels := (cpf_channels (cpf s))(c := None)\<rparr>\<rparr>)
           else (s, [ToChannel w d], None)))"

definition start_pf_keepalive :: "u32 \<Rightarrow> nat \<Rightarrow> u16 \<Rightarrow> ClientPortForwardTable \<Rightarrow> ClientPortForwardTable" where
  "start_pf_keepalive fid svc target p =
     (let fwd = (case cpf_forwards p fid of
            Some fwd \<Rightarrow> fwd
          | None \<Rightarrow> \<lparr>listener_handle = False, keepalive_handle = False, target_port = target\<rparr>)
      in p\<lparr>cpf_forwards := (cpf_forwards p)(fid \<mapsto> fwd\<lparr>keepalive_handle := True\<rparr>)\<rparr>)"

definition got_pf_ready :: "u32 \<Rightarrow> ClientRelay \<Rightarrow> ClientStep" where
  "got_pf_ready fid s =
     (case pending_lf (cpf s) fid of
        None \<Rightarrow> (s, [], None)
      | Some svc \<Rightarrow>
          (let target = (case client_initiated_forwards s fid of Some p \<Rightarrow> p | None \<Rightarrow> 0)
           in (s\<lparr>cpf := start_pf_keepalive fid svc target
                  ((cpf s)\<lparr>pending_lf := (pending_lf (cpf s))(fid := None)\<rparr>)\<rparr>,
               [FwdReply svc [1], WatchForward fid svc], None)))"

text \<open>What a stop by either side removes: the forward, its channels, the permission to connect.\<close>

definition forget_forward :: "u32 \<Rightarrow> ClientRelay \<Rightarrow> ClientRelay \<times> ClientOut list" where
  "forget_forward fid s =
     (s\<lparr>cpf := (cpf s)\<lparr>cpf_forwards := (cpf_forwards (cpf s))(fid := None),
          cpf_channels := (\<lambda>c. case cpf_channels (cpf s) c of
             Some (i, w) \<Rightarrow> (if i = fid then None else Some (i, w)) | None \<Rightarrow> None)\<rparr>,
        client_initiated_forwards := (client_initiated_forwards s)(fid := None)\<rparr>,
      case cpf_forwards (cpf s) fid of
        Some fwd \<Rightarrow> if listener_handle fwd then [AbortForward fid] else []
      | None \<Rightarrow> [])"

definition FWD_ERR_SERVER_BIND :: rstring where
  "FWD_ERR_SERVER_BIND = ascii ''server bind failed''"

definition FWD_ERR_BIND_PREFIX :: rstring where
  "FWD_ERR_BIND_PREFIX = ascii ''bind failed: ''"

definition got_pf_stop :: "u32 \<Rightarrow> ClientRelay \<Rightarrow> ClientStep" where
  "got_pf_stop fid s =
     (let replies = (case pending_lf (cpf s) fid of
            Some svc \<Rightarrow> [FwdReply svc [2], FwdReply svc FWD_ERR_SERVER_BIND] | None \<Rightarrow> []);
          watched = (case cpf_forwards (cpf s) fid of
            Some fwd \<Rightarrow> if keepalive_handle fwd then [UnwatchForward fid] else [] | None \<Rightarrow> []);
          (s', outs) = forget_forward fid (s\<lparr>cpf := (cpf s)\<lparr>pending_lf := (pending_lf (cpf s))(fid := None)\<rparr>\<rparr>)
      in (s', replies @ outs @ watched, None))"

definition diag_output :: "rstring \<Rightarrow> rstring" where
  "diag_output text =
     [0x0D, 0x0A, 0x1B] @ ascii ''[2;33m[server diagnostics]'' @ [0x0D, 0x0A]
       @ concat (map (\<lambda>l. [0x1B] @ ascii ''[0m'' @ [0x1B] @ ascii ''[2m'' @ l @ [0x0D, 0x0A]) (lines text))
       @ [0x1B] @ ascii ''[0m''"

datatype FromServer = Got Frame | StreamError | StreamEnd

definition handle_server_frame :: "ClientConfig \<Rightarrow> ClientEnv \<Rightarrow> FromServer \<Rightarrow> ClientRelay \<Rightarrow> ClientStep" where
  "handle_server_frame cfg e inc s =
     (case inc of
        StreamError \<Rightarrow> (s, [], Some Disconnected)
      | StreamEnd \<Rightarrow> (s, [], Some Disconnected)
      | Got f \<Rightarrow>
          (let s = s\<lparr>last_activity := wall e\<rparr> in
           case f of
             Data d \<Rightarrow> got_data e d s
           | Resume offset \<Rightarrow> (s\<lparr>rendered_offset := offset\<rparr>, [], None)
           | Notice d \<Rightarrow> got_notice e d s
           | Pong \<Rightarrow> (s\<lparr>last_rtt := Some (mono e - last_ping_sent s)\<rparr>, [], None)
           | Exit code \<Rightarrow> (s, [], Some (ExitCode code))
           | Detached \<Rightarrow> dismissed e (StatusMsg (ascii ''detached'')) 0 s
           | ServerShutdown \<Rightarrow>
               dismissed e (ErrLine (ascii ''server shut down -- session is gone; run `gritty connect` to start fresh'')) 1 s
           | AgentOpen c \<Rightarrow> got_agent_open cfg e c s
           | AgentData c d \<Rightarrow> got_agent_data e c d s
           | AgentClose c \<Rightarrow> (s\<lparr>agent_chans := (agent_chans s)(c := None)\<rparr>, [], None)
           | OpenUrl url \<Rightarrow> got_open_url cfg e url s
           | ClipboardSet d \<Rightarrow> got_clipboard_set e d s
           | ClipboardGet \<Rightarrow> notify e (ClipboardData []) s
           | TunnelListen port \<Rightarrow> got_tunnel_listen cfg e port s
           | SendOffer n bytes \<Rightarrow> paint e (Paint [] (OfferMsg n bytes)) None s
           | SendDone \<Rightarrow> paint e (Paint [] (SuccessMsg (ascii ''transfer complete''))) None s
           | SendCancel reason \<Rightarrow> paint e (Paint [] (ErrorMsg (ascii ''transfer cancelled: '' @ reason))) None s
           | TunnelData c d \<Rightarrow> got_tunnel_data e c d s
           | TunnelClose c \<Rightarrow>
               (s\<lparr>ctunnel := (ctunnel s)\<lparr>tun_channels := (tun_channels (ctunnel s))(c := None)\<rparr>\<rparr>, [], None)
           | PortForwardListen fid lp tp \<Rightarrow> notify e (PortForwardStop fid) s
           | PortForwardOpen fid c target \<Rightarrow> got_pf_open e fid c target s
           | PortForwardData c d \<Rightarrow> got_pf_data e c d s
           | PortForwardClose c \<Rightarrow>
               (s\<lparr>cpf := (cpf s)\<lparr>cpf_channels := (cpf_channels (cpf s))(c := None)\<rparr>\<rparr>, [], None)
           | PortForwardReady fid \<Rightarrow> got_pf_ready fid s
           | PortForwardStop fid \<Rightarrow> got_pf_stop fid s
           | DiagResponse text \<Rightarrow> paint e (Stdout (diag_output text)) None s
           | _ \<Rightarrow> (s, [], None)))"

section \<open>Events of the tasks\<close>

datatype ClientAgentEvent = AgentGot u32 "byte list" | AgentEnded u32

definition handle_agent_event :: "ClientEnv \<Rightarrow> ClientAgentEvent \<Rightarrow> ClientRelay \<Rightarrow> ClientStep" where
  "handle_agent_event e ev s =
     (case ev of
        AgentGot c d \<Rightarrow>
          (if agent_chans s c = None then (s, [], None) else send_or_leave e (AgentData c d) s)
      | AgentEnded c \<Rightarrow>
          (if agent_chans s c = None then (s, [], None)
           else send_or_leave e (AgentClose c) (s\<lparr>agent_chans := (agent_chans s)(c := None)\<rparr>)))"

datatype ClientTunnelEvent = TunnelAccepted u32 nat | TunnelGot u32 "byte list" | TunnelEnded u32

definition handle_tunnel_event :: "ClientEnv \<Rightarrow> ClientTunnelEvent \<Rightarrow> ClientRelay \<Rightarrow> ClientStep" where
  "handle_tunnel_event e ev s =
     (case ev of
        TunnelAccepted c w \<Rightarrow>
          send_or_leave e (TunnelOpen c)
            (s\<lparr>ctunnel := (ctunnel s)\<lparr>tun_channels := (tun_channels (ctunnel s))(c \<mapsto> w)\<rparr>\<rparr>)
      | TunnelGot c d \<Rightarrow> send_or_leave e (TunnelData c d) s
      | TunnelEnded c \<Rightarrow>
          send_or_leave e (TunnelClose c)
            (s\<lparr>ctunnel := (ctunnel s)\<lparr>tun_channels := (tun_channels (ctunnel s))(c := None)\<rparr>\<rparr>))"

datatype ClientPortForwardEvent =
    Accepted u32 u32 nat
  | PfGot u32 "byte list"
  | PfEnded u32
  | ForwardStopped u32

definition handle_pf_event :: "ClientEnv \<Rightarrow> ClientPortForwardEvent \<Rightarrow> ClientRelay \<Rightarrow> ClientStep" where
  "handle_pf_event e ev s =
     (case ev of
        Accepted fid c w \<Rightarrow>
          (case cpf_forwards (cpf s) fid of
             None \<Rightarrow> (s, [], None)
           | Some fwd \<Rightarrow>
               send_or_leave e (PortForwardOpen fid c (target_port fwd))
                 (s\<lparr>cpf := (cpf s)\<lparr>cpf_channels := (cpf_channels (cpf s))(c \<mapsto> (fid, w))\<rparr>\<rparr>))
      | PfGot c d \<Rightarrow>
          (if cpf_channels (cpf s) c = None then (s, [], None) else send_or_leave e (PortForwardData c d) s)
      | PfEnded c \<Rightarrow>
          (if cpf_channels (cpf s) c = None then (s, [], None)
           else send_or_leave e (PortForwardClose c)
                  (s\<lparr>cpf := (cpf s)\<lparr>cpf_channels := (cpf_channels (cpf s))(c := None)\<rparr>\<rparr>))
      | ForwardStopped fid \<Rightarrow>
          (let (s, outs) = forget_forward fid s;
               (s, outs', exit) = send_or_leave e (PortForwardStop fid) s
           in (s, outs @ outs', exit)))"

text \<open>
  A request of a \<open>gritty lf\<close> (direction 0) or \<open>rf\<close> (direction 1) process on the stream \<open>svc\<close>; its
  header is None when it does not arrive in time.
\<close>

definition fwd_bind :: "ClientEnv \<Rightarrow> u32 \<Rightarrow> u16 \<Rightarrow> u16 \<Rightarrow> ClientRelay \<Rightarrow> ClientRelay \<times> ClientOut list" where
  "fwd_bind e fid listen target s =
     (s\<lparr>cpf := (cpf s)\<lparr>cpf_forwards := (cpf_forwards (cpf s))(fid \<mapsto>
          \<lparr>listener_handle = True, keepalive_handle = False, target_port = target\<rparr>)\<rparr>\<rparr>,
      [BindForward fid listen])"

definition fwd_announce ::
  "ClientEnv \<Rightarrow> nat \<Rightarrow> u32 \<Rightarrow> u8 \<Rightarrow> u16 \<Rightarrow> u16 \<Rightarrow> ClientRelay \<Rightarrow> ClientRelay \<times> ClientOut list" where
  "fwd_announce e svc fid direction listen target s =
     (let s = (if direction = 0
               then s\<lparr>client_initiated_forwards := (client_initiated_forwards s)(fid \<mapsto> target)\<rparr> else s);
          (s, outs, sent) = client_timed_send e (PortForwardRequest fid direction listen target) s
      in if \<not> sent then (s, outs @ [FwdReply svc [2], FwdReply svc (ascii ''server connection lost'')])
         else if direction = 0 then
           (s\<lparr>cpf := (cpf s)\<lparr>pending_lf := (pending_lf (cpf s))(fid \<mapsto> svc)\<rparr>\<rparr>, outs)
         else
           (s\<lparr>cpf := start_pf_keepalive fid svc target (cpf s)\<rparr>, outs @ [FwdReply svc [1], WatchForward fid svc]))"

definition handle_fwd_request ::
  "ClientEnv \<Rightarrow> nat \<Rightarrow> (u8 \<times> u16 \<times> u16) option \<Rightarrow> ClientRelay \<Rightarrow> ClientStep" where
  "handle_fwd_request e svc header s =
     (case header of
        None \<Rightarrow> (s, [], None)
      | Some (direction, listen, target) \<Rightarrow>
          (let fid = counter e in
           if direction = 1 \<and> \<not> tcp_binds e listen then
             (s, [FwdReply svc [2], FwdReply svc (FWD_ERR_BIND_PREFIX @ bind_error e)], None)
           else
             (let (s, bound) = (if direction = 1 then fwd_bind e fid listen target s else (s, []));
                  (s, outs) = fwd_announce e svc fid direction listen target s
              in (s, bound @ outs, None))))"

section \<open>The keyboard\<close>

definition do_action :: "ClientConfig \<Rightarrow> ClientEnv \<Rightarrow> EscapeAction \<Rightarrow> ClientRelay \<Rightarrow> ClientStep" where
  "do_action cfg e act s =
     (case act of
        Keys d \<Rightarrow> send_or_leave e (Data d) s
      | Detach \<Rightarrow> farewell e (StatusMsg (ascii ''detached'')) 0 s
      | Reconnect \<Rightarrow> (s, [], Some Disconnected)
      | Pin \<Rightarrow>
          (let (s, outs, sent) = client_timed_send e (SetLinger [] 0) s in
           if sent then
             (let (s, outs', exit) =
                paint e (Paint [] (StatusMsg (ascii ''session pinned (linger: never)''))) None s
              in (s, outs @ outs', exit))
           else (s, outs, Some Disconnected))
      | Suspend \<Rightarrow>
          (if suspends e then
             (let (s, outs, exit) = send_or_leave e (Resize (fst (term_size e)) (snd (term_size e)))
                    (s\<lparr>last_activity := wall_resumed e\<rparr>)
              in (s, SuspendSelf # outs, exit))
           else (s, [], Some IoFailed))
      | Status \<Rightarrow>
          (let (s, outs, exit) = paint e (Paint [] StatusReport) None s in
           if exit = None then
             (let (s, outs', exit) = send_or_leave e DiagRequest s in (s, outs @ outs', exit))
           else (s, outs, exit))
      | Help \<Rightarrow> paint e (Paint [] HelpText) None s)"

fun do_actions :: "ClientConfig \<Rightarrow> ClientEnv \<Rightarrow> EscapeAction list \<Rightarrow> ClientRelay \<Rightarrow> ClientStep" where
  "do_actions cfg e [] s = (s, [], None)"
| "do_actions cfg e (a # as) s =
     (case do_action cfg e a s of
        (s', outs, None) \<Rightarrow> (let (s'', outs', exit) = do_actions cfg e as s' in (s'', outs @ outs', exit))
      | (s', outs, Some exit) \<Rightarrow> (s', outs, Some exit))"

text \<open>The arm of \<open>async_stdin.readable()\<close> for the bytes of a read.\<close>

definition typed :: "ClientConfig \<Rightarrow> ClientEnv \<Rightarrow> byte list \<Rightarrow> ClientRelay \<Rightarrow> ClientStep" where
  "typed cfg e input s =
     (let s = s\<lparr>last_input_at := wall e\<rparr> in
      if link_is_stale (last_activity s) (hb_timeout cfg) (wall e) then (s, [], Some Disconnected)
      else
        (case escape s of
           Some st \<Rightarrow>
             (let (st', acts) = process st input in do_actions cfg e acts (s\<lparr>escape := Some st'\<rparr>))
         | None \<Rightarrow> send_or_leave e (Data input) s))"

section \<open>The loop\<close>

text \<open>The heartbeat tick, and the probe when the network path changes.\<close>

definition send_ping :: "ClientEnv \<Rightarrow> ClientRelay \<Rightarrow> ClientStep" where
  "send_ping e s = send_or_leave e Ping (s\<lparr>last_ping_sent := mono e\<rparr>)"

definition heartbeat_tick :: "ClientConfig \<Rightarrow> ClientEnv \<Rightarrow> ClientRelay \<Rightarrow> ClientStep" where
  "heartbeat_tick cfg e s =
     (if link_is_stale (last_activity s) (hb_timeout cfg) (wall e) then (s, [], Some Disconnected)
      else
        (let inbound_idle = (hb_interval cfg \<le> wall_elapsed (last_activity s) (wall e)) in
         if hb_interval cfg \<le> mono e - last_outbound_at s \<or> inbound_idle then send_ping e s
         else (s, [], None)))"

datatype ClientEvent =
    Typed "byte list"
  | StdinEof
  | StdinError
  | Server FromServer
  | AgentTask ClientAgentEvent
  | TunnelTask ClientTunnelEvent
  | PfTask ClientPortForwardEvent
  | FwdRequest nat "(u8 \<times> u16 \<times> u16) option"
  | WindowChange
  | NetChanged
  | HeartbeatTick
  | Terminated

definition relay_step :: "ClientConfig \<Rightarrow> ClientEnv \<Rightarrow> ClientEvent \<Rightarrow> ClientRelay \<Rightarrow> ClientStep" where
  "relay_step cfg e ev s =
     (case ev of
        Typed input \<Rightarrow> typed cfg e input s
      | StdinEof \<Rightarrow> (s, [], Some (ExitCode 0))
      | StdinError \<Rightarrow> (s, [], Some IoFailed)
      | Server inc \<Rightarrow> handle_server_frame cfg e inc s
      | AgentTask a \<Rightarrow> handle_agent_event e a s
      | TunnelTask t \<Rightarrow> handle_tunnel_event e t s
      | PfTask p \<Rightarrow> handle_pf_event e p s
      | FwdRequest svc header \<Rightarrow> handle_fwd_request e svc header s
      | WindowChange \<Rightarrow> send_or_leave e (Resize (fst (term_size e)) (snd (term_size e))) s
      | NetChanged \<Rightarrow> send_ping e s
      | HeartbeatTick \<Rightarrow> heartbeat_tick cfg e s
      | Terminated \<Rightarrow> (s, [], Some (ExitCode 1)))"

fun relay_run :: "ClientConfig \<Rightarrow> (ClientEnv \<times> ClientEvent) list \<Rightarrow> ClientRelay \<Rightarrow> ClientStep" where
  "relay_run cfg [] s = (s, [], None)"
| "relay_run cfg ((e, ev) # evs) s =
     (case relay_step cfg e ev s of
        (s', outs, None) \<Rightarrow> (let (s'', outs', exit) = relay_run cfg evs s' in (s'', outs @ outs', exit))
      | (s', outs, Some exit) \<Rightarrow> (s', outs, Some exit))"

text \<open>
  The start of \<open>relay\<close>: fresh tables and clocks; the escape state, the alternate screen, the last
  keystroke, the offset and the limiters live on in \<open>run\<close> across reconnects.
\<close>

definition relay_start :: "ClientEnv \<Rightarrow> ClientRelay \<Rightarrow> ClientRelay" where
  "relay_start e s =
     s\<lparr>agent_chans := Map.empty, ctunnel := \<lparr>tun_listener = False, tun_channels = Map.empty\<rparr>,
       cpf := \<lparr>cpf_forwards = Map.empty, cpf_channels = Map.empty, pending_lf = Map.empty\<rparr>,
       client_initiated_forwards := Map.empty, last_activity := wall e, last_outbound_at := mono e,
       last_ping_sent := mono e, last_rtt := None, bytes_relayed := 0\<rparr>"

text \<open>\<open>send_init_frames\<close>, and what \<open>run\<close> starts with.\<close>

definition init_frames :: "ClientConfig \<Rightarrow> ClientEnv \<Rightarrow> (rstring \<times> rstring) list \<Rightarrow> bool \<Rightarrow> Frame list" where
  "init_frames cfg e vars forward_agent =
     [Env vars] @ (if forward_agent \<and> agent_socket cfg then [AgentForward] else [])
       @ (if forward_open cfg then [OpenForward] else [])
       @ [Resize (fst (term_size e)) (snd (term_size e))]"

definition client_new :: "bool \<Rightarrow> nat \<Rightarrow> ClientRelay" where
  "client_new no_escape now =
     \<lparr>escape = (if no_escape then None else Some escape_new), alt_screen = alt_new,
      agent_chans = Map.empty, ctunnel = \<lparr>tun_listener = False, tun_channels = Map.empty\<rparr>,
      cpf = \<lparr>cpf_forwards = Map.empty, cpf_channels = Map.empty, pending_lf = Map.empty\<rparr>,
      client_initiated_forwards = Map.empty, last_input_at = now, last_activity = 0, last_outbound_at = 0,
      last_ping_sent = 0, last_rtt = None, bytes_relayed = 0, rendered_offset = 0, limiters = limiters_new\<rparr>"

end
