(* ===== verification/Client_Input_Proofs.thy ===== *)
theory Client_Input_Proofs
  imports Client_Input "HOL-Library.Sublist"
begin

text \<open>
  The escape processor against a definition by the structure of the typed text, the rate limiter
  against the count of what it allowed, and the names of the forward sockets.
\<close>

section \<open>Escapes\<close>

text \<open>What typed bytes mean, without a state machine: keys for the session and commands.\<close>

datatype Token = Key byte | Command EscapeAction

definition command :: "byte \<Rightarrow> EscapeAction option" where
  "command c =
     map_of [(0x2E, Detach), (0x52, Reconnect), (0x4B, Pin), (0x1A, Suspend), (0x23, Status), (0x3F, Help)] c"

fun tokens :: "bool \<Rightarrow> byte list \<Rightarrow> Token list" where
  "tokens line_start [] = []"
| "tokens line_start (b # bs) =
     (if line_start \<and> b = 0x7E then
        (case bs of
           [] \<Rightarrow> []
         | c # cs \<Rightarrow>
             (case command c of
                Some a \<Rightarrow> Command a # (if a \<in> {Detach, Reconnect} then [] else tokens False cs)
              | None \<Rightarrow>
                  (if c = 0x7E then Key 0x7E # tokens False cs
                   else Key 0x7E # Key c # tokens (is_newline c) cs)))
      else Key b # tokens (is_newline b) bs)"

definition ends_relay :: "EscapeAction list \<Rightarrow> bool" where
  "ends_relay acts \<longleftrightarrow> Detach \<in> set acts \<or> Reconnect \<in> set acts"

text \<open>The processor over the reads of a session, up to the action that ends the relay.\<close>

fun escape_run :: "EscapeState \<Rightarrow> byte list list \<Rightarrow> EscapeAction list" where
  "escape_run st [] = []"
| "escape_run st (c # cs) =
     (case process st c of
        (st', acts) \<Rightarrow> acts @ (if ends_relay acts then [] else escape_run st' cs))"

fun explode :: "EscapeAction list \<Rightarrow> Token list" where
  "explode [] = []"
| "explode (Keys d # acts) = map Key d @ explode acts"
| "explode (a # acts) = Command a # explode acts"

lemma explode_append [simp]: "explode (xs @ ys) = explode xs @ explode ys"
  by (induction xs rule: explode.induct) simp_all

lemma explode_flush [simp]: "explode (flush_pending buf) = map Key buf"
  by (simp add: flush_pending_def)

fun meaning :: "EscapeState \<Rightarrow> byte list \<Rightarrow> Token list" where
  "meaning Normal bs = tokens False bs"
| "meaning AfterNewline bs = tokens True bs"
| "meaning AfterTilde bs = tokens True (0x7E # bs)"

lemma ends_relay_simps [simp]:
  "ends_relay (xs @ ys) \<longleftrightarrow> ends_relay xs \<or> ends_relay ys" "\<not> ends_relay []"
  "\<not> ends_relay (flush_pending buf)"
  by (auto simp: ends_relay_def flush_pending_def)

lemma escape_step_meaning:
  assumes "escape_step st buf b = (st', buf', acts, stop)"
  shows "map Key buf @ meaning st (b # r) = explode acts @ (if stop then [] else map Key buf' @ meaning st' r)"
    and "ends_relay acts \<longleftrightarrow> stop"
  using assms
  by (cases st; auto simp: escape_step_def command_def is_newline_def ends_relay_def flush_pending_def
      split: if_splits)+

lemma process_meaning:
  "process_bytes st buf bs = (st', acts) \<Longrightarrow>
     map Key buf @ meaning st (bs @ r) = explode acts @ (if ends_relay acts then [] else meaning st' r)"
proof (induction st buf bs arbitrary: st' acts rule: process_bytes.induct)
  case (2 st buf b bs)
  obtain st1 buf1 acts1 stop where step: "escape_step st buf b = (st1, buf1, acts1, stop)"
    by (metis prod_cases4)
  note m = escape_step_meaning [OF step]
  show ?case
  proof (cases stop)
    case True
    with "2.prems" step m(2) m(1) [of "bs @ r"] show ?thesis by simp
  next
    case False
    obtain st2 acts2 where rec: "process_bytes st1 buf1 bs = (st2, acts2)" by (metis prod.exhaust)
    with "2.prems" step False have "st' = st2" "acts = acts1 @ acts2" by auto
    with "2.IH" [OF step [symmetric] refl refl False rec] m(1) [of "bs @ r"] m(2) False show ?thesis by simp
  qed
qed simp

theorem escapes_ignore_chunking:
  "explode (escape_run escape_new chunks) = tokens True (concat chunks)"
proof -
  have "explode (escape_run st chunks) = meaning st (concat chunks)" for st
  proof (induction chunks arbitrary: st)
    case Nil
    show ?case by (cases st) simp_all
  next
    case (Cons c cs)
    obtain st' acts where p: "process st c = (st', acts)" by (metis prod.exhaust)
    show ?case
      using process_meaning [of st "[]" c st' acts "concat cs"] p Cons.IH [of st']
      by (simp add: process_def)
  qed
  from this [of escape_new] show ?thesis by (simp add: escape_new_def)
qed

section \<open>Rate limits\<close>

text \<open>The limiter over a sequence of checks: each time with its answer.\<close>

fun answers :: "RateLimiter \<Rightarrow> nat list \<Rightarrow> (nat \<times> bool) list" where
  "answers r [] = []"
| "answers r (t # ts) = (case limiter_check t r of (r', ok) \<Rightarrow> (t, ok) # answers r' ts)"

definition granted :: "(nat \<times> bool) list \<Rightarrow> nat list" where
  "granted as = map fst (filter snd as)"

lemma dropWhile_sorted:
  "sorted xs \<Longrightarrow> (\<And>x y. x \<le> y \<Longrightarrow> \<not> P x \<Longrightarrow> \<not> P y) \<Longrightarrow> dropWhile P xs = filter (\<lambda>x. \<not> P x) xs"
proof (induction xs)
  case (Cons x xs)
  then show ?case by (cases "P x") (auto intro!: filter_True [symmetric])
qed simp

text \<open>The queue holds what was granted in the window that ends at the last check.\<close>

definition window_of :: "nat \<Rightarrow> nat list \<Rightarrow> RateLimiter \<Rightarrow> bool" where
  "window_of l gs r \<longleftrightarrow> sorted gs \<and> list_all (\<lambda>g. g \<le> l) gs \<and> timestamps r = filter (\<lambda>g. l - g \<le> window r) gs"

lemma limiter_check_window:
  assumes "window_of l gs r" and "l \<le> t" and "limiter_check t r = (r', ok)"
  shows "ok \<longleftrightarrow> length (filter (\<lambda>g. t - g \<le> window r) gs) < max_count r"
    and "window_of t (gs @ (if ok then [t] else [])) r'"
    and "window r' = window r" and "max_count r' = max_count r"
proof -
  have "dropWhile (\<lambda>g. window r < t - g) (timestamps r) = filter (\<lambda>g. t - g \<le> window r) gs"
    using assms(1,2)
    by (subst dropWhile_sorted) (auto simp: window_of_def list_all_iff intro: sorted_filter [where f = id, simplified] intro!: filter_cong)
  with assms show "ok \<longleftrightarrow> length (filter (\<lambda>g. t - g \<le> window r) gs) < max_count r"
    and "window_of t (gs @ (if ok then [t] else [])) r'"
    and "window r' = window r" and "max_count r' = max_count r"
    by (auto simp: limiter_check_def Let_def window_of_def sorted_append list_all_iff split: if_splits)
qed

text \<open>In every window of length \<open>w\<close> there are at most \<open>n\<close> of the times.\<close>

definition at_most :: "nat \<Rightarrow> nat \<Rightarrow> nat list \<Rightarrow> bool" where
  "at_most n w ts \<longleftrightarrow> (\<forall>t. length (filter (\<lambda>g. g \<le> t \<and> t - g \<le> w) ts) \<le> n)"

lemma at_most_nil [simp]: "at_most n w []"
  by (simp add: at_most_def)

lemma length_filter_mono: "(\<And>x. x \<in> set xs \<Longrightarrow> P x \<Longrightarrow> Q x) \<Longrightarrow> length (filter P xs) \<le> length (filter Q xs)"
  by (induction xs) (auto intro: le_SucI)

lemma at_most_snoc:
  assumes "at_most n w gs" and "list_all (\<lambda>g. g \<le> t) gs" and "length (filter (\<lambda>g. t - g \<le> w) gs) < n"
  shows "at_most n w (gs @ [t])"
proof -
  have "length (filter (\<lambda>g. g \<le> u \<and> u - g \<le> w) gs) < n" if "t \<le> u" for u
    using that assms(2,3) length_filter_mono [of gs "\<lambda>g. g \<le> u \<and> u - g \<le> w" "\<lambda>g. t - g \<le> w"]
    by fastforce
  with assms(1) show ?thesis by (auto simp: at_most_def Suc_le_eq)
qed

lemma at_most_subseq:
  assumes "subseq hs gs" and "at_most n w gs"
  shows "at_most n w hs"
  unfolding at_most_def
proof
  fix t
  have "length (filter (\<lambda>g. g \<le> t \<and> t - g \<le> w) hs) \<le> length (filter (\<lambda>g. g \<le> t \<and> t - g \<le> w) gs)"
    by (rule list_emb_length [OF subseq_filter [OF assms(1)]])
  with assms(2) show "length (filter (\<lambda>g. g \<le> t \<and> t - g \<le> w) hs) \<le> n"
    unfolding at_most_def by (meson le_trans)
qed

definition counted :: "nat \<Rightarrow> nat \<Rightarrow> nat list \<Rightarrow> (nat \<times> bool) list \<Rightarrow> bool" where
  "counted n w gs as \<longleftrightarrow>
     list_all (\<lambda>k. snd (as ! k) \<longleftrightarrow>
         length (filter (\<lambda>g. fst (as ! k) - g \<le> w) (gs @ granted (take k as))) < n) [0..<length as]"

lemma granted_simps [simp]:
  "granted [] = []" "granted ((t, ok) # as) = (if ok then [t] else []) @ granted as"
  by (simp_all add: granted_def)

lemma counted_iff:
  "counted n w gs as \<longleftrightarrow> (\<forall>k < length as. snd (as ! k) \<longleftrightarrow>
     length (filter (\<lambda>g. fst (as ! k) - g \<le> w) (gs @ granted (take k as))) < n)"
  by (auto simp: counted_def list_all_iff)

lemma counted_Cons:
  "counted n w gs ((t, ok) # as) \<longleftrightarrow>
     (ok \<longleftrightarrow> length (filter (\<lambda>g. t - g \<le> w) gs) < n) \<and> counted n w (gs @ (if ok then [t] else [])) as"
  by (simp add: counted_iff All_less_Suc2)

lemma answers_counted:
  assumes "window_of l gs r" and "at_most n w gs" and "sorted (l # ts)" and "max_count r = n" and "window r = w"
  shows "counted n w gs (answers r ts) \<and> at_most n w (gs @ granted (answers r ts))"
  using assms
proof (induction ts arbitrary: l gs r)
  case Nil
  then show ?case by (simp add: counted_def)
next
  case (Cons t ts)
  obtain r' ok where c: "limiter_check t r = (r', ok)" by (metis prod.exhaust)
  have "l \<le> t" using Cons.prems(3) by simp
  note w = limiter_check_window [OF Cons.prems(1) this c]
  have "list_all (\<lambda>g. g \<le> t) gs"
    using Cons.prems(1) \<open>l \<le> t\<close> by (auto simp: window_of_def list_all_iff)
  then have "at_most n w (gs @ (if ok then [t] else []))"
    using Cons.prems(2,4,5) w(1) at_most_snoc [of n w gs t] by auto
  from Cons.IH [OF w(2) this] Cons.prems w c show ?case
    by (simp add: counted_Cons)
qed

theorem limiter_counts_exactly:
  assumes "sorted ts"
  shows "counted n w [] (answers (limiter_new n w) ts)
    \<and> at_most n w (granted (answers (limiter_new n w) ts))"
proof -
  have "window_of 0 [] (limiter_new n w)" by (simp add: window_of_def limiter_new_def)
  from answers_counted [OF this, of n w ts] assms show ?thesis
    by (simp add: limiter_new_def)
qed

section \<open>Forward sockets\<close>

lemma parse_forward_socket_name_format [simp]:
  "parse_forward_socket_name (forward_socket_name host i) = Some (host, i)"
proof -
  have no_dash: "0x2D \<notin> set (dec (unat i))" using dec_digits [of "0x2D" "unat i"] by (auto simp: is_digit_def)
  have "rsplit_once 0x2D (host @ 0x2D # dec (unat i)) = Some (host, dec (unat i))"
    using no_dash by simp
  moreover have "parse_unsigned (2 ^ 32) (dec (unat i)) = Some (unat i)"
    by (rule parse_unsigned_dec) (use unsigned_less [of i] in simp)
  moreover have "forward_socket_name host i = ascii ''fwd-'' @ (host @ 0x2D # dec (unat i)) @ ascii ''.sock''"
    by (simp add: forward_socket_name_def)
  ultimately show ?thesis
    by (simp only: parse_forward_socket_name_def strip_prefix_def strip_suffix_def append_eq_conv_conj)
      (simp add: parse_forward_socket_name_def)
qed

end
