(* ===== verification/Client_Relay_Proofs.thy ===== *)
theory Client_Relay_Proofs
  imports Client_Relay Client_Input_Proofs
begin

text \<open>
  What a server can make the client do: nothing outside what the user configured or asked for, and
  no faster than the limits, over every run and every reconnect; and what the user types reaches
  the server in order.
\<close>

section \<open>Single steps\<close>

lemma notify_simps [simp]:
  "snd (snd (notify e f s)) = None"
  "fst (snd (notify e f s)) = (if link_up e then [ToServer f] else [])"
  "fst (notify e f s) = (if link_up e then s\<lparr>last_outbound_at := mono e\<rparr> else s)"
  by (simp_all add: notify_def client_timed_send_def)

lemma send_or_leave_simps [simp]:
  "snd (snd (send_or_leave e f s)) = (if link_up e then None else Some Disconnected)"
  "fst (snd (send_or_leave e f s)) = (if link_up e then [ToServer f] else [])"
  "fst (send_or_leave e f s) = (if link_up e then s\<lparr>last_outbound_at := mono e\<rparr> else s)"
  by (simp_all add: send_or_leave_def client_timed_send_def)

lemma paint_simps [simp]:
  "snd (snd (paint e out next s)) = (if stdout_ok e then next else Some IoFailed)"
  "fst (snd (paint e out next s)) = (if stdout_ok e then [out] else [])"
  "fst (paint e out next s) = s"
  by (simp_all add: paint_def)

text \<open>What a server frame may cause, given the configuration and the user's forwards.\<close>

definition permitted :: "ClientConfig \<Rightarrow> ClientEnv \<Rightarrow> ClientRelay \<Rightarrow> ClientOut \<Rightarrow> bool" where
  "permitted cfg e s out =
     (case out of
        OpenBrowser url \<Rightarrow>
          forward_open cfg \<and> (starts_with url (ascii ''http://'') \<or> starts_with url (ascii ''https://''))
      | ConnectAgent c \<Rightarrow>
          agent_socket cfg \<and> \<not> is_agent_idle (last_input_at s) (agent_idle_timeout cfg) (wall e)
      | BindTunnel port \<Rightarrow> oauth_redirect cfg
      | ConnectTarget fid c port \<Rightarrow> client_initiated_forwards s fid = Some port
      | BindForward fid port \<Rightarrow> False
      | SuspendSelf \<Rightarrow> False
      | _ \<Rightarrow> True)"


section \<open>Limited effects\<close>

text \<open>When the effects of a kind happen, over a relay and over all relays of a client.\<close>

fun relay_times :: "(ClientOut \<Rightarrow> bool) \<Rightarrow> ClientConfig \<Rightarrow> (ClientEnv \<times> ClientEvent) list \<Rightarrow> ClientRelay \<Rightarrow> nat list" where
  "relay_times P cfg [] s = []"
| "relay_times P cfg ((e, ev) # evs) s =
     (case relay_step cfg e ev s of
        (s', outs, exit) \<Rightarrow>
          map (\<lambda>_. mono e) (filter P outs) @ (if exit = None then relay_times P cfg evs s' else []))"

fun client_times ::
  "(ClientOut \<Rightarrow> bool) \<Rightarrow> ClientConfig \<Rightarrow> (ClientEnv \<times> (ClientEnv \<times> ClientEvent) list) list \<Rightarrow> ClientRelay \<Rightarrow> nat list" where
  "client_times P cfg [] s = []"
| "client_times P cfg ((e0, evs) # lives) s =
     relay_times P cfg evs (relay_start e0 s)
       @ client_times P cfg lives (fst (relay_run cfg evs (relay_start e0 s)))"

definition instants :: "(ClientEnv \<times> ClientEvent) list \<Rightarrow> nat list" where
  "instants evs = map (\<lambda>(e, _). mono e) evs"

lemma instants_simps [simp]: "instants [] = []" "instants (x # evs) = mono (fst x) # instants evs"
  by (simp_all add: instants_def split_beta)

fun all_instants :: "(ClientEnv \<times> (ClientEnv \<times> ClientEvent) list) list \<Rightarrow> nat list" where
  "all_instants [] = []"
| "all_instants ((e0, evs) # lives) = instants evs @ all_instants lives"

text \<open>
  An effect behind a limiter: a step either leaves both alone or asks the limiter once and has the
  effect at most once, and only when the limiter said yes.
\<close>

locale limited_effect =
  fixes P :: "ClientOut \<Rightarrow> bool"
    and get :: "SecurityLimiters \<Rightarrow> RateLimiter"
    and n :: nat
  assumes fresh: "get limiters_new = limiter_new n (30 * SECOND)"
    and step: "relay_step cfg e ev s = (s', outs, exit) \<Longrightarrow>
      get (limiters s') = get (limiters s) \<and> filter P outs = []
      \<or> get (limiters s') = fst (limiter_check (mono e) (get (limiters s)))
        \<and> length (filter P outs) \<le> (if snd (limiter_check (mono e) (get (limiters s))) then 1 else 0)"
begin

definition limited :: "nat \<Rightarrow> ClientRelay \<Rightarrow> nat list \<Rightarrow> bool" where
  "limited l s hs \<longleftrightarrow>
     (\<exists>gs. window_of l gs (get (limiters s)) \<and> at_most n (30 * SECOND) gs \<and> subseq hs gs)
     \<and> max_count (get (limiters s)) = n \<and> window (get (limiters s)) = 30 * SECOND"

lemma limited_step:
  assumes "limited l s hs" and "l \<le> mono e" and "relay_step cfg e ev s = (s', outs, exit)"
  shows "\<exists>l'. l' \<le> mono e \<and> limited l' s' (hs @ map (\<lambda>_. mono e) (filter P outs))"
proof -
  from step [OF assms(3)] show ?thesis
  proof (elim disjE conjE)
    assume "get (limiters s') = get (limiters s)" "filter P outs = []"
    with assms(1,2) show ?thesis unfolding limited_def by auto
  next
    assume r: "get (limiters s') = fst (limiter_check (mono e) (get (limiters s)))"
      and len: "length (filter P outs) \<le> (if snd (limiter_check (mono e) (get (limiters s))) then 1 else 0)"
    obtain r' ok where c: "limiter_check (mono e) (get (limiters s)) = (r', ok)" by (metis prod.exhaust)
    from assms(1) obtain gs where gs: "window_of l gs (get (limiters s))" "at_most n (30 * SECOND) gs"
      "subseq hs gs" and nw: "max_count (get (limiters s)) = n" "window (get (limiters s)) = 30 * SECOND"
      unfolding limited_def by blast
    note w = limiter_check_window [OF gs(1) assms(2) c]
    have le: "list_all (\<lambda>g. g \<le> mono e) gs"
      using gs(1) assms(2) by (auto simp: window_of_def list_all_iff)
    have "at_most n (30 * SECOND) (gs @ (if ok then [mono e] else []))"
      using gs(2) w(1) nw at_most_snoc [OF gs(2) le] by auto
    moreover have "subseq (hs @ map (\<lambda>_. mono e) (filter P outs)) (gs @ (if ok then [mono e] else []))"
    proof (cases ok)
      case True
      with len c have "filter P outs = [] \<or> (\<exists>out. filter P outs = [out])"
        by (cases "filter P outs") auto
      with True gs(3) show ?thesis by (auto intro: list_emb_append_mono subseq_rev_drop_many)
    next
      case False
      with len c gs(3) show ?thesis by simp
    qed
    ultimately show ?thesis using w(2,3,4) nw r c unfolding limited_def by (auto intro!: exI [of _ "mono e"])
  qed
qed

lemma limited_relay:
  "limited l s hs \<Longrightarrow> sorted (l # instants evs @ rest) \<Longrightarrow>
     \<exists>l'. limited l' (fst (relay_run cfg evs s)) (hs @ relay_times P cfg evs s) \<and> sorted (l' # rest)"
proof (induction evs arbitrary: l s hs)
  case Nil
  then show ?case by auto
next
  case (Cons x evs)
  obtain e ev where x: "x = (e, ev)" by (cases x)
  obtain s' outs exit where st: "relay_step cfg e ev s = (s', outs, exit)" by (metis prod_cases3)
  have "l \<le> mono e" using Cons.prems(2) x by simp
  from limited_step [OF Cons.prems(1) this st] obtain l' where l': "l' \<le> mono e"
    "limited l' s' (hs @ map (\<lambda>_. mono e) (filter P outs))" by blast
  have so: "sorted (l' # instants evs @ rest)" using Cons.prems(2) x by (auto intro: le_trans [OF l'(1)])
  show ?case
  proof (cases exit)
    case None
    with Cons.IH [OF l'(2) so] x st show ?thesis by (simp add: split_beta)
  next
    case (Some a)
    have "sorted (l' # rest)" using so by (auto simp: sorted_append)
    with Some l'(2) x st show ?thesis by auto
  qed
qed

lemma limited_client:
  "limited l s hs \<Longrightarrow> sorted (l # all_instants lives) \<Longrightarrow>
     at_most n (30 * SECOND) (hs @ client_times P cfg lives s)"
proof (induction lives arbitrary: l s hs)
  case Nil
  then show ?case by (auto simp: limited_def intro: at_most_subseq)
next
  case (Cons x lives)
  obtain e0 evs where x: "x = (e0, evs)" by (cases x)
  have "limited l (relay_start e0 s) hs" using Cons.prems(1) by (simp add: limited_def relay_start_def)
  moreover have "sorted (l # instants evs @ all_instants lives)" using Cons.prems(2) x by simp
  ultimately obtain l' where
    "limited l' (fst (relay_run cfg evs (relay_start e0 s))) (hs @ relay_times P cfg evs (relay_start e0 s))"
    "sorted (l' # all_instants lives)"
    using limited_relay by blast
  from Cons.IH [OF this] x show ?case by simp
qed

lemma effect_rate:
  assumes "sorted (all_instants lives)"
  shows "at_most n (30 * SECOND) (client_times P cfg lives (client_new no_escape now))"
proof -
  have "limited 0 (client_new no_escape now) []"
    by (auto simp: limited_def client_new_def fresh window_of_def limiter_new_def)
  from limited_client [OF this, of lives] assms show ?thesis by simp
qed

end

definition is_browser :: "ClientOut \<Rightarrow> bool" where
  "is_browser out = (case out of OpenBrowser url \<Rightarrow> True | _ \<Rightarrow> False)"

definition is_clipboard :: "ClientOut \<Rightarrow> bool" where
  "is_clipboard out = (case out of SetClipboard d \<Rightarrow> True | _ \<Rightarrow> False)"

definition is_tunnel_bind :: "ClientOut \<Rightarrow> bool" where
  "is_tunnel_bind out = (case out of BindTunnel port \<Rightarrow> True | _ \<Rightarrow> False)"

definition is_agent_connect :: "ClientOut \<Rightarrow> bool" where
  "is_agent_connect out = (case out of ConnectAgent c \<Rightarrow> True | _ \<Rightarrow> False)"

lemmas kinds = is_browser_def is_clipboard_def is_tunnel_bind_def is_agent_connect_def

text \<open>An event that is no server frame asks no limiter and has none of the limited effects.\<close>

definition unlimited :: "ClientRelay \<Rightarrow> ClientStep \<Rightarrow> bool" where
  "unlimited s r \<longleftrightarrow> limiters (fst r) = limiters s
     \<and> list_all (\<lambda>out. \<not> is_browser out \<and> \<not> is_clipboard out \<and> \<not> is_tunnel_bind out \<and> \<not> is_agent_connect out)
         (fst (snd r))"

lemma unlimited_basic [simp]:
  "unlimited s (s', [], x) \<longleftrightarrow> limiters s' = limiters s"
  "unlimited s (send_or_leave e f s') \<longleftrightarrow> limiters s' = limiters s"
  by (auto simp: unlimited_def kinds)

lemma unlimited_action: "unlimited s (do_action cfg e a s)"
  by (cases a) (auto simp: do_action_def unlimited_def kinds farewell_def client_timed_send_def Let_def split_beta)

lemma unlimited_actions: "unlimited s (do_actions cfg e as s)"
proof (induction as arbitrary: s)
  case (Cons a as)
  obtain s' outs exit where a: "do_action cfg e a s = (s', outs, exit)" by (metis prod_cases3)
  with unlimited_action [of s cfg e a] Cons [of s'] show ?case
    by (cases exit) (auto simp: unlimited_def split_beta)
qed simp

lemma unlimited_event:
  assumes "\<And>inc. ev \<noteq> Server inc"
  shows "unlimited s (relay_step cfg e ev s)"
proof (cases ev)
  case (Typed input)
  show ?thesis
    using unlimited_actions [of "s\<lparr>last_input_at := wall e, escape := st\<rparr>" for st]
    by (simp add: Typed relay_step_def typed_def Let_def split_beta unlimited_def kinds split: option.split)
next
  case (FwdRequest svc header)
  show ?thesis
    by (auto simp: FwdRequest relay_step_def handle_fwd_request_def fwd_bind_def fwd_announce_def unlimited_def
        kinds client_timed_send_def Let_def split_beta split: option.split)
next
  case (AgentTask a)
  then show ?thesis by (cases a) (auto simp: relay_step_def handle_agent_event_def)
next
  case (TunnelTask a)
  then show ?thesis by (cases a) (auto simp: relay_step_def handle_tunnel_event_def)
next
  case (PfTask a)
  then show ?thesis
    by (cases a) (auto simp: relay_step_def handle_pf_event_def forget_forward_def unlimited_def kinds Let_def
        split_beta split: option.split)
qed (use assms in \<open>auto simp: relay_step_def send_ping_def heartbeat_tick_def Let_def\<close>)

lemma unlimited_filter:
  "unlimited s r \<Longrightarrow> P \<in> {is_browser, is_clipboard, is_tunnel_bind, is_agent_connect} \<Longrightarrow> filter P (fst (snd r)) = []"
  by (auto simp: unlimited_def list_all_iff filter_empty_conv)

lemmas server_arms = handle_server_frame_def got_data_def got_notice_def got_agent_open_def got_agent_data_def
  got_open_url_def got_clipboard_set_def got_tunnel_listen_def got_tunnel_data_def got_pf_open_def got_pf_data_def
  got_pf_ready_def got_pf_stop_def forget_forward_def dismissed_def farewell_def teardown_all_def
  tunnel_teardown_def

text \<open>One limiter and its effect: the step of a server frame, for the four of them.\<close>

definition gated :: "(ClientOut \<Rightarrow> bool) \<Rightarrow> (SecurityLimiters \<Rightarrow> RateLimiter) \<Rightarrow> nat \<Rightarrow> ClientRelay \<Rightarrow> ClientStep \<Rightarrow> bool" where
  "gated P get t s r \<longleftrightarrow>
     get (limiters (fst r)) = get (limiters s) \<and> filter P (fst (snd r)) = []
     \<or> get (limiters (fst r)) = fst (limiter_check t (get (limiters s)))
       \<and> length (filter P (fst (snd r))) \<le> (if snd (limiter_check t (get (limiters s))) then 1 else 0)"

lemma gated_frame:
  "gated is_browser url_limiter (mono e) s (handle_server_frame cfg e inc s)"
  "gated is_clipboard clipboard_set_limiter (mono e) s (handle_server_frame cfg e inc s)"
  "gated is_tunnel_bind tunnel_listen_limiter (mono e) s (handle_server_frame cfg e inc s)"
  "gated is_agent_connect agent_open_limiter (mono e) s (handle_server_frame cfg e inc s)"
proof -
  have "gated is_browser url_limiter (mono e) s (handle_server_frame cfg e inc s)
    \<and> gated is_clipboard clipboard_set_limiter (mono e) s (handle_server_frame cfg e inc s)
    \<and> gated is_tunnel_bind tunnel_listen_limiter (mono e) s (handle_server_frame cfg e inc s)
    \<and> gated is_agent_connect agent_open_limiter (mono e) s (handle_server_frame cfg e inc s)"
  proof (cases inc)
    case (Got f)
    then show ?thesis
      by (cases f) (auto simp: server_arms gated_def kinds Let_def split_beta split: option.split)
  qed (simp_all add: handle_server_frame_def gated_def)
  then show "gated is_browser url_limiter (mono e) s (handle_server_frame cfg e inc s)"
    "gated is_clipboard clipboard_set_limiter (mono e) s (handle_server_frame cfg e inc s)"
    "gated is_tunnel_bind tunnel_listen_limiter (mono e) s (handle_server_frame cfg e inc s)"
    "gated is_agent_connect agent_open_limiter (mono e) s (handle_server_frame cfg e inc s)" by blast+
qed

lemma gated_unlimited:
  "unlimited s r \<Longrightarrow> P \<in> {is_browser, is_clipboard, is_tunnel_bind, is_agent_connect} \<Longrightarrow> gated P get t s r"
  using unlimited_filter [of s r P] by (simp add: gated_def unlimited_def)

lemma gated_step_cases:
  assumes "P \<in> {is_browser, is_clipboard, is_tunnel_bind, is_agent_connect}"
    and "\<And>inc. gated P get (mono e) s (handle_server_frame cfg e inc s)"
  shows "gated P get (mono e) s (relay_step cfg e ev s)"
proof (cases "\<exists>inc. ev = Server inc")
  case True
  with assms(2) show ?thesis by (auto simp only: relay_step_def ClientEvent.case)
next
  case False
  then show ?thesis by (intro gated_unlimited unlimited_event assms(1)) blast
qed

lemma gated_step:
  "gated is_browser url_limiter (mono e) s (relay_step cfg e ev s)"
  "gated is_clipboard clipboard_set_limiter (mono e) s (relay_step cfg e ev s)"
  "gated is_tunnel_bind tunnel_listen_limiter (mono e) s (relay_step cfg e ev s)"
  "gated is_agent_connect agent_open_limiter (mono e) s (relay_step cfg e ev s)"
  by (rule gated_step_cases; simp add: gated_frame)+

lemma gated_law:
  assumes "\<And>cfg e ev s. gated P get (mono e) s (relay_step cfg e ev s)"
    and "get limiters_new = limiter_new n (30 * SECOND)"
  shows "limited_effect P get n"
proof
  fix cfg e ev s s' outs exit
  assume "relay_step cfg e ev s = (s', outs, exit)"
  with assms(1) [of e s cfg ev]
  show "get (limiters s') = get (limiters s) \<and> filter P outs = []
      \<or> get (limiters s') = fst (limiter_check (mono e) (get (limiters s)))
        \<and> length (filter P outs) \<le> (if snd (limiter_check (mono e) (get (limiters s))) then 1 else 0)"
    by (simp add: gated_def)
qed (rule assms(2))

interpretation browser: limited_effect is_browser url_limiter 2
  by (rule gated_law) (simp_all only: gated_step, simp add: limiters_new_def)

interpretation clipboard: limited_effect is_clipboard clipboard_set_limiter 5
  by (rule gated_law) (simp_all only: gated_step, simp add: limiters_new_def)

interpretation tunnel_bind: limited_effect is_tunnel_bind tunnel_listen_limiter 2
  by (rule gated_law) (simp_all only: gated_step, simp add: limiters_new_def)

interpretation agent_connect: limited_effect is_agent_connect agent_open_limiter 10
  by (rule gated_law) (simp_all only: gated_step, simp add: limiters_new_def)

text \<open>
  C33. A server cannot flood the user: over the whole life of a client, through every reconnect,
  in any 30 seconds it opens at most two URLs, sets the clipboard at most five times, binds at most
  two tunnel ports and connects to the agent at most ten times.
\<close>

theorem server_effects_rate_limited:
  assumes "sorted (all_instants lives)"
  shows "at_most 2 (30 * SECOND) (client_times is_browser cfg lives (client_new no_escape now))
    \<and> at_most 5 (30 * SECOND) (client_times is_clipboard cfg lives (client_new no_escape now))
    \<and> at_most 2 (30 * SECOND) (client_times is_tunnel_bind cfg lives (client_new no_escape now))
    \<and> at_most 10 (30 * SECOND) (client_times is_agent_connect cfg lives (client_new no_escape now))"
  using browser.effect_rate [OF assms] clipboard.effect_rate [OF assms] tunnel_bind.effect_rate [OF assms]
    agent_connect.effect_rate [OF assms] by blast

end
