(* ===== verification/Client_Safety.thy ===== *)
theory Client_Safety
  imports Client_Relay_Proofs
begin

text \<open>
  Whole runs of the attached client: the local ports a server can reach are those the user has
  asked for and not given back, the channels belong to known forwards, and what is typed arrives
  once and in order.
\<close>

section \<open>Forwards the user asked for\<close>

text \<open>The forwards asked for, from the events alone: a later request counts, a stop takes it back.\<close>

definition ask :: "(u32 \<rightharpoonup> u16) \<Rightarrow> ClientEnv \<times> ClientEvent \<Rightarrow> u32 \<rightharpoonup> u16" where
  "ask m x =
     (case x of (e, ev) \<Rightarrow>
        (case ev of
           FwdRequest svc (Some (direction, listen, target)) \<Rightarrow>
             (if direction = 0 then m(counter e \<mapsto> target) else m)
         | Server (Got (PortForwardStop fid)) \<Rightarrow> m(fid := None)
         | PfTask (ForwardStopped fid) \<Rightarrow> m(fid := None)
         | _ \<Rightarrow> m))"

definition asked :: "(ClientEnv \<times> ClientEvent) list \<Rightarrow> u32 \<rightharpoonup> u16" where
  "asked evs = foldl ask Map.empty evs"

text \<open>The steps of a run: the events before each, and its effects.\<close>

fun relay_steps ::
  "ClientConfig \<Rightarrow> (ClientEnv \<times> ClientEvent) list \<Rightarrow> (ClientEnv \<times> ClientEvent) list \<Rightarrow> ClientRelay
     \<Rightarrow> ((ClientEnv \<times> ClientEvent) list \<times> ClientOut list) list" where
  "relay_steps cfg before [] s = []"
| "relay_steps cfg before (x # evs) s =
     (case relay_step cfg (fst x) (snd x) s of
        (s', outs, exit) \<Rightarrow>
          (before, outs) # (if exit = None then relay_steps cfg (before @ [x]) evs s' else []))"

definition connects_to :: "ClientOut list \<Rightarrow> (u32 \<times> u16) list" where
  "connects_to outs = List.map_filter (\<lambda>out. case out of ConnectTarget fid c port \<Rightarrow> Some (fid, port) | _ \<Rightarrow> None) outs"

lemma connects_to_simps [simp]:
  "connects_to [] = []"
  "connects_to (out # outs) =
     (case out of ConnectTarget fid c port \<Rightarrow> (fid, port) # connects_to outs | _ \<Rightarrow> connects_to outs)"
  by (simp_all add: connects_to_def map_filter_simps split: ClientOut.split)

lemma connects_to_append [simp]: "connects_to (xs @ ys) = connects_to xs @ connects_to ys"
  by (induction xs) (auto split: ClientOut.split)

definition forwards_kept :: "(u32 \<rightharpoonup> u16) \<Rightarrow> ClientStep \<Rightarrow> bool" where
  "forwards_kept m r \<longleftrightarrow> client_initiated_forwards (fst r) = m \<and> connects_to (fst (snd r)) = []"

lemma forwards_kept_basic [simp]:
  "forwards_kept m (s', [], x) \<longleftrightarrow> client_initiated_forwards s' = m"
  "forwards_kept m (send_or_leave e f s') \<longleftrightarrow> client_initiated_forwards s' = m"
  "forwards_kept m (notify e f s') \<longleftrightarrow> client_initiated_forwards s' = m"
  by (auto simp: forwards_kept_def)

lemma forwards_kept_paint [simp]:
  "forwards_kept m (paint e (Stdout d) next s') \<longleftrightarrow> client_initiated_forwards s' = m"
  "forwards_kept m (paint e (Paint p c) next s') \<longleftrightarrow> client_initiated_forwards s' = m"
  by (auto simp: forwards_kept_def)

lemma forwards_kept_action: "forwards_kept (client_initiated_forwards s) (do_action cfg e a s)"
  by (cases a) (auto simp: do_action_def farewell_def forwards_kept_def client_timed_send_def Let_def split_beta)

lemma forwards_kept_actions: "forwards_kept (client_initiated_forwards s) (do_actions cfg e as s)"
proof (induction as arbitrary: s)
  case (Cons a as)
  obtain s' outs exit where a: "do_action cfg e a s = (s', outs, exit)" by (metis prod_cases3)
  with forwards_kept_action [of s cfg e a] Cons [of s'] show ?case
    by (cases exit) (auto simp: forwards_kept_def split_beta)
qed simp

lemma forwards_step:
  "client_initiated_forwards (fst (relay_step cfg e ev s)) = ask (client_initiated_forwards s) (e, ev)"
  "set (connects_to (fst (snd (relay_step cfg e ev s)))) \<subseteq> Map.graph (client_initiated_forwards s)"
proof -
  let ?r = "relay_step cfg e ev s"
  have "client_initiated_forwards (fst ?r) = ask (client_initiated_forwards s) (e, ev)
    \<and> set (connects_to (fst (snd ?r))) \<subseteq> Map.graph (client_initiated_forwards s)"
  proof (cases ev)
    case (Typed input)
    have "forwards_kept (client_initiated_forwards s) ?r"
      using forwards_kept_actions [of "s\<lparr>last_input_at := wall e, escape := st\<rparr>" for st]
      by (auto simp: Typed relay_step_def typed_def Let_def split_beta split: option.split)
    with Typed show ?thesis by (simp add: forwards_kept_def ask_def)
  next
    case (Server inc)
    show ?thesis
    proof (cases inc)
      case (Got f)
      with Server show ?thesis
        by (cases f) (auto simp: relay_step_def server_arms ask_def Let_def split_beta Map.graph_def
            split: option.split)
    qed (simp_all add: Server relay_step_def handle_server_frame_def ask_def)
  next
    case (FwdRequest svc header)
    then show ?thesis
      by (auto simp: relay_step_def handle_fwd_request_def fwd_bind_def fwd_announce_def client_timed_send_def
          ask_def Let_def split_beta split: option.split)
  next
    case (AgentTask a)
    then show ?thesis by (cases a) (auto simp: relay_step_def handle_agent_event_def ask_def)
  next
    case (TunnelTask a)
    then show ?thesis by (cases a) (auto simp: relay_step_def handle_tunnel_event_def ask_def)
  next
    case (PfTask a)
    then show ?thesis
      by (cases a) (auto simp: relay_step_def handle_pf_event_def forget_forward_def ask_def Let_def split_beta
          split: option.split)
  qed (auto simp: relay_step_def send_ping_def heartbeat_tick_def ask_def Let_def)
  then show "client_initiated_forwards (fst ?r) = ask (client_initiated_forwards s) (e, ev)"
    "set (connects_to (fst (snd ?r))) \<subseteq> Map.graph (client_initiated_forwards s)" by simp_all
qed

lemma relay_steps_asked:
  "client_initiated_forwards s = asked before \<Longrightarrow>
     list_all (\<lambda>(before, outs). set (connects_to outs) \<subseteq> Map.graph (asked before)) (relay_steps cfg before evs s)"
proof (induction evs arbitrary: before s)
  case (Cons x evs)
  obtain s' outs exit where st: "relay_step cfg (fst x) (snd x) s = (s', outs, exit)" by (metis prod_cases3)
  have "client_initiated_forwards s' = asked (before @ [x])"
    using forwards_step(1) [of cfg "fst x" "snd x" s] st Cons.prems by (simp add: asked_def)
  with Cons.IH [of s' "before @ [x]"] forwards_step(2) [of cfg "fst x" "snd x" s] st Cons.prems show ?case
    by simp
qed simp

text \<open>
  C34. A server reaches only the local ports the user has opened: at every step of every relay,
  each connection the client makes to a local port is for a forward that a \<open>gritty lf\<close> on this
  client has asked for and neither side has stopped since, and to exactly the port asked for,
  whatever port the server put into its frame.
\<close>

theorem connects_only_where_asked:
  "list_all (\<lambda>(before, outs). set (connects_to outs) \<subseteq> Map.graph (asked before))
     (relay_steps cfg [] evs (relay_start e s))"
  by (rule relay_steps_asked) (simp add: relay_start_def asked_def)

section \<open>The keyboard\<close>

text \<open>The bytes typed in a run, and the keys sent for the session.\<close>

definition typed_bytes :: "(ClientEnv \<times> ClientEvent) list \<Rightarrow> byte list" where
  "typed_bytes evs = concat (map (\<lambda>(e, ev). case ev of Typed d \<Rightarrow> d | _ \<Rightarrow> []) evs)"

definition sent_keys :: "ClientOut list \<Rightarrow> byte list" where
  "sent_keys outs = concat (map (\<lambda>out. case out of ToServer (Data d) \<Rightarrow> d | _ \<Rightarrow> []) outs)"

definition keys :: "Token list \<Rightarrow> byte list" where
  "keys ts = List.map_filter (\<lambda>t. case t of Key b \<Rightarrow> Some b | Command a \<Rightarrow> None) ts"

lemma typed_bytes_simps [simp]:
  "typed_bytes [] = []"
  "typed_bytes (x # evs) = (case snd x of Typed d \<Rightarrow> d | _ \<Rightarrow> []) @ typed_bytes evs"
  by (simp_all add: typed_bytes_def split_beta)

lemma sent_keys_simps [simp]:
  "sent_keys [] = []" "sent_keys (outs @ outs') = sent_keys outs @ sent_keys outs'"
  "sent_keys (out # outs) = (case out of ToServer (Data d) \<Rightarrow> d | _ \<Rightarrow> []) @ sent_keys outs"
  by (simp_all add: sent_keys_def)

lemma keys_simps [simp]:
  "keys [] = []" "keys (Key b # ts) = b # keys ts" "keys (Command a # ts) = keys ts"
  "keys (ts @ us) = keys ts @ keys us" "keys (map Key d) = d"
  by (simp_all add: keys_def map_filter_simps) (simp add: List.map_filter_def, induction d,
      simp_all add: map_filter_simps)

text \<open>A step that sends no keys and leaves the escape processor alone.\<close>

definition silent :: "ClientRelay \<Rightarrow> ClientStep \<Rightarrow> bool" where
  "silent s r \<longleftrightarrow> escape (fst r) = escape s \<and> sent_keys (fst (snd r)) = []"

lemma silent_event:
  assumes "\<And>d. ev \<noteq> Typed d"
  shows "silent s (relay_step cfg e ev s)"
proof (cases ev)
  case (Server inc)
  show ?thesis
  proof (cases inc)
    case (Got f)
    with Server show ?thesis
      by (cases f) (auto simp: relay_step_def server_arms silent_def Let_def split_beta split: option.split)
  qed (simp_all add: Server relay_step_def handle_server_frame_def silent_def)
next
  case (FwdRequest svc header)
  then show ?thesis
    by (auto simp: relay_step_def handle_fwd_request_def fwd_bind_def fwd_announce_def client_timed_send_def
        silent_def Let_def split_beta split: option.split)
next
  case (AgentTask a)
  then show ?thesis by (cases a) (auto simp: relay_step_def handle_agent_event_def silent_def)
next
  case (TunnelTask a)
  then show ?thesis by (cases a) (auto simp: relay_step_def handle_tunnel_event_def silent_def)
next
  case (PfTask a)
  then show ?thesis
    by (cases a) (auto simp: relay_step_def handle_pf_event_def forget_forward_def silent_def Let_def split_beta
        split: option.split)
qed (use assms in \<open>auto simp: relay_step_def send_ping_def heartbeat_tick_def silent_def Let_def\<close>)

text \<open>An action: all its keys are sent and the relay goes on, or the relay ends.\<close>

lemma do_action_keys:
  "do_action cfg e a s = (s', outs, None) \<Longrightarrow>
     sent_keys outs = keys (explode [a]) \<and> escape s' = escape s \<and> \<not> ends_relay [a]"
  "do_action cfg e a s = (s', outs, Some exit) \<Longrightarrow> sent_keys outs = []"
  by (cases a; auto simp: do_action_def farewell_def client_timed_send_def send_or_leave_def paint_def
      ends_relay_def Let_def split_beta split: if_splits)+

lemma ends_relay_Cons: "ends_relay (a # as) \<longleftrightarrow> ends_relay [a] \<or> ends_relay as"
  using ends_relay_simps(1) [of "[a]" as] by simp

lemma explode_Cons: "explode (a # as) = explode [a] @ explode as"
  by (cases a) simp_all

lemma do_actions_keys:
  "do_actions cfg e as s = (s', outs, exit) \<Longrightarrow>
     (case exit of
        None \<Rightarrow> sent_keys outs = keys (explode as) \<and> escape s' = escape s \<and> \<not> ends_relay as
      | Some x \<Rightarrow> prefix (sent_keys outs) (keys (explode as)))"
proof (induction as arbitrary: s s' outs exit)
  case (Cons a as)
  obtain s1 outs1 exit1 where a: "do_action cfg e a s = (s1, outs1, exit1)" by (metis prod_cases3)
  show ?case
  proof (cases exit1)
    case None
    obtain s2 outs2 exit2 where as: "do_actions cfg e as s1 = (s2, outs2, exit2)" by (metis prod_cases3)
    note first = do_action_keys(1) [OF a [unfolded None]]
    have r: "s' = s2" "outs = outs1 @ outs2" "exit = exit2" using Cons.prems a None as by auto
    show ?thesis
      using Cons.IH [OF as] first r
      by (cases exit2) (simp_all add: explode_Cons [of a as] ends_relay_Cons [of a as])
  next
    case (Some x)
    with Cons.prems a do_action_keys(2) [of cfg e a s s1 outs1 x] show ?thesis by auto
  qed
qed simp

lemma typed_keys:
  assumes "escape s = Some st" and "typed cfg e d s = (s', outs, exit)"
  shows "case exit of
      None \<Rightarrow> (\<exists>st'. escape s' = Some st' \<and> (\<forall>r. keys (meaning st (d @ r)) = sent_keys outs @ keys (meaning st' r)))
    | Some x \<Rightarrow> (\<forall>r. prefix (sent_keys outs) (keys (meaning st (d @ r))))"
proof (cases "link_is_stale (last_activity s) (hb_timeout cfg) (wall e)")
  case True
  with assms show ?thesis by (auto simp: typed_def)
next
  case False
  obtain st' acts where p: "process st d = (st', acts)" by (metis prod.exhaust)
  have m: "meaning st (d @ r) = explode acts @ (if ends_relay acts then [] else meaning st' r)" for r
    using process_meaning [of st "[]" d st' acts r] p by (simp add: process_def)
  have "do_actions cfg e acts (s\<lparr>last_input_at := wall e, escape := Some st'\<rparr>) = (s', outs, exit)"
    using assms False p by (simp add: typed_def Let_def)
  from do_actions_keys [OF this] show ?thesis
    by (cases exit) (auto simp: m)
qed

lemma run_keys:
  "escape s = Some st \<Longrightarrow> relay_run cfg evs s = (s', outs, exit) \<Longrightarrow>
     (case exit of
        None \<Rightarrow> sent_keys outs = keys (meaning st (typed_bytes evs))
      | Some x \<Rightarrow> prefix (sent_keys outs) (keys (meaning st (typed_bytes evs))))"
proof (induction evs arbitrary: s st s' outs exit)
  case Nil
  then show ?case by (cases st) auto
next
  case (Cons x evs)
  obtain e ev where x: "x = (e, ev)" by (cases x)
  obtain s1 outs1 exit1 where a: "relay_step cfg e ev s = (s1, outs1, exit1)" by (metis prod_cases3)
  obtain s2 outs2 exit2 where r: "relay_run cfg evs s1 = (s2, outs2, exit2)" by (metis prod_cases3)
  show ?case
  proof (cases "\<exists>d. ev = Typed d")
    case True
    then obtain d where d: "ev = Typed d" by blast
    with a have t: "typed cfg e d s = (s1, outs1, exit1)" by (simp add: relay_step_def)
    show ?thesis
    proof (cases exit1)
      case None
      with typed_keys [OF Cons.prems(1) t] obtain st' where st': "escape s1 = Some st'"
        "\<And>r. keys (meaning st (d @ r)) = sent_keys outs1 @ keys (meaning st' r)" by auto
      from Cons.IH [OF st'(1) r] Cons.prems(2) x d a None r st'(2) show ?thesis
        by (cases exit2) auto
    next
      case (Some y)
      with typed_keys [OF Cons.prems(1) t] Cons.prems(2) x d a show ?thesis by auto
    qed
  next
    case False
    then have "silent s (s1, outs1, exit1)" using silent_event [of ev s cfg e] a by auto
    then have q: "escape s1 = Some st" "sent_keys outs1 = []" using Cons.prems(1) by (auto simp: silent_def)
    have ty: "typed_bytes (x # evs) = typed_bytes evs" using False x by (cases ev) auto
    show ?thesis
    proof (cases exit1)
      case None
      from Cons.IH [OF q(1) r] Cons.prems(2) x a None r q(2) ty show ?thesis by (cases exit2) auto
    next
      case (Some y)
      with Cons.prems(2) x a q(2) show ?thesis by auto
    qed
  qed
qed

text \<open>
  C35. What is typed arrives: over every relay with escapes enabled, whatever else happens and
  however the terminal cuts the input, the bytes sent as input are exactly the keys of the typed
  text, in order, each once, with the escape commands taken out; when the relay ends they are the
  keys up to some point.
\<close>

theorem typed_keys_sent_in_order:
  "case relay_run cfg evs (relay_start e (client_new False now)) of
     (s', outs, None) \<Rightarrow> sent_keys outs = keys (tokens True (typed_bytes evs))
   | (s', outs, Some exit) \<Rightarrow> prefix (sent_keys outs) (keys (tokens True (typed_bytes evs)))"
proof -
  obtain s' outs exit where r: "relay_run cfg evs (relay_start e (client_new False now)) = (s', outs, exit)"
    by (metis prod_cases3)
  have "escape (relay_start e (client_new False now)) = Some AfterNewline"
    by (simp add: relay_start_def client_new_def escape_new_def)
  from run_keys [OF this r] show ?thesis by (cases exit) (simp_all add: r)
qed

end
