(* ===== verification/Client_Reconnect.thy ===== *)
theory Client_Reconnect
  imports Client_Relay
begin

text \<open>
  The reconnect loop of \<open>run\<close> in \<open>src/src/client.rs\<close>: the persistence gates, the backoff, the
  classification of an attempt and the loop, one definition for an iteration.  Times are
  nanoseconds of the monotonic clock; what the operating system, the supervisor's lock and the
  server show to an iteration is its environment.
\<close>

section \<open>Backoff\<close>

abbreviation (input) RECONNECT_BACKOFF_INITIAL :: nat where "RECONNECT_BACKOFF_INITIAL \<equiv> SECOND"
abbreviation (input) RECONNECT_BACKOFF_MAX :: nat where "RECONNECT_BACKOFF_MAX \<equiv> 10 * SECOND"
abbreviation (input) SOCKET_GONE_GRACE :: nat where "SOCKET_GONE_GRACE \<equiv> 3 * SECOND"
abbreviation (input) DAEMON_GONE_GRACE :: nat where "DAEMON_GONE_GRACE \<equiv> 5 * SECOND"
abbreviation (input) RECONNECT_CHROME_DELAY :: nat where "RECONNECT_CHROME_DELAY \<equiv> SECOND"

definition next_reconnect_delay :: "nat \<Rightarrow> nat" where
  "next_reconnect_delay prev =
     (if prev < RECONNECT_BACKOFF_INITIAL then RECONNECT_BACKOFF_INITIAL else min (prev * 2) RECONNECT_BACKOFF_MAX)"

record PersistenceGate =
  grace :: nat
  since :: "nat option"

definition gate_new :: "nat \<Rightarrow> PersistenceGate" where
  "gate_new g = \<lparr>grace = g, since = None\<rparr>"

definition gate_exceeded :: "bool \<Rightarrow> nat \<Rightarrow> PersistenceGate \<Rightarrow> PersistenceGate \<times> bool" where
  "gate_exceeded present now g =
     (if \<not> present then (g\<lparr>since := None\<rparr>, False)
      else
        (let t = (case since g of Some t \<Rightarrow> t | None \<Rightarrow> now)
         in (g\<lparr>since := Some t\<rparr>, grace g \<le> now - t)))"

definition gate_reset :: "PersistenceGate \<Rightarrow> PersistenceGate" where
  "gate_reset g = g\<lparr>since := None\<rparr>"

definition gate_streak :: "nat \<Rightarrow> PersistenceGate \<Rightarrow> nat option" where
  "gate_streak now g = map_option (\<lambda>t. now - t) (since g)"

definition gate_remaining :: "nat \<Rightarrow> PersistenceGate \<Rightarrow> nat option" where
  "gate_remaining now g = map_option (\<lambda>held. grace g - held) (gate_streak now g)"

definition cap_backoff :: "nat \<Rightarrow> PersistenceGate list \<Rightarrow> nat \<Rightarrow> nat" where
  "cap_backoff sleep_for gates now = foldl min sleep_for (List.map_filter (gate_remaining now) gates)"

section \<open>One attempt\<close>

text \<open>\<open>Frame::expect_from\<close> and \<open>handshake\<close>: what the server's first frame leads to.\<close>

datatype Incoming = Frm Frame | DecodeError rstring | Ended | NoReply

definition expect_from :: "Incoming \<Rightarrow> rstring + Frame" where
  "expect_from inc =
     (case inc of
        Frm f \<Rightarrow> Inr f
      | DecodeError err \<Rightarrow> Inl (ascii ''daemon protocol error: '' @ err)
      | _ \<Rightarrow> Inl (ascii ''daemon closed connection''))"

definition handshake :: "rstring option \<Rightarrow> (Frame \<Rightarrow> rstring) \<Rightarrow> Incoming \<Rightarrow> rstring + (u16 \<times> u32 \<times> u64)" where
  "handshake send_error debug reply =
     (case send_error of
        Some err \<Rightarrow> Inl err
      | None \<Rightarrow>
          (if reply = NoReply then Inl (ascii ''handshake timed out after 10s'')
           else
             (case expect_from reply of
                Inl err \<Rightarrow> Inl err
              | Inr f \<Rightarrow>
                  (case f of
                     HelloAck version capabilities server_id \<Rightarrow> Inr (version, and CAP_CLIPBOARD capabilities, server_id)
                   | Error code message \<Rightarrow> Inl (ascii ''handshake rejected: '' @ message)
                   | _ \<Rightarrow> Inl (ascii ''expected HelloAck, got '' @ debug f)))))"

definition is_terminal_handshake_err :: "rstring \<Rightarrow> bool \<Rightarrow> bool" where
  "is_terminal_handshake_err msg tunnel_supervisor_alive =
     (if starts_with msg (ascii ''handshake rejected'') then True
      else if tunnel_supervisor_alive then False
      else starts_with msg (ascii ''daemon closed connection'') \<or> starts_with msg (ascii ''daemon protocol error''))"

datatype Connect = Refused | ConnectError | Opened

datatype Attempt =
    Connected
  | SessionGone rstring
  | ServerRestarted
  | OwnerChanged
  | VersionMismatch u16
  | HandshakeErr rstring
  | DaemonGone
  | Retry
  | TimedOut

text \<open>The frame sent, and the outcome; \<open>TimedOut\<close> is the elapsed timeout around the attempt.\<close>

definition attach_frame :: "u32 \<Rightarrow> rstring \<Rightarrow> u16 \<times> u16 \<Rightarrow> u64 \<Rightarrow> u64 \<Rightarrow> bool \<Rightarrow> Frame" where
  "attach_frame session_id client sz device offset line_dirty =
     Attach (dec (unat session_id)) client True False (fst sz) (snd sz) device offset line_dirty"

definition attempt_outcome ::
  "u64 \<Rightarrow> bool \<Rightarrow> Connect \<Rightarrow> rstring + (u16 \<times> u32 \<times> u64) \<Rightarrow> bool \<Rightarrow> Incoming \<Rightarrow> Attempt" where
  "attempt_outcome expected_server_id tunnel_supervisor_alive conn shake sent reply =
     (case conn of
        Refused \<Rightarrow> (if tunnel_supervisor_alive then Retry else DaemonGone)
      | ConnectError \<Rightarrow> Retry
      | Opened \<Rightarrow>
          (case shake of
             Inl msg \<Rightarrow> HandshakeErr msg
           | Inr (version, capabilities, server_id) \<Rightarrow>
               (if server_id \<noteq> expected_server_id then ServerRestarted
                else if version \<noteq> PROTOCOL_VERSION then VersionMismatch version
                else if \<not> sent then Retry
                else
                  (case reply of
                     Frm (AttachAck token i) \<Rightarrow> Connected
                   | Frm (Error code message) \<Rightarrow>
                       (if code = AlreadyAttached then Retry
                        else if code = ErrorCode.OwnerChanged then OwnerChanged
                        else SessionGone message)
                   | _ \<Rightarrow> Retry))))"

section \<open>The loop\<close>

record Reconnect =
  backoff :: nat
  was_offline :: bool
  reconnect_started :: nat
  socket_gone :: PersistenceGate
  daemon_gone :: PersistenceGate
  chrome_shown :: bool

definition reconnect_new :: "nat \<Rightarrow> Reconnect" where
  "reconnect_new now =
     \<lparr>backoff = 0, was_offline = False, reconnect_started = now, socket_gone = gate_new SOCKET_GONE_GRACE,
      daemon_gone = gate_new DAEMON_GONE_GRACE, chrome_shown = False\<rparr>"

text \<open>
  What ends the wait of an iteration, after some ticks at given times.  \<open>StdinClosed\<close>, \<open>CtrlC\<close> and
  \<open>Signalled\<close> leave the client; keys are only read once the chrome delay has passed.
\<close>

datatype Wake = Slept | NetHint | KeyHint | CtrlC | StdinClosed | Signalled

record Iteration =
  it_start :: nat
  it_ticks :: "nat list"
  it_wake :: Wake
  it_woken :: nat
  it_unsatisfied :: bool
  it_socket_exists :: bool
  it_supervisor :: bool
  it_timed_out :: bool
  it_connect :: Connect
  it_handshake :: "rstring + (u16 \<times> u32 \<times> u64)"
  it_attach_sent :: bool
  it_reply :: Incoming
  it_attempted :: nat

text \<open>What stays fixed: whether the socket is a tunnel's, whether chrome may be painted, the daemon's id.\<close>

record Target =
  is_remote :: bool
  show_chrome :: bool
  expected_server_id :: u64

datatype Verdict =
    Resumed
  | UserQuit
  | SocketGoneQuit
  | DaemonGoneQuit
  | ServerQuit Attempt

text \<open>\<open>paint_reconnect_status\<close>: whether the status line is shown afterwards.\<close>

definition paint_reconnect_status :: "bool \<Rightarrow> nat \<Rightarrow> nat \<Rightarrow> bool \<Rightarrow> bool \<Rightarrow> bool" where
  "paint_reconnect_status chrome started now first_paint_ok shown =
     (if chrome \<and> RECONNECT_CHROME_DELAY \<le> now - started then shown \<or> first_paint_ok else shown)"

definition scheduled_wait :: "Reconnect \<Rightarrow> nat \<Rightarrow> nat" where
  "scheduled_wait r now = cap_backoff (next_reconnect_delay (backoff r)) [socket_gone r, daemon_gone r] now"

text \<open>The wait: the ticks paint the status line.\<close>

definition wait_painted :: "Target \<Rightarrow> Iteration \<Rightarrow> Reconnect \<Rightarrow> Reconnect" where
  "wait_painted tg it r =
     r\<lparr>chrome_shown :=
         fold (\<lambda>t. paint_reconnect_status (show_chrome tg) (reconnect_started r) t True) (it_ticks it) (chrome_shown r)\<rparr>"

text \<open>What the outcome of an attempt does to the loop.\<close>

definition retry_soon :: "bool \<Rightarrow> Reconnect \<Rightarrow> Reconnect" where
  "retry_soon supervisor r =
     r\<lparr>daemon_gone := gate_reset (daemon_gone r), backoff := (if supervisor then 0 else backoff r)\<rparr>"

definition attempt_of :: "Target \<Rightarrow> Iteration \<Rightarrow> Attempt" where
  "attempt_of tg it =
     (if it_timed_out it then TimedOut
      else attempt_outcome (expected_server_id tg) (it_supervisor it) (it_connect it) (it_handshake it)
             (it_attach_sent it) (it_reply it))"

definition after_attempt :: "Iteration \<Rightarrow> Attempt \<Rightarrow> Reconnect \<Rightarrow> Reconnect \<times> Verdict option" where
  "after_attempt it a r =
     (case a of
        Connected \<Rightarrow> (r, Some Resumed)
      | HandshakeErr msg \<Rightarrow>
          (if is_terminal_handshake_err msg (it_supervisor it) then (r, Some (ServerQuit a))
           else (retry_soon (it_supervisor it) r, None))
      | DaemonGone \<Rightarrow>
          (let (g, over) = gate_exceeded True (it_attempted it) (daemon_gone r)
           in (r\<lparr>daemon_gone := g\<rparr>, if over then Some DaemonGoneQuit else None))
      | Retry \<Rightarrow> (retry_soon (it_supervisor it) r, None)
      | TimedOut \<Rightarrow> (retry_soon (it_supervisor it) r, None)
      | _ \<Rightarrow> (r, Some (ServerQuit a)))"

text \<open>The part of an iteration after the path-status gate.\<close>

definition try_reconnect :: "Target \<Rightarrow> Iteration \<Rightarrow> nat \<Rightarrow> bool \<Rightarrow> Reconnect \<Rightarrow> Reconnect \<times> Verdict option" where
  "try_reconnect tg it sleep_for net_hint r =
     (let key_hint = (it_wake it = KeyHint);
          r = r\<lparr>backoff := (if net_hint then 0 else if \<not> key_hint then sleep_for else backoff r)\<rparr>;
          gone = (\<not> it_socket_exists it \<and> \<not> it_supervisor it);
          (g, over) = gate_exceeded gone (it_woken it) (socket_gone r);
          r = r\<lparr>socket_gone := g\<rparr>
      in if over then (r, Some SocketGoneQuit)
         else if gone then (r, None)
         else
           (let r = (if key_hint
                     then r\<lparr>chrome_shown := paint_reconnect_status (show_chrome tg) (reconnect_started r) (it_woken it)
                              True (chrome_shown r)\<rparr>
                     else r)
            in after_attempt it (attempt_of tg it) r))"

definition reconnect_step :: "Target \<Rightarrow> Iteration \<Rightarrow> Reconnect \<Rightarrow> Reconnect \<times> Verdict option" where
  "reconnect_step tg it r =
     (let sleep_for = next_reconnect_delay (backoff r);
          r = wait_painted tg it r
      in case it_wake it of
           CtrlC \<Rightarrow> (r, Some UserQuit)
         | StdinClosed \<Rightarrow> (r, Some UserQuit)
         | Signalled \<Rightarrow> (r, Some UserQuit)
         | w \<Rightarrow>
             (let offline_now = (is_remote tg \<and> it_unsatisfied it) in
              if offline_now \<and> w \<noteq> KeyHint then (r\<lparr>was_offline := True\<rparr>, None)
              else if \<not> offline_now \<and> was_offline r then
                try_reconnect tg it sleep_for True
                  (r\<lparr>was_offline := False, reconnect_started := it_woken it\<rparr>)
              else try_reconnect tg it sleep_for (w = NetHint) r))"

fun reconnect_run :: "Target \<Rightarrow> Iteration list \<Rightarrow> Reconnect \<Rightarrow> Reconnect \<times> Verdict option" where
  "reconnect_run tg [] r = (r, None)"
| "reconnect_run tg (it # its) r =
     (case reconnect_step tg it r of
        (r', None) \<Rightarrow> reconnect_run tg its r'
      | (r', Some v) \<Rightarrow> (r', Some v))"

text \<open>The line that ends the client, and the frames' \<open>line_dirty\<close>.\<close>

definition daemon_gone_message :: "bool \<Rightarrow> rstring" where
  "daemon_gone_message remote =
     (if remote
      then ascii ''lost the tunnel and its supervisor is gone -- run `gritty connect <host>` to re-establish it''
      else ascii ''daemon appears to have crashed -- session is gone; run `gritty server` to restart it'')"

end
