(* ===== verification/Client_Reconnect_Proofs.thy ===== *)
theory Client_Reconnect_Proofs
  imports Client_Reconnect
begin

text \<open>
  When the reconnect loop gives up: never while the supervisor of the tunnel lives unless the server
  itself refuses; soon when nothing is left to come back; and what the persistence gates do while
  the loop is parked without a network.
\<close>

section \<open>A living supervisor\<close>

text \<open>A verdict that is the user's or was spoken by the server.\<close>

definition spoken :: "Attempt \<Rightarrow> bool" where
  "spoken a =
     (case a of
        HandshakeErr msg \<Rightarrow> starts_with msg (ascii ''handshake rejected'')
      | SessionGone message \<Rightarrow> True
      | ServerRestarted \<Rightarrow> True
      | OwnerChanged \<Rightarrow> True
      | VersionMismatch v \<Rightarrow> True
      | _ \<Rightarrow> False)"

definition legitimate :: "Verdict option \<Rightarrow> bool" where
  "legitimate v =
     (case v of
        Some SocketGoneQuit \<Rightarrow> False
      | Some DaemonGoneQuit \<Rightarrow> False
      | Some (ServerQuit a) \<Rightarrow> spoken a
      | _ \<Rightarrow> True)"

lemma supervised_attempt:
  assumes "it_supervisor it"
  shows "legitimate (snd (after_attempt it (attempt_of tg it) r))"
proof -
  have "attempt_of tg it \<noteq> DaemonGone"
    using assms by (auto simp: attempt_of_def attempt_outcome_def split: Connect.split sum.split Incoming.split Frame.split)
  then show ?thesis
    using assms by (cases "attempt_of tg it")
      (auto simp: after_attempt_def legitimate_def spoken_def is_terminal_handshake_err_def)
qed

lemma supervised_step:
  assumes "it_supervisor it"
  shows "legitimate (snd (reconnect_step tg it r))"
proof -
  have t: "legitimate (snd (try_reconnect tg it sleep_for net_hint r'))" for sleep_for net_hint r'
    using assms supervised_attempt [OF assms]
    by (simp add: try_reconnect_def gate_exceeded_def Let_def)
  show ?thesis
    by (cases "it_wake it") (auto simp: reconnect_step_def Let_def t, auto simp: legitimate_def)
qed

text \<open>
  C36. A living tunnel is never given up: whatever the iterations of the reconnect loop observe, as
  long as the supervisor holds its lock the loop ends only when it has reattached, when the user
  ends it, or when a server has answered and refused.
\<close>

theorem supervised_client_keeps_trying:
  assumes "list_all it_supervisor its"
  shows "legitimate (snd (reconnect_run tg its r))"
  using assms
proof (induction its arbitrary: r)
  case (Cons it its)
  obtain r' v where s: "reconnect_step tg it r = (r', v)" by (metis prod.exhaust)
  with supervised_step [of it tg r] Cons.prems Cons.IH [of r'] show ?case
    by (cases v) auto
qed (simp add: legitimate_def)

section \<open>Nothing left\<close>

text \<open>
  A loop left to itself: every wait is served, then \<open>d\<close> passes before the loop wakes and \<open>a\<close> until
  the attempt has failed.
\<close>

fun served_run :: "Target \<Rightarrow> Iteration \<Rightarrow> (nat \<times> nat) list \<Rightarrow> nat \<Rightarrow> Reconnect \<Rightarrow> Reconnect \<times> Verdict option" where
  "served_run tg it [] now r = (r, None)"
| "served_run tg it ((d, a) # ds) now r =
     (let woken = now + scheduled_wait r now + d;
          it' = it\<lparr>it_start := now, it_wake := Slept, it_woken := woken, it_attempted := woken + a\<rparr>
      in case reconnect_step tg it' r of
           (r', None) \<Rightarrow> served_run tg it ds (woken + a) r'
         | (r', Some v) \<Rightarrow> (r', Some v))"

lemma wait_painted_simps [simp]:
  "backoff (wait_painted tg it r) = backoff r" "was_offline (wait_painted tg it r) = was_offline r"
  "socket_gone (wait_painted tg it r) = socket_gone r" "daemon_gone (wait_painted tg it r) = daemon_gone r"
  by (simp_all add: wait_painted_def)

lemmas loop_defs = reconnect_step_def try_reconnect_def after_attempt_def attempt_of_def attempt_outcome_def
  scheduled_wait_def cap_backoff_def gate_exceeded_def gate_remaining_def gate_streak_def next_reconnect_delay_def

text \<open>One served iteration in terms of the gate that counts.\<close>

lemma missing_step:
  assumes "\<not> it_socket_exists it" "\<not> it_supervisor it" "\<not> it_unsatisfied it" "it_wake it = Slept" "\<not> was_offline r"
  shows "reconnect_step tg it r =
    (case gate_exceeded True (it_woken it) (socket_gone r) of
       (g, over) \<Rightarrow> ((wait_painted tg it r)\<lparr>backoff := next_reconnect_delay (backoff r), socket_gone := g\<rparr>,
                     if over then Some SocketGoneQuit else None))"
  using assms by (simp add: reconnect_step_def try_reconnect_def Let_def split_beta)

lemma refused_step:
  assumes "it_socket_exists it" "\<not> it_supervisor it" "\<not> it_unsatisfied it" "it_wake it = Slept" "\<not> was_offline r"
    and "\<not> it_timed_out it" "it_connect it = Refused"
  shows "reconnect_step tg it r =
    (case gate_exceeded True (it_attempted it) (daemon_gone r) of
       (g, over) \<Rightarrow> ((wait_painted tg it r)\<lparr>backoff := next_reconnect_delay (backoff r),
                       socket_gone := gate_reset (socket_gone r), daemon_gone := g\<rparr>,
                     if over then Some DaemonGoneQuit else None))"
  using assms
  by (simp add: reconnect_step_def try_reconnect_def after_attempt_def attempt_of_def attempt_outcome_def
      gate_exceeded_def [of False] gate_reset_def Let_def split_beta)

lemma scheduled_wait_gates:
  "since (daemon_gone r) = None \<Longrightarrow> since (socket_gone r) = None \<Longrightarrow>
     scheduled_wait r now = next_reconnect_delay (backoff r)"
  "since (daemon_gone r) = None \<Longrightarrow> since (socket_gone r) = Some t \<Longrightarrow>
     scheduled_wait r now = min (next_reconnect_delay (backoff r)) (grace (socket_gone r) - (now - t))"
  "since (daemon_gone r) = Some t \<Longrightarrow> since (socket_gone r) = None \<Longrightarrow>
     scheduled_wait r now = min (next_reconnect_delay (backoff r)) (grace (daemon_gone r) - (now - t))"
  by (simp_all add: scheduled_wait_def cap_backoff_def gate_remaining_def gate_streak_def map_filter_simps)

lemma delays: "next_reconnect_delay 0 = SECOND" "next_reconnect_delay SECOND = 2 * SECOND"
  "next_reconnect_delay 2000000000 = 4 * SECOND"
  by (simp_all add: next_reconnect_delay_def)

lemma gate_exceeded_simps [simp]:
  "gate_exceeded True now \<lparr>grace = g, since = None\<rparr> = (\<lparr>grace = g, since = Some now\<rparr>, g = 0)"
  "gate_exceeded True now \<lparr>grace = g, since = Some t\<rparr> = (\<lparr>grace = g, since = Some t\<rparr>, g \<le> now - t)"
  by (simp_all add: gate_exceeded_def)

lemma missing_socket_given_up:
  "snd (served_run tg (it\<lparr>it_unsatisfied := False, it_supervisor := False, it_socket_exists := False\<rparr>)
       [(d1, a1), (d2, a2), (d3, a3)] now (reconnect_new now)) = Some SocketGoneQuit"
  by (simp add: missing_step scheduled_wait_gates delays reconnect_new_def gate_new_def Let_def; linarith)

lemma refusing_socket_given_up:
  "snd (served_run tg (it\<lparr>it_unsatisfied := False, it_supervisor := False, it_socket_exists := True,
         it_timed_out := False, it_connect := Refused\<rparr>)
       [(d1, a1), (d2, a2), (d3, a3)] now (reconnect_new now)) = Some DaemonGoneQuit"
  by (simp add: refused_step scheduled_wait_gates delays reconnect_new_def gate_new_def gate_reset_def Let_def; linarith)

text \<open>
  C37. What cannot come back is given up: with a network, no supervisor, and nobody at the keyboard,
  the loop ends within three iterations of the start, however late each wakes, when the control
  socket is missing, and so it does when the socket refuses connections.
\<close>

theorem abandoned_session_given_up:
  "snd (served_run tg (it\<lparr>it_unsatisfied := False, it_supervisor := False, it_socket_exists := False\<rparr>)
       [(d1, a1), (d2, a2), (d3, a3)] now (reconnect_new now)) = Some SocketGoneQuit
   \<and> snd (served_run tg (it\<lparr>it_unsatisfied := False, it_supervisor := False, it_socket_exists := True,
         it_timed_out := False, it_connect := Refused\<rparr>)
       [(d1, a1), (d2, a2), (d3, a3)] now (reconnect_new now)) = Some DaemonGoneQuit"
  using missing_socket_given_up refusing_socket_given_up by blast

section \<open>Parked without a network\<close>

text \<open>
  A tunnel's client: one attempt is refused with no supervisor at one second; then the network is
  gone and the loop is parked; at \<open>t\<close> it looks again.
\<close>

definition tunnel_target :: Target where
  "tunnel_target = \<lparr>is_remote = True, show_chrome = True, expected_server_id = 1\<rparr>"

definition refused_at :: "nat \<Rightarrow> Iteration" where
  "refused_at t =
     \<lparr>it_start = t, it_ticks = [], it_wake = Slept, it_woken = t, it_unsatisfied = False,
      it_socket_exists = True, it_supervisor = False, it_timed_out = False, it_connect = Refused,
      it_handshake = Inl [], it_attach_sent = False, it_reply = Ended, it_attempted = t\<rparr>"

definition parked_at :: "nat \<Rightarrow> Iteration" where
  "parked_at t = (refused_at t)\<lparr>it_unsatisfied := True\<rparr>"

lemma parked_loop:
  "reconnect_run tunnel_target (replicate n (parked_at t)) (r\<lparr>was_offline := True\<rparr>) = (r\<lparr>was_offline := True\<rparr>, None)"
proof (induction n)
  case (Suc n)
  have "reconnect_step tunnel_target (parked_at t) (r\<lparr>was_offline := True\<rparr>) = (r\<lparr>was_offline := True\<rparr>, None)"
    by (simp add: reconnect_step_def wait_painted_def parked_at_def refused_at_def tunnel_target_def)
  with Suc show ?case by simp
qed simp

lemma reconnect_run_append:
  "reconnect_run tg (its @ its') r =
     (case reconnect_run tg its r of (r', None) \<Rightarrow> reconnect_run tg its' r' | (r', Some v) \<Rightarrow> (r', Some v))"
  by (induction its arbitrary: r) (auto split: prod.split option.split)

definition refused_state :: Reconnect where
  "refused_state = fst (reconnect_step tunnel_target (refused_at SECOND) (reconnect_new 0))"

lemma refused_state:
  "refused_state = (reconnect_new 0)\<lparr>backoff := SECOND,
     daemon_gone := \<lparr>grace = DAEMON_GONE_GRACE, since = Some SECOND\<rparr>\<rparr>"
  by (simp add: refused_state_def loop_defs wait_painted_def refused_at_def tunnel_target_def reconnect_new_def
      gate_new_def Let_def)

lemma refused_first: "reconnect_step tunnel_target (refused_at SECOND) (reconnect_new 0) = (refused_state, None)"
  by (simp add: prod_eq_iff refused_state_def)
    (simp add: loop_defs wait_painted_def refused_at_def tunnel_target_def reconnect_new_def gate_new_def Let_def)

lemma parked_state:
  "reconnect_run tunnel_target (refused_at SECOND # replicate (Suc n) (parked_at t)) (reconnect_new 0)
     = (refused_state\<lparr>was_offline := True\<rparr>, None)"
proof -
  have "reconnect_step tunnel_target (parked_at t) refused_state = (refused_state\<lparr>was_offline := True\<rparr>, None)"
    by (simp add: reconnect_step_def wait_painted_def parked_at_def refused_at_def tunnel_target_def)
  with parked_loop [of n t refused_state] show ?thesis by (simp add: refused_first)
qed

text \<open>
  A parked client spins, and counts the time it did not look: after one refused attempt, once
  the loop is parked for want of a network and five more seconds are over, every further wait is
  zero for as long as the network is away; and when it is back, the first refused attempt is
  taken as the condition having held throughout and ends the client.
\<close>

theorem parked_client_spins:
  "case reconnect_run tunnel_target (refused_at SECOND # replicate (Suc n) (parked_at (6 * SECOND + t))) (reconnect_new 0) of
     (r, v) \<Rightarrow> v = None \<and> scheduled_wait r (6 * SECOND + t) = 0
       \<and> snd (reconnect_step tunnel_target (refused_at (6 * SECOND + t)) r) = Some DaemonGoneQuit"
  by (simp only: parked_state prod.case) (simp add: refused_state loop_defs wait_painted_def refused_at_def tunnel_target_def
      reconnect_new_def gate_new_def Let_def map_filter_simps)

end
