(* ===== verification/Client_Witnesses.thy ===== *)
theory Client_Witnesses
  imports Client_Safety Client_Reconnect_Proofs
begin

text \<open>The properties of the client that have hypotheses, each at a concrete run.\<close>

definition env_at :: "nat \<Rightarrow> ClientEnv" where
  "env_at t =
     \<lparr>wall = t, mono = t, link_up = True, stdout_ok = True, chan_full = (\<lambda>_. False), agent_connects = True,
      tcp_connects = (\<lambda>_. True), tcp_binds = (\<lambda>_. True), counter = 2, fresh_chan = 0, term_size = (80, 24),
      bind_error = [], suspends = True, wall_resumed = t\<rparr>"

definition open_config :: ClientConfig where
  "open_config =
     \<lparr>agent_socket = True, agent_idle_timeout = None, oauth_redirect = True, forward_open = True,
      hb_interval = 10, hb_timeout = 60\<rparr>"

definition open_url :: "nat \<Rightarrow> ClientEnv \<times> ClientEvent" where
  "open_url t = (env_at t, Server (Got (OpenUrl (ascii ''http://x''))))"

text \<open>Two URLs, a reconnect, then a third within the window: the third is not opened.\<close>

definition flood :: "(ClientEnv \<times> (ClientEnv \<times> ClientEvent) list) list" where
  "flood = [(env_at 1, [open_url 2, open_url 3]), (env_at 4, [open_url 5])]"

lemma flood_times: "client_times is_browser open_config flood (client_new False 0) = [2, 3]"
  by (simp add: flood_def open_url_def env_at_def open_config_def relay_step_def handle_server_frame_def
      got_open_url_def limiter_check_def client_new_def relay_start_def limiters_new_def limiter_new_def
      starts_with_def is_browser_def Let_def)

theorem server_effects_rate_limited_witness:
  "sorted (all_instants flood) \<and> at_most 2 (30 * SECOND) [2, 3]"
proof -
  have "sorted (all_instants flood)" by (simp add: flood_def open_url_def env_at_def)
  with server_effects_rate_limited [of flood open_config False 0] show ?thesis
    by (simp add: flood_times)
qed

text \<open>Attempts that are refused for a minute while the supervisor holds its lock.\<close>

definition respawning :: "nat \<Rightarrow> Iteration" where
  "respawning t = (refused_at t)\<lparr>it_supervisor := True\<rparr>"

theorem supervised_client_keeps_trying_witness:
  "list_all it_supervisor [respawning SECOND, respawning (60 * SECOND)]
    \<and> legitimate (snd (reconnect_run tunnel_target [respawning SECOND, respawning (60 * SECOND)] (reconnect_new 0)))"
proof -
  have "list_all it_supervisor [respawning SECOND, respawning (60 * SECOND)]" by (simp add: respawning_def)
  then show ?thesis using supervised_client_keeps_trying by blast
qed

end
