(* ===== verification/Naming.thy ===== *)
theory Naming
  imports Protocol Scanners
begin

text \<open>
  Session names and durations as users write and read them: \<open>src/src/naming.rs\<close>,
  \<open>parse_duration\<close> of \<open>src/src/lib.rs\<close> and the small parsers and formatters of
  \<open>src/src/commands/util.rs\<close>.
\<close>

section \<open>Namespaces\<close>

abbreviation (input) SLASH :: byte where "SLASH \<equiv> 0x2F"
abbreviation (input) COLON :: byte where "COLON \<equiv> 0x3A"

definition resolve_session_name :: "rstring \<Rightarrow> rstring \<Rightarrow> rstring" where
  "resolve_session_name n client =
     (if n = ascii ''-'' then n else if SLASH \<in> set n then n else client @ SLASH # n)"

definition display_session_name :: "rstring \<Rightarrow> rstring \<Rightarrow> rstring" where
  "display_session_name wire client =
     (if client = [] then wire
      else if length client + 1 < length wire \<and> starts_with wire client \<and> wire ! length client = SLASH
      then drop (length client + 1) wire
      else wire)"

text \<open>The encodings of the control characters.\<close>

definition control_chars :: "rstring list" where
  "control_chars =
     map (\<lambda>n. [word_of_nat n]) ([0..<0x20] @ [0x7F]) @ map (\<lambda>n. [0xC2, word_of_nat n]) [0x80..<0xA0]"

datatype NameRejected = EmptyName | HasSlash | HasSpaceOrControl

definition validate_client_name :: "rstring \<Rightarrow> NameRejected option" where
  "validate_client_name s =
     (if s = [] then Some EmptyName
      else if SLASH \<in> set s then Some HasSlash
      else if list_ex (\<lambda>w. contains w s) (whitespace @ control_chars) then Some HasSpaceOrControl
      else None)"

definition sanitize_client_name :: "rstring \<Rightarrow> rstring" where
  "sanitize_client_name candidate =
     (case validate_client_name candidate of None \<Rightarrow> candidate | Some _ \<Rightarrow> ascii ''unknown'')"

text \<open>
  What a user is shown leads back to the session: a displayed name, typed again, names the session
  it was shown for -- unless the name under the user's own prefix is \<open>-\<close> or has itself a slash, in
  which case it names another, or unless the session has no namespace and is not \<open>-\<close>.
\<close>

theorem displayed_name_resolves_iff:
  "resolve_session_name (display_session_name wire client) client = wire \<longleftrightarrow>
     (if client \<noteq> [] \<and> (\<exists>n. n \<noteq> [] \<and> wire = client @ SLASH # n)
      then (\<forall>n. \<not> (wire = client @ SLASH # n \<and> (n = ascii ''-'' \<or> SLASH \<in> set n)))
      else wire = ascii ''-'' \<or> SLASH \<in> set wire)"
proof (cases "client \<noteq> [] \<and> (\<exists>n. n \<noteq> [] \<and> wire = client @ SLASH # n)")
  case True
  then obtain n where n: "client \<noteq> []" "n \<noteq> []" "wire = client @ SLASH # n" by blast
  then have "display_session_name wire client = n"
    by (simp add: display_session_name_def starts_with_def)
  then show ?thesis using n by (auto simp: resolve_session_name_def)
next
  case False
  have "display_session_name wire client = wire"
  proof (rule ccontr)
    assume "display_session_name wire client \<noteq> wire"
    then have own: "client \<noteq> []" "length client + 1 < length wire" "take (length client) wire = client"
        "wire ! length client = SLASH"
      by (auto simp: display_session_name_def starts_with_def split: if_splits)
    then have "wire = client @ SLASH # drop (Suc (length client)) wire"
      by (metis Suc_eq_plus1 Suc_lessD append_take_drop_id Cons_nth_drop_Suc)
    moreover have "drop (Suc (length client)) wire \<noteq> []" using own(2) by simp
    ultimately show False using False own(1) by metis
  qed
  moreover have "client @ SLASH # wire \<noteq> wire" by (metis append_Cons append_Nil length_Cons length_append
        less_add_Suc2 less_irrefl)
  ultimately show ?thesis using False by (auto simp: resolve_session_name_def)
qed

section \<open>Targets\<close>

definition split_target :: "rstring \<Rightarrow> rstring \<times> rstring option" where
  "split_target s =
     (let (host, session) =
        (case split_once COLON s of
           Some (h, n) \<Rightarrow> (h, if n = [] then None else Some n)
         | None \<Rightarrow> (s, None))
      in (if host = [] then ascii ''local'' else host, session))"

datatype PortError = InvalidPort | PortZero

definition parse_port_spec :: "rstring \<Rightarrow> PortError + (u16 \<times> u16)" where
  "parse_port_spec spec =
     (let port = (\<lambda>value. case parse_unsigned (2 ^ 16) value of
                    None \<Rightarrow> Inl InvalidPort
                  | Some p \<Rightarrow> if p = 0 then Inl PortZero else Inr (word_of_nat p :: u16))
      in case split_once COLON spec of
           Some (a, b) \<Rightarrow>
             (case port a of
                Inl e \<Rightarrow> Inl e
              | Inr l \<Rightarrow> (case port b of Inl e \<Rightarrow> Inl e | Inr t \<Rightarrow> Inr (l, t)))
         | None \<Rightarrow> (case port spec of Inl e \<Rightarrow> Inl e | Inr p \<Rightarrow> Inr (p, p)))"

text \<open>\<open>forward_args\<close>: None is the usage error.\<close>

definition forward_args :: "rstring option \<Rightarrow> rstring option \<Rightarrow> (rstring option \<times> rstring) option" where
  "forward_args target port =
     (case (target, port) of
        (Some t, Some p) \<Rightarrow> Some (Some t, p)
      | (Some p, None) \<Rightarrow> Some (None, p)
      | _ \<Rightarrow> None)"

definition host_from_ctl_path :: "rstring \<Rightarrow> rstring" where
  "host_from_ctl_path stem =
     (case strip_prefix (ascii ''connect-'') stem of Some host \<Rightarrow> host | None \<Rightarrow> ascii ''local'')"

section \<open>Durations\<close>

definition parse_duration :: "rstring \<Rightarrow> nat option" where
  "parse_duration s =
     (if s = [] then None
      else
        (let c = last s;
             unit = (if c = 0x73 then Some (butlast s, 1) else if c = 0x6D then Some (butlast s, 60)
               else if c = 0x68 then Some (butlast s, 3600) else if c = 0x64 then Some (butlast s, 86400)
               else if is_digit c then Some (s, 1) else None)
         in case unit of
              None \<Rightarrow> None
            | Some (number, multiplier) \<Rightarrow>
                (case parse_unsigned (2 ^ 64) number of
                   None \<Rightarrow> None
                 | Some n \<Rightarrow> if n * multiplier < 2 ^ 64 then Some (n * multiplier) else None)))"

definition format_duration :: "nat \<Rightarrow> rstring" where
  "format_duration secs =
     (if secs < 60 then dec secs @ [0x73]
      else if secs < 3600 then dec (secs div 60) @ [0x6D]
      else if secs < 86400 then dec (secs div 3600) @ [0x68]
      else dec (secs div 86400) @ [0x64])"

definition format_idle :: "u64 \<Rightarrow> u64 \<Rightarrow> rstring" where
  "format_idle now active =
     (if active = 0 then ascii ''-'' else format_duration (unat now - unat active))"

text \<open>What the units round to.\<close>

definition shown_secs :: "nat \<Rightarrow> nat" where
  "shown_secs secs =
     (let u = (if secs < 60 then 1 else if secs < 3600 then 60 else if secs < 86400 then 3600 else 86400)
      in secs div u * u)"

lemma parse_shown:
  assumes "n * u < 2 ^ 64" and "u = 1 \<and> c = 0x73 \<or> u = 60 \<and> c = 0x6D \<or> u = 3600 \<and> c = 0x68 \<or> u = 86400 \<and> c = 0x64"
  shows "parse_duration (dec n @ [c]) = Some (n * u)"
proof -
  have "n \<le> n * u" using assms(2) by auto
  then have "n < 2 ^ 64" using assms(1) by (rule le_less_trans)
  then have "parse_unsigned (2 ^ 64) (dec n) = Some n" by (rule parse_unsigned_dec)
  then show ?thesis using assms by (auto simp: parse_duration_def)
qed

text \<open>
  The durations that are shown can be typed: parsing the short form of any number of seconds of 64
  bits gives that number rounded down to the unit shown.
\<close>

theorem shown_duration_parses:
  "parse_duration (format_duration (unat (secs :: u64))) = Some (shown_secs (unat secs))"
proof -
  have "unat secs < 2 ^ 64" using unsigned_less [of secs, where ?'a = nat] by simp
  then have "unat secs div u * u < 2 ^ 64" for u
    by (rule le_less_trans [OF div_times_less_eq_dividend])
  then show ?thesis
    using parse_shown [of "unat secs" 1 "0x73"] parse_shown [of "unat secs div 60" 60 "0x6D"]
      parse_shown [of "unat secs div 3600" 3600 "0x68"] parse_shown [of "unat secs div 86400" 86400 "0x64"]
    by (simp add: format_duration_def shown_secs_def Let_def)
qed

lemma format_duration_zero: "format_duration n = ascii ''0s'' \<longleftrightarrow> n = 0"
proof -
  have zero: "dec 0 = [0x30]" by (subst dec.simps) (simp add: digit_def)
  then have "dec m = [0x30] \<longleftrightarrow> m = 0" for m using undec_dec [of m] undec_dec [of 0] by metis
  then show ?thesis by (auto simp: format_duration_def)
qed

end
