(* ===== verification/Config.thy ===== *)
theory Config
  imports Naming "HOL-Library.List_Lexorder" "HOL-Library.Multiset"
begin

text \<open>
  The configuration, from \<open>src/src/config.rs\<close>: the layers of a file, the value each key resolves to
  for a host, and the hosts a typed name stands for.  The TOML parser is not part of the source; a file
  is what it yields.  Warnings are values, their wording is left out.
\<close>

section \<open>Values\<close>

definition IDLE_EVICT_TIMEOUT :: nat where "IDLE_EVICT_TIMEOUT = 90"
definition IDLE_EVICT_SAFETY_MARGIN :: nat where "IDLE_EVICT_SAFETY_MARGIN = 10"

definition idle_evict_ceiling_secs :: nat where
  "idle_evict_ceiling_secs = IDLE_EVICT_TIMEOUT - IDLE_EVICT_SAFETY_MARGIN"

definition ascii_lower :: "byte \<Rightarrow> byte" where
  "ascii_lower b = (if 0x41 \<le> b \<and> b \<le> 0x5A then b + 0x20 else b)"

definition eq_ignore_ascii_case :: "rstring \<Rightarrow> rstring \<Rightarrow> bool" where
  "eq_ignore_ascii_case s t \<longleftrightarrow> map ascii_lower s = map ascii_lower t"

definition parse_linger :: "rstring \<Rightarrow> nat option" where
  "parse_linger s =
     (if eq_ignore_ascii_case s (ascii ''never'') then Some 0
      else (case parse_duration s of Some secs \<Rightarrow> if secs = 0 then None else Some secs | None \<Rightarrow> None))"

definition parse_agent_idle_timeout :: "rstring \<Rightarrow> nat option option" where
  "parse_agent_idle_timeout s =
     (if eq_ignore_ascii_case s (ascii ''never'') then Some None
      else (case parse_duration s of Some secs \<Rightarrow> if secs = 0 then None else Some (Some secs) | None \<Rightarrow> None))"

datatype ConfigWarning =
    IntervalClamped nat
  | TimeoutRaised nat
  | TimeoutClamped nat
  | IgnoredValue rstring rstring
  | AliasClaimed rstring "rstring list"

text \<open>A malformed value is a warning, and the layer counts as unset.\<close>

definition parse_layer ::
  "rstring \<Rightarrow> rstring option \<Rightarrow> (rstring \<Rightarrow> 'a option) \<Rightarrow> ConfigWarning list \<Rightarrow> 'a option \<times> ConfigWarning list" where
  "parse_layer key raw parse warnings =
     (case raw of
        None \<Rightarrow> (None, warnings)
      | Some s \<Rightarrow>
          (case parse s of Some v \<Rightarrow> (Some v, warnings) | None \<Rightarrow> (None, warnings @ [IgnoredValue key s])))"

definition clamp_heartbeat :: "nat \<Rightarrow> nat \<Rightarrow> nat \<times> nat \<times> ConfigWarning list" where
  "clamp_heartbeat raw_interval raw_timeout =
     (let max_interval = max ((idle_evict_ceiling_secs - 1) div 2) 1;
          interval = min (max raw_interval 1) max_interval;
          w1 = (if interval \<noteq> raw_interval then [IntervalClamped interval] else []);
          (timeout, w2) = (if raw_timeout \<le> interval then (interval + 1, [TimeoutRaised (interval + 1)])
            else (raw_timeout, []));
          max_timeout = idle_evict_ceiling_secs - interval;
          (timeout, w3) = (if max_timeout < timeout then (max_timeout, [TimeoutClamped max_timeout]) else (timeout, []))
      in (interval, timeout, w1 @ w2 @ w3))"

section \<open>Files and settings\<close>

record TunnelDefaults =
  tc_ssh_options :: "rstring list option"
  tc_no_server_start :: "bool option"
  tc_isolate_control_path :: "bool option"
  tc_connect_timeout :: "nat option"

record Defaults =
  cf_forward_agent :: "bool option"
  cf_agent_idle_timeout :: "rstring option"
  cf_forward_open :: "bool option"
  cf_no_escape :: "bool option"
  cf_oauth_redirect :: "bool option"
  cf_oauth_timeout :: "nat option"
  cf_heartbeat_interval :: "nat option"
  cf_heartbeat_timeout :: "nat option"
  cf_ring_buffer_size :: "nat option"
  cf_oauth_tunnel_idle_timeout :: "nat option"
  cf_client_name :: "rstring option"
  cf_linger :: "rstring option"
  cf_linger_unnamed :: "rstring option"
  cf_aliases :: "rstring list option"
  cf_tunnel :: "TunnelDefaults option"

text \<open>The hosts in the order a hash map yields them.\<close>

record ConfigFile =
  defaults :: Defaults
  hosts :: "(rstring \<times> Defaults) list"

record SessionSettings =
  ss_forward_agent :: bool
  ss_agent_idle_timeout :: "nat option"
  ss_forward_open :: bool
  ss_no_escape :: bool
  ss_oauth_redirect :: bool
  ss_oauth_timeout :: nat
  ss_heartbeat_interval :: nat
  ss_heartbeat_timeout :: nat
  ss_ring_buffer_size :: nat
  ss_oauth_tunnel_idle_timeout :: nat
  ss_client_name :: rstring
  ss_linger :: nat
  ss_linger_unnamed :: nat

record TunnelSettings =
  ts_session :: SessionSettings
  ts_ssh_options :: "rstring list"
  ts_no_server_start :: bool
  ts_isolate_control_path :: bool
  ts_connect_timeout :: nat

section \<open>Resolution\<close>

text \<open>\<open>Option::or\<close> and \<open>and_then\<close>.\<close>

definition or_else :: "'a option \<Rightarrow> 'a option \<Rightarrow> 'a option" where
  "or_else a b = (case a of Some x \<Rightarrow> Some x | None \<Rightarrow> b)"

definition unwrap_or :: "'a option \<Rightarrow> 'a \<Rightarrow> 'a" where
  "unwrap_or a d = (case a of Some x \<Rightarrow> x | None \<Rightarrow> d)"

definition pick :: "bool option \<Rightarrow> bool option \<Rightarrow> bool" where
  "pick host_val default_val = unwrap_or (or_else host_val default_val) False"

definition default_client_name :: "rstring option \<Rightarrow> rstring" where
  "default_client_name hostname = sanitize_client_name (unwrap_or hostname [])"

text \<open>\<open>h.and_then(|h| h.key)\<close>: a host's layer of a key.\<close>

definition layer :: "('d \<Rightarrow> 'a option) \<Rightarrow> 'd option \<Rightarrow> 'a option" where
  "layer key h = Option.bind h key"

definition resolve_session_inner ::
  "rstring option \<Rightarrow> ConfigFile \<Rightarrow> rstring option \<Rightarrow> SessionSettings \<times> ConfigWarning list" where
  "resolve_session_inner hostname cfg host =
     (let d = defaults cfg;
          h = Option.bind host (map_of (hosts cfg));
          raw_interval = unwrap_or (or_else (layer cf_heartbeat_interval h) (cf_heartbeat_interval d)) 10;
          raw_timeout = unwrap_or (or_else (layer cf_heartbeat_timeout h) (cf_heartbeat_timeout d)) 60;
          (interval, timeout, w) = clamp_heartbeat raw_interval raw_timeout;
          (h_linger, w) = parse_layer (ascii ''linger'') (layer cf_linger h) parse_linger w;
          (h_unnamed, w) = parse_layer (ascii ''linger-unnamed'') (layer cf_linger_unnamed h) parse_linger w;
          (d_linger, w) = parse_layer (ascii ''linger'') (cf_linger d) parse_linger w;
          (d_unnamed, w) = parse_layer (ascii ''linger-unnamed'') (cf_linger_unnamed d) parse_linger w;
          (h_idle, w) = parse_layer (ascii ''agent-idle-timeout'') (layer cf_agent_idle_timeout h)
            parse_agent_idle_timeout w;
          (d_idle, w) = parse_layer (ascii ''agent-idle-timeout'') (cf_agent_idle_timeout d)
            parse_agent_idle_timeout w
      in (\<lparr>ss_forward_agent = unwrap_or (or_else (layer cf_forward_agent h) (cf_forward_agent d)) False,
           ss_agent_idle_timeout = unwrap_or (or_else h_idle d_idle) None,
           ss_forward_open = unwrap_or (or_else (layer cf_forward_open h) (cf_forward_open d)) True,
           ss_no_escape = pick (layer cf_no_escape h) (cf_no_escape d),
           ss_oauth_redirect = unwrap_or (or_else (layer cf_oauth_redirect h) (cf_oauth_redirect d)) True,
           ss_oauth_timeout = unwrap_or (or_else (layer cf_oauth_timeout h) (cf_oauth_timeout d)) 180,
           ss_heartbeat_interval = interval,
           ss_heartbeat_timeout = timeout,
           ss_ring_buffer_size = unwrap_or (or_else (layer cf_ring_buffer_size h) (cf_ring_buffer_size d)) (2 ^ 20),
           ss_oauth_tunnel_idle_timeout =
             unwrap_or (or_else (layer cf_oauth_tunnel_idle_timeout h) (cf_oauth_tunnel_idle_timeout d)) 5,
           ss_client_name =
             (case or_else (layer cf_client_name h) (cf_client_name d) of
                Some n \<Rightarrow> sanitize_client_name n | None \<Rightarrow> default_client_name hostname),
           ss_linger = unwrap_or (or_else h_linger d_linger) 0,
           ss_linger_unnamed = unwrap_or (or_else h_unnamed (or_else h_linger (or_else d_unnamed d_linger))) 0\<rparr>, w))"

definition resolve_tunnel :: "rstring option \<Rightarrow> ConfigFile \<Rightarrow> rstring \<Rightarrow> TunnelSettings" where
  "resolve_tunnel hostname cfg host =
     (let dc = cf_tunnel (defaults cfg); hc = Option.bind (map_of (hosts cfg) host) cf_tunnel
      in \<lparr>ts_session = fst (resolve_session_inner hostname cfg (Some host)),
          ts_ssh_options = unwrap_or (layer tc_ssh_options hc) [] @ unwrap_or (layer tc_ssh_options dc) [],
          ts_no_server_start = pick (layer tc_no_server_start hc) (layer tc_no_server_start dc),
          ts_isolate_control_path =
            unwrap_or (or_else (layer tc_isolate_control_path hc) (layer tc_isolate_control_path dc)) True,
          ts_connect_timeout = unwrap_or (or_else (layer tc_connect_timeout hc) (layer tc_connect_timeout dc)) 30\<rparr>)"

section \<open>Aliases\<close>

definition owners :: "ConfigFile \<Rightarrow> rstring \<Rightarrow> rstring list" where
  "owners cfg typed =
     sort (map fst (filter (\<lambda>(_, h). typed \<in> set (unwrap_or (cf_aliases h) [])) (hosts cfg)))"

definition canonical_host_inner :: "ConfigFile \<Rightarrow> rstring \<Rightarrow> rstring \<times> ConfigWarning list" where
  "canonical_host_inner cfg typed =
     (if typed = ascii ''local'' \<or> map_of (hosts cfg) typed \<noteq> None then (typed, [])
      else
        (case owners cfg typed of
           [n] \<Rightarrow> (n, [])
         | [] \<Rightarrow> (typed, [])
         | ns \<Rightarrow> (typed, [AliasClaimed typed ns])))"

definition canonical_host :: "ConfigFile \<Rightarrow> rstring \<Rightarrow> rstring" where
  "canonical_host cfg typed = fst (canonical_host_inner cfg typed)"

definition alias_destination :: "ConfigFile \<Rightarrow> rstring \<Rightarrow> rstring option" where
  "alias_destination cfg host =
     (case Option.bind (map_of (hosts cfg) host) cf_aliases of Some (a # _) \<Rightarrow> Some a | _ \<Rightarrow> None)"

text \<open>\<open>parse_target\<close> and the two forms for optional targets, from \<open>src/src/commands/util.rs\<close>.\<close>

definition parse_target :: "ConfigFile \<Rightarrow> rstring \<Rightarrow> rstring \<times> rstring option" where
  "parse_target cfg s = (case split_target s of (host, session) \<Rightarrow> (canonical_host cfg host, session))"

definition split_optional_target :: "ConfigFile \<Rightarrow> rstring option \<Rightarrow> rstring \<times> rstring option" where
  "split_optional_target cfg target =
     (case target of Some t \<Rightarrow> parse_target cfg t | None \<Rightarrow> (ascii ''local'', None))"

definition parse_host_or_local :: "ConfigFile \<Rightarrow> rstring option \<Rightarrow> rstring" where
  "parse_host_or_local cfg target =
     (case target of Some t \<Rightarrow> fst (parse_target cfg t) | None \<Rightarrow> ascii ''local'')"

section \<open>The heartbeat\<close>

text \<open>
  Whatever the file says, the heartbeat fits the server: the interval is at least a second, the
  timeout is longer, and both together stay below the server's eviction of idle clients by its safety
  margin; values that already do are kept, and a warning is given exactly when something was changed.
\<close>

theorem heartbeat_fits_server:
  "case clamp_heartbeat raw_interval raw_timeout of (interval, timeout, warnings) \<Rightarrow>
     1 \<le> interval \<and> interval < timeout
     \<and> interval + timeout + IDLE_EVICT_SAFETY_MARGIN \<le> IDLE_EVICT_TIMEOUT
     \<and> (warnings = [] \<longleftrightarrow> interval = raw_interval \<and> timeout = raw_timeout)
     \<and> (interval = raw_interval \<and> timeout = raw_timeout \<longleftrightarrow>
          1 \<le> raw_interval \<and> raw_interval < raw_timeout
          \<and> raw_interval + raw_timeout + IDLE_EVICT_SAFETY_MARGIN \<le> IDLE_EVICT_TIMEOUT)"
  by (cases "raw_interval = 0"; cases "raw_interval \<le> 39"; cases "raw_timeout \<le> raw_interval"; cases "raw_timeout \<le> 39")
    (auto simp: clamp_heartbeat_def idle_evict_ceiling_secs_def IDLE_EVICT_TIMEOUT_def IDLE_EVICT_SAFETY_MARGIN_def
      Let_def min_def max_def)

section \<open>Layers\<close>

lemma or_else_simps [simp]:
  "or_else (Some x) b = Some x" "or_else None b = b" "or_else a None = a" "or_else (or_else a b) c = or_else a (or_else b c)"
  by (cases a; simp add: or_else_def)+

lemma or_else_again [simp]: "or_else a (or_else b (or_else a c)) = or_else a (or_else b c)"
  by (cases a; cases b) simp_all

text \<open>
  The defaults of a host, as one layer: its own keys over the defaults, its linger over the defaults'
  linger for unnamed sessions.
\<close>

definition valid :: "(rstring \<Rightarrow> 'a option) \<Rightarrow> rstring option \<Rightarrow> rstring option" where
  "valid parse raw = (case raw of Some s \<Rightarrow> (if parse s = None then None else Some s) | None \<Rightarrow> None)"

definition flattened :: "ConfigFile \<Rightarrow> Defaults \<Rightarrow> ConfigFile" where
  "flattened cfg h =
     (let d = defaults cfg
      in \<lparr>defaults =
            \<lparr>cf_forward_agent = or_else (cf_forward_agent h) (cf_forward_agent d),
             cf_agent_idle_timeout =
               or_else (valid parse_agent_idle_timeout (cf_agent_idle_timeout h)) (cf_agent_idle_timeout d),
             cf_forward_open = or_else (cf_forward_open h) (cf_forward_open d),
             cf_no_escape = or_else (cf_no_escape h) (cf_no_escape d),
             cf_oauth_redirect = or_else (cf_oauth_redirect h) (cf_oauth_redirect d),
             cf_oauth_timeout = or_else (cf_oauth_timeout h) (cf_oauth_timeout d),
             cf_heartbeat_interval = or_else (cf_heartbeat_interval h) (cf_heartbeat_interval d),
             cf_heartbeat_timeout = or_else (cf_heartbeat_timeout h) (cf_heartbeat_timeout d),
             cf_ring_buffer_size = or_else (cf_ring_buffer_size h) (cf_ring_buffer_size d),
             cf_oauth_tunnel_idle_timeout =
               or_else (cf_oauth_tunnel_idle_timeout h) (cf_oauth_tunnel_idle_timeout d),
             cf_client_name = or_else (cf_client_name h) (cf_client_name d),
             cf_linger = or_else (valid parse_linger (cf_linger h)) (cf_linger d),
             cf_linger_unnamed =
               or_else (valid parse_linger (cf_linger_unnamed h))
                 (or_else (valid parse_linger (cf_linger h)) (cf_linger_unnamed d)),
             cf_aliases = None, cf_tunnel = None\<rparr>,
          hosts = []\<rparr>)"

lemma parse_layer_fst: "fst (parse_layer key raw parse w) = Option.bind raw parse"
  by (simp add: parse_layer_def split: option.split)

lemma bind_valid: "Option.bind (or_else (valid parse a) b) parse = or_else (Option.bind a parse) (Option.bind b parse)"
  by (cases a; cases "parse (the a)") (auto simp: valid_def or_else_def)

text \<open>
  A host's section is a layer over the defaults: resolving for the host gives the settings that
  the one merged layer gives -- each key from the host when it sets it (a malformed duration does not),
  else from the defaults -- where a host that sets only its linger also shields its unnamed sessions
  from the defaults for unnamed ones.
\<close>

theorem host_settings_are_layered:
  "fst (resolve_session_inner hostname cfg (Some host)) =
     (case map_of (hosts cfg) host of
        Some h \<Rightarrow> fst (resolve_session_inner hostname (flattened cfg h) None)
      | None \<Rightarrow> fst (resolve_session_inner hostname cfg None))"
proof (cases "map_of (hosts cfg) host")
  case (Some h)
  show ?thesis
    by (simp add: Some resolve_session_inner_def flattened_def layer_def split_beta Let_def parse_layer_fst
        bind_valid pick_def)
qed (simp add: resolve_session_inner_def)

section \<open>What names stand for\<close>

lemma owners_key: "n \<in> set (owners cfg typed) \<Longrightarrow> map_of (hosts cfg) n \<noteq> None"
  by (auto simp: owners_def dest: weak_map_of_SomeI)

lemma map_of_mset:
  assumes "distinct (map fst xs)" "mset ys = mset xs"
  shows "map_of ys = map_of xs"
proof
  fix k
  have "mset (map fst ys) = mset (map fst xs)" using assms(2) by simp
  then have "distinct (map fst ys)" using assms(1) mset_eq_imp_distinct_iff by blast
  moreover have "set ys = set xs" using assms(2) by (rule mset_eq_setD)
  ultimately show "map_of ys k = map_of xs k"
    using assms(1) by (metis map_of_eq_Some_iff not_None_eq)
qed

lemma owners_mset: "mset (hosts cfg') = mset (hosts cfg) \<Longrightarrow> owners cfg' typed = owners cfg typed"
  unfolding owners_def by (intro properties_for_sort) simp_all

text \<open>
  Aliases resolve in one step and in no order: the name a typed host stands for stands for itself,
  it is another than the typed one only for an alias that exactly one host claims, and it does not
  depend on the order in which the hosts of the file are visited.
\<close>

theorem canonical_host_stable:
  assumes "distinct (map fst (hosts cfg))" and "mset (hosts cfg') = mset (hosts cfg)"
  shows "canonical_host cfg (canonical_host cfg typed) = canonical_host cfg typed
    \<and> canonical_host_inner cfg' typed = canonical_host_inner cfg typed
    \<and> (canonical_host cfg typed \<noteq> typed \<longrightarrow> owners cfg typed = [canonical_host cfg typed])"
proof -
  have "map_of (hosts cfg') = map_of (hosts cfg)" using assms by (rule map_of_mset)
  moreover have "owners cfg' typed = owners cfg typed" using assms(2) by (rule owners_mset)
  ultimately have order: "canonical_host_inner cfg' typed = canonical_host_inner cfg typed"
    by (simp add: canonical_host_inner_def)
  have "canonical_host cfg typed = typed \<or> owners cfg typed = [canonical_host cfg typed]"
    by (auto simp: canonical_host_def canonical_host_inner_def split: list.split)
  moreover have "canonical_host cfg n = n" if "owners cfg typed = [n]" for n
    using owners_key [of n cfg typed] that by (simp add: canonical_host_def canonical_host_inner_def)
  ultimately show ?thesis using order by metis
qed

definition two_hosts :: "bool \<Rightarrow> ConfigFile" where
  "two_hosts swapped =
     (let none = \<lparr>cf_forward_agent = None, cf_agent_idle_timeout = None, cf_forward_open = None, cf_no_escape = None,
            cf_oauth_redirect = None, cf_oauth_timeout = None, cf_heartbeat_interval = None, cf_heartbeat_timeout = None,
            cf_ring_buffer_size = None, cf_oauth_tunnel_idle_timeout = None, cf_client_name = None, cf_linger = None,
            cf_linger_unnamed = None, cf_aliases = None, cf_tunnel = None\<rparr>;
          a = (ascii ''a'', none\<lparr>cf_aliases := Some [ascii ''x'']\<rparr>); b = (ascii ''b'', none)
      in \<lparr>defaults = none, hosts = (if swapped then [b, a] else [a, b])\<rparr>)"

lemma canonical_host_stable_witness:
  "canonical_host (two_hosts False) (ascii ''x'') = ascii ''a''
     \<and> canonical_host_inner (two_hosts True) (ascii ''x'') = canonical_host_inner (two_hosts False) (ascii ''x'')"
proof -
  have d: "distinct (map fst (hosts (two_hosts False)))" and m: "mset (hosts (two_hosts True)) = mset (hosts (two_hosts False))"
    by (simp_all add: two_hosts_def Let_def)
  have "canonical_host (two_hosts False) (ascii ''x'') = ascii ''a''"
    by (simp add: canonical_host_def canonical_host_inner_def owners_def two_hosts_def unwrap_or_def Let_def)
  with canonical_host_stable [OF d m, of "ascii ''x''"] show ?thesis by blast
qed

end
