(* ===== verification/Table.thy ===== *)
theory Table
  imports Utf8
begin

text \<open>
  The tables of \<open>ls\<close> and the pickers, from \<open>src/src/table.rs\<close>.  The display width of a string is
  unicode-width's and a parameter; a row with too few cells panics, which is None.
\<close>

definition spaces :: "nat \<Rightarrow> rstring" where
  "spaces n = replicate n 0x20"

text \<open>\<open>format_row\<close>: the cells from column \<open>i\<close> on.\<close>

fun row_from :: "(rstring \<Rightarrow> nat) \<Rightarrow> nat list \<Rightarrow> nat \<Rightarrow> rstring list \<Rightarrow> rstring" where
  "row_from w widths i [] = []"
| "row_from w widths i (cell # cells) =
     (if 0 < i then spaces 2 else []) @ cell
       @ (if i + 1 < length widths then spaces (widths ! i - w cell) else [])
       @ row_from w widths (i + 1) cells"

definition format_row :: "(rstring \<Rightarrow> nat) \<Rightarrow> rstring list \<Rightarrow> nat list \<Rightarrow> rstring" where
  "format_row w cells widths = row_from w widths 0 cells"

definition column_widths :: "(rstring \<Rightarrow> nat) \<Rightarrow> rstring list \<Rightarrow> rstring list list \<Rightarrow> nat list" where
  "column_widths w headers rows =
     map (\<lambda>i. max (Max (set (map (\<lambda>r. w (r ! i)) rows))) (w (headers ! i))) [0..<length headers]"

definition format_table :: "(rstring \<Rightarrow> nat) \<Rightarrow> rstring list \<Rightarrow> rstring list list \<Rightarrow> rstring list option" where
  "format_table w headers rows =
     (if rows = [] then Some []
      else if list_ex (\<lambda>r. length r < length headers) rows then None
      else
        (let widths = column_widths w headers rows
         in Some (format_row w headers widths # map (\<lambda>r. format_row w r widths) rows)))"

section \<open>Alignment\<close>

text \<open>What the width of a string has to satisfy: widths add up and a space is one column wide.\<close>

definition additive :: "(rstring \<Rightarrow> nat) \<Rightarrow> bool" where
  "additive w \<longleftrightarrow> (\<forall>s t. w (s @ t) = w s + w t) \<and> w [0x20] = 1"

lemma additiveD: "additive w \<Longrightarrow> w (s @ t) = w s + w t"
  by (simp add: additive_def)

lemma additive_Nil: "additive w \<Longrightarrow> w [] = 0"
  using additiveD [of w "[]" "[]"] by simp

lemma additive_spaces: "additive w \<Longrightarrow> w (spaces n) = n"
proof (induction n)
  case (Suc n)
  have "w (spaces (Suc n)) = w ([0x20] @ spaces n)" by (simp add: spaces_def)
  also have "\<dots> = w [0x20] + w (spaces n)" using Suc.prems by (rule additiveD)
  finally show ?case using Suc by (simp add: additive_def)
qed (simp add: spaces_def additive_Nil)

text \<open>Where a column begins: the widths of the columns before it, each with its two spaces.\<close>

definition column_start :: "nat list \<Rightarrow> nat \<Rightarrow> nat" where
  "column_start widths i = sum_list (take i widths) + 2 * i"

lemma row_from_cell:
  assumes w: "additive w" and fits: "\<And>j. j < length cells \<Longrightarrow> w (cells ! j) \<le> widths ! (i + j)"
    and len: "i + length cells \<le> length widths" and k: "k < length cells"
  shows "\<exists>pre post. row_from w widths i cells = pre @ cells ! k @ post
    \<and> column_start widths i + w pre = column_start widths (i + k) + (if 0 < i then 2 else 0)"
  using assms(2-4)
proof (induction cells arbitrary: i k)
  case (Cons cell cells)
  show ?case
  proof (cases k)
    case 0
    have "row_from w widths i (cell # cells) = (if 0 < i then spaces 2 else []) @ (cell # cells) ! 0
        @ ((if i + 1 < length widths then spaces (widths ! i - w cell) else []) @ row_from w widths (i + 1) cells)"
      by simp
    moreover have "w (if 0 < i then spaces 2 else []) = (if 0 < i then 2 else 0)"
      using w by (simp add: additive_spaces additive_Nil)
    ultimately show ?thesis using 0
      by (intro exI [of _ "if 0 < i then spaces 2 else []"]
          exI [of _ "(if i + 1 < length widths then spaces (widths ! i - w cell) else []) @ row_from w widths (i + 1) cells"])
        simp
  next
    case (Suc j)
    have j: "j < length cells" and i: "i + 1 < length widths" using Cons.prems Suc by auto
    have cell: "w cell \<le> widths ! i" using Cons.prems(1) [of 0] by simp
    have "\<And>l. l < length cells \<Longrightarrow> w (cells ! l) \<le> widths ! (i + 1 + l)"
      using Cons.prems(1) [of "Suc _"] by simp
    from Cons.IH [OF this _ j] Cons.prems(2) obtain pre post
      where r: "row_from w widths (i + 1) cells = pre @ cells ! j @ post"
        and p: "column_start widths (i + 1) + w pre = column_start widths (i + 1 + j) + 2" by auto
    let ?pre = "(if 0 < i then spaces 2 else []) @ cell @ spaces (widths ! i - w cell) @ pre"
    have "row_from w widths i (cell # cells) = ?pre @ (cell # cells) ! k @ post"
      using r i Suc by simp
    moreover have "w ?pre = (if 0 < i then 2 else 0) + widths ! i + w pre"
      using w cell by (simp add: additiveD additive_spaces additive_Nil)
    moreover have "column_start widths (i + 1) = column_start widths i + widths ! i + 2"
      using i by (simp add: column_start_def take_Suc_conv_app_nth)
    ultimately show ?thesis using p Suc by (intro exI [of _ ?pre] exI [of _ post]) simp
  qed
qed simp

lemma column_fits:
  assumes "r = headers \<or> r \<in> set rows" "rows \<noteq> []" "i < length headers"
  shows "w (r ! i) \<le> column_widths w headers rows ! i"
proof -
  have "w (r ! i) \<le> Max (set (map (\<lambda>r. w (r ! i)) rows))" if "r \<in> set rows"
    using that by (intro Max_ge) auto
  with assms show ?thesis by (auto simp: column_widths_def max.coboundedI1)
qed

text \<open>
  Columns line up: in a table whose rows have a cell for every header, the cell of a column begins
  in every line, the header included, at the same display column, whatever the widths of the characters.
\<close>

theorem columns_line_up:
  assumes "additive w" and "list_all (\<lambda>r. length r = length headers) rows" and "i < length headers"
  shows "case format_table w headers rows of
      None \<Rightarrow> False
    | Some lines \<Rightarrow>
        list_all2 (\<lambda>cells line. \<exists>pre post. line = pre @ cells ! i @ post
            \<and> w pre = column_start (column_widths w headers rows) i)
          (if rows = [] then [] else headers # rows) lines"
proof (cases "rows = []")
  case False
  let ?widths = "column_widths w headers rows"
  have len: "length ?widths = length headers" by (simp add: column_widths_def)
  have line: "\<exists>pre post. format_row w r ?widths = pre @ r ! i @ post \<and> w pre = column_start ?widths i"
    if r: "r = headers \<or> r \<in> set rows" for r
  proof -
    have "length r = length headers" using r assms(2) by (auto simp: list_all_iff)
    with row_from_cell [OF assms(1), of r ?widths 0 i] column_fits [OF r False] len assms(3)
    show ?thesis by (simp add: format_row_def column_start_def)
  qed
  have "\<not> list_ex (\<lambda>r. length r < length headers) rows"
    using assms(2) by (auto simp: list_ex_iff list_all_iff)
  with False line show ?thesis
    by (simp add: format_table_def Let_def list_all2_map2 list.rel_refl_strong list_all2_same)
qed (simp add: format_table_def)

lemma columns_line_up_witness:
  "\<exists>pre post. format_row length [ascii ''xyz'', ascii ''1''] (column_widths length [ascii ''A'', ascii ''B'']
       [[ascii ''xyz'', ascii ''1''], [ascii ''x'', ascii ''2'']]) = pre @ ascii ''1'' @ post \<and> length pre = 5"
proof -
  define H where "H = [ascii ''A'', ascii ''B'']"
  define R where "R = [[ascii ''xyz'', ascii ''1''], [ascii ''x'', ascii ''2'']]"
  have a: "additive length" by (simp add: additive_def)
  have l: "list_all (\<lambda>r. length r = length H) R" and i: "1 < length H" by (simp_all add: H_def R_def)
  have t: "format_table length H R = Some (map (\<lambda>r. format_row length r (column_widths length H R)) (H # R))"
    by (simp add: format_table_def Let_def H_def R_def)
  have ne: "(R = []) = False" by (simp add: R_def)
  have c: "column_start (column_widths length H R) 1 = 5"
    by (simp add: column_start_def column_widths_def H_def R_def)
  have "list_all2 (\<lambda>cells line. \<exists>pre post. line = pre @ cells ! 1 @ post \<and> length pre = 5) (H # R)
      (map (\<lambda>r. format_row length r (column_widths length H R)) (H # R))"
    using columns_line_up [OF a l i] ne by (simp only: t c option.case if_False)
  then have "\<exists>pre post. format_row length (R ! 0) (column_widths length H R) = pre @ (R ! 0) ! 1 @ post \<and> length pre = 5"
    by (auto simp: R_def)
  then show ?thesis by (simp add: R_def H_def)
qed

end
