(* ===== verification/Session_List.thy ===== *)
theory Session_List
  imports Naming Config Table Daemon
begin

text \<open>
  What the commands do with a daemon's list of sessions, from \<open>src/src/commands/session.rs\<close> and
  \<open>src/src/commands/util.rs\<close>: finding, choosing, ordering, tabulating, selecting for removal, and
  grouping the hosts that answered.  Rendering an epoch in local time is jiff's and a parameter.
\<close>

section \<open>Sessions\<close>

definition session_wire_name :: "SessionEntry \<Rightarrow> rstring" where
  "session_wire_name s = (if name s = [] then dec (unat (entry_id s)) else name s)"

definition own_prefix :: "rstring \<Rightarrow> SessionEntry \<Rightarrow> bool" where
  "own_prefix client s \<longleftrightarrow> starts_with (name s) (client @ [SLASH])"

definition find_session :: "SessionEntry list \<Rightarrow> rstring \<Rightarrow> SessionEntry option" where
  "find_session ss target =
     (if target = ascii ''-'' then find is_last_attached ss else find (\<lambda>e. name e = target) ss)"

text \<open>\<open>connect\<close> without a session: None leads to the picker.\<close>

definition auto_attach_target :: "SessionEntry list \<Rightarrow> rstring \<Rightarrow> rstring option" where
  "auto_attach_target ss client =
     (let mine = filter (own_prefix client) ss
      in if mine = [] then Some (resolve_session_name (ascii ''0'') client)
         else
           (case filter (\<lambda>s. \<not> attached s) mine of
              [s] \<Rightarrow> Some (session_wire_name s)
            | _ \<Rightarrow> None))"

text \<open>
  \<open>suggest_name\<close>: the first slot that no name occupies.  Among one more slot than there are names one
  is free, so the bound is never reached.
\<close>

definition slot_name :: "rstring \<Rightarrow> nat \<Rightarrow> rstring" where
  "slot_name client n = resolve_session_name (dec n) client"

definition suggest_name :: "rstring list \<Rightarrow> rstring \<Rightarrow> rstring option" where
  "suggest_name names client =
     map_option (slot_name client) (find (\<lambda>n. slot_name client n \<notin> set names) [0..<Suc (length names)])"

definition shorten_home :: "rstring \<Rightarrow> rstring" where
  "shorten_home path =
     (let user_home = (\<lambda>rest. let user = takeWhile (\<lambda>c. c \<noteq> SLASH) rest
             in if user = [] then None else Some (length path - length rest + length user));
          home_len =
            (case (case strip_prefix (ascii ''/home/'') path of
                     Some rest \<Rightarrow> Some rest | None \<Rightarrow> strip_prefix (ascii ''/Users/'') path) of
               Some rest \<Rightarrow> user_home rest
             | None \<Rightarrow>
                 map_option length (find (\<lambda>r. starts_with path r) [ascii ''/var/root'', ascii ''/root'']))
      in case home_len of
           None \<Rightarrow> path
         | Some n \<Rightarrow>
             (if drop n path = [] \<or> hd (drop n path) = SLASH then 0x7E # drop n path else path))"

section \<open>The table\<close>

definition format_linger :: "SessionEntry \<Rightarrow> u64 \<Rightarrow> rstring" where
  "format_linger s now =
     (if linger_secs s = 0 then ascii ''-''
      else if attached s then format_duration (unat (linger_secs s))
      else
        (let elapsed = unat now - unat (linger_baseline (last_heartbeat s) (created_at s))
         in format_duration (unat (linger_secs s) - elapsed)))"

definition session_status_cols :: "(u64 \<Rightarrow> rstring) \<Rightarrow> SessionEntry \<Rightarrow> u64 \<Rightarrow> rstring \<Rightarrow> rstring list" where
  "session_status_cols timestamp s now client =
     (let nm = (if name s = [] then ascii ''-'' else display_session_name (name s) client);
          ago = unat now - unat (last_heartbeat s);
          status =
            (if attached s then
               (if last_heartbeat s > 0 then ascii ''attached (heartbeat '' @ dec ago @ ascii ''s ago)'' else ascii ''attached'')
             else
               (if last_heartbeat s > 0 then ascii ''detached ('' @ format_duration ago @ ascii '' ago)'' else ascii ''detached''));
          dash = ascii ''-'';
          (pty, pid, created, idle, status) =
            (if shell_pid s = 0 then (dash, dash, dash, dash, ascii ''starting'')
             else (pty_path s, dec (unat (shell_pid s)), timestamp (created_at s), format_idle now (last_activity s), status))
      in [dec (unat (entry_id s)), nm, foreground_cmd s, shorten_home (cwd s), client_name s, pty, pid, created, idle,
          format_linger s now, status])"

definition SESSION_TABLE_HEADERS :: "rstring list" where
  "SESSION_TABLE_HEADERS =
     [ascii ''ID'', ascii ''Name'', ascii ''Cmd'', ascii ''CWD'', ascii ''Client'', ascii ''PTY'', ascii ''PID'',
      ascii ''Created'', ascii ''Idle'', ascii ''Linger'', ascii ''Status'']"

definition COMPACT_COLUMNS :: "nat list" where
  "COMPACT_COLUMNS = [1, 2, 3, 4, 8, 9, 10]"

definition select_columns :: "'a list \<Rightarrow> bool \<Rightarrow> 'a list" where
  "select_columns cols full =
     map snd (filter (\<lambda>(i, _). full \<or> i \<in> set COMPACT_COLUMNS) (zip [0..<length cols] cols))"

definition table_headers :: "bool \<Rightarrow> rstring list" where
  "table_headers full = select_columns SESSION_TABLE_HEADERS full"

definition table_row :: "(u64 \<Rightarrow> rstring) \<Rightarrow> SessionEntry \<Rightarrow> u64 \<Rightarrow> rstring \<Rightarrow> bool \<Rightarrow> rstring list" where
  "table_row timestamp s now client full = select_columns (session_status_cols timestamp s now client) full"

text \<open>\<open>order_sessions\<close>: own sessions, then others by namespace, those without one last: a stable
  sort by the three keys, the most significant one last.\<close>

definition namespace :: "SessionEntry \<Rightarrow> rstring option" where
  "namespace s = map_option fst (split_once SLASH (name s))"

definition order_sessions :: "SessionEntry list \<Rightarrow> rstring \<Rightarrow> (SessionEntry \<times> bool) list" where
  "order_sessions ss client =
     (let own = (\<lambda>s. client \<noteq> [] \<and> own_prefix client s);
          by_space = sort_key (\<lambda>(s, own). unwrap_or (namespace s) []) (map (\<lambda>s. (s, own s)) ss);
          by_none = sort_key (\<lambda>(s, own). namespace s = None) by_space
      in sort_key (\<lambda>(s, own). \<not> own) by_none)"

text \<open>
  \<open>print_session_table\<close>: the lines printed; None is the panic on the header of an empty table or on a
  row with too few cells.
\<close>

definition bold :: "rstring \<Rightarrow> rstring" where
  "bold line = 0x1B # ascii ''[1m'' @ line @ 0x1B # ascii ''[0m''"

definition session_table ::
  "(rstring \<Rightarrow> nat) \<Rightarrow> (u64 \<Rightarrow> rstring) \<Rightarrow> SessionEntry list \<Rightarrow> u64 \<Rightarrow> rstring \<Rightarrow> bool \<Rightarrow> rstring
     \<Rightarrow> rstring list option" where
  "session_table w timestamp ss now client full indent =
     (let ordered = order_sessions ss client
      in case format_table w (table_headers full) (map (\<lambda>(s, _). table_row timestamp s now client full) ordered) of
           None \<Rightarrow> None
         | Some [] \<Rightarrow> None
         | Some (header # body) \<Rightarrow>
             Some ((indent @ header) # map (\<lambda>((_, own), line). indent @ (if own then bold line else line)) (zip ordered body)))"

section \<open>Pruning\<close>

definition prune_selection ::
  "SessionEntry list \<Rightarrow> u64 \<Rightarrow> rstring list \<Rightarrow> nat option \<Rightarrow> bool \<Rightarrow> SessionEntry list" where
  "prune_selection ss now clients idle_secs all =
     filter (\<lambda>s.
         if all then True
         else if clients \<noteq> [] \<and> \<not> (case namespace s of Some ns \<Rightarrow> ns \<in> set clients | None \<Rightarrow> False) then False
         else if (case idle_secs of
               Some n \<Rightarrow> last_activity s = 0 \<or> unat now - unat (last_activity s) < n | None \<Rightarrow> False) then False
         else True)
       (filter (\<lambda>s. \<not> attached s) ss)"

text \<open>What \<open>prune_sessions\<close> offers or kills, and the requests it sends, by the sessions' identifiers.\<close>

definition prune_candidates ::
  "SessionEntry list \<Rightarrow> u64 \<Rightarrow> rstring list \<Rightarrow> nat option \<Rightarrow> bool \<Rightarrow> bool \<Rightarrow> SessionEntry list" where
  "prune_candidates ss now clients idle_secs all picking =
     prune_selection ss now clients idle_secs (all \<or> picking \<and> clients = [] \<and> idle_secs = None)"

definition prune_requests :: "SessionEntry list \<Rightarrow> Frame list" where
  "prune_requests victims = map (\<lambda>s. KillSession (dec (unat (entry_id s)))) victims"

datatype KillTarget = OnHost rstring rstring | HostOnly rstring

definition parse_kill_target :: "ConfigFile \<Rightarrow> rstring \<Rightarrow> rstring list \<Rightarrow> KillTarget" where
  "parse_kill_target cfg target known_tunnels =
     (if COLON \<in> set target then
        (case parse_target cfg target of
           (host, Some session) \<Rightarrow> OnHost host session
         | (host, None) \<Rightarrow> HostOnly host)
      else
        (let canonical = canonical_host cfg target
         in if canonical \<noteq> target \<or> target = ascii ''local'' \<or> target \<in> set known_tunnels
            then HostOnly canonical
            else OnHost (ascii ''local'') target))"

section \<open>Hosts\<close>

text \<open>A probed host with its tunnel's destination and status, and the daemon's answer.\<close>

type_synonym Member = "rstring \<times> (rstring \<times> rstring) option"

record ProbedHost =
  ph_member :: Member
  ph_outcome :: "rstring + (u64 \<times> SessionEntry list)"

type_synonym HostGroup = "Member list \<times> (rstring + SessionEntry list)"

fun join_group :: "u64 \<Rightarrow> Member \<Rightarrow> SessionEntry list \<Rightarrow> (u64 option \<times> HostGroup) list \<Rightarrow> (u64 option \<times> HostGroup) list" where
  "join_group i m ss [] = [(Some i, ([m], Inr ss))]"
| "join_group i m ss ((k, g) # gs) =
     (if k = Some i then (k, (fst g @ [m], snd g)) # gs else (k, g) # join_group i m ss gs)"

definition group_by_daemon :: "ProbedHost list \<Rightarrow> HostGroup list" where
  "group_by_daemon probed =
     map snd (foldl (\<lambda>keyed p. case ph_outcome p of
         Inr (i, ss) \<Rightarrow> join_group i (ph_member p) ss keyed
       | Inl e \<Rightarrow> keyed @ [(None, ([ph_member p], Inl e))]) [] probed)"

definition is_listable :: "ProbedHost \<Rightarrow> bool" where
  "is_listable p \<longleftrightarrow>
     fst (ph_member p) = ascii ''local'' \<or> snd (ph_member p) \<noteq> None
     \<or> (case ph_outcome p of Inr _ \<Rightarrow> True | Inl _ \<Rightarrow> False)"

text \<open>\<open>group_header\<close>: the names, and the annotation.\<close>

fun informative :: "rstring list \<Rightarrow> rstring list \<Rightarrow> Member list \<Rightarrow> rstring list" where
  "informative names parts [] = parts"
| "informative names parts ((h, t) # ms) =
     (case t of
        Some (dest, _) \<Rightarrow>
          informative names (if dest \<notin> set names \<and> dest \<notin> set parts then parts @ [dest] else parts) ms
      | None \<Rightarrow> informative names parts ms)"

definition group_header :: "HostGroup \<Rightarrow> rstring \<times> rstring option" where
  "group_header g =
     (let members = fst g;
          names = map fst members;
          parts = informative names [] members;
          parts = parts @ (if 1 < length members then [ascii ''same daemon''] else []);
          statuses = List.map_filter (\<lambda>(_, t). map_option snd t) members;
          parts = parts @ (if statuses \<noteq> [] then
              [case find (\<lambda>s. s \<noteq> ascii ''healthy'') statuses of Some s \<Rightarrow> s | None \<Rightarrow> ascii ''healthy''] else [])
      in (join (ascii '', '') names, if parts = [] then None else Some (join (ascii '', '') parts)))"

end
