(* ===== verification/Session_List_Proofs.thy ===== *)
theory Session_List_Proofs
  imports Session_List Daemon_Safety
begin

text \<open>
  That the listing commands agree with the daemon: the linger column with the reaper, pruning with
  what is removed, the suggested name with what is free; and that the tables never panic.
\<close>

section \<open>The linger column\<close>

text \<open>
  The linger column and the reaper agree: \<open>ls\<close> shows zero seconds for a session exactly when the
  daemon's linger pass at that second would remove it.
\<close>

theorem ls_linger_matches_reaper:
  "format_linger (build_entry e la (i, s)) now = ascii ''0s'' \<longleftrightarrow> linger_expired now s"
proof (cases "st_meta s")
  case None
  then show ?thesis by (simp add: format_linger_def build_entry_def linger_expired_def)
next
  case (Some m)
  have "unat (sm_linger m) = 0 \<longleftrightarrow> sm_linger m = 0" by (simp add: unat_eq_zero)
  with Some show ?thesis
    by (simp add: format_linger_def build_entry_def linger_expired_def Let_def format_duration_zero del: ascii_simps)
      (auto simp: ascii_def)
qed

section \<open>Suggested names\<close>

lemma slot_name_inj: "slot_name client m = slot_name client n \<Longrightarrow> m = n"
proof -
  assume eq: "slot_name client m = slot_name client n"
  have "dec k \<noteq> ascii ''-''" "SLASH \<notin> set (dec k)" for k
    using dec_not_dash [of k] dec_digits [of SLASH k] by (auto simp: is_digit_def)
  then have "slot_name client k = client @ SLASH # dec k" for k
    by (simp add: slot_name_def resolve_session_name_def)
  with eq have "dec m = dec n" by simp
  then show ?thesis using undec_dec by metis
qed

text \<open>
  The suggested name is the first free slot: some slot of the user's namespace is always
  suggested, no listed session has it, and every lower slot is taken.
\<close>

theorem suggestion_is_first_free:
  "case suggest_name taken client of
     None \<Rightarrow> False
   | Some nm \<Rightarrow> nm \<notin> set taken
       \<and> (\<exists>n. nm = slot_name client n \<and> list_all (\<lambda>m. slot_name client m \<in> set taken) [0..<n])"
proof -
  have "\<not> slot_name client ` {..<Suc (length taken)} \<subseteq> set taken"
  proof
    assume "slot_name client ` {..<Suc (length taken)} \<subseteq> set taken"
    then have "card (slot_name client ` {..<Suc (length taken)}) \<le> length taken"
      by (meson card_length card_mono finite_set le_trans)
    moreover have "card (slot_name client ` {..<Suc (length taken)}) = Suc (length taken)"
      by (subst card_image) (auto intro: inj_onI slot_name_inj)
    ultimately show False by simp
  qed
  then have "\<exists>n \<in> set [0..<Suc (length taken)]. slot_name client n \<notin> set taken"
    by (auto simp: atLeast0LessThan simp del: upt_Suc)
  then obtain n where f: "find (\<lambda>n. slot_name client n \<notin> set taken) [0..<Suc (length taken)] = Some n"
    by (metis (mono_tags, lifting) find_None_iff not_None_eq)
  then obtain i where i: "i < length [0..<Suc (length taken)]" "n = [0..<Suc (length taken)] ! i"
      "slot_name client n \<notin> set taken" "\<And>j. j < i \<Longrightarrow> slot_name client ([0..<Suc (length taken)] ! j) \<in> set taken"
    by (auto simp: find_Some_iff simp del: upt_Suc)
  then have "n = i" by (simp del: upt_Suc)
  moreover have "slot_name client j \<in> set taken" if "j < i" for j
    using i(1) i(4) [of j] that by (simp del: upt_Suc)
  ultimately show ?thesis using f i(3) by (auto simp: suggest_name_def list_all_iff simp del: upt_Suc)
qed

section \<open>Tables\<close>

lemma select_length: "length xs = length ys \<Longrightarrow> length (select_columns xs full) = length (select_columns ys full)"
proof -
  assume len: "length xs = length ys"
  have count: "length (filter (\<lambda>(i, _). P i) (zip ns zs)) = length (filter P ns)"
    if "length ns = length zs" for P :: "nat \<Rightarrow> bool" and ns and zs :: "'c list"
    using that by (induction ns zs rule: list_induct2) auto
  show ?thesis using len
    by (simp add: select_columns_def count)
qed

lemma row_cells: "length (table_row timestamp s now client full) = length (table_headers full)"
  unfolding table_row_def table_headers_def
  by (rule select_length) (simp add: session_status_cols_def SESSION_TABLE_HEADERS_def Let_def)

lemma order_length: "length (order_sessions ss client) = length ss"
  by (simp add: order_sessions_def Let_def)

text \<open>
  The table never panics but for no sessions, which its callers exclude: every row has a cell for
  each header in either layout, and one line is printed for the header and one for each session.
\<close>

theorem session_table_total:
  "case session_table w timestamp ss now client full indent of
     None \<Rightarrow> ss = [] | Some body \<Rightarrow> ss \<noteq> [] \<and> length body = Suc (length ss)"
proof (cases "ss = []")
  case True
  then show ?thesis by (simp add: session_table_def order_sessions_def format_table_def)
next
  case False
  let ?rows = "map (\<lambda>(s, _). table_row timestamp s now client full) (order_sessions ss client)"
  have "\<not> list_ex (\<lambda>r. length r < length (table_headers full)) ?rows"
    by (auto simp: list_ex_iff row_cells)
  moreover have "?rows \<noteq> []" using False order_length [of ss client] by auto
  ultimately obtain body where "format_table w (table_headers full) ?rows = Some body" "length body = Suc (length ?rows)"
    by (auto simp: format_table_def Let_def)
  with False show ?thesis
    by (cases body) (auto simp: session_table_def Let_def order_length)
qed

section \<open>Pruning\<close>

definition prunable :: "u64 \<Rightarrow> rstring list \<Rightarrow> nat option \<Rightarrow> bool \<Rightarrow> SessionEntry \<Rightarrow> bool" where
  "prunable now clients idle_secs all s \<longleftrightarrow> prune_selection [s] now clients idle_secs all = [s]"

lemma prune_filter: "prune_selection ss now clients idle_secs all = filter (prunable now clients idle_secs all) ss"
  by (simp add: prune_selection_def prunable_def filter_filter cong: filter_cong)

definition kill_all :: "DaemonEnv \<Rightarrow> u32 \<Rightarrow> u64 \<Rightarrow> Frame list \<Rightarrow> Daemon \<Rightarrow> Daemon" where
  "kill_all e caps device fs d = foldl (\<lambda>d f. fst (dispatch_control e d caps device f)) d fs"

lemma kill_resolved:
  assumes "table_ok (sessions d)" and "reap_sessions (sessions d) = sessions d" and "(i, s) \<in> set (sessions d)"
    and "resolve_session (sessions d) target (last_attached d) = Some i"
  shows "sessions (fst (dispatch_control e d caps device (KillSession target))) = filter (\<lambda>x. fst x \<noteq> i) (sessions d)"
proof -
  have "session_of (sessions d) i = Some s"
    using assms(1,3) by (simp add: session_of_def table_ok_def ids_def)
  then show ?thesis using assms(2,4)
    by (auto simp: dispatch_control_def kill_session_def with_live_def resolve_live_session_def
        abort_session_def remove_session_filter Let_def refuse_def)
qed

lemma kill_by_id:
  assumes ok: "table_ok (sessions d)" and alive: "reap_sessions (sessions d) = sessions d" and i: "i \<in> set (ids (sessions d))"
  shows "sessions (fst (dispatch_control e d caps device (KillSession (dec (unat i)))))
    = filter (\<lambda>x. fst x \<noteq> i) (sessions d)"
proof -
  obtain s where s: "(i, s) \<in> set (sessions d)" using i by (auto simp: ids_def)
  with ok have "resolve_session (sessions d) (dec (unat i)) (last_attached d) = Some i" by (rule resolve_id)
  with ok alive s show ?thesis by (rule kill_resolved)
qed

lemma entry_resolves:
  assumes "table_ok ss" and "(i, s) \<in> set ss"
  shows "resolve_session ss (session_wire_name (build_entry e la (i, s))) la' = Some i"
proof -
  have eid: "entry_id (build_entry e la (i, s)) = i" by (simp add: build_entry_def split: option.split)
  have nm: "name (build_entry e la (i, s)) = (case st_name s of Some n \<Rightarrow> n | None \<Rightarrow> [])"
    by (simp add: build_entry_def split: option.split)
  show ?thesis
  proof (cases "name (build_entry e la (i, s)) = []")
    case True
    then show ?thesis using resolve_id [OF assms] by (simp add: session_wire_name_def eid)
  next
    case False
    then obtain n where "st_name s = Some n" using nm by (cases "st_name s") auto
    then show ?thesis using resolve_name [OF assms] False by (simp add: session_wire_name_def nm)
  qed
qed

lemma kill_ids:
  assumes "table_ok (sessions d)" and "reap_sessions (sessions d) = sessions d"
    and "distinct is" and "set is \<subseteq> set (ids (sessions d))"
  shows "sessions (kill_all e caps device (map (\<lambda>i. KillSession (dec (unat i))) is) d)
    = filter (\<lambda>x. fst x \<notin> set is) (sessions d)"
  using assms
proof (induction "is" arbitrary: d)
  case (Cons i js)
  let ?d = "fst (dispatch_control e d caps device (KillSession (dec (unat i))))"
  have step: "sessions ?d = filter (\<lambda>x. fst x \<noteq> i) (sessions d)"
    using Cons.prems by (intro kill_by_id) auto
  have "set js \<subseteq> set (ids (sessions ?d))"
  proof
    fix j assume j: "j \<in> set js"
    with Cons.prems(4) obtain x where "x \<in> set (sessions d)" "fst x = j" by (auto simp: ids_def)
    then show "j \<in> set (ids (sessions ?d))" using j Cons.prems(3) by (force simp: step ids_def)
  qed
  moreover have "reap_sessions (sessions ?d) = sessions ?d"
    using Cons.prems(2) unfolding step reap_sessions_def filter_id_conv by simp
  moreover have "table_ok (sessions ?d)" using Cons.prems(1) by (simp add: step table_ok_filter)
  ultimately have "sessions (kill_all e caps device (map (\<lambda>i. KillSession (dec (unat i))) js) ?d)
      = filter (\<lambda>x. fst x \<notin> set js) (sessions ?d)"
    using Cons.prems(3) by (intro Cons.IH) simp_all
  then show ?case by (simp add: kill_all_def step filter_filter cong: filter_cong)
qed (simp add: kill_all_def)

text \<open>The sessions left when the selected ones of a listing are taken out by their identifiers.\<close>

lemma selected_entries:
  fixes P e la
  assumes "table_ok ss"
  defines "vs \<equiv> filter P (build_session_entries e ss la)"
  shows "distinct (map entry_id vs)" "entry_id ` set vs \<subseteq> set (ids ss)"
    "filter (\<lambda>x. fst x \<notin> entry_id ` set vs) ss = filter (\<lambda>x. \<not> P (build_entry e la x)) ss"
proof -
  have eid: "entry_id (build_entry e la x) = fst x" for x
    by (simp add: build_entry_def Let_def split: prod.split option.split)
  have "mset (map entry_id (build_session_entries e ss la)) = mset (ids ss)"
    by (simp add: build_session_entries_def ids_def eid image_mset.compositionality comp_def)
  then have "distinct (map entry_id (build_session_entries e ss la))"
    using assms(1) mset_eq_imp_distinct_iff unfolding table_ok_def by blast
  then show "distinct (map entry_id vs)" unfolding vs_def by (rule distinct_map_filter)
  have members: "set (build_session_entries e ss la) = build_entry e la ` set ss"
    by (simp add: build_session_entries_def)
  show "entry_id ` set vs \<subseteq> set (ids ss)" using members by (force simp: vs_def eid ids_def)
  have sel: "fst x \<in> entry_id ` set vs \<longleftrightarrow> P (build_entry e la x)" if x: "x \<in> set ss" for x
  proof
    assume "fst x \<in> entry_id ` set vs"
    then obtain y where y: "y \<in> set ss" "P (build_entry e la y)" "fst y = fst x"
      using members by (auto simp: vs_def eid)
    have "y = x" using assms(1) y(1,3) x by (metis ids_def table_ok_def distinct_map inj_onD)
    with y(2) show "P (build_entry e la x)" by simp
  next
    assume "P (build_entry e la x)"
    then have "build_entry e la x \<in> set vs" using x by (simp add: vs_def members)
    then have "entry_id (build_entry e la x) \<in> entry_id ` set vs" by (rule imageI)
    then show "fst x \<in> entry_id ` set vs" by (simp only: eid)
  qed
  show "filter (\<lambda>x. fst x \<notin> entry_id ` set vs) ss = filter (\<lambda>x. \<not> P (build_entry e la x)) ss"
    using sel by (intro filter_cong) auto
qed

lemma prunable_detached: "prunable now clients idle_secs all s \<Longrightarrow> \<not> attached s"
  by (cases "attached s") (simp_all add: prunable_def prune_selection_def)

text \<open>
  Pruning removes what it showed, no more and no less: killing the selected sessions of a listing by
  their identifiers leaves exactly the sessions that were not selected -- an attached one never is --
  in whatever state of the table, whatever the sessions are called.
\<close>

theorem prune_removes_exactly:
  fixes evs
  defines "d \<equiv> fst (daemon_run daemon_start evs)"
  defines "ss \<equiv> reap_sessions (sessions d)"
  shows "sessions (kill_all e' caps device
      (prune_requests (prune_selection (build_session_entries e ss la) now clients idle_secs all)) (d\<lparr>sessions := ss\<rparr>))
    = filter (\<lambda>x. \<not> (\<not> attached (build_entry e la x) \<and> prunable now clients idle_secs all (build_entry e la x))) ss"
proof -
  let ?P = "prunable now clients idle_secs all"
  let ?victims = "filter ?P (build_session_entries e ss la)"
  have "table_ok (sessions d)" unfolding d_def by (rule table_ok_run) (simp add: daemon_start_def table_ok_def)
  then have ok: "table_ok ss" unfolding ss_def by (rule table_ok_reap)
  have alive: "reap_sessions ss = ss" by (simp add: ss_def reap_sessions_def)
  have "sessions (kill_all e' caps device (prune_requests ?victims) (d\<lparr>sessions := ss\<rparr>))
      = filter (\<lambda>x. fst x \<notin> entry_id ` set ?victims) ss"
    using kill_ids [of "d\<lparr>sessions := ss\<rparr>" "map entry_id ?victims"] ok alive selected_entries(1,2) [OF ok]
    by (simp add: prune_requests_def comp_def)
  also have "\<dots> = filter (\<lambda>x. \<not> (\<not> attached (build_entry e la x) \<and> ?P (build_entry e la x))) ss"
    unfolding selected_entries(3) [OF ok] using prunable_detached by (intro filter_cong) auto
  finally show ?thesis by (simp add: prune_filter)
qed

end
