(* ===== verification/Line_Editor.thy ===== *)
theory Line_Editor
  imports Strings
begin

text \<open>
  The line editor of the session picker, from \<open>tui_pick_session\<close> in
  \<open>src/src/commands/session.rs\<close>: a buffer of UTF-8 bytes and a byte position, whose every slice,
  insertion and removal panics off a character boundary, and the editor it implements, which moves
  between characters.
\<close>

section \<open>Positions in a string\<close>

definition is_char_boundary :: "rstring \<Rightarrow> nat \<Rightarrow> bool" where
  "is_char_boundary s pos \<longleftrightarrow> pos = 0 \<or> pos = length s \<or> (pos < length s \<and> \<not> is_cont (s ! pos))"

text \<open>The length of a character by its first byte.\<close>

definition char_len :: "byte \<Rightarrow> nat" where
  "char_len b = (if b < 0x80 then 1 else if b < 0xE0 then 2 else if b < 0xF0 then 3 else 4)"

fun prev_char_boundary :: "rstring \<Rightarrow> nat \<Rightarrow> nat" where
  "prev_char_boundary s 0 = 0"
| "prev_char_boundary s (Suc pos) = (if is_char_boundary s pos then pos else prev_char_boundary s pos)"

definition next_char_boundary :: "rstring \<Rightarrow> nat \<Rightarrow> nat option" where
  "next_char_boundary s pos =
     (if is_char_boundary s pos
      then Some (case drop pos s of [] \<Rightarrow> pos | b # _ \<Rightarrow> pos + char_len b) else None)"

text \<open>\<open>String::insert\<close>, \<open>String::remove\<close> and \<open>String::drain\<close>, with their panics.\<close>

definition insert_char :: "rstring \<Rightarrow> nat \<Rightarrow> rstring \<Rightarrow> rstring option" where
  "insert_char s pos c = (if is_char_boundary s pos then Some (take pos s @ c @ drop pos s) else None)"

definition remove_char :: "rstring \<Rightarrow> nat \<Rightarrow> rstring option" where
  "remove_char s pos =
     (if is_char_boundary s pos
      then (case drop pos s of [] \<Rightarrow> None | b # _ \<Rightarrow> Some (take pos s @ drop (pos + char_len b) s))
      else None)"

definition drain :: "rstring \<Rightarrow> nat \<Rightarrow> nat \<Rightarrow> rstring option" where
  "drain s i j =
     (if i \<le> j \<and> is_char_boundary s i \<and> is_char_boundary s j then Some (take i s @ drop j s) else None)"

definition rfind :: "byte \<Rightarrow> rstring \<Rightarrow> nat option" where
  "rfind c s = map_option (\<lambda>(h, _). length h) (rsplit_once c s)"

section \<open>The editor\<close>

datatype EditKey =
    ToStart | ToEnd | KillLine | KillWord | EraseBefore | EraseAt | MoveLeft | MoveRight | TypeChar rstring

definition word_start :: "rstring \<Rightarrow> nat" where
  "word_start before = (case rfind 0x20 (trim_end before) of None \<Rightarrow> 0 | Some i \<Rightarrow> i + 1)"

fun edit :: "EditKey \<Rightarrow> rstring \<times> nat \<Rightarrow> (rstring \<times> nat) option" where
  "edit ToStart (buf, pos) = Some (buf, 0)"
| "edit ToEnd (buf, pos) = Some (buf, length buf)"
| "edit KillLine (buf, pos) = map_option (\<lambda>buf. (buf, 0)) (drain buf 0 pos)"
| "edit KillWord (buf, pos) =
     (if is_char_boundary buf pos
      then map_option (\<lambda>b. (b, word_start (take pos buf))) (drain buf (word_start (take pos buf)) pos)
      else None)"
| "edit EraseBefore (buf, pos) =
     (if 0 < pos
      then map_option (\<lambda>b. (b, prev_char_boundary buf pos)) (remove_char buf (prev_char_boundary buf pos))
      else Some (buf, pos))"
| "edit EraseAt (buf, pos) =
     (if pos < length buf then map_option (\<lambda>b. (b, pos)) (remove_char buf pos) else Some (buf, pos))"
| "edit MoveLeft (buf, pos) = Some (buf, prev_char_boundary buf pos)"
| "edit MoveRight (buf, pos) = map_option (Pair buf) (next_char_boundary buf pos)"
| "edit (TypeChar c) (buf, pos) = map_option (\<lambda>b. (b, pos + length c)) (insert_char buf pos c)"

fun edits :: "EditKey list \<Rightarrow> rstring \<times> nat \<Rightarrow> (rstring \<times> nat) option" where
  "edits [] s = Some s"
| "edits (k # ks) s = Option.bind (edit k s) (edits ks)"

section \<open>The editor on characters\<close>

text \<open>One character in UTF-8.\<close>

fun is_char :: "rstring \<Rightarrow> bool" where
  "is_char [] \<longleftrightarrow> False"
| "is_char (b # bs) \<longleftrightarrow> utf8_valid (b # bs) \<and> length (b # bs) = char_len b"

text \<open>The characters before and after the cursor.\<close>

type_synonym Zipper = "rstring list \<times> rstring list"

definition is_space_char :: "rstring \<Rightarrow> bool" where
  "is_space_char c \<longleftrightarrow> c \<in> set whitespace"

fun zip_edit :: "EditKey \<Rightarrow> Zipper \<Rightarrow> Zipper" where
  "zip_edit ToStart (xs, ys) = ([], xs @ ys)"
| "zip_edit ToEnd (xs, ys) = (xs @ ys, [])"
| "zip_edit KillLine (xs, ys) = ([], ys)"
| "zip_edit KillWord (xs, ys) =
     (rev (dropWhile (\<lambda>c. c \<noteq> [0x20]) (dropWhile is_space_char (rev xs))), ys)"
| "zip_edit EraseBefore (xs, ys) = (butlast xs, ys)"
| "zip_edit EraseAt (xs, ys) = (xs, tl ys)"
| "zip_edit MoveLeft (xs, ys) = (if xs = [] then (xs, ys) else (butlast xs, last xs # ys))"
| "zip_edit MoveRight (xs, ys) = (case ys of [] \<Rightarrow> (xs, ys) | y # ys \<Rightarrow> (xs @ [y], ys))"
| "zip_edit (TypeChar c) (xs, ys) = (xs @ [c], ys)"

fun key_ok :: "EditKey \<Rightarrow> bool" where
  "key_ok (TypeChar c) \<longleftrightarrow> is_char c"
| "key_ok _ \<longleftrightarrow> True"

definition zip_ok :: "Zipper \<Rightarrow> bool" where
  "zip_ok z \<longleftrightarrow> list_all is_char (fst z @ snd z)"

definition text_of :: "Zipper \<Rightarrow> rstring \<times> nat" where
  "text_of z = (concat (fst z @ snd z), length (concat (fst z)))"

section \<open>Characters and boundaries\<close>

lemma is_charD:
  assumes "is_char c"
  shows "c \<noteq> []" "\<not> is_cont (hd c)" "list_all is_cont (tl c)" "length c = char_len (hd c)" "utf8_valid c"
proof -
  from assms obtain b bs where c: "c = b # bs" by (cases c) auto
  with assms have v: "utf8_valid (b # bs)" and len: "length (b # bs) = char_len b" by (simp_all del: utf8_valid.simps)
  show "c \<noteq> []" "length c = char_len (hd c)" "utf8_valid c" using v len by (simp_all add: c del: utf8_valid.simps)
  have cont: "is_cont d" if "second_ok b d" for d
    using that unfolding second_ok_def is_cont_def by (auto simp: word_le_nat_alt split: if_splits)
  have "\<not> is_cont b \<and> list_all is_cont bs"
    using v
  proof (cases rule: utf8_valid_cases)
    case one
    then show ?thesis using len by (auto simp: byte_class_defs char_len_def)
  next
    case (two d r)
    have "length bs = 1" using two(2) len by (simp add: lead2_def char_len_def word_less_nat_alt word_le_nat_alt)
    then show ?thesis using two by (auto simp: lead2_def is_cont_def word_less_nat_alt word_le_nat_alt)
  next
    case (three d e r)
    have "length bs = 2" using three(3) len by (simp add: lead3_def char_len_def word_less_nat_alt word_le_nat_alt)
    then show ?thesis using three cont by (auto simp: lead3_def is_cont_def word_less_nat_alt word_le_nat_alt)
  next
    case (four d e f r)
    have "length bs = 3" using four(4) len by (simp add: lead4_def char_len_def word_less_nat_alt word_le_nat_alt)
    then show ?thesis using four cont by (auto simp: lead4_def is_cont_def word_less_nat_alt word_le_nat_alt)
  qed
  then show "\<not> is_cont (hd c)" "list_all is_cont (tl c)" by (simp_all add: c)
qed

lemma concat_valid: "list_all is_char cs \<Longrightarrow> utf8_valid (concat cs)"
  by (induction cs) (auto intro: utf8_valid_append dest: is_charD)

lemma boundary_concat:
  assumes "list_all is_char ys"
  shows "is_char_boundary (concat xs @ concat ys) (length (concat xs))"
proof (cases ys)
  case (Cons y zs)
  with assms have "y \<noteq> []" "\<not> is_cont (hd y)" by (simp_all add: is_charD)
  then show ?thesis by (simp add: Cons is_char_boundary_def nth_append hd_conv_nth)
qed (simp add: is_char_boundary_def)

lemma inside_char:
  assumes "is_char c" and "0 < j" and "j < length c"
  shows "\<not> is_char_boundary (s @ c @ t) (length s + j)"
proof -
  have "c ! j = tl c ! (j - 1)" using assms(2,3) by (cases c) simp_all
  moreover have "is_cont (tl c ! (j - 1))"
    using is_charD(3) [OF assms(1)] assms(2,3) by (simp add: list_all_length)
  ultimately show ?thesis using assms(2,3) by (simp add: is_char_boundary_def nth_append)
qed

lemma prev_inside:
  assumes "is_char c" and "is_char_boundary (s @ c @ t) (length s)" and "j < length c"
  shows "prev_char_boundary (s @ c @ t) (length s + Suc j) = length s"
  using assms(3)
proof (induction j)
  case 0
  then show ?case using assms(2) by simp
next
  case (Suc j)
  then show ?case using inside_char [OF assms(1), of "Suc j" s t] by simp
qed

lemma prev_concat:
  assumes "is_char c" and "list_all is_char ys"
  shows "prev_char_boundary (concat xs @ c @ concat ys) (length (concat xs) + length c) = length (concat xs)"
proof -
  have "is_char_boundary (concat xs @ c @ concat ys) (length (concat xs))"
    using boundary_concat [of "c # ys" xs] assms by simp
  moreover obtain j where "length c = Suc j" using is_charD(1) [OF assms(1)] by (cases c) auto
  ultimately show ?thesis using prev_inside [OF assms(1), of "concat xs" "concat ys" j] by simp
qed

lemma first_char: "is_char c \<Longrightarrow> \<exists>b bs. c = b # bs \<and> char_len b = length c"
  by (cases c) auto

section \<open>Trailing white space\<close>

lemma whitespace_chars: "list_all is_char whitespace"
  by (simp add: whitespace_def char_len_def byte_class_defs second_ok_def)

lemma suffix_char:
  assumes "is_char c" and "is_char w"
  shows "strip_suffix w (s @ c) \<noteq> None \<longleftrightarrow> w = c"
proof
  assume "strip_suffix w (s @ c) \<noteq> None"
  then obtain r where r: "s @ c = r @ w"
    by (metis append_take_drop_id strip_suffix_def)
  then consider u where "c = u @ w" | u where "w = u @ c" by (auto simp: append_eq_append_conv2)
  then show "w = c"
  proof cases
    case 1
    show ?thesis
    proof (cases u)
      case (Cons b bs)
      with 1 is_charD(3) [OF assms(1)] have "list_all is_cont w" by simp
      with is_charD(1,2) [OF assms(2)] show ?thesis by (cases w) simp_all
    qed (use 1 in simp)
  next
    case 2
    show ?thesis
    proof (cases u)
      case (Cons b bs)
      with 2 is_charD(3) [OF assms(2)] have "list_all is_cont c" by simp
      with is_charD(1,2) [OF assms(1)] show ?thesis by (cases c) simp_all
    qed (use 2 in simp)
  qed
qed simp

lemma find_only: "c \<in> set ws \<Longrightarrow> (\<And>w. w \<in> set ws \<Longrightarrow> P w \<longleftrightarrow> w = c) \<Longrightarrow> find P ws = Some c"
  by (induction ws) auto

lemma trim_end_concat:
  "list_all is_char xs \<Longrightarrow> trim_end (concat xs) = concat (rev (dropWhile is_space_char (rev xs)))"
proof (induction xs rule: rev_induct)
  case Nil
  have "strip_suffix w [] = None" if "w \<in> set whitespace" for w :: rstring
    using that whitespace_nonempty by (auto simp: strip_suffix_def)
  then have "find (\<lambda>w. strip_suffix w [] \<noteq> None) whitespace = None" by (simp add: find_None_iff)
  then show ?case by (subst trim_end.simps) simp
next
  case (snoc c xs)
  then have c: "is_char c" and xs: "list_all is_char xs" by simp_all
  have suffix: "strip_suffix w (concat xs @ c) \<noteq> None \<longleftrightarrow> w = c" if "w \<in> set whitespace" for w
    using suffix_char [OF c] whitespace_chars that by (simp add: list_all_iff)
  show ?case
  proof (cases "is_space_char c")
    case True
    then have "find (\<lambda>w. strip_suffix w (concat xs @ c) \<noteq> None) whitespace = Some c"
      using suffix unfolding is_space_char_def by (intro find_only)
    then show ?thesis using snoc xs True by (subst trim_end.simps) simp
  next
    case False
    then have "find (\<lambda>w. strip_suffix w (concat xs @ c) \<noteq> None) whitespace = None"
      using suffix unfolding is_space_char_def find_None_iff by metis
    then show ?thesis using False by (subst trim_end.simps) simp
  qed
qed

section \<open>Words\<close>

lemma no_space: "is_char c \<Longrightarrow> c \<noteq> [0x20] \<Longrightarrow> 0x20 \<notin> set c"
proof
  assume c: "is_char c" "c \<noteq> [0x20]" and "0x20 \<in> set c"
  then consider "hd c = 0x20" | "0x20 \<in> set (tl c)" by (cases c) auto
  then show False
  proof cases
    case 1
    with is_charD(4) [OF c(1)] have "length c = 1" by (simp add: char_len_def)
    with 1 c(2) show False by (cases c) auto
  next
    case 2
    with is_charD(3) [OF c(1)] show False by (auto simp: list_all_iff is_cont_def)
  qed
qed

definition to_space :: "rstring list \<Rightarrow> rstring list" where
  "to_space xs = rev (dropWhile (\<lambda>c. c \<noteq> [0x20]) (rev xs))"

lemma to_space_snoc: "to_space (xs @ [c]) = (if c = [0x20] then xs @ [c] else to_space xs)"
  by (simp add: to_space_def)

lemma rfind_concat:
  "list_all is_char xs \<Longrightarrow>
     (case rfind 0x20 (concat xs) of None \<Rightarrow> 0 | Some i \<Rightarrow> i + 1) = length (concat (to_space xs))"
proof (induction xs rule: rev_induct)
  case Nil
  then show ?case by (simp add: rfind_def rsplit_once_def to_space_def)
next
  case (snoc c xs)
  then have c: "is_char c" and xs: "list_all is_char xs" by simp_all
  show ?case
  proof (cases "c = [0x20]")
    case True
    have "rsplit_once 0x20 (concat xs @ 0x20 # []) = Some (concat xs, [])" by (rule rsplit_once_append) simp
    with True show ?thesis by (simp add: to_space_snoc rfind_def)
  next
    case False
    then have no: "0x20 \<notin> set c" using c no_space by blast
    then have "takeWhile (\<lambda>x. x \<noteq> 0x20) (rev c @ t) = rev c @ takeWhile (\<lambda>x. x \<noteq> 0x20) t"
      "dropWhile (\<lambda>x. x \<noteq> 0x20) (rev c @ t) = dropWhile (\<lambda>x. x \<noteq> 0x20) t" for t
      by (auto intro: takeWhile_append2 dropWhile_append2)
    then have "rfind 0x20 (concat xs @ c) = rfind 0x20 (concat xs)"
      using no by (simp add: rfind_def rsplit_once_def)
    with False snoc xs show ?thesis by (simp add: to_space_snoc)
  qed
qed

lemma word_start_concat:
  assumes "list_all is_char xs"
  shows "word_start (concat xs) = length (concat (to_space (rev (dropWhile is_space_char (rev xs)))))"
proof -
  have "list_all is_char (rev (dropWhile is_space_char (rev xs)))"
    using assms by (auto simp: list_all_iff dest: set_dropWhileD)
  then show ?thesis by (simp add: word_start_def trim_end_concat [OF assms] rfind_concat)
qed

lemma to_space_prefix: "\<exists>zs. xs = to_space xs @ zs"
  unfolding to_space_def by (metis rev_append rev_rev_ident takeWhile_dropWhile_id)

lemma kept_prefix: "\<exists>zs. xs = to_space (rev (dropWhile P (rev xs))) @ zs"
proof -
  have "xs = rev (dropWhile P (rev xs)) @ rev (takeWhile P (rev xs))"
    by (metis rev_append rev_rev_ident takeWhile_dropWhile_id)
  then show ?thesis using to_space_prefix [of "rev (dropWhile P (rev xs))"] by (metis append.assoc)
qed

section \<open>The refinement\<close>

lemma drain_chars:
  assumes "list_all is_char (zs @ ys)"
  shows "drain (concat (xs @ zs @ ys)) (length (concat xs)) (length (concat (xs @ zs))) = Some (concat (xs @ ys))"
  using boundary_concat [of "zs @ ys" xs] boundary_concat [of ys "xs @ zs"] assms
  by (simp add: drain_def)

lemma edit_refines:
  assumes "zip_ok z" and "key_ok k"
  shows "edit k (text_of z) = Some (text_of (zip_edit k z)) \<and> zip_ok (zip_edit k z)"
proof -
  obtain xs ys where z: "z = (xs, ys)" by fastforce
  with assms have xs: "list_all is_char xs" and ys: "list_all is_char ys" by (simp_all add: zip_ok_def)
  have at: "is_char_boundary (concat xs @ concat ys) (length (concat xs))" by (rule boundary_concat [OF ys])
  show ?thesis
  proof (cases k)
    case ToStart
    then show ?thesis using assms by (simp add: z text_of_def zip_ok_def)
  next
    case ToEnd
    then show ?thesis using assms by (simp add: z text_of_def zip_ok_def)
  next
    case KillLine
    then show ?thesis using drain_chars [of xs ys "[]"] xs ys by (simp add: z text_of_def zip_ok_def)
  next
    case KillWord
    let ?keep = "to_space (rev (dropWhile is_space_char (rev xs)))"
    obtain zs where zs: "xs = ?keep @ zs" using kept_prefix by blast
    then have keep: "list_all is_char ?keep" "list_all is_char zs" using xs by (metis list_all_append)+
    have "drain (concat (?keep @ zs @ ys)) (length (concat ?keep)) (length (concat (?keep @ zs))) = Some (concat (?keep @ ys))"
      by (rule drain_chars) (simp add: keep ys)
    then have "drain (concat xs @ concat ys) (length (concat ?keep)) (length (concat xs)) = Some (concat ?keep @ concat ys)"
      by (simp flip: zs add: concat_append [symmetric] append_assoc [symmetric] del: concat_append append_assoc)
    then show ?thesis using KillWord at keep ys
      by (simp add: z text_of_def zip_ok_def word_start_concat [OF xs] to_space_def)
  next
    case EraseBefore
    show ?thesis
    proof (cases xs rule: rev_cases)
      case (snoc us c)
      then have c: "is_char c" using xs by simp
      have "is_char_boundary (concat us @ c @ concat ys) (length (concat us))"
        using boundary_concat [of "c # ys" us] c ys by simp
      then have "remove_char (concat us @ c @ concat ys) (length (concat us)) = Some (concat us @ concat ys)"
        using first_char [OF c] by (auto simp: remove_char_def)
      then show ?thesis using EraseBefore prev_concat [OF c ys, of us] xs ys is_charD(1) [OF c]
        by (simp add: z snoc text_of_def zip_ok_def)
    qed (use EraseBefore assms in \<open>simp add: z text_of_def zip_ok_def\<close>)
  next
    case EraseAt
    show ?thesis
    proof (cases ys)
      case (Cons c vs)
      then have c: "is_char c" using ys by simp
      have "remove_char (concat xs @ c @ concat vs) (length (concat xs)) = Some (concat xs @ concat vs)"
        using at first_char [OF c] by (auto simp: remove_char_def Cons)
      then show ?thesis using EraseAt xs ys is_charD(1) [OF c] by (simp add: z Cons text_of_def zip_ok_def)
    qed (use EraseAt assms in \<open>simp add: z text_of_def zip_ok_def\<close>)
  next
    case MoveLeft
    show ?thesis
    proof (cases xs rule: rev_cases)
      case (snoc us c)
      then have c: "is_char c" using xs by simp
      then show ?thesis using MoveLeft prev_concat [OF c ys, of us] xs ys by (simp add: z snoc text_of_def zip_ok_def)
    qed (use MoveLeft assms in \<open>simp add: z text_of_def zip_ok_def\<close>)
  next
    case MoveRight
    show ?thesis
    proof (cases ys)
      case (Cons c vs)
      then have c: "is_char c" using ys by simp
      then show ?thesis using MoveRight at first_char [OF c] xs ys
        by (auto simp: z Cons text_of_def zip_ok_def next_char_boundary_def)
    qed (use MoveRight at assms in \<open>simp add: z text_of_def zip_ok_def next_char_boundary_def\<close>)
  next
    case (TypeChar c)
    then show ?thesis using assms at xs ys by (simp add: z text_of_def zip_ok_def insert_char_def)
  qed
qed

text \<open>
  C31. The byte buffer implements an editor on characters: whatever keys are pressed in whatever order,
  no slice, insertion or removal is off a character boundary (nothing panics), and buffer and position
  are those of the characters before and after the cursor under the same keys.
\<close>

theorem editor_refines_zipper:
  assumes "zip_ok z" and "list_all key_ok ks"
  shows "edits ks (text_of z) = Some (text_of (fold zip_edit ks z)) \<and> zip_ok (fold zip_edit ks z)"
  using assms
proof (induction ks arbitrary: z)
  case (Cons k ks)
  then show ?case using edit_refines [of z k] by simp
qed simp

theorem editor_refines_zipper_witness:
  "edits [TypeChar [0xC3, 0xA9], TypeChar [0x20], MoveLeft, EraseBefore, MoveRight, KillWord] ([0x61], 1) = Some ([], 0)"
proof -
  have "edits [TypeChar [0xC3, 0xA9], TypeChar [0x20], MoveLeft, EraseBefore, MoveRight, KillWord] (text_of ([[0x61]], []))
    = Some (text_of (fold zip_edit [TypeChar [0xC3, 0xA9], TypeChar [0x20], MoveLeft, EraseBefore, MoveRight, KillWord] ([[0x61]], [])))"
    by (rule editor_refines_zipper [THEN conjunct1])
      (simp_all add: zip_ok_def char_len_def byte_class_defs)
  then show ?thesis by (simp add: text_of_def is_space_char_def whitespace_def del: edits.simps)
qed

end
