(* ===== verification/Picker.thy ===== *)
theory Picker
  imports Session_List Line_Editor
begin

text \<open>
  The session picker, from \<open>src/src/commands/session.rs\<close> (\<open>build_rows\<close>, \<open>picker_lines\<close>,
  \<open>tui_pick_session\<close>): the rows, the lines drawn, and the event loop with its three modes.  The server's
  answers to the requests of a step come with the event; the terminal's events are crossterm's.
  The text \<open>{other:?}\<close> of an unexpected answer and the display width of a string are parameters.
\<close>

section \<open>Rows\<close>

record Row =
  r_id :: u32
  r_name :: rstring
  r_display :: rstring
  r_attached :: bool
  r_idle :: rstring
  r_cmd :: rstring
  r_cwd :: rstring
  r_client :: rstring
  r_hotkey :: "byte option"

definition build_row :: "u64 \<Rightarrow> rstring \<Rightarrow> nat \<Rightarrow> SessionEntry \<Rightarrow> Row" where
  "build_row now client i s =
     \<lparr>r_id = entry_id s, r_name = session_wire_name s,
      r_display = display_session_name (session_wire_name s) client, r_attached = attached s,
      r_idle = format_idle now (last_activity s), r_cmd = foreground_cmd s, r_cwd = shorten_home (cwd s),
      r_client = client_name s, r_hotkey = (if i < 9 then Some (0x31 + word_of_nat i) else None)\<rparr>"

definition build_rows :: "u64 \<Rightarrow> rstring \<Rightarrow> SessionEntry list \<Rightarrow> Row list" where
  "build_rows now client ss =
     (let ordered = sort_key (\<lambda>s. \<not> own_prefix client s) ss
      in map (\<lambda>(i, s). build_row now client i s) (zip [0..<length ordered] ordered))"

definition initial_cursor :: "Row list \<Rightarrow> nat" where
  "initial_cursor rows =
     (case find (\<lambda>i. \<not> r_attached (rows ! i)) [0..<length rows] of Some i \<Rightarrow> i | None \<Rightarrow> length rows)"

definition picker_cells :: "bool \<Rightarrow> Row \<Rightarrow> rstring list" where
  "picker_cells tagged r =
     [r_display r] @ (if tagged then [if r_attached r then ascii ''(attached)'' else []] else [])
       @ [r_idle r, r_cmd r, r_client r, r_cwd r]"

definition picker_lines :: "(rstring \<Rightarrow> nat) \<Rightarrow> Row list \<Rightarrow> (rstring \<times> rstring list) option" where
  "picker_lines w rows =
     (let tagged = list_ex r_attached rows;
          headers = [ascii ''Name''] @ (if tagged then [[]] else [])
            @ [ascii ''Idle'', ascii ''Cmd'', ascii ''Client'', ascii ''CWD'']
      in case format_table w headers (map (picker_cells tagged) rows) of
           None \<Rightarrow> None
         | Some [] \<Rightarrow> Some ([], [])
         | Some (header # ls) \<Rightarrow> Some (header, ls))"

section \<open>Drawing\<close>

text \<open>An escape sequence, and the pieces of the lines: the pointer and the styles.\<close>

definition esc :: "string \<Rightarrow> rstring" where
  "esc s = 0x1B # ascii s"

definition PICKER_POINTER :: rstring where
  "PICKER_POINTER = esc ''[32;1m'' @ [0xE2, 0x96, 0xB8] @ esc ''[0m''"

definition style_picker_line :: "rstring \<Rightarrow> bool \<Rightarrow> bool \<Rightarrow> rstring" where
  "style_picker_line line at_cursor dimmed =
     (if at_cursor then esc ''[32;1m'' @ line @ esc ''[0m''
      else if dimmed then esc ''[2m'' @ line @ esc ''[0m''
      else line)"

definition hotkey_label :: "Row \<Rightarrow> rstring" where
  "hotkey_label r = (case r_hotkey r of None \<Rightarrow> ascii ''  '' | Some c \<Rightarrow> [c, 0x29])"

definition erase_picker_lines :: "nat \<Rightarrow> rstring" where
  "erase_picker_lines n =
     (if n = 0 then []
      else esc ''['' @ dec n @ ascii ''A'' @ concat (replicate n (esc ''[2K'' @ [0x0D, 0x0A])) @ esc ''['' @ dec n @ ascii ''A'')"

datatype Mode = Pick | Input rstring nat "rstring option" | ConfirmKill

record Picker =
  p_rows :: "Row list"
  p_cursor :: nat
  p_mode :: Mode
  p_status :: "rstring option"
  p_drawn :: nat

record PickEnv =
  pk_host :: rstring
  pk_client :: rstring
  pk_width :: "rstring \<Rightarrow> nat"
  pk_debug :: "Frame option \<Rightarrow> rstring"

definition suggested_name :: "Row list \<Rightarrow> rstring \<Rightarrow> rstring" where
  "suggested_name rows client = (case suggest_name (map r_name rows) client of Some n \<Rightarrow> n | None \<Rightarrow> [])"

definition row_line :: "bool \<Rightarrow> nat \<Rightarrow> nat \<times> Row \<times> rstring \<Rightarrow> rstring" where
  "row_line picking cursor x =
     (case x of (i, row, line) \<Rightarrow>
        (let at_cursor = picking \<and> i = cursor
         in (if at_cursor then PICKER_POINTER else [0x20]) @ [0x20] @ esc ''[2m'' @ hotkey_label row @ esc ''[0m'' @ [0x20]
              @ style_picker_line line at_cursor (r_attached row)))"

text \<open>The new-session row, which is the input line while a name is edited; None is a panic of \<open>split_at\<close>.\<close>

definition input_line :: "PickEnv \<Rightarrow> Picker \<Rightarrow> rstring option" where
  "input_line env p =
     (let suggested = display_session_name (suggested_name (p_rows p) (pk_client env)) (pk_client env)
      in case p_mode p of
           Input buf pos rename_of \<Rightarrow>
             (if \<not> is_char_boundary buf pos then None
              else
                (let before = take pos buf; after = drop pos buf;
                     cursor_ch = (case after of [] \<Rightarrow> [0x20] | b # _ \<Rightarrow> take (char_len b) after)
                 in Some (PICKER_POINTER @ [0x20] @ esc ''[2m'' @ (if rename_of \<noteq> None then ascii ''r)'' else ascii ''c)'')
                      @ esc ''[0m'' @ [0x20] @ esc ''[32;1m'' @ before @ esc ''[7m'' @ cursor_ch @ esc ''[27m''
                      @ drop (length cursor_ch) after @ esc ''[0m'')))
         | _ \<Rightarrow>
             Some (if p_cursor p = length (p_rows p)
                   then PICKER_POINTER @ [0x20] @ esc ''[2m'' @ ascii ''n)'' @ esc ''[0m'' @ [0x20] @ esc ''[32;1m''
                     @ ascii ''new session '' @ esc ''[2m'' @ ascii ''('' @ suggested @ ascii '')'' @ esc ''[0m''
                   else ascii ''  '' @ esc ''[2m'' @ ascii ''n) new session ('' @ suggested @ ascii '')'' @ esc ''[0m''))"

text \<open>The hints; None is the panic of \<open>rows[cursor]\<close>.\<close>

definition hints :: "Picker \<Rightarrow> rstring option" where
  "hints p =
     (case p_mode p of
        Pick \<Rightarrow>
          Some (if p_rows p = [] then ascii ''enter/n new session  c new (named)  q quit''
                else [0xE2, 0x86, 0x91, 0xE2, 0x86, 0x93]
                  @ ascii '' move  enter/1-9 attach  f take over  n new  c new (named)  r rename  x kill  q quit'')
      | Input _ _ (Some _) \<Rightarrow> Some (ascii ''enter rename  esc back'')
      | Input _ _ None \<Rightarrow> Some (ascii ''enter create  esc back'')
      | ConfirmKill \<Rightarrow>
          (if p_cursor p < length (p_rows p)
           then Some (ascii ''kill '' @ r_display (p_rows p ! p_cursor p) @ ascii ''? y/n'') else None))"

definition total_lines :: "Picker \<Rightarrow> nat" where
  "total_lines p =
     1 + (if p_rows p \<noteq> [] then 1 else 0) + length (p_rows p) + 1 + 1 + (if p_status p \<noteq> None then 1 else 0)"

definition render_lines :: "PickEnv \<Rightarrow> Picker \<Rightarrow> rstring list option" where
  "render_lines env p =
     (case (picker_lines (pk_width env) (p_rows p), input_line env p, hints p) of
        (Some (header, ls), Some input, Some hint) \<Rightarrow>
          (let picking = (p_mode p = Pick \<or> p_mode p = ConfirmKill) in
           Some ([esc ''[36;1m'' @ ascii ''Pick a session on '' @ pk_host env @ ascii '':'' @ esc ''[0m'']
             @ (if p_rows p \<noteq> [] then [ascii ''     '' @ esc ''[2m'' @ header @ esc ''[0m''] else [])
             @ map (row_line picking (p_cursor p)) (zip [0..<length (p_rows p)] (zip (p_rows p) ls))
             @ [input, esc ''[2m'' @ ascii ''  '' @ hint @ esc ''[0m'']
             @ (case p_status p of None \<Rightarrow> [] | Some msg \<Rightarrow> [esc ''[31m'' @ ascii ''  '' @ msg @ esc ''[0m''])))
      | _ \<Rightarrow> None)"

text \<open>What the picker does: requests to the server, lines erased, lines drawn (with the cursor shown or not).\<close>

datatype PickOut = Asked Frame | Erased nat | Painted bool "rstring list"

definition render :: "PickEnv \<Rightarrow> Picker \<Rightarrow> (Picker \<times> PickOut list) option" where
  "render env p =
     (case render_lines env p of
        None \<Rightarrow> None
      | Some ls \<Rightarrow>
          Some (p\<lparr>p_drawn := total_lines p\<rparr>,
            [Erased (p_drawn p), Painted (case p_mode p of Input _ _ _ \<Rightarrow> True | _ \<Rightarrow> False) ls]))"

section \<open>Keys\<close>

text \<open>A key with the modifiers the source tells apart (none, shift alone, control alone, any other set), an
  event that is no key, or the failure to read one.\<close>

datatype KeyCode =
    UpKey | DownKey | LeftKey | RightKey | EnterKey | EscKey | BackspaceKey | DeleteKey | HomeKey | EndKey
  | CharKey rstring | OtherKey

datatype Mods = NoMods | ShiftOnly | ControlOnly | OtherMods

datatype PickEvent = Key KeyCode Mods | OtherEvent | ReadFailed

text \<open>What the server answers during a step, None when the request fails, and the clock.\<close>

record Answers =
  an_reply :: "Frame option"
  an_list :: "Frame option"
  an_now :: u64

text \<open>How a step ends: the loop goes on without or with drawing, or it is left.\<close>

datatype Flow = Ignored | Redraw | Chosen rstring bool | Aborted

abbreviation chr :: "string \<Rightarrow> KeyCode" where
  "chr s \<equiv> CharKey (ascii s)"

definition digit_key :: "KeyCode \<Rightarrow> nat option" where
  "digit_key code =
     (case code of CharKey [b] \<Rightarrow> (if 0x31 \<le> b \<and> b \<le> 0x39 then Some (unat b - 0x31) else None) | _ \<Rightarrow> None)"

definition start_input :: "Picker \<Rightarrow> rstring \<Rightarrow> rstring option \<Rightarrow> Picker" where
  "start_input p text rename_of = p\<lparr>p_status := None, p_mode := Input text (length text) rename_of\<rparr>"

definition pick_key :: "PickEnv \<Rightarrow> Picker \<Rightarrow> KeyCode \<Rightarrow> Mods \<Rightarrow> Picker \<times> Flow" where
  "pick_key env p code mods =
     (let rows = p_rows p; cursor = p_cursor p; on_row = cursor < length rows; plain = (mods = NoMods);
          suggested = suggested_name rows (pk_client env)
      in if plain \<and> (code = UpKey \<or> code = chr ''k'') then (p\<lparr>p_cursor := cursor - 1\<rparr>, Redraw)
         else if plain \<and> (code = DownKey \<or> code = chr ''j'') then
           (if on_row then p\<lparr>p_cursor := cursor + 1\<rparr> else p, Redraw)
         else if code = EnterKey then
           (p, if on_row then Chosen (r_name (rows ! cursor)) False else Chosen suggested False)
         else if plain \<and> digit_key code \<noteq> None then
           (let idx = the (digit_key code)
            in (p, if idx < length rows then Chosen (r_name (rows ! idx)) False else Redraw))
         else if plain \<and> code = chr ''n'' then (p, Chosen suggested False)
         else if plain \<and> code = chr ''c'' then
           (start_input (p\<lparr>p_cursor := length rows\<rparr>) (display_session_name suggested (pk_client env)) None, Redraw)
         else if plain \<and> (code = chr ''x'' \<or> code = DeleteKey) then
           (if on_row then p\<lparr>p_status := None, p_mode := ConfirmKill\<rparr> else p, Redraw)
         else if plain \<and> code = chr ''r'' then
           (if on_row then start_input p (r_display (rows ! cursor)) (Some (r_name (rows ! cursor))) else p, Redraw)
         else if plain \<and> code = chr ''f'' then
           (p, if on_row then Chosen (r_name (rows ! cursor)) True else Redraw)
         else if plain \<and> (code = EscKey \<or> code = chr ''q'') then (p, Aborted)
         else if mods = ControlOnly \<and> (code = chr ''c'' \<or> code = chr ''g'') then (p, Aborted)
         else (p, Ignored))"

text \<open>The list asked for again after a kill or a rename.\<close>

definition refresh :: "PickEnv \<Rightarrow> Answers \<Rightarrow> Picker \<Rightarrow> Picker" where
  "refresh env ans p =
     (case an_list ans of
        Some (SessionInfo fresh) \<Rightarrow>
          (let rows = build_rows (an_now ans) (pk_client env) fresh
           in p\<lparr>p_rows := rows, p_cursor := min (p_cursor p) (length rows - 1)\<rparr>)
      | _ \<Rightarrow> p)"

definition failure_text :: "PickEnv \<Rightarrow> string \<Rightarrow> Frame option \<Rightarrow> rstring" where
  "failure_text env verb reply =
     (case reply of
        Some (Error _ message) \<Rightarrow> ascii verb @ ascii '' failed: '' @ message
      | other \<Rightarrow> ascii verb @ ascii '' failed: unexpected response '' @ pk_debug env other)"

text \<open>None is the panic of \<open>rows[cursor]\<close>.\<close>

definition confirm_key :: "PickEnv \<Rightarrow> Answers \<Rightarrow> Picker \<Rightarrow> PickEvent \<Rightarrow> (Picker \<times> PickOut list \<times> Flow) option" where
  "confirm_key env ans p ev =
     (case ev of
        Key (CharKey c) _ \<Rightarrow>
          (if c \<noteq> ascii ''y'' then Some (p\<lparr>p_mode := Pick\<rparr>, [], Redraw)
           else if \<not> p_cursor p < length (p_rows p) then None
           else
             (let p' = p\<lparr>p_status :=
                    (if an_reply ans = Some OkFrame then None else Some (failure_text env ''kill'' (an_reply ans)))\<rparr>
              in Some ((refresh env ans p')\<lparr>p_mode := Pick\<rparr>,
                   [Asked (KillSession (r_name (p_rows p ! p_cursor p))), Asked ListSessions], Redraw)))
      | _ \<Rightarrow> Some (p\<lparr>p_mode := Pick\<rparr>, [], Redraw))"

definition submit :: "PickEnv \<Rightarrow> Answers \<Rightarrow> Picker \<Rightarrow> rstring \<Rightarrow> rstring option \<Rightarrow> Picker \<times> PickOut list \<times> Flow" where
  "submit env ans p buf rename_of =
     (let user_input = trim buf; new_wire = resolve_session_name user_input (pk_client env)
      in case rename_of of
           Some old \<Rightarrow>
             (if user_input = [] \<or> new_wire = old then (p\<lparr>p_mode := Pick\<rparr>, [], Redraw)
              else if an_reply ans = Some OkFrame then
                ((refresh env ans (p\<lparr>p_status := None\<rparr>))\<lparr>p_mode := Pick\<rparr>,
                 [Asked (RenameSession old new_wire), Asked ListSessions], Redraw)
              else
                (p\<lparr>p_status := Some (failure_text env ''rename'' (an_reply ans))\<rparr>,
                 [Asked (RenameSession old new_wire)], Redraw))
         | None \<Rightarrow>
             (if user_input = [] then (p\<lparr>p_mode := Pick, p_cursor := length (p_rows p)\<rparr>, [], Redraw)
              else (p, [], Chosen new_wire False)))"

text \<open>Escape and the control keys that leave the input.\<close>

definition cancel_input :: "Picker \<Rightarrow> rstring option \<Rightarrow> Picker" where
  "cancel_input p rename_of =
     (let p = p\<lparr>p_status := None, p_mode := Pick\<rparr>
      in if rename_of = None then p\<lparr>p_cursor := length (p_rows p)\<rparr> else p)"

definition edit_key :: "KeyCode \<Rightarrow> Mods \<Rightarrow> EditKey option" where
  "edit_key code mods =
     (let ctrl = (mods = ControlOnly)
      in if ctrl \<and> code = chr ''a'' \<or> code = HomeKey then Some ToStart
         else if ctrl \<and> code = chr ''e'' \<or> code = EndKey then Some ToEnd
         else if ctrl \<and> code = chr ''u'' then Some KillLine
         else if ctrl \<and> code = chr ''w'' then Some KillWord
         else if code = BackspaceKey then Some EraseBefore
         else if code = DeleteKey then Some EraseAt
         else if ctrl \<and> code = chr ''b'' \<or> code = LeftKey then Some MoveLeft
         else if ctrl \<and> code = chr ''f'' \<or> code = RightKey then Some MoveRight
         else (case code of
             CharKey c \<Rightarrow> (if mods = NoMods \<or> mods = ShiftOnly then Some (TypeChar c) else None)
           | _ \<Rightarrow> None))"

definition input_key ::
  "PickEnv \<Rightarrow> Answers \<Rightarrow> Picker \<Rightarrow> rstring \<Rightarrow> nat \<Rightarrow> rstring option \<Rightarrow> KeyCode \<Rightarrow> Mods
     \<Rightarrow> (Picker \<times> PickOut list \<times> Flow) option" where
  "input_key env ans p buf pos rename_of code mods =
     (if code = EnterKey then Some (submit env ans p buf rename_of)
      else if code = EscKey \<or> mods = ControlOnly \<and> (code = chr ''c'' \<or> code = chr ''g'') then
        Some (cancel_input p rename_of, [], Redraw)
      else
        (case edit_key code mods of
           None \<Rightarrow> Some (p, [], Ignored)
         | Some k \<Rightarrow>
             map_option (\<lambda>(buf, pos). (p\<lparr>p_mode := Input buf pos rename_of\<rparr>, [], Redraw)) (edit k (buf, pos))))"

definition pick_event :: "PickEnv \<Rightarrow> Answers \<Rightarrow> Picker \<Rightarrow> PickEvent \<Rightarrow> (Picker \<times> PickOut list \<times> Flow) option" where
  "pick_event env ans p ev =
     (if ev = ReadFailed then Some (p, [], Aborted)
      else
        (case p_mode p of
           ConfirmKill \<Rightarrow> confirm_key env ans p ev
         | Pick \<Rightarrow>
             (case ev of
                Key code mods \<Rightarrow> (let (p, flow) = pick_key env p code mods in Some (p, [], flow))
              | _ \<Rightarrow> Some (p, [], Ignored))
         | Input buf pos rename_of \<Rightarrow>
             (case ev of
                Key code mods \<Rightarrow> input_key env ans p buf pos rename_of code mods
              | _ \<Rightarrow> Some (p, [], Ignored))))"

section \<open>The loop\<close>

text \<open>
  The loop over the events of the terminal: the outer None is a panic; the result is None while the
  picker is open, else what was chosen, after the lines have been erased.
\<close>

fun pick_loop ::
  "PickEnv \<Rightarrow> (PickEvent \<times> Answers) list \<Rightarrow> Picker
     \<Rightarrow> (Picker \<times> PickOut list \<times> (rstring \<times> bool) option option) option" where
  "pick_loop env [] p = Some (p, [], None)"
| "pick_loop env ((ev, ans) # evs) p =
     (case pick_event env ans p ev of
        None \<Rightarrow> None
      | Some (p, outs, flow) \<Rightarrow>
          (case flow of
             Ignored \<Rightarrow> map_option (\<lambda>(q, rest, r). (q, outs @ rest, r)) (pick_loop env evs p)
           | Redraw \<Rightarrow>
               Option.bind (render env p) (\<lambda>(p, drawn).
                 map_option (\<lambda>(q, rest, r). (q, outs @ drawn @ rest, r)) (pick_loop env evs p))
           | Chosen nm force \<Rightarrow> Some (p, outs @ [Erased (p_drawn p)], Some (Some (nm, force)))
           | Aborted \<Rightarrow> Some (p, outs @ [Erased (p_drawn p)], Some None)))"

definition tui_pick_session ::
  "PickEnv \<Rightarrow> u64 \<Rightarrow> SessionEntry list \<Rightarrow> (PickEvent \<times> Answers) list
     \<Rightarrow> (Picker \<times> PickOut list \<times> (rstring \<times> bool) option option) option" where
  "tui_pick_session env now ss evs =
     (let rows = build_rows now (pk_client env) ss;
          p = \<lparr>p_rows = rows, p_cursor = initial_cursor rows, p_mode = Pick, p_status = None, p_drawn = 0\<rparr>
      in Option.bind (render env p) (\<lambda>(p, drawn).
           map_option (\<lambda>(q, rest, r). (q, drawn @ rest, r)) (pick_loop env evs p)))"

end
