(* ===== verification/Picker_Proofs.thy ===== *)
theory Picker_Proofs
  imports Picker Session_List_Proofs Protocol_Proofs
begin

text \<open>
  That the picker never panics, leaves nothing behind on the screen, and that what it asks for is what it
  shows.
\<close>

section \<open>Strings of characters\<close>

lemma utf8_valid_char: "is_char c \<Longrightarrow> utf8_valid (c @ s) \<longleftrightarrow> utf8_valid s"
proof -
  assume c: "is_char c"
  then obtain b bs where b: "c = b # bs" and v: "utf8_valid (b # bs)" and len: "length (b # bs) = char_len b"
    by (cases c) (simp_all del: utf8_valid.simps)
  from v show ?thesis
  proof (cases rule: utf8_valid_cases)
    case one
    then show ?thesis using len by (auto simp: b char_len_def is_ascii_def)
  next
    case (two d r)
    have "r = []" using two(2,3) len by (simp add: lead2_def char_len_def word_less_nat_alt word_le_nat_alt)
    then show ?thesis using two by (simp add: b)
  next
    case (three d e r)
    have "r = []" using three(3,4) len by (simp add: lead3_def char_len_def word_less_nat_alt word_le_nat_alt)
    then show ?thesis using three by (simp add: b)
  next
    case (four d e f r)
    have "r = []" using four(4,5) len by (simp add: lead4_def char_len_def word_less_nat_alt word_le_nat_alt)
    then show ?thesis using four by (simp add: b)
  qed
qed

lemma utf8_chars: "utf8_valid s \<Longrightarrow> \<exists>cs. list_all is_char cs \<and> concat cs = s"
proof (induction s rule: length_induct)
  case (1 s)
  show ?case
  proof (cases s)
    case (Cons b bs)
    with "1.prems" have v: "utf8_valid (b # bs)" by simp
    have "\<exists>c r. s = c @ r \<and> is_char c \<and> utf8_valid r"
      using v
    proof (cases rule: utf8_valid_cases)
      case one
      then show ?thesis by (intro exI [of _ "[b]"] exI [of _ bs]) (auto simp: Cons char_len_def is_ascii_def)
    next
      case (two d r)
      then show ?thesis
        by (intro exI [of _ "[b, d]"] exI [of _ r])
          (auto simp: Cons char_len_def lead2_def word_less_nat_alt word_le_nat_alt)
    next
      case (three d e r)
      then show ?thesis
        by (intro exI [of _ "[b, d, e]"] exI [of _ r])
          (auto simp: Cons char_len_def lead3_def word_less_nat_alt word_le_nat_alt)
    next
      case (four d e f r)
      then show ?thesis
        by (intro exI [of _ "[b, d, e, f]"] exI [of _ r])
          (auto simp: Cons char_len_def lead4_def word_less_nat_alt word_le_nat_alt)
    qed
    then obtain c r where c: "s = c @ r" "is_char c" "utf8_valid r" by blast
    then have "length r < length s" using is_charD(1) [OF c(2)] by (cases c) auto
    with 1 c(3) obtain cs where "list_all is_char cs" "concat cs = r" by blast
    with c show ?thesis by (intro exI [of _ "c # cs"]) simp
  qed (intro exI [of _ "[]"], simp)
qed

lemma utf8_valid_rest: "utf8_valid s \<Longrightarrow> utf8_valid (s @ t) \<longleftrightarrow> utf8_valid t"
proof -
  assume "utf8_valid s"
  then obtain cs where "list_all is_char cs" "concat cs = s" using utf8_chars by blast
  moreover have "list_all is_char cs \<Longrightarrow> utf8_valid (concat cs @ t) \<longleftrightarrow> utf8_valid t"
    by (induction cs) (simp_all add: utf8_valid_char)
  ultimately show ?thesis by blast
qed

lemma utf8_valid_dec: "utf8_valid (dec n)"
proof (rule utf8_valid_ascii, rule ballI)
  fix b assume "b \<in> set (dec n)"
  then have "is_digit b" by (rule dec_digits)
  then show "is_ascii b" by (auto simp: is_digit_def is_ascii_def word_le_nat_alt word_less_nat_alt)
qed

lemma display_valid:
  assumes "utf8_valid client" and "utf8_valid wire"
  shows "utf8_valid (display_session_name wire client)"
proof -
  have "utf8_valid (drop (length client + 1) wire)"
    if "length client + 1 < length wire" "starts_with wire client" "wire ! length client = SLASH"
  proof -
    have "wire = (client @ [SLASH]) @ drop (length client + 1) wire"
      using that by (simp add: starts_with_def) (metis Cons_nth_drop_Suc Suc_lessD append_take_drop_id)
    moreover have "utf8_valid (client @ [SLASH])"
      using assms(1) by (simp add: utf8_valid_append is_ascii_def)
    ultimately show ?thesis using assms(2) utf8_valid_rest by metis
  qed
  then show ?thesis using assms(2) by (simp add: display_session_name_def)
qed

section \<open>The invariant\<close>

definition input_ok :: "rstring \<Rightarrow> nat \<Rightarrow> bool" where
  "input_ok buf pos \<longleftrightarrow> (\<exists>z. zip_ok z \<and> (buf, pos) = text_of z)"

lemma input_start: "utf8_valid s \<Longrightarrow> input_ok s (length s)"
proof -
  assume "utf8_valid s"
  then obtain cs where "list_all is_char cs" "concat cs = s" using utf8_chars by blast
  then show ?thesis unfolding input_ok_def
    by (intro exI [of _ "(cs, [])"]) (simp add: zip_ok_def text_of_def)
qed

lemma input_edit:
  assumes "input_ok buf pos" and "key_ok k"
  shows "\<exists>buf' pos'. edit k (buf, pos) = Some (buf', pos') \<and> input_ok buf' pos'"
proof -
  obtain z where z: "zip_ok z" "(buf, pos) = text_of z" using assms(1) by (auto simp: input_ok_def)
  then have "edit k (buf, pos) = Some (text_of (zip_edit k z)) \<and> zip_ok (zip_edit k z)"
    using edit_refines assms(2) by simp
  then show ?thesis unfolding input_ok_def by (metis prod.exhaust)
qed

lemma input_boundary: "input_ok buf pos \<Longrightarrow> is_char_boundary buf pos"
  unfolding input_ok_def zip_ok_def text_of_def using boundary_concat by fastforce

definition mode_ok :: "Picker \<Rightarrow> bool" where
  "mode_ok p \<longleftrightarrow>
     (case p_mode p of
        Pick \<Rightarrow> True | ConfirmKill \<Rightarrow> p_cursor p < length (p_rows p) | Input buf pos _ \<Rightarrow> input_ok buf pos)"

definition picker_inv :: "Picker \<Rightarrow> bool" where
  "picker_inv p \<longleftrightarrow> p_cursor p \<le> length (p_rows p) \<and> list_all (\<lambda>r. utf8_valid (r_display r)) (p_rows p) \<and> mode_ok p"

text \<open>What crossterm and the decoder guarantee: a key is one character, strings of a frame are UTF-8.\<close>

fun event_ok :: "PickEvent \<times> Answers \<Rightarrow> bool" where
  "event_ok (ev, ans) \<longleftrightarrow>
     (case ev of Key (CharKey c) _ \<Rightarrow> is_char c | _ \<Rightarrow> True) \<and> (case an_list ans of Some f \<Rightarrow> frame_utf8 f | None \<Rightarrow> True)"

lemma build_rows_valid:
  assumes "utf8_valid client" and "list_all (\<lambda>s. utf8_valid (name s)) ss"
  shows "list_all (\<lambda>r. utf8_valid (r_display r)) (build_rows now client ss)"
proof -
  have "utf8_valid (display_session_name (session_wire_name s) client)" if "s \<in> set ss" for s
    using that assms by (intro display_valid) (auto simp: session_wire_name_def list_all_iff utf8_valid_dec)
  then show ?thesis
    by (auto simp: build_rows_def build_row_def list_all_iff Let_def dest: set_zip_rightD)
qed

lemma build_rows_length [simp]: "length (build_rows now client ss) = length ss"
  by (simp add: build_rows_def Let_def)

lemma suggested_valid: "utf8_valid client \<Longrightarrow> utf8_valid (suggested_name rows client)"
proof -
  assume "utf8_valid client"
  then have "utf8_valid (slot_name client n)" for n
    using utf8_valid_dec [of n] by (simp add: slot_name_def resolve_session_name_def utf8_valid_append is_ascii_def)
  then show ?thesis by (auto simp: suggested_name_def suggest_name_def split: option.split)
qed

section \<open>Drawing\<close>

lemma picker_lines_some: "\<exists>header ls. picker_lines w rows = Some (header, ls) \<and> length ls = length rows"
proof (cases "rows = []")
  case True
  then show ?thesis by (simp add: picker_lines_def format_table_def Let_def)
next
  case False
  let ?cells = "map (picker_cells (list_ex r_attached rows)) rows"
  have "\<not> list_ex (\<lambda>r. length r < length ([ascii ''Name''] @ (if list_ex r_attached rows then [[]] else [])
      @ [ascii ''Idle'', ascii ''Cmd'', ascii ''Client'', ascii ''CWD''])) ?cells"
    by (auto simp: list_ex_iff picker_cells_def)
  with False show ?thesis by (simp add: picker_lines_def format_table_def Let_def)
qed

lemma render_draws:
  assumes "picker_inv p"
  shows "\<exists>cur ls. render env p = Some (p\<lparr>p_drawn := length ls\<rparr>, [Erased (p_drawn p), Painted cur ls])"
proof -
  obtain header ls where ls: "picker_lines (pk_width env) (p_rows p) = Some (header, ls)" "length ls = length (p_rows p)"
    using picker_lines_some by blast
  obtain input where input: "input_line env p = Some input"
    using assms input_boundary by (cases "p_mode p") (auto simp: picker_inv_def mode_ok_def input_line_def Let_def)
  have "hints p \<noteq> None"
    using assms by (cases "p_mode p") (auto simp: picker_inv_def mode_ok_def hints_def split: option.split)
  then obtain hint where hint: "hints p = Some hint" by blast
  obtain out where "render_lines env p = Some out" "length out = total_lines p"
    using ls(2) by (auto simp: render_lines_def ls input hint total_lines_def Let_def split: option.split)
  then show ?thesis by (simp add: render_def)
qed

section \<open>One step\<close>

lemma row_display: "picker_inv p \<Longrightarrow> i < length (p_rows p) \<Longrightarrow> utf8_valid (r_display (p_rows p ! i))"
  by (simp add: picker_inv_def list_all_length)

lemma start_input_inv:
  assumes "picker_inv p" and "utf8_valid s"
  shows "picker_inv (start_input p s r)" "picker_inv (start_input (p\<lparr>p_cursor := length (p_rows p)\<rparr>) s r)"
  using assms input_start by (simp_all add: picker_inv_def mode_ok_def start_input_def)

lemma start_input_drawn [simp]: "p_drawn (start_input p s r) = p_drawn p"
  by (simp add: start_input_def)

lemma cursor_inv: "picker_inv p \<Longrightarrow> p_mode p = Pick \<Longrightarrow> n \<le> length (p_rows p) \<Longrightarrow> picker_inv (p\<lparr>p_cursor := n\<rparr>)"
  by (simp add: picker_inv_def mode_ok_def)

lemma confirm_inv: "picker_inv p \<Longrightarrow> p_cursor p < length (p_rows p) \<Longrightarrow> picker_inv (p\<lparr>p_status := st, p_mode := ConfirmKill\<rparr>)"
  by (simp add: picker_inv_def mode_ok_def)

lemma pick_inv: "picker_inv p \<Longrightarrow> picker_inv (p\<lparr>p_mode := Pick\<rparr>)"
  by (simp add: picker_inv_def mode_ok_def)

lemma pick_key_inv:
  assumes "picker_inv p" and "p_mode p = Pick" and "utf8_valid (pk_client env)" and "pick_key env p code mods = (p', flow)"
  shows "picker_inv p' \<and> p_drawn p' = p_drawn p"
proof -
  have bound: "p_cursor p \<le> length (p_rows p)" using assms(1) by (simp add: picker_inv_def)
  have shown: "utf8_valid (display_session_name (suggested_name (p_rows p) (pk_client env)) (pk_client env))"
    using assms(3) by (simp add: display_valid suggested_valid)
  show ?thesis
    using assms(4) assms(1,2) bound shown row_display [OF assms(1), of "p_cursor p"] unfolding pick_key_def Let_def
    by (auto simp del: ascii_simps intro!: start_input_inv cursor_inv confirm_inv split: if_split_asm)
qed

lemma refresh_inv:
  assumes "picker_inv p" and "utf8_valid (pk_client env)" and "case an_list ans of Some f \<Rightarrow> frame_utf8 f | None \<Rightarrow> True"
  shows "picker_inv ((refresh env ans p)\<lparr>p_mode := Pick\<rparr>) \<and> p_drawn (refresh env ans p) = p_drawn p"
proof (cases "\<exists>fresh. an_list ans = Some (SessionInfo fresh)")
  case True
  then obtain fresh where f: "an_list ans = Some (SessionInfo fresh)" by blast
  then have "list_all (\<lambda>s. utf8_valid (name s)) fresh"
    using assms(3) by (auto simp: list_all_iff entry_utf8_def)
  then show ?thesis using f build_rows_valid [OF assms(2)]
    by (auto simp: refresh_def picker_inv_def mode_ok_def Let_def)
next
  case False
  then have "refresh env ans p = p" by (simp add: refresh_def split: option.split Frame.split)
  then show ?thesis using assms(1) by (simp add: pick_inv)
qed

definition only_requests :: "PickOut list \<Rightarrow> bool" where
  "only_requests outs \<longleftrightarrow> list_all (\<lambda>x. case x of Asked _ \<Rightarrow> True | _ \<Rightarrow> False) outs"

lemma only_requests_simps [simp]: "only_requests []" "only_requests (Asked f # outs) = only_requests outs"
  by (simp_all add: only_requests_def)

definition good_step :: "Picker \<Rightarrow> (Picker \<times> PickOut list \<times> Flow) option \<Rightarrow> bool" where
  "good_step p r \<longleftrightarrow>
     (case r of None \<Rightarrow> False
      | Some (p', outs, _) \<Rightarrow> picker_inv p' \<and> p_drawn p' = p_drawn p \<and> only_requests outs)"

lemma status_inv: "picker_inv (p\<lparr>p_status := st\<rparr>) = picker_inv p"
  by (cases "p_mode p") (simp_all add: picker_inv_def mode_ok_def)

lemma drawn_inv: "picker_inv (p\<lparr>p_drawn := k\<rparr>) = picker_inv p"
  by (cases "p_mode p") (simp_all add: picker_inv_def mode_ok_def)

lemma confirm_key_good:
  assumes "picker_inv p" and "p_mode p = ConfirmKill" and "utf8_valid (pk_client env)" and "event_ok (ev, ans)"
  shows "good_step p (confirm_key env ans p ev)"
proof -
  have on_row: "p_cursor p < length (p_rows p)" using assms(1,2) by (simp add: picker_inv_def mode_ok_def)
  have "picker_inv ((refresh env ans (p\<lparr>p_status := st\<rparr>))\<lparr>p_mode := Pick\<rparr>)
      \<and> p_drawn (refresh env ans (p\<lparr>p_status := st\<rparr>)) = p_drawn p" for st
    using refresh_inv [of "p\<lparr>p_status := st\<rparr>" env ans] assms(1,3,4) by (simp add: status_inv)
  then show ?thesis using on_row pick_inv [OF assms(1)]
    by (simp add: confirm_key_def good_step_def Let_def del: ascii_simps split: PickEvent.split KeyCode.split)
qed

lemma submit_good:
  assumes "picker_inv p" and "utf8_valid (pk_client env)" and "event_ok (ev, ans)"
  shows "good_step p (Some (submit env ans p buf rename_of))"
proof -
  have "picker_inv ((refresh env ans (p\<lparr>p_status := None\<rparr>))\<lparr>p_mode := Pick\<rparr>)
      \<and> p_drawn (refresh env ans (p\<lparr>p_status := None\<rparr>)) = p_drawn p"
    using refresh_inv [of "p\<lparr>p_status := None\<rparr>" env ans] assms by (simp add: status_inv)
  moreover have "picker_inv (p\<lparr>p_mode := Pick, p_cursor := length (p_rows p)\<rparr>)"
    using assms(1) by (simp add: picker_inv_def mode_ok_def)
  ultimately show ?thesis using assms(1) pick_inv [OF assms(1)]
    by (simp add: submit_def good_step_def Let_def status_inv split: option.split)
qed

lemma cancel_inv: "picker_inv p \<Longrightarrow> picker_inv (cancel_input p r) \<and> p_drawn (cancel_input p r) = p_drawn p"
  by (simp add: cancel_input_def picker_inv_def mode_ok_def Let_def)

lemma edit_key_ok: "edit_key code mods = Some k \<Longrightarrow> (case code of CharKey c \<Rightarrow> is_char c | _ \<Rightarrow> True) \<Longrightarrow> key_ok k"
  by (auto simp: edit_key_def Let_def simp del: ascii_simps split: if_split_asm KeyCode.splits)

lemma input_key_good:
  assumes "picker_inv p" and "p_mode p = Input buf pos r" and "utf8_valid (pk_client env)" and "event_ok (Key code mods, ans)"
  shows "good_step p (input_key env ans p buf pos r code mods)"
proof -
  have buf: "input_ok buf pos" using assms(1,2) by (simp add: picker_inv_def mode_ok_def)
  have edited: "good_step p (map_option (\<lambda>(buf, pos). (p\<lparr>p_mode := Input buf pos r\<rparr>, [], Redraw)) (edit k (buf, pos)))"
    if "edit_key code mods = Some k" for k
  proof -
    have "key_ok k" using edit_key_ok [OF that] assms(4) by simp
    then obtain buf' pos' where "edit k (buf, pos) = Some (buf', pos')" "input_ok buf' pos'"
      using input_edit [OF buf] by blast
    then show ?thesis using assms(1) by (simp add: good_step_def picker_inv_def mode_ok_def)
  qed
  have cancelled: "good_step p (Some (cancel_input p r, [], Redraw))" and ignored: "good_step p (Some (p, [], Ignored))"
    using cancel_inv [OF assms(1), of r] assms(1) by (simp_all add: good_step_def)
  show ?thesis
  proof (cases "edit_key code mods")
    case None
    then show ?thesis using submit_good [OF assms(1,3,4)] cancelled ignored by (simp add: input_key_def del: ascii_simps)
  next
    case (Some k)
    then show ?thesis using submit_good [OF assms(1,3,4)] cancelled edited by (simp add: input_key_def del: ascii_simps)
  qed
qed

lemma pick_event_good:
  assumes "picker_inv p" and "utf8_valid (pk_client env)" and "event_ok (ev, ans)"
  shows "good_step p (pick_event env ans p ev)"
proof (cases "ev = ReadFailed")
  case True
  then show ?thesis using assms(1) by (simp add: pick_event_def good_step_def)
next
  case False
  show ?thesis
  proof (cases "p_mode p")
    case Pick
    show ?thesis
    proof (cases ev)
      case (Key code mods)
      obtain p' flow where "pick_key env p code mods = (p', flow)" by fastforce
      with pick_key_inv [OF assms(1) Pick assms(2) this] show ?thesis
        by (simp add: pick_event_def Pick Key good_step_def)
    qed (use Pick False assms(1) in \<open>simp_all add: pick_event_def good_step_def\<close>)
  next
    case (Input buf pos r)
    show ?thesis
    proof (cases ev)
      case (Key code mods)
      then show ?thesis using input_key_good [OF assms(1) Input assms(2)] assms(3) by (simp add: pick_event_def Input)
    qed (use Input False assms(1) in \<open>simp_all add: pick_event_def good_step_def\<close>)
  next
    case ConfirmKill
    then show ?thesis using confirm_key_good [OF assms(1) ConfirmKill assms(2,3)] False by (simp add: pick_event_def)
  qed
qed

section \<open>The loop\<close>

text \<open>
  How many of its lines are on the screen after the picker's outputs: None when it erases another number
  than it has drawn, or draws over lines that are still there.
\<close>

fun on_screen :: "nat \<Rightarrow> PickOut list \<Rightarrow> nat option" where
  "on_screen n [] = Some n"
| "on_screen n (Asked _ # outs) = on_screen n outs"
| "on_screen n (Erased k # outs) = (if k = n then on_screen 0 outs else None)"
| "on_screen n (Painted _ ls # outs) = (if n = 0 then on_screen (length ls) outs else None)"

lemma on_screen_requests: "only_requests outs \<Longrightarrow> on_screen n (outs @ rest) = on_screen n rest"
  by (induction outs) (auto simp: only_requests_def split: PickOut.splits)

lemma pick_loop_good:
  assumes "picker_inv p" and "utf8_valid (pk_client env)" and "list_all event_ok evs"
  shows "\<exists>q outs r. pick_loop env evs p = Some (q, outs, r) \<and> picker_inv q
    \<and> on_screen (p_drawn p) outs = Some (if r = None then p_drawn q else 0)"
  using assms
proof (induction evs arbitrary: p)
  case (Cons x evs)
  obtain ev ans where x: "x = (ev, ans)" by fastforce
  then have "good_step p (pick_event env ans p ev)" using Cons.prems by (intro pick_event_good) simp_all
  then obtain p' outs flow where step: "pick_event env ans p ev = Some (p', outs, flow)" "picker_inv p'"
      "p_drawn p' = p_drawn p" "only_requests outs"
    by (auto simp: good_step_def split: option.splits)
  have rest: "list_all event_ok evs" using Cons.prems by simp
  show ?case
  proof (cases flow)
    case Ignored
    obtain q more r where "pick_loop env evs p' = Some (q, more, r)" "picker_inv q"
        "on_screen (p_drawn p') more = Some (if r = None then p_drawn q else 0)"
      using Cons.IH [OF step(2) Cons.prems(2) rest] by blast
    then show ?thesis using step(3,4) by (simp add: x step(1) Ignored on_screen_requests)
  next
    case Redraw
    obtain cur ls where draw: "render env p' = Some (p'\<lparr>p_drawn := length ls\<rparr>, [Erased (p_drawn p'), Painted cur ls])"
      using render_draws [OF step(2)] by blast
    have "picker_inv (p'\<lparr>p_drawn := length ls\<rparr>)" using step(2) by (simp add: drawn_inv)
    from Cons.IH [OF this Cons.prems(2) rest]
    obtain q more r where "pick_loop env evs (p'\<lparr>p_drawn := length ls\<rparr>) = Some (q, more, r)" "picker_inv q"
        "on_screen (length ls) more = Some (if r = None then p_drawn q else 0)"
      by auto
    then show ?thesis using step(3,4) by (simp add: x step(1) Redraw draw on_screen_requests)
  qed (use step in \<open>simp_all add: x on_screen_requests\<close>)
qed simp

text \<open>
  C28. The picker never panics and cleans up after itself: whatever keys are typed and whatever the server
  answers, the edited text stays UTF-8 with the cursor between characters, the question whether to kill is
  asked only about a row that is there, every redraw erases exactly the lines on the screen, and when the
  picker is left none of its lines remain.
\<close>

theorem picker_never_panics:
  assumes "utf8_valid (pk_client env)" and "list_all entry_utf8 ss" and "list_all event_ok evs"
  shows "case tui_pick_session env now ss evs of
      None \<Rightarrow> False
    | Some (p, outs, r) \<Rightarrow> picker_inv p \<and> on_screen 0 outs = Some (if r = None then p_drawn p else 0)"
proof -
  let ?rows = "build_rows now (pk_client env) ss"
  let ?p = "\<lparr>p_rows = ?rows, p_cursor = initial_cursor ?rows, p_mode = Pick, p_status = None, p_drawn = 0\<rparr>"
  have "list_all (\<lambda>s. utf8_valid (name s)) ss" using assms(2) by (auto simp: list_all_iff entry_utf8_def)
  moreover have "initial_cursor ?rows \<le> length ?rows"
    by (auto simp: initial_cursor_def find_Some_iff split: option.split)
  ultimately have inv: "picker_inv ?p" using build_rows_valid [OF assms(1)] by (simp add: picker_inv_def mode_ok_def)
  obtain cur ls where draw: "render env ?p = Some (?p\<lparr>p_drawn := length ls\<rparr>, [Erased 0, Painted cur ls])"
    using render_draws [OF inv, of env] by auto
  have "picker_inv (?p\<lparr>p_drawn := length ls\<rparr>)" using inv by (simp only: drawn_inv)
  from pick_loop_good [OF this assms(1,3)] show ?thesis by (auto simp: tui_pick_session_def Let_def draw)
qed

section \<open>Acting on what is shown\<close>

lemma row_at:
  assumes "c < length (build_rows now client ss)"
  shows "\<exists>s \<in> set ss. r_id (build_rows now client ss ! c) = entry_id s \<and> r_name (build_rows now client ss ! c) = session_wire_name s"
proof -
  let ?ordered = "sort_key (\<lambda>s. \<not> own_prefix client s) ss"
  have "build_rows now client ss ! c = build_row now client c (?ordered ! c)"
    using assms by (simp add: build_rows_def Let_def)
  moreover have "?ordered ! c \<in> set ?ordered" using assms by (intro nth_mem) simp
  ultimately show ?thesis by (auto simp: build_row_def)
qed

text \<open>
  Confirming a kill removes the session on the highlighted row and no other, whatever its name (one
  of another user's sessions, an old name without a namespace, or none), in every reachable state of the
  daemon whose sessions are the ones shown.
\<close>

theorem picker_kills_shown_row:
  fixes evs now env e la
  defines "d \<equiv> fst (daemon_run daemon_start evs)"
  defines "ss \<equiv> reap_sessions (sessions d)"
  defines "rows \<equiv> build_rows now (pk_client env) (build_session_entries e ss la)"
  shows "case pick_event env ans
      \<lparr>p_rows = rows, p_cursor = c, p_mode = ConfirmKill, p_status = st, p_drawn = n\<rparr> (Key (chr ''y'') mods) of
      None \<Rightarrow> length rows \<le> c
    | Some (p, outs, flow) \<Rightarrow>
        (\<exists>target. outs = [Asked (KillSession target), Asked ListSessions]
          \<and> r_id (rows ! c) \<in> set (ids ss)
          \<and> sessions (fst (dispatch_control e' (d\<lparr>sessions := ss\<rparr>) caps device (KillSession target)))
            = filter (\<lambda>x. fst x \<noteq> r_id (rows ! c)) ss)"
proof (cases "c < length rows")
  case True
  have "table_ok (sessions d)" unfolding d_def by (rule table_ok_run) (simp add: daemon_start_def table_ok_def)
  then have ok: "table_ok ss" unfolding ss_def by (rule table_ok_reap)
  have alive: "reap_sessions ss = ss" by (simp add: ss_def reap_sessions_def)
  obtain s where s: "s \<in> set (build_session_entries e ss la)" "r_id (rows ! c) = entry_id s"
      "r_name (rows ! c) = session_wire_name s"
    using row_at True unfolding rows_def by blast
  then obtain i x where x: "(i, x) \<in> set ss" "s = build_entry e la (i, x)"
    by (auto simp: build_session_entries_def)
  have id: "r_id (rows ! c) = i" using s(2) by (simp add: x(2) build_entry_def split: option.split)
  have "resolve_session ss (r_name (rows ! c)) (last_attached d) = Some i"
    using entry_resolves [OF ok x(1)] by (simp add: s(3) x(2))
  then have "sessions (fst (dispatch_control e' (d\<lparr>sessions := ss\<rparr>) caps device (KillSession (r_name (rows ! c)))))
      = filter (\<lambda>x. fst x \<noteq> i) ss"
    using kill_resolved [of "d\<lparr>sessions := ss\<rparr>" i x] ok alive x(1) by simp
  moreover have "i \<in> set (ids ss)" using x(1) by (force simp: ids_def)
  ultimately show ?thesis using True id by (simp add: pick_event_def confirm_key_def Let_def)
qed (simp add: pick_event_def confirm_key_def)

section \<open>Witnesses\<close>

definition example_env :: PickEnv where
  "example_env = \<lparr>pk_host = ascii ''dev'', pk_client = ascii ''desk'', pk_width = length, pk_debug = (\<lambda>_. [])\<rparr>"

definition no_answers :: Answers where
  "no_answers = \<lparr>an_reply = None, an_list = Some (SessionInfo []), an_now = 0\<rparr>"

text \<open>A name is started, a character typed and erased, and the picker left.\<close>

theorem picker_never_panics_witness:
  "\<exists>p outs r. tui_pick_session example_env 0 [] [(Key (chr ''c'') NoMods, no_answers), (Key (CharKey [0xC3, 0xA9]) NoMods, no_answers),
      (Key BackspaceKey NoMods, no_answers)] = Some (p, outs, r) \<and> picker_inv p"
proof -
  have "case tui_pick_session example_env 0 [] [(Key (chr ''c'') NoMods, no_answers), (Key (CharKey [0xC3, 0xA9]) NoMods, no_answers),
      (Key BackspaceKey NoMods, no_answers)] of None \<Rightarrow> False
    | Some (p, outs, r) \<Rightarrow> picker_inv p \<and> on_screen 0 outs = Some (if r = None then p_drawn p else 0)"
    by (rule picker_never_panics) (simp_all add: example_env_def no_answers_def byte_class_defs char_len_def)
  then show ?thesis by (auto split: option.splits)
qed

end
