(* ===== verification/Mark_Picker.thy ===== *)
theory Mark_Picker
  imports Picker_Proofs
begin

text \<open>
  The mark picker of \<open>prune --pick\<close>, from \<open>tui_mark_sessions\<close> in \<open>src/src/commands/session.rs\<close>: sessions
  are marked by identifier, a confirmation asks for the number of marked ones, and the marked candidates
  are returned.
\<close>

section \<open>Marks\<close>

definition toggle_mark :: "u32 \<Rightarrow> u32 set \<Rightarrow> u32 set" where
  "toggle_mark i marked = (if i \<in> marked then marked - {i} else insert i marked)"

definition toggle_all_marks :: "u32 set \<Rightarrow> u32 list \<Rightarrow> u32 set" where
  "toggle_all_marks marked is =
     (if list_all (\<lambda>i. i \<in> marked) is then fold (\<lambda>i m. m - {i}) is marked else marked \<union> set is)"

record Marks =
  k_cursor :: nat
  k_marked :: "u32 set"
  k_confirm :: bool
  k_status :: "rstring option"
  k_drawn :: nat

definition count_text :: "nat \<Rightarrow> rstring \<Rightarrow> rstring" where
  "count_text n noun = dec n @ [0x20] @ noun @ (if n = 1 then [] else ascii ''s'')"

definition mark_line :: "Marks \<Rightarrow> nat \<times> Row \<times> rstring \<Rightarrow> rstring" where
  "mark_line k x =
     (case x of (i, row, line) \<Rightarrow>
        (let at_cursor = (i = k_cursor k)
         in (if at_cursor then PICKER_POINTER else [0x20]) @ [0x20]
              @ (if r_id row \<in> k_marked k then esc ''[31;1m'' @ ascii ''[x]'' @ esc ''[0m'' else ascii ''[ ]'')
              @ [0x20] @ esc ''[2m'' @ hotkey_label row @ esc ''[0m'' @ [0x20]
              @ style_picker_line line at_cursor (r_attached row)))"

definition mark_hint :: "Marks \<Rightarrow> rstring" where
  "mark_hint k =
     (if k_confirm k
      then esc ''[31;1m'' @ ascii ''  kill '' @ count_text (card (k_marked k)) (ascii ''session'') @ ascii ''? y/n'' @ esc ''[0m''
      else esc ''[2m'' @ ascii ''  '' @ [0xE2, 0x86, 0x91, 0xE2, 0x86, 0x93]
        @ ascii '' move  space mark  a mark all  1-9 toggle  enter kill marked  q quit'' @ esc ''[0m'')"

definition mark_total :: "Row list \<Rightarrow> Marks \<Rightarrow> nat" where
  "mark_total rows k = 2 + length rows + 1 + (if k_status k \<noteq> None then 1 else 0)"

definition mark_lines :: "rstring \<Rightarrow> rstring \<Rightarrow> rstring list \<Rightarrow> Row list \<Rightarrow> Marks \<Rightarrow> rstring list" where
  "mark_lines host header ls rows k =
     [esc ''[36;1m'' @ ascii ''Prune sessions on '' @ host @ ascii '' -- mark and kill:'' @ esc ''[0m'',
      ascii ''         '' @ esc ''[2m'' @ header @ esc ''[0m'']
     @ map (mark_line k) (zip [0..<length rows] (zip rows ls))
     @ [mark_hint k]
     @ (case k_status k of None \<Rightarrow> [] | Some msg \<Rightarrow> [esc ''[31m'' @ ascii ''  '' @ msg @ esc ''[0m''])"

definition mark_render ::
  "rstring \<Rightarrow> rstring \<Rightarrow> rstring list \<Rightarrow> Row list \<Rightarrow> Marks \<Rightarrow> Marks \<times> PickOut list" where
  "mark_render host header ls rows k =
     (k\<lparr>k_drawn := mark_total rows k\<rparr>, [Erased (k_drawn k), Painted False (mark_lines host header ls rows k)])"

section \<open>Keys\<close>

text \<open>How a step ends: without drawing, with drawing, confirmed, aborted.\<close>

datatype MarkFlow = Keep | Repaint | Confirmed | Quit

text \<open>\<open>(cursor + 1).min(rows.len() - 1)\<close> and \<open>rows[cursor]\<close> panic without rows, which callers exclude.\<close>

definition mark_key :: "Row list \<Rightarrow> Marks \<Rightarrow> KeyCode \<Rightarrow> Mods \<Rightarrow> (Marks \<times> MarkFlow) option" where
  "mark_key rows k code mods =
     (let plain = (mods = NoMods); n = length rows; next = min (k_cursor k + 1) (n - 1)
      in if plain \<and> (code = UpKey \<or> code = chr ''k'') then Some (k\<lparr>k_cursor := k_cursor k - 1\<rparr>, Repaint)
         else if plain \<and> (code = DownKey \<or> code = chr ''j'') then
           (if n = 0 then None else Some (k\<lparr>k_cursor := next\<rparr>, Repaint))
         else if plain \<and> code = chr '' '' then
           (if \<not> k_cursor k < n then None
            else Some (k\<lparr>k_marked := toggle_mark (r_id (rows ! k_cursor k)) (k_marked k), k_cursor := next,
                   k_status := None\<rparr>, Repaint))
         else if plain \<and> code = chr ''a'' then
           Some (k\<lparr>k_marked := toggle_all_marks (k_marked k) (map r_id rows), k_status := None\<rparr>, Repaint)
         else if plain \<and> digit_key code \<noteq> None then
           (let idx = the (digit_key code)
            in Some (if idx < n
                 then k\<lparr>k_marked := toggle_mark (r_id (rows ! idx)) (k_marked k), k_status := None\<rparr> else k, Repaint))
         else if code = EnterKey then
           Some (if k_marked k = {} then k\<lparr>k_status := Some (ascii ''nothing marked -- space to mark'')\<rparr>
             else k\<lparr>k_status := None, k_confirm := True\<rparr>, Repaint)
         else if plain \<and> (code = EscKey \<or> code = chr ''q'') then Some (k, Quit)
         else if mods = ControlOnly \<and> (code = chr ''c'' \<or> code = chr ''g'') then Some (k, Quit)
         else Some (k, Keep))"

definition mark_event :: "Row list \<Rightarrow> Marks \<Rightarrow> PickEvent \<Rightarrow> (Marks \<times> MarkFlow) option" where
  "mark_event rows k ev =
     (if ev = ReadFailed then Some (k, Quit)
      else if k_confirm k then
        (case ev of
           Key (CharKey c) _ \<Rightarrow> Some (if c = ascii ''y'' then (k, Confirmed) else (k\<lparr>k_confirm := False\<rparr>, Repaint))
         | _ \<Rightarrow> Some (k\<lparr>k_confirm := False\<rparr>, Repaint))
      else
        (case ev of Key code mods \<Rightarrow> mark_key rows k code mods | _ \<Rightarrow> Some (k, Keep)))"

fun mark_loop ::
  "(Marks \<Rightarrow> Marks \<times> PickOut list) \<Rightarrow> Row list \<Rightarrow> SessionEntry list \<Rightarrow> PickEvent list \<Rightarrow> Marks
     \<Rightarrow> (Marks \<times> PickOut list \<times> SessionEntry list option option) option" where
  "mark_loop draw rows candidates [] k = Some (k, [], None)"
| "mark_loop draw rows candidates (ev # evs) k =
     (case mark_event rows k ev of
        None \<Rightarrow> None
      | Some (k, flow) \<Rightarrow>
          (case flow of
             Keep \<Rightarrow> mark_loop draw rows candidates evs k
           | Repaint \<Rightarrow>
               (let (k, outs) = draw k
                in map_option (\<lambda>(k, rest, r). (k, outs @ rest, r)) (mark_loop draw rows candidates evs k))
           | Confirmed \<Rightarrow> Some (k, [Erased (k_drawn k)], Some (Some (filter (\<lambda>s. entry_id s \<in> k_marked k) candidates)))
           | Quit \<Rightarrow> Some (k, [Erased (k_drawn k)], Some None)))"

definition tui_mark_sessions ::
  "PickEnv \<Rightarrow> u64 \<Rightarrow> SessionEntry list \<Rightarrow> PickEvent list
     \<Rightarrow> (Marks \<times> PickOut list \<times> SessionEntry list option option) option" where
  "tui_mark_sessions env now candidates evs =
     (let rows = build_rows now (pk_client env) candidates
      in case picker_lines (pk_width env) rows of
           None \<Rightarrow> None
         | Some (header, ls) \<Rightarrow>
             (let draw = mark_render (pk_host env) header ls rows;
                  (k, outs) = draw \<lparr>k_cursor = 0, k_marked = {}, k_confirm = False, k_status = None, k_drawn = 0\<rparr>
              in map_option (\<lambda>(k, rest, r). (k, outs @ rest, r)) (mark_loop draw rows candidates evs k)))"

section \<open>What is confirmed is what is killed\<close>

definition marks_inv :: "Row list \<Rightarrow> Marks \<Rightarrow> bool" where
  "marks_inv rows k \<longleftrightarrow>
     k_cursor k < length rows \<and> k_marked k \<subseteq> set (map r_id rows) \<and> \<not> (k_confirm k \<and> k_marked k = {})"

lemma toggle_subset: "m \<subseteq> A \<Longrightarrow> i \<in> A \<Longrightarrow> toggle_mark i m \<subseteq> A"
  by (auto simp: toggle_mark_def)

lemma unmark_all: "fold (\<lambda>i m. m - {i}) is m = m - set is"
  by (induction "is" arbitrary: m) auto

lemma toggle_all_subset: "m \<subseteq> A \<Longrightarrow> set is \<subseteq> A \<Longrightarrow> toggle_all_marks m is \<subseteq> A"
  by (auto simp: toggle_all_marks_def unmark_all)

lemma mark_key_inv:
  assumes "marks_inv rows k" and "\<not> k_confirm k"
  shows "case mark_key rows k code mods of None \<Rightarrow> False
    | Some (k', flow) \<Rightarrow> marks_inv rows k' \<and> k_drawn k' = k_drawn k \<and> flow \<noteq> Confirmed"
proof -
  have row: "r_id (rows ! i) \<in> set (map r_id rows)" if "i < length rows" for i using that by simp
  have marks: "k_marked k \<subseteq> set (map r_id rows)" "k_cursor k < length rows" using assms(1) by (simp_all add: marks_inv_def)
  have moves: "k_cursor k - 1 < length rows" "min (k_cursor k + 1) (length rows - 1) < length rows" using marks(2) by auto
  have all: "set (map r_id rows) \<subseteq> set (map r_id rows)" ..
  have step: "mark_key rows k code mods = result \<Longrightarrow> case result of None \<Rightarrow> False
      | Some (k', flow) \<Rightarrow> marks_inv rows k' \<and> k_drawn k' = k_drawn k \<and> flow \<noteq> Confirmed" for result
    using assms marks moves unfolding mark_key_def marks_inv_def Let_def
    by (auto simp del: ascii_simps set_map simp: toggle_subset [OF marks(1) row] toggle_all_subset [OF marks(1) all]
        split: if_split_asm)
  show ?thesis using step [OF refl] .
qed

lemma mark_event_inv:
  assumes "marks_inv rows k"
  shows "\<exists>k' flow. mark_event rows k ev = Some (k', flow) \<and> marks_inv rows k' \<and> k_drawn k' = k_drawn k
    \<and> \<not> (flow = Keep \<and> k' \<noteq> k) \<and> \<not> (flow = Confirmed \<and> \<not> (k' = k \<and> k_confirm k))"
proof (cases "ev = ReadFailed \<or> k_confirm k")
  case True
  have "marks_inv rows (k\<lparr>k_confirm := False\<rparr>)" using assms by (simp add: marks_inv_def)
  with True assms show ?thesis
    by (auto simp: mark_event_def simp del: ascii_simps split: PickEvent.split KeyCode.split)
next
  case False
  have keep: "flow = Keep \<Longrightarrow> mark_key rows k code mods = Some (k', flow) \<Longrightarrow> k' = k" for code mods k' flow
    by (auto simp: mark_key_def Let_def simp del: ascii_simps split: if_split_asm)
  show ?thesis
  proof (cases ev)
    case (Key code mods)
    with False have "mark_event rows k ev = mark_key rows k code mods" by (simp add: mark_event_def)
    then show ?thesis using mark_key_inv [OF assms, of code mods] False keep
      by (cases "mark_key rows k code mods") auto
  qed (use False assms in \<open>auto simp: mark_event_def\<close>)
qed

lemma marked_count:
  assumes "distinct (map entry_id candidates)" and "m \<subseteq> entry_id ` set candidates"
  shows "length (filter (\<lambda>s. entry_id s \<in> m) candidates) = card m"
proof -
  let ?vs = "filter (\<lambda>s. entry_id s \<in> m) candidates"
  have "set (map entry_id ?vs) = m" using assms(2) by auto
  moreover have "distinct (map entry_id ?vs)" using assms(1) by (rule distinct_map_filter)
  ultimately show ?thesis using distinct_card [of "map entry_id ?vs"] by simp
qed

lemma rows_ids: "set (map r_id (build_rows now client ss)) = entry_id ` set ss"
proof -
  have "map r_id (build_rows now client ss) = map entry_id (sort_key (\<lambda>s. \<not> own_prefix client s) ss)"
    by (rule nth_equalityI) (simp_all add: build_rows_def build_row_def Let_def)
  then show ?thesis by (metis list.set_map set_sort)
qed

lemma mark_lines_drawn [simp]: "mark_lines host header ls rows (k\<lparr>k_drawn := n\<rparr>) = mark_lines host header ls rows k"
proof -
  have "mark_line (k\<lparr>k_drawn := n\<rparr>) = mark_line k" by (rule ext) (simp add: mark_line_def Let_def split: prod.split)
  then show ?thesis by (simp add: mark_lines_def mark_hint_def)
qed

lemma mark_lines_length: "length ls = length rows \<Longrightarrow> length (mark_lines host header ls rows k) = mark_total rows k"
  by (simp add: mark_lines_def mark_total_def split: option.split)

lemma marks_inv_drawn [simp]: "marks_inv rows (k\<lparr>k_drawn := n\<rparr>) = marks_inv rows k"
  by (simp add: marks_inv_def)

text \<open>\<open>k\<close> is what is on the screen: \<open>outs\<close> begin when its lines have been painted.\<close>

lemma mark_loop_good:
  assumes "marks_inv rows k" and "length ls = length rows" and "k_drawn k = mark_total rows k"
  shows "\<exists>k' outs r. mark_loop (mark_render host header ls rows) rows candidates evs k = Some (k', outs, r)
    \<and> marks_inv rows k' \<and> on_screen (k_drawn k) outs = Some (if r = None then k_drawn k' else 0)
    \<and> (case r of
        Some (Some victims) \<Rightarrow>
          k_confirm k' \<and> victims = filter (\<lambda>s. entry_id s \<in> k_marked k') candidates
          \<and> (\<exists>before. Painted False (mark_lines host header ls rows k) # outs
                = before @ [Painted False (mark_lines host header ls rows k'), Erased (k_drawn k')])
      | _ \<Rightarrow> True)"
  using assms(1,3)
proof (induction evs arbitrary: k)
  case (Cons ev evs)
  obtain k1 flow where ev: "mark_event rows k ev = Some (k1, flow)" "marks_inv rows k1" "k_drawn k1 = k_drawn k"
      "\<not> (flow = Keep \<and> k1 \<noteq> k)" "\<not> (flow = Confirmed \<and> \<not> (k1 = k \<and> k_confirm k))"
    using mark_event_inv [OF Cons.prems(1)] by blast
  show ?case
  proof (cases flow)
    case Keep
    with ev show ?thesis using Cons.IH [OF Cons.prems] by simp
  next
    case Repaint
    let ?k2 = "k1\<lparr>k_drawn := mark_total rows k1\<rparr>"
    have "marks_inv rows ?k2" "k_drawn ?k2 = mark_total rows ?k2" using ev(2) by (simp_all add: mark_total_def)
    from Cons.IH [OF this] obtain k' outs r where rest:
        "mark_loop (mark_render host header ls rows) rows candidates evs ?k2 = Some (k', outs, r)"
        "marks_inv rows k'" "on_screen (k_drawn ?k2) outs = Some (if r = None then k_drawn k' else 0)"
        "case r of
          Some (Some victims) \<Rightarrow>
            k_confirm k' \<and> victims = filter (\<lambda>s. entry_id s \<in> k_marked k') candidates
            \<and> (\<exists>before. Painted False (mark_lines host header ls rows ?k2) # outs
                  = before @ [Painted False (mark_lines host header ls rows k'), Erased (k_drawn k')])
        | _ \<Rightarrow> True"
      by blast
    let ?all = "[Erased (k_drawn k), Painted False (mark_lines host header ls rows k1)] @ outs"
    have "mark_loop (mark_render host header ls rows) rows candidates (ev # evs) k = Some (k', ?all, r)"
      using rest(1) by (simp add: ev(1,3) Repaint mark_render_def)
    moreover have "on_screen (k_drawn k) ?all = Some (if r = None then k_drawn k' else 0)"
      using rest(3) by (simp add: mark_lines_length [OF assms(2)])
    moreover have "case r of
          Some (Some victims) \<Rightarrow>
            k_confirm k' \<and> victims = filter (\<lambda>s. entry_id s \<in> k_marked k') candidates
            \<and> (\<exists>before. Painted False (mark_lines host header ls rows k) # ?all
                  = before @ [Painted False (mark_lines host header ls rows k'), Erased (k_drawn k')])
        | _ \<Rightarrow> True"
    proof (cases "\<exists>victims. r = Some (Some victims)")
      case True
      then obtain victims before where "r = Some (Some victims)" "Painted False (mark_lines host header ls rows k1) # outs
          = before @ [Painted False (mark_lines host header ls rows k'), Erased (k_drawn k')]"
        using rest(4) by auto
      then have "Painted False (mark_lines host header ls rows k) # ?all
          = (Painted False (mark_lines host header ls rows k) # Erased (k_drawn k) # before)
            @ [Painted False (mark_lines host header ls rows k'), Erased (k_drawn k')]" by simp
      then show ?thesis using rest(4) \<open>r = Some (Some victims)\<close> by (simp del: append.simps)
    qed (simp split: option.split)
    ultimately show ?thesis using rest(2) by blast
  qed (use ev in auto)
qed (use assms in simp)

text \<open>
  \<open>prune --pick\<close> kills what it asked about: for a non-empty list of candidates and whatever keys are
  pressed nothing panics and no line is left on the screen, and when sessions are returned they are the
  marked ones, at least one and each once, in the order of the list, and the last question painted was
  whether to kill exactly that many.
\<close>

theorem marked_sessions_are_pruned:
  assumes "candidates \<noteq> []" and "distinct (map entry_id candidates)"
  shows "case tui_mark_sessions env now candidates evs of
      None \<Rightarrow> False
    | Some (k, outs, r) \<Rightarrow>
        on_screen 0 outs = Some (if r = None then k_drawn k else 0)
        \<and> (case r of
            Some (Some victims) \<Rightarrow>
              victims = filter (\<lambda>s. entry_id s \<in> k_marked k) candidates \<and> victims \<noteq> []
              \<and> (\<exists>before ls. outs = before @ [Painted False ls, Erased (k_drawn k)]
                   \<and> esc ''[31;1m'' @ ascii ''  kill '' @ count_text (length victims) (ascii ''session'')
                       @ ascii ''? y/n'' @ esc ''[0m'' \<in> set ls)
          | _ \<Rightarrow> True)"
proof -
  let ?rows = "build_rows now (pk_client env) candidates"
  obtain header ls where ls: "picker_lines (pk_width env) ?rows = Some (header, ls)" "length ls = length ?rows"
    using picker_lines_some by blast
  let ?draw = "mark_render (pk_host env) header ls ?rows"
  define k0 where "k0 = \<lparr>k_cursor = 0, k_marked = {}, k_confirm = False, k_status = None, k_drawn = 0\<rparr>"
  let ?k = "k0\<lparr>k_drawn := mark_total ?rows k0\<rparr>"
  let ?lines = "mark_lines (pk_host env) header ls ?rows"
  have inv: "marks_inv ?rows ?k" using assms(1) by (simp add: marks_inv_def k0_def)
  have drawn: "k_drawn ?k = mark_total ?rows ?k" by (simp add: mark_total_def)
  obtain k' outs r where run: "mark_loop ?draw ?rows candidates evs ?k = Some (k', outs, r)" "marks_inv ?rows k'"
      "on_screen (k_drawn ?k) outs = Some (if r = None then k_drawn k' else 0)"
      "case r of
        Some (Some victims) \<Rightarrow>
          k_confirm k' \<and> victims = filter (\<lambda>s. entry_id s \<in> k_marked k') candidates
          \<and> (\<exists>before. Painted False (?lines ?k) # outs = before @ [Painted False (?lines k'), Erased (k_drawn k')])
      | _ \<Rightarrow> True"
    using mark_loop_good [OF inv ls(2) drawn, of "pk_host env" header candidates evs] by blast
  let ?all = "Erased 0 # Painted False (?lines ?k) # outs"
  have whole: "tui_mark_sessions env now candidates evs = Some (k', ?all, r)"
    using run(1) by (simp add: tui_mark_sessions_def ls(1) mark_render_def Let_def flip: k0_def) (simp add: k0_def)
  have screen: "on_screen 0 ?all = Some (if r = None then k_drawn k' else 0)"
    using run(3) by (simp add: mark_lines_length [OF ls(2)])
  show ?thesis
  proof (cases "\<exists>victims. r = Some (Some victims)")
    case True
    then obtain victims before where v: "r = Some (Some victims)" "k_confirm k'"
        "victims = filter (\<lambda>s. entry_id s \<in> k_marked k') candidates"
        "Painted False (?lines ?k) # outs = before @ [Painted False (?lines k'), Erased (k_drawn k')]"
      using run(4) by auto
    have "k_marked k' \<subseteq> entry_id ` set candidates" "k_marked k' \<noteq> {}"
      using run(2) v(2) rows_ids by (auto simp: marks_inv_def)
    then have count: "length victims = card (k_marked k')" and some: "victims \<noteq> []"
      using marked_count [OF assms(2)] v(3) by (auto simp: filter_empty_conv)
    have question: "esc ''[31;1m'' @ ascii ''  kill '' @ count_text (length victims) (ascii ''session'')
        @ ascii ''? y/n'' @ esc ''[0m'' \<in> set (?lines k')"
      by (simp add: mark_lines_def mark_hint_def v(2) count del: ascii_simps)
    have "?all = (Erased 0 # before) @ [Painted False (?lines k'), Erased (k_drawn k')]" using v(4) by simp
    then have "\<exists>before ls. ?all = before @ [Painted False ls, Erased (k_drawn k')]
        \<and> esc ''[31;1m'' @ ascii ''  kill '' @ count_text (length victims) (ascii ''session'')
            @ ascii ''? y/n'' @ esc ''[0m'' \<in> set ls"
      using question by blast
    then show ?thesis using screen some v(3) unfolding whole v(1)
      by (simp del: on_screen.simps ascii_simps append.simps)
  qed (use screen whole in \<open>simp split: option.split\<close>)
qed

section \<open>Witnesses\<close>

definition idle_entry :: "u32 \<Rightarrow> SessionEntry" where
  "idle_entry i =
     \<lparr>entry_id = i, name = [], pty_path = [], shell_pid = 1, created_at = 0, attached = False, last_heartbeat = 0,
      foreground_cmd = [], cwd = [], client_name = [], agent_forwarding_active = False, is_last_attached = False,
      last_activity = 0, linger_secs = 0\<rparr>"

text \<open>One of two sessions is marked and the kill confirmed.\<close>

theorem marked_sessions_are_pruned_witness:
  "case tui_mark_sessions example_env 0 [idle_entry 1, idle_entry 2]
      [Key (chr '' '') NoMods, Key EnterKey NoMods, Key (chr ''y'') NoMods] of
      None \<Rightarrow> False
    | Some (k, outs, r) \<Rightarrow>
        on_screen 0 outs = Some (if r = None then k_drawn k else 0)
        \<and> (case r of
            Some (Some victims) \<Rightarrow>
              victims = filter (\<lambda>s. entry_id s \<in> k_marked k) [idle_entry 1, idle_entry 2] \<and> victims \<noteq> []
              \<and> (\<exists>before ls. outs = before @ [Painted False ls, Erased (k_drawn k)]
                   \<and> esc ''[31;1m'' @ ascii ''  kill '' @ count_text (length victims) (ascii ''session'')
                       @ ascii ''? y/n'' @ esc ''[0m'' \<in> set ls)
          | _ \<Rightarrow> True)"
  by (rule marked_sessions_are_pruned) (simp_all add: idle_entry_def)

end
