(* ===== verification/Wire_Names.thy ===== *)
theory Wire_Names
  imports Rendezvous Destination
begin

text \<open>
  The names a sender gives its files, from \<open>src/src/commands/transfer.rs\<close>: what the pairing bytes mean,
  the choice of daemons, and the disambiguation of names that the receiver could not keep apart.  The
  resolution of a path to the file it names (\<open>std::fs::canonicalize\<close>) is a parameter.  Groups of equal
  names are taken in the order of their first member, where the source has the order of a hash map, on
  which only the wording of an error and the order of the report depend.
\<close>

section \<open>Pairing\<close>

abbreviation (input) TRANSFER_GO_PAIRED :: byte where "TRANSFER_GO_PAIRED \<equiv> 1"

datatype GoOutcome = GoPaired | Skipped rstring | ProtocolViolation rstring

definition hex_digit :: "nat \<Rightarrow> byte" where
  "hex_digit d = (if d < 10 then word_of_nat (0x30 + d) else word_of_nat (0x57 + d))"

definition hex2 :: "byte \<Rightarrow> rstring" where
  "hex2 b = [hex_digit (unat b div 16), hex_digit (unat b mod 16)]"

definition classify_go :: "byte option \<Rightarrow> rstring option \<Rightarrow> GoOutcome" where
  "classify_go read label =
     (let at = (case label of Some l \<Rightarrow> l @ ascii '': '' | None \<Rightarrow> []);
          session = (if label \<noteq> None then ascii ''that session'' else ascii ''this session'')
      in case read of
           Some b \<Rightarrow>
             (if b = TRANSFER_GO_PAIRED then GoPaired
              else if b = TRANSFER_GO_SUPERSEDED then
                Skipped (at @ ascii ''replaced by a newer gritty send in '' @ session)
              else if b = TRANSFER_GO_BUSY then Skipped (at @ ascii ''busy with another transfer'')
              else ProtocolViolation (at @ ascii ''unexpected signal from server: 0x'' @ hex2 b))
         | None \<Rightarrow> Skipped (at @ ascii ''closed before pairing''))"

definition unpaired_message :: "rstring \<Rightarrow> rstring list \<Rightarrow> rstring" where
  "unpaired_message peer reasons =
     ascii ''no '' @ peer
     @ (if reasons = []
        then ascii '' paired: every offered session closed the offer (a newer `gritty send` in the same session replaces an earlier one; a session mid-transfer takes no new offers)''
        else ascii '' paired: '' @ join (ascii ''; '') reasons)"

text \<open>\<open>Path::file_name\<close> is the last component when it is a plain name.\<close>

definition sanitize_basename :: "rstring \<Rightarrow> rstring option" where
  "sanitize_basename nm =
     (let basename =
            (case rev (path_components nm) of Normal c # _ \<Rightarrow> c | _ \<Rightarrow> nm)
      in if basename = [] \<or> basename = ascii ''..'' then None else Some basename)"

fun dedupe_by_server_id :: "u64 set \<Rightarrow> (u64 \<times> 'a list) list \<Rightarrow> 'a list" where
  "dedupe_by_server_id seen [] = []"
| "dedupe_by_server_id seen ((i, ss) # rs) =
     (if i \<in> seen then dedupe_by_server_id seen rs else ss @ dedupe_by_server_id (insert i seen) rs)"

section \<open>Names and conflicts\<close>

record SendEntry =
  se_name :: rstring
  se_size :: u64
  se_mode :: u32
  se_path :: rstring

definition dir_prefixes :: "rstring \<Rightarrow> rstring list" where
  "dir_prefixes nm = map (\<lambda>i. take i nm) (filter (\<lambda>i. nm ! i = SLASH) [0..<length nm])"

definition names_conflict :: "rstring list \<Rightarrow> bool" where
  "names_conflict ns \<longleftrightarrow>
     \<not> distinct ns \<or> list_ex (\<lambda>n. list_ex (\<lambda>p. p \<in> set ns) (dir_prefixes n)) ns"

text \<open>The trailing plain components of a path.\<close>

definition avail_of :: "rstring \<Rightarrow> rstring list" where
  "avail_of path =
     rev (map (\<lambda>c. case c of Normal n \<Rightarrow> utf8_lossy n | _ \<Rightarrow> []) (takeWhile is_normal (rev (path_components path))))"

record Work =
  w_entry :: SendEntry
  w_orig :: rstring
  w_avail :: "rstring list"
  w_used :: nat

definition start_work :: "SendEntry \<Rightarrow> Work" where
  "start_work e =
     \<lparr>w_entry = e, w_orig = se_name e, w_avail = avail_of (se_path e),
      w_used = length (split_on (\<lambda>c. c = SLASH) (se_name e))\<rparr>"

abbreviation wname :: "Work \<Rightarrow> rstring" where
  "wname w \<equiv> se_name (w_entry w)"

abbreviation wpath :: "Work \<Rightarrow> rstring" where
  "wpath w \<equiv> se_path (w_entry w)"

definition can_extend :: "Work \<Rightarrow> bool" where
  "can_extend w \<longleftrightarrow> w_used w < length (w_avail w)"

definition extend_name :: "Work \<Rightarrow> Work" where
  "extend_name w =
     (let used = w_used w + 1
      in w\<lparr>w_used := used,
           w_entry := (w_entry w)\<lparr>se_name := join [SLASH] (drop (length (w_avail w) - used) (w_avail w))\<rparr>\<rparr>)"

section \<open>One round\<close>

definition owners_of :: "Work list \<Rightarrow> rstring \<Rightarrow> nat list" where
  "owners_of work nm = filter (\<lambda>i. wname (work ! i) = nm) [0..<length work]"

definition eq_groups :: "Work list \<Rightarrow> nat list list" where
  "eq_groups work = filter (\<lambda>g. 1 < length g) (map (owners_of work) (remdups (map wname work)))"

definition prefix_groups :: "Work list \<Rightarrow> nat list list" where
  "prefix_groups work =
     concat (map (\<lambda>i. map (\<lambda>p. owners_of work p @ [i]) (filter (\<lambda>p. owners_of work p \<noteq> []) (dir_prefixes (wname (work ! i)))))
       [0..<length work])"

text \<open>
  The members of a group of equal names that stay, and those that are the file of one that stays, with
  it; members whose path does not resolve always stay.
\<close>

fun collapse :: "(nat \<Rightarrow> rstring option) \<Rightarrow> nat list \<Rightarrow> nat list \<Rightarrow> nat list \<times> (nat \<times> nat) list" where
  "collapse canon kept [] = (kept, [])"
| "collapse canon kept (i # is) =
     (case (if canon i = None then None else find (\<lambda>k. canon k = canon i) kept) of
        Some k \<Rightarrow> (let (kept', dups) = collapse canon kept is in (kept', (i, k) # dups))
      | None \<Rightarrow> collapse canon (kept @ [i]) is)"

datatype WireErr =
    DuplicateName rstring "rstring list"
  | FileDirCollision "(rstring \<times> rstring) list"

fun collect :: "('a \<Rightarrow> 'e + 'b) \<Rightarrow> 'a list \<Rightarrow> 'e + 'b list" where
  "collect f [] = Inr []"
| "collect f (x # xs) =
     (case f x of
        Inl e \<Rightarrow> Inl e
      | Inr y \<Rightarrow> (case collect f xs of Inl e \<Rightarrow> Inl e | Inr ys \<Rightarrow> Inr (y # ys)))"

definition eq_step ::
  "(rstring \<Rightarrow> rstring option) \<Rightarrow> Work list \<Rightarrow> nat list \<Rightarrow> WireErr + (nat \<times> nat) list \<times> nat list" where
  "eq_step canon work grp =
     (let (kept, dups) = collapse (\<lambda>i. canon (wpath (work ! i))) [] grp;
          extendable = filter (\<lambda>i. can_extend (work ! i)) kept
      in if length kept < 2 then Inr (dups, [])
         else if extendable = [] then
           Inl (DuplicateName (wname (work ! hd kept)) (map (\<lambda>i. wpath (work ! i)) kept))
         else Inr (dups, extendable))"

definition prefix_step :: "Work list \<Rightarrow> nat set \<Rightarrow> nat list \<Rightarrow> WireErr + nat list" where
  "prefix_step work drops grp =
     (let live = filter (\<lambda>i. i \<notin> drops) grp; extendable = filter (\<lambda>i. can_extend (work ! i)) live
      in if length live < 2 then Inr []
         else if extendable = [] then
           Inl (FileDirCollision (map (\<lambda>i. (wname (work ! i), wpath (work ! i))) live))
         else Inr extendable)"

definition apply_round :: "Work list \<Rightarrow> nat set \<Rightarrow> nat set \<Rightarrow> Work list" where
  "apply_round work drops extends =
     map (\<lambda>i. if i \<in> extends then extend_name (work ! i) else work ! i) (filter (\<lambda>i. i \<notin> drops) [0..<length work])"

definition wire_round ::
  "(rstring \<Rightarrow> rstring option) \<Rightarrow> Work list \<Rightarrow> WireErr + Work list \<times> (rstring \<times> rstring) list" where
  "wire_round canon work =
     (case collect (eq_step canon work) (eq_groups work) of
        Inl e \<Rightarrow> Inl e
      | Inr eqs \<Rightarrow>
          (let dups = concat (map fst eqs); drops = set (map fst dups)
           in case collect (prefix_step work drops) (prefix_groups work) of
                Inl e \<Rightarrow> Inl e
              | Inr exts \<Rightarrow>
                  Inr (apply_round work drops (set (concat (map snd eqs)) \<union> set (concat exts)),
                    map (\<lambda>(i, k). (wpath (work ! i), wpath (work ! k))) dups)))"

section \<open>Progress\<close>

definition room :: "Work \<Rightarrow> nat" where
  "room w = Suc (length (w_avail w) - w_used w)"

lemma room_extend: "can_extend w \<Longrightarrow> room (extend_name w) < room w"
  by (simp add: room_def can_extend_def extend_name_def Let_def)

lemma room_extend_le: "room (extend_name w) \<le> room w"
  by (simp add: room_def extend_name_def Let_def)

lemma sum_filter_le:
  fixes f g :: "'a \<Rightarrow> nat"
  shows "(\<And>i. g i \<le> f i) \<Longrightarrow> sum_list (map g (filter P xs)) \<le> sum_list (map f xs)"
  by (induction xs) (auto intro: add_mono order_trans le_add2)

lemma sum_filter_less:
  fixes f g :: "'a \<Rightarrow> nat"
  assumes "\<And>i. g i \<le> f i" and "\<And>i. 0 < f i" and "x \<in> set xs" and "\<not> P x \<or> g x < f x"
  shows "sum_list (map g (filter P xs)) < sum_list (map f xs)"
  using assms(3)
proof (induction xs)
  case (Cons y ys)
  have le: "sum_list (map g (filter P ys)) \<le> sum_list (map f ys)" by (rule sum_filter_le) (rule assms(1))
  show ?case
  proof (cases "y = x")
    case True
    then show ?thesis using assms(2) [of x] assms(4) le assms(1) [of x] by (cases "P x") auto
  next
    case False
    with Cons have "sum_list (map g (filter P ys)) < sum_list (map f ys)" by simp
    then show ?thesis using assms(1) [of y] by simp
  qed
qed simp

lemma collapse_nodups: "collapse c kept is = (kept', []) \<Longrightarrow> kept' = kept @ is"
proof (induction "is" arbitrary: kept)
  case (Cons i "is")
  have "collapse c (kept @ [i]) is = (kept', [])"
    using Cons.prems by (auto split: if_splits option.splits prod.splits)
  then show ?case using Cons.IH by fastforce
qed simp

lemma collect_Inr_nth: "collect f xs = Inr ys \<Longrightarrow> x \<in> set xs \<Longrightarrow> \<exists>y \<in> set ys. f x = Inr y"
  by (induction xs arbitrary: ys) (auto split: sum.splits)

lemma collect_Inr_from: "collect f xs = Inr ys \<Longrightarrow> y \<in> set ys \<Longrightarrow> \<exists>x \<in> set xs. f x = Inr y"
  by (induction xs arbitrary: ys) (auto split: sum.splits)

lemma collect_Inl: "collect f xs = Inl e \<Longrightarrow> \<exists>x \<in> set xs. f x = Inl e"
  by (induction xs) (auto split: sum.splits)

lemma owners_set: "set (owners_of work nm) = {i. i < length work \<and> wname (work ! i) = nm}"
  by (auto simp: owners_of_def)

lemma eq_groups_mem: "g \<in> set (eq_groups work) \<Longrightarrow> \<exists>nm. g = owners_of work nm \<and> 1 < length g"
  by (auto simp: eq_groups_def)

lemma prefix_groups_mem:
  "g \<in> set (prefix_groups work) \<Longrightarrow>
     \<exists>i p. i < length work \<and> p \<in> set (dir_prefixes (wname (work ! i))) \<and> g = owners_of work p @ [i] \<and> owners_of work p \<noteq> []"
  by (auto simp: prefix_groups_def)


lemma collapse_spec:
  assumes "collapse canon kept is = (kept', dups)"
  shows "set kept \<subseteq> set kept'" "set kept' \<subseteq> set kept \<union> set is" "fst ` set dups \<subseteq> set is"
    "set is \<subseteq> set kept' \<union> fst ` set dups"
    "\<And>i k. (i, k) \<in> set dups \<Longrightarrow> k \<in> set kept' \<and> canon i \<noteq> None \<and> canon i = canon k"
proof -
  have "set kept \<subseteq> set kept' \<and> set kept' \<subseteq> set kept \<union> set is \<and> fst ` set dups \<subseteq> set is
      \<and> set is \<subseteq> set kept' \<union> fst ` set dups
      \<and> (\<forall>(i, k) \<in> set dups. k \<in> set kept' \<and> canon i \<noteq> None \<and> canon i = canon k)"
    using assms
  proof (induction canon kept "is" arbitrary: kept' dups rule: collapse.induct)
    case (2 canon kept i "is")
    show ?case
    proof (cases "if canon i = None then None else find (\<lambda>k. canon k = canon i) kept")
      case None
      then show ?thesis using 2(1) [OF None, of kept' dups] 2(3) by (auto simp: None)
    next
      case (Some k)
      obtain dups' where rest: "collapse canon kept is = (kept', dups')" "dups = (i, k) # dups'"
        using 2(3) by (auto simp: Some split: prod.splits)
      have k: "canon i \<noteq> None" "k \<in> set kept" "canon k = canon i"
        using Some by (auto split: if_splits simp: find_Some_iff)
      show ?thesis using 2(2) [OF Some rest(1)] rest(2) k by auto
    qed
  qed auto
  then show "set kept \<subseteq> set kept'" "set kept' \<subseteq> set kept \<union> set is" "fst ` set dups \<subseteq> set is"
    "set is \<subseteq> set kept' \<union> fst ` set dups"
    "\<And>i k. (i, k) \<in> set dups \<Longrightarrow> k \<in> set kept' \<and> canon i \<noteq> None \<and> canon i = canon k" by auto
qed

lemma eq_step_Inr:
  assumes "eq_step canon work grp = Inr (dups, ext)"
  shows "fst ` set dups \<subseteq> set grp" "\<And>i. i \<in> set ext \<Longrightarrow> i \<in> set grp \<and> can_extend (work ! i)"
    "1 < length grp \<Longrightarrow> dups = [] \<Longrightarrow> ext \<noteq> []"
proof -
  obtain kept ds where c: "collapse (\<lambda>i. canon (wpath (work ! i))) [] grp = (kept, ds)" by fastforce
  note spec = collapse_spec [OF c]
  have ds: "ds = dups" "ext = [] \<and> length kept < 2 \<or> ext \<noteq> [] \<and> ext = filter (\<lambda>i. can_extend (work ! i)) kept"
    using assms by (auto simp: eq_step_def c Let_def split: if_splits)
  show "fst ` set dups \<subseteq> set grp" using spec(3) ds(1) by simp
  show "i \<in> set grp \<and> can_extend (work ! i)" if "i \<in> set ext" for i using that spec(2) ds(2) by auto
  show "ext \<noteq> []" if "1 < length grp" "dups = []"
    using that collapse_nodups [of "\<lambda>i. canon (wpath (work ! i))" "[]" grp kept] c ds by auto
qed

lemma prefix_step_Inr:
  assumes "prefix_step work drops grp = Inr ext"
  shows "\<And>i. i \<in> set ext \<Longrightarrow> i \<in> set grp \<and> can_extend (work ! i)" "1 < length grp \<Longrightarrow> drops = {} \<Longrightarrow> ext \<noteq> []"
  using assms by (auto simp: prefix_step_def Let_def split: if_splits)

lemma grp_bound:
  "g \<in> set (eq_groups work) \<Longrightarrow> i \<in> set g \<Longrightarrow> i < length work"
  "g \<in> set (prefix_groups work) \<Longrightarrow> i \<in> set g \<Longrightarrow> i < length work"
  by (auto dest!: eq_groups_mem prefix_groups_mem simp: owners_set)

lemma prefix_grp_length: "g \<in> set (prefix_groups work) \<Longrightarrow> 1 < length g"
  by (auto dest!: prefix_groups_mem)

text \<open>The parts of a round that did not fail.\<close>

lemma wire_round_Inr:
  assumes "wire_round canon work = Inr (work', d)"
  obtains eqs exts where "collect (eq_step canon work) (eq_groups work) = Inr eqs"
    "collect (prefix_step work (fst ` set (concat (map fst eqs)))) (prefix_groups work) = Inr exts"
    "work' = apply_round work (fst ` set (concat (map fst eqs))) (set (concat (map snd eqs)) \<union> set (concat exts))"
    "d = map (\<lambda>(i, k). (wpath (work ! i), wpath (work ! k))) (concat (map fst eqs))"
  using assms by (auto simp: wire_round_def Let_def image_Union split: sum.splits)

lemma wire_round_progress:
  assumes "\<not> (eq_groups work = [] \<and> prefix_groups work = [])" and "wire_round canon work = Inr (work', d)"
  shows "sum_list (map room work') < sum_list (map room work)"
proof -
  obtain eqs exts where r: "collect (eq_step canon work) (eq_groups work) = Inr eqs"
      "collect (prefix_step work (fst ` set (concat (map fst eqs)))) (prefix_groups work) = Inr exts"
      "work' = apply_round work (fst ` set (concat (map fst eqs))) (set (concat (map snd eqs)) \<union> set (concat exts))"
    using wire_round_Inr [OF assms(2)] by metis
  let ?drops = "fst ` set (concat (map fst eqs))" and ?ext = "set (concat (map snd eqs)) \<union> set (concat exts)"
  let ?g = "\<lambda>i. room (if i \<in> ?ext then extend_name (work ! i) else work ! i)" and ?f = "\<lambda>i. room (work ! i)"
  have "\<exists>i < length work. i \<in> ?drops \<or> i \<in> ?ext \<and> can_extend (work ! i)"
  proof (cases "eq_groups work")
    case (Cons g gs)
    then have g: "g \<in> set (eq_groups work)" by simp
    obtain dups ext where step: "(dups, ext) \<in> set eqs" "eq_step canon work g = Inr (dups, ext)"
      using collect_Inr_nth [OF r(1) g] by auto
    have "1 < length g" using eq_groups_mem [OF g] by blast
    then consider i k where "(i, k) \<in> set dups" | i where "i \<in> set ext"
      using eq_step_Inr(3) [OF step(2)] by (cases dups; cases ext) auto
    then show ?thesis
    proof cases
      case 1
      then have "i \<in> ?drops" "i < length work"
        using step eq_step_Inr(1) [OF step(2)] grp_bound(1) [OF g] by force+
      then show ?thesis by blast
    next
      case 2
      then have "i \<in> ?ext" "can_extend (work ! i)" "i < length work"
        using step eq_step_Inr(2) [OF step(2)] grp_bound(1) [OF g] by force+
      then show ?thesis by blast
    qed
  next
    case Nil
    then have eqs: "eqs = []" using r(1) by simp
    obtain g where g: "g \<in> set (prefix_groups work)" using Nil assms(1) by (cases "prefix_groups work") auto
    obtain ext where step: "ext \<in> set exts" "prefix_step work {} g = Inr ext"
      using collect_Inr_nth [OF r(2) g] by (auto simp: eqs)
    have "ext \<noteq> []" using prefix_step_Inr(2) [OF step(2) prefix_grp_length [OF g]] by simp
    then obtain i where "i \<in> set ext" by (cases ext) auto
    then have "i \<in> ?ext" "can_extend (work ! i)" "i < length work"
      using step prefix_step_Inr(1) [OF step(2)] grp_bound(2) [OF g] by auto
    then show ?thesis by blast
  qed
  then obtain i where i: "i < length work" "i \<in> ?drops \<or> i \<in> ?ext \<and> can_extend (work ! i)" by blast
  have "sum_list (map ?g (filter (\<lambda>i. i \<notin> ?drops) [0..<length work])) < sum_list (map ?f [0..<length work])"
  proof (rule sum_filter_less)
    show "?g j \<le> ?f j" for j using room_extend_le by simp
    show "0 < ?f j" for j by (simp add: room_def)
    show "i \<in> set [0..<length work]" using i(1) by simp
    show "\<not> i \<notin> ?drops \<or> ?g i < ?f i" using i(2) room_extend by auto
  qed
  moreover have "map ?f [0..<length work] = map room work" by (rule nth_equalityI) simp_all
  ultimately show ?thesis by (simp add: r(3) apply_round_def comp_def)
qed

section \<open>The loop\<close>

record Uniquified =
  u_entries :: "SendEntry list"
  u_renames :: "(rstring \<times> rstring) list"
  u_dropped :: "(rstring \<times> rstring) list"

definition settled :: "Work list \<Rightarrow> (rstring \<times> rstring) list \<Rightarrow> Uniquified" where
  "settled work dropped =
     \<lparr>u_entries = map w_entry work,
      u_renames = map (\<lambda>w. (wpath w, wname w)) (filter (\<lambda>w. wname w \<noteq> w_orig w) work),
      u_dropped = dropped\<rparr>"

function settle ::
  "(rstring \<Rightarrow> rstring option) \<Rightarrow> Work list \<Rightarrow> (rstring \<times> rstring) list \<Rightarrow> WireErr + Uniquified" where
  "settle canon work dropped =
     (if eq_groups work = [] \<and> prefix_groups work = [] then Inr (settled work dropped)
      else
        (case wire_round canon work of
           Inl e \<Rightarrow> Inl e
         | Inr (work', d) \<Rightarrow> settle canon work' (dropped @ d)))"
  by pat_completeness auto
termination
  by (relation "measure (\<lambda>(canon, work, dropped). sum_list (map room work))") (auto intro!: wire_round_progress)

declare settle.simps [simp del]

definition uniquify_wire_names ::
  "(rstring \<Rightarrow> rstring option) \<Rightarrow> SendEntry list \<Rightarrow> WireErr + Uniquified" where
  "uniquify_wire_names canon entries =
     (if \<not> names_conflict (map se_name entries) then Inr \<lparr>u_entries = entries, u_renames = [], u_dropped = []\<rparr>
      else settle canon (map start_work entries) [])"

end
