(* ===== verification/Wire_Names_Proofs.thy ===== *)
theory Wire_Names_Proofs
  imports Wire_Names "HOL-Library.Multiset"
begin

text \<open>
  That the disambiguation of file names ends with names the receiver can keep apart, loses no file, and
  gives up only on files whose paths cannot be told apart.
\<close>

section \<open>Components\<close>

lemma split_on_free: "p \<in> set (split_on P xs) \<Longrightarrow> x \<in> set p \<Longrightarrow> \<not> P x"
proof (induction xs arbitrary: p)
  case (Cons y ys)
  obtain q qs where q: "split_on P ys = q # qs" by (metis split_on_nonempty neq_Nil_conv)
  have "\<not> P x" if "x \<in> set q \<or> p \<in> set qs"
    using Cons.IH [of q] Cons.IH [of p] Cons.prems(2) that by (auto simp: q)
  then show ?case using Cons.IH [of p] Cons.prems by (auto simp: q split: if_splits)
qed simp

lemma split_on_sep: "P s \<Longrightarrow> split_on P (xs @ s # ys) = split_on P xs @ split_on P ys"
proof (induction xs)
  case (Cons x xs)
  obtain q qs where q: "split_on P xs = q # qs" by (metis split_on_nonempty neq_Nil_conv)
  then show ?case using Cons by simp
qed simp

lemma utf8_lossy_set: "set bs \<subseteq> A \<Longrightarrow> {0xEF, 0xBF, 0xBD} \<subseteq> A \<Longrightarrow> set (utf8_lossy bs) \<subseteq> A"
proof (induction bs rule: length_induct)
  case (1 bs)
  have IH: "set (utf8_lossy zs) \<subseteq> A" if "length zs < length bs" "set zs \<subseteq> A" for zs
    using 1 that by blast
  consider "bs = []" | b where "bs = [b]" | b c where "bs = [b, c]" | b c d where "bs = [b, c, d]"
    | b c d e r where "bs = b # c # d # e # r"
    by (metis list.exhaust)
  then show ?case
  proof cases
    case (2 b)
    then show ?thesis using "1.prems" by simp
  next
    case (3 b c)
    then show ?thesis using "1.prems" by (simp add: IH utf8_lossy.simps(2) [of b "[c]"] del: utf8_lossy.simps(2))
  next
    case (4 b c d)
    then show ?thesis using "1.prems" by (simp add: IH utf8_lossy.simps(2) [of b "[c, d]"] del: utf8_lossy.simps(2))
  next
    case (5 b c d e r)
    then show ?thesis using "1.prems" by (simp add: IH utf8_lossy.simps(2) [of b "c # d # e # r"] del: utf8_lossy.simps(2))
  qed simp
qed

lemma piece_free: "Normal n \<in> set (piece_components first ps) \<Longrightarrow> n \<in> set ps"
  by (induction first ps rule: piece_components.induct) (auto split: if_splits)

lemma avail_free: "c \<in> set (avail_of path) \<Longrightarrow> SLASH \<notin> set c"
proof -
  assume "c \<in> set (avail_of path)"
  then obtain n where n: "Normal n \<in> set (path_components path)" "c = utf8_lossy n"
    by (auto simp: avail_of_def is_normal_def dest!: set_takeWhileD split: component.splits)
  then have "n \<in> set (split_on (\<lambda>c. c = SLASH) path)"
    by (auto simp: path_components_def Let_def dest: piece_free split: if_splits)
  then have "SLASH \<notin> set n" using split_on_free [of n "\<lambda>c. c = SLASH"] by blast
  then show ?thesis using utf8_lossy_set [of n "- {SLASH}"] n(2) by auto
qed

section \<open>The invariant\<close>

definition suffix_name :: "rstring \<Rightarrow> nat \<Rightarrow> rstring \<Rightarrow> bool" where
  "suffix_name path k nm \<longleftrightarrow>
     0 < k \<and> k \<le> length (avail_of path) \<and> nm = join [SLASH] (drop (length (avail_of path) - k) (avail_of path))"

definition wf_entry :: "SendEntry \<Rightarrow> bool" where
  "wf_entry e \<longleftrightarrow> suffix_name (se_path e) (length (split_on (\<lambda>c. c = SLASH) (se_name e))) (se_name e)"

definition work_ok :: "Work \<Rightarrow> bool" where
  "work_ok w \<longleftrightarrow> w_avail w = avail_of (wpath w) \<and> suffix_name (wpath w) (w_used w) (wname w)"

text \<open>A name of the source path's last components tells them.\<close>

lemma suffix_split:
  "suffix_name path k nm \<Longrightarrow> split_on (\<lambda>c. c = SLASH) nm = drop (length (avail_of path) - k) (avail_of path)"
  unfolding suffix_name_def by (auto intro!: split_join dest!: in_set_dropD avail_free)

lemma start_ok: "wf_entry e \<Longrightarrow> work_ok (start_work e)"
  by (simp add: work_ok_def start_work_def wf_entry_def)

lemma extend_ok: "work_ok w \<Longrightarrow> can_extend w \<Longrightarrow> work_ok (extend_name w) \<and> wpath (extend_name w) = wpath w"
  by (simp add: work_ok_def suffix_name_def extend_name_def can_extend_def Let_def)

lemma full_name: "work_ok w \<Longrightarrow> \<not> can_extend w \<Longrightarrow> split_on (\<lambda>c. c = SLASH) (wname w) = avail_of (wpath w)"
  using suffix_split [of "wpath w" "w_used w" "wname w"]
  by (auto simp: work_ok_def can_extend_def suffix_name_def)

section \<open>Nothing is lost\<close>

lemma collapse_mset: "collapse canon kept is = (kept', dups) \<Longrightarrow> mset kept' + mset (map fst dups) = mset kept + mset is"
proof (induction canon kept "is" arbitrary: kept' dups rule: collapse.induct)
  case (2 canon kept i "is")
  show ?case
  proof (cases "if canon i = None then None else find (\<lambda>k. canon k = canon i) kept")
    case None
    then show ?thesis using 2(1) [OF None, of kept' dups] 2(3) by (simp add: None)
  next
    case (Some k)
    obtain dups' where "collapse canon kept is = (kept', dups')" "dups = (i, k) # dups'"
      using 2(3) by (auto simp: Some split: prod.splits)
    then show ?thesis using 2(2) [OF Some, of kept' dups'] by simp
  qed
qed simp

lemma eq_step_dups: "eq_step canon work grp = Inr (dups, ext) \<Longrightarrow> mset (map fst dups) \<subseteq># mset grp"
proof -
  assume step: "eq_step canon work grp = Inr (dups, ext)"
  obtain kept ds where c: "collapse (\<lambda>i. canon (wpath (work ! i))) [] grp = (kept, ds)" by fastforce
  with step have "ds = dups" by (auto simp: eq_step_def Let_def split: if_splits)
  then show ?thesis using collapse_mset [OF c] by (metis add_0 mset_zero_iff mset_subset_eq_add_right)
qed

lemma all_dups:
  "collect (eq_step canon work) grps = Inr eqs \<Longrightarrow> mset (map fst (concat (map fst eqs))) \<subseteq># mset (concat grps)"
proof (induction grps arbitrary: eqs)
  case (Cons g gs)
  then obtain dups ext eqs' where "eq_step canon work g = Inr (dups, ext)" "collect (eq_step canon work) gs = Inr eqs'"
      "eqs = (dups, ext) # eqs'"
    by (auto split: sum.splits)
  then show ?case using Cons.IH eq_step_dups by (auto intro: subset_mset.add_mono)
qed simp

lemma eq_groups_distinct: "distinct (concat (eq_groups work))"
proof -
  have "distinct (concat (filter Q (map (owners_of work) ns)))" if "distinct ns" for Q ns
    using that by (induction ns) (auto simp: owners_set owners_of_def)
  then show ?thesis by (simp add: eq_groups_def)
qed

lemma dups_distinct:
  assumes "collect (eq_step canon work) (eq_groups work) = Inr eqs"
  shows "distinct (map fst (concat (map fst eqs)))"
proof -
  obtain rest where "mset (concat (eq_groups work)) = mset (map fst (concat (map fst eqs))) + rest"
    using all_dups [OF assms] by (auto simp: subset_mset.le_iff_add)
  moreover obtain cs where "mset cs = rest" using ex_mset by blast
  ultimately have "mset (concat (eq_groups work)) = mset (map fst (concat (map fst eqs)) @ cs)" by simp
  then have "distinct (map fst (concat (map fst eqs)) @ cs)"
    using eq_groups_distinct mset_eq_imp_distinct_iff by blast
  then show ?thesis by simp
qed

lemma split_indices:
  assumes "distinct ds" and "set ds \<subseteq> {..<n}"
  shows "mset (filter (\<lambda>i. i \<notin> set ds) [0..<n]) + mset ds = mset [0..<n]"
proof -
  have "mset (filter (\<lambda>i. i \<in> set ds) [0..<n]) = mset ds"
    using assms by (intro set_eq_iff_mset_eq_distinct [THEN iffD1]) auto
  then show ?thesis using multiset_partition [of "mset [0..<n]" "\<lambda>i. i \<in> set ds"] by (simp add: add.commute)
qed

lemma round_paths:
  assumes "list_all work_ok work" and "wire_round canon work = Inr (work', d)"
  shows "list_all work_ok work'" "mset (map wpath work') + mset (map fst d) = mset (map wpath work)"
    "list_all (\<lambda>(p, q). canon p \<noteq> None \<and> canon p = canon q) d"
proof -
  obtain eqs exts where r: "collect (eq_step canon work) (eq_groups work) = Inr eqs"
      "collect (prefix_step work (fst ` set (concat (map fst eqs)))) (prefix_groups work) = Inr exts"
      "work' = apply_round work (fst ` set (concat (map fst eqs))) (set (concat (map snd eqs)) \<union> set (concat exts))"
      "d = map (\<lambda>(i, k). (wpath (work ! i), wpath (work ! k))) (concat (map fst eqs))"
    using wire_round_Inr [OF assms(2)] by metis
  let ?dups = "concat (map fst eqs)"
  let ?ext = "set (concat (map snd eqs)) \<union> set (concat exts)"
  let ?kept = "filter (\<lambda>i. i \<notin> set (map fst ?dups)) [0..<length work]"
  have can: "can_extend (work ! i)" if "i \<in> ?ext" for i
  proof -
    from that consider dups ext where "(dups, ext) \<in> set eqs" "i \<in> set ext" | ext where "ext \<in> set exts" "i \<in> set ext"
      by auto
    then show ?thesis
    proof cases
      case 1
      then obtain g where "eq_step canon work g = Inr (dups, ext)" using collect_Inr_from [OF r(1)] by blast
      then show ?thesis using eq_step_Inr(2) 1(2) by blast
    next
      case 2
      then obtain g where "prefix_step work (fst ` set ?dups) g = Inr ext" using collect_Inr_from [OF r(2)] by blast
      then show ?thesis using prefix_step_Inr(1) 2(2) by blast
    qed
  qed
  have ok: "work_ok (work ! i)" if "i < length work" for i using assms(1) that by (simp add: list_all_length)
  define nxt where "nxt = (\<lambda>i. if i \<in> ?ext then extend_name (work ! i) else work ! i)"
  have next_ok: "work_ok (nxt i) \<and> wpath (nxt i) = wpath (work ! i)" if "i < length work" for i
    using extend_ok [OF ok [OF that]] can ok [OF that] unfolding nxt_def by simp
  have work': "work' = map nxt ?kept"
    by (simp add: r(3) apply_round_def nxt_def)
  show "list_all work_ok work'" unfolding work' list_all_iff using next_ok by auto
  have bound: "set (map fst ?dups) \<subseteq> {..<length work}"
  proof
    fix i assume "i \<in> set (map fst ?dups)"
    then have "i \<in># mset (concat (eq_groups work))" using all_dups [OF r(1)] by (metis mset_subset_eqD set_mset_mset)
    then show "i \<in> {..<length work}" using grp_bound(1) by auto
  qed
  have "map wpath work' = map (\<lambda>i. wpath (work ! i)) ?kept"
    unfolding work' using next_ok by simp
  moreover have "map fst d = map (\<lambda>i. wpath (work ! i)) (map fst ?dups)"
    by (simp add: r(4) split_def)
  ultimately have "mset (map wpath work') + mset (map fst d)
      = image_mset (\<lambda>i. wpath (work ! i)) (mset ?kept + mset (map fst ?dups))"
    by (simp add: image_mset.compositionality comp_def)
  also have "\<dots> = image_mset (\<lambda>i. wpath (work ! i)) (mset [0..<length work])"
    using split_indices [OF dups_distinct [OF r(1)] bound] by simp
  also have "\<dots> = mset (map (\<lambda>i. wpath (work ! i)) [0..<length work])" by (rule mset_map [symmetric])
  also have "map (\<lambda>i. wpath (work ! i)) [0..<length work] = map wpath work" by (rule nth_equalityI) simp_all
  finally show "mset (map wpath work') + mset (map fst d) = mset (map wpath work)" .
  have "canon (wpath (work ! i)) \<noteq> None \<and> canon (wpath (work ! i)) = canon (wpath (work ! k))"
    if ik: "(i, k) \<in> set ?dups" for i k
  proof -
    obtain dups ext where e: "(dups, ext) \<in> set eqs" "(i, k) \<in> set dups" using ik by auto
    then obtain g where g: "eq_step canon work g = Inr (dups, ext)" using collect_Inr_from [OF r(1)] by blast
    obtain kept ds where c: "collapse (\<lambda>i. canon (wpath (work ! i))) [] g = (kept, ds)" by fastforce
    with g have "ds = dups" by (auto simp: eq_step_def Let_def split: if_splits)
    with collapse_spec(5) [OF c] e(2) show ?thesis by blast
  qed
  then show "list_all (\<lambda>(p, q). canon p \<noteq> None \<and> canon p = canon q) d"
    by (auto simp: r(4) list_all_iff)
qed

section \<open>When it is settled\<close>

lemma owners_distinct: "distinct (owners_of work nm)"
  by (simp add: owners_of_def)

lemma no_eq_groups: "eq_groups work = [] \<Longrightarrow> distinct (map wname work)"
proof (rule ccontr)
  assume none: "eq_groups work = []" and "\<not> distinct (map wname work)"
  then obtain i j where ij: "i < length work" "j < length work" "i \<noteq> j" "wname (work ! i) = wname (work ! j)"
    by (auto simp: distinct_conv_nth)
  let ?g = "owners_of work (wname (work ! i))"
  have "{i, j} \<subseteq> set ?g" using ij by (auto simp: owners_set)
  then have "card {i, j} \<le> card (set ?g)" by (intro card_mono) auto
  then have "1 < length ?g" using ij(3) owners_distinct by (simp add: distinct_card)
  moreover have "wname (work ! i) \<in> set (remdups (map wname work))" using ij(1) by simp
  ultimately show False using none by (auto simp: eq_groups_def filter_empty_conv)
qed

lemma no_prefix_groups:
  assumes "prefix_groups work = []" and "w \<in> set work" and "p \<in> set (dir_prefixes (wname w))"
  shows "p \<notin> set (map wname work)"
proof
  assume "p \<in> set (map wname work)"
  then obtain j where j: "j < length work" "wname (work ! j) = p" by (auto simp: in_set_conv_nth)
  obtain i where i: "i < length work" "work ! i = w" using assms(2) by (auto simp: in_set_conv_nth)
  have "owners_of work p \<noteq> []" using j owners_set [of work p] by (cases "owners_of work p") auto
  then have "owners_of work p @ [i] \<in> set (prefix_groups work)"
    using assms(3) i by (auto simp: prefix_groups_def)
  then show False by (simp add: assms(1))
qed

lemma settled_names:
  assumes "eq_groups work = []" and "prefix_groups work = []"
  shows "\<not> names_conflict (map wname work)"
  using no_eq_groups [OF assms(1)] no_prefix_groups [OF assms(2)]
  by (auto simp: names_conflict_def list_ex_iff)

section \<open>When it gives up\<close>

text \<open>
  Files whose paths cannot be told apart: the same plain components at the end, and not known to be one
  file, or the components of one are those of a directory of the other.
\<close>

definition clash :: "(rstring \<Rightarrow> rstring option) \<Rightarrow> rstring \<Rightarrow> rstring \<Rightarrow> bool" where
  "clash canon p q \<longleftrightarrow>
     (avail_of p = avail_of q \<and> \<not> (canon p \<noteq> None \<and> canon p = canon q))
     \<or> (\<exists>c cs. avail_of q = avail_of p @ c # cs)"

lemma kept_differ:
  assumes "collapse canon kept is = (kept', dups)" and "pairwise (\<lambda>i j. \<not> (canon i \<noteq> None \<and> canon i = canon j)) (set kept)"
  shows "pairwise (\<lambda>i j. \<not> (canon i \<noteq> None \<and> canon i = canon j)) (set kept')"
  using assms
proof (induction canon kept "is" arbitrary: dups rule: collapse.induct)
  case (2 canon kept i "is")
  show ?case
  proof (cases "if canon i = None then None else find (\<lambda>k. canon k = canon i) kept")
    case None
    then have "pairwise (\<lambda>i j. \<not> (canon i \<noteq> None \<and> canon i = canon j)) (set (kept @ [i]))"
      using 2(4) by (auto simp: pairwise_insert find_None_iff split: if_splits)
    then show ?thesis using 2(1) [OF None, of dups] 2(3) by (simp add: None)
  next
    case (Some k)
    then obtain dups' where "collapse canon kept is = (kept', dups')" using 2(3) by (auto split: prod.splits)
    then show ?thesis using 2(2) [OF Some] 2(4) by blast
  qed
qed simp

text \<open>Two entries that share their name, cannot be extended and are not one file.\<close>

lemma equal_names_clash:
  assumes "work_ok (work ! i)" and "work_ok (work ! j)" and "wname (work ! i) = wname (work ! j)"
    and "\<not> can_extend (work ! i)" and "\<not> can_extend (work ! j)"
    and "\<not> (canon (wpath (work ! i)) \<noteq> None \<and> canon (wpath (work ! i)) = canon (wpath (work ! j)))"
  shows "clash canon (wpath (work ! i)) (wpath (work ! j))"
  using full_name [OF assms(1,4)] full_name [OF assms(2,5)] assms(3,6) by (simp add: clash_def)

lemma prefix_clash:
  assumes "work_ok v" and "work_ok w" and "wname v \<in> set (dir_prefixes (wname w))"
    and "\<not> can_extend v" and "\<not> can_extend w"
  shows "clash canon (wpath v) (wpath w)"
proof -
  obtain k where k: "k < length (wname w)" "wname w ! k = SLASH" "wname v = take k (wname w)"
    using assms(3) by (auto simp: dir_prefixes_def)
  then have "wname w = wname v @ SLASH # drop (Suc k) (wname w)" using id_take_nth_drop [OF k(1)] by simp
  then have "split_on (\<lambda>c. c = SLASH) (wname w)
      = split_on (\<lambda>c. c = SLASH) (wname v) @ split_on (\<lambda>c. c = SLASH) (drop (Suc k) (wname w))"
    using split_on_sep [of "\<lambda>c. c = SLASH" SLASH "wname v"] by metis
  then have "avail_of (wpath w) = avail_of (wpath v) @ split_on (\<lambda>c. c = SLASH) (drop (Suc k) (wname w))"
    using full_name assms by metis
  then show ?thesis unfolding clash_def by (metis list.exhaust split_on_nonempty)
qed

lemma two_of: "2 \<le> length xs \<Longrightarrow> distinct xs \<Longrightarrow> \<exists>i \<in> set xs. \<exists>j \<in> set xs. i \<noteq> j"
  by (cases xs rule: remdups_adj.cases) auto

definition clashing :: "(rstring \<Rightarrow> rstring option) \<Rightarrow> Work list \<Rightarrow> bool" where
  "clashing canon work \<longleftrightarrow>
     (\<exists>i < length work. \<exists>j < length work. i \<noteq> j \<and> clash canon (wpath (work ! i)) (wpath (work ! j)))"

lemma eq_step_Inl:
  assumes "list_all work_ok work" and "grp \<in> set (eq_groups work)" and "eq_step canon work grp = Inl e"
  shows "clashing canon work"
proof -
  obtain kept dups where c: "collapse (\<lambda>i. canon (wpath (work ! i))) [] grp = (kept, dups)" by fastforce
  have two: "2 \<le> length kept" and stuck: "\<And>i. i \<in> set kept \<Longrightarrow> \<not> can_extend (work ! i)"
    using assms(3) by (auto simp: eq_step_def c Let_def filter_empty_conv split: if_splits)
  obtain nm where grp: "grp = owners_of work nm" using eq_groups_mem [OF assms(2)] by blast
  have "distinct grp" by (simp add: grp owners_distinct)
  have "mset kept + mset (map fst dups) = mset grp" using collapse_mset [OF c] by simp
  then have "mset (kept @ map fst dups) = mset grp" by simp
  then have "distinct kept" using \<open>distinct grp\<close> mset_eq_imp_distinct_iff [of "kept @ map fst dups" grp] by simp
  then obtain i j where ij: "i \<in> set kept" "j \<in> set kept" "i \<noteq> j" using two_of [OF two] by blast
  have "pairwise (\<lambda>i j. \<not> (canon (wpath (work ! i)) \<noteq> None \<and> canon (wpath (work ! i)) = canon (wpath (work ! j)))) (set kept)"
    using kept_differ [OF c] by simp
  then have "\<not> (canon (wpath (work ! i)) \<noteq> None \<and> canon (wpath (work ! i)) = canon (wpath (work ! j)))"
    using ij by (simp add: pairwise_def)
  moreover have "i < length work" "j < length work" "wname (work ! i) = wname (work ! j)"
    using ij collapse_spec(2) [OF c] by (auto simp: grp owners_set)
  moreover from this have "work_ok (work ! i)" "work_ok (work ! j)" using assms(1) by (simp_all add: list_all_length)
  ultimately show ?thesis
    using equal_names_clash stuck ij unfolding clashing_def by blast
qed

lemma prefix_step_Inl:
  assumes "list_all work_ok work" and "collect (eq_step canon work) (eq_groups work) = Inr eqs"
    and "grp \<in> set (prefix_groups work)" and "prefix_step work (fst ` set (concat (map fst eqs))) grp = Inl e"
  shows "clashing canon work"
proof -
  let ?drops = "fst ` set (concat (map fst eqs))"
  obtain i p where i: "i < length work" "p \<in> set (dir_prefixes (wname (work ! i)))" "grp = owners_of work p @ [i]"
    using prefix_groups_mem [OF assms(3)] by blast
  let ?own = "filter (\<lambda>j. j \<notin> ?drops) (owners_of work p)"
  let ?live = "filter (\<lambda>j. j \<notin> ?drops) grp"
  have live: "?live = ?own @ (if i \<in> ?drops then [] else [i])" by (simp add: i(3))
  have "2 \<le> length ?live" and "filter (\<lambda>j. can_extend (work ! j)) ?live = []"
    using assms(4) unfolding prefix_step_def Let_def by (metis Inr_not_Inl not_less)+
  then have two: "2 \<le> length ?own + (if i \<in> ?drops then 0 else 1)"
    and stuck: "\<And>j. j \<in> set ?own \<Longrightarrow> \<not> can_extend (work ! j)" and stuck_i: "i \<notin> ?drops \<Longrightarrow> \<not> can_extend (work ! i)"
    unfolding live by (auto simp: filter_empty_conv split: if_splits)
  have ok: "work_ok (work ! j)" if "j < length work" for j using assms(1) that by (simp add: list_all_length)
  have own: "j < length work \<and> wname (work ! j) = p" if "j \<in> set ?own" for j using that by (simp add: owners_set)
  show ?thesis
  proof (cases "i \<in> ?drops")
    case False
    then have "?own \<noteq> []" using two by auto
    then obtain j where j: "j \<in> set ?own" using list.set_sel(1) by blast
    have "length p < length (wname (work ! i))" using i(2) by (auto simp: dir_prefixes_def)
    then have "j \<noteq> i" using own [OF j] by auto
    moreover have "clash canon (wpath (work ! j)) (wpath (work ! i))"
      using prefix_clash [OF ok ok] own [OF j] i(1,2) stuck [OF j] stuck_i [OF False] by blast
    ultimately show ?thesis using own [OF j] i(1) unfolding clashing_def by blast
  next
    case True
    then have two: "2 \<le> length ?own" using two by simp
    have "distinct ?own" by (simp add: owners_distinct)
    then obtain j k where jk: "j \<in> set ?own" "k \<in> set ?own" "j \<noteq> k" using two_of [OF two] by blast
    let ?g = "owners_of work p"
    have "2 \<le> length ?g" using two length_filter_le order_trans by blast
    moreover have "p \<in> set (remdups (map wname work))" using own [OF jk(1)] by auto
    ultimately have g: "?g \<in> set (eq_groups work)" by (auto simp: eq_groups_def)
    obtain dups ext where step: "(dups, ext) \<in> set eqs" "eq_step canon work ?g = Inr (dups, ext)"
      using collect_Inr_nth [OF assms(2) g] by auto
    obtain kept ds where c: "collapse (\<lambda>i. canon (wpath (work ! i))) [] ?g = (kept, ds)" by fastforce
    have "ds = dups" using step(2) by (auto simp: eq_step_def c Let_def split: if_splits)
    then have "fst ` set ds \<subseteq> ?drops" using step(1) by force
    then have stays: "l \<in> set kept" if "l \<in> set ?own" for l
    proof -
      have "l \<in> set ?g" "l \<notin> ?drops" using that by simp_all
      with collapse_spec(4) [OF c] \<open>fst ` set ds \<subseteq> ?drops\<close> show ?thesis by blast
    qed
    have kept: "j \<in> set kept" "k \<in> set kept" using stays jk(1,2) by blast+
    have "pairwise (\<lambda>i j. \<not> (canon (wpath (work ! i)) \<noteq> None \<and> canon (wpath (work ! i)) = canon (wpath (work ! j)))) (set kept)"
      using kept_differ [OF c] by simp
    then have "\<not> (canon (wpath (work ! j)) \<noteq> None \<and> canon (wpath (work ! j)) = canon (wpath (work ! k)))"
      using kept jk(3) by (simp add: pairwise_def)
    then have "clash canon (wpath (work ! j)) (wpath (work ! k))"
      using equal_names_clash [OF ok ok] own [OF jk(1)] own [OF jk(2)] stuck jk(1,2) by simp
    then show ?thesis using own [OF jk(1)] own [OF jk(2)] jk(3) unfolding clashing_def by blast
  qed
qed

lemma wire_round_Inl:
  assumes "list_all work_ok work" and "wire_round canon work = Inl e"
  shows "clashing canon work"
proof (cases "collect (eq_step canon work) (eq_groups work)")
  case (Inl err)
  then show ?thesis using collect_Inl eq_step_Inl [OF assms(1)] by metis
next
  case (Inr eqs)
  then have "\<exists>err. collect (prefix_step work (fst ` set (concat (map fst eqs)))) (prefix_groups work) = Inl err"
    using assms(2) by (auto simp: wire_round_def Let_def image_Union split: sum.splits)
  then show ?thesis using collect_Inl prefix_step_Inl [OF assms(1) Inr] by metis
qed

section \<open>The whole\<close>

text \<open>Two entries, at different places of the list, with these paths.\<close>

definition two_paths :: "rstring list \<Rightarrow> rstring \<Rightarrow> rstring \<Rightarrow> bool" where
  "two_paths paths p q \<longleftrightarrow> {#p, q#} \<subseteq># mset paths"

lemma clashing_paths:
  assumes "clashing canon work"
  shows "\<exists>p q. two_paths (map wpath work) p q \<and> clash canon p q"
proof -
  obtain i j where ij: "i < length work" "j < length work" "i \<noteq> j" "clash canon (wpath (work ! i)) (wpath (work ! j))"
    using assms by (auto simp: clashing_def)
  have "mset_set {i, j} \<subseteq># mset_set {0..<length work}"
    using ij(1,2) by (intro subset_imp_msubset_mset_set) auto
  then have "{#i, j#} \<subseteq># mset [0..<length work]" using ij(3) by simp
  then have "image_mset (\<lambda>i. wpath (work ! i)) {#i, j#} \<subseteq># image_mset (\<lambda>i. wpath (work ! i)) (mset [0..<length work])"
    by (rule image_mset_subseteq_mono)
  moreover have "map (\<lambda>i. wpath (work ! i)) [0..<length work] = map wpath work" by (rule nth_equalityI) simp_all
  then have "image_mset (\<lambda>i. wpath (work ! i)) (mset [0..<length work]) = mset (map wpath work)" by (metis mset_map)
  ultimately show ?thesis using ij(4) by (auto simp: two_paths_def)
qed

lemma two_paths_more: "two_paths ps p q \<Longrightarrow> mset ps \<subseteq># mset qs \<Longrightarrow> two_paths qs p q"
  unfolding two_paths_def by (rule subset_mset.order_trans)

lemma settle_spec:
  assumes "list_all work_ok work"
  shows "case settle canon work dropped of
      Inl e \<Rightarrow> \<exists>p q. two_paths (map wpath work) p q \<and> clash canon p q
    | Inr u \<Rightarrow>
        \<not> names_conflict (map se_name (u_entries u))
        \<and> list_all (\<lambda>e. \<exists>k. suffix_name (se_path e) k (se_name e)) (u_entries u)
        \<and> (\<exists>d. u_dropped u = dropped @ d \<and> list_all (\<lambda>(p, q). canon p \<noteq> None \<and> canon p = canon q) d
            \<and> mset (map se_path (u_entries u)) + mset (map fst d) = mset (map wpath work))"
  using assms
proof (induction canon work dropped rule: settle.induct)
  case (1 canon work dropped)
  show ?case
  proof (cases "eq_groups work = [] \<and> prefix_groups work = []")
    case True
    moreover have "list_all (\<lambda>e. \<exists>k. suffix_name (se_path e) k (se_name e)) (map w_entry work)"
      using 1(2) by (auto simp: list_all_iff work_ok_def)
    ultimately show ?thesis
      using settled_names [of work] by (simp add: settle.simps [of canon work] settled_def comp_def)
  next
    case False
    show ?thesis
    proof (cases "wire_round canon work")
      case (Inl e)
      then have "settle canon work dropped = Inl e"
        by (subst settle.simps) (simp only: False if_False sum.case)
      then show ?thesis using clashing_paths [OF wire_round_Inl [OF 1(2) Inl]] by simp
    next
      case (Inr r)
      obtain work' d where r: "r = (work', d)" by fastforce
      note round = round_paths [OF 1(2) Inr [unfolded r]]
      have step: "settle canon work dropped = settle canon work' (dropped @ d)"
        by (subst settle.simps) (simp only: False if_False Inr r sum.case prod.case)
      have IH: "case settle canon work' (dropped @ d) of
          Inl e \<Rightarrow> \<exists>p q. two_paths (map wpath work') p q \<and> clash canon p q
        | Inr u \<Rightarrow>
            \<not> names_conflict (map se_name (u_entries u))
            \<and> list_all (\<lambda>e. \<exists>k. suffix_name (se_path e) k (se_name e)) (u_entries u)
            \<and> (\<exists>d'. u_dropped u = (dropped @ d) @ d' \<and> list_all (\<lambda>(p, q). canon p \<noteq> None \<and> canon p = canon q) d'
                \<and> mset (map se_path (u_entries u)) + mset (map fst d') = mset (map wpath work'))"
        using 1(1) [OF False Inr r [symmetric] round(1)] .
      show ?thesis
      proof (cases "settle canon work' (dropped @ d)")
        case err: (Inl e)
        then obtain p q where "two_paths (map wpath work') p q" "clash canon p q" using IH by auto
        moreover have "mset (map wpath work') \<subseteq># mset (map wpath work)" using round(2) by (metis mset_subset_eq_add_left)
        ultimately show ?thesis using two_paths_more [of "map wpath work'" p q "map wpath work"] unfolding step err by auto
      next
        case ok: (Inr u)
        then obtain d' where d': "u_dropped u = (dropped @ d) @ d'"
            "list_all (\<lambda>(p, q). canon p \<noteq> None \<and> canon p = canon q) d'"
            "mset (map se_path (u_entries u)) + mset (map fst d') = mset (map wpath work')"
          using IH by auto
        have "mset (map se_path (u_entries u)) + mset (map fst (d @ d')) = mset (map wpath work)"
          unfolding map_append mset_append round(2) [symmetric] d'(3) [symmetric] by (simp only: ac_simps)
        then have "u_dropped u = dropped @ (d @ d') \<and> list_all (\<lambda>(p, q). canon p \<noteq> None \<and> canon p = canon q) (d @ d')
            \<and> mset (map se_path (u_entries u)) + mset (map fst (d @ d')) = mset (map wpath work)"
          using d'(1,2) round(3) by simp
        moreover have "\<not> names_conflict (map se_name (u_entries u))"
          "list_all (\<lambda>e. \<exists>k. suffix_name (se_path e) k (se_name e)) (u_entries u)"
          using IH by (simp_all add: ok)
        ultimately show ?thesis unfolding step ok sum.case by (intro conjI exI [of _ "d @ d'"]) simp_all
      qed
    qed
  qed
qed

text \<open>
  C14. The names of a transfer are made distinct: for files named by the end of their paths, either every
  file is sent under a name that is again the end of its path, no name equals another or names a directory
  of another, and the files left out are the same file as another one; or the paths of two of the files
  cannot be told apart.  In particular the loop ends.
\<close>

theorem wire_names_made_distinct:
  assumes "list_all wf_entry entries"
  shows "case uniquify_wire_names canon entries of
      Inl e \<Rightarrow> \<exists>p q. two_paths (map se_path entries) p q \<and> clash canon p q
    | Inr u \<Rightarrow>
        \<not> names_conflict (map se_name (u_entries u))
        \<and> list_all (\<lambda>e. \<exists>k. suffix_name (se_path e) k (se_name e)) (u_entries u)
        \<and> list_all (\<lambda>(p, q). canon p \<noteq> None \<and> canon p = canon q) (u_dropped u)
        \<and> mset (map se_path (u_entries u)) + mset (map fst (u_dropped u)) = mset (map se_path entries)"
proof (cases "names_conflict (map se_name entries)")
  case True
  have ok: "list_all work_ok (map start_work entries)" using assms start_ok by (auto simp: list_all_iff)
  have paths: "map wpath (map start_work entries) = map se_path entries" by (simp add: start_work_def)
  show ?thesis
    using settle_spec [OF ok, of canon "[]"] True unfolding paths
    by (cases "settle canon (map start_work entries) []") (auto simp: uniquify_wire_names_def)
next
  case False
  have "list_all (\<lambda>e. \<exists>k. suffix_name (se_path e) k (se_name e)) entries"
    using assms by (auto simp: list_all_iff wf_entry_def)
  then show ?thesis using False by (simp add: uniquify_wire_names_def)
qed

definition two_entries :: "SendEntry list" where
  "two_entries =
     [\<lparr>se_name = ascii ''x'', se_size = 0, se_mode = 0, se_path = ascii ''a/x''\<rparr>,
      \<lparr>se_name = ascii ''x'', se_size = 0, se_mode = 0, se_path = ascii ''b/x''\<rparr>]"

definition unresolved :: "rstring \<Rightarrow> rstring option" where
  "unresolved p = None"

theorem wire_names_made_distinct_witness:
  "names_conflict (map se_name two_entries)
    \<and> (case uniquify_wire_names unresolved two_entries of
        Inl e \<Rightarrow> \<exists>p q. two_paths (map se_path two_entries) p q \<and> clash unresolved p q
      | Inr u \<Rightarrow>
          \<not> names_conflict (map se_name (u_entries u))
          \<and> list_all (\<lambda>e. \<exists>k. suffix_name (se_path e) k (se_name e)) (u_entries u)
          \<and> list_all (\<lambda>(p, q). unresolved p \<noteq> None \<and> unresolved p = unresolved q) (u_dropped u)
          \<and> mset (map se_path (u_entries u)) + mset (map fst (u_dropped u)) = mset (map se_path two_entries))"
proof
  show "names_conflict (map se_name two_entries)" by (simp add: names_conflict_def two_entries_def)
  have "list_all wf_entry two_entries"
    by (simp add: two_entries_def wf_entry_def suffix_name_def avail_of_def path_components_def starts_with_def
        is_normal_def byte_class_defs)
  then show "case uniquify_wire_names unresolved two_entries of
        Inl e \<Rightarrow> \<exists>p q. two_paths (map se_path two_entries) p q \<and> clash unresolved p q
      | Inr u \<Rightarrow>
          \<not> names_conflict (map se_name (u_entries u))
          \<and> list_all (\<lambda>e. \<exists>k. suffix_name (se_path e) k (se_name e)) (u_entries u)
          \<and> list_all (\<lambda>(p, q). unresolved p \<noteq> None \<and> unresolved p = unresolved q) (u_dropped u)
          \<and> mset (map se_path (u_entries u)) + mset (map fst (u_dropped u)) = mset (map se_path two_entries)"
    by (rule wire_names_made_distinct)
qed

end
