(* ===== verification/Procscan.thy ===== *)
theory Procscan
  imports File_Transfer Naming
begin

text \<open>
  Orphaned daemons, from \<open>src/src/procscan.rs\<close>: the scan of the process table for \<open>gritty server\<close>
  processes whose registration no longer names them, and the reaping of those a second scan confirms.
  A \<open>PathBuf\<close> is the list of its components, by which paths are compared; what \<open>/proc\<close> and the files
  hold at a scan is the environment.
\<close>

section \<open>Paths and words\<close>

type_synonym pathbuf = "component list"

definition file_name :: "pathbuf \<Rightarrow> rstring option" where
  "file_name p = (case rev p of Normal n # _ \<Rightarrow> Some n | _ \<Rightarrow> None)"

definition with_file_name :: "pathbuf \<Rightarrow> rstring \<Rightarrow> pathbuf" where
  "with_file_name p n = (if file_name p = None then p else butlast p) @ [Normal n]"

definition pid_file_path :: "pathbuf \<Rightarrow> pathbuf" where
  "pid_file_path p = with_file_name p (ascii ''daemon.pid'')"

text \<open>\<open>str::split_whitespace\<close>: the words between runs of white space.\<close>

definition at_space :: "rstring \<Rightarrow> bool" where
  "at_space s \<longleftrightarrow> list_ex (\<lambda>w. starts_with s w) whitespace"

fun word_end :: "rstring \<Rightarrow> nat" where
  "word_end [] = 0"
| "word_end (b # bs) = (if at_space (b # bs) then 0 else Suc (word_end bs))"

lemma word_end_le: "word_end s \<le> length s"
  by (induction s) auto

lemma trim_start_shorter: "length (trim_start s) \<le> length s"
proof (induction s rule: trim_start.induct)
  case (1 s)
  show ?case
  proof (cases "find (\<lambda>w. starts_with s w) whitespace")
    case None
    then show ?thesis by (subst trim_start.simps) simp
  next
    case (Some w)
    with 1 have "length (trim_start (drop (length w) s)) \<le> length (drop (length w) s)" by blast
    with Some show ?thesis by (subst trim_start.simps) simp
  qed
qed

function split_whitespace :: "rstring \<Rightarrow> rstring list" where
  "split_whitespace s =
     (let t = trim_start s; n = word_end t
      in if n = 0 then [] else take n t # split_whitespace (drop n t))"
  by pat_completeness auto
termination
proof (relation "measure length")
  fix s t :: rstring and n :: nat
  assume "t = trim_start s" "n = word_end t" "n \<noteq> 0"
  then show "(drop n t, s) \<in> measure length"
    using trim_start_shorter [of s] word_end_le [of t] by (cases t) auto
qed simp

declare split_whitespace.simps [simp del]

section \<open>The process table\<close>

text \<open>\<open>/proc/net/unix\<close>: later lines of the same inode win.\<close>

definition parse_line :: "rstring \<Rightarrow> (nat \<times> pathbuf) option" where
  "parse_line line =
     (let fields = split_whitespace line
      in if length fields < 8 then None
         else
           (case parse_unsigned (2 ^ 64) (fields ! 6) of
              None \<Rightarrow> None
            | Some inode \<Rightarrow>
                (let path = fields ! 7
                 in if starts_with path [SLASH] then Some (inode, path_components path) else None)))"

definition parse_proc_net_unix :: "rstring \<Rightarrow> nat \<Rightarrow> pathbuf option" where
  "parse_proc_net_unix text =
     foldl (\<lambda>m line. case parse_line line of Some (i, p) \<Rightarrow> m(i \<mapsto> p) | None \<Rightarrow> m) Map.empty (drop 1 (lines text))"

text \<open>A process: its owner and command line where they can be read, the targets of its descriptors.\<close>

record Proc =
  pr_pid :: u32
  pr_uid :: "u32 option"
  pr_cmdline :: "byte list option"
  pr_links :: "rstring list"

text \<open>
  What a scan sees: the table of sockets (empty when unreadable), the processes, the files, who scans, and
  the order in which the set of a process's paths is iterated.
\<close>

record System =
  sy_unix :: rstring
  sy_procs :: "Proc list"
  sy_read :: "pathbuf \<Rightarrow> rstring option"
  sy_exists :: "pathbuf \<Rightarrow> bool"
  sy_uid :: u32
  sy_pid :: u32
  sy_order :: "u32 \<Rightarrow> pathbuf list \<Rightarrow> pathbuf list"

definition link_inode :: "rstring \<Rightarrow> nat option" where
  "link_inode s =
     Option.bind (strip_prefix (ascii ''socket:['') s) (\<lambda>rest.
       Option.bind (strip_suffix (ascii '']'') rest) (parse_unsigned (2 ^ 64)))"

definition bound_unix_paths :: "System \<Rightarrow> Proc \<Rightarrow> pathbuf list" where
  "bound_unix_paths sys p =
     remdups (List.map_filter (\<lambda>l. Option.bind (link_inode l) (parse_proc_net_unix (sy_unix sys))) (pr_links p))"

text \<open>Arguments that are no UTF-8 are changed by the source, but never to the two words looked for.\<close>

definition argv_of :: "byte list \<Rightarrow> rstring list" where
  "argv_of raw = filter (\<lambda>s. s \<noteq> []) (split_on (\<lambda>b. b = 0) raw)"

definition is_gritty_server_cmdline :: "rstring list \<Rightarrow> bool" where
  "is_gritty_server_cmdline argv \<longleftrightarrow>
     (case argv of
        [] \<Rightarrow> False
      | a # rest \<Rightarrow> file_name (path_components a) = Some (ascii ''gritty'') \<and> ascii ''server'' \<in> set rest)"

section \<open>Orphans\<close>

datatype OrphanReason = SocketFileGone | RegistrationMissing | RegistrationStolen u32

record OrphanDaemon =
  or_pid :: u32
  or_path :: pathbuf
  or_reason :: OrphanReason

text \<open>The process a socket's registration names.\<close>

definition registered :: "System \<Rightarrow> pathbuf \<Rightarrow> u32 option" where
  "registered sys path =
     Option.bind (sy_read sys (pid_file_path path)) (\<lambda>s.
       map_option word_of_nat (parse_unsigned (2 ^ 32) (trim s)))"

definition orphan_reason :: "System \<Rightarrow> pathbuf \<Rightarrow> OrphanReason" where
  "orphan_reason sys path =
     (if \<not> sy_exists sys path then SocketFileGone
      else (case registered sys path of Some other \<Rightarrow> RegistrationStolen other | None \<Rightarrow> RegistrationMissing))"

fun classify :: "System \<Rightarrow> u32 \<Rightarrow> pathbuf list \<Rightarrow> OrphanDaemon option \<Rightarrow> OrphanDaemon option" where
  "classify sys pid [] best = best"
| "classify sys pid (path # paths) best =
     (if registered sys path = Some pid then None
      else
        (let is_ctl = (file_name path = Some (ascii ''ctl.sock''));
             found = \<lparr>or_pid = pid, or_path = path, or_reason = orphan_reason sys path\<rparr>
         in classify sys pid paths (if best = None \<or> is_ctl then Some found else best)))"

definition scan_process :: "System \<Rightarrow> Proc \<Rightarrow> OrphanDaemon option" where
  "scan_process sys p =
     (if pr_pid p = sy_pid sys \<or> pr_uid p \<noteq> Some (sy_uid sys) then None
      else
        (case pr_cmdline p of
           None \<Rightarrow> None
         | Some raw \<Rightarrow>
             (if is_gritty_server_cmdline (argv_of raw)
              then classify sys (pr_pid p) (sy_order sys (pr_pid p) (bound_unix_paths sys p)) None else None)))"

definition find_orphan_daemons :: "System \<Rightarrow> OrphanDaemon list" where
  "find_orphan_daemons sys = List.map_filter (scan_process sys) (sy_procs sys)"

text \<open>The suspects that the second scan finds again, which are killed, with the outcome of the kill.\<close>

definition confirm_and_reap :: "OrphanDaemon list \<Rightarrow> System \<Rightarrow> (u32 \<Rightarrow> bool) \<Rightarrow> (OrphanDaemon \<times> bool) list" where
  "confirm_and_reap suspects sys sigkill =
     (if suspects = [] then []
      else
        (let confirmed = set (map (\<lambda>x. (or_pid x, or_path x)) (find_orphan_daemons sys))
         in map (\<lambda>s. (s, sigkill (or_pid s))) (filter (\<lambda>s. (or_pid s, or_path s) \<in> confirmed) suspects)))"

text \<open>\<open>reap_orphans\<close> of \<open>src/src/commands/refresh.rs\<close>: two scans.\<close>

definition reap_orphans :: "System \<Rightarrow> System \<Rightarrow> (u32 \<Rightarrow> bool) \<Rightarrow> (OrphanDaemon \<times> bool) list" where
  "reap_orphans first second sigkill = confirm_and_reap (find_orphan_daemons first) second sigkill"

section \<open>Who is reaped\<close>

text \<open>
  A daemon that has lost its registration: a \<open>gritty server\<close> of this user, not this process, with a
  socket bound and no path it has bound naming it.
\<close>

definition orphaned :: "System \<Rightarrow> Proc \<Rightarrow> bool" where
  "orphaned sys p \<longleftrightarrow>
     pr_pid p \<noteq> sy_pid sys \<and> pr_uid p = Some (sy_uid sys)
     \<and> (case pr_cmdline p of Some raw \<Rightarrow> is_gritty_server_cmdline (argv_of raw) | None \<Rightarrow> False)
     \<and> bound_unix_paths sys p \<noteq> []
     \<and> list_all (\<lambda>path. registered sys path \<noteq> Some (pr_pid p)) (bound_unix_paths sys p)"

lemma classify_none:
  "classify sys pid paths best = None \<longleftrightarrow>
     \<not> list_all (\<lambda>path. registered sys path \<noteq> Some pid) paths \<or> best = None \<and> paths = []"
  by (induction paths arbitrary: best) (auto simp: Let_def)

lemma classify_some:
  "classify sys pid paths best = Some o1 \<Longrightarrow>
     best = Some o1 \<or> or_pid o1 = pid \<and> or_path o1 \<in> set paths"
proof (induction paths arbitrary: best)
  case (Cons p paths)
  let ?found = "\<lparr>or_pid = pid, or_path = p, or_reason = orphan_reason sys p\<rparr>"
  let ?best = "if best = None \<or> file_name p = Some (ascii ''ctl.sock'') then Some ?found else best"
  have "classify sys pid paths ?best = Some o1" using Cons.prems by (auto simp: Let_def split: if_split_asm)
  from Cons.IH [OF this] show ?case by (auto split: if_splits)
qed simp

text \<open>With one path of the control socket's name, that path is reported.\<close>

lemma classify_ctl:
  assumes "classify sys pid paths best = Some o1"
    and "\<And>p. p \<in> set paths \<Longrightarrow> file_name p = Some (ascii ''ctl.sock'') \<longleftrightarrow> p = q"
    and "q \<in> set paths \<or> (\<exists>b. best = Some b \<and> or_path b = q)"
  shows "or_path o1 = q"
  using assms
proof (induction paths arbitrary: best)
  case (Cons p paths)
  show ?case
  proof (cases "q \<in> set paths")
    case True
    then show ?thesis using Cons.IH Cons.prems(1,2) by (auto simp: Let_def split: if_splits)
  next
    case False
    then show ?thesis using Cons.IH [OF _ Cons.prems(2)] Cons.prems
      by (auto simp: Let_def split: if_splits)
  qed
qed auto


lemma scan_cases:
  assumes "\<And>xs. set (sy_order sys (pr_pid p) xs) = set xs"
  shows "scan_process sys p \<noteq> None \<longleftrightarrow> orphaned sys p"
    "scan_process sys p = Some o1 \<Longrightarrow> or_pid o1 = pr_pid p \<and> or_path o1 \<in> set (bound_unix_paths sys p)"
proof -
  have empty: "sy_order sys (pr_pid p) xs = [] \<longleftrightarrow> xs = []" for xs using assms [of xs] by (metis set_empty)
  have "classify sys (pr_pid p) (sy_order sys (pr_pid p) (bound_unix_paths sys p)) None \<noteq> None \<longleftrightarrow>
      bound_unix_paths sys p \<noteq> [] \<and> list_all (\<lambda>path. registered sys path \<noteq> Some (pr_pid p)) (bound_unix_paths sys p)"
    unfolding classify_none by (auto simp: list_all_iff assms empty)
  then show "scan_process sys p \<noteq> None \<longleftrightarrow> orphaned sys p"
    by (simp add: scan_process_def orphaned_def split: option.split)
  show "scan_process sys p = Some o1 \<Longrightarrow> or_pid o1 = pr_pid p \<and> or_path o1 \<in> set (bound_unix_paths sys p)"
    using classify_some [of sys "pr_pid p" "sy_order sys (pr_pid p) (bound_unix_paths sys p)" None o1] assms
    by (auto simp: scan_process_def split: if_splits option.splits)
qed

lemma in_orphans: "x \<in> set (find_orphan_daemons sys) \<longleftrightarrow> (\<exists>p \<in> set (sy_procs sys). scan_process sys p = Some x)"
  by (force simp: find_orphan_daemons_def List.map_filter_def)

lemma reaped_iff:
  "x \<in> fst ` set (reap_orphans first second sigkill) \<longleftrightarrow>
     x \<in> set (find_orphan_daemons first) \<and> (\<exists>y \<in> set (find_orphan_daemons second). or_pid y = or_pid x \<and> or_path y = or_path x)"
  by (auto simp: reap_orphans_def confirm_and_reap_def Let_def image_iff) metis+



section \<open>Processes wrongly taken for orphans\<close>

text \<open>
  Any argument \<open>server\<close> makes a gritty process a daemon: a client attached by \<open>gritty connect server\<close> has
  its forward socket bound beside the registration of the daemon, which names the daemon, and is killed.
\<close>

lemma client_taken_for_daemon:
  assumes "pr_cmdline p = Some (ascii ''gritty'' @ [0] @ ascii ''connect'' @ [0] @ ascii ''server'' @ [0])"
    and "pr_uid p = Some (sy_uid sys)" and "pr_pid p \<noteq> sy_pid sys"
    and "bound_unix_paths sys p = [path_components (ascii ''/run/g/fwd-server-0.sock'')]"
    and "sy_read sys (path_components (ascii ''/run/g/daemon.pid'')) = Some (dec 41)" and "pr_pid p \<noteq> 41"
  shows "orphaned sys p"
proof -
  have "pid_file_path (path_components (ascii ''/run/g/fwd-server-0.sock'')) = path_components (ascii ''/run/g/daemon.pid'')"
    by (simp add: pid_file_path_def with_file_name_def file_name_def path_components_def starts_with_def)
  moreover have "is_gritty_server_cmdline (argv_of (ascii ''gritty'' @ [0] @ ascii ''connect'' @ [0] @ ascii ''server'' @ [0]))"
    by (simp add: argv_of_def is_gritty_server_cmdline_def file_name_def path_components_def starts_with_def)
  moreover have "trim (dec 41) = dec 41" by code_simp
  then have "parse_unsigned (2 ^ 32) (trim (dec 41)) = Some 41" using parse_unsigned_dec [of 41 "2 ^ 32"] by simp
  ultimately show ?thesis using assms by (simp add: orphaned_def registered_def del: ascii_simps)
qed

text \<open>
  A path with a space is cut at it: the daemon whose socket is in \<open>/run/my dir\<close>, registered there, is looked
  for in \<open>/run\<close>.
\<close>

lemma path_cut_at_space:
  "parse_line (ascii ''0: 2 0 10000 1 1 5 /run/my dir/ctl.sock'') = Some (5, path_components (ascii ''/run/my''))"
  "pid_file_path (path_components (ascii ''/run/my'')) = path_components (ascii ''/run/daemon.pid'')"
proof -
  have "split_whitespace (ascii ''0: 2 0 10000 1 1 5 /run/my dir/ctl.sock'')
      = map ascii [''0:'', ''2'', ''0'', ''10000'', ''1'', ''1'', ''5'', ''/run/my'', ''dir/ctl.sock'']" by code_simp
  then show "parse_line (ascii ''0: 2 0 10000 1 1 5 /run/my dir/ctl.sock'') = Some (5, path_components (ascii ''/run/my''))"
    by (simp add: parse_line_def parse_unsigned_def is_digit_def undec_def digit_val_def starts_with_def Let_def)
  show "pid_file_path (path_components (ascii ''/run/my'')) = path_components (ascii ''/run/daemon.pid'')"
    by (simp add: pid_file_path_def with_file_name_def file_name_def path_components_def starts_with_def)
qed

section \<open>Witness\<close>

definition lost :: System where
  "lost = \<lparr>sy_unix = [0x0A] @ ascii ''0: 2 0 10000 1 1 5 /g/ctl.sock'' @ [0x0A],
     sy_procs = [\<lparr>pr_pid = 9, pr_uid = Some 1, pr_cmdline = Some (ascii ''gritty'' @ [0] @ ascii ''server''),
       pr_links = [ascii ''socket:[5]'']\<rparr>],
     sy_read = (\<lambda>_. None), sy_exists = (\<lambda>_. False), sy_uid = 1, sy_pid = 2, sy_order = (\<lambda>_ xs. xs)\<rparr>"


end
