(* ===== verification/Connect.thy ===== *)
theory Connect
  imports Picker
begin

text \<open>
  The \<open>connect\<close> command, from \<open>src/src/commands/session.rs\<close> (\<open>connect_session\<close> and its helpers) and
  \<open>src/src/commands/util.rs\<close> (\<open>connect_or_start\<close>).  A command is a function of the world it runs in, of
  any type: the daemon behind the socket, the terminal and the user answer through the functions of an
  environment.  What a run did is returned as a list of actions with the answers.
\<close>

section \<open>Commands\<close>

datatype Tone = Success | Status | Warn | Failure | Detail | Plain

text \<open>
  An action: a request on a connection of its own with its answer (None when it failed), a frame on the
  connection of the session with the frames that came back, one sent without waiting, an attempt to
  connect, the start of a server or tunnel, a question with the line typed, what the picker returned, a
  signal to a process (killing it or asking it to terminate), a text.
\<close>

datatype Action =
    Requested Frame "Frame option"
  | Exchanged Frame "Frame list"
  | Posted Frame
  | Tried bool
  | Started "rstring list" bool
  | Prompted rstring rstring
  | Picked "(rstring \<times> bool) option"
  | Signalled int bool
  | Told Tone rstring

text \<open>How a command ends before its last line, if it does: with an error, an exit code, the client loop
  (name shown, session, server), a picker still open, or a panic of the picker.\<close>

datatype Ending = Failed rstring | ExitCode nat | Client rstring u32 u64 | StillPicking | PickerPanic

type_synonym ('w, 'a) command = "'w \<Rightarrow> Action list \<times> (Ending + 'a) \<times> 'w"

definition give :: "'a \<Rightarrow> ('w, 'a) command" where
  "give x = (\<lambda>w. ([], Inr x, w))"

definition stop :: "Ending \<Rightarrow> ('w, 'a) command" where
  "stop e = (\<lambda>w. ([], Inl e, w))"

definition log_action :: "Action \<Rightarrow> ('w, unit) command" where
  "log_action a = (\<lambda>w. ([a], Inr (), w))"

definition seq :: "('w, 'a) command \<Rightarrow> ('a \<Rightarrow> ('w, 'b) command) \<Rightarrow> ('w, 'b) command" where
  "seq m f = (\<lambda>w.
     (case m w of
        (acts, Inl e, w) \<Rightarrow> (acts, Inl e, w)
      | (acts, Inr x, w) \<Rightarrow> (case f x w of (more_acts, r, w) \<Rightarrow> (acts @ more_acts, r, w))))"

section \<open>The environment\<close>

text \<open>
  The functions answer and change the world: \<open>server_request\<close>, an attempt to connect, starting a server
  or tunnel, the exchange of one frame after a handshake (its failure, or the server's identity and the
  frames that come), what the user types at a prompt and in the picker.  The rest are the settings and
  the facts of the terminal.
\<close>

record 'w ConnEnv =
  cn_request :: "Frame \<Rightarrow> 'w \<Rightarrow> Frame option \<times> 'w"
  cn_connect :: "'w \<Rightarrow> bool \<times> 'w"
  cn_auto_start :: "rstring list \<Rightarrow> 'w \<Rightarrow> bool \<times> 'w"
  cn_exchange :: "Frame \<Rightarrow> 'w \<Rightarrow> (rstring + u64 \<times> Frame list) \<times> 'w"
  cn_post :: "Frame \<Rightarrow> 'w \<Rightarrow> bool \<times> 'w"
  cn_line :: "rstring \<Rightarrow> 'w \<Rightarrow> rstring \<times> 'w"
  cn_keys :: "SessionEntry list \<Rightarrow> 'w \<Rightarrow> (PickEvent \<times> Answers) list \<times> 'w"
  cn_now :: "'w \<Rightarrow> u64"
  cn_stdin_tty :: bool
  cn_stderr_tty :: bool
  cn_size :: "u16 \<times> u16"
  cn_new_size :: "u16 \<times> u16"
  cn_vars :: "(rstring \<times> rstring) list"
  cn_client :: rstring
  cn_ctl_path :: rstring
  cn_ctl_stem :: rstring
  cn_width :: "rstring \<Rightarrow> nat"
  cn_debug :: "Frame option \<Rightarrow> rstring"

definition request :: "'w ConnEnv \<Rightarrow> Frame \<Rightarrow> ('w, Frame option) command" where
  "request env f = (\<lambda>w. case cn_request env f w of (r, w) \<Rightarrow> ([Requested f r], Inr r, w))"

definition exchange :: "'w ConnEnv \<Rightarrow> Frame \<Rightarrow> ('w, u64 \<times> Frame list) command" where
  "exchange env f = (\<lambda>w.
     (case cn_exchange env f w of
        (Inl msg, w) \<Rightarrow> ([], Inl (Failed msg), w)
      | (Inr (server, fs), w) \<Rightarrow> ([Exchanged f fs], Inr (server, fs), w)))"

definition post :: "'w ConnEnv \<Rightarrow> Frame \<Rightarrow> ('w, unit) command" where
  "post env f = (\<lambda>w. case cn_post env f w of (ok, w) \<Rightarrow> ([Posted f], if ok then Inr () else Inl (Failed []), w))"

definition tell :: "Tone \<Rightarrow> rstring \<Rightarrow> ('w, unit) command" where
  "tell tone text = log_action (Told tone text)"

definition ask_line :: "'w ConnEnv \<Rightarrow> rstring \<Rightarrow> ('w, rstring) command" where
  "ask_line env question = (\<lambda>w. case cn_line env question w of (l, w) \<Rightarrow> ([Prompted question l], Inr l, w))"

text \<open>\<open>Frame::expect_from\<close> on the frames still to come.\<close>

definition expect_from :: "Frame list \<Rightarrow> ('w, Frame \<times> Frame list) command" where
  "expect_from fs =
     (case fs of [] \<Rightarrow> stop (Failed (ascii ''daemon closed connection'')) | f # rest \<Rightarrow> give (f, rest))"

definition unexpected :: "'w ConnEnv \<Rightarrow> Frame \<Rightarrow> ('w, 'a) command" where
  "unexpected env f = stop (Failed (ascii ''unexpected response from server: '' @ cn_debug env (Some f)))"

section \<open>Reaching the daemon\<close>

datatype AutoStart = AutoServer | AutoTunnel rstring "rstring list" | NoAutoStart

definition try_connect :: "'w ConnEnv \<Rightarrow> ('w, bool) command" where
  "try_connect env = (\<lambda>w. case cn_connect env w of (ok, w) \<Rightarrow> ([Tried ok], Inr ok, w))"

definition auto_start :: "'w ConnEnv \<Rightarrow> rstring list \<Rightarrow> ('w, bool) command" where
  "auto_start env args = (\<lambda>w. case cn_auto_start env args w of (ok, w) \<Rightarrow> ([Started args ok], Inr ok, w))"

fun retry_connect :: "'w ConnEnv \<Rightarrow> bool \<Rightarrow> rstring \<Rightarrow> nat \<Rightarrow> ('w, unit) command" where
  "retry_connect env wait what 0 =
     stop (Failed (what @ ascii '' started but its socket never became connectable ('' @ cn_ctl_path env @ ascii '')''))"
| "retry_connect env wait what (Suc n) =
     seq (try_connect env) (\<lambda>ok.
       if ok then give ()
       else seq (if wait then tell Status (ascii ''waiting for server...'') else give ())
         (\<lambda>_. retry_connect env wait what n))"

text \<open>
  The arguments that bring a tunnel back come from its files (\<open>Tunnel_Setup\<close>) and are given with the
  mode; the hint of \<open>no_server_message\<close> is not modelled.
\<close>

definition connect_or_start :: "'w ConnEnv \<Rightarrow> AutoStart \<Rightarrow> bool \<Rightarrow> ('w, unit) command" where
  "connect_or_start env mode wait =
     seq (try_connect env) (\<lambda>ok.
       if ok then give ()
       else
         seq (case mode of
                AutoServer \<Rightarrow>
                  seq (tell Status (ascii ''starting server...'')) (\<lambda>_.
                  seq (auto_start env [ascii ''server'']) (\<lambda>ok. give (ascii ''server'', ok)))
              | AutoTunnel host recreate \<Rightarrow>
                  seq (tell Status (ascii ''starting tunnel '' @ host @ ascii ''...'')) (\<lambda>_.
                  seq (auto_start env recreate) (\<lambda>ok. give (ascii ''tunnel '' @ host, ok)))
              | NoAutoStart \<Rightarrow> if wait then give ([], True) else stop (Failed (ascii ''no server'')))
           (\<lambda>(what, ok).
              if \<not> ok \<and> \<not> wait then
                seq (try_connect env) (\<lambda>ok. if ok then give () else stop (Failed (what @ ascii '' did not start'')))
              else retry_connect env wait what (if wait then 2 ^ 32 - 1 else 10)))"

section \<open>Which session\<close>

record Flags =
  fl_detach :: bool
  fl_no_create :: bool
  fl_force :: bool
  fl_pick :: bool
  fl_no_pick :: bool
  fl_new :: bool
  fl_wait :: bool
  fl_linger :: u64
  fl_linger_cli :: bool

text \<open>\<open>resolve_session\<close> of \<open>util.rs\<close>: the session of the listing, or why not.\<close>

definition listed_session :: "'w ConnEnv \<Rightarrow> rstring \<Rightarrow> ('w, rstring + SessionEntry) command" where
  "listed_session env target =
     seq (request env ListSessions) (\<lambda>r.
       give (case r of
         None \<Rightarrow> Inl []
       | Some (SessionInfo ss) \<Rightarrow>
           (case find_session ss target of
              Some s \<Rightarrow> Inr s
            | None \<Rightarrow>
                Inl (if target = ascii ''-''
                     then ascii ''no previously-attached session on '' @ host_from_ctl_path (cn_ctl_stem env)
                     else ascii ''no such session: '' @ target))
       | Some _ \<Rightarrow> Inl (ascii ''unexpected response to ListSessions'')))"

definition resolve_last_attached :: "'w ConnEnv \<Rightarrow> ('w, rstring) command" where
  "resolve_last_attached env =
     seq (listed_session env (ascii ''-'')) (\<lambda>r.
       case r of Inl msg \<Rightarrow> stop (Failed msg) | Inr s \<Rightarrow> give (session_wire_name s))"

definition auto_new_session_name :: "'w ConnEnv \<Rightarrow> ('w, rstring) command" where
  "auto_new_session_name env = (\<lambda>w.
     seq (request env ListSessions) (\<lambda>r.
       give (case r of
         Some (SessionInfo ss) \<Rightarrow> suggested_name (build_rows (cn_now env w) (cn_client env) ss) (cn_client env)
       | _ \<Rightarrow> resolve_session_name (ascii ''0'') (cn_client env))) w)"

definition pick_env :: "'w ConnEnv \<Rightarrow> PickEnv" where
  "pick_env env =
     \<lparr>pk_host = host_from_ctl_path (cn_ctl_stem env), pk_client = cn_client env,
      pk_width = cn_width env, pk_debug = cn_debug env\<rparr>"

definition session_list_lines :: "rstring \<Rightarrow> SessionEntry list \<Rightarrow> rstring \<Rightarrow> rstring \<times> rstring list" where
  "session_list_lines host ss client =
     (if list_all attached ss
      then ascii ''every session on '' @ host @ ascii '' is already attached -- pick one to take over:''
      else ascii ''multiple sessions on '' @ host @ ascii '' -- specify one:'',
      map (\<lambda>s.
        let shown = display_session_name (session_wire_name s) client
        in ascii ''  gritty connect '' @ host @ ascii '':'' @ shown
             @ (if attached s then ascii '' --force     (attached)'' else [])) ss)"

fun tell_all :: "Tone \<Rightarrow> rstring list \<Rightarrow> ('w, unit) command" where
  "tell_all tone [] = give ()"
| "tell_all tone (l # ls) = seq (tell tone l) (\<lambda>_. tell_all tone ls)"

text \<open>The wire name, whether it was picked, and whether to take over.\<close>

definition pick_or_list :: "'w ConnEnv \<Rightarrow> SessionEntry list \<Rightarrow> ('w, rstring \<times> bool \<times> bool) command" where
  "pick_or_list env ss =
     (if cn_stderr_tty env then
        (\<lambda>w. case cn_keys env ss w of
           (keys, w) \<Rightarrow>
             (case tui_pick_session (pick_env env) (cn_now env w) ss keys of
                None \<Rightarrow> ([], Inl PickerPanic, w)
              | Some (_, _, None) \<Rightarrow> ([], Inl StillPicking, w)
              | Some (_, _, Some None) \<Rightarrow> ([Picked None], Inl (ExitCode 1), w)
              | Some (_, _, Some (Some (nm, force))) \<Rightarrow> ([Picked (Some (nm, force))], Inr (nm, True, force), w)))
      else
        (case session_list_lines (host_from_ctl_path (cn_ctl_stem env)) ss (cn_client env) of
           (headline, ls) \<Rightarrow>
             seq (tell_all Failure (headline # ls)) (\<lambda>_. stop (ExitCode 1))))"

definition pick_session :: "'w ConnEnv \<Rightarrow> bool \<Rightarrow> bool \<Rightarrow> ('w, rstring \<times> bool \<times> bool) command" where
  "pick_session env pick_flag no_pick =
     (let default_wire = resolve_session_name (ascii ''0'') (cn_client env) in
      if no_pick then give (default_wire, False, False)
      else
        seq (request env ListSessions) (\<lambda>r.
          case r of
            Some (SessionInfo ss) \<Rightarrow>
              (if pick_flag then pick_or_list env ss
               else
                 (case auto_attach_target ss (cn_client env) of
                    Some nm \<Rightarrow> give (nm, False, False)
                  | None \<Rightarrow> pick_or_list env ss))
          | _ \<Rightarrow> give (default_wire, False, False)))"

section \<open>Taking over\<close>

definition attached_elsewhere :: "rstring \<Rightarrow> rstring option \<Rightarrow> rstring" where
  "attached_elsewhere shown holder =
     ascii ''session '' @ shown @ ascii '' is already attached ''
       @ (case holder of Some h \<Rightarrow> ascii ''by '' @ h | None \<Rightarrow> ascii ''elsewhere'')"

definition holder_of :: "'w ConnEnv \<Rightarrow> rstring \<Rightarrow> ('w, rstring option) command" where
  "holder_of env wire =
     seq (listed_session env wire) (\<lambda>r.
       give (case r of Inl _ \<Rightarrow> None | Inr s \<Rightarrow> (if client_name s = [] then None else Some (client_name s))))"

definition is_yes :: "rstring \<Rightarrow> bool" where
  "is_yes answer \<longleftrightarrow>
     trim answer \<in> set [ascii ''y'', ascii ''Y'', ascii ''yes'', ascii ''YES'', ascii ''Yes'']"

definition takeover_question :: "rstring \<Rightarrow> rstring option \<Rightarrow> rstring" where
  "takeover_question shown holder = attached_elsewhere shown holder @ ascii '' -- take it over? [y/N] ''"

definition confirm_takeover :: "'w ConnEnv \<Rightarrow> rstring \<Rightarrow> rstring option \<Rightarrow> ('w, bool) command" where
  "confirm_takeover env shown holder =
     (if \<not> cn_stdin_tty env \<or> \<not> cn_stderr_tty env then give False
      else seq (ask_line env (takeover_question shown holder)) (\<lambda>l. give (is_yes l)))"

definition attach_frame :: "'w ConnEnv \<Rightarrow> bool \<Rightarrow> rstring \<Rightarrow> bool \<Rightarrow> Frame" where
  "attach_frame env detach nm force =
     (let size = (if detach then (0, 0) else cn_size env)
      in Attach nm (cn_client env) force detach (fst size) (snd size) 0 0 False)"

definition is_already_attached :: "Frame \<Rightarrow> bool" where
  "is_already_attached f \<longleftrightarrow> (case f of Error AlreadyAttached _ \<Rightarrow> True | _ \<Rightarrow> False)"

definition attach_once :: "'w ConnEnv \<Rightarrow> bool \<Rightarrow> rstring \<Rightarrow> bool \<Rightarrow> ('w, u64 \<times> Frame) command" where
  "attach_once env detach nm force =
     seq (exchange env (attach_frame env detach nm force)) (\<lambda>(server, fs).
     seq (expect_from fs) (\<lambda>(f, _). give (server, f)))"

text \<open>
  The loop: its second round is taken with \<open>force\<close> set and is therefore the last.  The result has the
  holder when it was asked for.
\<close>

definition attach_first ::
  "'w ConnEnv \<Rightarrow> AutoStart \<Rightarrow> Flags \<Rightarrow> rstring \<Rightarrow> rstring \<Rightarrow> bool \<Rightarrow> ('w, rstring option \<times> u64 \<times> Frame) command" where
  "attach_first env mode fl nm shown force =
     seq (attach_once env (fl_detach fl) nm force) (\<lambda>(server, response).
       if is_already_attached response \<and> \<not> force then
         seq (holder_of env nm) (\<lambda>holder.
         seq (confirm_takeover env shown holder) (\<lambda>yes.
           if yes then
             seq (connect_or_start env mode (fl_wait fl)) (\<lambda>_.
             seq (attach_once env (fl_detach fl) nm True) (\<lambda>(server, response). give (holder, server, response)))
           else give (holder, server, response)))
       else give (None, server, response))"

section \<open>The command\<close>

definition alert_detached_sessions :: "'w ConnEnv \<Rightarrow> rstring \<Rightarrow> ('w, unit) command" where
  "alert_detached_sessions env current =
     seq (request env ListSessions) (\<lambda>r.
       case r of
         Some (SessionInfo ss) \<Rightarrow>
           (let others = filter (\<lambda>s. \<not> attached s \<and> session_wire_name s \<noteq> current) ss;
                shown = map (\<lambda>s. display_session_name (session_wire_name s) (cn_client env)) others
            in if others = [] then give ()
               else tell Status (ascii ''detached sessions: '' @ join (ascii '', '') shown))
       | _ \<Rightarrow> give ())"

text \<open>\<open>wait_until_detached\<close>, which the deadline leaves a bounded number of polls.\<close>

fun wait_until_detached :: "'w ConnEnv \<Rightarrow> u32 \<Rightarrow> nat \<Rightarrow> ('w, unit) command" where
  "wait_until_detached env i polls =
     seq (request env ListSessions) (\<lambda>r.
       case r of
         None \<Rightarrow> give ()
       | Some f \<Rightarrow>
           (if (case f of SessionInfo ss \<Rightarrow> \<not> list_ex (\<lambda>s. entry_id s = i \<and> attached s) ss | _ \<Rightarrow> False) then give ()
            else (case polls of 0 \<Rightarrow> give () | Suc n \<Rightarrow> wait_until_detached env i n)))"

declare wait_until_detached.simps [simp del]

definition create_session ::
  "'w ConnEnv \<Rightarrow> AutoStart \<Rightarrow> Flags \<Rightarrow> nat \<Rightarrow> rstring \<Rightarrow> rstring \<Rightarrow> rstring \<Rightarrow> ('w, unit) command" where
  "create_session env mode fl polls nm shown cmd =
     seq (connect_or_start env mode (fl_wait fl)) (\<lambda>_.
     seq (exchange env (NewSession nm cmd [] (fst (cn_new_size env)) (snd (cn_new_size env)) (cn_client env) (fl_linger fl)))
       (\<lambda>(server, fs).
     seq (expect_from fs) (\<lambda>(f, rest).
       case f of
         SessionCreated i \<Rightarrow>
           seq (tell Success (ascii ''session '' @ shown)) (\<lambda>_.
           seq (expect_from rest) (\<lambda>(ack, _).
             case ack of
               AttachAck _ _ \<Rightarrow>
                 seq (post env (Env (cn_vars env))) (\<lambda>_.
                   if fl_detach fl then wait_until_detached env i polls
                   else seq (alert_detached_sessions env nm) (\<lambda>_. stop (Client shown i server)))
             | other \<Rightarrow> unexpected env other))
       | Error _ message \<Rightarrow> stop (Failed message)
       | other \<Rightarrow> unexpected env other)))"

definition warn_command_ignored :: "rstring \<Rightarrow> rstring option \<Rightarrow> ('w, unit) command" where
  "warn_command_ignored shown cmd =
     (if cmd \<noteq> None
      then tell Warn (ascii ''session '' @ shown @ ascii '' already exists -- -c ignored (its command is not run)'')
      else give ())"

definition use_response ::
  "'w ConnEnv \<Rightarrow> AutoStart \<Rightarrow> Flags \<Rightarrow> nat \<Rightarrow> rstring \<Rightarrow> rstring \<Rightarrow> rstring option \<Rightarrow> bool
     \<Rightarrow> rstring option \<times> u64 \<times> Frame \<Rightarrow> ('w, unit) command" where
  "use_response env mode fl polls nm shown cmd no_create x =
     (case x of (holder, server, response) \<Rightarrow>
       if response = OkFrame \<and> fl_detach fl then
         seq (tell Status (ascii ''session '' @ shown @ ascii '' exists (not attaching, -d)'')) (\<lambda>_.
           warn_command_ignored shown cmd)
       else
         (case response of
            AttachAck _ i \<Rightarrow>
              seq (warn_command_ignored shown cmd) (\<lambda>_.
              seq (if fl_linger_cli fl then post env (SetLinger [] (fl_linger fl)) else give ()) (\<lambda>_.
              seq (tell Success (ascii ''attached '' @ shown)) (\<lambda>_. stop (Client shown i server))))
          | Error NoSuchSession _ \<Rightarrow>
              (if no_create then stop (Failed (ascii ''no such session: '' @ shown))
               else create_session env mode fl polls nm shown (case cmd of Some c \<Rightarrow> c | None \<Rightarrow> []))
          | Error AlreadyAttached _ \<Rightarrow>
              seq (tell Failure (attached_elsewhere shown holder)) (\<lambda>_.
              seq (tell Detail (ascii ''gritty connect '' @ host_from_ctl_path (cn_ctl_stem env) @ ascii '':'' @ shown
                  @ ascii '' --force   to take over'')) (\<lambda>_. stop (ExitCode 1)))
          | Error _ message \<Rightarrow> stop (Failed message)
          | other \<Rightarrow> unexpected env other))"

definition preliminary_name :: "'w ConnEnv \<Rightarrow> Flags \<Rightarrow> rstring option \<Rightarrow> ('w, rstring option \<times> bool) command" where
  "preliminary_name env fl session =
     (case session of
        Some nm \<Rightarrow> give (Some nm, False)
      | None \<Rightarrow>
          (if fl_new fl \<or> fl_detach fl \<and> \<not> fl_no_pick fl then give (None, False)
           else seq (pick_session env (fl_pick fl) (fl_no_pick fl)) (\<lambda>(nm, _, force). give (Some nm, force))))"

definition final_name :: "'w ConnEnv \<Rightarrow> rstring option \<Rightarrow> ('w, rstring) command" where
  "final_name env nm =
     (case nm of
        Some n \<Rightarrow> (if n = ascii ''-'' then resolve_last_attached env else give n)
      | None \<Rightarrow> auto_new_session_name env)"

definition connect_session ::
  "'w ConnEnv \<Rightarrow> AutoStart \<Rightarrow> Flags \<Rightarrow> nat \<Rightarrow> rstring option \<Rightarrow> rstring option \<Rightarrow> ('w, unit) command" where
  "connect_session env mode fl polls session cmd =
     (if \<not> fl_detach fl \<and> \<not> cn_stdin_tty env then
        stop (Failed (ascii ''stdin is not a terminal, so there is nothing to attach''))
      else
        seq (preliminary_name env fl session) (\<lambda>(preliminary, picker_force).
        seq (connect_or_start env mode (fl_wait fl)) (\<lambda>_.
        seq (final_name env preliminary) (\<lambda>nm.
          let shown = display_session_name nm (cn_client env);
              no_create = (fl_no_create fl \<or> preliminary = Some (ascii ''-''))
          in seq (attach_first env mode fl nm shown (fl_force fl \<or> picker_force))
               (use_response env mode fl polls nm shown cmd no_create)))))"

end
