(* ===== verification/Connect_Proofs.thy ===== *)
theory Connect_Proofs
  imports Connect Session_List_Proofs
begin

text \<open>
  What \<open>connect\<close> may do to other people's sessions whatever the daemon and the user answer, and what it
  does against the daemon of this development.
\<close>

section \<open>Traces\<close>

lemma seq_cases:
  assumes "seq m f w = (acts, r, w')"
  obtains e where "m w = (acts, Inl e, w')" "r = Inl e"
  | xs x w1 ys where "m w = (xs, Inr x, w1)" "f x w1 = (ys, r, w')" "acts = xs @ ys"
proof -
  obtain xs q w1 where m: "m w = (xs, q, w1)" by (metis prod_cases3)
  then show ?thesis using assms that
    by (cases q) (auto simp: seq_def split: prod.splits)
qed

lemma seq_give [simp]: "seq (give x) f = f x"
  by (simp add: seq_def give_def fun_eq_iff split: prod.split)

lemma seq_stop [simp]: "seq (stop e) f = stop e"
  by (simp add: seq_def stop_def)

text \<open>Actions that leave every session alone.\<close>

fun harmless :: "Action \<Rightarrow> bool" where
  "harmless (Requested f _) = (f = ListSessions)"
| "harmless (Exchanged _ _) = False"
| "harmless (Posted _) = False"
| "harmless (Signalled _ _) = False"
| "harmless _ = True"

definition quiet :: "('w, 'a) command \<Rightarrow> bool" where
  "quiet m \<longleftrightarrow> (\<forall>w. list_all harmless (fst (m w)))"

lemma quietD: "quiet m \<Longrightarrow> m w = (acts, r, w') \<Longrightarrow> list_all harmless acts"
  unfolding quiet_def by (metis fst_conv)

named_theorems quiet_intros

lemma quiet_seq [quiet_intros]: "quiet m \<Longrightarrow> (\<And>x. quiet (f x)) \<Longrightarrow> quiet (seq m f)"
  by (auto simp: quiet_def seq_def split: prod.split sum.split) (metis fst_conv)+

lemma quiet_basic [quiet_intros]:
  "quiet (give x)" "quiet (stop e)" "quiet (tell tone text)" "quiet (request env ListSessions)"
  "quiet (ask_line env question)" "quiet (try_connect env)" "quiet (auto_start env args)"
  "quiet (unexpected env f)" "quiet (expect_from fs)"
  by (simp_all add: quiet_def give_def stop_def tell_def log_action_def request_def ask_line_def try_connect_def
      auto_start_def unexpected_def expect_from_def split: prod.split list.split)

lemma quiet_retry [quiet_intros]: "quiet (retry_connect env wait what n)"
  by (induction n) (auto intro!: quiet_intros)

lemma quiet_tell_all [quiet_intros]: "quiet (tell_all tone ls)"
  by (induction ls) (auto intro!: quiet_intros)

lemma quiet_connect_or_start [quiet_intros]: "quiet (connect_or_start env mode wait)"
  unfolding connect_or_start_def by (auto intro!: quiet_intros split: AutoStart.split)

lemma quiet_listed [quiet_intros]: "quiet (listed_session env target)"
  unfolding listed_session_def by (intro quiet_intros)

lemma quiet_last [quiet_intros]: "quiet (resolve_last_attached env)"
  unfolding resolve_last_attached_def by (auto intro!: quiet_intros split: sum.split)

lemma quiet_holder [quiet_intros]: "quiet (holder_of env wire)" "quiet (confirm_takeover env shown holder)"
  unfolding holder_of_def confirm_takeover_def by (auto intro!: quiet_intros)

lemma quiet_auto_name [quiet_intros]: "quiet (auto_new_session_name env)"
proof -
  have "quiet (seq (request env ListSessions) (\<lambda>r. give (g r)))" for g :: "Frame option \<Rightarrow> rstring"
    by (intro quiet_intros)
  then show ?thesis by (simp add: quiet_def auto_new_session_name_def)
qed

lemma quiet_final_name [quiet_intros]: "quiet (final_name env nm)"
  unfolding final_name_def by (auto intro!: quiet_intros split: option.split)

lemma quiet_pick_or_list [quiet_intros]: "quiet (pick_or_list env ss)"
proof (cases "cn_stderr_tty env")
  case True
  then show ?thesis by (auto simp: quiet_def pick_or_list_def split: prod.split option.split)
next
  case False
  then show ?thesis by (auto simp: pick_or_list_def intro!: quiet_intros split: prod.split)
qed

lemma quiet_pick_session [quiet_intros]: "quiet (pick_session env pick_flag no_pick)"
  unfolding pick_session_def Let_def by (auto intro!: quiet_intros split: option.split Frame.split)

lemma quiet_preliminary [quiet_intros]: "quiet (preliminary_name env fl session)"
  unfolding preliminary_name_def by (auto intro!: quiet_intros split: option.split)

lemma quiet_alert [quiet_intros]: "quiet (alert_detached_sessions env nm)"
  unfolding alert_detached_sessions_def Let_def by (auto intro!: quiet_intros split: option.split Frame.split)

lemma quiet_wait [quiet_intros]: "quiet (wait_until_detached env i polls)"
proof (induction polls)
  case 0
  show ?case by (subst wait_until_detached.simps) (auto intro!: quiet_intros split: option.split)
next
  case (Suc n)
  then show ?case by (subst wait_until_detached.simps) (auto intro!: quiet_intros split: option.split)
qed

lemma quiet_warn [quiet_intros]: "quiet (warn_command_ignored shown cmd)"
  unfolding warn_command_ignored_def by (auto intro!: quiet_intros)


section \<open>What a step was allowed by\<close>

text \<open>A condition on every action, given the actions before it.\<close>

fun every :: "(Action list \<Rightarrow> Action \<Rightarrow> bool) \<Rightarrow> Action list \<Rightarrow> Action list \<Rightarrow> bool" where
  "every P before [] \<longleftrightarrow> True"
| "every P before (a # as) \<longleftrightarrow> P before a \<and> every P (before @ [a]) as"

lemma every_append [simp]: "every P before (xs @ ys) \<longleftrightarrow> every P before xs \<and> every P (before @ xs) ys"
  by (induction xs arbitrary: before) auto

definition exchanged :: "Action \<Rightarrow> bool" where
  "exchanged a \<longleftrightarrow> (case a of Exchanged _ _ \<Rightarrow> True | _ \<Rightarrow> False)"

text \<open>The last exchange with the answer, and what came after it.\<close>

definition last_exchange :: "Action list \<Rightarrow> (Frame \<times> Frame list) option" where
  "last_exchange before =
     (case dropWhile (\<lambda>a. \<not> exchanged a) (rev before) of Exchanged f fs # _ \<Rightarrow> Some (f, fs) | _ \<Rightarrow> None)"

definition since_exchange :: "Action list \<Rightarrow> Action set" where
  "since_exchange before = set (takeWhile (\<lambda>a. \<not> exchanged a) (rev before))"

lemma harmless_not_exchanged: "harmless a \<Longrightarrow> \<not> exchanged a"
  by (cases a) (auto simp: exchanged_def)

lemma last_exchange_now [simp]: "last_exchange (before @ [Exchanged f fs]) = Some (f, fs)"
  by (simp add: last_exchange_def exchanged_def)

lemma last_exchange_later [simp]:
  assumes "list_all harmless xs"
  shows "last_exchange (before @ xs) = last_exchange before"
    "since_exchange (before @ xs) = since_exchange before \<union> set xs"
proof -
  have "\<forall>a \<in> set (rev xs). \<not> exchanged a" using assms harmless_not_exchanged by (auto simp: list_all_iff)
  then have "dropWhile (\<lambda>a. \<not> exchanged a) (rev xs @ rev before) = dropWhile (\<lambda>a. \<not> exchanged a) (rev before)"
    "takeWhile (\<lambda>a. \<not> exchanged a) (rev xs @ rev before) = rev xs @ takeWhile (\<lambda>a. \<not> exchanged a) (rev before)"
    by (metis dropWhile_append2, metis takeWhile_append2)
  then show "last_exchange (before @ xs) = last_exchange before"
    "since_exchange (before @ xs) = since_exchange before \<union> set xs"
    by (auto simp: last_exchange_def since_exchange_def)
qed

lemma last_exchange_cons:
  assumes "list_all harmless xs"
  shows "last_exchange (before @ Exchanged f fs # xs) = Some (f, fs)"
  using last_exchange_later(1) [OF assms, of "before @ [Exchanged f fs]"] by simp

text \<open>
  What lets the command take a session over: the flag, the picker's key for it, or a yes to the question
  asked after the daemon said that the session is attached.
\<close>

definition consented :: "'w ConnEnv \<Rightarrow> Flags \<Rightarrow> rstring \<Rightarrow> Action list \<Rightarrow> bool" where
  "consented env fl nm before \<longleftrightarrow>
     fl_force fl \<or> Picked (Some (nm, True)) \<in> set before \<or> Picked (Some (ascii ''-'', True)) \<in> set before
     \<or> (\<exists>msg more holder l.
          last_exchange before = Some (attach_frame env (fl_detach fl) nm False, Error AlreadyAttached msg # more)
          \<and> Prompted (takeover_question (display_session_name nm (cn_client env)) holder) l \<in> since_exchange before
          \<and> is_yes l)"

definition meant :: "rstring option \<Rightarrow> rstring \<Rightarrow> bool" where
  "meant session nm \<longleftrightarrow> (case session of Some n \<Rightarrow> n = nm \<or> n = ascii ''-'' | None \<Rightarrow> True)"

definition justified :: "'w ConnEnv \<Rightarrow> Flags \<Rightarrow> rstring option \<Rightarrow> Action list \<Rightarrow> Action \<Rightarrow> bool" where
  "justified env fl session before a \<longleftrightarrow>
     (case a of
        Requested f _ \<Rightarrow> f = ListSessions
      | Exchanged f _ \<Rightarrow>
          (\<exists>nm force. f = attach_frame env (fl_detach fl) nm force \<and> meant session nm
             \<and> (if force then consented env fl nm before else True))
          \<or> (\<exists>nm cmd cols rows force msg more. f = NewSession nm cmd [] cols rows (cn_client env) (fl_linger fl)
             \<and> meant session nm \<and> \<not> fl_no_create fl \<and> session \<noteq> Some (ascii ''-'')
             \<and> last_exchange before = Some (attach_frame env (fl_detach fl) nm force, Error NoSuchSession msg # more))
      | Posted f \<Rightarrow>
          f = SetLinger [] (fl_linger fl) \<and> fl_linger_cli fl
            \<and> (\<exists>nm force token i more. last_exchange before
                 = Some (attach_frame env (fl_detach fl) nm force, AttachAck token i # more))
          \<or> f = Env (cn_vars env)
            \<and> (\<exists>nm cmd cols rows i token j more. last_exchange before
                 = Some (NewSession nm cmd [] cols rows (cn_client env) (fl_linger fl), SessionCreated i # AttachAck token j # more))
      | Signalled _ _ \<Rightarrow> False
      | _ \<Rightarrow> True)"

lemma harmless_justified: "harmless a \<Longrightarrow> justified env fl session before a"
  by (cases a) (auto simp: justified_def)

lemma quiet_justified [simp]: "list_all harmless acts \<Longrightarrow> every (justified env fl session) before acts"
  by (induction acts arbitrary: before) (auto intro: harmless_justified)

text \<open>An attempt to attach: nothing, or the frame with its answer.\<close>

lemma attach_once_cases:
  assumes "attach_once env detach nm force w = (acts, r, w')"
  obtains e where "acts = []" "r = Inl e"
  | fs e where "acts = [Exchanged (attach_frame env detach nm force) fs]" "r = Inl e"
  | server f more where "acts = [Exchanged (attach_frame env detach nm force) (f # more)]" "r = Inr (server, f)"
proof -
  obtain q w1 where x: "cn_exchange env (attach_frame env detach nm force) w = (q, w1)" by (metis prod.exhaust)
  show thesis
  proof (cases q)
    case (Inl msg)
    then show thesis using assms that(1) x by (auto simp: attach_once_def exchange_def seq_def)
  next
    case (Inr y)
    obtain server fs where y: "y = (server, fs)" by (cases y)
    show thesis using assms that(2,3) x Inr y
      by (cases fs) (auto simp: attach_once_def exchange_def seq_def expect_from_def stop_def give_def)
  qed
qed


lemma attach_justified:
  assumes "attach_once env (fl_detach fl) nm force w = (acts, r, w')" and "meant session nm"
    and "force \<Longrightarrow> consented env fl nm before"
  shows "every (justified env fl session) before acts"
    "r = Inr (server, f) \<Longrightarrow> \<exists>more. last_exchange (before @ acts) = Some (attach_frame env (fl_detach fl) nm force, f # more)"
proof -
  have "justified env fl session before (Exchanged (attach_frame env (fl_detach fl) nm force) fs)" for fs
    using assms(2,3) unfolding justified_def by (cases force) (simp, blast, auto)
  with assms(1) show "every (justified env fl session) before acts"
    by (elim attach_once_cases) auto
  show "\<exists>more. last_exchange (before @ acts) = Some (attach_frame env (fl_detach fl) nm force, f # more)" if "r = Inr (server, f)"
    using assms(1) that by (elim attach_once_cases) auto
qed

lemma confirm_asks:
  assumes "confirm_takeover env shown holder w = (acts, Inr True, w')"
  shows "\<exists>l. Prompted (takeover_question shown holder) l \<in> set acts \<and> is_yes l"
  using assms
  by (auto simp: confirm_takeover_def give_def seq_def ask_line_def split: if_splits prod.splits)

lemma attach_first_justified:
  assumes "attach_first env mode fl nm (display_session_name nm (cn_client env)) force w = (acts, r, w')"
    and "meant session nm" and "force \<Longrightarrow> consented env fl nm before"
  shows "every (justified env fl session) before acts
    \<and> (\<forall>holder server f. r = Inr (holder, server, f) \<longrightarrow>
         (\<exists>force more. last_exchange (before @ acts) = Some (attach_frame env (fl_detach fl) nm force, f # more)))"
  using assms(1) unfolding attach_first_def
proof (cases rule: seq_cases)
  case (1 e)
  then show ?thesis using attach_justified(1) [OF 1(1) assms(2,3)] by simp
next
  case (2 first x w1 later)
  obtain server f where x: "x = (server, f)" by (cases x)
  note j = attach_justified [OF 2(1) assms(2,3)]
  obtain more where last: "last_exchange (before @ first) = Some (attach_frame env (fl_detach fl) nm force, f # more)"
    using j(2) x by blast
  show ?thesis
  proof (cases "is_already_attached f \<and> \<not> force")
    case False
    then show ?thesis using 2(2,3) x j(1) last by (auto simp: give_def)
  next
    case True
    then obtain msg where msg: "f = Error AlreadyAttached msg" by (auto simp: is_already_attached_def split: Frame.splits ErrorCode.splits)
    have "seq (holder_of env nm) (\<lambda>holder.
        seq (confirm_takeover env (display_session_name nm (cn_client env)) holder) (\<lambda>yes.
           if yes then
             seq (connect_or_start env mode (fl_wait fl)) (\<lambda>_.
             seq (attach_once env (fl_detach fl) nm True) (\<lambda>(server, response). give (holder, server, response)))
           else give (holder, server, f))) w1 = (later, r, w')"
      using 2(2) True by (simp add: x)
    then show ?thesis
    proof (cases rule: seq_cases)
      case (1 e)
      then show ?thesis using j(1) 2(3) quietD [OF quiet_holder(1) 1(1)] by auto
    next
      case h: (2 xs holder w2 ys)
      note qx = quietD [OF quiet_holder(1) h(1)]
      from h(2) show ?thesis
      proof (cases rule: seq_cases)
        case (1 e)
        then show ?thesis using j(1) 2(3) h(3) qx quietD [OF quiet_holder(2) 1(1)] by auto
      next
        case c: (2 asked yes w3 zs)
        note qa = quietD [OF quiet_holder(2) c(1)]
        show ?thesis
        proof (cases yes)
          case False
          then show ?thesis using j(1) 2(3) h(3) c(2,3) qx qa last
            by (auto simp: give_def append_assoc [symmetric] simp del: append_assoc)
        next
          case yes: True
          obtain l where l: "Prompted (takeover_question (display_session_name nm (cn_client env)) holder) l \<in> set asked"
              "is_yes l"
            using confirm_asks c(1) yes by metis
          from c(2) yes have "seq (connect_or_start env mode (fl_wait fl)) (\<lambda>_.
             seq (attach_once env (fl_detach fl) nm True) (\<lambda>(server, response). give (holder, server, response))) w3 = (zs, r, w')"
            by simp
          then show ?thesis
          proof (cases rule: seq_cases)
            case (1 e)
            then show ?thesis using j(1) 2(3) h(3) c(3) qx qa quietD [OF quiet_connect_or_start 1(1)] by auto
          next
            case o: (2 tries u w4 us)
            note qt = quietD [OF quiet_connect_or_start o(1)]
            let ?before = "before @ first @ xs @ asked @ tries"
            have "last_exchange ?before = Some (attach_frame env (fl_detach fl) nm False, Error AlreadyAttached msg # more)"
              using last qx qa qt True msg by (simp add: append_assoc [symmetric] del: append_assoc)
            moreover have "set asked \<subseteq> since_exchange ?before"
              using qx qa qt by (auto simp: append_assoc [symmetric] simp del: append_assoc)
            ultimately have consent: "consented env fl nm ?before" using l unfolding consented_def by blast
            have quiets: "every (justified env fl session) before (first @ xs @ asked @ tries)"
              using j(1) qx qa qt by simp
            from o(2) show ?thesis
            proof (cases rule: seq_cases)
              case (1 e)
              then show ?thesis using quiets attach_justified(1) [OF 1(1) assms(2), of ?before] consent 2(3) h(3) c(3) o(3) by simp
            next
              case t: (2 vs y w5 rest)
              obtain server' f' where y: "y = (server', f')" by (cases y)
              have "rest = []" "r = Inr (holder, server', f')" using t(2) by (auto simp: y give_def)
              then show ?thesis using quiets attach_justified [OF t(1) assms(2), of ?before] consent 2(3) h(3) c(3) o(3) t(3) y
                by auto
            qed
          qed
        qed
      qed
    qed
  qed
qed


lemma create_justified:
  assumes "create_session env mode fl polls nm shown cmd w = (acts, r, w')"
    and "meant session nm" and "\<not> fl_no_create fl" and "session \<noteq> Some (ascii ''-'')"
    and "last_exchange before = Some (attach_frame env (fl_detach fl) nm force, Error NoSuchSession msg # further)"
  shows "every (justified env fl session) before acts"
  using assms(1) unfolding create_session_def
proof (cases rule: seq_cases)
  case (1 e)
  then show ?thesis using quietD [OF quiet_connect_or_start 1(1)] by simp
next
  case o: (2 tries u w1 later)
  note qt = quietD [OF quiet_connect_or_start o(1)]
  let ?before = "before @ tries"
  let ?new = "NewSession nm cmd [] (fst (cn_new_size env)) (snd (cn_new_size env)) (cn_client env) (fl_linger fl)"
  have last: "last_exchange ?before = Some (attach_frame env (fl_detach fl) nm force, Error NoSuchSession msg # further)"
    using assms(5) qt by simp
  have new: "justified env fl session ?before (Exchanged ?new fs)" for fs
    using last assms(2-4) unfolding justified_def by auto
  have posted: "justified env fl session (?before @ Exchanged ?new (SessionCreated i # AttachAck token j # rest) # acts) (Posted (Env (cn_vars env)))"
    if "list_all harmless acts" for i token j rest acts
    using last_exchange_cons [OF that, of ?before ?new "SessionCreated i # AttachAck token j # rest"]
    unfolding justified_def by simp
  from o(2) show ?thesis
  proof (cases rule: seq_cases)
    case (1 e)
    then show ?thesis using o(3) qt by (auto simp: exchange_def split: prod.splits sum.splits)
  next
    case x: (2 sent y w2 rest)
    obtain server fs where y: "y = (server, fs)" by (cases y)
    have sent: "sent = [Exchanged ?new fs]" using x(1) by (auto simp: exchange_def y split: prod.splits sum.splits)
    show ?thesis
    proof (cases fs)
      case Nil
      then show ?thesis using x(2,3) o(3) qt new sent by (simp add: y expect_from_def seq_def stop_def)
    next
      case (Cons f fs')
      show ?thesis
      proof (cases "\<exists>i. f = SessionCreated i")
        case False
        then have "rest = []" using x(2)
          by (auto simp: y Cons expect_from_def seq_def give_def stop_def unexpected_def split: Frame.splits prod.splits)
        then show ?thesis using x(3) o(3) qt new sent by simp
      next
        case True
        then obtain i where f: "f = SessionCreated i" by blast
        show ?thesis
        proof (cases "\<exists>token j fs2. fs' = AttachAck token j # fs2")
          case False
          then have "list_all harmless rest" using x(2)
            by (auto simp: y Cons f expect_from_def seq_def give_def stop_def unexpected_def tell_def log_action_def
                split: Frame.splits prod.splits list.splits)
          then show ?thesis using x(3) o(3) qt new sent by simp
        next
          case True
          then obtain token j further' where fs': "fs' = AttachAck token j # further'" by blast
          have "seq (tell Success (ascii ''session '' @ shown)) (\<lambda>_.
              seq (post env (Env (cn_vars env))) (\<lambda>_.
                if fl_detach fl then wait_until_detached env i polls
                else seq (alert_detached_sessions env nm) (\<lambda>_. stop (Client shown i server)))) w2 = (rest, r, w')"
            using x(2) by (simp add: y Cons f fs' expect_from_def)
          then show ?thesis
          proof (cases rule: seq_cases)
            case (1 e)
            then show ?thesis by (simp add: tell_def log_action_def)
          next
            case t: (2 said u2 w3 more2)
            have said: "list_all harmless said" using quietD [OF quiet_basic(3) t(1)] .
            from t(2) show ?thesis
            proof (cases rule: seq_cases)
              case (1 e)
              then show ?thesis using x(3) o(3) qt new sent t(3) said posted [OF said]
                by (auto simp: post_def Cons f fs' split: prod.splits if_splits)
            next
              case p: (2 sent2 u3 w4 tail)
              have "quiet (if fl_detach fl then wait_until_detached env i polls
                else seq (alert_detached_sessions env nm) (\<lambda>_. stop (Client shown i server)))"
                by (auto intro!: quiet_intros)
              from quietD [OF this p(2)] have "list_all harmless tail" .
              moreover have "sent2 = [Posted (Env (cn_vars env))]" using p(1) by (auto simp: post_def split: prod.splits if_splits)
              ultimately show ?thesis using x(3) o(3) qt new sent t(3) said posted [OF said] p(3)
                by (simp add: Cons f fs')
            qed
          qed
        qed
      qed
    qed
  qed
qed


lemma response_justified:
  assumes "use_response env mode fl polls nm shown cmd no_create (holder, server, f) w = (acts, r, w')"
    and "meant session nm" and "\<not> no_create \<Longrightarrow> \<not> fl_no_create fl \<and> session \<noteq> Some (ascii ''-'')"
    and last: "last_exchange before = Some (attach_frame env (fl_detach fl) nm force, f # further)"
  shows "every (justified env fl session) before acts"
proof -
  have quiet_case: ?thesis if "quiet m" and "m w = (acts, r, w')" for m :: "('a, unit) command"
    using quietD [OF that] by simp
  consider (probe) "f = OkFrame" "fl_detach fl" | (ack) token i where "f = AttachAck token i"
    | (create) msg where "f = Error NoSuchSession msg" "\<not> no_create"
    | (other) "\<not> (f = OkFrame \<and> fl_detach fl)" "\<And>token i. f \<noteq> AttachAck token i" "\<And>msg. f = Error NoSuchSession msg \<Longrightarrow> no_create"
    by blast
  then show ?thesis
  proof cases
    case probe
    have "quiet (seq (tell Status (ascii ''session '' @ shown @ ascii '' exists (not attaching, -d)''))
        (\<lambda>_. warn_command_ignored shown cmd :: ('a, unit) command))"
      by (intro quiet_intros)
    then show ?thesis using assms(1) probe by (elim quiet_case) (simp add: use_response_def)
  next
    case ack
    have "seq (warn_command_ignored shown cmd) (\<lambda>_.
        seq (if fl_linger_cli fl then post env (SetLinger [] (fl_linger fl)) else give ()) (\<lambda>_.
        seq (tell Success (ascii ''attached '' @ shown)) (\<lambda>_. stop (Client shown i server)))) w = (acts, r, w')"
      using assms(1) by (simp add: use_response_def ack)
    then show ?thesis
    proof (cases rule: seq_cases)
      case (1 e)
      then show ?thesis using quietD [OF quiet_warn 1(1)] by simp
    next
      case p: (2 warned u w1 later)
      note qw = quietD [OF quiet_warn p(1)]
      have posted: "justified env fl session (before @ warned) (Posted (SetLinger [] (fl_linger fl)))" if "fl_linger_cli fl"
        using that qw last by (auto simp: justified_def ack)
      have ending: "quiet (seq (tell Success (ascii ''attached '' @ shown)) (\<lambda>_. stop (Client shown i server)) :: ('a, unit) command)"
        by (intro quiet_intros)
      from p(2) show ?thesis
      proof (cases rule: seq_cases)
        case (1 e)
        then show ?thesis using posted qw p(3) by (auto simp: post_def give_def split: if_splits prod.splits)
      next
        case t: (2 sent u2 w2 tail)
        show ?thesis using quietD [OF ending t(2)] posted qw p(3) t(1,3)
          by (auto simp: post_def give_def split: if_splits prod.splits)
      qed
    qed
  next
    case create
    then have "create_session env mode fl polls nm shown (case cmd of Some c \<Rightarrow> c | None \<Rightarrow> []) w = (acts, r, w')"
      using assms(1) by (simp add: use_response_def)
    from create_justified [OF this assms(2) _ _ last [unfolded create]] show ?thesis using assms(3) create(2) by blast
  next
    case other
    then have "quiet (use_response env mode fl polls nm shown cmd no_create (holder, server, f) :: ('a, unit) command)"
      by (auto simp: use_response_def intro!: quiet_intros split: Frame.split ErrorCode.split)
    then show ?thesis using assms(1) by (rule quiet_case)
  qed
qed

lemma preliminary_facts:
  assumes "preliminary_name env fl session w = (acts, Inr (pre, forced), w')"
  shows "session = Some n \<Longrightarrow> pre = Some n" "forced \<Longrightarrow> \<exists>n. pre = Some n \<and> Picked (Some (n, True)) \<in> set acts"
  using assms
  by (auto simp: preliminary_name_def pick_session_def pick_or_list_def give_def seq_def stop_def request_def Let_def
      split: option.splits if_splits prod.splits sum.splits Frame.splits)

lemma final_fact: "final_name env (Some n) w = (acts, Inr nm, w') \<Longrightarrow> n \<noteq> ascii ''-'' \<Longrightarrow> nm = n"
  by (auto simp: final_name_def give_def)


end
