(* ===== verification/Connect_Daemon.thy ===== *)
theory Connect_Daemon
  imports Connect_Proofs
begin

text \<open>
  The \<open>connect\<close> command run against the daemon of this development, nobody else asking in between: what it
  leaves in the table of sessions.
\<close>

section \<open>Talking to the daemon\<close>

text \<open>The sessions a turn starts with, and a request of its own turn.\<close>

definition live :: "DaemonEnv \<Rightarrow> Daemon \<Rightarrow> Sessions" where
  "live e d = reap_sessions (fst (reap_lingering (de_now e) (sessions d)))"

definition served :: "DaemonEnv \<Rightarrow> u32 \<Rightarrow> u64 \<Rightarrow> Frame \<Rightarrow> Daemon \<Rightarrow> Frame list \<times> Daemon" where
  "served e caps device f d =
     (case daemon_turn e d (Request f caps Matched device) of
        (d', outs, _) \<Rightarrow> (List.map_filter (\<lambda>out. case out of Reply f \<Rightarrow> Some f | _ \<Rightarrow> None) outs, d'))"

definition first_of :: "'a list \<Rightarrow> 'a option" where
  "first_of xs = (case xs of [] \<Rightarrow> None | x # _ \<Rightarrow> Some x)"

text \<open>An environment whose requests this daemon serves, each arriving whole.\<close>

definition at_daemon :: "DaemonEnv \<Rightarrow> u32 \<Rightarrow> u64 \<Rightarrow> u64 \<Rightarrow> Daemon ConnEnv \<Rightarrow> bool" where
  "at_daemon e caps device server env \<longleftrightarrow>
     cn_request env = (\<lambda>f d. case served e caps device f d of (fs, d') \<Rightarrow> (first_of fs, d'))
     \<and> cn_exchange env = (\<lambda>f d. case served e caps device f d of (fs, d') \<Rightarrow> (Inr (server, fs), d'))
     \<and> cn_connect env = (\<lambda>d. (True, d)) \<and> cn_post env = (\<lambda>f d. (True, d))
     \<and> de_sent1 e \<and> de_sent2 e \<and> de_ready e \<noteq> None"

lemma map_filter_aborts [simp]: "List.map_filter (\<lambda>out. case out of Reply f \<Rightarrow> Some f | _ \<Rightarrow> None) (map (Abort \<circ> g) xs) = []"
  by (induction xs) (simp_all add: map_filter_simps)

lemma lingering_replies [simp]:
  "List.map_filter (\<lambda>out. case out of Reply f \<Rightarrow> Some f | _ \<Rightarrow> None) (snd (reap_lingering now ss)) = []"
proof -
  have "List.map_filter (\<lambda>out. case out of Reply f \<Rightarrow> Some f | _ \<Rightarrow> None) (map Abort xs) = []" for xs
    by (induction xs) (simp_all add: map_filter_simps)
  then show ?thesis by (simp add: reap_lingering_def Let_def)
qed

lemma map_filter_append [simp]: "List.map_filter f (xs @ ys) = List.map_filter f xs @ List.map_filter f ys"
  by (induction xs) (simp_all add: map_filter_simps split: option.split)

lemma served_dispatch:
  "served e caps device f d =
     (case dispatch_control e (d\<lparr>sessions := live e d\<rparr>) caps device f of
        (d', outs, _) \<Rightarrow> (List.map_filter (\<lambda>out. case out of Reply f \<Rightarrow> Some f | _ \<Rightarrow> None) outs, d'))"
  by (simp add: served_def daemon_turn_def live_def handle_request_def split_beta Let_def)

lemma live_filter:
  assumes "distinct (ids (sessions d))"
  shows "live e d = filter (\<lambda>(_, s). \<not> st_finished s \<and> \<not> linger_expired (de_now e) s) (sessions d)"
  using assms by (simp add: live_def reap_lingering_filter reap_sessions_def filter_filter case_prod_unfold conj_commute)

lemma live_ok: "table_ok (sessions d) \<Longrightarrow> table_ok (live e d)"
  unfolding live_def by (intro table_ok_reap table_ok_lingering)

lemma live_live:
  assumes "table_ok (sessions d)" and "sessions d' = live e d"
  shows "live e d' = live e d"
proof -
  have "distinct (ids (sessions d'))" "distinct (ids (sessions d))"
    using assms live_ok [of d e] by (simp_all add: table_ok_def)
  then show ?thesis using assms(2) by (simp add: live_filter filter_filter case_prod_unfold conj_commute cong: conj_cong)
qed

lemma reap_live [simp]: "reap_sessions (live e d) = live e d"
  by (simp add: live_def reap_sessions_def)

lemma served_list:
  "served e caps device ListSessions d =
     ([SessionInfo (build_session_entries e (live e d) (last_attached d))], d\<lparr>sessions := live e d\<rparr>)"
  by (simp add: served_dispatch dispatch_control_def refuse_def map_filter_simps)


section \<open>The requests of the command\<close>

text \<open>There is a session of the name that has not closed its channel.\<close>

definition present :: "rstring \<Rightarrow> Sessions \<Rightarrow> bool" where
  "present nm ss \<longleftrightarrow> (\<exists>(i, s) \<in> set ss. st_name s = Some nm \<and> \<not> st_closed s)"

definition without :: "rstring \<Rightarrow> Sessions \<Rightarrow> Sessions" where
  "without nm ss = filter (\<lambda>(_, s). st_name s \<noteq> Some nm) ss"

lemma without_absent: "nm \<notin> set (names ss) \<Longrightarrow> without nm ss = ss"
  unfolding without_def filter_id_conv in_names by blast

lemma remove_named:
  assumes "table_ok ss" and "(i, s) \<in> set ss" and "st_name s = Some nm"
  shows "remove_session i ss = without nm ss"
proof -
  have "fst x \<noteq> i \<longleftrightarrow> st_name (snd x) \<noteq> Some nm" if "x \<in> set ss" for x
  proof -
    obtain j t where x: "x = (j, t)" by (cases x)
    have "j = i" if "st_name t = Some nm"
      using resolve_name [OF assms] resolve_name [OF assms(1), of j t nm] that \<open>x \<in> set ss\<close> x by (metis option.inject)
    moreover have "t = s" if "j = i" using assms(1,2) \<open>x \<in> set ss\<close> x that by (auto simp: table_ok_def ids_def dest: eq_key_imp_eq_value)
    ultimately show ?thesis using assms(3) x by auto
  qed
  then show ?thesis by (simp add: remove_session_filter without_def case_prod_unfold cong: filter_cong)
qed

lemma named_session:
  assumes "table_ok ss" and "(i, s) \<in> set ss" and "st_name s = Some nm"
  shows "resolve_session ss nm la = Some i \<and> session_of ss i = Some s"
  using resolve_name [OF assms] assms(1,2) by (simp add: session_of_def table_ok_def ids_def)

lemma absent_unresolved:
  assumes "valid_name nm" and "nm \<notin> set (names ss)"
  shows "resolve_session ss nm la = None"
proof -
  have "find (\<lambda>(_, s). st_name s = Some nm) ss = None" using assms(2) by (auto simp: find_None_iff in_names)
  then show ?thesis using assms(1) by (simp add: resolve_session_def valid_name_def del: ascii_simps)
qed

lemma attach_missing:
  assumes "table_ok (sessions d)" and "valid_name nm" and "\<not> present nm (live e d)"
  shows "served e caps device (Attach nm client force nr cols rows token off dirty) d
    = ([no_such_session nm], d\<lparr>sessions := without nm (live e d)\<rparr>)"
proof (cases "nm \<in> set (names (live e d))")
  case False
  then show ?thesis using absent_unresolved [OF assms(2) False]
    by (simp add: served_dispatch dispatch_control_def attach_def Let_def refuse_def map_filter_simps without_absent)
next
  case True
  then obtain i s where s: "(i, s) \<in> set (live e d)" "st_name s = Some nm" by (auto simp: in_names)
  with assms(3) have "st_closed s" by (auto simp: present_def)
  then show ?thesis
    using named_session [OF live_ok [OF assms(1)] s] remove_named [OF live_ok [OF assms(1)] s]
    by (simp add: served_dispatch dispatch_control_def attach_def Let_def refuse_def map_filter_simps)
qed

lemma attach_probe:
  assumes "table_ok (sessions d)" and "present nm (live e d)"
  shows "served e caps device (Attach nm client force True cols rows token off dirty) d
    = ([OkFrame], d\<lparr>sessions := live e d\<rparr>)"
proof -
  obtain i s where s: "(i, s) \<in> set (live e d)" "st_name s = Some nm" "\<not> st_closed s"
    using assms(2) by (auto simp: present_def)
  then show ?thesis using named_session [OF live_ok [OF assms(1)] s(1,2)]
    by (simp add: served_dispatch dispatch_control_def attach_def Let_def refuse_def map_filter_simps)
qed

text \<open>A new session as the client finds it: named, running, attached.\<close>

definition fresh_session :: "rstring \<Rightarrow> u64 \<Rightarrow> SessionState \<Rightarrow> bool" where
  "fresh_session nm linger s \<longleftrightarrow>
     st_name s = Some nm \<and> \<not> st_finished s \<and> \<not> st_closed s
     \<and> (case st_meta s of Some m \<Rightarrow> sm_attached m \<and> sm_linger m = linger | None \<Rightarrow> False)"

lemma create_new:
  assumes "table_ok (sessions d)" and "valid_name nm" and "nm \<notin> set (names (live e d))"
    and "next_id d \<notin> set (ids (live e d))" and "de_sent1 e" "de_sent2 e" "de_ready e \<noteq> None"
  shows "\<exists>s d'. served e caps device (NewSession nm cmd dir cols rows client linger) d
      = ([SessionCreated (next_id d), AttachAck device (next_id d)], d')
    \<and> sessions d' = live e d @ [(next_id d, s)] \<and> fresh_session nm linger s"
proof -
  have kept: "remove_session (next_id d) (live e d) = live e d"
    using assms(4) unfolding remove_session_filter filter_id_conv by (force simp: ids_def)
  have other: "(if fst x = next_id d then f (snd x) else snd x) = snd x" if "x \<in> set (live e d)" for x f
    using assms(4) that by (force simp: ids_def)
  have update: "update_session (next_id d) f (live e d @ [(next_id d, s)]) = live e d @ [(next_id d, f s)]" for f s
    using other by (simp add: update_session_def case_prod_unfold map_idI)
  have "validate_session_name nm (live e d) = None"
    using assms(2,3) by (auto simp: validate_session_name_def valid_name_def in_names list_ex_iff)
  moreover obtain m where "de_ready e = Some m" using assms(7) by blast
  ultimately show ?thesis using assms(2,5,6)
    by (simp add: served_dispatch dispatch_control_def new_session_def new_name_error_def nonempty_def valid_name_def
        insert_session_def kept update Let_def map_filter_simps mark_attached_when_ready_def await_meta_def publish_def
        fresh_session_def published_def mark_attached_def del: ascii_simps)
qed

lemma fresh_stays:
  assumes "table_ok (sessions d)" and "next_id d \<notin> set (ids (live e d))" and "fresh_session nm linger s"
    and "sessions d' = live e d @ [(next_id d, s)]"
  shows "live e d' = sessions d'"
proof -
  have "distinct (ids (sessions d'))" using assms(2,4) live_ok [OF assms(1), of e] by (simp add: table_ok_def)
  moreover have "live e d' = filter (\<lambda>(_, s). \<not> st_finished s \<and> \<not> linger_expired (de_now e) s) (sessions d')"
    using calculation by (rule live_filter)
  moreover have "filter (\<lambda>(_, s). \<not> st_finished s \<and> \<not> linger_expired (de_now e) s) (live e d) = live e d"
    using assms(1) by (simp add: live_filter table_ok_def filter_filter case_prod_unfold)
  moreover have "\<not> linger_expired (de_now e) s" "\<not> st_finished s"
    using assms(3) by (auto simp: fresh_session_def linger_expired_def split: option.splits)
  ultimately show ?thesis by (simp add: assms(4))
qed


section \<open>The command against the daemon\<close>

text \<open>What a command at a daemon returns and leaves, whatever it did on the way.\<close>

definition ends :: "('w, 'a) command \<Rightarrow> 'w \<Rightarrow> Ending + 'a \<Rightarrow> 'w \<Rightarrow> bool" where
  "ends m w r w' \<longleftrightarrow> (\<exists>acts. m w = (acts, r, w'))"

lemma ends_seq: "ends m w (Inr x) w1 \<Longrightarrow> ends (f x) w1 r w' \<Longrightarrow> ends (seq m f) w r w'"
  by (auto simp: ends_def seq_def)

lemma ends_basic:
  "ends (give x) w (Inr x) w" "ends (stop e) w (Inl e) w" "ends (tell tone text) w (Inr ()) w"
  by (simp_all add: ends_def give_def stop_def tell_def log_action_def)

lemma ends_at_daemon:
  assumes "at_daemon e caps device server env"
  shows "ends (connect_or_start env mode wait) d (Inr ()) d" "ends (post env f) d (Inr ()) d"
    "served e caps device f d = (fs, d') \<Longrightarrow> ends (exchange env f) d (Inr (server, fs)) d'"
    "ends (request env ListSessions) d
       (Inr (Some (SessionInfo (build_session_entries e (live e d) (last_attached d))))) (d\<lparr>sessions := live e d\<rparr>)"
  using assms
  by (simp_all add: at_daemon_def ends_def connect_or_start_def seq_def try_connect_def give_def post_def exchange_def
      request_def served_list first_of_def)

lemma ends_expect: "ends (expect_from (f # fs)) w (Inr (f, fs)) w"
  by (simp add: expect_from_def ends_basic)

lemma live_again [simp]: "table_ok (sessions d) \<Longrightarrow> live e (d\<lparr>sessions := live e d\<rparr>) = live e d"
  by (rule live_live) simp_all

lemma ends_wait:
  assumes "at_daemon e caps device server env" and "table_ok (sessions d)"
  shows "ends (wait_until_detached env i polls) d (Inr ()) (d\<lparr>sessions := live e d\<rparr>)"
  using assms(2)
proof (induction polls arbitrary: d)
  case 0
  show ?case
    by (subst wait_until_detached.simps, rule ends_seq [OF ends_at_daemon(4) [OF assms(1)]]) (auto intro: ends_basic)
next
  case (Suc n)
  have "ends (wait_until_detached env i n) (d\<lparr>sessions := live e d\<rparr>) (Inr ()) (d\<lparr>sessions := live e d\<rparr>)"
    using Suc.IH [of "d\<lparr>sessions := live e d\<rparr>"] live_ok [OF Suc.prems] Suc.prems by simp
  then show ?case
    by (subst wait_until_detached.simps, intro ends_seq [OF ends_at_daemon(4) [OF assms(1)]]) (auto intro: ends_basic)
qed

lemma ends_alert:
  assumes "at_daemon e caps device server env"
  shows "ends (alert_detached_sessions env nm) d (Inr ()) (d\<lparr>sessions := live e d\<rparr>)"
  unfolding alert_detached_sessions_def
  by (rule ends_seq [OF ends_at_daemon(4) [OF assms]]) (auto simp: Let_def intro: ends_basic)

lemma create_at_daemon:
  assumes "at_daemon e caps device server env" and "table_ok (sessions d)" and "valid_name nm"
    and "nm \<notin> set (names (live e d))" and "next_id d \<notin> set (ids (live e d))"
  shows "\<exists>s d'. ends (create_session env mode fl polls nm shown cmd) d
      (if fl_detach fl then Inr () else Inl (Client shown (next_id d) server)) d'
    \<and> sessions d' = live e d @ [(next_id d, s)] \<and> fresh_session nm (fl_linger fl) s"
proof -
  have e: "de_sent1 e" "de_sent2 e" "de_ready e \<noteq> None" using assms(1) by (simp_all add: at_daemon_def)
  obtain s d1 where new: "served e caps device (NewSession nm cmd [] (fst (cn_new_size env)) (snd (cn_new_size env))
        (cn_client env) (fl_linger fl)) d = ([SessionCreated (next_id d), AttachAck device (next_id d)], d1)"
      "sessions d1 = live e d @ [(next_id d, s)]" "fresh_session nm (fl_linger fl) s"
    using create_new [OF assms(2-5) e] by blast
  have stays: "live e d1 = sessions d1" by (rule fresh_stays [OF assms(2,5) new(3,2)])
  have ok: "table_ok (sessions d1)"
    using live_ok [OF assms(2), of e] assms(3-5) new(2,3) by (auto simp: table_ok_def fresh_session_def)
  have last: "ends (if fl_detach fl then wait_until_detached env (next_id d) polls
       else seq (alert_detached_sessions env nm) (\<lambda>_. stop (Client shown (next_id d) server))) d1
      (if fl_detach fl then Inr () else Inl (Client shown (next_id d) server)) (d1\<lparr>sessions := live e d1\<rparr>)"
    using ends_wait [OF assms(1) ok] ends_seq [OF ends_alert [OF assms(1)] ends_basic(2)] by (cases "fl_detach fl") simp_all
  have "ends (create_session env mode fl polls nm shown cmd) d
      (if fl_detach fl then Inr () else Inl (Client shown (next_id d) server)) (d1\<lparr>sessions := live e d1\<rparr>)"
    unfolding create_session_def
    by (rule ends_seq [OF ends_at_daemon(1) [OF assms(1)]], rule ends_seq [OF ends_at_daemon(3) [OF assms(1) new(1)]],
        simp only: prod.case, rule ends_seq [OF ends_expect], simp only: prod.case Frame.case, rule ends_seq [OF ends_basic(3)],
        rule ends_seq [OF ends_expect], simp only: prod.case Frame.case, rule ends_seq [OF ends_at_daemon(2) [OF assms(1)]],
        rule last)
  then show ?thesis using new(2,3) stays by (intro exI [of _ s]) auto
qed


lemma live_without:
  assumes "table_ok (sessions d)"
  shows "live e (d\<lparr>sessions := without nm (live e d)\<rparr>) = without nm (live e d)" "table_ok (without nm (live e d))"
proof -
  show ok: "table_ok (without nm (live e d))" unfolding without_def by (rule table_ok_filter [OF live_ok [OF assms]])
  then show "live e (d\<lparr>sessions := without nm (live e d)\<rparr>) = without nm (live e d)"
    using assms by (simp add: live_filter table_ok_def without_def filter_filter case_prod_unfold conj_commute cong: conj_cong)
qed

lemma attach_at_daemon:
  assumes "at_daemon e caps device server env" and "table_ok (sessions d)" and "valid_name nm"
  shows "\<not> present nm (live e d) \<Longrightarrow>
      ends (attach_first env mode fl nm shown force) d (Inr (None, server, no_such_session nm))
        (d\<lparr>sessions := without nm (live e d)\<rparr>)"
    "present nm (live e d) \<Longrightarrow> fl_detach fl \<Longrightarrow>
      ends (attach_first env mode fl nm shown force) d (Inr (None, server, OkFrame)) (d\<lparr>sessions := live e d\<rparr>)"
proof -
  have once: "ends (attach_once env (fl_detach fl) nm force) d (Inr (server, f)) d'"
    if "served e caps device (attach_frame env (fl_detach fl) nm force) d = ([f], d')" for f d'
    unfolding attach_once_def
    by (rule ends_seq [OF ends_at_daemon(3) [OF assms(1) that]], simp only: prod.case, rule ends_seq [OF ends_expect],
        simp only: prod.case, rule ends_basic(1))
  have first: "ends (attach_first env mode fl nm shown force) d (Inr (None, server, f)) d'"
    if "served e caps device (attach_frame env (fl_detach fl) nm force) d = ([f], d')" and "\<not> is_already_attached f" for f d'
    unfolding attach_first_def using that(2) by (intro ends_seq [OF once [OF that(1)]]) (simp add: ends_basic)
  show "ends (attach_first env mode fl nm shown force) d (Inr (None, server, no_such_session nm))
        (d\<lparr>sessions := without nm (live e d)\<rparr>)" if "\<not> present nm (live e d)"
    using attach_missing [OF assms(2,3) that]
    by (intro first) (simp_all add: attach_frame_def Let_def is_already_attached_def no_such_session_def)
  show "ends (attach_first env mode fl nm shown force) d (Inr (None, server, OkFrame)) (d\<lparr>sessions := live e d\<rparr>)"
    if "present nm (live e d)" "fl_detach fl"
    using attach_probe [OF assms(2) that(1)] that(2)
    by (intro first) (simp_all add: attach_frame_def Let_def is_already_attached_def)
qed

lemma attach_or_create:
  assumes "at_daemon e caps device server env" and "table_ok (sessions d)" and "valid_name nm"
    and "\<not> present nm (live e d)" and "next_id d \<notin> set (ids (live e d))"
  shows "\<exists>s d'. ends (seq (attach_first env mode fl nm shown force) (use_response env mode fl polls nm shown cmd False)) d
      (if fl_detach fl then Inr () else Inl (Client shown (next_id d) server)) d'
    \<and> sessions d' = without nm (live e d) @ [(next_id d, s)] \<and> fresh_session nm (fl_linger fl) s"
proof -
  let ?d = "d\<lparr>sessions := without nm (live e d)\<rparr>"
  have gone: "nm \<notin> set (names (without nm (live e d)))" by (auto simp: in_names without_def)
  have id: "next_id ?d \<notin> set (ids (live e ?d))" using assms(5) ids_filter [of _ "live e d"] live_without(1) [OF assms(2), of e nm]
    by (auto simp: without_def)
  have ok: "table_ok (sessions ?d)" "nm \<notin> set (names (live e ?d))" using live_without [OF assms(2)] gone by simp_all
  obtain s d' where c: "ends (create_session env mode fl polls nm shown (case cmd of Some c \<Rightarrow> c | None \<Rightarrow> [])) ?d
      (if fl_detach fl then Inr () else Inl (Client shown (next_id ?d) server)) d'"
      "sessions d' = live e ?d @ [(next_id ?d, s)]" "fresh_session nm (fl_linger fl) s"
    using create_at_daemon [OF assms(1) ok(1) assms(3) ok(2) id] by blast
  have "ends (seq (attach_first env mode fl nm shown force) (use_response env mode fl polls nm shown cmd False)) d
      (if fl_detach fl then Inr () else Inl (Client shown (next_id d) server)) d'"
    using c(1) by (intro ends_seq [OF attach_at_daemon(1) [OF assms(1-4)]]) (cases "fl_detach fl"; simp add: use_response_def no_such_session_def)
  moreover have "sessions d' = without nm (live e d) @ [(next_id d, s)]" using c(2) live_without(1) [OF assms(2)] by simp
  ultimately show ?thesis using c(3) by blast
qed

lemma reachable_fresh:
  assumes "length evs < 2 ^ 32"
  shows "table_ok (sessions (fst (daemon_run daemon_start evs)))"
    "next_id (fst (daemon_run daemon_start evs)) \<notin> set (ids (live e (fst (daemon_run daemon_start evs))))"
proof -
  let ?d = "fst (daemon_run daemon_start evs)"
  show "table_ok (sessions ?d)" by (rule table_ok_run) (simp add: daemon_start_def table_ok_def)
  obtain k where k: "k \<le> length evs" "spawned (snd (daemon_run daemon_start evs)) = map word_of_nat [0..<k]"
      "next_id ?d = word_of_nat k" "set (ids (sessions ?d)) \<subseteq> set (spawned (snd (daemon_run daemon_start evs)))"
    using spawned_run [of evs daemon_start] by (auto simp: daemon_start_def)
  have "word_of_nat k \<noteq> (word_of_nat j :: u32)" if "j < k" for j
    using that k(1) assms by (auto dest!: arg_cong [where f = unat] simp: unat_of_nat)
  then have "word_of_nat k \<notin> (word_of_nat :: nat \<Rightarrow> u32) ` {0..<k}"
    by (metis atLeastLessThan_iff imageE)
  then have "next_id ?d \<notin> set (ids (sessions ?d))" using k(2-4) by auto
  moreover have "set (ids (live e ?d)) \<subseteq> set (ids (sessions ?d))" unfolding live_def using ids_reap ids_lingering by blast
  ultimately show "next_id ?d \<notin> set (ids (live e ?d))" by blast
qed



end
