(* ===== verification/Connect_New.thy ===== *)
theory Connect_New
  imports Connect_Daemon
begin

text \<open>
  \<open>connect --new\<close> against the daemon: the session it makes is always a new one, unless the listing of the
  sessions fails.  Then the witnesses of the properties about \<open>connect\<close>.
\<close>

section \<open>The slot\<close>

lemma row_names: "map r_name (build_rows now client ss) = map session_wire_name (sort_key (\<lambda>s. \<not> own_prefix client s) ss)"
proof (rule nth_equalityI)
  fix i assume "i < length (map r_name (build_rows now client ss))"
  then show "map r_name (build_rows now client ss) ! i = map session_wire_name (sort_key (\<lambda>s. \<not> own_prefix client s) ss) ! i"
    by (simp add: build_rows_def build_row_def Let_def)
qed (simp add: build_rows_def Let_def)

lemma slot_slash: "slot_name client n = client @ 0x2F # dec n"
proof -
  have "dec n \<noteq> ascii ''-''" "0x2F \<notin> set (dec n)"
    using dec_not_dash [of n] dec_digits [of "0x2F" n] by (auto simp: is_digit_def)
  then show ?thesis by (simp add: slot_name_def resolve_session_name_def)
qed

lemma slot_no_id: "slot_name client n \<noteq> dec k"
proof -
  have "0x2F \<in> set (slot_name client n)" by (simp add: slot_slash)
  moreover have "0x2F \<notin> set (dec k)" using dec_digits [of "0x2F" k] by (auto simp: is_digit_def)
  ultimately show ?thesis by metis
qed

lemma wire_slots:
  "slot_name client n \<in> session_wire_name ` set (build_session_entries e ss la) \<longleftrightarrow> slot_name client n \<in> set (names ss)"
proof -
  have "slot_name client n \<noteq> []" by (simp add: slot_slash)
  then have wire: "session_wire_name (build_entry e la (i, s)) = slot_name client n \<longleftrightarrow> st_name s = Some (slot_name client n)" for i s
    using slot_no_id [of client n] by (auto simp: session_wire_name_def build_entry_def split: option.split) metis+
  have "slot_name client n \<in> session_wire_name ` set (build_session_entries e ss la)
      \<longleftrightarrow> (\<exists>(i, s) \<in> set ss. session_wire_name (build_entry e la (i, s)) = slot_name client n)"
    by (auto simp: build_session_entries_def image_iff eq_commute [of "slot_name client n"] case_prod_unfold)
  then show ?thesis by (auto simp: wire in_names)
qed

lemma contains_single: "contains [b] s \<longleftrightarrow> b \<in> set s"
  by (induction s) (auto simp: starts_with_def)

lemma slot_valid:
  assumes "validate_client_name client = None"
  shows "valid_name (slot_name client n)"
proof -
  have "\<not> is_ascii_control b" if b: "b \<in> set client" for b
  proof
    assume c: "is_ascii_control b"
    then have "unat b < 0x20 \<or> unat b = 0x7F" by (auto simp: is_ascii_control_def word_less_nat_alt)
    then have "unat b \<in> set ([0..<0x20] @ [0x7F])" by (auto simp del: upt_rec_numeral)
    then have "[word_of_nat (unat b)] \<in> set control_chars"
      unfolding control_chars_def set_append set_map by blast
    then have "[b] \<in> set control_chars" by simp
    then show False using assms b contains_single [of b client]
      by (auto simp: validate_client_name_def list_ex_iff split: if_splits)
  qed
  moreover have "\<not> is_ascii_control b" if "b \<in> set (dec n)" for b
    using dec_digits [OF that] by (auto simp: is_digit_def is_ascii_control_def word_le_nat_alt word_less_nat_alt)
  moreover have "parse_unsigned (2 ^ 32) (slot_name client n) = None"
    by (cases client) (auto simp: parse_unsigned_def slot_slash is_digit_def Let_def)
  moreover have "slot_name client n \<noteq> ascii ''-''" "slot_name client n \<noteq> []" by (cases client; simp add: slot_slash)+
  moreover have "\<not> is_ascii_control 0x2F" by (simp add: is_ascii_control_def)
  ultimately show ?thesis by (auto simp: valid_name_def slot_slash list_ex_iff simp del: ascii_simps)
qed


section \<open>A new session\<close>

text \<open>
  \<open>connect --new\<close> always makes a session of its own: against every reachable daemon, when nobody else
  asks in between and the client's name is one the configuration accepts, the sessions there stay as they
  are and one is added, named by the first slot of the client that is free, running and with the linger
  asked for; the client attaches to that session, or returns under \<open>-d\<close>.
\<close>

theorem new_flag_makes_fresh:
  fixes evs e
  defines "d \<equiv> fst (daemon_run daemon_start evs)"
  assumes "length evs < 2 ^ 32" and "at_daemon e caps device server env"
    and "validate_client_name (cn_client env) = None"
    and "fl_new fl" and "\<not> fl_no_create fl" and "fl_detach fl \<or> cn_stdin_tty env"
  shows "case connect_session env mode fl polls None cmd d of
      (acts, r, d') \<Rightarrow> \<exists>n s. sessions d' = live e d @ [(next_id d, s)]
        \<and> fresh_session (slot_name (cn_client env) n) (fl_linger fl) s
        \<and> list_all (\<lambda>m. slot_name (cn_client env) m \<in> set (names (live e d))) [0..<n]
        \<and> r = (if fl_detach fl then Inr ()
               else Inl (Client (display_session_name (slot_name (cn_client env) n) (cn_client env)) (next_id d) server))"
proof -
  have ok: "table_ok (sessions d)" and fresh: "next_id d \<notin> set (ids (live e d))"
    using reachable_fresh [OF assms(2)] by (simp_all add: d_def)
  let ?d = "d\<lparr>sessions := live e d\<rparr>" and ?ss = "build_session_entries e (live e d) (last_attached d)"
  let ?rows = "build_rows (cn_now env d) (cn_client env) ?ss"
  have rows: "set (map r_name ?rows) = session_wire_name ` set ?ss" by (simp only: row_names set_map set_sort)
  obtain n where n: "suggested_name ?rows (cn_client env) = slot_name (cn_client env) n"
      "slot_name (cn_client env) n \<notin> set (names (live e d))"
      "list_all (\<lambda>m. slot_name (cn_client env) m \<in> set (names (live e d))) [0..<n]"
    using suggestion_is_first_free [of "map r_name ?rows" "cn_client env"]
    unfolding rows suggested_name_def by (auto simp: wire_slots list_all_iff split: option.splits)
  let ?nm = "slot_name (cn_client env) n"
  let ?shown = "display_session_name ?nm (cn_client env)"
  have final: "ends (final_name env None) d (Inr ?nm) ?d"
  proof -
    have "ends (seq (request env ListSessions) (\<lambda>r.
       give (case r of
         Some (SessionInfo ss) \<Rightarrow> suggested_name (build_rows (cn_now env d) (cn_client env) ss) (cn_client env)
       | _ \<Rightarrow> resolve_session_name (ascii ''0'') (cn_client env)))) d (Inr ?nm) ?d"
      by (rule ends_seq [OF ends_at_daemon(4) [OF assms(3)]]) (simp add: n(1) ends_basic)
    then show ?thesis by (simp add: final_name_def auto_new_session_name_def ends_def)
  qed
  have absent: "\<not> present ?nm (live e ?d)" using n(2) ok by (auto simp: present_def in_names)
  have ok': "table_ok (sessions ?d)" using live_ok [OF ok] by simp
  have fresh': "next_id ?d \<notin> set (ids (live e ?d))" using fresh ok by simp
  obtain s d' where made: "ends (seq (attach_first env mode fl ?nm ?shown (fl_force fl)) (use_response env mode fl polls ?nm ?shown cmd False)) ?d
      (if fl_detach fl then Inr () else Inl (Client ?shown (next_id ?d) server)) d'"
      "sessions d' = without ?nm (live e ?d) @ [(next_id ?d, s)]" "fresh_session ?nm (fl_linger fl) s"
    using attach_or_create [OF assms(3) ok' slot_valid [OF assms(4)] absent fresh', where mode = mode and fl = fl and shown = ?shown
        and force = "fl_force fl" and polls = polls and cmd = cmd] by blast
  have "ends (seq (connect_or_start env mode (fl_wait fl)) (\<lambda>_. seq (final_name env None) (\<lambda>nm.
        seq (attach_first env mode fl nm (display_session_name nm (cn_client env)) (fl_force fl))
          (use_response env mode fl polls nm (display_session_name nm (cn_client env)) cmd False)))) d
      (if fl_detach fl then Inr () else Inl (Client ?shown (next_id ?d) server)) d'"
    by (rule ends_seq [OF ends_at_daemon(1) [OF assms(3)]], rule ends_seq [OF final], rule made(1))
  then have "ends (connect_session env mode fl polls None cmd) d
      (if fl_detach fl then Inr () else Inl (Client ?shown (next_id ?d) server)) d'"
    using assms(5-7) by (auto simp: connect_session_def preliminary_name_def Let_def)
  then show ?thesis using made(2,3) n(2,3) ok by (auto simp: ends_def without_absent)
qed


text \<open>
  The exception: when the listing fails although the daemon answers, \<open>--new\<close> falls back to the first slot
  and attaches to the session that is there.
\<close>

lemma new_flag_attaches_without_listing:
  assumes "cn_connect env w = (True, w)" and "cn_request env ListSessions w = (None, w)"
    and "cn_exchange env (attach_frame env False (resolve_session_name (ascii ''0'') (cn_client env)) False) w
      = (Inr (server, [AttachAck token i]), w')"
    and "fl_new fl" "\<not> fl_detach fl" "\<not> fl_force fl" "\<not> fl_linger_cli fl" "cn_stdin_tty env"
  shows "\<exists>acts. connect_session env mode fl polls None None w
    = (acts, Inl (Client (display_session_name (resolve_session_name (ascii ''0'') (cn_client env)) (cn_client env)) i server), w')"
  using assms
  by (simp add: connect_session_def preliminary_name_def final_name_def auto_new_session_name_def connect_or_start_def
      attach_first_def attach_once_def use_response_def exchange_def request_def try_connect_def expect_from_def
      warn_command_ignored_def tell_def log_action_def is_already_attached_def seq_def give_def stop_def Let_def del: ascii_simps)

section \<open>Witnesses\<close>

definition quick_env :: DaemonEnv where
  "quick_env = \<lparr>de_now = 5, de_sent1 = True, de_sent2 = True,
     de_ready = Some \<lparr>sm_pty = [], sm_shell_pid = 7, sm_created = 5, sm_attached = False, sm_heartbeat = 0,
       sm_activity = 0, sm_client = [], sm_wants_agent = False, sm_owner = 0, sm_linger = 0\<rparr>,
     de_foreground = (\<lambda>_. ([], []))\<rparr>"

definition desk_env :: "Daemon ConnEnv" where
  "desk_env =
     \<lparr>cn_request = (\<lambda>f d. case served quick_env 0 9 f d of (fs, d') \<Rightarrow> (first_of fs, d')),
      cn_connect = (\<lambda>d. (True, d)), cn_auto_start = (\<lambda>_ d. (True, d)),
      cn_exchange = (\<lambda>f d. case served quick_env 0 9 f d of (fs, d') \<Rightarrow> (Inr (1, fs), d')),
      cn_post = (\<lambda>_ d. (True, d)), cn_line = (\<lambda>_ d. ([], d)), cn_keys = (\<lambda>_ d. ([], d)), cn_now = (\<lambda>_. 5),
      cn_stdin_tty = True, cn_stderr_tty = True, cn_size = (80, 24), cn_new_size = (80, 24), cn_vars = [],
      cn_client = ascii ''desk'', cn_ctl_path = [], cn_ctl_stem = [], cn_width = length, cn_debug = (\<lambda>_. [])\<rparr>"

lemma desk_at_daemon: "at_daemon quick_env 0 9 1 desk_env"
  by (simp add: at_daemon_def desk_env_def quick_env_def)

definition plain_flags :: "bool \<Rightarrow> Flags" where
  "plain_flags new = \<lparr>fl_detach = \<not> new, fl_no_create = False, fl_force = False, fl_pick = False, fl_no_pick = False,
     fl_new = new, fl_wait = False, fl_linger = 0, fl_linger_cli = False\<rparr>"

lemma nothing_live: "live e daemon_start = []"
  by (simp add: live_def daemon_start_def reap_lingering_def reap_sessions_def)


theorem new_flag_makes_fresh_witness:
  "case connect_session desk_env AutoServer (plain_flags True) 3 None None (fst (daemon_run daemon_start [])) of
     (acts, r, d') \<Rightarrow> \<exists>s. sessions d' = [(0, s)] \<and> fresh_session (slot_name (ascii ''desk'') 0) 0 s"
proof -
  have ok: "validate_client_name (cn_client desk_env) = None"
    by (simp add: desk_env_def validate_client_name_def list_ex_iff whitespace_def control_chars_def starts_with_def upt_rec)
  have client: "cn_client desk_env = ascii ''desk''" by (simp add: desk_env_def)
  have start: "next_id daemon_start = 0" by (simp add: daemon_start_def)
  have flags: "fl_new (plain_flags True)" "\<not> fl_no_create (plain_flags True)" "cn_stdin_tty desk_env" "fl_linger (plain_flags True) = 0"
    by (simp_all add: plain_flags_def desk_env_def)
  obtain acts r d' where run: "connect_session desk_env AutoServer (plain_flags True) 3 None None (fst (daemon_run daemon_start []))
      = (acts, r, d')" by (metis prod_cases3)
  obtain n s where "sessions d' = [(0, s)]" "fresh_session (slot_name (ascii ''desk'') n) 0 s"
      "list_all (\<lambda>m. slot_name (ascii ''desk'') m \<in> set (names [])) [0..<n]"
    using new_flag_makes_fresh [of "[]" quick_env 0 9 1 desk_env "plain_flags True" AutoServer 3 None, OF _ desk_at_daemon ok]
      flags run by (auto simp: nothing_live start client simp del: ascii_simps)
  moreover from this(3) have "n = 0" by (cases n) (auto simp: list_all_iff)
  ultimately show ?thesis unfolding run by auto
qed

end
