(* ===== verification/Refresh.thy ===== *)
theory Refresh
  imports Procscan Connect_New
begin

text \<open>
  Refreshing the local daemon: the \<open>.info\<close> file of \<open>src/src/runinfo.rs\<close> and the decisions and steps of
  \<open>refresh_local\<close> in \<open>src/src/commands/refresh.rs\<close>, over the commands of \<open>Connect\<close>, whose requests here
  are those of \<open>server_request_any_version\<close>.
\<close>

section \<open>The identity of a process\<close>

record RunInfo =
  ri_protocol :: u16
  ri_git :: rstring
  ri_exe :: rstring
  ri_pid :: u32
  ri_started :: u64

definition info_line :: "string \<Rightarrow> rstring \<Rightarrow> rstring" where
  "info_line key v = ascii key @ [0x3D] @ v @ [0x0A]"

definition to_string_repr :: "RunInfo \<Rightarrow> rstring" where
  "to_string_repr i =
     info_line ''protocol'' (dec (unat (ri_protocol i))) @ info_line ''git'' (ri_git i)
     @ info_line ''exe'' (ri_exe i) @ info_line ''pid'' (dec (unat (ri_pid i)))
     @ info_line ''started'' (dec (unat (ri_started i)))"

definition parse_or_zero :: "nat \<Rightarrow> rstring \<Rightarrow> nat" where
  "parse_or_zero lim v = (case parse_unsigned lim (trim v) of Some n \<Rightarrow> n | None \<Rightarrow> 0)"

definition take_line :: "RunInfo \<Rightarrow> rstring \<Rightarrow> RunInfo" where
  "take_line i line =
     (case split_once 0x3D line of
        None \<Rightarrow> i
      | Some (k, v) \<Rightarrow>
          (let key = trim k
           in if key = ascii ''protocol'' then i\<lparr>ri_protocol := word_of_nat (parse_or_zero (2 ^ 16) v)\<rparr>
              else if key = ascii ''git'' then i\<lparr>ri_git := trim v\<rparr>
              else if key = ascii ''exe'' then i\<lparr>ri_exe := trim v\<rparr>
              else if key = ascii ''pid'' then i\<lparr>ri_pid := word_of_nat (parse_or_zero (2 ^ 32) v)\<rparr>
              else if key = ascii ''started'' then i\<lparr>ri_started := word_of_nat (parse_or_zero (2 ^ 64) v)\<rparr>
              else i))"

definition parse_info :: "rstring \<Rightarrow> RunInfo" where
  "parse_info text =
     foldl take_line \<lparr>ri_protocol = 0, ri_git = [], ri_exe = [], ri_pid = 0, ri_started = 0\<rparr> (lines text)"

datatype Staleness = StaleProtocol u16 u16 | StaleBuild rstring rstring

definition staleness_vs :: "RunInfo \<Rightarrow> RunInfo \<Rightarrow> Staleness option" where
  "staleness_vs cur i =
     (if ri_protocol i \<noteq> ri_protocol cur then Some (StaleProtocol (ri_protocol i) (ri_protocol cur))
      else if ri_git i \<noteq> [] \<and> ri_git i \<noteq> ri_git cur then Some (StaleBuild (ri_git i) (ri_git cur))
      else None)"

section \<open>Deciding\<close>

datatype Verdict = NotRunning | Current | Stale Staleness | Unknown

definition needs_restart :: "Verdict \<Rightarrow> bool" where
  "needs_restart v \<longleftrightarrow> (case v of Stale _ \<Rightarrow> True | Unknown \<Rightarrow> True | _ \<Rightarrow> False)"

text \<open>The file's text, None when it cannot be read.\<close>

definition assess :: "RunInfo \<Rightarrow> rstring option \<Rightarrow> bool \<Rightarrow> Verdict" where
  "assess cur info alive =
     (if \<not> alive then NotRunning
      else
        (case info of
           None \<Rightarrow> Unknown
         | Some text \<Rightarrow> (case staleness_vs cur (parse_info text) of None \<Rightarrow> Current | Some s \<Rightarrow> Stale s)))"

text \<open>\<open>parse::<i32>()\<close>.\<close>

definition parse_i32 :: "rstring \<Rightarrow> int option" where
  "parse_i32 s =
     (case s of
        [] \<Rightarrow> None
      | c # cs \<Rightarrow>
          (if c = 0x2D then
             (if cs \<noteq> [] \<and> list_all is_digit cs \<and> undec cs \<le> 2 ^ 31 then Some (- int (undec cs)) else None)
           else map_option int (parse_unsigned (2 ^ 31) s)))"

definition pid_of_file :: "rstring option \<Rightarrow> int option" where
  "pid_of_file text = Option.bind text (\<lambda>s. parse_i32 (trim s))"

definition pid_file_alive :: "(int \<Rightarrow> bool) \<Rightarrow> rstring option \<Rightarrow> bool" where
  "pid_file_alive exists text = (case pid_of_file text of Some pid \<Rightarrow> exists pid | None \<Rightarrow> False)"

definition restart_blocked_by :: "nat option \<Rightarrow> bool \<Rightarrow> nat option" where
  "restart_blocked_by found yes = (case found of Some n \<Rightarrow> (if 0 < n \<and> \<not> yes then Some n else None) | None \<Rightarrow> None)"

section \<open>Refreshing\<close>

definition attached_session_count :: "'w ConnEnv \<Rightarrow> ('w, nat option) command" where
  "attached_session_count env =
     seq (request env ListSessions) (\<lambda>r.
       give (case r of Some (SessionInfo ss) \<Rightarrow> Some (length (filter attached ss)) | _ \<Rightarrow> None))"

definition stale_text :: "Staleness \<Rightarrow> rstring" where
  "stale_text s =
     (case s of
        StaleProtocol running disk \<Rightarrow>
          ascii ''running protocol v'' @ dec (unat running) @ ascii '' but binary on disk is v'' @ dec (unat disk)
      | StaleBuild running disk \<Rightarrow> ascii ''running build '' @ running @ ascii '' but binary on disk is '' @ disk)"

definition verdict_text :: "Verdict \<Rightarrow> rstring" where
  "verdict_text v =
     (case v of
        NotRunning \<Rightarrow> ascii ''not running''
      | Current \<Rightarrow> ascii ''up to date''
      | Stale s \<Rightarrow> stale_text s
      | Unknown \<Rightarrow> ascii ''running, version unknown (no .info sidecar)'')"

definition count_text :: "nat \<Rightarrow> rstring \<Rightarrow> rstring" where
  "count_text n noun = dec n @ ascii '' '' @ noun @ (if n = 1 then [] else ascii ''s'')"

text \<open>
  What a refresh finds: this binary's identity, the two files, which processes there are, the two scans for
  orphans with the outcome of killing them, and the socket override.
\<close>

record Machine =
  mc_current :: RunInfo
  mc_info :: "rstring option"
  mc_pid_file :: "rstring option"
  mc_exists :: "int \<Rightarrow> bool"
  mc_first_scan :: System
  mc_second_scan :: System
  mc_killed :: "u32 \<Rightarrow> bool"
  mc_ctl_socket :: "rstring option"

definition server_auto_start_args :: "rstring option \<Rightarrow> rstring list" where
  "server_auto_start_args ctl =
     (case ctl of Some s \<Rightarrow> [ascii ''--ctl-socket'', s, ascii ''server''] | None \<Rightarrow> [ascii ''server''])"

definition stop_daemon :: "'w ConnEnv \<Rightarrow> Machine \<Rightarrow> ('w, unit) command" where
  "stop_daemon env mc =
     seq (request env KillServer) (\<lambda>r.
       case r of
         Some OkFrame \<Rightarrow> give ()
       | Some (Error _ message) \<Rightarrow> tell Status (ascii ''kill-server: '' @ message @ ascii '' (continuing)'')
       | Some other \<Rightarrow> tell Status (ascii ''kill-server: unexpected response '' @ cn_debug env (Some other) @ ascii '' (continuing)'')
       | None \<Rightarrow>
           (case pid_of_file (mc_pid_file mc) of
              Some pid \<Rightarrow> log_action (Signalled pid False)
            | None \<Rightarrow> give ()))"

fun tell_reaped :: "(OrphanDaemon \<times> bool) list \<Rightarrow> ('w, unit) command" where
  "tell_reaped [] = give ()"
| "tell_reaped ((orphan, ok) # rest) =
     seq (log_action (Signalled (int (unat (or_pid orphan))) True)) (\<lambda>_.
     seq (if ok then tell Success (ascii ''reaped orphaned daemon pid '' @ dec (unat (or_pid orphan)))
          else tell Warn (ascii ''could not kill orphan pid '' @ dec (unat (or_pid orphan)))) (\<lambda>_. tell_reaped rest))"

definition reap :: "Machine \<Rightarrow> ('w, unit) command" where
  "reap mc =
     (let suspects = find_orphan_daemons (mc_first_scan mc);
          reaped = reap_orphans (mc_first_scan mc) (mc_second_scan mc) (mc_killed mc)
      in if suspects = [] then give ()
         else
           seq (tell_all Warn (map (\<lambda>s. ascii ''possible orphaned daemon: pid '' @ dec (unat (or_pid s))) suspects)) (\<lambda>_.
           seq (tell Detail (ascii ''confirming (7s grace for self-heal)...'')) (\<lambda>_.
             if reaped = [] then tell Success (ascii ''no orphans confirmed (recovered on their own)'')
             else tell_reaped reaped)))"

definition refresh_local :: "'w ConnEnv \<Rightarrow> Machine \<Rightarrow> bool \<Rightarrow> ('w, unit) command" where
  "refresh_local env mc yes =
     (let verdict = assess (mc_current mc) (mc_info mc) (pid_file_alive (mc_exists mc) (mc_pid_file mc))
      in seq (tell Detail (ascii ''local daemon: '' @ verdict_text verdict)) (\<lambda>_.
         seq (if needs_restart verdict then
                seq (attached_session_count env) (\<lambda>found.
                  case restart_blocked_by found yes of
                    Some n \<Rightarrow>
                      stop (Failed (ascii ''local daemon is stale, but restarting it would kill ''
                        @ count_text n (ascii ''attached session'')))
                  | None \<Rightarrow>
                      seq (stop_daemon env mc) (\<lambda>_.
                      seq (auto_start env (server_auto_start_args (mc_ctl_socket mc))) (\<lambda>ok.
                        if ok then tell Success (ascii ''local daemon restarted'')
                        else stop (Failed (ascii ''failed to start `gritty'')))))
              else give ()) (\<lambda>_. reap mc)))"

section \<open>The file\<close>

text \<open>A value that survives its line: no line break in it, nothing to trim.\<close>

definition plain :: "rstring \<Rightarrow> bool" where
  "plain v \<longleftrightarrow> 0x0A \<notin> set v \<and> trim v = v \<and> (v = [] \<or> last v \<noteq> 0x0D)"

lemma info_line_pieces:
  assumes "0x0A \<notin> set v" and "acc @ v = [] \<or> last (acc @ v) \<noteq> 0x0D"
  shows "pieces acc (v @ 0x0A # rest) = (acc @ v) # pieces [] rest"
  using assms by (induction v arbitrary: acc) auto

lemma lines_info:
  assumes "plain v" and "0x0A \<notin> set (ascii key)"
  shows "lines (info_line key v @ rest) = (ascii key @ [0x3D] @ v) # lines rest"
  using assms info_line_pieces [of "ascii key @ [0x3D] @ v" "[]" rest]
  by (auto simp: lines_def info_line_def plain_def simp del: ascii_simps)

lemma lines_last_info:
  assumes "plain v" and "0x0A \<notin> set (ascii key)"
  shows "lines (info_line key v) = [ascii key @ [0x3D] @ v]"
  using lines_info [OF assms, of "[]"] by (simp add: lines_def del: ascii_simps)

lemma take_info:
  assumes "0x3D \<notin> set (ascii key)"
  shows "split_once 0x3D (ascii key @ [0x3D] @ v) = Some (ascii key, v)"
  using assms by simp


lemma dec_not_space:
  assumes "c \<in> set (dec n)"
  shows "\<not> c < 0x30" "\<not> 0x39 < c"
  using dec_digits [OF assms] by (auto simp: is_digit_def not_less)

lemma trim_digits:
  assumes "list_all is_digit v"
  shows "trim v = v"
proof (cases v)
  case Nil
  then show ?thesis by (intro trim_id) (simp_all add: find_None_iff whitespace_def starts_with_def strip_suffix_def)
next
  case (Cons c cs)
  have head: "\<not> starts_with v w" if w: "w \<in> set whitespace" for w
  proof
    assume "starts_with v w"
    then have "hd w = c" using w whitespace_nonempty Cons by (cases w) (auto simp: starts_with_def)
    then show False using w assms Cons by (auto simp: whitespace_def is_digit_def)
  qed
  have tail: "strip_suffix w v = None" if w: "w \<in> set whitespace" for w
  proof (rule ccontr)
    assume "strip_suffix w v \<noteq> None"
    then obtain u where "v = u @ w" by (auto simp: strip_suffix_def split: if_splits) (metis append_take_drop_id)
    then have "list_all is_digit w" using assms by simp
    then show False using w by (auto simp: whitespace_def is_digit_def)
  qed
  show ?thesis using head tail by (intro trim_id) (auto simp: find_None_iff)
qed

lemma plain_dec: "plain (dec n)"
proof -
  have digits: "is_digit c" if "c \<in> set (dec n)" for c using dec_digits that by blast
  have "0x0A \<notin> set (dec n)" "0x0D \<notin> set (dec n)" using digits [of "0x0A"] digits [of "0x0D"] by (auto simp: is_digit_def)
  then show ?thesis using trim_digits [of "dec n"] digits by (auto simp: plain_def list_all_iff dec_nonempty)
      (metis dec_nonempty last_in_set)
qed

lemma parse_dec: "n < lim \<Longrightarrow> parse_or_zero lim (dec n) = n"
  using plain_dec [of n] by (simp add: parse_or_zero_def plain_def parse_unsigned_dec)

lemma take_line_keys:
  "take_line i (ascii ''protocol'' @ [0x3D] @ v) = i\<lparr>ri_protocol := word_of_nat (parse_or_zero (2 ^ 16) v)\<rparr>"
  "take_line i (ascii ''git'' @ [0x3D] @ v) = i\<lparr>ri_git := trim v\<rparr>"
  "take_line i (ascii ''exe'' @ [0x3D] @ v) = i\<lparr>ri_exe := trim v\<rparr>"
  "take_line i (ascii ''pid'' @ [0x3D] @ v) = i\<lparr>ri_pid := word_of_nat (parse_or_zero (2 ^ 32) v)\<rparr>"
  "take_line i (ascii ''started'' @ [0x3D] @ v) = i\<lparr>ri_started := word_of_nat (parse_or_zero (2 ^ 64) v)\<rparr>"
proof -
  have keys: "trim (ascii ''protocol'') = ascii ''protocol''" "trim (ascii ''git'') = ascii ''git''"
      "trim (ascii ''exe'') = ascii ''exe''" "trim (ascii ''pid'') = ascii ''pid''" "trim (ascii ''started'') = ascii ''started''"
    by code_simp+
  have apart: "ascii a = ascii b \<longleftrightarrow> a = b"
    if "a \<in> {''protocol'', ''git'', ''exe'', ''pid'', ''started''}" "b \<in> {''protocol'', ''git'', ''exe'', ''pid'', ''started''}" for a b
    using that by auto
  have free: "0x3D \<notin> set (ascii k)" if "k \<in> {''protocol'', ''git'', ''exe'', ''pid'', ''started''}" for k
    using that by auto
  show "take_line i (ascii ''protocol'' @ [0x3D] @ v) = i\<lparr>ri_protocol := word_of_nat (parse_or_zero (2 ^ 16) v)\<rparr>"
    "take_line i (ascii ''git'' @ [0x3D] @ v) = i\<lparr>ri_git := trim v\<rparr>"
    "take_line i (ascii ''exe'' @ [0x3D] @ v) = i\<lparr>ri_exe := trim v\<rparr>"
    "take_line i (ascii ''pid'' @ [0x3D] @ v) = i\<lparr>ri_pid := word_of_nat (parse_or_zero (2 ^ 32) v)\<rparr>"
    "take_line i (ascii ''started'' @ [0x3D] @ v) = i\<lparr>ri_started := word_of_nat (parse_or_zero (2 ^ 64) v)\<rparr>"
    by (simp_all add: take_line_def free apart keys Let_def del: ascii_simps)
qed

lemma info_read_back:
  assumes "plain (ri_git i)" and "plain (ri_exe i)"
  shows "parse_info (to_string_repr i) = i"
proof -
  have breaks: "0x0A \<notin> set (ascii k)"
    if "k \<in> {''protocol'', ''git'', ''exe'', ''pid'', ''started''}" for k
    using that by auto
  have bounds: "unat (ri_protocol i) < 2 ^ 16" "unat (ri_pid i) < 2 ^ 32" "unat (ri_started i) < 2 ^ 64"
    using unsigned_less [of "ri_protocol i"] unsigned_less [of "ri_pid i"] unsigned_less [of "ri_started i"] by simp_all
  have "lines (to_string_repr i) =
      [ascii ''protocol'' @ [0x3D] @ dec (unat (ri_protocol i)), ascii ''git'' @ [0x3D] @ ri_git i,
       ascii ''exe'' @ [0x3D] @ ri_exe i, ascii ''pid'' @ [0x3D] @ dec (unat (ri_pid i)),
       ascii ''started'' @ [0x3D] @ dec (unat (ri_started i))]"
    using assms breaks by (simp add: to_string_repr_def lines_info lines_last_info plain_dec del: ascii_simps)
  then show ?thesis using assms
    by (simp add: parse_info_def take_line_keys parse_dec [OF bounds(1), simplified] parse_dec [OF bounds(2), simplified]
        parse_dec [OF bounds(3), simplified] plain_def del: ascii_simps append.simps)
qed

text \<open>
  What a process writes about itself is read back: with a build hash and a path that have no line
  break and nothing to trim, reading the file gives the identity written, each number at its width; so a
  process restarted from the binary on disk is found current, and refreshing twice restarts it once.
\<close>

theorem info_file_read_back:
  assumes "plain (ri_git i)" and "plain (ri_exe i)"
  shows "parse_info (to_string_repr i) = i
    \<and> assess i (Some (to_string_repr (i\<lparr>ri_pid := pid, ri_started := time\<rparr>))) True = Current"
proof -
  let ?j = "i\<lparr>ri_pid := pid, ri_started := time\<rparr>"
  have "plain (ri_git ?j)" "plain (ri_exe ?j)" using assms by simp_all
  then have "parse_info (to_string_repr ?j) = ?j" by (rule info_read_back)
  then show ?thesis using info_read_back [OF assms] by (simp add: assess_def staleness_vs_def)
qed

section \<open>Attached sessions\<close>


text \<open>
  But a daemon whose list cannot be had is stopped whatever the reason, not only when it is of another
  protocol: a request that fails once is enough.
\<close>

lemma unlisted_daemon_is_stopped:
  assumes "needs_restart (assess (mc_current mc) (mc_info mc) (pid_file_alive (mc_exists mc) (mc_pid_file mc)))"
    and "cn_request env ListSessions w = (None, w1)" and "cn_request env KillServer w1 = (Some OkFrame, w2)"
  shows "\<exists>before after r w'. refresh_local env mc False w = (before @ Requested KillServer (Some OkFrame) # after, r, w')"
proof -
  obtain ok w3 where a: "cn_auto_start env (server_auto_start_args (mc_ctl_socket mc)) w2 = (ok, w3)" by fastforce
  obtain reaped r4 w4 where b: "reap mc w3 = (reaped, r4, w4)" by (metis prod_cases3)
  show ?thesis
    using a b by (cases ok) (auto simp: refresh_local_def assms Let_def seq_def tell_def log_action_def attached_session_count_def request_def
        give_def stop_def restart_blocked_by_def stop_daemon_def auto_start_def simp del: ascii_simps split: prod.splits sum.splits
        intro: exI [of _ "[_, _]"])
qed


section \<open>Witnesses\<close>

definition this_build :: RunInfo where
  "this_build = \<lparr>ri_protocol = 30, ri_git = ascii ''abc'', ri_exe = ascii ''/g'', ri_pid = 7, ri_started = 9\<rparr>"

lemma plain_example: "plain (ascii ''abc'')" "plain (ascii ''/g'')"
  by code_simp+

theorem info_file_read_back_witness:
  "parse_info (to_string_repr this_build) = this_build"
  using info_file_read_back [of this_build] plain_example by (simp add: this_build_def del: ascii_simps)

definition stale_machine :: Machine where
  "stale_machine = \<lparr>mc_current = this_build, mc_info = None, mc_pid_file = Some (ascii ''7''), mc_exists = (\<lambda>_. True),
     mc_first_scan = lost, mc_second_scan = lost, mc_killed = (\<lambda>_. True), mc_ctl_socket = None\<rparr>"

definition one_session :: "(DaemonEnv \<times> DaemonEvent) list" where
  "one_session = [(quick_env, Request (NewSession (ascii ''w'') [] [] 80 24 [] 0) 0 Matched 9)]"

lemma one_attached:
  "\<exists>(i, s) \<in> set (live quick_env (fst (daemon_run daemon_start one_session))). \<exists>m. st_meta s = Some m \<and> sm_attached m"
proof -
  have ok: "table_ok (sessions daemon_start)" "valid_name (ascii ''w'')" "ascii ''w'' \<notin> set (names (live quick_env daemon_start))"
    "next_id daemon_start \<notin> set (ids (live quick_env daemon_start))"
    by (simp_all add: nothing_live) (simp_all add: daemon_start_def table_ok_def valid_name_def is_ascii_control_def
        parse_unsigned_def is_digit_def)
  obtain s d' where new: "served quick_env 0 9 (NewSession (ascii ''w'') [] [] 80 24 [] 0) daemon_start
        = ([SessionCreated (next_id daemon_start), AttachAck 9 (next_id daemon_start)], d')"
      "sessions d' = live quick_env daemon_start @ [(next_id daemon_start, s)]" "fresh_session (ascii ''w'') 0 s"
    using create_new [OF ok, of 0 9 "[]" "[]" 80 24 "[]" 0] by (auto simp: quick_env_def simp del: ascii_simps)
  have "fst (daemon_run daemon_start one_session) = d'"
    using new(1) by (simp add: one_session_def served_def split: prod.splits del: ascii_simps)
  moreover have "live quick_env d' = sessions d'" by (rule fresh_stays [OF ok(1,4) new(3,2)])
  ultimately show ?thesis using new(2,3) by (auto simp: fresh_session_def split: option.splits)
qed


end
