(* ===== verification/Ui.thy ===== *)
theory Ui
  imports Config
begin

text \<open>
  How gritty talks to a human, from \<open>src/src/ui.rs\<close>, and the lines the client paints beside a session's
  output, from \<open>src/src/client.rs\<close>.  The stripping of escapes when the terminal wants no color is the
  crate \<open>anstream\<close>'s: it is part of the sink, with the decision.
\<close>

section \<open>Levels and rendering\<close>

datatype Level = Success | Status | Warn | Error | Detail

datatype LineEnding = NoEnding | Lf | CrLf

definition sgr :: "string \<Rightarrow> rstring" where
  "sgr code = [0x1B] @ ascii ''['' @ ascii code @ ascii ''m''"

abbreviation (input) GREEN :: rstring where "GREEN \<equiv> sgr ''32''"
abbreviation (input) DIM_YELLOW :: rstring where "DIM_YELLOW \<equiv> sgr ''2;33''"
abbreviation (input) YELLOW :: rstring where "YELLOW \<equiv> sgr ''33''"
abbreviation (input) RED :: rstring where "RED \<equiv> sgr ''31''"
abbreviation (input) DIM :: rstring where "DIM \<equiv> sgr ''2''"
abbreviation (input) RESET :: rstring where "RESET \<equiv> sgr ''0''"

definition MARKER :: rstring where "MARKER = [0xE2, 0x96, 0xB8]"
definition MARKER_ASCII :: rstring where "MARKER_ASCII = ascii ''>''"

definition marker_for :: "rstring option \<Rightarrow> rstring" where
  "marker_for locale_name =
     (case locale_name of
        None \<Rightarrow> MARKER_ASCII
      | Some v \<Rightarrow>
          (let v = map ascii_lower v
           in if contains (ascii ''utf-8'') v \<or> contains (ascii ''utf8'') v then MARKER else MARKER_ASCII))"

text \<open>\<open>marker\<close>: the first of the three variables that is set to a non-empty value.\<close>

definition marker :: "(rstring \<Rightarrow> rstring option) \<Rightarrow> rstring" where
  "marker var =
     marker_for (List.find (\<lambda>v. v \<noteq> []) (List.map_filter var [ascii ''LC_ALL'', ascii ''LC_CTYPE'', ascii ''LANG'']))"

definition render :: "Level \<Rightarrow> rstring \<Rightarrow> rstring \<Rightarrow> LineEnding \<Rightarrow> rstring" where
  "render level text mark ending =
     (let narrated = mark @ ascii '' '' @ text;
          (code, body) =
            (case level of
               Success \<Rightarrow> (GREEN, narrated)
             | Status \<Rightarrow> (DIM_YELLOW, narrated)
             | Detail \<Rightarrow> (DIM, narrated)
             | Warn \<Rightarrow> (YELLOW, ascii ''warning: '' @ text)
             | Error \<Rightarrow> (RED, ascii ''error: '' @ text));
          terminator = (case ending of NoEnding \<Rightarrow> [] | Lf \<Rightarrow> [0x0A] | CrLf \<Rightarrow> [0x0D, 0x0A])
      in code @ body @ RESET @ terminator)"

text \<open>A terminal: its marker, whether it takes color, and what is left of a string without.\<close>

record Sink =
  sk_marker :: rstring
  sk_colored :: bool
  sk_strip :: "rstring \<Rightarrow> rstring"

definition strip_unless_colored :: "Sink \<Rightarrow> rstring \<Rightarrow> rstring" where
  "strip_unless_colored sk s = (if sk_colored sk then s else sk_strip sk s)"

definition terminal_body :: "Sink \<Rightarrow> Level \<Rightarrow> rstring \<Rightarrow> rstring" where
  "terminal_body sk level text = strip_unless_colored sk (render level text (sk_marker sk) NoEnding)"

definition terminal_line :: "Sink \<Rightarrow> Level \<Rightarrow> rstring \<Rightarrow> rstring" where
  "terminal_line sk level text = strip_unless_colored sk (render level text (sk_marker sk) CrLf)"

section \<open>The client's lines\<close>

definition status_msg :: "Sink \<Rightarrow> rstring \<Rightarrow> rstring" where
  "status_msg sk text = [0x0D, 0x0A] @ terminal_line sk Status text"

definition success_msg :: "Sink \<Rightarrow> rstring \<Rightarrow> rstring" where
  "success_msg sk text = [0x0D, 0x0A] @ terminal_line sk Success text"

definition error_msg :: "Sink \<Rightarrow> rstring \<Rightarrow> rstring" where
  "error_msg sk text = [0x0D, 0x0A] @ terminal_line sk Error text"

definition terminal_err_line :: "Sink \<Rightarrow> rstring \<Rightarrow> bool \<Rightarrow> rstring" where
  "terminal_err_line sk text chrome =
     (if chrome then [] else [0x0D, 0x0A]) @ [0x0D] @ terminal_body sk Error text @ [0x1B] @ ascii ''[K'' @ [0x0D, 0x0A]"

definition SPINNER :: "rstring list" where
  "SPINNER = map (\<lambda>b. [0xE2, 0xA0, b]) [0x8B, 0x99, 0xB9, 0xB8, 0xBC, 0xB4, 0xA6, 0xA7, 0x87, 0x8F]"

datatype ReconnectPhase = Retrying | WaitingForNetwork | RetryNow

definition reconnect_status_line :: "u64 \<Rightarrow> nat \<Rightarrow> ReconnectPhase \<Rightarrow> bool \<Rightarrow> rstring" where
  "reconnect_status_line spin elapsed phase keys_retry =
     (let glyph = SPINNER ! (unat spin mod length SPINNER);
          body = (case phase of
                    Retrying \<Rightarrow> ascii ''reconnecting '' @ dec elapsed @ ascii ''s''
                  | WaitingForNetwork \<Rightarrow> ascii ''waiting for network''
                  | RetryNow \<Rightarrow> ascii ''retrying now'');
          dot = ascii '' '' @ [0xC2, 0xB7] @ ascii '' '';
          hint = (if keys_retry \<and> phase \<noteq> RetryNow then dot @ ascii ''any key retries'' else [])
      in [0x0D] @ sgr ''2'' @ glyph @ ascii '' '' @ body @ hint @ dot @ ascii ''^C aborts'' @ sgr ''0''
           @ [0x1B] @ ascii ''[K'')"

text \<open>The spinner never indexes past its glyphs, however long it runs.\<close>

lemma spinner_in_range: "SPINNER ! (unat (spin :: u64) mod length SPINNER) \<in> set SPINNER"
  by (intro nth_mem mod_less_divisor) (simp add: SPINNER_def)

end
