(* ===== verification/Tail.thy ===== *)
theory Tail
  imports Client_Reconnect Ui
begin

text \<open>
  \<open>gritty tail\<close>, from \<open>tail\<close> in \<open>src/src/client.rs\<close> and \<open>tail_session\<close> in
  \<open>src/src/commands/session.rs\<close>: a read-only view of a session that reconnects by itself.  Its loop is a
  second copy of the one of the attached client, with its own reconnect loop.  A run is logged
  as the frames it gets and its effects, in order (the request of an attempt before what is painted
  meanwhile); standard output and standard error are one terminal.
\<close>

abbreviation (input) DEFAULT_HEARTBEAT_INTERVAL :: nat where "DEFAULT_HEARTBEAT_INTERVAL \<equiv> 10 * SECOND"
abbreviation (input) DEFAULT_HEARTBEAT_TIMEOUT :: nat where "DEFAULT_HEARTBEAT_TIMEOUT \<equiv> 60 * SECOND"

datatype TailOut = TailGot Frame | TailSend Frame | TailStdout "byte list" | TailStderr "byte list"

section \<open>Relaying\<close>

text \<open>Clocks in nanoseconds: the wall's and the monotonic one.\<close>

record Tail =
  tl_active :: nat
  tl_outbound :: nat
  tl_alt :: AltScreenTracker

record TailEnv =
  te_wall :: nat
  te_mono :: nat
  te_link_up :: bool
  te_stdout_ok :: bool

datatype TailEvent = TailFrame FromServer | TailNetChanged | TailTick | TailInt | TailTerm | TailHup

text \<open>Leaving the relay: with the exit code of the command, for the reconnect loop, or with an error.\<close>

datatype TailExit = TailCode i32 | TailLost | TailIoFailed

type_synonym TailStep = "Tail \<times> TailOut list \<times> TailExit option"

text \<open>Decimal digits with a sign, as \<open>i32\<close> prints.\<close>

definition dec_int :: "int \<Rightarrow> rstring" where
  "dec_int i = (if i < 0 then ascii ''-'' else []) @ dec (nat \<bar>i\<bar>)"

definition tail_exit_text :: "i32 \<Rightarrow> rstring" where
  "tail_exit_text code =
     (if code = 0 then ascii ''session exited'' else ascii ''session exited with code '' @ dec_int (sint code))"

definition tail_ping :: "TailEnv \<Rightarrow> Tail \<Rightarrow> TailStep" where
  "tail_ping e s =
     (if te_link_up e then (s\<lparr>tl_outbound := te_mono e\<rparr>, [TailSend Ping], None) else (s, [], Some TailLost))"

definition tail_frame :: "Sink \<Rightarrow> TailEnv \<Rightarrow> Frame \<Rightarrow> Tail \<Rightarrow> TailStep" where
  "tail_frame sk e f s =
     (let s = s\<lparr>tl_active := te_wall e\<rparr> in
      case f of
        Data bytes \<Rightarrow>
          (let s = s\<lparr>tl_alt := alt_scan (tl_alt s) bytes\<rparr>
           in if te_stdout_ok e then (s, [TailGot f, TailStdout bytes], None)
              else (s, [TailGot f], Some TailIoFailed))
      | Exit code \<Rightarrow> (s, [TailGot f, TailStderr (status_msg sk (tail_exit_text code))], Some (TailCode code))
      | ServerShutdown \<Rightarrow>
          (s, [TailGot f, TailStderr (terminal_err_line sk (ascii ''server shut down -- session is gone'') False)],
           Some (TailCode 1))
      | _ \<Rightarrow> (s, [TailGot f], None))"

definition tail_step :: "Sink \<Rightarrow> TailEnv \<Rightarrow> TailEvent \<Rightarrow> Tail \<Rightarrow> TailStep" where
  "tail_step sk e ev s =
     (case ev of
        TailFrame (Got f) \<Rightarrow> tail_frame sk e f s
      | TailFrame StreamError \<Rightarrow> (s, [], Some TailLost)
      | TailFrame StreamEnd \<Rightarrow> (s, [], Some TailLost)
      | TailNetChanged \<Rightarrow> tail_ping e s
      | TailTick \<Rightarrow>
          (if link_is_stale (tl_active s) DEFAULT_HEARTBEAT_TIMEOUT (te_wall e) then (s, [], Some TailLost)
           else if DEFAULT_HEARTBEAT_INTERVAL \<le> te_mono e - tl_outbound s then tail_ping e s
           else (s, [], None))
      | TailInt \<Rightarrow> (s, [], Some (TailCode 0))
      | TailTerm \<Rightarrow> (s, [], Some (TailCode 1))
      | TailHup \<Rightarrow> (s, [], Some (TailCode 1)))"

fun tail_relay :: "Sink \<Rightarrow> (TailEnv \<times> TailEvent) list \<Rightarrow> Tail \<Rightarrow> TailStep" where
  "tail_relay sk [] s = (s, [], None)"
| "tail_relay sk ((e, ev) # evs) s =
     (case tail_step sk e ev s of
        (s, outs, None) \<Rightarrow> (case tail_relay sk evs s of (s, outs', exit) \<Rightarrow> (s, outs @ outs', exit))
      | (s, outs, Some exit) \<Rightarrow> (s, outs, Some exit))"

section \<open>Reconnecting\<close>

record TailReconnect =
  tr_started :: nat
  tr_socket_gone :: PersistenceGate
  tr_daemon_gone :: PersistenceGate
  tr_was_offline :: bool
  tr_chrome :: bool
  tr_spin :: u64

definition tail_reconnect_new :: "nat \<Rightarrow> TailReconnect" where
  "tail_reconnect_new now =
     \<lparr>tr_started = now, tr_socket_gone = gate_new SOCKET_GONE_GRACE, tr_daemon_gone = gate_new DAEMON_GONE_GRACE,
      tr_was_offline = False, tr_chrome = False, tr_spin = 0\<rparr>"

datatype TailOutcome =
    TailConnected
  | TailServerRestarted
  | TailVersionMismatch u16
  | TailHandshakeRejected rstring
  | TailSessionGone rstring
  | TailDaemonGone
  | TailRetry

datatype TailWake = Deadline | PathChanged | Interrupted | Terminated | HungUp

text \<open>
  One iteration: the ticks of the wait with the status of the path, what ended it and when, what the
  operating system and the lock show, and one attempt with its ticks.
\<close>

record TailIteration =
  ti_ticks :: "(nat \<times> bool) list"
  ti_wake :: TailWake
  ti_woken :: nat
  ti_unsatisfied :: bool
  ti_supervisor :: bool
  ti_socket_exists :: bool
  ti_timed_out :: bool
  ti_connect :: Connect
  ti_handshake :: "rstring + (u16 \<times> u32 \<times> u64)"
  ti_sent :: bool
  ti_reply :: Incoming
  ti_attempt_ticks :: "nat list"
  ti_attempted :: nat

record TailTarget =
  tt_session :: u32
  tt_server :: u64
  tt_remote :: bool

definition tail_request :: "TailTarget \<Rightarrow> Frame" where
  "tail_request tg = Frame.Tail (dec (unat (tt_session tg)))"

definition paint_tail_status ::
  "Sink \<Rightarrow> bool \<Rightarrow> ReconnectPhase \<Rightarrow> nat \<Rightarrow> TailReconnect \<Rightarrow> TailReconnect \<times> TailOut list" where
  "paint_tail_status sk show phase now r =
     (if show \<and> RECONNECT_CHROME_DELAY \<le> now - tr_started r then
        (r\<lparr>tr_chrome := True\<rparr>,
         (if tr_chrome r then [] else [TailStderr [0x0D, 0x0A]])
           @ [TailStderr (reconnect_status_line (tr_spin r) ((now - tr_started r) div SECOND) phase False)])
      else (r, []))"

fun tail_ticks ::
  "Sink \<Rightarrow> bool \<Rightarrow> bool \<Rightarrow> (nat \<times> bool) list \<Rightarrow> TailReconnect \<Rightarrow> TailReconnect \<times> TailOut list" where
  "tail_ticks sk show remote [] r = (r, [])"
| "tail_ticks sk show remote ((now, offline) # ts) r =
     (case paint_tail_status sk show (if remote \<and> offline then WaitingForNetwork else Retrying) now
             (r\<lparr>tr_spin := tr_spin r + 1\<rparr>) of
        (r, outs) \<Rightarrow> (case tail_ticks sk show remote ts r of (r, outs') \<Rightarrow> (r, outs @ outs')))"

text \<open>The attempt: whether the request went out, and its outcome (None: the timeout).\<close>

definition tail_asks :: "TailTarget \<Rightarrow> TailIteration \<Rightarrow> bool" where
  "tail_asks tg it \<longleftrightarrow>
     ti_connect it = Opened \<and>
     (case ti_handshake it of
        Inl _ \<Rightarrow> False
      | Inr (version, _, server_id) \<Rightarrow> server_id = tt_server tg \<and> version = PROTOCOL_VERSION \<and> ti_sent it)"

definition tail_attempt :: "TailTarget \<Rightarrow> TailIteration \<Rightarrow> TailOutcome option" where
  "tail_attempt tg it =
     (if ti_timed_out it then None
      else Some
        (case ti_connect it of
           Refused \<Rightarrow> (if ti_supervisor it then TailRetry else TailDaemonGone)
         | ConnectError \<Rightarrow> TailRetry
         | Opened \<Rightarrow>
             (case ti_handshake it of
                Inl msg \<Rightarrow>
                  (if is_terminal_handshake_err msg (ti_supervisor it) then TailHandshakeRejected msg else TailRetry)
              | Inr (version, _, server_id) \<Rightarrow>
                  (if server_id \<noteq> tt_server tg then TailServerRestarted
                   else if version \<noteq> PROTOCOL_VERSION then TailVersionMismatch version
                   else if \<not> ti_sent it then TailRetry
                   else
                     (case ti_reply it of
                        Frm f \<Rightarrow>
                          (case f of
                             OkFrame \<Rightarrow> TailConnected
                           | Frame.Error _ message \<Rightarrow> TailSessionGone message
                           | _ \<Rightarrow> TailRetry)
                      | _ \<Rightarrow> TailRetry)))))"

datatype TailVerdict = TailResumed | TailQuit i32

definition bail_tail :: "Sink \<Rightarrow> rstring \<Rightarrow> TailReconnect \<Rightarrow> TailReconnect \<times> TailOut list \<times> TailVerdict option" where
  "bail_tail sk text r = (r, [TailStderr (terminal_err_line sk text (tr_chrome r))], Some (TailQuit 1))"

definition version_mismatch_text :: "u16 \<Rightarrow> rstring" where
  "version_mismatch_text remote =
     ascii ''protocol version mismatch (local='' @ dec (unat PROTOCOL_VERSION) @ ascii '' remote='' @ dec (unat remote)
       @ ascii '') -- run `gritty refresh <host>` ''
       @ ascii ''(if the remote runs an older gritty release, `gritty bootstrap <host>` first)''"

definition after_tail_attempt ::
  "Sink \<Rightarrow> TailTarget \<Rightarrow> TailIteration \<Rightarrow> TailOutcome option \<Rightarrow> TailReconnect
     \<Rightarrow> TailReconnect \<times> TailOut list \<times> TailVerdict option" where
  "after_tail_attempt sk tg it a r =
     (case a of
        None \<Rightarrow> (r\<lparr>tr_daemon_gone := gate_reset (tr_daemon_gone r)\<rparr>, [], None)
      | Some TailRetry \<Rightarrow> (r\<lparr>tr_daemon_gone := gate_reset (tr_daemon_gone r)\<rparr>, [], None)
      | Some TailConnected \<Rightarrow>
          (r, if tr_chrome r then [TailStderr ([0x0D, 0x1B] @ ascii ''[K'')] else [], Some TailResumed)
      | Some TailServerRestarted \<Rightarrow> bail_tail sk (ascii ''server restarted -- session is gone; reconnect manually'') r
      | Some (TailVersionMismatch remote) \<Rightarrow> bail_tail sk (version_mismatch_text remote) r
      | Some (TailHandshakeRejected msg) \<Rightarrow> bail_tail sk msg r
      | Some (TailSessionGone message) \<Rightarrow> bail_tail sk (ascii ''session gone: '' @ message) r
      | Some TailDaemonGone \<Rightarrow>
          (case gate_exceeded True (ti_attempted it) (tr_daemon_gone r) of
             (g, over) \<Rightarrow>
               (let r = r\<lparr>tr_daemon_gone := g\<rparr>
                in if over then bail_tail sk (daemon_gone_message (tt_remote tg)) r else (r, [], None))))"

text \<open>The part of an iteration after the wait.\<close>

definition tail_try ::
  "Sink \<Rightarrow> TailTarget \<Rightarrow> bool \<Rightarrow> TailIteration \<Rightarrow> TailReconnect \<Rightarrow> TailReconnect \<times> TailOut list \<times> TailVerdict option" where
  "tail_try sk tg show it r =
     (if tt_remote tg \<and> ti_unsatisfied it then (r\<lparr>tr_was_offline := True\<rparr>, [], None)
      else
        (let r = (if tr_was_offline r then r\<lparr>tr_was_offline := False, tr_started := ti_woken it\<rparr> else r);
             gone = (\<not> ti_socket_exists it \<and> \<not> ti_supervisor it);
             (g, over) = gate_exceeded gone (ti_woken it) (tr_socket_gone r);
             r = r\<lparr>tr_socket_gone := g\<rparr>
         in if over then
              bail_tail sk (ascii ''server socket gone -- session is unreachable; reconnect manually'') r
            else if gone then (r, [], None)
            else
              (case tail_ticks sk show False (map (\<lambda>t. (t, False)) (ti_attempt_ticks it)) r of
                 (r, outs) \<Rightarrow>
                   (case after_tail_attempt sk tg it (tail_attempt tg it) r of
                      (r, outs', v) \<Rightarrow>
                        (r, (if tail_asks tg it then [TailSend (tail_request tg)] else []) @ outs @ outs', v)))))"

definition tail_reconnect_step ::
  "Sink \<Rightarrow> TailTarget \<Rightarrow> bool \<Rightarrow> TailIteration \<Rightarrow> TailReconnect \<Rightarrow> TailReconnect \<times> TailOut list \<times> TailVerdict option" where
  "tail_reconnect_step sk tg show it r =
     (case tail_ticks sk show (tt_remote tg) (ti_ticks it) r of
        (r, outs) \<Rightarrow>
          (case ti_wake it of
             Interrupted \<Rightarrow> (r, outs, Some (TailQuit 0))
           | Terminated \<Rightarrow> (r, outs, Some (TailQuit 1))
           | HungUp \<Rightarrow> (r, outs, Some (TailQuit 1))
           | _ \<Rightarrow> (case tail_try sk tg show it r of (r, outs', v) \<Rightarrow> (r, outs @ outs', v))))"

fun tail_reconnect ::
  "Sink \<Rightarrow> TailTarget \<Rightarrow> bool \<Rightarrow> TailIteration list \<Rightarrow> TailReconnect \<Rightarrow> TailReconnect \<times> TailOut list \<times> TailVerdict option" where
  "tail_reconnect sk tg show [] r = (r, [], None)"
| "tail_reconnect sk tg show (it # its) r =
     (case tail_reconnect_step sk tg show it r of
        (r, outs, None) \<Rightarrow> (case tail_reconnect sk tg show its r of (r, outs', v) \<Rightarrow> (r, outs @ outs', v))
      | (r, outs, Some v) \<Rightarrow> (r, outs, Some v))"

section \<open>The command\<close>

text \<open>
  A run: the events of one connection, when its reconnect loop starts, the iterations of that loop, and
  when the next connection starts (the wall clock).  It is still going, has returned a code or an error.
\<close>

type_synonym TailScript = "((TailEnv \<times> TailEvent) list \<times> nat \<times> TailIteration list \<times> nat) list"

datatype TailEnd = TailGoing | TailReturned i32 | TailFailed

definition tail_finish :: "Tail \<Rightarrow> i32 \<Rightarrow> TailOut list \<times> TailEnd" where
  "tail_finish s code =
     ([TailStdout (terminal_handback_sequence (in_alternate_screen (tl_alt s)))], TailReturned code)"

fun tail_run :: "Sink \<Rightarrow> TailTarget \<Rightarrow> TailScript \<Rightarrow> Tail \<Rightarrow> TailOut list \<times> TailEnd" where
  "tail_run sk tg [] s = ([], TailGoing)"
| "tail_run sk tg ((evs, lost_at, its, back_at) # rest) s =
     (case tail_relay sk evs s of
        (s, outs, None) \<Rightarrow> (outs, TailGoing)
      | (s, outs, Some TailIoFailed) \<Rightarrow> (outs, TailFailed)
      | (s, outs, Some (TailCode code)) \<Rightarrow> (case tail_finish s code of (outs', e) \<Rightarrow> (outs @ outs', e))
      | (s, outs, Some TailLost) \<Rightarrow>
          (case tail_reconnect sk tg (\<not> in_alternate_screen (tl_alt s)) its (tail_reconnect_new lost_at) of
             (_, outs', None) \<Rightarrow> (outs @ outs', TailGoing)
           | (_, outs', Some (TailQuit code)) \<Rightarrow>
               (case tail_finish s code of (outs'', e) \<Rightarrow> (outs @ outs' @ outs'', e))
           | (_, outs', Some TailResumed) \<Rightarrow>
               (case tail_run sk tg rest (s\<lparr>tl_active := back_at\<rparr>) of
                  (outs'', e) \<Rightarrow> (outs @ outs' @ outs'', e))))"

definition tail_new :: "nat \<Rightarrow> nat \<Rightarrow> Tail" where
  "tail_new w m = \<lparr>tl_active = w, tl_outbound = m, tl_alt = alt_new\<rparr>"

text \<open>
  \<open>tail_session\<close>: the session of the listing, then the answer to the first request.  What it says,
  whether it tails, and the error otherwise.
\<close>

definition tail_answer :: "Sink \<Rightarrow> rstring \<Rightarrow> (Frame option \<Rightarrow> rstring) \<Rightarrow> Incoming \<Rightarrow> rstring + rstring" where
  "tail_answer sk shown debug reply =
     (case expect_from reply of
        Inl err \<Rightarrow> Inl err
      | Inr f \<Rightarrow>
          (case f of
             OkFrame \<Rightarrow> Inr (ascii ''tailing '' @ shown @ ascii '' (read-only)'')
           | Frame.Error _ message \<Rightarrow> Inl message
           | _ \<Rightarrow> Inl (ascii ''unexpected response from server: '' @ debug (Some f))))"

end
