(* ===== verification/Tail_Proofs.thy ===== *)
theory Tail_Proofs
  imports Tail Term_Modes_Proofs Client_Reconnect_Proofs
begin

text \<open>
  What a run of \<open>gritty tail\<close> shows and sends: the session's output and nothing else, then the sequence
  that hands the terminal back; pings and requests for the one session.  When its reconnect loop gives
  up.  And where its last words go.
\<close>

section \<open>Reading the log\<close>

definition shown_of :: "TailOut list \<Rightarrow> byte list" where
  "shown_of outs = concat (map (\<lambda>x. case x of TailStdout b \<Rightarrow> b | _ \<Rightarrow> []) outs)"

definition got_data_of :: "TailOut list \<Rightarrow> byte list" where
  "got_data_of outs = concat (map (\<lambda>x. case x of TailGot (Data b) \<Rightarrow> b | _ \<Rightarrow> []) outs)"

definition sends_of :: "TailOut list \<Rightarrow> Frame set" where
  "sends_of outs = {f. TailSend f \<in> set outs}"

lemma log_simps [simp]:
  "shown_of [] = []" "got_data_of [] = []" "sends_of [] = {}"
  "shown_of (xs @ ys) = shown_of xs @ shown_of ys" "got_data_of (xs @ ys) = got_data_of xs @ got_data_of ys"
  "sends_of (xs @ ys) = sends_of xs \<union> sends_of ys"
  by (auto simp: shown_of_def got_data_of_def sends_of_def)

lemma log_Cons:
  "shown_of (x # xs) = (case x of TailStdout b \<Rightarrow> b | _ \<Rightarrow> []) @ shown_of xs"
  "got_data_of (x # xs) = (case x of TailGot (Data b) \<Rightarrow> b | _ \<Rightarrow> []) @ got_data_of xs"
  "sends_of (x # xs) = (case x of TailSend f \<Rightarrow> {f} | _ \<Rightarrow> {}) \<union> sends_of xs"
  by (auto simp: shown_of_def got_data_of_def sends_of_def split: TailOut.split)

text \<open>A log that shows nothing and gets nothing: everything in a reconnect loop.\<close>

definition aside :: "Frame \<Rightarrow> TailOut list \<Rightarrow> bool" where
  "aside req outs \<longleftrightarrow> (\<forall>x \<in> set outs. case x of TailStderr _ \<Rightarrow> True | TailSend f \<Rightarrow> f = req | _ \<Rightarrow> False)"

lemma aside_simps [simp]:
  "aside req []" "aside req (xs @ ys) \<longleftrightarrow> aside req xs \<and> aside req ys"
  "aside req (TailStderr t # xs) \<longleftrightarrow> aside req xs" "aside req (TailSend f # xs) \<longleftrightarrow> f = req \<and> aside req xs"
  by (auto simp: aside_def)

lemma aside_log:
  assumes "aside req outs"
  shows "shown_of outs = []" "got_data_of outs = []" "sends_of outs \<subseteq> {req}"
  using assms by (induction outs) (auto simp: log_Cons aside_def split: TailOut.splits)

section \<open>The relay\<close>

text \<open>What a step of the relay logs, from the state it starts in.\<close>

definition relayed :: "Tail \<Rightarrow> TailStep \<Rightarrow> bool" where
  "relayed s x =
     (case x of (s', outs, exit) \<Rightarrow>
        tl_alt s' = alt_scan (tl_alt s) (got_data_of outs) \<and> sends_of outs \<subseteq> {Ping}
        \<and> (exit \<noteq> Some TailIoFailed \<longrightarrow> shown_of outs = got_data_of outs)
        \<and> (\<forall>c. TailGot (Exit c) \<in> set outs \<longrightarrow> exit = Some (TailCode c)))"

lemma alt_scan_Nil [simp]: "alt_scan a [] = a"
  by (simp add: alt_scan_def)

lemma relayed_step: "relayed s (tail_step sk e ev s)"
  by (auto simp: relayed_def tail_step_def tail_ping_def tail_frame_def log_Cons Let_def
      split: TailEvent.splits FromServer.splits Frame.splits)

lemma relayed_relay: "relayed s (tail_relay sk evs s)"
proof (induction evs arbitrary: s)
  case (Cons x evs)
  obtain e ev where x: "x = (e, ev)" by (cases x)
  obtain s' outs exit where st: "tail_step sk e ev s = (s', outs, exit)" by (metis prod.exhaust)
  obtain s'' outs' exit' where rest: "tail_relay sk evs s' = (s'', outs', exit')" by (metis prod.exhaust)
  show ?case
    using relayed_step [of s sk e ev] Cons.IH [of s'] unfolding st rest x
    by (cases exit) (auto simp: st rest relayed_def alt_tracker.scan_append)
qed (simp add: relayed_def)

section \<open>The reconnect loop\<close>

lemma aside_paint: "aside req (snd (paint_tail_status sk vis phase now r))"
  by (simp add: paint_tail_status_def)

lemma aside_ticks: "aside req (snd (tail_ticks sk vis remote ts r))"
proof (induction ts arbitrary: r)
  case (Cons t ts)
  then show ?case
    using aside_paint by (cases t) (auto simp: split_beta)
qed simp

lemma aside_bail [simp]: "aside req (fst (snd (bail_tail sk text r)))"
  by (simp add: bail_tail_def)

lemma aside_after: "aside req (fst (snd (after_tail_attempt sk tg it a r)))"
  by (simp add: after_tail_attempt_def Let_def split_beta split: option.split TailOutcome.split)

lemma aside_try: "aside (tail_request tg) (fst (snd (tail_try sk tg vis it r)))"
  by (simp add: tail_try_def Let_def split_beta aside_after aside_ticks)

lemma aside_step: "aside (tail_request tg) (fst (snd (tail_reconnect_step sk tg vis it r)))"
proof -
  obtain r' outs where t: "tail_ticks sk vis (tt_remote tg) (ti_ticks it) r = (r', outs)" by (metis prod.exhaust)
  have "aside (tail_request tg) outs"
    using aside_ticks [of "tail_request tg" sk vis "tt_remote tg" "ti_ticks it" r] t by simp
  then show ?thesis
    using aside_try [of tg sk vis it r']
    by (cases "ti_wake it") (auto simp: tail_reconnect_step_def t split_beta)
qed

lemma aside_reconnect: "tail_reconnect sk tg vis its r = (r', outs, v) \<Longrightarrow> aside (tail_request tg) outs"
proof (induction its arbitrary: r r' outs v)
  case (Cons it its)
  obtain r1 o1 v1 where s: "tail_reconnect_step sk tg vis it r = (r1, o1, v1)" by (metis prod.exhaust)
  with aside_step [of tg sk vis it r] have "aside (tail_request tg) o1" by simp
  with Cons.prems Cons.IH [of r1] show ?case
    by (cases v1) (auto simp: s split: prod.splits)
qed simp

section \<open>Whole runs\<close>

definition windowed :: "Frame \<Rightarrow> AltScreenTracker \<Rightarrow> TailOut list \<times> TailEnd \<Rightarrow> bool" where
  "windowed req alt x =
     (case x of (outs, e) \<Rightarrow>
        sends_of outs \<subseteq> {Ping, req}
        \<and> (\<forall>c. TailGot (Exit c) \<in> set outs \<longrightarrow> e = TailReturned c \<or> e = TailFailed)
        \<and> (e = TailGoing \<longrightarrow> shown_of outs = got_data_of outs)
        \<and> (\<forall>c. e = TailReturned c \<longrightarrow>
             shown_of outs = got_data_of outs
               @ terminal_handback_sequence (in_alternate_screen (alt_scan alt (got_data_of outs)))))"

lemma aside_no_frame: "aside req outs \<Longrightarrow> TailGot f \<notin> set outs"
  by (auto simp: aside_def)

lemma windowed_run: "windowed (tail_request tg) (tl_alt s) (tail_run sk tg script s)"
proof (induction script arbitrary: s)
  case Nil
  then show ?case by (simp add: windowed_def)
next
  case (Cons p rest)
  obtain evs lost its again where p: "p = (evs, lost, its, again)" by (cases p)
  obtain s' outs exit where rel: "tail_relay sk evs s = (s', outs, exit)" by (metis prod.exhaust)
  have r: "relayed s (s', outs, exit)" using relayed_relay [of s sk evs] by (simp add: rel)
  show ?case
  proof (cases exit)
    case None
    with r show ?thesis by (auto simp: p rel windowed_def relayed_def)
  next
    case (Some x)
    show ?thesis
    proof (cases x)
      case (TailCode c)
      with r Some show ?thesis
        by (auto simp: p rel windowed_def relayed_def tail_finish_def log_Cons)
    next
      case TailIoFailed
      with r Some show ?thesis by (auto simp: p rel windowed_def relayed_def)
    next
      case TailLost
      let ?vis = "\<not> in_alternate_screen (tl_alt s')"
      obtain r' outs' v where rec: "tail_reconnect sk tg ?vis its (tail_reconnect_new lost) = (r', outs', v)"
        by (metis prod.exhaust)
      note quiet = aside_reconnect [OF rec]
      note log = aside_log [OF quiet] aside_no_frame [OF quiet]
      show ?thesis
      proof (cases v)
        case None
        with r Some TailLost log rec show ?thesis by (auto simp: p rel windowed_def relayed_def)
      next
        case (Some w)
        show ?thesis
        proof (cases w)
          case TailResumed
          let ?s = "s'\<lparr>tl_active := again\<rparr>"
          obtain outs'' e where go: "tail_run sk tg rest ?s = (outs'', e)" by (metis prod.exhaust)
          have "windowed (tail_request tg) (tl_alt s') (outs'', e)" using Cons.IH [of ?s] by (simp add: go)
          with r \<open>exit = Some x\<close> TailLost Some TailResumed log rec go show ?thesis
            by (auto simp: p rel windowed_def relayed_def alt_tracker.scan_append)
        next
          case (TailQuit c)
          with r \<open>exit = Some x\<close> TailLost Some log rec show ?thesis
            by (auto simp: p rel windowed_def relayed_def tail_finish_def log_Cons)
        qed
      qed
    qed
  qed
qed

text \<open>The sequence leaves the alternate screen, whatever the stream broke off in.\<close>

lemma handback_main_screen:
  fixes before :: "byte list"
  defines "a \<equiv> alt_scan alt_new before"
  shows "\<not> in_alternate_screen (alt_scan a (terminal_handback_sequence (in_alternate_screen a)))"
proof -
  have leave: "\<not> in_alt (alt_scan a leave_alt_screen)"
  proof -
    have "leave_alt_screen = private_sequence [1049] 0x6C"
      by (simp add: leave_alt_screen_def private_sequence_def) code_simp
    moreover have "\<not> in_alternate_screen (alt_scan a (private_sequence [1049] 0x6C))"
      unfolding a_def by (subst alt_screen_follows_sequence) (simp_all add: is_alt_mode_def)
    ultimately show ?thesis by (simp add: in_alternate_screen_def)
  qed
  have reset: "in_alt (alt_scan (alt_scan b [0x1B]) [0x5B, 0x30, 0x6D]) = in_alt b" for b
    by (simp add: alt_scan_def scan_step_def Let_def split_beta)
  have split: "terminal_handback_sequence live = (if live then leave_alt_screen else [])
      @ ([0x1B] @ ascii ''[0m'') @ default_mode_sequence" for live
    by (simp add: terminal_handback_sequence_def)
  show ?thesis
    using leave alt_scanner_length [of before]
    by (simp add: split alt_tracker.scan_append in_alternate_screen_def default_mode_sequence_def sync_sequence_alt
        alt_scan_length reset a_def [symmetric] del: append_Cons)
qed

text \<open>
  C27. \<open>gritty tail\<close> is a window on the session and nothing more, over any number of connections, whatever
  the server sends: what it sends is pings and the request for the one session; while it runs, its standard
  output is the data of the frames it got, byte for byte; when it returns, that followed by the sequence
  that hands the terminal back, after which the terminal is on its main screen whatever the session left it
  in; and when the session has exited, the command returns the session's code (or standard output failed).
\<close>

theorem tail_is_a_window:
  assumes "tail_run sk tg script (tail_new w m) = (outs, e)"
  shows "sends_of outs \<subseteq> {Ping, tail_request tg}
    \<and> (e = TailGoing \<longrightarrow> shown_of outs = got_data_of outs)
    \<and> (\<forall>c. e = TailReturned c \<longrightarrow>
         shown_of outs = got_data_of outs
           @ terminal_handback_sequence (in_alternate_screen (alt_scan alt_new (got_data_of outs)))
         \<and> \<not> in_alternate_screen (alt_scan alt_new (shown_of outs)))
    \<and> (\<forall>c. TailGot (Exit c) \<in> set outs \<longrightarrow> e = TailReturned c \<or> e = TailFailed)"
  using windowed_run [of tg "tail_new w m" sk script] handback_main_screen [of "got_data_of outs"] assms
  by (simp add: windowed_def tail_new_def alt_tracker.scan_append)

text \<open>A full-screen program is shown, one connection is lost and taken up, and the program's session exits.\<close>

definition plain_sink :: Sink where
  "plain_sink = \<lparr>sk_marker = MARKER_ASCII, sk_colored = False, sk_strip = (\<lambda>s. s)\<rparr>"

definition tail_env :: TailEnv where
  "tail_env = \<lparr>te_wall = 0, te_mono = 0, te_link_up = True, te_stdout_ok = True\<rparr>"

definition back_online :: TailIteration where
  "back_online =
     \<lparr>ti_ticks = [], ti_wake = Deadline, ti_woken = SECOND, ti_unsatisfied = False, ti_supervisor = True,
      ti_socket_exists = True, ti_timed_out = False, ti_connect = Opened,
      ti_handshake = Inr (PROTOCOL_VERSION, 0, 7), ti_sent = True, ti_reply = Frm OkFrame,
      ti_attempt_ticks = [], ti_attempted = SECOND\<rparr>"

definition lost_and_found :: TailScript where
  "lost_and_found =
     [([(tail_env, TailFrame (Got (Data (private_sequence [1049] 0x68)))), (tail_env, TailFrame StreamEnd)],
       0, [back_online], 0),
      ([(tail_env, TailFrame (Got (Exit 3)))], 0, [], 0)]"

theorem tail_is_a_window_witness:
  "let x = tail_run plain_sink \<lparr>tt_session = 4, tt_server = 7, tt_remote = True\<rparr> lost_and_found (tail_new 0 0)
   in snd x = TailReturned 3 \<and> \<not> in_alternate_screen (alt_scan alt_new (shown_of (fst x)))"
proof -
  let ?tg = "\<lparr>tt_session = 4, tt_server = 7, tt_remote = True\<rparr>"
  let ?x = "tail_run plain_sink ?tg lost_and_found (tail_new 0 0)"
  have "snd ?x = TailReturned 3"
    by (simp add: lost_and_found_def tail_step_def tail_frame_def tail_finish_def tail_env_def back_online_def
        tail_reconnect_step_def tail_try_def after_tail_attempt_def tail_attempt_def tail_reconnect_new_def
        gate_exceeded_def Let_def split_beta)
  then obtain outs where x: "?x = (outs, TailReturned 3)" by (metis prod.collapse)
  from tail_is_a_window [OF x] have "\<not> in_alternate_screen (alt_scan alt_new (shown_of outs))" by blast
  with x show ?thesis by (simp add: Let_def)
qed

section \<open>When it gives up\<close>

text \<open>What a server has said of the session.\<close>

definition tail_spoken :: "TailOutcome \<Rightarrow> bool" where
  "tail_spoken a =
     (case a of
        TailHandshakeRejected msg \<Rightarrow> starts_with msg (ascii ''handshake rejected'')
      | TailDaemonGone \<Rightarrow> False
      | TailRetry \<Rightarrow> False
      | TailConnected \<Rightarrow> False
      | _ \<Rightarrow> True)"

text \<open>
  As the attached client, a tail never gives up a living tunnel: while the supervisor holds its lock an
  iteration ends the command only on a signal or on a server's answer.
\<close>

theorem supervised_tail_keeps_trying:
  assumes "ti_supervisor it" and "tail_reconnect_step sk tg vis it r = (r', outs, Some (TailQuit c))"
  shows "ti_wake it \<in> {Interrupted, Terminated, HungUp} \<or> (\<exists>a. tail_attempt tg it = Some a \<and> tail_spoken a)"
proof -
  have quit: "\<exists>a. tail_attempt tg it = Some a \<and> tail_spoken a"
    if "snd (snd (after_tail_attempt sk tg it (tail_attempt tg it) r1)) = Some (TailQuit c)" for r1
  proof -
    have "tail_attempt tg it \<noteq> Some TailDaemonGone"
      using assms(1)
      by (auto simp: tail_attempt_def split: Connect.split sum.split Incoming.split Frame.split)
    moreover have "starts_with msg (ascii ''handshake rejected'')"
      if "tail_attempt tg it = Some (TailHandshakeRejected msg)" for msg
      using that assms(1)
      by (auto simp: tail_attempt_def is_terminal_handshake_err_def
          split: if_splits Connect.splits sum.splits Incoming.splits Frame.splits)
    ultimately show ?thesis
      using that by (auto simp: after_tail_attempt_def tail_spoken_def split: option.splits TailOutcome.splits)
  qed
  have tried: "\<exists>a. tail_attempt tg it = Some a \<and> tail_spoken a"
    if "snd (snd (tail_try sk tg vis it r1)) = Some (TailQuit c)" for r1
    using that assms(1) quit by (auto simp: tail_try_def gate_exceeded_def Let_def split_beta split: if_splits)
  show ?thesis
    using assms(2) tried by (cases "ti_wake it") (auto simp: tail_reconnect_step_def split_beta)
qed

section \<open>Its last words\<close>

text \<open>
  The doc of \<open>terminal_err_line\<close> leaves it to its caller to leave the alternate screen first, as the
  attached client does (\<open>farewell\<close>).  Tail does not: while a full-screen program is shown, what it says at
  its end is painted on the alternate screen, which the sequence that follows at once takes away.
\<close>

theorem tail_last_words_lost:
  assumes "in_alternate_screen (alt_scan alt_new bytes)"
  shows "tail_run sk tg [([(\<lparr>te_wall = w, te_mono = m, te_link_up = up, te_stdout_ok = True\<rparr>, TailFrame (Got (Data bytes))),
             (e, TailFrame (Got ServerShutdown))], lost, its, again)] (tail_new w m)
    = ([TailGot (Data bytes), TailStdout bytes, TailGot ServerShutdown,
        TailStderr (terminal_err_line sk (ascii ''server shut down -- session is gone'') False),
        TailStdout (leave_alt_screen @ [0x1B] @ ascii ''[0m'' @ default_mode_sequence)], TailReturned 1)"
  using assms
  by (simp add: tail_step_def tail_frame_def tail_finish_def tail_new_def terminal_handback_sequence_def Let_def
      del: ascii_simps)

end
