(* ===== verification/Session_Commands.thy ===== *)
theory Session_Commands
  imports Connect Mark_Picker
begin

text \<open>
  The commands that end and rename sessions, from \<open>src/src/commands/session.rs\<close>: \<open>kill-session\<close>, \<open>prune\<close>,
  \<open>rename\<close> and \<open>kill-server\<close>, as commands over the environment of the theory Connect.  The text of an
  error of the connection is the system's and left out.  The calendar of the tables is a parameter.
\<close>

text \<open>A command that yields what went wrong, if anything, for its caller to report.\<close>

type_synonym 'w attempt = "('w, rstring option) command"

definition unexpected_text :: "'w ConnEnv \<Rightarrow> Frame option \<Rightarrow> rstring" where
  "unexpected_text env f = ascii ''unexpected response from server: '' @ cn_debug env f"

section \<open>Suggestions\<close>

text \<open>\<open>suggestion_message\<close>: None is a panic of the table.\<close>

definition suggestion_message ::
  "(rstring \<Rightarrow> nat) \<Rightarrow> (u64 \<Rightarrow> rstring) \<Rightarrow> rstring \<Rightarrow> rstring \<Rightarrow> SessionEntry list \<Rightarrow> rstring \<Rightarrow> u64 \<Rightarrow> rstring option" where
  "suggestion_message w timestamp cmd host ss client now =
     map_option
       (\<lambda>ls. ascii ''specify a session: gritty '' @ cmd @ ascii '' '' @ host @ ascii '':<name>''
              @ concat (map (\<lambda>l. [0x0A] @ ascii ''  '' @ l) ls))
       (format_table w (table_headers False)
         (map (\<lambda>(s, _). table_row timestamp s now client False) (order_sessions ss client)))"

definition suggest_session ::
  "'w ConnEnv \<Rightarrow> (u64 \<Rightarrow> rstring) \<Rightarrow> rstring \<Rightarrow> rstring \<Rightarrow> ('w, 'a) command" where
  "suggest_session env timestamp cmd host =
     seq (request env ListSessions) (\<lambda>r w.
       (case r of
          Some (SessionInfo ss) \<Rightarrow>
            (if ss = [] then stop (Failed (ascii ''no active sessions on '' @ host))
             else
               (case suggestion_message (cn_width env) timestamp cmd host ss (cn_client env) (cn_now env w) of
                  Some msg \<Rightarrow> stop (Failed msg)
                | None \<Rightarrow> stop PickerPanic))
        | _ \<Rightarrow> stop (Failed (ascii ''specify a session: gritty '' @ cmd @ ascii '' '' @ host @ ascii '':<name>''))) w)"

section \<open>Killing\<close>

definition kill_one :: "'w ConnEnv \<Rightarrow> rstring \<Rightarrow> 'w attempt" where
  "kill_one env user_session =
     (let wire = resolve_session_name user_session (cn_client env);
          shown = display_session_name wire (cn_client env)
      in seq (request env (KillSession wire)) (\<lambda>r.
           case r of
             None \<Rightarrow> give (Some [])
           | Some OkFrame \<Rightarrow>
               seq (tell Success (ascii ''session '' @ shown @ ascii '' killed'')) (\<lambda>_. give None)
           | Some (Error NoSuchSession _) \<Rightarrow> give (Some (ascii ''no such session: '' @ shown))
           | Some (Error _ message) \<Rightarrow> give (Some message)
           | other \<Rightarrow> give (Some (unexpected_text env other))))"

text \<open>\<open>kill_sessions\<close>: every host has an environment of its own; the count of failures so far.\<close>

fun kill_targets ::
  "(rstring \<Rightarrow> 'w ConnEnv) \<Rightarrow> (u64 \<Rightarrow> rstring) \<Rightarrow> ConfigFile \<Rightarrow> rstring list \<Rightarrow> bool \<Rightarrow> rstring list \<Rightarrow> nat
     \<Rightarrow> ('w, nat) command" where
  "kill_targets host_env timestamp cfg tunnels lone [] failed = give failed"
| "kill_targets host_env timestamp cfg tunnels lone (target # targets) failed =
     (case parse_kill_target cfg target tunnels of
        HostOnly host \<Rightarrow> suggest_session (host_env host) timestamp (ascii ''kill-session'') host
      | OnHost host session \<Rightarrow>
          seq (kill_one (host_env host) session) (\<lambda>r.
            case r of
              None \<Rightarrow> kill_targets host_env timestamp cfg tunnels lone targets failed
            | Some err \<Rightarrow>
                if lone then stop (Failed err)
                else
                  seq (tell Failure (target @ ascii '': '' @ err)) (\<lambda>_.
                    kill_targets host_env timestamp cfg tunnels lone targets (failed + 1))))"

definition failed_to_kill :: "nat \<Rightarrow> nat \<Rightarrow> ('w, unit) command" where
  "failed_to_kill failed n =
     (if 0 < failed
      then stop (Failed (ascii ''failed to kill '' @ dec failed @ ascii '' of '' @ count_text n (ascii ''session'')))
      else give ())"

definition kill_sessions ::
  "(rstring \<Rightarrow> 'w ConnEnv) \<Rightarrow> (u64 \<Rightarrow> rstring) \<Rightarrow> ConfigFile \<Rightarrow> rstring list \<Rightarrow> rstring list \<Rightarrow> ('w, unit) command" where
  "kill_sessions host_env timestamp cfg tunnels targets =
     seq (kill_targets host_env timestamp cfg tunnels (length targets = 1) targets 0) (\<lambda>failed.
       failed_to_kill failed (length targets))"

section \<open>Pruning\<close>

record PruneArgs =
  pr_clients :: "rstring list"
  pr_idle :: "rstring option"
  pr_all :: bool
  pr_pick :: bool
  pr_yes :: bool

definition kill_reply_error :: "'w ConnEnv \<Rightarrow> Frame option \<Rightarrow> rstring option" where
  "kill_reply_error env r =
     (case r of
        None \<Rightarrow> Some []
      | Some OkFrame \<Rightarrow> None
      | Some (Error _ message) \<Rightarrow> Some message
      | other \<Rightarrow> Some (unexpected_text env other))"

text \<open>The loop over the victims, which goes on past failures.\<close>

fun prune_victims :: "'w ConnEnv \<Rightarrow> SessionEntry list \<Rightarrow> nat \<Rightarrow> ('w, nat) command" where
  "prune_victims env [] failed = give failed"
| "prune_victims env (s # ss) failed =
     (let shown = display_session_name (name s) (cn_client env) in
      seq (request env (KillSession (dec (unat (entry_id s))))) (\<lambda>r.
        case kill_reply_error env r of
          None \<Rightarrow>
            seq (tell Success (ascii ''session '' @ shown @ ascii '' killed'')) (\<lambda>_. prune_victims env ss failed)
        | Some text \<Rightarrow>
            seq (tell Failure (shown @ ascii '': '' @ text)) (\<lambda>_. prune_victims env ss (failed + 1))))"

text \<open>Which of the candidates to kill: those marked, all with \<open>-y\<close>, or (None) nothing at all.\<close>

definition prune_choice ::
  "'w ConnEnv \<Rightarrow> (u64 \<Rightarrow> rstring) \<Rightarrow> PruneArgs \<Rightarrow> u64 \<Rightarrow> SessionEntry list \<Rightarrow> ('w, SessionEntry list option) command" where
  "prune_choice env timestamp args now candidates =
     (if pr_pick args then
        (if \<not> cn_stderr_tty env then
           stop (Failed (ascii ''--pick requires a terminal; use --client/--idle/--all with -y instead''))
         else
           (\<lambda>w. case cn_keys env candidates w of
              (keys, w) \<Rightarrow>
                (case tui_mark_sessions (pick_env env) now candidates (map fst keys) of
                   None \<Rightarrow> ([], Inl PickerPanic, w)
                 | Some (_, _, None) \<Rightarrow> ([], Inl StillPicking, w)
                 | Some (_, _, Some None) \<Rightarrow> ([Told Detail (ascii ''aborted -- nothing killed'')], Inr None, w)
                 | Some (_, _, Some (Some marked)) \<Rightarrow> ([], Inr (Some marked), w))))
      else
        (case session_table (cn_width env) timestamp candidates now (cn_client env) False [] of
           None \<Rightarrow> stop PickerPanic
         | Some ls \<Rightarrow>
             seq (tell_all Plain ls) (\<lambda>_.
               if pr_yes args then give (Some candidates)
               else
                 seq (tell Detail (ascii ''dry run -- pass -y to kill '' @ count_text (length candidates) (ascii ''session'')))
                   (\<lambda>_. give None))))"

definition prune_listed ::
  "'w ConnEnv \<Rightarrow> (u64 \<Rightarrow> rstring) \<Rightarrow> PruneArgs \<Rightarrow> nat option \<Rightarrow> SessionEntry list \<Rightarrow> ('w, unit) command" where
  "prune_listed env timestamp args idle_secs ss = (\<lambda>w.
     (let now = cn_now env w;
          candidates = prune_candidates ss now (pr_clients args) idle_secs (pr_all args) (pr_pick args)
      in if candidates = [] then tell Plain (ascii ''nothing to prune'')
         else
           seq (prune_choice env timestamp args now candidates) (\<lambda>choice.
             case choice of
               None \<Rightarrow> give ()
             | Some victims \<Rightarrow>
                 seq (prune_victims env victims 0) (\<lambda>failed. failed_to_kill failed (length victims)))) w)"

definition prune_sessions :: "'w ConnEnv \<Rightarrow> (u64 \<Rightarrow> rstring) \<Rightarrow> PruneArgs \<Rightarrow> ('w, unit) command" where
  "prune_sessions env timestamp args =
     (case (case pr_idle args of None \<Rightarrow> Some None | Some t \<Rightarrow> map_option Some (parse_duration t)) of
        None \<Rightarrow> stop (Failed (ascii ''invalid duration''))
      | Some idle_secs \<Rightarrow>
          seq (request env ListSessions) (\<lambda>r.
            case r of
              None \<Rightarrow> stop (Failed [])
            | Some (SessionInfo ss) \<Rightarrow> prune_listed env timestamp args idle_secs ss
            | Some f \<Rightarrow> unexpected env f))"

section \<open>Renaming, and ending the server\<close>

definition rename_session :: "'w ConnEnv \<Rightarrow> rstring \<Rightarrow> rstring \<Rightarrow> ('w, unit) command" where
  "rename_session env target new_name =
     seq (if target = ascii ''-'' then resolve_last_attached env else give target) (\<lambda>target.
     seq (request env (RenameSession target new_name)) (\<lambda>r.
       case r of
         None \<Rightarrow> stop (Failed [])
       | Some OkFrame \<Rightarrow>
           tell Success (ascii ''renamed '' @ display_session_name target (cn_client env) @ ascii '' -> ''
             @ display_session_name new_name (cn_client env))
       | Some (Error _ message) \<Rightarrow> stop (Failed message)
       | Some f \<Rightarrow> unexpected env f))"

definition kill_server :: "'w ConnEnv \<Rightarrow> ('w, unit) command" where
  "kill_server env =
     seq (request env KillServer) (\<lambda>r.
       case r of
         None \<Rightarrow> stop (Failed [])
       | Some OkFrame \<Rightarrow> tell Success (ascii ''server killed'')
       | Some (Error _ message) \<Rightarrow> stop (Failed message)
       | Some f \<Rightarrow> unexpected env f)"

end
