(* ===== verification/Session_Commands_Proofs.thy ===== *)
theory Session_Commands_Proofs
  imports Session_Commands Connect_New
begin

text \<open>
  What \<open>prune\<close> asks the daemon for, whatever the daemon and the user answer, and what it leaves in the
  daemon's table.
\<close>

section \<open>Requests\<close>

definition requests_of :: "Action list \<Rightarrow> Frame list" where
  "requests_of acts = List.map_filter (\<lambda>a. case a of Requested f _ \<Rightarrow> Some f | _ \<Rightarrow> None) acts"

lemma requests_simps [simp]:
  "requests_of [] = []" "requests_of (xs @ ys) = requests_of xs @ requests_of ys"
  "requests_of (Requested f r # xs) = f # requests_of xs" "requests_of (Told tone t # xs) = requests_of xs"
  by (simp_all add: requests_of_def map_filter_simps)

lemma tell_all_told: "tell_all tone ls w = (map (Told tone) ls, Inr (), w)"
  by (induction ls arbitrary: w) (simp_all add: tell_def log_action_def seq_def give_def)

lemma requests_told [simp]: "requests_of (map (Told tone) ls) = []"
  by (induction ls) simp_all

lemma seq_request:
  "cn_request env f w = (r, w1) \<Longrightarrow>
     seq (request env f) g w = (case g r w1 of (acts, x, w2) \<Rightarrow> (Requested f r # acts, x, w2))"
  by (simp add: seq_def request_def)

text \<open>Every victim is asked for once, in order, and the loop goes on past failures.\<close>

lemma victims_requests:
  "\<exists>acts w' n. prune_victims env vs k w = (acts, Inr n, w') \<and> requests_of acts = prune_requests vs
     \<and> k \<le> n \<and> n \<le> k + length vs"
proof (induction vs arbitrary: k w)
  case Nil
  then show ?case by (simp add: give_def prune_requests_def)
next
  case (Cons s vs)
  let ?f = "KillSession (dec (unat (entry_id s)))"
  obtain r w1 where req: "cn_request env ?f w = (r, w1)" by (metis prod.exhaust)
  have go: "\<exists>acts w' n. seq (tell tone msg) (\<lambda>_. prune_victims env vs j) w1 = (acts, Inr n, w')
      \<and> requests_of acts = prune_requests vs \<and> j \<le> n \<and> n \<le> j + length vs" for tone msg j
    using Cons.IH [of j w1] by (auto simp: seq_def tell_def log_action_def)
  obtain tone msg j where j: "prune_victims env (s # vs) k w
      = (case seq (tell tone msg) (\<lambda>_. prune_victims env vs j) w1 of (acts, r', w') \<Rightarrow> (Requested ?f r # acts, r', w'))"
      "k \<le> j" "j \<le> k + 1"
  proof (cases "kill_reply_error env r")
    case None
    show ?thesis
      by (rule that [of Success "ascii ''session '' @ display_session_name (name s) (cn_client env) @ ascii '' killed''" k])
        (simp_all add: seq_request [OF req] None Let_def del: ascii_simps)
  next
    case (Some err)
    show ?thesis
      by (rule that [of Failure "display_session_name (name s) (cn_client env) @ ascii '': '' @ err" "k + 1"])
        (simp_all add: seq_request [OF req] Some Let_def del: ascii_simps)
  qed
  obtain acts w' n where "seq (tell tone msg) (\<lambda>_. prune_victims env vs j) w1 = (acts, Inr n, w')"
      "requests_of acts = prune_requests vs" "j \<le> n" "n \<le> j + length vs"
    using go by blast
  then show ?case using j
    by (intro exI [of _ "Requested ?f r # acts"] exI [of _ w'] exI [of _ n]) (simp add: prune_requests_def)
qed

section \<open>Against the daemon\<close>

lemma live_of_filter:
  assumes "table_ok (sessions d)" and "sessions d' = filter P (live e d)"
  shows "live e d' = sessions d'"
proof -
  have "table_ok (sessions d')" using live_ok [OF assms(1), of e] assms(2) by (simp add: table_ok_filter)
  moreover have "table_ok (live e d)" using assms(1) by (rule live_ok)
  ultimately show ?thesis using assms(2) live_filter [of d e] live_filter [of d' e] assms(1)
    by (auto simp: table_ok_def filter_filter case_prod_unfold intro: filter_cong)
qed

text \<open>
  A session that has closed its channel but not finished is removed too, with the answer that there is no
  such session.
\<close>

lemma kill_served:
  assumes "table_ok (sessions d)" and "sessions d = live e d" and "(i, s) \<in> set (sessions d)"
  shows "\<exists>f d'. served e caps device (KillSession (dec (unat i))) d = ([f], d')
    \<and> sessions d' = filter (\<lambda>x. fst x \<noteq> i) (sessions d) \<and> (\<not> st_closed s \<longrightarrow> f = OkFrame)"
proof -
  let ?x = "dispatch_control e (d\<lparr>sessions := live e d\<rparr>) caps device (KillSession (dec (unat i)))"
  let ?replies = "List.map_filter (\<lambda>out. case out of Reply f \<Rightarrow> Some f | _ \<Rightarrow> None) (fst (snd ?x))"
  have d: "d\<lparr>sessions := live e d\<rparr> = d" by (simp add: assms(2) [symmetric])
  have alive: "reap_sessions (sessions d) = sessions d" using reap_live [of e d] assms(2) by simp
  have "resolve_session (sessions d) (dec (unat i)) (last_attached d) = Some i" using assms(1,3) by (rule resolve_id)
  moreover have "session_of (sessions d) i = Some s" using assms(1,3) by (simp add: session_of_def table_ok_def ids_def)
  ultimately have "?replies = [if st_closed s then no_such_session (dec (unat i)) else OkFrame]"
    using alive by (simp add: d dispatch_control_def kill_session_def with_live_def resolve_live_session_def
        abort_session_def refuse_def Let_def map_filter_simps)
  moreover have "i \<in> set (ids (sessions d))" using assms(3) by (force simp: ids_def)
  ultimately show ?thesis
    using kill_by_id [OF assms(1) alive, of i e caps device] by (simp add: served_dispatch d split_beta)
qed

definition closing :: "u32 set \<Rightarrow> Sessions \<Rightarrow> bool" where
  "closing is ss \<longleftrightarrow> (\<exists>(i, s) \<in> set ss. i \<in> is \<and> st_closed s)"

lemma victims_at_daemon:
  assumes "at_daemon e caps device server env"
    and "table_ok (sessions d)" and "sessions d = live e d"
    and "distinct (map entry_id vs)" and "entry_id ` set vs \<subseteq> set (ids (sessions d))"
  shows "\<exists>d' n. ends (prune_victims env vs k) d (Inr n) d'
    \<and> sessions d' = filter (\<lambda>x. fst x \<notin> entry_id ` set vs) (sessions d)
    \<and> (\<not> closing (entry_id ` set vs) (sessions d) \<longrightarrow> n = k)"
  using assms(2-5)
proof (induction vs arbitrary: d k)
  case Nil
  then show ?case by (auto intro: ends_basic)
next
  case (Cons v vs)
  let ?i = "entry_id v"
  obtain s where s: "(?i, s) \<in> set (sessions d)" using Cons.prems(4) by (auto simp: ids_def)
  obtain f d1 where d1: "served e caps device (KillSession (dec (unat ?i))) d = ([f], d1)"
      "sessions d1 = filter (\<lambda>x. fst x \<noteq> ?i) (sessions d)" "\<not> st_closed s \<longrightarrow> f = OkFrame"
    using kill_served [OF Cons.prems(1,2) s, of caps device] by blast
  have req: "ends (request env (KillSession (dec (unat ?i)))) d (Inr (Some f)) d1"
    using assms(1) d1(1) by (simp add: at_daemon_def ends_def request_def first_of_def)
  have ok: "table_ok (sessions d1)" using Cons.prems(1) by (simp add: d1(2) table_ok_filter)
  have alive: "sessions d1 = live e d1"
    using live_of_filter [OF Cons.prems(1), of d1 "\<lambda>x. fst x \<noteq> ?i" e] d1(2) Cons.prems(2) by simp
  have sub: "entry_id ` set vs \<subseteq> set (ids (sessions d1))"
  proof
    fix i assume i: "i \<in> entry_id ` set vs"
    have "?i \<notin> entry_id ` set vs" using Cons.prems(3) by simp
    with i have "i \<noteq> ?i" by metis
    moreover have "i \<in> set (ids (sessions d))" using i Cons.prems(4) by auto
    ultimately show "i \<in> set (ids (sessions d1))" by (auto simp: d1(2) ids_def)
  qed
  define j where "j = (if kill_reply_error env (Some f) = None then k else k + 1)"
  obtain d' n where d': "ends (prune_victims env vs j) d1 (Inr n) d'"
      "sessions d' = filter (\<lambda>x. fst x \<notin> entry_id ` set vs) (sessions d1)"
      "\<not> closing (entry_id ` set vs) (sessions d1) \<longrightarrow> n = j"
    using Cons.IH [OF ok alive _ sub, of j] Cons.prems(3) by auto
  have "ends (prune_victims env (v # vs) k) d (Inr n) d'"
    unfolding prune_victims.simps Let_def
  proof (rule ends_seq [OF req], cases "kill_reply_error env (Some f)")
    case None
    show "ends (case kill_reply_error env (Some f) of
        None \<Rightarrow> seq (tell Success (ascii ''session '' @ display_session_name (name v) (cn_client env) @ ascii '' killed''))
          (\<lambda>_. prune_victims env vs k)
      | Some text \<Rightarrow> seq (tell Failure (display_session_name (name v) (cn_client env) @ ascii '': '' @ text))
          (\<lambda>_. prune_victims env vs (k + 1))) d1 (Inr n) d'"
      unfolding None option.case by (rule ends_seq [OF ends_basic(3)]) (use d'(1) None in \<open>simp add: j_def\<close>)
  next
    case (Some err)
    show "ends (case kill_reply_error env (Some f) of
        None \<Rightarrow> seq (tell Success (ascii ''session '' @ display_session_name (name v) (cn_client env) @ ascii '' killed''))
          (\<lambda>_. prune_victims env vs k)
      | Some text \<Rightarrow> seq (tell Failure (display_session_name (name v) (cn_client env) @ ascii '': '' @ text))
          (\<lambda>_. prune_victims env vs (k + 1))) d1 (Inr n) d'"
      unfolding Some option.case by (rule ends_seq [OF ends_basic(3)]) (use d'(1) Some in \<open>simp add: j_def\<close>)
  qed
  moreover have "sessions d' = filter (\<lambda>x. fst x \<notin> entry_id ` set (v # vs)) (sessions d)"
    by (simp add: d'(2) d1(2) filter_filter conj_commute)
  moreover have "n = k" if "\<not> closing (entry_id ` set (v # vs)) (sessions d)"
  proof -
    have "\<not> st_closed s" using that s by (auto simp: closing_def)
    then have "j = k" using d1(3) by (simp add: j_def kill_reply_error_def)
    moreover have "\<not> closing (entry_id ` set vs) (sessions d1)" using that by (auto simp: closing_def d1(2))
    ultimately show ?thesis using d'(3) by simp
  qed
  ultimately show ?case by blast
qed

text \<open>
  \<open>prune -y\<close> against every reachable daemon, nobody else asking in between: it leaves exactly the live
  sessions that were not selected -- every attached one among them --, and it succeeds unless a selected
  session was just closing.
\<close>

theorem prune_leaves_the_rest:
  fixes evs e
  defines "d \<equiv> fst (daemon_run daemon_start evs)"
  defines "ss \<equiv> live e d"
  assumes "at_daemon e caps device server env" and "pr_yes args" and "\<not> pr_pick args"
    and "pr_idle args = None" and "cn_now env = (\<lambda>_. now)"
  shows "case prune_sessions env timestamp args d of
      (acts, r, d') \<Rightarrow>
        sessions d' = filter (\<lambda>x. \<not> prunable now (pr_clients args) None (pr_all args) (build_entry e (last_attached d) x)) ss
        \<and> (\<not> closing (set (ids ss)) ss \<longrightarrow> r = Inr ())"
proof -
  let ?P = "prunable now (pr_clients args) None (pr_all args)"
  let ?listing = "build_session_entries e ss (last_attached d)"
  let ?vs = "filter ?P ?listing" and ?d = "d\<lparr>sessions := ss\<rparr>"
  have ok: "table_ok (sessions d)" unfolding d_def by (rule table_ok_run) (simp add: daemon_start_def table_ok_def)
  then have ok': "table_ok ss" unfolding ss_def by (rule live_ok)
  have alive: "sessions ?d = live e ?d" using ok by (simp add: ss_def)
  note sel = selected_entries [OF ok', of ?P e "last_attached d"]
  have cands: "prune_candidates ?listing now (pr_clients args) None (pr_all args) (pr_pick args) = ?vs"
    using assms(5) by (simp add: prune_candidates_def prune_filter)
  have list: "ends (request env ListSessions) d (Inr (Some (SessionInfo ?listing))) ?d"
    using ends_at_daemon(4) [OF assms(3), of d] by (simp add: ss_def)
  have left: "\<exists>d' r. ends (prune_listed env timestamp args None ?listing) ?d r d'
      \<and> sessions d' = filter (\<lambda>x. fst x \<notin> entry_id ` set ?vs) ss \<and> (\<not> closing (set (ids ss)) ss \<longrightarrow> r = Inr ())"
  proof (cases "?vs = []")
    case True
    then have "prune_listed env timestamp args None ?listing ?d = tell Plain (ascii ''nothing to prune'') ?d"
      using assms(7) cands by (simp add: prune_listed_def del: ascii_simps)
    then show ?thesis using True ends_basic(3) [of Plain "ascii ''nothing to prune''" ?d]
      by (intro exI [of _ ?d] exI [of _ "Inr ()"]) (simp add: ends_def)
  next
    case False
    obtain body where body: "session_table (cn_width env) timestamp ?vs now (cn_client env) False [] = Some body"
      using session_table_total [where w = "cn_width env" and ss = ?vs and client = "cn_client env" and full = False
          and indent = "[]" and timestamp = timestamp and now = now] False
      by (auto split: option.splits)
    have choice: "ends (prune_choice env timestamp args now ?vs) ?d (Inr (Some ?vs)) ?d"
      using assms(4,5) body by (simp add: prune_choice_def) (simp add: ends_def seq_def tell_all_told give_def)
    obtain d' n where d': "ends (prune_victims env ?vs 0) ?d (Inr n) d'"
        "sessions d' = filter (\<lambda>x. fst x \<notin> entry_id ` set ?vs) ss" "\<not> closing (entry_id ` set ?vs) ss \<longrightarrow> n = 0"
      using victims_at_daemon [OF assms(3), of ?d ?vs 0] ok' alive sel(1,2) by auto
    obtain r where r: "ends (failed_to_kill n (length ?vs)) d' r d'" "n = 0 \<longrightarrow> r = Inr ()"
      by (cases "n = 0") (auto simp: failed_to_kill_def intro: ends_basic)
    have "ends (prune_listed env timestamp args None ?listing) ?d r d'"
      using False assms(7) cands ends_seq [OF choice, of "\<lambda>choice. case choice of None \<Rightarrow> give () | Some victims \<Rightarrow>
          seq (prune_victims env victims 0) (\<lambda>failed. failed_to_kill failed (length victims))" r d']
        ends_seq [OF d'(1), of "\<lambda>failed. failed_to_kill failed (length ?vs)" r d'] r(1)
      by (simp add: prune_listed_def ends_def Let_def)
    moreover have "\<not> closing (set (ids ss)) ss \<longrightarrow> \<not> closing (entry_id ` set ?vs) ss"
      using sel(2) by (fastforce simp: closing_def)
    ultimately show ?thesis using d'(2,3) r(2) by blast
  qed
  then obtain d' r where run: "ends (prune_listed env timestamp args None ?listing) ?d r d'"
      "sessions d' = filter (\<lambda>x. fst x \<notin> entry_id ` set ?vs) ss" "\<not> closing (set (ids ss)) ss \<longrightarrow> r = Inr ()"
    by blast
  have "ends (prune_sessions env timestamp args) d r d'"
    using assms(6) ends_seq [OF list, of _ r d'] run(1) by (simp add: prune_sessions_def)
  then show ?thesis using run(2,3) sel(3) by (auto simp: ends_def)
qed

end
