(* ===== verification/Sockets.thy ===== *)
theory Sockets
  imports Strings
begin

text \<open>
  Binding a socket in the shared directory, from \<open>src/src/security.rs\<close>: the directory is made and checked
  by \<open>secure_create_dir_all\<close>; \<open>bind_unix_listener\<close> takes over a dead socket under the lock of a companion
  file, which \<open>remove_bind_lock_if_unheld\<close> takes away again.  The second part is a state of one path with
  the processes that bind it, one system call per step; a lock is held on an inode, not on a path.
\<close>

section \<open>The directory\<close>

text \<open>A file: its owner, mode, whether it is a symbolic link and whether following it gives a directory.\<close>

record Meta =
  mt_uid :: nat
  mt_mode :: nat
  mt_symlink :: bool
  mt_resolves_dir :: bool

definition mt_is_dir :: "Meta \<Rightarrow> bool" where
  "mt_is_dir m \<longleftrightarrow> \<not> mt_symlink m \<and> mt_resolves_dir m"

text \<open>A path by its components, the last one first; the root is the empty list.\<close>

type_synonym Path = "rstring list"
type_synonym Files = "Path \<Rightarrow> Meta option"

datatype DirError = Unresolved Path | Symlinked Path | NotADirectory Path | OwnedBy nat Path | SystemError Path

definition validate_dir :: "nat \<Rightarrow> Path \<Rightarrow> Files \<Rightarrow> DirError + Files" where
  "validate_dir uid path fs =
     (case fs path of
        None \<Rightarrow> Inl (SystemError path)
      | Some m \<Rightarrow>
          (if mt_uid m = 0 then (if \<not> mt_resolves_dir m then Inl (Unresolved path) else Inr fs)
           else if mt_symlink m then Inl (Symlinked path)
           else if \<not> mt_is_dir m then Inl (NotADirectory path)
           else if mt_uid m \<noteq> uid then Inl (OwnedBy (mt_uid m) path)
           else if mt_mode m mod 64 \<noteq> 0 then Inr (fs(path \<mapsto> m\<lparr>mt_mode := 448\<rparr>))
           else Inr fs))"

text \<open>
  \<open>secure_create_dir_all\<close>: the trusted roots (\<open>/\<close>, \<open>/tmp\<close>, \<open>/run\<close> and two of the environment) and whether
  the system lets a directory be made are parameters.
\<close>

fun secure_create_dir_all :: "(Path \<Rightarrow> bool) \<Rightarrow> (Path \<Rightarrow> bool) \<Rightarrow> nat \<Rightarrow> Path \<Rightarrow> Files \<Rightarrow> DirError + Files" where
  "secure_create_dir_all trusted allowed uid path fs =
     (if trusted path then Inr fs
      else
        (case (case path of [] \<Rightarrow> Inr fs | _ # parent \<Rightarrow> secure_create_dir_all trusted allowed uid parent fs) of
           Inl e \<Rightarrow> Inl e
         | Inr fs \<Rightarrow>
             (if fs path \<noteq> None then validate_dir uid path fs
              else if allowed path then
                Inr (fs(path \<mapsto> \<lparr>mt_uid = uid, mt_mode = 448, mt_symlink = False, mt_resolves_dir = True\<rparr>))
              else Inl (SystemError path))))"

declare secure_create_dir_all.simps [simp del]

text \<open>A directory nobody else can put a socket in, if the system's own are trusted.\<close>

definition private_dir :: "nat \<Rightarrow> Meta \<Rightarrow> bool" where
  "private_dir uid m \<longleftrightarrow>
     mt_resolves_dir m \<and> (mt_uid m = 0 \<or> mt_uid m = uid \<and> \<not> mt_symlink m \<and> mt_mode m mod 64 = 0)"

fun private_path :: "(Path \<Rightarrow> bool) \<Rightarrow> nat \<Rightarrow> Path \<Rightarrow> Files \<Rightarrow> bool" where
  "private_path trusted uid [] fs \<longleftrightarrow> trusted [] \<or> (\<exists>m. fs [] = Some m \<and> private_dir uid m)"
| "private_path trusted uid (c # parent) fs \<longleftrightarrow>
     trusted (c # parent)
     \<or> (\<exists>m. fs (c # parent) = Some m \<and> private_dir uid m) \<and> private_path trusted uid parent fs"

lemma private_path_longer:
  "length long > length path \<Longrightarrow> private_path trusted uid path (fs(long \<mapsto> m)) = private_path trusted uid path fs"
  by (induction path) auto

lemma validate_private:
  "validate_dir uid path fs = Inr fs' \<Longrightarrow>
     (\<exists>m. fs' path = Some m \<and> private_dir uid m) \<and> (fs' = fs \<or> (\<exists>m. fs' = fs(path \<mapsto> m)))"
  by (auto simp: validate_dir_def private_dir_def mt_is_dir_def split: option.splits if_splits)

text \<open>
  When the directory has been made or accepted, every component of its path below the nearest trusted root
  is a directory of the system or of the user alone.
\<close>

theorem created_dir_is_private:
  "secure_create_dir_all trusted allowed uid path fs = Inr fs' \<Longrightarrow> private_path trusted uid path fs'"
proof (induction path arbitrary: fs')
  case Nil
  then show ?case
    by (subst (asm) secure_create_dir_all.simps)
      (auto simp: private_dir_def split: if_splits dest!: validate_private)
next
  case (Cons c parent)
  show ?case
  proof (cases "trusted (c # parent)")
    case False
    then obtain fs1 where fs1: "secure_create_dir_all trusted allowed uid parent fs = Inr fs1"
        "(if fs1 (c # parent) \<noteq> None then validate_dir uid (c # parent) fs1
          else if allowed (c # parent) then
            Inr (fs1(c # parent \<mapsto> \<lparr>mt_uid = uid, mt_mode = 448, mt_symlink = False, mt_resolves_dir = True\<rparr>))
          else Inl (SystemError (c # parent))) = Inr fs'"
      using Cons.prems by (subst (asm) secure_create_dir_all.simps) (auto split: sum.splits)
    have parent: "private_path trusted uid parent fs1" by (rule Cons.IH [OF fs1(1)])
    have "\<exists>m. fs' (c # parent) = Some m \<and> private_dir uid m" "fs' = fs1 \<or> (\<exists>m. fs' = fs1(c # parent \<mapsto> m))"
      using fs1(2) by (auto simp: private_dir_def split: if_splits dest: validate_private)
    then show ?thesis using parent private_path_longer [of parent "c # parent" trusted uid fs1] by auto
  qed simp
qed

section \<open>The bind lock\<close>

text \<open>
  Where a process is: binding (it has opened the lock file, holds its lock, found the address in use, found
  the socket dead, has removed it, has bound, has failed with the lock still held), listening, or removing
  the lock file (opened, locked, unlinked).
\<close>

datatype BindPc =
    BOut
  | BOpened nat
  | BLocked nat
  | BInUse nat
  | BDead nat
  | BCleared nat
  | BBound nat
  | BFailed nat
  | BListening
  | ROpened nat
  | RLocked nat
  | RUnlinked nat

text \<open>One path: its lock file, the locks, the listener its socket belongs to, and the listeners still open.\<close>

record SocketPath =
  bl_path :: "nat option"
  bl_next :: nat
  bl_flocks :: "nat \<Rightarrow> nat option"
  bl_sock :: "nat option"
  bl_live :: "nat set"
  bl_pcs :: "nat \<Rightarrow> BindPc"

definition at_pc :: "nat \<Rightarrow> BindPc \<Rightarrow> SocketPath \<Rightarrow> SocketPath" where
  "at_pc p pc d = d\<lparr>bl_pcs := (bl_pcs d)(p := pc)\<rparr>"

definition unlock :: "nat \<Rightarrow> nat \<Rightarrow> BindPc \<Rightarrow> SocketPath \<Rightarrow> SocketPath" where
  "unlock p i pc d = at_pc p pc (d\<lparr>bl_flocks := (bl_flocks d)(i := None)\<rparr>)"

definition take_lock :: "nat \<Rightarrow> nat \<Rightarrow> BindPc \<Rightarrow> SocketPath \<Rightarrow> SocketPath" where
  "take_lock p i pc d = at_pc p pc (d\<lparr>bl_flocks := (bl_flocks d)(i \<mapsto> p)\<rparr>)"

definition listen :: "nat \<Rightarrow> nat \<Rightarrow> SocketPath \<Rightarrow> SocketPath" where
  "listen p i d = at_pc p (BBound i) (d\<lparr>bl_sock := Some p, bl_live := insert p (bl_live d)\<rparr>)"

text \<open>The \<open>open\<close> of \<open>acquire_bind_lock\<close>, which creates the file, and that of the removal, which does not.\<close>

definition open_bind_lock :: "nat \<Rightarrow> SocketPath \<Rightarrow> SocketPath" where
  "open_bind_lock p d =
     (if bl_pcs d p \<noteq> BOut then d
      else
        (case bl_path d of
           Some i \<Rightarrow> at_pc p (BOpened i) d
         | None \<Rightarrow> at_pc p (BOpened (bl_next d)) (d\<lparr>bl_path := Some (bl_next d), bl_next := bl_next d + 1\<rparr>)))"

text \<open>\<open>remove_bind_lock_if_unheld\<close> after its \<open>open\<close>: the lock without waiting, the removal, the release.\<close>

definition remove_bind_lock_if_unheld :: "nat \<Rightarrow> SocketPath \<Rightarrow> SocketPath" where
  "remove_bind_lock_if_unheld p d =
     (case bl_pcs d p of
        ROpened i \<Rightarrow> if bl_flocks d i = None then take_lock p i (RLocked i) d else at_pc p BOut d
      | RLocked i \<Rightarrow> at_pc p (RUnlinked i) (d\<lparr>bl_path := None\<rparr>)
      | RUnlinked i \<Rightarrow> unlock p i BOut d
      | _ \<Rightarrow> d)"

text \<open>
  The next step of a process; \<open>ok\<close> is whether a call that may fail succeeds (the permissions, a bind on a
  free address), for a waiting process whether it goes on waiting.  A dead listener's socket is the file
  left behind by one that is not open any more.
\<close>

definition bind_advance :: "bool \<Rightarrow> nat \<Rightarrow> SocketPath \<Rightarrow> SocketPath" where
  "bind_advance ok p d =
     (case bl_pcs d p of
        BOut \<Rightarrow> d
      | BOpened i \<Rightarrow>
          (if bl_flocks d i = None then take_lock p i (BLocked i) d
           else if ok then d else at_pc p BOut d)
      | BLocked i \<Rightarrow>
          (if bl_sock d \<noteq> None then at_pc p (BInUse i) d
           else if ok then listen p i d else at_pc p (BFailed i) d)
      | BInUse i \<Rightarrow>
          (case bl_sock d of
             Some q \<Rightarrow> if q \<in> bl_live d then at_pc p (BFailed i) d else at_pc p (BDead i) d
           | None \<Rightarrow> at_pc p (BDead i) d)
      | BDead i \<Rightarrow>
          (if bl_sock d = None then at_pc p (BFailed i) d else at_pc p (BCleared i) (d\<lparr>bl_sock := None\<rparr>))
      | BCleared i \<Rightarrow>
          (if bl_sock d = None \<and> ok then listen p i d else at_pc p (BFailed i) d)
      | BBound i \<Rightarrow>
          (if ok then unlock p i BListening d else unlock p i BOut (d\<lparr>bl_live := bl_live d - {p}\<rparr>))
      | BFailed i \<Rightarrow> unlock p i BOut d
      | BListening \<Rightarrow> d
      | _ \<Rightarrow> remove_bind_lock_if_unheld p d)"

text \<open>
  The end of a listener (\<open>shutdown\<close> of the daemon, \<open>cleanup_socket\<close> of a session, \<open>FwdCleanup\<close> of a
  client): the socket's file goes, whoever's it is, then the lock file.
\<close>

definition close_listener :: "nat \<Rightarrow> SocketPath \<Rightarrow> SocketPath" where
  "close_listener p d =
     (if bl_pcs d p \<noteq> BListening then d
      else
        at_pc p (case bl_path d of Some i \<Rightarrow> ROpened i | None \<Rightarrow> BOut)
          (d\<lparr>bl_sock := None, bl_live := bl_live d - {p}\<rparr>))"

definition bl_held :: "BindPc \<Rightarrow> nat option" where
  "bl_held pc =
     (case pc of
        BLocked i \<Rightarrow> Some i | BInUse i \<Rightarrow> Some i | BDead i \<Rightarrow> Some i | BCleared i \<Rightarrow> Some i
      | BBound i \<Rightarrow> Some i | BFailed i \<Rightarrow> Some i | RLocked i \<Rightarrow> Some i | RUnlinked i \<Rightarrow> Some i
      | _ \<Rightarrow> None)"

text \<open>A process dies: the kernel releases its lock and closes its listener; the socket's file stays.\<close>

definition bind_crash :: "nat \<Rightarrow> SocketPath \<Rightarrow> SocketPath" where
  "bind_crash p d =
     (let d = d\<lparr>bl_live := bl_live d - {p}\<rparr>
      in case bl_held (bl_pcs d p) of Some i \<Rightarrow> unlock p i BOut d | None \<Rightarrow> at_pc p BOut d)"

section \<open>One listener at a path\<close>

text \<open>Nobody but \<open>p\<close> has opened the inode without holding its lock.\<close>

definition sole_opener :: "nat \<Rightarrow> nat \<Rightarrow> SocketPath \<Rightarrow> bool" where
  "sole_opener p i d \<longleftrightarrow> (\<forall>q. q \<noteq> p \<longrightarrow> bl_pcs d q \<noteq> BOpened i \<and> bl_pcs d q \<noteq> ROpened i)"

text \<open>
  The states reached, from a path with any leftovers, when no lock file is removed while another process
  has it open and is about to lock it.
\<close>

inductive orderly :: "SocketPath \<Rightarrow> bool" where
  leftovers: "(\<And>i. bl_path d = Some i \<Longrightarrow> i < bl_next d) \<Longrightarrow> bl_flocks d = (\<lambda>_. None) \<Longrightarrow> bl_pcs d = (\<lambda>_. BOut)
    \<Longrightarrow> bl_live d = {} \<Longrightarrow> orderly d"
| opened: "orderly d \<Longrightarrow> orderly (open_bind_lock p d)"
| advanced: "orderly d \<Longrightarrow> (\<And>i. bl_pcs d p = RLocked i \<Longrightarrow> sole_opener p i d) \<Longrightarrow> orderly (bind_advance ok p d)"
| closed: "orderly d \<Longrightarrow> orderly (close_listener p d)"
| crashed: "orderly d \<Longrightarrow> orderly (bind_crash p d)"

text \<open>The inode a process has open at the path.\<close>

definition bl_open :: "BindPc \<Rightarrow> nat option" where
  "bl_open pc =
     (case pc of BOpened i \<Rightarrow> Some i | ROpened i \<Rightarrow> Some i | RUnlinked i \<Rightarrow> None | _ \<Rightarrow> bl_held pc)"

definition bound_pc :: "BindPc \<Rightarrow> bool" where
  "bound_pc pc \<longleftrightarrow> (case pc of BBound _ \<Rightarrow> True | BListening \<Rightarrow> True | _ \<Rightarrow> False)"

definition clearing :: "BindPc \<Rightarrow> bool" where
  "clearing pc \<longleftrightarrow> (case pc of BDead _ \<Rightarrow> True | BCleared _ \<Rightarrow> True | _ \<Rightarrow> False)"

definition path_inv :: "SocketPath \<Rightarrow> bool" where
  "path_inv d \<longleftrightarrow>
     (\<forall>p i. bl_flocks d i = Some p \<longleftrightarrow> bl_held (bl_pcs d p) = Some i)
     \<and> (\<forall>p i. bl_open (bl_pcs d p) = Some i \<longrightarrow> bl_path d = Some i)
     \<and> (\<forall>i. bl_path d = Some i \<longrightarrow> i < bl_next d)
     \<and> (\<forall>p i. bl_held (bl_pcs d p) = Some i \<longrightarrow> i < bl_next d)
     \<and> (\<forall>p. p \<in> bl_live d \<longleftrightarrow> bound_pc (bl_pcs d p))
     \<and> (\<forall>p. p \<in> bl_live d \<longrightarrow> bl_sock d = Some p)
     \<and> (\<forall>p. clearing (bl_pcs d p) \<longrightarrow> bl_live d = {})"

text \<open>
  What the bind lock guarantees: as long as lock files are removed in order, every open listener is the one
  its path leads to, so no binder takes the socket of a living one away; and the two ways a living listener
  still loses its socket.
\<close>

section \<open>The invariant\<close>

lemma pc_simps [simp]:
  "bl_held BOut = None" "bl_held (BOpened i) = None" "bl_held (BLocked i) = Some i"
  "bl_held (BInUse i) = Some i" "bl_held (BDead i) = Some i" "bl_held (BCleared i) = Some i"
  "bl_held (BBound i) = Some i" "bl_held (BFailed i) = Some i" "bl_held BListening = None"
  "bl_held (ROpened i) = None" "bl_held (RLocked i) = Some i" "bl_held (RUnlinked i) = Some i"
  "bl_open BOut = None" "bl_open (BOpened i) = Some i" "bl_open (BLocked i) = Some i"
  "bl_open (BInUse i) = Some i" "bl_open (BDead i) = Some i" "bl_open (BCleared i) = Some i"
  "bl_open (BBound i) = Some i" "bl_open (BFailed i) = Some i" "bl_open BListening = None"
  "bl_open (ROpened i) = Some i" "bl_open (RLocked i) = Some i" "bl_open (RUnlinked i) = None"
  "\<not> bound_pc BOut" "\<not> bound_pc (BOpened i)" "\<not> bound_pc (BLocked i)" "\<not> bound_pc (BInUse i)"
  "\<not> bound_pc (BDead i)" "\<not> bound_pc (BCleared i)" "bound_pc (BBound i)" "\<not> bound_pc (BFailed i)"
  "bound_pc BListening" "\<not> bound_pc (ROpened i)" "\<not> bound_pc (RLocked i)" "\<not> bound_pc (RUnlinked i)"
  "\<not> clearing BOut" "\<not> clearing (BOpened i)" "\<not> clearing (BLocked i)" "\<not> clearing (BInUse i)"
  "clearing (BDead i)" "clearing (BCleared i)" "\<not> clearing (BBound i)" "\<not> clearing (BFailed i)"
  "\<not> clearing BListening" "\<not> clearing (ROpened i)" "\<not> clearing (RLocked i)" "\<not> clearing (RUnlinked i)"
  by (simp_all add: bl_held_def bl_open_def bound_pc_def clearing_def)

lemmas advance_defs = bind_advance_def remove_bind_lock_if_unheld_def

lemmas bind_steps = at_pc_def unlock_def take_lock_def listen_def

lemma pathD:
  assumes "path_inv d"
  shows "bl_flocks d i = Some p \<longleftrightarrow> bl_held (bl_pcs d p) = Some i"
    and "bl_open (bl_pcs d p) = Some i \<Longrightarrow> bl_path d = Some i"
    and "bl_path d = Some i \<Longrightarrow> i < bl_next d"
    and "bl_held (bl_pcs d p) = Some i \<Longrightarrow> i < bl_next d"
    and "p \<in> bl_live d \<longleftrightarrow> bound_pc (bl_pcs d p)"
    and "p \<in> bl_live d \<Longrightarrow> bl_sock d = Some p"
    and "clearing (bl_pcs d p) \<Longrightarrow> bl_live d = {}"
  using assms unfolding path_inv_def by blast+

text \<open>A step of one process, by what it does to its own place and to the shared fields.\<close>

lemma path_step:
  assumes inv: "path_inv d"
    and pcs: "bl_pcs d' = (bl_pcs d)(p := pc)"
    and locks: "\<And>j q. bl_flocks d' j = Some q \<longleftrightarrow> (if q = p then bl_held pc = Some j else bl_flocks d j = Some q)"
    and fresh: "bl_next d \<le> bl_next d'" "\<And>j. bl_path d' = Some j \<Longrightarrow> j < bl_next d'"
    and own: "\<And>j. bl_open pc = Some j \<Longrightarrow> bl_path d' = Some j" "\<And>j. bl_held pc = Some j \<Longrightarrow> j < bl_next d'"
    and others: "\<And>q j. q \<noteq> p \<Longrightarrow> bl_open (bl_pcs d q) = Some j \<Longrightarrow> bl_path d' = Some j"
    and live: "\<And>q. q \<in> bl_live d' \<longleftrightarrow> (if q = p then bound_pc pc else q \<in> bl_live d)"
    and sock: "\<And>q. q \<in> bl_live d' \<Longrightarrow> bl_sock d' = Some q"
    and clear: "clearing pc \<Longrightarrow> bl_live d' = {}" "\<And>q. q \<noteq> p \<Longrightarrow> clearing (bl_pcs d q) \<Longrightarrow> p \<notin> bl_live d'"
  shows "path_inv d'"
proof -
  note I = pathD [OF inv]
  have "bl_live d' = {}" if "clearing (bl_pcs d' q)" for q
  proof (cases "q = p")
    case False
    then have c: "clearing (bl_pcs d q)" using that by (simp add: pcs)
    have "r \<notin> bl_live d'" for r
      using clear(2) [OF False c] live [of r] I(7) [OF c] by (cases "r = p") auto
    then show ?thesis by auto
  qed (use that clear(1) in \<open>simp add: pcs\<close>)
  moreover have "bl_flocks d' j = Some q \<longleftrightarrow> bl_held (bl_pcs d' q) = Some j" for q j
    by (simp add: pcs locks I(1))
  moreover have "bl_open (bl_pcs d' q) = Some j \<Longrightarrow> bl_path d' = Some j" for q j
    using own(1) others by (cases "q = p") (simp_all add: pcs)
  moreover have "bl_held (bl_pcs d' q) = Some j \<Longrightarrow> j < bl_next d'" for q j
    using own(2) fresh(1) I(4) [of q j] by (cases "q = p") (auto simp: pcs)
  moreover have "q \<in> bl_live d' \<longleftrightarrow> bound_pc (bl_pcs d' q)" for q
    using live [of q] by (simp add: pcs I(5))
  ultimately show ?thesis using fresh(2) sock unfolding path_inv_def by blast
qed

lemma clearing_holds: "clearing pc \<Longrightarrow> \<exists>i. bl_held pc = Some i \<and> bl_open pc = Some i"
  by (cases pc) auto

text \<open>While a process holds the lock of the file at the path, no other is taking over the socket.\<close>

lemma holder_alone:
  assumes "path_inv d" and "bl_held (bl_pcs d p) = Some i" and "bl_open (bl_pcs d p) = Some i" and "q \<noteq> p"
  shows "\<not> clearing (bl_pcs d q)"
proof
  assume "clearing (bl_pcs d q)"
  then obtain j where j: "bl_held (bl_pcs d q) = Some j" "bl_open (bl_pcs d q) = Some j"
    using clearing_holds by blast
  then have "j = i" using pathD(2) [OF assms(1)] assms(3) by (metis option.inject)
  then have "bl_flocks d i = Some q" "bl_flocks d i = Some p"
    using j(1) assms(2) by (simp_all add: pathD(1) [OF assms(1)])
  then show False using assms(4) by simp
qed

lemma inv_open: "path_inv d \<Longrightarrow> path_inv (open_bind_lock p d)"
proof (cases "bl_pcs d p = BOut")
  case True
  assume inv: "path_inv d"
  note I = pathD [OF inv]
  have out: "bl_flocks d j \<noteq> Some p" "p \<notin> bl_live d" for j using True by (simp_all add: I(1,5))
  show ?thesis
  proof (cases "bl_path d")
    case None
    then have shut: "bl_open (bl_pcs d q) = None" for q using I(2) by (metis option.exhaust option.distinct(1))
    show ?thesis
      using True None out I shut
      by (intro path_step [OF inv, of _ p "BOpened (bl_next d)"])
        (auto simp: open_bind_lock_def at_pc_def)
  next
    case (Some i)
    show ?thesis
      using True Some out I
      by (intro path_step [OF inv, of _ p "BOpened i"]) (auto simp: open_bind_lock_def at_pc_def)
  qed
qed (simp add: open_bind_lock_def)

text \<open>Giving the lock back, with or without a listener; and moving on with it.\<close>

lemma inv_unlock:
  assumes inv: "path_inv d" and held: "bl_held (bl_pcs d p) = Some i" and pc: "pc = BOut \<or> pc = BListening"
    and live: "L = (if pc = BListening then bl_live d else bl_live d - {p})" "pc = BListening \<Longrightarrow> p \<in> bl_live d"
  shows "path_inv (unlock p i pc (d\<lparr>bl_live := L\<rparr>))"
proof (rule path_step [OF inv, of _ p pc])
  let ?d = "unlock p i pc (d\<lparr>bl_live := L\<rparr>)"
  note I = pathD [OF inv]
  have idle: "bl_held pc = None" "bl_open pc = None" "\<not> clearing pc" "bound_pc pc \<longleftrightarrow> pc = BListening"
    using pc by auto
  have d: "bl_flocks ?d = (bl_flocks d)(i := None)" "bl_live ?d = L" "bl_path ?d = bl_path d" "bl_next ?d = bl_next d"
    "bl_sock ?d = bl_sock d"
    by (simp_all add: bind_steps)
  show "bl_pcs ?d = (bl_pcs d)(p := pc)" by (simp add: bind_steps)
  have mine: "bl_flocks d i = Some p" "j \<noteq> i \<Longrightarrow> bl_flocks d j \<noteq> Some p" for j
    using held by (simp_all add: I(1))
  show "bl_flocks ?d j = Some q \<longleftrightarrow> (if q = p then bl_held pc = Some j else bl_flocks d j = Some q)" for j q
    using mine by (cases "q = p"; cases "j = i") (simp_all add: d idle)
  show "q \<in> bl_live ?d \<longleftrightarrow> (if q = p then bound_pc pc else q \<in> bl_live d)" for q
    unfolding d idle using live by (simp split: if_splits)
  show "q \<in> bl_live ?d \<Longrightarrow> bl_sock ?d = Some q" for q
    unfolding d using live(1) I(6) by (simp split: if_splits)
  show "p \<notin> bl_live ?d" if "q \<noteq> p" "clearing (bl_pcs d q)" for q
    unfolding d using I(7) [OF that(2)] live(1) by simp
  show "bl_path ?d = Some j \<Longrightarrow> j < bl_next ?d" for j using I(3) by (simp add: d)
  show "bl_open (bl_pcs d q) = Some j \<Longrightarrow> bl_path ?d = Some j" for q j using I(2) by (simp add: d)
qed (use pc in \<open>auto simp: bind_steps\<close>)

lemma inv_hold:
  assumes inv: "path_inv d" and held: "bl_held (bl_pcs d p) = Some i" "bl_open (bl_pcs d p) = Some i"
    and pc: "bl_held pc = Some i" "bl_open pc = Some i" "bound_pc pc = bound_pc (bl_pcs d p)"
    and clear: "clearing pc \<Longrightarrow> bl_live d = {}"
    and sock: "S = bl_sock d \<or> bl_live d = {}"
  shows "path_inv (at_pc p pc (d\<lparr>bl_sock := S\<rparr>))"
proof (rule path_step [OF inv, of _ p pc])
  let ?d = "at_pc p pc (d\<lparr>bl_sock := S\<rparr>)"
  note I = pathD [OF inv]
  have d: "bl_flocks ?d = bl_flocks d" "bl_live ?d = bl_live d" "bl_path ?d = bl_path d" "bl_next ?d = bl_next d"
    "bl_sock ?d = S"
    by (simp_all add: at_pc_def)
  show "bl_pcs ?d = (bl_pcs d)(p := pc)" by (simp add: at_pc_def)
  show "bl_flocks ?d j = Some q \<longleftrightarrow> (if q = p then bl_held pc = Some j else bl_flocks d j = Some q)" for j q
    using held pc by (simp add: d I(1))
  show "q \<in> bl_live ?d \<longleftrightarrow> (if q = p then bound_pc pc else q \<in> bl_live d)" for q
    using pc(3) by (simp add: d I(5))
  show "q \<in> bl_live ?d \<Longrightarrow> bl_sock ?d = Some q" for q using sock I(6) by (auto simp: d)
  show "bl_open pc = Some j \<Longrightarrow> bl_path ?d = Some j" for j using pc(2) I(2) [OF held(2)] by (simp add: d)
  show "bl_held pc = Some j \<Longrightarrow> j < bl_next ?d" for j using pc(1) I(4) [OF held(1)] by (simp add: d)
  show "clearing pc \<Longrightarrow> bl_live ?d = {}" using clear by (simp add: d)
  show "p \<notin> bl_live ?d" if "q \<noteq> p" "clearing (bl_pcs d q)" for q
    using holder_alone [OF inv held that(1)] that(2) by simp
qed (use pathD(2,3) [OF inv] in \<open>auto simp: at_pc_def\<close>)

lemma inv_listen:
  assumes inv: "path_inv d" and held: "bl_held (bl_pcs d p) = Some i" "bl_open (bl_pcs d p) = Some i"
    and free: "bl_sock d = None"
  shows "path_inv (listen p i d)"
proof (rule path_step [OF inv, of _ p "BBound i"])
  note I = pathD [OF inv]
  have d: "bl_flocks (listen p i d) = bl_flocks d" "bl_live (listen p i d) = insert p (bl_live d)"
    "bl_path (listen p i d) = bl_path d" "bl_next (listen p i d) = bl_next d" "bl_sock (listen p i d) = Some p"
    by (simp_all add: listen_def at_pc_def)
  have dead: "bl_live d = {}" using I(6) free by fastforce
  show "bl_pcs (listen p i d) = (bl_pcs d)(p := BBound i)" by (simp add: listen_def at_pc_def)
  show "bl_flocks (listen p i d) j = Some q \<longleftrightarrow> (if q = p then bl_held (BBound i) = Some j else bl_flocks d j = Some q)" for j q
    using held by (simp add: d I(1))
  show "bl_open (BBound i) = Some j \<Longrightarrow> bl_path (listen p i d) = Some j" for j
    using I(2) [OF held(2)] unfolding d by simp
  show "bl_held (BBound i) = Some j \<Longrightarrow> j < bl_next (listen p i d)" for j
    using I(4) [OF held(1)] unfolding d by simp
  show "q \<in> bl_live (listen p i d) \<Longrightarrow> bl_sock (listen p i d) = Some q" for q using dead by (simp add: d)
  show "p \<notin> bl_live (listen p i d)" if "q \<noteq> p" "clearing (bl_pcs d q)" for q
    using holder_alone [OF inv held that(1)] that(2) by simp
qed (use pathD(2,3) [OF inv] in \<open>auto simp: listen_def at_pc_def\<close>)

lemma inv_take:
  assumes inv: "path_inv d" and pc: "bl_pcs d p = BOpened i \<and> pc = BLocked i \<or> bl_pcs d p = ROpened i \<and> pc = RLocked i"
    and free: "bl_flocks d i = None"
  shows "path_inv (take_lock p i pc d)"
proof -
  note I = pathD [OF inv]
  have "bl_flocks d j \<noteq> Some p" "p \<notin> bl_live d" for j using pc by (auto simp: I(1,5))
  moreover have "bl_path d = Some i" using pc I(2) [of p i] by auto
  ultimately show ?thesis
    using pc free I(2-7)
    by (intro path_step [OF inv, of _ p pc]) (auto simp: take_lock_def at_pc_def)
qed

lemma inv_out:
  assumes inv: "path_inv d" and pc: "bl_pcs d p \<in> {BOpened i, ROpened i}"
  shows "path_inv (at_pc p BOut d)"
proof -
  note I = pathD [OF inv]
  have "bl_flocks d j \<noteq> Some p" "p \<notin> bl_live d" for j using pc by (auto simp: I(1,5))
  then show ?thesis
    using pc I by (intro path_step [OF inv, of _ p BOut]) (auto simp: at_pc_def)
qed

lemma inv_remove:
  assumes inv: "path_inv d" and pc: "bl_pcs d p = RLocked i" and sole: "sole_opener p i d"
  shows "path_inv (at_pc p (RUnlinked i) (d\<lparr>bl_path := None\<rparr>))"
proof -
  note I = pathD [OF inv]
  have path: "bl_path d = Some i" using I(2) [of p i] pc by simp
  have shut: "bl_open (bl_pcs d q) = None" if "q \<noteq> p" for q
  proof (rule ccontr)
    assume "bl_open (bl_pcs d q) \<noteq> None"
    then have o: "bl_open (bl_pcs d q) = Some i" using I(2) [of q] path by auto
    have "bl_held (bl_pcs d q) \<noteq> Some i" using I(1) [of i p] I(1) [of i q] pc that by simp
    with o have "bl_pcs d q = BOpened i \<or> bl_pcs d q = ROpened i"
      by (cases "bl_pcs d q") auto
    then show False using sole that by (auto simp: sole_opener_def)
  qed
  have "\<not> clearing (bl_pcs d q)" if "q \<noteq> p" for q using shut [OF that] clearing_holds by fastforce
  moreover have "i < bl_next d" using I(4) [of p i] pc by simp
  ultimately show ?thesis
    using pc I shut
    by (intro path_step [OF inv, of _ p "RUnlinked i"]) (auto simp: at_pc_def)
qed

lemma path_advance:
  assumes inv: "path_inv d" and sole: "\<And>i. bl_pcs d p = RLocked i \<Longrightarrow> sole_opener p i d"
  shows "path_inv (bind_advance ok p d)"
proof (cases "bl_pcs d p")
  case (BOpened i)
  then show ?thesis using inv inv_take [OF inv, of p i "BLocked i"] inv_out [OF inv, of p i]
    by (simp add: advance_defs)
next
  case (BLocked i)
  then show ?thesis
    using inv_hold [OF inv, of p i "BInUse i" "bl_sock d"] inv_hold [OF inv, of p i "BFailed i" "bl_sock d"] inv_listen [OF inv, of p i]
    by (simp add: advance_defs)
next
  case (BInUse i)
  have "bl_live d = {}" if "case bl_sock d of Some q \<Rightarrow> q \<notin> bl_live d | None \<Rightarrow> True"
    using that pathD(6) [OF inv] by (cases "bl_sock d") fastforce+
  then show ?thesis
    using BInUse inv_hold [OF inv, of p i "BDead i" "bl_sock d"] inv_hold [OF inv, of p i "BFailed i" "bl_sock d"]
    by (auto simp: advance_defs split: option.splits)
next
  case (BDead i)
  then have "bl_live d = {}" using pathD(7) [OF inv, of p] by simp
  then show ?thesis
    using BDead inv_hold [OF inv, of p i "BCleared i" None] inv_hold [OF inv, of p i "BFailed i" "bl_sock d"]
    by (simp add: advance_defs)
next
  case (BCleared i)
  then show ?thesis
    using inv_hold [OF inv, of p i "BFailed i" "bl_sock d"] inv_listen [OF inv, of p i]
    by (simp add: advance_defs)
next
  case (BBound i)
  then have "p \<in> bl_live d" by (simp add: pathD(5) [OF inv])
  then show ?thesis
    using BBound inv_unlock [OF inv, of p i BListening "bl_live d"] inv_unlock [OF inv, of p i BOut "bl_live d - {p}"]
    by (simp add: advance_defs)
next
  case (BFailed i)
  then have "p \<notin> bl_live d" by (simp add: pathD(5) [OF inv])
  then show ?thesis
    using BFailed inv_unlock [OF inv, of p i BOut "bl_live d"] by (simp add: advance_defs)
next
  case (ROpened i)
  then show ?thesis using inv_take [OF inv, of p i "RLocked i"] inv_out [OF inv, of p i]
    by (simp add: advance_defs)
next
  case (RLocked i)
  then show ?thesis using inv_remove [OF inv _ sole] by (simp add: advance_defs)
next
  case (RUnlinked i)
  then have "p \<notin> bl_live d" by (simp add: pathD(5) [OF inv])
  then show ?thesis
    using RUnlinked inv_unlock [OF inv, of p i BOut "bl_live d"] by (simp add: advance_defs)
qed (use inv in \<open>simp_all add: advance_defs\<close>)

lemma inv_crash:
  assumes inv: "path_inv d"
  shows "path_inv (bind_crash p d)"
proof (cases "bl_held (bl_pcs d p)")
  case (Some i)
  then show ?thesis using inv_unlock [OF inv Some, of BOut "bl_live d - {p}"] by (simp add: bind_crash_def Let_def)
next
  case None
  then have "bl_flocks d j \<noteq> Some p" for j by (simp add: pathD(1) [OF inv])
  then show ?thesis
    using None pathD [OF inv]
    by (intro path_step [OF inv, of _ p BOut]) (auto simp: bind_crash_def at_pc_def)
qed

lemma inv_close:
  assumes inv: "path_inv d"
  shows "path_inv (close_listener p d)"
proof (cases "bl_pcs d p = BListening")
  case True
  note I = pathD [OF inv]
  have "p \<in> bl_live d" using True by (simp add: I(5))
  then have alone: "bl_live d = {p}" using I(6) by (metis insertI1 insert_absorb option.inject singletonI subsetI subset_singletonD)
  have "bl_flocks d j \<noteq> Some p" for j using True by (simp add: I(1))
  moreover define pc where "pc = (case bl_path d of Some i \<Rightarrow> ROpened i | None \<Rightarrow> BOut)"
  moreover from this have "bl_held pc = None" "\<not> bound_pc pc" "\<not> clearing pc" "bl_open pc = Some j \<Longrightarrow> bl_path d = Some j" for j
    by (cases "bl_path d"; simp)+
  ultimately show ?thesis
    using True I(2,3) alone
    by (intro path_step [OF inv, of _ p pc]) (simp_all add: close_listener_def at_pc_def)
qed (use inv in \<open>simp add: close_listener_def\<close>)

lemma orderly_inv: "orderly d \<Longrightarrow> path_inv d"
proof (induction rule: orderly.induct)
  case (leftovers d)
  then show ?case by (simp add: path_inv_def)
qed (simp_all add: inv_open path_advance inv_crash inv_close)

text \<open>
  An open listener is the one its path leads to, and there is no other: whatever binders, closing listeners
  and crashes do in whatever order, as long as no lock file is removed under a process about to lock it.
\<close>

theorem live_listener_is_reachable:
  assumes "orderly d" and "p \<in> bl_live d"
  shows "bl_sock d = Some p \<and> bl_live d = {p}"
proof -
  note owned = pathD(6) [OF orderly_inv [OF assms(1)]]
  have "q = p" if "q \<in> bl_live d" for q using owned [OF that] owned [OF assms(2)] by simp
  then show ?thesis using owned assms(2) by blast
qed

section \<open>How a living listener loses its socket\<close>

definition nothing_bound :: SocketPath where
  "nothing_bound =
     \<lparr>bl_path = None, bl_next = 0, bl_flocks = (\<lambda>_. None), bl_sock = None, bl_live = {}, bl_pcs = (\<lambda>_. BOut)\<rparr>"

abbreviation (input) steps :: "nat \<Rightarrow> nat \<Rightarrow> SocketPath \<Rightarrow> SocketPath" where
  "steps n p \<equiv> bind_advance True p ^^ n"

text \<open>
  The comment of \<open>remove_bind_lock_if_unheld\<close> says that no racer is left with an inode about to be deleted:
  a process that opened the file before it was removed is.  Process 2 waits with the old file open while
  listener 1 removes it; process 3 makes a new one; both find the socket of the dead process 4, and 2 takes
  away the one that 3 has bound since.
\<close>

theorem bind_lock_race:
  "let d = (steps 2 2 \<circ> steps 5 3 \<circ> open_bind_lock 3 \<circ> steps 3 2 \<circ> steps 3 1 \<circ> open_bind_lock 2
       \<circ> bind_crash 4 \<circ> steps 3 4 \<circ> open_bind_lock 4 \<circ> close_listener 1 \<circ> steps 3 1 \<circ> open_bind_lock 1) nothing_bound
   in bl_live d = {2, 3} \<and> bl_sock d = Some 2 \<and> bl_pcs d 3 = BBound 1"
  by (simp add: nothing_bound_def open_bind_lock_def advance_defs close_listener_def bind_crash_def bind_steps
      numeral_nat Let_def insert_commute)

text \<open>
  And a listener that ends removes whatever is at its path: after the socket and its lock file have been
  wiped and a second listener bound, the end of the first takes the socket of the second away.
\<close>

theorem end_takes_successors_socket:
  "let wiped = (\<lambda>d. d\<lparr>bl_sock := None, bl_path := None\<rparr>);
       d = (close_listener 1 \<circ> steps 3 2 \<circ> open_bind_lock 2 \<circ> wiped \<circ> steps 3 1 \<circ> open_bind_lock 1) nothing_bound
   in bl_live d = {2} \<and> bl_sock d = None"
  by (simp add: nothing_bound_def open_bind_lock_def advance_defs close_listener_def bind_steps
      numeral_nat Let_def) auto

end
