(* ===== verification/Report.thy ===== *)
theory Report
  imports Strings "HOL-Library.List_Lexorder"
begin

text \<open>
  The log excerpts of \<open>gritty doctor --llm\<close>, from \<open>src/src/commands/report.rs\<close>: which lines of a log are
  shown, what is taken out of them, and the fence around them.  Logs carry whatever ssh and session
  programs wrote; the report is pasted into a chat.
\<close>

section \<open>Reading the end of a log\<close>

abbreviation (input) DEFAULT_TAIL_LINES :: nat where "DEFAULT_TAIL_LINES \<equiv> 80"
abbreviation (input) EXTRA_WARN_LINES :: nat where "EXTRA_WARN_LINES \<equiv> 40"
abbreviation (input) READ_WINDOW_BYTES :: nat where "READ_WINDOW_BYTES \<equiv> 256 * 1024"

text \<open>\<open>read_tail\<close> of a file's bytes: the text and whether older content was skipped.\<close>

definition read_tail :: "byte list \<Rightarrow> nat \<Rightarrow> rstring \<times> bool" where
  "read_tail content max_bytes =
     (let truncated = (max_bytes < length content);
          text = utf8_lossy (if truncated then drop (length content - max_bytes) content else content)
      in (if truncated then (case split_once 0x0A text of Some (_, rest) \<Rightarrow> rest | None \<Rightarrow> text) else text, truncated))"

section \<open>Which lines\<close>

text \<open>\<open>split_whitespace\<close>: the first two tokens are what is needed; a token ends before white space.\<close>

fun token_end :: "rstring \<Rightarrow> rstring" where
  "token_end [] = []"
| "token_end (b # bs) =
     (if list_ex (\<lambda>w. starts_with (b # bs) w) whitespace then b # bs else token_end bs)"

definition next_token :: "rstring \<Rightarrow> (rstring \<times> rstring) option" where
  "next_token s =
     (let s = trim_start s
      in if s = [] then None else Some (take (length s - length (token_end s)) s, token_end s))"

definition is_warn_or_error :: "rstring \<Rightarrow> bool" where
  "is_warn_or_error line \<longleftrightarrow>
     (let level = Option.bind (next_token line) (\<lambda>(_, rest). map_option fst (next_token rest))
      in level = Some (ascii ''WARN'') \<or> level = Some (ascii ''ERROR'') \<or> contains (ascii ''panicked at'') line)"

text \<open>\<open>excerpt\<close>: the indices selected, in order; then the lines with the marks of the gaps before them.\<close>

definition selected :: "('a \<Rightarrow> bool) \<Rightarrow> 'a list \<Rightarrow> nat \<Rightarrow> nat \<Rightarrow> nat list" where
  "selected keep ls tail extra_cap =
     (let tail_start = length ls - tail
      in rev (take extra_cap (filter (\<lambda>i. keep (ls ! i)) (rev [0..<tail_start]))) @ [tail_start..<length ls])"

datatype Piece = Earlier nat | Skipped nat | Shown nat

fun excerpt_pieces :: "nat option \<Rightarrow> nat list \<Rightarrow> Piece list" where
  "excerpt_pieces prev [] = []"
| "excerpt_pieces prev (i # is) =
     (case prev of
        None \<Rightarrow> if 0 < i then [Earlier i] else []
      | Some p \<Rightarrow> if p + 1 < i then [Skipped (i - p - 1)] else [])
     @ Shown i # excerpt_pieces (Some i) is"

definition piece_text :: "rstring list \<Rightarrow> Piece \<Rightarrow> rstring" where
  "piece_text ls x =
     (case x of
        Earlier n \<Rightarrow> ascii ''[... '' @ dec n @ ascii '' earlier lines not shown ...]'' @ [0x0A]
      | Skipped n \<Rightarrow> ascii ''[... '' @ dec n @ ascii '' lines skipped ...]'' @ [0x0A]
      | Shown i \<Rightarrow> (ls ! i) @ [0x0A])"

definition excerpt :: "rstring list \<Rightarrow> nat \<Rightarrow> nat \<Rightarrow> (rstring \<Rightarrow> bool) \<Rightarrow> rstring" where
  "excerpt ls tail extra_cap keep =
     concat (map (piece_text ls) (excerpt_pieces None (selected keep ls tail extra_cap)))"

section \<open>What is taken out\<close>

text \<open>\<open>str::chars\<close>, each character as its bytes.\<close>

function chars :: "rstring \<Rightarrow> rstring list" where
  "chars [] = []"
| "chars (b # bs) =
     (if is_ascii b then [b] # chars bs else (b # takeWhile is_cont bs) # chars (dropWhile is_cont bs))"
  by pat_completeness auto
termination by (relation "measure length") (auto simp: le_imp_less_Suc length_dropWhile_le)

definition is_control :: "rstring \<Rightarrow> bool" where
  "is_control c \<longleftrightarrow>
     (case c of
        [b] \<Rightarrow> b < 0x20 \<or> b = 0x7F
      | [lead, b] \<Rightarrow> lead = 0xC2 \<and> 0x80 \<le> b \<and> b \<le> 0x9F
      | _ \<Rightarrow> False)"

definition ends_csi :: "rstring \<Rightarrow> bool" where
  "ends_csi c \<longleftrightarrow> (case c of [b] \<Rightarrow> 0x40 \<le> b \<and> b \<le> 0x7E | _ \<Rightarrow> False)"

text \<open>What follows a control sequence, and a string command up to BEL or ESC backslash.\<close>

fun after_csi :: "rstring list \<Rightarrow> rstring list" where
  "after_csi [] = []"
| "after_csi (c # cs) = (if ends_csi c then cs else after_csi cs)"

fun after_osc :: "bool \<Rightarrow> rstring list \<Rightarrow> rstring list" where
  "after_osc prev_esc [] = []"
| "after_osc prev_esc (c # cs) =
     (if c = [0x07] \<or> prev_esc \<and> c = [0x5C] then cs else after_osc (c = [0x1B]) cs)"

lemma after_shorter [simp]: "length (after_csi cs) \<le> length cs" "length (after_osc p cs) \<le> length cs"
  by (induction cs arbitrary: p) (auto intro: le_SucI)

function sanitize_chars :: "rstring list \<Rightarrow> rstring list" where
  "sanitize_chars [] = []"
| "sanitize_chars (c # cs) =
     (if c = [0x1B] then
        (case cs of
           [] \<Rightarrow> []
         | d # ds \<Rightarrow>
             if d = [0x5B] then sanitize_chars (after_csi ds)
             else if d = [0x5D] then sanitize_chars (after_osc False ds)
             else sanitize_chars ds)
      else if c = [0x0A] \<or> c = [0x09] then c # sanitize_chars cs
      else if is_control c then sanitize_chars cs
      else c # sanitize_chars cs)"
  by pat_completeness auto
termination
  by (relation "measure length") (auto simp: less_Suc_eq_le intro: le_SucI)

definition sanitize :: "rstring \<Rightarrow> rstring" where
  "sanitize s = concat (sanitize_chars (chars s))"

section \<open>The fence\<close>

abbreviation (input) TILDE :: byte where "TILDE \<equiv> 0x7E"

definition tildes :: "rstring \<Rightarrow> nat" where
  "tildes l = length (takeWhile (\<lambda>b. b = TILDE) l)"

definition fence_mark :: "rstring \<Rightarrow> rstring" where
  "fence_mark text = replicate (max (Max (insert 0 (set (map tildes (lines text)))) + 1) 3) TILDE"

definition fence :: "rstring \<Rightarrow> rstring" where
  "fence text =
     (let f = fence_mark text;
          body = (case strip_suffix [0x0A] text of Some b \<Rightarrow> b | None \<Rightarrow> text)
      in f @ [0x0A] @ body @ [0x0A] @ f @ [0x0A, 0x0A])"

text \<open>One log of the report.\<close>

definition log_section :: "byte list option \<Rightarrow> nat \<Rightarrow> rstring" where
  "log_section content tail_lines =
     (case content of
        None \<Rightarrow> ascii ''(not found or unreadable)'' @ [0x0A]
      | Some bytes \<Rightarrow>
          (case read_tail bytes READ_WINDOW_BYTES of
             (text, truncated) \<Rightarrow>
               if lines text = [] then ascii ''(empty)'' @ [0x0A]
               else
                 fence (sanitize
                   ((if truncated then ascii ''[... older content beyond the last 256KB not read ...]'' @ [0x0A] else [])
                      @ excerpt (lines text) tail_lines EXTRA_WARN_LINES is_warn_or_error))))"

text \<open>
  \<open>collect_log_sources\<close>: the daemon's, those of the known tunnels by the name and stem of their log, and
  the logs in the directory that belong to none.
\<close>

definition collect_log_sources :: "(rstring \<times> rstring) list \<Rightarrow> rstring list \<Rightarrow> (rstring \<times> rstring) list" where
  "collect_log_sources tunnels files =
     (let orphaned = sort_key id
            (List.map_filter (\<lambda>file.
               Option.bind (strip_prefix (ascii ''connect-'') file) (\<lambda>stem.
                 Option.bind (strip_suffix (ascii ''.log'') stem) (\<lambda>nm.
                   if (ascii ''connect-'' @ nm) \<in> snd ` set tunnels then None else Some nm))) files)
      in [(ascii ''daemon.log'', ascii ''daemon.log''), (ascii ''daemon.out'', ascii ''daemon.out'')]
         @ concat (map (\<lambda>(nm, stem).
             [(ascii ''tunnel `'' @ nm @ ascii ''` log'', stem @ ascii ''.log''),
              (ascii ''tunnel `'' @ nm @ ascii ''` output'', stem @ ascii ''.out'')]) tunnels)
         @ concat (map (\<lambda>nm.
             [(ascii ''tunnel `'' @ nm @ ascii ''` log (no live supervisor -- post-mortem)'', ascii ''connect-'' @ nm @ ascii ''.log''),
              (ascii ''tunnel `'' @ nm @ ascii ''` output (no live supervisor -- post-mortem)'', ascii ''connect-'' @ nm @ ascii ''.out'')])
             orphaned))"

text \<open>
  That an excerpt says how much it leaves out, that what is taken from a log carries no control character,
  and that no line of it ends the fence around it; with the three inputs for which the report falls short
  of what its comments promise.
\<close>

section \<open>Nothing is left out silently\<close>

fun accounted :: "Piece list \<Rightarrow> nat" where
  "accounted [] = 0"
| "accounted (Earlier n # ps) = n + accounted ps"
| "accounted (Skipped n # ps) = n + accounted ps"
| "accounted (Shown i # ps) = Suc (accounted ps)"

lemma accounted_from:
  "sorted_wrt (<) (p # is) \<Longrightarrow> accounted (excerpt_pieces (Some p) is) = last (p # is) - p"
proof (induction "is" arbitrary: p)
  case (Cons i js)
  then have "accounted (excerpt_pieces (Some i) js) = last (i # js) - i" "p < i" by simp_all
  moreover have "i \<le> last (i # js)" using Cons.prems by (cases js) (auto intro: less_imp_le)
  ultimately show ?case by (cases "p + 1 < i"; cases "js = []"; simp; linarith?)
qed simp

lemma accounted_all:
  assumes "is \<noteq> []" and "sorted_wrt (<) is"
  shows "accounted (excerpt_pieces None is) = Suc (last is)"
proof -
  obtain i js where i: "is = i # js" using assms(1) by (cases "is") auto
  have "i \<le> last is" using assms(2) by (cases js) (auto simp: i intro: less_imp_le)
  then show ?thesis using accounted_from [of i js] assms(2) by (cases "i = 0"; cases "js = []") (simp_all add: i)
qed

lemma sorted_selected: "sorted_wrt (<) (selected keep ls tail extra_cap)"
proof -
  let ?old = "filter (\<lambda>i. keep (ls ! i)) (rev [0..<length ls - tail])"
  have "sorted_wrt (<) (rev ?old)" by (simp add: rev_filter sorted_wrt_filter)
  moreover have "rev (take extra_cap ?old) = drop (length ?old - extra_cap) (rev ?old)" by (simp add: rev_take)
  ultimately have "sorted_wrt (<) (rev (take extra_cap ?old))" by (simp add: sorted_wrt_drop)
  moreover have "set (take extra_cap ?old) \<subseteq> {0..<length ls - tail}" using set_take_subset by fastforce
  ultimately show ?thesis unfolding selected_def Let_def sorted_wrt_append by fastforce
qed

text \<open>
  An excerpt of a log accounts for every line of it: the lines shown and the numbers in its marks add up to
  the lines there are, if at least one line of the tail is asked for; and the lines of the tail are shown.
\<close>

theorem excerpt_accounts_for_all:
  assumes "ls \<noteq> []" and "0 < tail"
  shows "accounted (excerpt_pieces None (selected keep ls tail extra_cap)) = length ls"
    and "i < length ls \<Longrightarrow> length ls - tail \<le> i \<Longrightarrow> i \<in> set (selected keep ls tail extra_cap)"
proof -
  have ne: "[length ls - tail..<length ls] \<noteq> []" using assms by (simp add: not_le)
  then have "selected keep ls tail extra_cap \<noteq> []" "last (selected keep ls tail extra_cap) = length ls - 1"
    using assms by (simp_all add: selected_def Let_def)
  then show "accounted (excerpt_pieces None (selected keep ls tail extra_cap)) = length ls"
    using accounted_all [OF _ sorted_selected, of keep ls tail extra_cap] assms(1) by (cases ls) simp_all
  show "i < length ls \<Longrightarrow> length ls - tail \<le> i \<Longrightarrow> i \<in> set (selected keep ls tail extra_cap)"
    by (simp add: selected_def Let_def)
qed

text \<open>With no line of the tail asked for, lines after the last one shown go without a mark; here it is all.\<close>

theorem empty_tail_says_nothing: "excerpt [ascii ''a'', ascii ''b''] 0 EXTRA_WARN_LINES (\<lambda>_. False) = []"
  by (simp add: excerpt_def selected_def)

section \<open>What is taken out\<close>

lemma after_subset: "set (after_csi cs) \<subseteq> set cs" "set (after_osc p cs) \<subseteq> set cs"
  by (induction cs arbitrary: p) auto

lemma sanitize_chars_set:
  "c \<in> set (sanitize_chars cs) \<Longrightarrow> c \<in> set cs \<and> (\<not> is_control c \<or> c = [0x0A] \<or> c = [0x09])"
proof (induction cs rule: sanitize_chars.induct)
  case (2 c' cs)
  show ?case
  proof (cases "c' = [0x1B]")
    case True
    show ?thesis
    proof (cases cs)
      case (Cons d ds)
      then show ?thesis
        using 2 True after_subset(1) [of ds] after_subset(2) [of False ds] by (auto split: if_splits)
    qed (use 2 True in simp)
  qed (use 2 in \<open>auto split: if_splits\<close>)
qed simp

lemma chars_bytes: "c \<in> set (chars s) \<Longrightarrow> b \<in> set c \<Longrightarrow> c = [b] \<or> \<not> is_ascii b"
proof (induction s rule: chars.induct)
  case (2 x xs)
  have "\<not> is_ascii y" if "is_cont y" for y using that by (auto simp: is_cont_def is_ascii_def)
  then have "\<not> is_ascii y" if "y \<in> set (takeWhile is_cont xs)" for y using that set_takeWhileD by metis
  then show ?case using 2 by (auto split: if_splits)
qed simp

text \<open>Whatever bytes it is given, the text is free of control bytes but newline and tab.\<close>

theorem sanitized_text_is_inert:
  assumes "b \<in> set (sanitize s)"
  shows "0x20 \<le> b \<and> b \<noteq> 0x7F \<or> b = 0x0A \<or> b = 0x09"
proof -
  obtain c where c: "c \<in> set (sanitize_chars (chars s))" "b \<in> set c" using assms by (auto simp: sanitize_def)
  then have "c = [b] \<or> \<not> is_ascii b" "\<not> is_control c \<or> c = [0x0A] \<or> c = [0x09]"
    using sanitize_chars_set chars_bytes by blast+
  moreover have "0x20 \<le> b \<and> b \<noteq> 0x7F" if "\<not> is_ascii b"
    using that by (auto simp: is_ascii_def word_le_nat_alt word_less_nat_alt)
  ultimately show ?thesis using c(2) by (auto simp: is_control_def)
qed

text \<open>A log that opens a string command and does not close it loses all that follows, over any lines.\<close>

lemma after_osc_drops: "list_all (\<lambda>c. c \<noteq> [0x07] \<and> c \<noteq> [0x1B]) cs \<Longrightarrow> after_osc False cs = []"
  by (induction cs) auto

theorem open_string_swallows_log:
  "list_all (\<lambda>c. c \<noteq> [0x07] \<and> c \<noteq> [0x1B]) (chars rest) \<Longrightarrow> sanitize ([0x1B, 0x5D] @ rest) = []"
  by (simp add: sanitize_def is_ascii_def after_osc_drops)

section \<open>The fence\<close>

lemma pieces_at_line: "pieces acc (pre @ 0x0A # s) = pieces acc (pre @ [0x0A]) @ pieces [] s"
  by (induction pre arbitrary: acc) auto

lemma tildes_grow: "tildes acc \<le> tildes (acc @ bs)"
  by (induction acc) (simp_all add: tildes_def)

lemma tildes_butlast: "acc \<noteq> [] \<Longrightarrow> last acc = 0x0D \<Longrightarrow> tildes (butlast acc) = tildes acc"
  by (induction acc) (auto simp: tildes_def)

lemma pieces_tildes:
  "acc \<noteq> [] \<Longrightarrow> k \<le> tildes acc \<Longrightarrow> \<exists>l \<in> set (pieces acc s). k \<le> tildes l"
proof (induction s arbitrary: acc)
  case (Cons b s)
  then show ?case
    using tildes_butlast [of acc] tildes_grow [of acc "[b]"] le_trans [of k "tildes acc"] by (cases "b = 0x0A") auto
qed simp

lemma tildes_replicate: "k \<le> tildes (replicate k TILDE @ s)"
  by (induction k) (auto simp: tildes_def)

text \<open>Tildes at the start of a line of a text are tildes at the start of one of its lines.\<close>

lemma line_tildes:
  assumes "text = pre @ replicate k TILDE @ post" and "pre = [] \<or> last pre = 0x0A" and "0 < k"
  shows "\<exists>l \<in> set (lines text). k \<le> tildes l"
proof -
  have run: "pieces acc (replicate n TILDE @ post) = pieces (acc @ replicate n TILDE) post" for acc n
    by (induction n arbitrary: acc) (simp_all add: replicate_append_same)
  have here: "\<exists>l \<in> set (pieces [] (replicate k TILDE @ post)). k \<le> tildes l"
    unfolding run append_Nil
  proof (rule pieces_tildes)
    show "replicate k TILDE \<noteq> []" using assms(3) by simp
    show "k \<le> tildes (replicate k TILDE)" using tildes_replicate [of k "[]"] by (simp only: append_Nil2)
  qed
  show ?thesis
  proof (cases "pre = []")
    case False
    then obtain p where "pre = p @ [0x0A]" using assms(2) by (metis append_butlast_last_id)
    then have "lines text = pieces [] (p @ 0x0A # replicate k TILDE @ post)" using assms(1) by (simp add: lines_def)
    also have "\<dots> = pieces [] (p @ [0x0A]) @ pieces [] (replicate k TILDE @ post)" by (rule pieces_at_line)
    finally have "lines text = pieces [] (p @ [0x0A]) @ pieces [] (replicate k TILDE @ post)" .
    then have "set (pieces [] (replicate k TILDE @ post)) \<subseteq> set (lines text)" by simp
    then show ?thesis using here by blast
  qed (use here assms(1) in \<open>simp add: lines_def\<close>)
qed

lemma fence_mark_longer:
  assumes "l \<in> set (lines text)"
  shows "tildes l < length (fence_mark text)"
proof -
  have "tildes l \<le> Max (insert 0 (set (map tildes (lines text))))" using assms by (intro Max_ge) auto
  then show ?thesis by (simp add: fence_mark_def)
qed

text \<open>
  The fence holds: fenced text is a line of at least three tildes, the text, and the line again, and no line
  of the text starts with as many tildes, whatever the text is.
\<close>

theorem fence_holds:
  "\<exists>body. fence text = fence_mark text @ [0x0A] @ body @ [0x0A] @ fence_mark text @ [0x0A, 0x0A]
     \<and> (text = body \<or> text = body @ [0x0A])
     \<and> (\<forall>pre k post. body = pre @ replicate k TILDE @ post \<and> (pre = [] \<or> last pre = 0x0A)
          \<longrightarrow> k < length (fence_mark text))"
proof -
  define body where "body = (case strip_suffix [0x0A] text of Some b \<Rightarrow> b | None \<Rightarrow> text)"
  have whole: "text = body \<or> text = body @ [0x0A]"
    by (auto simp: body_def strip_suffix_def split: if_splits) (metis append_take_drop_id One_nat_def)
  have "k < length (fence_mark text)" if b: "body = pre @ replicate k TILDE @ post" "pre = [] \<or> last pre = 0x0A" for pre k post
  proof (cases "k = 0")
    case False
    obtain post' where "text = pre @ replicate k TILDE @ post'" using whole b(1) by (metis append.assoc)
    then obtain l where "l \<in> set (lines text)" "k \<le> tildes l" using line_tildes b(2) False by blast
    then show ?thesis using fence_mark_longer by fastforce
  qed (simp add: fence_mark_def)
  then show ?thesis using whole by (auto simp: fence_def body_def Let_def)
qed

text \<open>
  Markdown also ends a fence at a line with up to three spaces before the tildes; those are not counted.
\<close>

theorem indented_tildes_end_fence: "fence (ascii '' ~~~'') = ascii ''~~~'' @ [0x0A] @ ascii '' ~~~'' @ [0x0A] @ ascii ''~~~'' @ [0x0A, 0x0A]"
  by code_simp

end
