(* ===== verification/Doctor.thy ===== *)
theory Doctor
  imports Refresh Report Ui Sockets Destination Client_Input
begin

text \<open>
  \<open>gritty doctor\<close>, from \<open>src/src/commands/doctor.rs\<close>: the checks with their messages, over what the probes
  found, and \<open>--clean\<close> with the files it removes from the socket directory; and what it shares with
  \<open>gritty tunnels\<close> in \<open>src/src/connect.rs\<close>.
\<close>

section \<open>Checks\<close>

datatype Check_Status = CheckOk | CheckWarn | CheckFail

record Check =
  ck_status :: Check_Status
  ck_message :: rstring
  ck_hint :: "rstring option"

definition check_ok :: "rstring \<Rightarrow> Check" where
  "check_ok msg = \<lparr>ck_status = CheckOk, ck_message = msg, ck_hint = None\<rparr>"

definition check_warn :: "rstring \<Rightarrow> Check" where
  "check_warn msg = \<lparr>ck_status = CheckWarn, ck_message = msg, ck_hint = None\<rparr>"

definition check_fail :: "rstring \<Rightarrow> Check" where
  "check_fail msg = \<lparr>ck_status = CheckFail, ck_message = msg, ck_hint = None\<rparr>"

definition with_hint :: "Check \<Rightarrow> rstring \<Rightarrow> Check" where
  "with_hint c hint = c\<lparr>ck_hint := Some hint\<rparr>"

definition status_tag :: "Check_Status \<Rightarrow> rstring" where
  "status_tag s = (case s of CheckOk \<Rightarrow> ascii ''ok'' | CheckWarn \<Rightarrow> ascii ''WARN'' | CheckFail \<Rightarrow> ascii ''FAIL'')"

text \<open>\<open>check_staleness\<close> of a process known to run.\<close>

definition check_staleness :: "RunInfo \<Rightarrow> rstring option \<Rightarrow> rstring \<Rightarrow> rstring \<Rightarrow> Check list" where
  "check_staleness cur info label stale_hint =
     (let v = assess cur info True; msg = label @ ascii '': '' @ verdict_text v
      in case v of
           Verdict.NotRunning \<Rightarrow> []
         | Current \<Rightarrow> []
         | Stale (StaleProtocol _ _) \<Rightarrow> [with_hint (check_fail msg) stale_hint]
         | Stale (StaleBuild _ _) \<Rightarrow> [with_hint (check_warn msg) stale_hint]
         | Verdict.Unknown \<Rightarrow> [with_hint (check_warn msg) stale_hint])"

text \<open>The last line of the report, and whether the command fails.\<close>

definition how_many :: "Check_Status \<Rightarrow> (rstring \<times> Check list) list \<Rightarrow> nat" where
  "how_many st groups = length (filter (\<lambda>c. ck_status c = st) (concat (map snd groups)))"

definition tally :: "(rstring \<times> Check list) list \<Rightarrow> rstring" where
  "tally groups =
     (let warns = how_many CheckWarn groups; fails = how_many CheckFail groups
      in if fails = 0 \<and> warns = 0 then ascii ''no issues found''
         else if fails = 0 then count_text warns (ascii ''warning'')
         else if warns = 0 then count_text fails (ascii ''issue'')
         else count_text fails (ascii ''issue'') @ ascii '', '' @ count_text warns (ascii ''warning''))"

definition has_failures :: "(rstring \<times> Check list) list \<Rightarrow> bool" where
  "has_failures groups \<longleftrightarrow> list_ex (\<lambda>c. ck_status c = CheckFail) (concat (map snd groups))"

section \<open>Summaries\<close>

definition session_summary :: "SessionEntry list \<Rightarrow> rstring" where
  "session_summary ss =
     (let n = length ss; a = length (filter attached ss)
      in if n = 0 then ascii ''no sessions''
         else if a = 0 then count_text n (ascii ''session'')
         else if n = 1 then ascii ''1 session, attached''
         else count_text n (ascii ''session'') @ ascii '', '' @ dec a @ ascii '' attached'')"

definition client_summary :: "(rstring \<times> rstring) list \<Rightarrow> rstring list" where
  "client_summary entries =
     map (\<lambda>host.
       (let labels = sort_key id (map snd (filter (\<lambda>e. fst e = host) entries))
        in if length labels = 1 then ascii ''1 client on this machine holds '' @ hd labels
           else dec (length labels) @ ascii '' clients on this machine hold '' @ join (ascii '', '') labels))
       (sort_key id (remdups (map fst entries)))"

definition KB :: nat where "KB = 1024"

text \<open>\<open>format_size\<close>; the gigabytes with one decimal are a parameter.\<close>

definition format_size :: "(nat \<Rightarrow> rstring) \<Rightarrow> nat \<Rightarrow> rstring" where
  "format_size gigabytes bytes =
     (if bytes < KB then dec bytes @ ascii '' B''
      else if bytes < KB * KB then dec (bytes div KB) @ ascii '' KB''
      else if bytes < KB * KB * KB then dec (bytes div (KB * KB)) @ ascii '' MB''
      else gigabytes bytes @ ascii '' GB'')"

abbreviation (input) LOG_SIZE_WARN :: nat where "LOG_SIZE_WARN \<equiv> 50 * 1024 * 1024"

definition check_log_file :: "(nat \<Rightarrow> rstring) \<Rightarrow> rstring \<Rightarrow> nat option \<Rightarrow> Check list" where
  "check_log_file gigabytes nm len =
     (case len of
        None \<Rightarrow> []
      | Some n \<Rightarrow>
          if LOG_SIZE_WARN \<le> n then
            [check_warn (nm @ ascii '' is '' @ format_size gigabytes n @ ascii '' (consider rotating)'')]
          else [])"

section \<open>The daemon of this machine\<close>

text \<open>
  A probe that succeeds is of the same protocol, so the branch of \<open>check_local_server\<close> that compares the
  versions again is never taken.  Files are named within the directory of the daemon's socket.
\<close>

text \<open>\<open>probe_server\<close> of the outcome of a request: an error or the daemon's answer.\<close>

definition probe_server :: "rstring + Frame \<Rightarrow> rstring + SessionEntry list" where
  "probe_server answer =
     (case answer of
        Inr (SessionInfo ss) \<Rightarrow> Inr ss
      | Inr (Frame.Error code message) \<Rightarrow>
          Inl ((if code = VersionMismatch then ascii ''version mismatch: '' else ascii ''server error: '') @ message)
      | Inr _ \<Rightarrow> Inl (ascii ''unexpected response from server'')
      | Inl e \<Rightarrow> Inl e)"

record ServerView =
  sv_pid_file :: "rstring option"
  sv_alive :: "nat \<Rightarrow> bool"
  sv_answer :: "rstring + Frame"
  sv_current :: RunInfo
  sv_info :: "rstring option"
  sv_dir :: rstring
  sv_exists :: "rstring \<Rightarrow> bool"
  sv_size :: "rstring \<Rightarrow> nat option"
  sv_gigabytes :: "nat \<Rightarrow> rstring"
  sv_client :: rstring

definition read_pid_file :: "rstring option \<Rightarrow> nat option" where
  "read_pid_file text = Option.bind text (\<lambda>s. parse_unsigned (2 ^ 32) (trim s))"

definition svc_socket_name :: "nat \<Rightarrow> rstring" where
  "svc_socket_name i = ascii ''svc-'' @ dec i @ ascii ''.sock''"

definition agent_socket_name :: "nat \<Rightarrow> rstring" where
  "agent_socket_name i = ascii ''agent-'' @ dec i @ ascii ''.sock''"

definition check_session_sockets :: "ServerView \<Rightarrow> SessionEntry \<Rightarrow> Check list" where
  "check_session_sockets sv e =
     (let i = unat (entry_id e);
          label = (if name e = [] then dec i else display_session_name (name e) (sv_client sv));
          svc = svc_socket_name i; agent = agent_socket_name i
      in (if \<not> sv_exists sv svc then
            [check_warn (ascii ''session '' @ label @ ascii '': service socket missing ('' @ sv_dir sv @ ascii ''/'' @ svc @ ascii '')'')]
          else [])
         @ (if agent_forwarding_active e \<and> \<not> sv_exists sv agent then
              [check_fail (ascii ''session '' @ label @ ascii '': agent socket missing ('' @ sv_dir sv @ ascii ''/'' @ agent @ ascii '')'')]
            else []))"

definition check_local_server :: "ServerView \<Rightarrow> Check list \<times> SessionEntry list" where
  "check_local_server sv =
     (let pid = read_pid_file (sv_pid_file sv);
          staleness = check_staleness (sv_current sv) (sv_info sv) (ascii ''server'') (ascii ''gritty refresh local'')
      in if (case pid of Some p \<Rightarrow> \<not> sv_alive sv p | None \<Rightarrow> False) then
           ([with_hint (check_fail (ascii ''stale daemon.pid (pid '' @ dec (the pid) @ ascii '' not running)''))
               (ascii ''remove the PID file and stale socket, or run: gritty kill-server local'')], [])
         else
           (case probe_server (sv_answer sv) of
              Inr ss \<Rightarrow>
                (check_ok (ascii ''server running ('' @ (case pid of Some p \<Rightarrow> ascii ''pid '' @ dec p @ ascii '', '' | None \<Rightarrow> [])
                     @ ascii ''protocol v'' @ dec (unat PROTOCOL_VERSION) @ ascii '', '' @ session_summary ss @ ascii '')'')
                   # staleness @ concat (map (check_session_sockets sv) ss)
                   @ check_log_file (sv_gigabytes sv) (ascii ''daemon.log'') (sv_size sv (ascii ''daemon.log''))
                   @ check_log_file (sv_gigabytes sv) (ascii ''daemon.out'') (sv_size sv (ascii ''daemon.out'')),
                 ss)
            | Inl msg \<Rightarrow>
                (if contains (ascii ''version mismatch'') msg then
                   (with_hint (check_warn (ascii ''server''
                        @ (case pid of Some p \<Rightarrow> ascii '' (pid '' @ dec p @ ascii '')'' | None \<Rightarrow> []) @ ascii '': '' @ msg))
                      (ascii ''gritty refresh local'') # staleness, [])
                 else if pid \<noteq> None then
                   ([check_warn (ascii ''server process may be running but socket is unresponsive'')], [])
                 else ([check_ok (ascii ''server not running'')], []))))"

section \<open>The configuration and the socket directory\<close>

datatype Config_State = NotFound | Valid nat | Invalid rstring

definition check_config_file :: "Config_State \<Rightarrow> Check" where
  "check_config_file st =
     (case st of
        NotFound \<Rightarrow> check_ok (ascii ''no config file (using defaults)'')
      | Valid n \<Rightarrow>
          if n = 0 then check_ok (ascii ''config valid'')
          else check_ok (ascii ''config valid ('' @ count_text n (ascii ''host'') @ ascii '')'')
      | Invalid e \<Rightarrow> check_fail (ascii ''config invalid: '' @ e))"

text \<open>Four octal digits.\<close>

definition octal4 :: "nat \<Rightarrow> rstring" where
  "octal4 m = map (\<lambda>d. word_of_nat (48 + m div 8 ^ d mod 8)) [3, 2, 1, 0]"

text \<open>The directory itself; None when it does not exist, an error when it cannot be looked at.\<close>

definition check_socket_dir :: "nat \<Rightarrow> rstring \<Rightarrow> rstring + Meta option \<Rightarrow> Check" where
  "check_socket_dir my_uid dir found =
     (case found of
        Inl e \<Rightarrow> check_fail (ascii ''cannot stat socket directory: '' @ e)
      | Inr None \<Rightarrow> check_ok (ascii ''socket directory does not exist yet (created on first use)'')
      | Inr (Some m) \<Rightarrow>
          if mt_symlink m then check_fail (ascii ''socket directory is a symlink: '' @ dir)
          else if \<not> mt_is_dir m then check_fail (ascii ''socket path is not a directory: '' @ dir)
          else if mt_uid m \<noteq> my_uid then
            check_fail (ascii ''socket directory owned by uid '' @ dec (mt_uid m) @ ascii '', expected '' @ dec my_uid)
          else if mt_mode m mod 512 \<noteq> 448 then
            check_warn (ascii ''socket directory permissions '' @ octal4 (mt_mode m mod 512) @ ascii '' (expected 0700)'')
          else check_ok (ascii ''socket directory permissions ok''))"

section \<open>Tunnels\<close>

definition enumerate_tunnels :: "rstring list \<Rightarrow> rstring list" where
  "enumerate_tunnels files =
     sort_key id (List.map_filter
       (\<lambda>f. Option.bind (strip_prefix (ascii ''connect-'') f) (strip_suffix (ascii ''.lock''))) files)"

datatype TunnelStatus = Healthy | Reconnecting | StaleTunnel

definition probe_tunnel_status :: "bool \<Rightarrow> bool \<Rightarrow> TunnelStatus" where
  "probe_tunnel_status lock_held connects =
     (if lock_held then if connects then Healthy else Reconnecting else StaleTunnel)"

definition last_forward_error_line :: "rstring \<Rightarrow> rstring option" where
  "last_forward_error_line text =
     List.find (\<lambda>l. contains (ascii ''open failed'') l
         \<or> contains (ascii ''Bad local forwarding specification'') l
         \<or> contains (ascii ''forwarding request failed'') l)
       (map trim (rev (lines text)))"

definition last_forward_error :: "byte list option \<Rightarrow> rstring option" where
  "last_forward_error content =
     Option.bind content (\<lambda>c. last_forward_error_line (utf8_lossy (drop (length c - 8192) c)))"

text \<open>What the probes of one tunnel find.\<close>

record TunnelView =
  tv_name :: rstring
  tv_held :: bool
  tv_connects :: bool
  tv_pid_file :: "rstring option"
  tv_dest_file :: "rstring option"
  tv_answer :: "rstring + Frame"
  tv_out :: "byte list option"
  tv_log_size :: "nat option"
  tv_info :: "rstring option"

definition tunnel_status :: "TunnelView \<Rightarrow> TunnelStatus" where
  "tunnel_status t = probe_tunnel_status (tv_held t) (tv_connects t)"

definition ARROW :: rstring where "ARROW = [0xE2, 0x86, 0x92]"

definition next_hint :: "rstring \<Rightarrow> rstring" where
  "next_hint h = [0x0A] @ ascii ''    '' @ ARROW @ ascii '' '' @ h"

definition next_dim_hint :: "rstring \<Rightarrow> rstring" where
  "next_dim_hint h = [0x0A] @ ascii ''    '' @ DIM @ ARROW @ ascii '' '' @ h"

text \<open>The check of a tunnel whose socket accepts: what answers behind it.\<close>

definition check_remote :: "rstring \<Rightarrow> TunnelView \<Rightarrow> rstring \<Rightarrow> Check" where
  "check_remote dir t pid_str =
     (case probe_server (tv_answer t) of
        Inr ss \<Rightarrow> check_ok (tv_name t @ ascii '': healthy'' @ pid_str @ ascii '', '' @ session_summary ss)
      | Inl msg \<Rightarrow>
          (if contains (ascii ''version mismatch'') msg then
             check_ok (tv_name t @ ascii '': healthy'' @ pid_str @ ascii '', ''
               @ unwrap_or (strip_prefix (ascii ''version mismatch: '') msg) msg)
           else
             with_hint
               (check_warn (tv_name t @ ascii '': tunnel up but remote daemon unreachable ('' @ msg @ ascii '')'' @ pid_str))
               (ascii ''remote daemon may be down or its socket path stale''
                  @ next_dim_hint (ascii ''ssh output: '' @ connect_sidecar_path dir (tv_name t) (ascii ''out''))
                  @ (case last_forward_error (tv_out t) of
                       Some l \<Rightarrow> next_hint (ascii ''ssh reported: '' @ l)
                     | None \<Rightarrow> [])
                  @ next_hint (ascii ''gritty restart '' @ tv_name t))))"

definition check_tunnel :: "RunInfo \<Rightarrow> (nat \<Rightarrow> rstring) \<Rightarrow> rstring \<Rightarrow> TunnelView \<Rightarrow> Check list" where
  "check_tunnel cur gigabytes dir t =
     (let n = tv_name t;
          pid_str = (case read_pid_file (tv_pid_file t) of Some p \<Rightarrow> ascii '', pid '' @ dec p | None \<Rightarrow> [])
      in (case tunnel_status t of
            Healthy \<Rightarrow>
              check_remote dir t pid_str
              # check_log_file gigabytes (ascii ''connect-'' @ n @ ascii ''.log'') (tv_log_size t)
          | Reconnecting \<Rightarrow>
              [with_hint (check_warn (n @ ascii '': reconnecting'' @ pid_str))
                 (ascii ''tracing: '' @ connect_sidecar_path dir n (ascii ''log'')
                    @ next_dim_hint (ascii ''ssh output: '' @ connect_sidecar_path dir n (ascii ''out'')))]
          | StaleTunnel \<Rightarrow>
              [with_hint (check_fail (n @ ascii '': stale process'' @ pid_str)) (ascii ''gritty tunnel-destroy '' @ n)])
         @ (if tunnel_status t = StaleTunnel then []
            else check_staleness cur (tv_info t) (n @ ascii '' supervisor'') (ascii ''gritty refresh '' @ n)))"

definition check_tunnels :: "RunInfo \<Rightarrow> (nat \<Rightarrow> rstring) \<Rightarrow> rstring \<Rightarrow> (rstring \<Rightarrow> TunnelView) \<Rightarrow> rstring list \<Rightarrow> Check list" where
  "check_tunnels cur gigabytes dir view files =
     concat (map (\<lambda>n. check_tunnel cur gigabytes dir (view n)) (enumerate_tunnels files))"

text \<open>\<open>gather_tunnel_info\<close>: the rows of \<open>gritty tunnels\<close>, and the tunnels it cleans up on the way.\<close>

record TunnelInfo =
  ti_name :: rstring
  ti_destination :: rstring
  ti_status :: rstring
  ti_pid :: "nat option"
  ti_log_path :: rstring

definition gather_tunnel_info :: "rstring \<Rightarrow> (rstring \<Rightarrow> TunnelView) \<Rightarrow> rstring list \<Rightarrow> bool \<Rightarrow> TunnelInfo list \<times> rstring list" where
  "gather_tunnel_info dir view files gc_stale =
     (let status = (\<lambda>n. tunnel_status (view n));
          swept = (\<lambda>n. status n = StaleTunnel \<and> gc_stale);
          found = enumerate_tunnels files
      in (map (\<lambda>n.
            \<lparr>ti_name = n, ti_destination = trim (unwrap_or (tv_dest_file (view n)) (ascii ''-'')),
             ti_status = (case status n of Healthy \<Rightarrow> ascii ''healthy'' | Reconnecting \<Rightarrow> ascii ''reconnecting''
                          | StaleTunnel \<Rightarrow> ascii ''stale''),
             ti_pid = read_pid_file (tv_pid_file (view n)),
             ti_log_path = connect_sidecar_path dir n (ascii ''log'')\<rparr>) (filter (\<lambda>n. \<not> swept n) found),
          filter swept found))"

abbreviation (input) RESIDUE_EXTS :: "rstring list" where
  "RESIDUE_EXTS \<equiv> [ascii ''sock'', ascii ''pid'', ascii ''info'']"

text \<open>Files of a tunnel without a lock file: the tunnel's name and the file; which files exist is a predicate.\<close>

definition residue_of :: "(rstring \<Rightarrow> bool) \<Rightarrow> rstring \<Rightarrow> (rstring \<times> rstring) option" where
  "residue_of there f =
     Option.bind (strip_prefix (ascii ''connect-'') f) (\<lambda>rest.
       Option.bind (rsplit_once 0x2E rest) (\<lambda>(nm, ext).
         if ext \<in> set RESIDUE_EXTS \<and> \<not> there (ascii ''connect-'' @ nm @ ascii ''.lock'') then Some (nm, f) else None))"

definition check_tunnel_residue :: "(rstring \<Rightarrow> bool) \<Rightarrow> rstring list \<Rightarrow> Check list" where
  "check_tunnel_residue there files =
     (let found = List.map_filter (residue_of there) files
      in map (\<lambda>nm. with_hint
                (check_warn (ascii ''dead tunnel '' @ nm @ ascii '': leftover ''
                   @ join (ascii '', '') (sort_key id (map snd (filter (\<lambda>e. fst e = nm) found)))))
                (ascii ''gritty tunnel-destroy '' @ nm))
           (sort_key id (remdups (map fst found))))"

section \<open>The socket directory\<close>

text \<open>What \<open>lstat\<close> and a connection attempt say of a path: a socket is served or not.\<close>

datatype Entry = Folder | Socket bool | Plain_file

definition session_socket_id :: "rstring \<Rightarrow> rstring option" where
  "session_socket_id f =
     Option.bind
       (case strip_prefix (ascii ''agent-'') f of Some r \<Rightarrow> Some r | None \<Rightarrow> strip_prefix (ascii ''svc-'') f)
       (strip_suffix (ascii ''.sock''))"

definition ends_with :: "rstring \<Rightarrow> rstring \<Rightarrow> bool" where
  "ends_with s p \<longleftrightarrow> strip_suffix p s \<noteq> None"

definition is_orphaned :: "(rstring \<Rightarrow> bool) \<Rightarrow> u32 list \<Rightarrow> rstring \<Rightarrow> bool" where
  "is_orphaned connects open_ids f \<longleftrightarrow>
     (if \<not> ends_with f (ascii ''.sock'') then False
      else if f = ascii ''ctl.sock'' \<or> starts_with f (ascii ''connect-'') then False
      else
        (case session_socket_id f of
           Some i \<Rightarrow> (case parse_unsigned (2 ^ 32) i of Some n \<Rightarrow> word_of_nat n \<notin> set open_ids | None \<Rightarrow> False)
         | None \<Rightarrow> starts_with f (ascii ''fwd-'') \<and> \<not> connects f))"

definition check_sockets :: "(rstring \<Rightarrow> bool) \<Rightarrow> u32 list \<Rightarrow> rstring list \<Rightarrow> Check list" where
  "check_sockets connects open_ids files =
     (let orphaned = sort_key id (filter (is_orphaned connects open_ids) files)
      in if orphaned = [] then []
         else [check_warn (count_text (length orphaned) (ascii ''orphaned socket file'') @ ascii '': '' @ join (ascii '', '') orphaned)])"

definition stale_bindlock :: "(rstring \<Rightarrow> bool) \<Rightarrow> rstring \<Rightarrow> bool" where
  "stale_bindlock there f \<longleftrightarrow> (case strip_suffix (ascii ''.bindlock'') f of Some sock \<Rightarrow> \<not> there sock | None \<Rightarrow> False)"

definition check_stale_bindlocks :: "(rstring \<Rightarrow> bool) \<Rightarrow> rstring \<Rightarrow> rstring list \<Rightarrow> Check list" where
  "check_stale_bindlocks there dir files =
     (let n = length (filter (stale_bindlock there) files)
      in if n = 0 then []
         else [with_hint (check_warn (count_text n (ascii ''stale bind-lock file'') @ ascii '' (socket already gone)''))
                 (ascii ''safe to remove: rm '' @ [0x27] @ dir @ [0x27] @ ascii ''/*.bindlock'')])"

definition socket_of :: "rstring \<Rightarrow> rstring" where
  "socket_of f = unwrap_or (strip_suffix (ascii ''.bindlock'') f) f"

abbreviation (input) SIDECAR_EXTS :: "rstring list" where
  "SIDECAR_EXTS \<equiv>
     [ascii ''sock'', ascii ''pid'', ascii ''info'', ascii ''lock'', ascii ''dest'', ascii ''ssh-opts'',
      ascii ''remote-sock'', ascii ''log'', ascii ''out'', ascii ''kick'']"

definition is_known_artifact :: "rstring \<Rightarrow> bool" where
  "is_known_artifact f \<longleftrightarrow>
     (let f = socket_of f
      in if f \<in> set [ascii ''ctl.sock'', ascii ''daemon.pid'', ascii ''daemon.info'', ascii ''gritty-open''] then True
         else if starts_with f (ascii ''daemon.log'') \<or> starts_with f (ascii ''daemon.out'') then True
         else if starts_with f (ascii ''client.log'') then True
         else
           (case session_socket_id f of
              Some i \<Rightarrow> i \<noteq> [] \<and> list_all is_digit i
            | None \<Rightarrow>
                (if starts_with f (ascii ''fwd-'') \<and> ends_with f (ascii ''.sock'') then True
                 else
                   (case strip_prefix (ascii ''connect-'') f of
                      Some rest \<Rightarrow>
                        (case rsplit_once 0x2E rest of Some (_, ext) \<Rightarrow> ext \<in> set SIDECAR_EXTS | None \<Rightarrow> False)
                        \<or> contains (ascii ''.log'') rest \<or> contains (ascii ''.out'') rest
                    | None \<Rightarrow> False))))"

text \<open>
  The body of the loop of \<open>check_unknown_files\<close>: the check, if any, and the file removed, if one is; None
  of the second parameter when the file can be removed.
\<close>

definition check_unknown :: "(rstring \<Rightarrow> Entry option) \<Rightarrow> (rstring \<Rightarrow> rstring option) \<Rightarrow> bool \<Rightarrow> rstring \<Rightarrow> Check list \<times> rstring list" where
  "check_unknown stat refused clean f =
     (case stat f of
        None \<Rightarrow> ([], [])
      | Some Folder \<Rightarrow> ([check_warn (ascii ''unknown directory: '' @ f @ ascii '' (not removing)'')], [])
      | Some (Socket True) \<Rightarrow> ([check_warn (ascii ''unknown socket in use: '' @ f @ ascii '' (not removing)'')], [])
      | Some _ \<Rightarrow>
          (if \<not> clean then
             ([with_hint (check_warn (ascii ''unknown file: '' @ f)) (ascii ''gritty doctor --clean removes it'')], [])
           else
             (case refused f of
                None \<Rightarrow> ([check_ok (ascii ''removed unknown file: '' @ f)], [f])
              | Some e \<Rightarrow> ([check_warn (ascii ''could not remove '' @ f @ ascii '': '' @ e)], []))))"

definition unknown_files :: "rstring option \<Rightarrow> rstring list \<Rightarrow> rstring list" where
  "unknown_files ctl_name files =
     sort_key id (filter (\<lambda>f. Some (socket_of f) \<noteq> ctl_name \<and> \<not> is_known_artifact f) files)"

definition check_unknown_files ::
  "(rstring \<Rightarrow> Entry option) \<Rightarrow> (rstring \<Rightarrow> rstring option) \<Rightarrow> rstring option \<Rightarrow> bool \<Rightarrow> rstring list \<Rightarrow> Check list \<times> rstring list" where
  "check_unknown_files stat refused ctl_name clean files =
     (let each = map (check_unknown stat refused clean) (unknown_files ctl_name files)
      in (concat (map fst each), concat (map snd each)))"

section \<open>A whole pass\<close>

text \<open>
  What a pass of \<open>gather\<close> looks at: the two directories, that of the tunnels and that of the server, which
  differ when \<open>--ctl-socket\<close> names a socket elsewhere; \<open>dv_ctl_name\<close> is the socket's name if it is within
  the first.  The other processes and the labels of the clients come from \<open>procscan\<close> and from the daemons.
\<close>

record DoctorView =
  dv_config :: Config_State
  dv_uid :: nat
  dv_dir :: rstring
  dv_dir_meta :: "rstring + Meta option"
  dv_server :: ServerView
  dv_tunnel :: "rstring \<Rightarrow> TunnelView"
  dv_files :: "rstring list"
  dv_exists :: "rstring \<Rightarrow> bool"
  dv_server_files :: "rstring list"
  dv_connects :: "rstring \<Rightarrow> bool"
  dv_stat :: "rstring \<Rightarrow> Entry option"
  dv_refused :: "rstring \<Rightarrow> rstring option"
  dv_clients :: "(rstring \<times> rstring) list"
  dv_orphans :: "rstring list"
  dv_ctl_name :: "rstring option"

definition check_orphan_daemons :: "rstring list \<Rightarrow> Check list" where
  "check_orphan_daemons orphans =
     map (\<lambda>o'. with_hint (check_fail (ascii ''orphaned daemon: '' @ o'))
       (ascii ''run `gritty refresh` to reap it; if this host wipes $XDG_RUNTIME_DIR on logout, `loginctl enable-linger` prevents new orphans''))
       orphans"

text \<open>\<open>gather\<close>: the groups, and the files removed.\<close>

definition gather :: "DoctorView \<Rightarrow> bool \<Rightarrow> (rstring \<times> Check list) list \<times> rstring list" where
  "gather dv clean =
     (let (server, ss) = check_local_server (dv_server dv);
          tunnels = check_tunnels (sv_current (dv_server dv)) (sv_gigabytes (dv_server dv)) (dv_dir dv) (dv_tunnel dv) (dv_files dv)
            @ check_tunnel_residue (dv_exists dv) (dv_files dv);
          (unknown, removed) = check_unknown_files (dv_stat dv) (dv_refused dv) (dv_ctl_name dv) clean (dv_files dv);
          socks = check_sockets (dv_connects dv) (map entry_id ss) (dv_server_files dv)
            @ check_stale_bindlocks (sv_exists (dv_server dv)) (sv_dir (dv_server dv)) (dv_server_files dv) @ unknown
      in ([(ascii ''Configuration'', [check_config_file (dv_config dv), check_socket_dir (dv_uid dv) (dv_dir dv) (dv_dir_meta dv)]),
           (ascii ''Local server'', server),
           (ascii ''Orphaned processes'', check_orphan_daemons (dv_orphans dv)),
           (ascii ''Tunnels'', tunnels),
           (ascii ''Clients'', map check_ok (client_summary (dv_clients dv))),
           (ascii ''Sockets'', socks)], removed))"

text \<open>
  What \<open>gritty doctor --clean\<close> may remove: nothing that carries a name gritty gives to a file of the socket
  directory, no directory and no socket that is served.  And when the report says that all is well.
\<close>

section \<open>The files gritty makes\<close>

text \<open>
  The files of the socket directory by what makes them: the daemon, the command line's logs, a session, an
  attached client and a tunnel; a socket has the lock it was bound under beside it.
\<close>

datatype Socket_File = Control | Agent nat | Service nat | Forward rstring u32 | Tunnel_Socket rstring

datatype Artifact =
    Bound Socket_File
  | Bind_Lock Socket_File
  | Daemon_Pid
  | Daemon_Info
  | Browser_Shim
  | Log_File rstring
  | Sidecar rstring rstring

fun socket_file :: "Socket_File \<Rightarrow> rstring" where
  "socket_file Control = ascii ''ctl.sock''"
| "socket_file (Agent i) = agent_socket_name i"
| "socket_file (Service i) = svc_socket_name i"
| "socket_file (Forward host i) = forward_socket_name host i"
| "socket_file (Tunnel_Socket n) = ascii ''connect-'' @ n @ ascii ''.sock''"

text \<open>A log may carry what a rotation appends to its name.\<close>

inductive named :: "Artifact \<Rightarrow> rstring \<Rightarrow> bool" where
  bound: "named (Bound s) (socket_file s)"
| bind_lock: "named (Bind_Lock s) (socket_file s @ ascii ''.bindlock'')"
| pid: "named Daemon_Pid (ascii ''daemon.pid'')"
| info: "named Daemon_Info (ascii ''daemon.info'')"
| shim: "named Browser_Shim (ascii ''gritty-open'')"
| log: "l \<in> set [ascii ''daemon.log'', ascii ''daemon.out'', ascii ''client.log''] \<Longrightarrow>
    strip_suffix (ascii ''.bindlock'') (l @ rotation) = None \<Longrightarrow> named (Log_File l) (l @ rotation)"
| sidecar: "ext \<in> set SIDECAR_EXTS \<Longrightarrow> named (Sidecar n ext) (ascii ''connect-'' @ n @ ascii ''.'' @ ext)"

lemma strip_suffix_Some: "strip_suffix p s = Some r \<Longrightarrow> s = r @ p"
  by (auto simp: strip_suffix_def split: if_splits) (metis append_take_drop_id)

lemma socket_of_ext:
  assumes "0x2E \<notin> set ext" and "ext \<noteq> ascii ''bindlock''"
  shows "socket_of (x @ 0x2E # ext) = x @ 0x2E # ext"
proof (cases "strip_suffix (ascii ''.bindlock'') (x @ 0x2E # ext)")
  case (Some r)
  have "0x2E \<notin> set (ascii ''bindlock'')" by code_simp
  moreover have "x @ 0x2E # ext = r @ 0x2E # ascii ''bindlock''" using strip_suffix_Some [OF Some] by simp
  ultimately have "Some (x, ext) = Some (r, ascii ''bindlock'')"
    using rsplit_once_append [OF assms(1), of x] rsplit_once_append [of "0x2E" "ascii ''bindlock''" r] by metis
  then show ?thesis using assms(2) by simp
qed (simp add: socket_of_def unwrap_or_def)

lemma socket_of_bindlock: "socket_of (s @ ascii ''.bindlock'') = s"
  by (simp add: socket_of_def unwrap_or_def del: ascii_simps)

lemma socket_file_sock: "\<exists>x. socket_file s = x @ ascii ''.sock''"
proof (cases s)
  case Control
  have "socket_file s = ascii ''ctl'' @ ascii ''.sock''" unfolding Control by code_simp
  then show ?thesis by blast
qed (auto simp: agent_socket_name_def svc_socket_name_def forward_socket_name_def simp flip: append_assoc
    simp del: ascii_simps)

lemma socket_of_socket: "socket_of (socket_file s) = socket_file s"
proof -
  obtain x where "socket_file s = x @ ascii ''.sock''" using socket_file_sock by blast
  moreover have "socket_of (x @ 0x2E # ascii ''sock'') = x @ 0x2E # ascii ''sock''" by (rule socket_of_ext) code_simp+
  ultimately show ?thesis by simp
qed

lemma known_socket: "is_known_artifact f \<Longrightarrow> socket_of f = f \<Longrightarrow> is_known_artifact (f @ ascii ''.bindlock'')"
  by (simp add: is_known_artifact_def socket_of_bindlock del: ascii_simps)

lemma known_session_socket:
  assumes "f = p @ dec i @ ascii ''.sock''" and "p = ascii ''agent-'' \<or> p = ascii ''svc-''" and "socket_of f = f"
  shows "is_known_artifact f"
proof -
  have "strip_prefix (ascii ''agent-'') (ascii ''svc-'' @ r) = None" for r by (simp add: strip_prefix_def)
  then have "session_socket_id f = Some (dec i)"
    using assms(1,2) by (auto simp: session_socket_id_def simp del: ascii_simps)
  then show ?thesis using assms(3) dec_digits [of _ i] by (simp add: is_known_artifact_def list_all_iff Let_def)
qed

lemma known_sidecar:
  assumes "ext \<in> set SIDECAR_EXTS"
  shows "is_known_artifact (ascii ''connect-'' @ n @ ascii ''.'' @ ext)"
proof -
  let ?f = "ascii ''connect-'' @ n @ ascii ''.'' @ ext"
  have dots: "list_all (\<lambda>e. 0x2E \<notin> set e \<and> e \<noteq> ascii ''bindlock'') SIDECAR_EXTS" by code_simp
  then have ext: "0x2E \<notin> set ext" "ext \<noteq> ascii ''bindlock''" using assms by (auto simp: list_all_iff simp del: ascii_simps)
  have "socket_of ((ascii ''connect-'' @ n) @ 0x2E # ext) = (ascii ''connect-'' @ n) @ 0x2E # ext"
    by (rule socket_of_ext [OF ext])
  then have own: "socket_of ?f = ?f" by simp
  have "rsplit_once 0x2E (n @ ascii ''.'' @ ext) = Some (n, ext)" using rsplit_once_append [OF ext(1), of n] by simp
  moreover have "session_socket_id ?f = None" by (simp add: session_socket_id_def strip_prefix_def)
  ultimately show ?thesis using assms unfolding is_known_artifact_def own by (simp add: Let_def del: ascii_simps)
qed

lemma known_socket_file: "is_known_artifact (socket_file s)"
proof (cases s)
  case Control
  then show ?thesis by (simp add: is_known_artifact_def socket_of_socket [of Control, simplified])
next
  case (Forward host i)
  let ?f = "socket_file s"
  have "ends_with ?f (ascii ''.sock'')" using socket_file_sock [of s] by (auto simp: ends_with_def)
  moreover have "starts_with ?f (ascii ''fwd-'')" "session_socket_id ?f = None"
    by (simp_all add: Forward forward_socket_name_def session_socket_id_def strip_prefix_def starts_with_def)
  ultimately show ?thesis unfolding is_known_artifact_def socket_of_socket by (simp add: Let_def del: ascii_simps)
next
  case (Tunnel_Socket n)
  have "ascii ''sock'' \<in> set SIDECAR_EXTS" by simp
  from known_sidecar [OF this, of n] show ?thesis by (simp add: Tunnel_Socket)
qed (use socket_of_socket [of s] in \<open>simp_all add: agent_socket_name_def svc_socket_name_def known_session_socket del: ascii_simps\<close>)

text \<open>Every file gritty makes in the socket directory is known to it, with any name of a host or tunnel.\<close>

theorem artifacts_are_known:
  assumes "named a f"
  shows "is_known_artifact f"
  using assms
proof cases
  case (bind_lock s)
  then show ?thesis using known_socket known_socket_file socket_of_socket by blast
next
  case (log l rotation)
  have "starts_with f l" using log(2) by simp
  moreover have "socket_of f = f" using log(2,4) by (simp add: socket_of_def unwrap_or_def)
  ultimately show ?thesis using log(3) by (auto simp: is_known_artifact_def Let_def)
next
  case (sidecar ext n)
  show ?thesis unfolding sidecar(2) by (rule known_sidecar [OF sidecar(3)])
next
  case bound
  then show ?thesis using known_socket_file by simp
qed (simp_all add: is_known_artifact_def socket_of_def unwrap_or_def strip_suffix_def)

section \<open>What is removed\<close>

text \<open>Exactly the files that are unknown, not the given control socket's, no directory, and not served.\<close>

lemma removed_iff:
  "f \<in> set (snd (check_unknown_files stat refused ctl_name clean files)) \<longleftrightarrow>
     clean \<and> f \<in> set files \<and> \<not> is_known_artifact f \<and> Some (socket_of f) \<noteq> ctl_name
     \<and> stat f \<in> {Some Plain_file, Some (Socket False)} \<and> refused f = None"
proof -
  have "g \<in> set (snd (check_unknown stat refused clean f)) \<longleftrightarrow>
      g = f \<and> clean \<and> stat f \<in> {Some Plain_file, Some (Socket False)} \<and> refused f = None" for g f
    by (simp add: check_unknown_def split: option.split Entry.split bool.split)
  then show ?thesis by (auto simp: check_unknown_files_def unknown_files_def Let_def)
qed

text \<open>
  \<open>--clean\<close> removes no file gritty makes, no directory, no socket that is served, and neither the control
  socket it was given nor its lock; without \<open>--clean\<close> nothing is removed.
\<close>

theorem clean_spares_artifacts:
  assumes "f \<in> set (snd (gather dv clean))"
  shows "clean" and "f \<in> set (dv_files dv)" and "\<not> named a f"
    and "dv_ctl_name dv = Some c \<Longrightarrow> f \<noteq> c @ ascii ''.bindlock'' \<and> (socket_of c = c \<longrightarrow> f \<noteq> c)"
    and "dv_stat dv f \<noteq> Some Folder" and "dv_stat dv f \<noteq> Some (Socket True)"
proof -
  have f: "f \<in> set (snd (check_unknown_files (dv_stat dv) (dv_refused dv) (dv_ctl_name dv) clean (dv_files dv)))"
    using assms by (simp add: gather_def split: prod.splits)
  note r = f [unfolded removed_iff]
  show "clean" "f \<in> set (dv_files dv)" "dv_stat dv f \<noteq> Some Folder" "dv_stat dv f \<noteq> Some (Socket True)"
    using r by auto
  show "\<not> named a f" using r artifacts_are_known by blast
  show "dv_ctl_name dv = Some c \<Longrightarrow> f \<noteq> c @ ascii ''.bindlock'' \<and> (socket_of c = c \<longrightarrow> f \<noteq> c)"
    using r socket_of_bindlock by metis
qed

text \<open>
  The lock of a control socket that \<open>doctor\<close> was not told of goes, while the socket beside it is served and
  stays.
\<close>

theorem clean_takes_foreign_bind_lock:
  assumes "\<not> is_known_artifact c" and "ctl_name \<noteq> Some c" and "stat c = Some (Socket True)"
    and "c @ ascii ''.bindlock'' \<in> set files" and "stat (c @ ascii ''.bindlock'') = Some Plain_file"
    and "refused (c @ ascii ''.bindlock'') = None" and "socket_of c = c"
  shows "c @ ascii ''.bindlock'' \<in> set (snd (check_unknown_files stat refused ctl_name True files))"
    and "c \<notin> set (snd (check_unknown_files stat refused ctl_name True files))"
proof -
  have "\<not> is_known_artifact (c @ ascii ''.bindlock'')"
    using assms(1,7) by (simp add: is_known_artifact_def socket_of_bindlock del: ascii_simps)
  then show "c @ ascii ''.bindlock'' \<in> set (snd (check_unknown_files stat refused ctl_name True files))"
    unfolding removed_iff socket_of_bindlock using assms by auto
qed (simp add: removed_iff assms(3))

text \<open>Here for a daemon started with the control socket \<open>foo.sock\<close>.\<close>

corollary clean_takes_lock_of_foo:
  "\<not> is_known_artifact (ascii ''foo.sock'') \<and> socket_of (ascii ''foo.sock'') = ascii ''foo.sock''"
  by code_simp

section \<open>Sockets without a session\<close>

text \<open>
  A daemon that is alive but answers with an error, as one of another protocol does, has no sessions as far
  as the pass knows: the sockets of all its sessions are reported as orphaned.
\<close>

theorem mismatch_orphans_live_sockets:
  assumes "probe_server (sv_answer sv) = Inl msg" and "i < 2 ^ 32" and "svc_socket_name i \<in> set files"
  shows "is_orphaned connects (map entry_id (snd (check_local_server sv))) (svc_socket_name i)"
    and "check_sockets connects (map entry_id (snd (check_local_server sv))) files \<noteq> []"
proof -
  have none: "snd (check_local_server sv) = []" by (simp add: check_local_server_def Let_def assms(1))
  have "strip_prefix (ascii ''agent-'') (svc_socket_name i) = None" "\<not> starts_with (svc_socket_name i) (ascii ''connect-'')"
      "svc_socket_name i \<noteq> ascii ''ctl.sock''"
    by (simp_all add: svc_socket_name_def strip_prefix_def starts_with_def)
  moreover have "ends_with (svc_socket_name i) (ascii ''.sock'')"
    by (simp add: svc_socket_name_def ends_with_def flip: append_assoc del: ascii_simps)
  moreover have "strip_prefix (ascii ''svc-'') (svc_socket_name i) = Some (dec i @ ascii ''.sock'')"
    by (simp add: svc_socket_name_def del: ascii_simps)
  ultimately show orphaned: "is_orphaned connects (map entry_id (snd (check_local_server sv))) (svc_socket_name i)"
    using assms(2) by (simp add: is_orphaned_def none session_socket_id_def parse_unsigned_dec del: ascii_simps)
  then have "filter (is_orphaned connects (map entry_id (snd (check_local_server sv)))) files \<noteq> []"
    using assms(3) by (auto simp: filter_empty_conv)
  then show "check_sockets connects (map entry_id (snd (check_local_server sv))) files \<noteq> []"
    by (auto simp: check_sockets_def Let_def dest: arg_cong [of _ _ set])
qed

section \<open>Tunnels\<close>

lemma in_map_filter: "x \<in> set (List.map_filter g xs) \<longleftrightarrow> (\<exists>y \<in> set xs. g y = Some x)"
  by (induction xs) (auto split: option.split)

lemma strip_prefix_Some: "strip_prefix p s = Some r \<longleftrightarrow> s = p @ r"
  by (auto simp: strip_prefix_def split: if_splits) (metis append_take_drop_id)

lemma enumerated_iff: "n \<in> set (enumerate_tunnels files) \<longleftrightarrow> ascii ''connect-'' @ n @ ascii ''.lock'' \<in> set files"
  by (auto simp: enumerate_tunnels_def in_map_filter bind_eq_Some_conv strip_prefix_Some dest!: strip_suffix_Some
      simp del: ascii_simps) (metis strip_suffix_append)

lemma residue_iff:
  "residue_of there f = Some (n, g) \<longleftrightarrow>
     g = f \<and> (\<exists>ext \<in> set RESIDUE_EXTS. f = ascii ''connect-'' @ n @ ascii ''.'' @ ext)
     \<and> \<not> there (ascii ''connect-'' @ n @ ascii ''.lock'')"
proof
  assume "residue_of there f = Some (n, g)"
  then obtain rest ext where "f = ascii ''connect-'' @ rest" "rsplit_once 0x2E rest = Some (n, ext)" "g = f"
      "ext \<in> set RESIDUE_EXTS" "\<not> there (ascii ''connect-'' @ n @ ascii ''.lock'')"
    by (auto simp: residue_of_def bind_eq_Some_conv strip_prefix_Some simp del: ascii_simps split: if_splits prod.splits)
  then show "g = f \<and> (\<exists>ext \<in> set RESIDUE_EXTS. f = ascii ''connect-'' @ n @ ascii ''.'' @ ext)
     \<and> \<not> there (ascii ''connect-'' @ n @ ascii ''.lock'')"
    by (auto dest!: rsplit_onceD)
next
  assume r: "g = f \<and> (\<exists>ext \<in> set RESIDUE_EXTS. f = ascii ''connect-'' @ n @ ascii ''.'' @ ext)
     \<and> \<not> there (ascii ''connect-'' @ n @ ascii ''.lock'')"
  then obtain ext where ext: "ext \<in> set RESIDUE_EXTS" "f = ascii ''connect-'' @ n @ ascii ''.'' @ ext" by blast
  have "list_all (\<lambda>e. 0x2E \<notin> set e) RESIDUE_EXTS" by code_simp
  then have "0x2E \<notin> set ext" using ext(1) by (auto simp: list_all_iff simp del: ascii_simps)
  then have "rsplit_once 0x2E (n @ ascii ''.'' @ ext) = Some (n, ext)" using rsplit_once_append [of "0x2E" ext n] by simp
  then show "residue_of there f = Some (n, g)" using r ext by (simp add: residue_of_def del: ascii_simps)
qed

definition reports_residue :: "rstring list \<Rightarrow> rstring \<Rightarrow> bool" where
  "reports_residue files n \<longleftrightarrow>
     n \<in> fst ` set (List.map_filter (residue_of (\<lambda>f. f \<in> set files)) files)"

text \<open>
  Each socket, pid and info file of a tunnel is accounted for by exactly one of the two checks: its tunnel is
  probed, or it is reported as the residue of a dead one.
\<close>

theorem sidecar_accounted_once:
  assumes "ext \<in> set RESIDUE_EXTS" and "ascii ''connect-'' @ n @ ascii ''.'' @ ext \<in> set files"
  shows "(n \<in> set (enumerate_tunnels files)) \<noteq> reports_residue files n"
proof -
  have "reports_residue files n \<longleftrightarrow> ascii ''connect-'' @ n @ ascii ''.lock'' \<notin> set files"
    (is "_ \<longleftrightarrow> ?free")
  proof
    assume ?free
    then have "residue_of (\<lambda>f. f \<in> set files) (ascii ''connect-'' @ n @ ascii ''.'' @ ext)
        = Some (n, ascii ''connect-'' @ n @ ascii ''.'' @ ext)"
      unfolding residue_iff using assms(1) by blast
    then have "(n, ascii ''connect-'' @ n @ ascii ''.'' @ ext)
        \<in> set (List.map_filter (residue_of (\<lambda>f. f \<in> set files)) files)"
      unfolding in_map_filter using assms(2) by (rule bexI)
    then show "reports_residue files n" unfolding reports_residue_def by (metis fst_conv image_eqI)
  next
    assume "reports_residue files n"
    then obtain g f where "residue_of (\<lambda>f. f \<in> set files) f = Some (n, g)"
      by (auto simp: reports_residue_def in_map_filter simp del: ascii_simps)
    then show ?free unfolding residue_iff by blast
  qed
  then show ?thesis by (simp add: enumerated_iff del: ascii_simps)
qed

lemma residue_checks:
  "map ck_hint (check_tunnel_residue (\<lambda>f. f \<in> set files) files) =
     map (\<lambda>n. Some (ascii ''gritty tunnel-destroy '' @ n))
       (sort_key id (remdups (map fst (List.map_filter (residue_of (\<lambda>f. f \<in> set files)) files))))"
  by (simp add: check_tunnel_residue_def with_hint_def Let_def del: ascii_simps)

section \<open>The verdict\<close>

lemma how_many_0: "how_many st groups = 0 \<longleftrightarrow> (\<forall>(title, cs) \<in> set groups. \<forall>c \<in> set cs. ck_status c \<noteq> st)"
  unfolding how_many_def length_0_conv filter_empty_conv by fastforce

lemma count_text_no: "count_text n noun @ r \<noteq> ascii ''no issues found''"
proof
  assume eq: "count_text n noun @ r = ascii ''no issues found''"
  obtain b bs where "dec n = b # bs" by (cases "dec n") simp_all
  moreover from this have "is_digit b" using dec_digits [of b n] by simp
  ultimately show False using eq by (simp add: count_text_def is_digit_def)
qed

text \<open>\<open>doctor\<close> says that there are no issues exactly if every check is well, and fails exactly if one failed.\<close>

theorem verdict_exact:
  "tally groups = ascii ''no issues found'' \<longleftrightarrow> (\<forall>(title, cs) \<in> set groups. \<forall>c \<in> set cs. ck_status c = CheckOk)"
  "has_failures groups \<longleftrightarrow> (\<exists>(title, cs) \<in> set groups. \<exists>c \<in> set cs. ck_status c = CheckFail)"
proof -
  have ok: "st = CheckOk \<longleftrightarrow> st \<noteq> CheckFail \<and> st \<noteq> CheckWarn" for st by (cases st) simp_all
  have "tally groups = ascii ''no issues found'' \<longleftrightarrow> how_many CheckFail groups = 0 \<and> how_many CheckWarn groups = 0"
    unfolding tally_def Let_def using count_text_no [of _ _ "[]"] count_text_no by (simp del: ascii_simps)
  also have "\<dots> \<longleftrightarrow> (\<forall>(title, cs) \<in> set groups. \<forall>c \<in> set cs. ck_status c = CheckOk)"
    unfolding how_many_0 ok by fast
  finally show "tally groups = ascii ''no issues found'' \<longleftrightarrow> (\<forall>(title, cs) \<in> set groups. \<forall>c \<in> set cs. ck_status c = CheckOk)" .
qed (simp add: has_failures_def list_ex_iff case_prod_beta)

end
