(* ===== verification/Port_Forward.thy ===== *)
theory Port_Forward
  imports Ui Session_List Client_Input_Proofs Report Wire_Names
begin

text \<open>
  \<open>gritty lf\<close> and \<open>gritty rf\<close>, from \<open>src/src/commands/util.rs\<close>: which attached client carries the forward,
  and the loop that places the request again whenever the client has gone; and the requests made from within
  a session, \<open>gritty copy\<close> and \<open>gritty open\<close>.
\<close>

section \<open>Which client\<close>

text \<open>A path is a directory and a file of it.\<close>

type_synonym Place = "rstring \<times> rstring"

definition file_stem :: "rstring \<Rightarrow> rstring" where
  "file_stem f = (case rsplit_once 0x2E f of Some (stem, _) \<Rightarrow> if stem = [] then f else stem | None \<Rightarrow> f)"

definition forward_host :: "rstring \<Rightarrow> rstring" where
  "forward_host file =
     (let s = file_stem file
      in if s = ascii ''ctl'' then ascii ''local'' else unwrap_or (strip_prefix (ascii ''connect-'') s) s)"

definition forward_socket_path :: "Place \<Rightarrow> u32 \<Rightarrow> Place" where
  "forward_socket_path ctl i = (fst ctl, forward_socket_name (forward_host (snd ctl)) i)"

definition resolve_ctl_path :: "rstring \<Rightarrow> Place option \<Rightarrow> rstring option \<Rightarrow> Place option" where
  "resolve_ctl_path socket_dir ctl_socket host =
     (case ctl_socket of
        Some p \<Rightarrow> Some p
      | None \<Rightarrow>
          (case host of
             Some h \<Rightarrow>
               if h = ascii ''local'' then Some (socket_dir, ascii ''ctl.sock'')
               else Some (socket_dir, ascii ''connect-'' @ h @ ascii ''.sock'')
           | None \<Rightarrow> None))"

text \<open>What the command sees: the settings, the daemons behind the sockets, the files.\<close>

record ForwardEnv =
  fe_config :: ConfigFile
  fe_hostname :: "rstring option"
  fe_ctl_socket :: "Place option"
  fe_socket_dir :: rstring
  fe_answer :: "Place \<Rightarrow> rstring + Frame"
  fe_files :: "rstring \<Rightarrow> rstring list"
  fe_exists :: "Place \<Rightarrow> bool"
  fe_connects :: "Place \<Rightarrow> bool"
  fe_inside :: bool

definition client_name_for :: "ForwardEnv \<Rightarrow> rstring \<Rightarrow> rstring" where
  "client_name_for fe host = ss_client_name (fst (resolve_session_inner (fe_hostname fe) (fe_config fe) (Some host)))"

definition resolve_session :: "ForwardEnv \<Rightarrow> Place \<Rightarrow> rstring \<Rightarrow> rstring + SessionEntry" where
  "resolve_session fe ctl target =
     (case fe_answer fe ctl of
        Inl e \<Rightarrow> Inl e
      | Inr (SessionInfo ss) \<Rightarrow>
          (case find_session ss target of
             Some e \<Rightarrow> Inr e
           | None \<Rightarrow>
               if target = ascii ''-'' then
                 Inl (ascii ''no previously-attached session on '' @ host_from_ctl_path (file_stem (snd ctl)))
               else Inl (ascii ''no such session: '' @ target))
      | Inr _ \<Rightarrow> Inl (ascii ''unexpected response to ListSessions''))"

definition resolve_session_id :: "ForwardEnv \<Rightarrow> Place \<Rightarrow> rstring \<Rightarrow> rstring + u32" where
  "resolve_session_id fe ctl target = (case resolve_session fe ctl target of Inl e \<Rightarrow> Inl e | Inr e \<Rightarrow> Inr (entry_id e))"

record ForwardCandidate =
  fc_path :: Place
  fc_host :: rstring
  fc_session_id :: u32

definition candidate_label :: "ForwardCandidate \<Rightarrow> SessionEntry list option \<Rightarrow> rstring \<Rightarrow> rstring" where
  "candidate_label c ss client =
     (case Option.bind ss (List.find (\<lambda>e. entry_id e = fc_session_id c)) of
        Some e \<Rightarrow> fc_host c @ COLON # display_session_name (name e) client
      | None \<Rightarrow> fc_host c @ ascii '' (session #'' @ dec (unat (fc_session_id c)) @ ascii '')'')"

text \<open>Each host's daemon answers once; its answer is a function of the host.\<close>

definition host_sessions :: "ForwardEnv \<Rightarrow> rstring \<Rightarrow> SessionEntry list option" where
  "host_sessions fe host =
     (case resolve_ctl_path (fe_socket_dir fe) None (Some host) of
        Some ctl \<Rightarrow> (case fe_answer fe ctl of Inr (SessionInfo ss) \<Rightarrow> Some ss | _ \<Rightarrow> None)
      | None \<Rightarrow> None)"

definition forward_candidate_labels :: "ForwardEnv \<Rightarrow> ForwardCandidate list \<Rightarrow> rstring list" where
  "forward_candidate_labels fe cs =
     map (\<lambda>c. candidate_label c (host_sessions fe (fc_host c)) (client_name_for fe (fc_host c))) cs"

definition live_forward_sockets :: "ForwardEnv \<Rightarrow> rstring \<Rightarrow> ForwardCandidate list" where
  "live_forward_sockets fe dir =
     sort_key (\<lambda>c. snd (fc_path c))
       (List.map_filter (\<lambda>f.
          case parse_forward_socket_name f of
            Some (host, i) \<Rightarrow>
              if fe_connects fe (dir, f) then Some \<lparr>fc_path = (dir, f), fc_host = host, fc_session_id = i\<rparr> else None
          | None \<Rightarrow> None) (fe_files fe dir))"

definition ambiguous_host_guard :: "ForwardEnv \<Rightarrow> rstring \<Rightarrow> rstring \<Rightarrow> bool" where
  "ambiguous_host_guard fe dir arg \<longleftrightarrow>
     canonical_host (fe_config fe) arg \<noteq> arg \<or> fe_exists fe (dir, ascii ''connect-'' @ arg @ ascii ''.sock'')"

datatype ForwardError =
    Usage
  | BadPort PortError
  | AlsoAConnection rstring
  | NoneAttached bool
  | SeveralAttached "rstring list" rstring
  | Failed rstring

text \<open>\<open>port_forward_command\<close> up to the call of \<open>run_forward\<close>: its path, label and ports.\<close>

definition forward_choice ::
  "ForwardEnv \<Rightarrow> rstring option \<Rightarrow> rstring option \<Rightarrow> ForwardError + (Place \<times> rstring \<times> u16 \<times> u16)" where
  "forward_choice fe target port =
     (case forward_args target port of
        None \<Rightarrow> Inl Usage
      | Some (target, port) \<Rightarrow>
          (case parse_port_spec port of
             Inl e \<Rightarrow> Inl (BadPort e)
           | Inr (l, t) \<Rightarrow>
               (case target of
                  Some typed \<Rightarrow>
                    (case parse_target (fe_config fe) typed of
                       (host, session) \<Rightarrow>
                         (let client = client_name_for fe host;
                              wire = resolve_session_name (unwrap_or session (ascii ''0'')) client;
                              ctl = the (resolve_ctl_path (fe_socket_dir fe) (fe_ctl_socket fe) (Some host))
                          in case resolve_session_id fe ctl wire of
                               Inl e \<Rightarrow> Inl (Failed e)
                             | Inr i \<Rightarrow> Inr (forward_socket_path ctl i, host @ COLON # display_session_name wire client, l, t)))
                | None \<Rightarrow>
                    (let dir = (case fe_ctl_socket fe of Some p \<Rightarrow> fst p | None \<Rightarrow> fe_socket_dir fe)
                     in if ambiguous_host_guard fe dir port then Inl (AlsoAConnection port)
                        else
                          (let found = live_forward_sockets fe dir; labels = forward_candidate_labels fe found
                           in case found of
                                [] \<Rightarrow> Inl (NoneAttached (fe_inside fe))
                              | [c] \<Rightarrow> Inr (fc_path c, hd labels, l, t)
                              | _ \<Rightarrow>
                                  Inl (SeveralAttached labels
                                    (unwrap_or (List.find (\<lambda>s. COLON \<in> set s) labels) (ascii ''<host:session>''))))))))"

section \<open>Placing the request\<close>

text \<open>What comes of one contact with the socket: a reply byte and what follows it up to the end.\<close>

datatype Contact = No_listener | Write_failed | No_reply | Reply u8 "byte list"

datatype EstablishError = Unconnected | Refused rstring | Lost_contact

definition forward_request :: "u8 \<Rightarrow> u16 \<Rightarrow> u16 \<Rightarrow> byte list" where
  "forward_request direction l t = direction # be_bytes 2 (unat l) @ be_bytes 2 (unat t)"

definition establish_forward :: "Contact \<Rightarrow> EstablishError + unit" where
  "establish_forward c =
     (case c of
        No_listener \<Rightarrow> Inl Unconnected
      | Write_failed \<Rightarrow> Inl Lost_contact
      | No_reply \<Rightarrow> Inl Lost_contact
      | Reply b rest \<Rightarrow>
          if b = 0x01 then Inr ()
          else if b = 0x02 then Inl (Refused (utf8_lossy rest))
          else Inl (Refused (ascii ''unexpected response: 0x'' @ hex2 b)))"

definition busy_port_hint :: "rstring \<Rightarrow> u16 \<Rightarrow> u16 \<Rightarrow> rstring option" where
  "busy_port_hint msg l t =
     (if contains (ascii ''server bind failed'') msg \<or> contains (ascii ''bind failed: '') msg
         \<or> contains (ascii ''in use'') (map ascii_lower msg)
      then
        (let alt = (if l = 65535 then l - 1 else l + 1)
         in Some ([0x0A] @ ascii ''hint: the listen port may be busy -- pick a free one with LISTEN:TARGET, e.g. `''
              @ dec (unat alt) @ COLON # dec (unat t) @ ascii ''`''))
      else None)"

definition in_session_hint :: "bool \<Rightarrow> rstring" where
  "in_session_hint inside =
     (if inside then
        [0x0A] @ ascii ''hint: you'' @ [0x27] @ ascii ''re inside a gritty session -- run port forwards from the machine running `gritty connect`, not from inside the session''
      else [])"

abbreviation (input) FORWARD_RETRY_INITIAL :: nat where "FORWARD_RETRY_INITIAL \<equiv> 500"
abbreviation (input) FORWARD_RETRY_MAX :: nat where "FORWARD_RETRY_MAX \<equiv> 5000"

record ForwardPlan =
  fp_direction :: u8
  fp_listen :: u16
  fp_target :: u16
  fp_label :: rstring
  fp_path :: rstring
  fp_inside :: bool

text \<open>Where the loop waits: for an attempt, for the end of the stream, for its delay.\<close>

datatype ForwardPhase = Asking | Carrying | Pausing

record ForwardLoop =
  fl_first :: bool
  fl_delay :: nat
  fl_last_status :: "rstring option"
  fl_phase :: ForwardPhase

definition forward_loop_new :: ForwardLoop where
  "forward_loop_new = \<lparr>fl_first = True, fl_delay = FORWARD_RETRY_INITIAL, fl_last_status = None, fl_phase = Asking\<rparr>"

definition forward_name :: "ForwardPlan \<Rightarrow> rstring" where
  "forward_name fp =
     (if fp_direction fp = 0 then ascii ''local'' else ascii ''remote'') @ ascii ''-forward ''
     @ (if fp_listen fp = fp_target fp then dec (unat (fp_listen fp))
        else dec (unat (fp_listen fp)) @ COLON # dec (unat (fp_target fp)))"

datatype ForwardEvent = Interrupt | Answered Contact | Stream_ended | Delay_over

text \<open>A step: the loop goes on, or the command has ended, well or with an error; and what it printed.\<close>

definition attempt_answered :: "ForwardPlan \<Rightarrow> ForwardLoop \<Rightarrow> Contact \<Rightarrow> ((rstring + unit) + ForwardLoop) \<times> (Level \<times> rstring) list" where
  "attempt_answered fp s c =
     (case establish_forward c of
        Inr _ \<Rightarrow>
          (Inr \<lparr>fl_first = False, fl_delay = FORWARD_RETRY_INITIAL, fl_last_status = None, fl_phase = Carrying\<rparr>,
           [(Level.Success, forward_name fp @ (if fl_first s then ascii '' active ('' else ascii '' re-established ('')
               @ fp_label fp @ ascii '')'')])
      | Inl e \<Rightarrow>
          (case (e, fl_first s) of
             (Refused msg, True) \<Rightarrow>
               (Inl (Inl (msg @ unwrap_or (busy_port_hint msg (fp_listen fp) (fp_target fp)) [])), [])
           | (Unconnected, True) \<Rightarrow>
               (Inl (Inl (ascii ''no client attached to '' @ fp_label fp @ ascii '' (could not connect to '' @ fp_path fp
                  @ ascii '')'' @ in_session_hint (fp_inside fp))), [])
           | _ \<Rightarrow>
               (let status = (case e of Refused msg \<Rightarrow> ascii ''re-establish refused: '' @ msg
                              | _ \<Rightarrow> ascii ''waiting for an attached client'')
                in (Inr (s\<lparr>fl_last_status := Some status, fl_phase := Pausing\<rparr>),
                    if fl_last_status s \<noteq> Some status then [(Level.Status, status @ ascii '' -- retrying, ^C to stop'')] else []))))"

text \<open>An event a phase does not wait for does not happen to it.\<close>

definition forward_step :: "ForwardPlan \<Rightarrow> ForwardLoop \<Rightarrow> ForwardEvent \<Rightarrow> ((rstring + unit) + ForwardLoop) \<times> (Level \<times> rstring) list" where
  "forward_step fp s ev =
     (case (fl_phase s, ev) of
        (_, Interrupt) \<Rightarrow> (Inl (Inr ()), [])
      | (Asking, Answered c) \<Rightarrow> attempt_answered fp s c
      | (Carrying, Stream_ended) \<Rightarrow>
          (Inr (s\<lparr>fl_phase := Asking\<rparr>),
           [(Level.Status, forward_name fp @ ascii '' torn down (client disconnected?) -- re-establishing, ^C to stop'')])
      | (Pausing, Delay_over) \<Rightarrow>
          (Inr (s\<lparr>fl_delay := min (fl_delay s * 2) FORWARD_RETRY_MAX, fl_phase := Asking\<rparr>), [])
      | _ \<Rightarrow> (Inr s, []))"

fun run_forward :: "ForwardPlan \<Rightarrow> ForwardLoop \<Rightarrow> ForwardEvent list \<Rightarrow> ((rstring + unit) + ForwardLoop) \<times> (Level \<times> rstring) list" where
  "run_forward fp s [] = (Inr s, [])"
| "run_forward fp s (ev # evs) =
     (case forward_step fp s ev of
        (Inl r, out) \<Rightarrow> (Inl r, out)
      | (Inr s', out) \<Rightarrow> (case run_forward fp s' evs of (r, out') \<Rightarrow> (r, out @ out')))"

section \<open>Requests from within a session\<close>

abbreviation (input) CLIPBOARD_REPLY_DELIVERED :: u8 where "CLIPBOARD_REPLY_DELIVERED \<equiv> 0x01"
abbreviation (input) CLIPBOARD_REPLY_TOO_LARGE :: u8 where "CLIPBOARD_REPLY_TOO_LARGE \<equiv> 0x02"

text \<open>\<open>connect_svc_socket\<close>: the variable, and the error of the connection.\<close>

definition connect_svc_socket :: "rstring option \<Rightarrow> rstring option \<Rightarrow> rstring option" where
  "connect_svc_socket var failed =
     (case var of
        None \<Rightarrow> Some (ascii ''GRITTY_SOCK not set (are you inside a gritty session?)'')
      | Some path \<Rightarrow>
          map_option (\<lambda>e. ascii ''could not connect to service socket ('' @ path @ ascii ''): '' @ e) failed)"

text \<open>The messages and the exit code; \<open>human\<close> renders a size (humansize).\<close>

definition clipboard_too_large :: "(nat \<Rightarrow> rstring) \<Rightarrow> nat \<Rightarrow> rstring option" where
  "clipboard_too_large human len =
     (if CLIPBOARD_MAX_BYTES < len then
        Some (ascii ''clipboard payload is '' @ human len @ ascii '' (limit '' @ human CLIPBOARD_MAX_BYTES
          @ ascii ''); for something this large use `gritty send`'')
      else None)"

definition clipboard_request :: "byte list \<Rightarrow> byte list" where
  "clipboard_request content = svc_to_byte SvcClipboard # 0x01 # content"

definition clipboard_copy ::
  "(nat \<Rightarrow> rstring) \<Rightarrow> rstring option \<Rightarrow> byte list \<Rightarrow> rstring option \<Rightarrow> u8 option \<Rightarrow> (Level \<times> rstring) list \<times> nat" where
  "clipboard_copy human unconnected content write_error reply =
     (case unconnected of
        Some e \<Rightarrow> ([(Level.Error, e)], 1)
      | None \<Rightarrow>
          (case clipboard_too_large human (length content) of
             Some e \<Rightarrow> ([(Level.Error, e)], 1)
           | None \<Rightarrow>
               (case write_error of
                  Some e \<Rightarrow> ([(Level.Error, ascii ''clipboard copy failed: '' @ e)], 1)
                | None \<Rightarrow>
                    (case reply of
                       None \<Rightarrow> ([(Level.Warn, ascii ''could not confirm clipboard was set (server may be older)'')], 0)
                     | Some b \<Rightarrow>
                         if b = CLIPBOARD_REPLY_DELIVERED then ([], 0)
                         else if b = CLIPBOARD_REPLY_TOO_LARGE then
                           ([(Level.Error, ascii ''clipboard not set -- the server refused the payload as too large'')], 1)
                         else
                           ([(Level.Error, ascii ''clipboard not set -- no client is attached, or it lacks clipboard support'')], 1)))))"

definition open_url_request :: "rstring \<Rightarrow> byte list" where
  "open_url_request url = svc_to_byte SvcOpenUrl # url @ [0x0A]"

definition open_url :: "rstring option \<Rightarrow> rstring \<Rightarrow> bool \<Rightarrow> u8 option \<Rightarrow> (Level \<times> rstring) list \<times> nat" where
  "open_url unconnected url is_browser_shim reply =
     (case unconnected of
        Some e \<Rightarrow> ([(Level.Error, e)], 1)
      | None \<Rightarrow>
          (case reply of
             None \<Rightarrow> ([(Level.Warn, ascii ''could not confirm URL was forwarded (server may be older)'')], 0)
           | Some b \<Rightarrow>
               if b = 0 then
                 if is_browser_shim then
                   ([(Level.Warn, ascii ''could not open URL in your browser (URL forwarding is off or no client is attached); open it manually:''),
                     (Level.Detail, url)], 0)
                 else
                   ([(Level.Error, ascii ''URL not opened -- no client is attached, or the attached client has URL forwarding off (--no-forward-open)'')], 1)
               else ([], 0)))"

text \<open>
  That a forward goes through the client it should, that once placed it stays until the user ends it, and
  that what is suggested can be typed; with the order of answers in which a later refusal ends the command.
\<close>

section \<open>Which client\<close>

text \<open>
  With a target, the forward socket is that of the session the daemon lists under the target's name, or of the
  one it flags as last attached; without one, it is served, and no other forward socket of the directory is.
\<close>

theorem forward_reaches_its_session:
  assumes "forward_choice fe (Some typed) (Some port) = Inr (p, label, l, t)"
    and "parse_target (fe_config fe) typed = (host, session)"
    and "resolve_ctl_path (fe_socket_dir fe) (fe_ctl_socket fe) (Some host) = Some ctl"
  shows "\<exists>ss e. fe_answer fe ctl = Inr (SessionInfo ss)
     \<and> find_session ss (resolve_session_name (unwrap_or session (ascii ''0'')) (client_name_for fe host)) = Some e
     \<and> fst p = fst ctl \<and> parse_forward_socket_name (snd p) = Some (forward_host (snd ctl), entry_id e)"
proof -
  let ?wire = "resolve_session_name (unwrap_or session (ascii ''0'')) (client_name_for fe host)"
  obtain i where i: "resolve_session_id fe ctl ?wire = Inr i" "p = forward_socket_path ctl i"
    using assms by (auto simp: forward_choice_def forward_args_def Let_def simp del: ascii_simps split: sum.splits)
  then obtain e where "resolve_session fe ctl ?wire = Inr e" "i = entry_id e"
    by (auto simp: resolve_session_id_def split: sum.splits)
  moreover from this obtain ss where "fe_answer fe ctl = Inr (SessionInfo ss)" "find_session ss ?wire = Some e"
    by (auto simp: resolve_session_def simp del: ascii_simps split: sum.splits Frame.splits option.splits if_splits)
  ultimately show ?thesis using i(2) by (auto simp: forward_socket_path_def simp del: ascii_simps)
qed

lemma live_forward_iff:
  "c \<in> set (live_forward_sockets fe dir) \<longleftrightarrow>
     (\<exists>f \<in> set (fe_files fe dir). fe_connects fe (dir, f) \<and> fc_path c = (dir, f)
        \<and> parse_forward_socket_name f = Some (fc_host c, fc_session_id c))"
proof -
  have mf: "x \<in> set (List.map_filter g xs) \<longleftrightarrow> (\<exists>y \<in> set xs. g y = Some x)" for x :: 'a and g :: "'b \<Rightarrow> 'a option" and xs
    by (induction xs) (auto split: option.split)
  show ?thesis
  proof
    assume "c \<in> set (live_forward_sockets fe dir)"
    then show "\<exists>f \<in> set (fe_files fe dir). fe_connects fe (dir, f) \<and> fc_path c = (dir, f)
        \<and> parse_forward_socket_name f = Some (fc_host c, fc_session_id c)"
      unfolding live_forward_sockets_def set_sort mf by (fastforce split: option.splits if_splits)
  next
    assume "\<exists>f \<in> set (fe_files fe dir). fe_connects fe (dir, f) \<and> fc_path c = (dir, f)
        \<and> parse_forward_socket_name f = Some (fc_host c, fc_session_id c)"
    then obtain f where f: "f \<in> set (fe_files fe dir)" "fe_connects fe (dir, f)" "fc_path c = (dir, f)"
        "parse_forward_socket_name f = Some (fc_host c, fc_session_id c)" by blast
    then show "c \<in> set (live_forward_sockets fe dir)"
      unfolding live_forward_sockets_def set_sort mf by (intro bexI [OF _ f(1)]) simp
  qed
qed

theorem discovered_forward_is_the_only_one:
  assumes "forward_choice fe (Some port) None = Inr (p, label, l, t)"
  shows "fe_connects fe p"
    and "f \<in> set (fe_files fe (fst p)) \<Longrightarrow> parse_forward_socket_name f \<noteq> None \<Longrightarrow> fe_connects fe (fst p, f) \<Longrightarrow> (fst p, f) = p"
proof -
  define dir where "dir = (case fe_ctl_socket fe of Some q \<Rightarrow> fst q | None \<Rightarrow> fe_socket_dir fe)"
  have "\<exists>c. live_forward_sockets fe dir = [c] \<and> p = fc_path c"
    using assms
    by (auto simp: forward_choice_def forward_args_def Let_def dir_def [symmetric] simp del: ascii_simps
        split: sum.splits if_splits list.splits)
  then obtain c where c: "live_forward_sockets fe dir = [c]" "p = fc_path c" by blast
  then have only: "d \<in> set (live_forward_sockets fe dir) \<longleftrightarrow> d = c" for d by simp
  then obtain g where g: "fe_connects fe (dir, g)" "fc_path c = (dir, g)" unfolding live_forward_iff by blast
  then show "fe_connects fe p" using c(2) by simp
  assume f: "f \<in> set (fe_files fe (fst p))" "parse_forward_socket_name f \<noteq> None" "fe_connects fe (fst p, f)"
  then obtain host i where "parse_forward_socket_name f = Some (host, i)" by auto
  then have "\<lparr>fc_path = (dir, f), fc_host = host, fc_session_id = i\<rparr> \<in> set (live_forward_sockets fe dir)"
    unfolding live_forward_iff using f c(2) g(2) by auto
  then show "(fst p, f) = p" unfolding only using c(2) g(2) by auto
qed

text \<open>
  A label that names a session can be typed: as a target it gives the host and the displayed name.
\<close>

theorem label_is_typeable:
  assumes "List.find (\<lambda>e. entry_id e = fc_session_id c) ss = Some e"
    and "COLON \<notin> set (fc_host c)" and "fc_host c \<noteq> []" and "canonical_host cfg (fc_host c) = fc_host c"
    and "display_session_name (name e) client \<noteq> []"
  shows "parse_target cfg (candidate_label c (Some ss) client) = (fc_host c, Some (display_session_name (name e) client))"
  using assms by (simp add: candidate_label_def parse_target_def split_target_def)

text \<open>A label that names none cannot: it has no colon, and a space.\<close>

theorem unnamed_label_has_no_session:
  "COLON \<notin> set (fc_host c) \<Longrightarrow> COLON \<notin> set (candidate_label c None client) \<and> 0x20 \<in> set (candidate_label c None client)"
proof -
  have "COLON \<notin> set (dec n)" for n using dec_digits [of COLON n] by (auto simp: is_digit_def)
  then show "COLON \<notin> set (fc_host c) \<Longrightarrow> COLON \<notin> set (candidate_label c None client) \<and> 0x20 \<in> set (candidate_label c None client)"
    by (simp add: candidate_label_def)
qed

section \<open>What is suggested\<close>

text \<open>The port the hint suggests can be typed, and is another one for the same target.\<close>

theorem hint_is_usable:
  assumes "busy_port_hint msg l t = Some h" and "l \<noteq> 0" and "t \<noteq> 0"
  shows "\<exists>pre spec l'. h = pre @ spec @ ascii ''`'' \<and> parse_port_spec spec = Inr (l', t) \<and> l' \<noteq> l"
proof -
  define l' where "l' = (if l = 65535 then l - 1 else l + 1)"
  have l': "l' \<noteq> 0" "l' \<noteq> l"
  proof -
    have "l + 1 \<noteq> 0" if "l \<noteq> 65535" using that eq_neg_iff_add_eq_0 [of l 1] by auto
    then show "l' \<noteq> 0" "l' \<noteq> l" by (auto simp: l'_def)
  qed
  let ?spec = "dec (unat l') @ COLON # dec (unat t)"
  have "COLON \<notin> set (dec n)" for n using dec_digits [of COLON n] by (auto simp: is_digit_def)
  moreover have "parse_unsigned (2 ^ 16) (dec (unat p)) = Some (unat p)" for p :: u16
    by (rule parse_unsigned_dec) (use unsigned_less [of p] in simp)
  ultimately have "parse_port_spec ?spec = Inr (l', t)"
    using l'(1) assms(3) by (simp add: parse_port_spec_def Let_def unat_eq_zero)
  moreover have "\<exists>pre. h = pre @ ?spec @ ascii ''`''"
    using assms(1) by (auto simp: busy_port_hint_def Let_def l'_def simp flip: append_assoc simp del: ascii_simps split: if_splits)
  ultimately show ?thesis using l'(2) by blast
qed

section \<open>The loop\<close>

text \<open>Once the request was placed, no answer ends the command; the delay keeps its bounds.\<close>

definition placed :: "ForwardLoop \<Rightarrow> bool" where
  "placed s \<longleftrightarrow> \<not> fl_first s"

lemma placed_step: "placed s \<Longrightarrow> (\<exists>s' out. forward_step fp s ev = (Inr s', out) \<and> placed s') \<or> ev = Interrupt \<and> fst (forward_step fp s ev) = Inl (Inr ())"
  by (simp add: forward_step_def attempt_answered_def placed_def Let_def
      split: ForwardPhase.split ForwardEvent.split sum.split EstablishError.split)

theorem placed_forward_persists:
  assumes "placed s" and "Interrupt \<notin> set evs"
  shows "\<exists>s' out. run_forward fp s evs = (Inr s', out) \<and> placed s'"
  using assms
proof (induction evs arbitrary: s)
  case (Cons ev evs)
  then obtain s' out where "forward_step fp s ev = (Inr s', out)" "placed s'" using placed_step [of s fp ev] by auto
  moreover from this(2) obtain s'' out' where "run_forward fp s' evs = (Inr s'', out')" "placed s''"
    using Cons.IH [of s'] Cons.prems(2) by auto
  ultimately show ?case by simp
qed simp

theorem retry_delay_bounded:
  assumes "run_forward fp s evs = (Inr s', out)" and "FORWARD_RETRY_INITIAL \<le> fl_delay s" and "fl_delay s \<le> FORWARD_RETRY_MAX"
  shows "FORWARD_RETRY_INITIAL \<le> fl_delay s' \<and> fl_delay s' \<le> FORWARD_RETRY_MAX"
  using assms
proof (induction evs arbitrary: s out)
  case (Cons ev evs)
  obtain s1 out1 out2 where s1: "forward_step fp s ev = (Inr s1, out1)" "run_forward fp s1 evs = (Inr s', out2)"
    using Cons.prems(1) by (auto split: prod.splits sum.splits)
  then have "FORWARD_RETRY_INITIAL \<le> fl_delay s1 \<and> fl_delay s1 \<le> FORWARD_RETRY_MAX"
    using Cons.prems(2,3)
    by (auto simp: forward_step_def attempt_answered_def Let_def
        split: ForwardPhase.splits ForwardEvent.splits sum.splits EstablishError.splits bool.splits)
  then show ?case using Cons.IH s1(2) by blast
qed simp

text \<open>An outage with one cause is told of once, however often the request is tried.\<close>

lemma outage_step:
  assumes "placed s" and "fl_phase s = Asking" and "establish_forward c = Inl e"
  shows "\<exists>s'. run_forward fp s [Answered c, Delay_over]
      = (Inr s', if fl_last_status s = fl_last_status s' then [] else [(Level.Status, the (fl_last_status s') @ ascii '' -- retrying, ^C to stop'')])
    \<and> placed s' \<and> fl_phase s' = Asking
    \<and> fl_last_status s' = Some (case e of Refused msg \<Rightarrow> ascii ''re-establish refused: '' @ msg | _ \<Rightarrow> ascii ''waiting for an attached client'')"
  using assms
  by (cases e) (simp_all add: forward_step_def attempt_answered_def placed_def Let_def del: ascii_simps)

lemma run_forward_next:
  "run_forward fp s as = (Inr s', out) \<Longrightarrow> run_forward fp s (as @ bs) = (fst (run_forward fp s' bs), out @ snd (run_forward fp s' bs))"
  by (induction as arbitrary: s out) (auto split: prod.splits sum.splits)

theorem outage_told_once:
  assumes "placed s" and "fl_phase s = Asking" and "establish_forward c = Inl e"
  shows "length (snd (run_forward fp s (concat (replicate n [Answered c, Delay_over])))) \<le> 1"
proof -
  define st where "st = Some (case e of Refused msg \<Rightarrow> ascii ''re-establish refused: '' @ msg | _ \<Rightarrow> ascii ''waiting for an attached client'')"
  have silent: "snd (run_forward fp s (concat (replicate n [Answered c, Delay_over]))) = []"
    if "placed s" "fl_phase s = Asking" "fl_last_status s = st" for n s
    using that
  proof (induction n arbitrary: s)
    case (Suc n)
    obtain s' where s': "run_forward fp s [Answered c, Delay_over] = (Inr s', [])" "placed s'" "fl_phase s' = Asking" "fl_last_status s' = st"
      using outage_step [OF Suc.prems(1,2) assms(3), of fp] Suc.prems(3) unfolding st_def by auto
    have "snd (run_forward fp s' (concat (replicate n [Answered c, Delay_over]))) = []" using Suc.IH s'(2-4) by blast
    then show ?case unfolding replicate_Suc concat.simps(2) run_forward_next [OF s'(1)] by simp
  qed simp
  show ?thesis
  proof (cases n)
    case (Suc m)
    obtain s' out where s': "run_forward fp s [Answered c, Delay_over] = (Inr s', out)" "placed s'" "fl_phase s' = Asking"
        "fl_last_status s' = st" "length out \<le> 1"
      using outage_step [OF assms, of fp] unfolding st_def by (auto split: if_splits)
    then show ?thesis
      unfolding Suc replicate_Suc concat.simps(2) run_forward_next [OF s'(1)] using silent [of s' m] by simp
  qed simp
qed

text \<open>
  A refusal that is not of the first attempt still ends the command if no attempt has succeeded yet: here the
  first contact is lost, the second refused.
\<close>

theorem later_refusal_is_fatal:
  "run_forward fp forward_loop_new [Answered No_reply, Delay_over, Answered (Reply 2 (ascii ''no''))]
     = (Inl (Inl (ascii ''no'')), [(Level.Status, ascii ''waiting for an attached client -- retrying, ^C to stop'')])"
proof -
  have "establish_forward (Reply 2 (ascii ''no'')) = Inl (Refused (ascii ''no''))" by code_simp
  moreover have "busy_port_hint (ascii ''no'') l t = None" for l t
  proof -
    have "\<not> contains (ascii ''server bind failed'') (ascii ''no'')" "\<not> contains (ascii ''bind failed: '') (ascii ''no'')"
      "\<not> contains (ascii ''in use'') (map ascii_lower (ascii ''no''))" by code_simp+
    then show ?thesis by (simp add: busy_port_hint_def del: ascii_simps)
  qed
  ultimately show ?thesis
    by (simp add: forward_loop_new_def forward_step_def attempt_answered_def establish_forward_def [of No_reply] unwrap_or_def Let_def)
qed

section \<open>Requests from within a session\<close>

text \<open>
  \<open>copy\<close> is silent and succeeds exactly if the delivery was confirmed; a tool that opens a URL through the
  \<open>$BROWSER\<close> helper is never failed by it once the session answers its connection.
\<close>

theorem copy_silent_iff:
  "clipboard_copy human unconnected content write_error reply = ([], 0) \<longleftrightarrow>
     unconnected = None \<and> length content \<le> CLIPBOARD_MAX_BYTES \<and> write_error = None \<and> reply = Some CLIPBOARD_REPLY_DELIVERED"
  by (auto simp: clipboard_copy_def clipboard_too_large_def split: option.splits if_splits)

theorem shim_never_fails_a_tool: "snd (open_url None url True reply) = 0"
  by (simp add: open_url_def split: option.split)

end
