(* ===== verification/Completion.thy ===== *)
theory Completion
  imports Doctor Port_Forward
begin

text \<open>
  Shell completion of hosts and targets, from \<open>src/src/commands/complete.rs\<close>: what is offered for a word,
  that each offer extends it, and what an offer means once it is taken.
\<close>

section \<open>Offers\<close>

definition matching :: "rstring list \<Rightarrow> rstring \<Rightarrow> rstring list" where
  "matching items p = filter (\<lambda>item. starts_with item p) items"

definition complete_target :: "rstring \<Rightarrow> rstring list \<Rightarrow> (rstring \<Rightarrow> rstring list) \<Rightarrow> rstring list" where
  "complete_target current hs sessions_of =
     (case split_once COLON current of
        None \<Rightarrow> matching hs current
      | Some (typed_host, partial) \<Rightarrow>
          map (\<lambda>session. typed_host @ COLON # session)
            (matching (sessions_of (if typed_host = [] then ascii ''local'' else typed_host)) partial))"

definition complete_kill_target :: "rstring \<Rightarrow> rstring list \<Rightarrow> (rstring \<Rightarrow> rstring list) \<Rightarrow> rstring list" where
  "complete_kill_target current hs sessions_of =
     (if COLON \<in> set current then complete_target current hs sessions_of
      else matching (sessions_of (ascii ''local'') @ hs) current)"

text \<open>\<open>known_hosts\<close> of the files of the socket directory and, if the file is valid, the configured hosts.\<close>

definition known_hosts :: "rstring list \<Rightarrow> rstring list \<Rightarrow> rstring list" where
  "known_hosts files configured =
     ascii ''local'' # remdups_adj (sort_key id (filter (\<lambda>h. h \<noteq> ascii ''local'') (enumerate_tunnels files @ configured)))"

text \<open>An answer that is late is none.\<close>

definition sessions_of :: "ForwardEnv \<Rightarrow> (Place \<Rightarrow> bool) \<Rightarrow> rstring \<Rightarrow> rstring list" where
  "sessions_of fe in_time typed =
     (let host = canonical_host (fe_config fe) typed; client = client_name_for fe host
      in case resolve_ctl_path (fe_socket_dir fe) None (Some host) of
           None \<Rightarrow> []
         | Some ctl \<Rightarrow>
             (case fe_answer fe ctl of
                Inr (SessionInfo ss) \<Rightarrow>
                  (if in_time ctl then
                     map (\<lambda>s. display_session_name (name s) client) (filter (\<lambda>s. name s \<noteq> []) ss)
                   else [])
              | _ \<Rightarrow> []))"

section \<open>What an offer is\<close>

lemma starts_with_Cons_append: "starts_with (p @ s) (p @ q) \<longleftrightarrow> starts_with s q"
  by (simp add: starts_with_def)

text \<open>An offer extends the word, as the shell puts it in the word's place; hosts are offered without asking a daemon.\<close>

theorem offers_extend_word:
  "c \<in> set (complete_target current hs f) \<Longrightarrow> starts_with c current"
  "c \<in> set (complete_kill_target current hs f) \<Longrightarrow> starts_with c current"
  "COLON \<notin> set current \<Longrightarrow> complete_target current hs f = complete_target current hs g"
proof -
  show target: "c \<in> set (complete_target current hs f) \<Longrightarrow> starts_with c current" for c
  proof (cases "split_once COLON current")
    case (Some hp)
    then obtain h p where hp: "hp = (h, p)" "current = h @ COLON # p" using split_onceD by (metis prod.exhaust)
    assume "c \<in> set (complete_target current hs f)"
    then obtain s where "c = (h @ [COLON]) @ s" "starts_with s p"
      using Some hp(1) by (auto simp: complete_target_def matching_def)
    moreover have "current = (h @ [COLON]) @ p" using hp(2) by simp
    ultimately show ?thesis by (simp only: starts_with_Cons_append)
  qed (simp add: complete_target_def matching_def)
  then show "c \<in> set (complete_kill_target current hs f) \<Longrightarrow> starts_with c current"
    by (auto simp: complete_kill_target_def matching_def split: if_splits)
  show "COLON \<notin> set current \<Longrightarrow> complete_target current hs f = complete_target current hs g"
    by (simp add: complete_target_def split_once_def)
qed

text \<open>An offer made after the colon is a target of the host typed and of one of its sessions.\<close>

theorem offer_is_a_session:
  assumes "split_once COLON current = Some (typed_host, partial)" and "c \<in> set (complete_target current hs f)"
  shows "\<exists>s. s \<in> set (f (if typed_host = [] then ascii ''local'' else typed_host)) \<and> starts_with s partial
     \<and> (s \<noteq> [] \<longrightarrow> parse_target cfg c
          = (canonical_host cfg (if typed_host = [] then ascii ''local'' else typed_host), Some s))"
proof -
  let ?host = "if typed_host = [] then ascii ''local'' else typed_host"
  obtain s where s: "c = typed_host @ COLON # s" "s \<in> set (f ?host)" "starts_with s partial"
    using assms unfolding complete_target_def matching_def by (simp del: ascii_simps) blast
  have "split_once COLON c = Some (typed_host, s)" unfolding s(1) using split_onceD [OF assms(1)] by simp
  then have "s \<noteq> [] \<longrightarrow> parse_target cfg c = (canonical_host cfg ?host, Some s)"
    by (simp add: parse_target_def split_target_def del: ascii_simps)
  then show ?thesis using s(2,3) by blast
qed

theorem known_hosts_exact:
  "hd (known_hosts files configured) = ascii ''local''"
  "distinct (known_hosts files configured)"
  "h \<in> set (known_hosts files configured) \<longleftrightarrow>
     h = ascii ''local'' \<or> h \<in> set configured \<or> h \<in> set (enumerate_tunnels files)"
proof -
  have "distinct xs" if "sorted xs" "distinct_adj xs" for xs :: "rstring list"
    using that
  proof (induction xs rule: induct_list012)
    case (3 x y ys)
    then have "x < y" "list_all (\<lambda>z. y \<le> z) ys" "distinct (y # ys)" by (auto simp: list_all_iff)
    moreover from this have "x \<notin> set ys" by (auto simp: list_all_iff dest: leD)
    ultimately show ?case by auto
  qed simp_all
  moreover have "sorted (sort_key id xs)" for xs :: "rstring list" using sorted_sort_key [of id xs] by (simp only: list.map_id)
  ultimately have "distinct (remdups_adj (sort_key id xs))" for xs :: "rstring list" by (simp only: sorted_remdups_adj distinct_adj_remdups_adj)
  then show "distinct (known_hosts files configured)" by (simp add: known_hosts_def del: ascii_simps)
  show "hd (known_hosts files configured) = ascii ''local''" by (simp add: known_hosts_def)
  show "h \<in> set (known_hosts files configured) \<longleftrightarrow>
     h = ascii ''local'' \<or> h \<in> set configured \<or> h \<in> set (enumerate_tunnels files)"
    by (auto simp: known_hosts_def simp del: ascii_simps)
qed

text \<open>
  For \<open>kill-session\<close> the sessions of this machine are offered bare.  One whose displayed name has a colon is
  offered as it is, and means a session of another host: of that before the colon.
\<close>

theorem bare_offer_kills_elsewhere:
  assumes "COLON \<notin> set current" and "a @ COLON # b \<in> set (f (ascii ''local''))" and "starts_with (a @ COLON # b) current"
    and "COLON \<notin> set a" and "a \<noteq> []" and "b \<noteq> []"
  shows "a @ COLON # b \<in> set (complete_kill_target current hs f)"
    and "parse_kill_target cfg (a @ COLON # b) tunnels = OnHost (canonical_host cfg a) b"
  using assms
  by (simp_all add: complete_kill_target_def matching_def parse_kill_target_def parse_target_def split_target_def)

end
