(* ===== verification/Spec2Isabelle.thy ===== *)
theory Spec2Isabelle
  imports Framing Protocol_Proofs Term_Modes_Proofs Scrollback Query_Filter_Proofs Line_Shadow_Proofs
    Tunnel_Proofs Tunnel_Lock_Proofs Tunnel_Setup History Replay_Proofs Replay_Modes Replay_Witnesses File_Transfer_Proofs Receive_Files_Proofs Rendezvous
    Server_Witnesses Daemon_Witnesses Client_Witnesses
    Config Table Session_List_Proofs Mark_Picker Wire_Names_Proofs Refresh Tail_Proofs
    Session_Commands_Proofs Sockets Report Doctor
    Port_Forward Completion
begin

text \<open>
  Gritty keeps shell sessions alive on a host and attaches terminals to them, over a local socket or
  through an ssh tunnel.  One daemon per host holds a table of sessions; each session owns a
  pseudo-terminal and serves at most one attached client; a client relays the keyboard and the
  screen, and reconnects by itself; a supervisor per remote host keeps the tunnel up.  The library
  translates the Rust code under \<open>src/src\<close> into executable definitions and proves what the
  parts promise each other.  Definitions keep the names of the functions they translate.

  HOW THE PARTS INTERACT.  Every connection carries frames (\<open>protocol.rs\<close>).  A client opens one to
  the daemon (\<open>daemon.rs\<close>), which answers a control request or hands the connection to the task of a
  session (\<open>server.rs\<close>).  The session relays the PTY to the client (\<open>client.rs\<close>): its output goes
  through the mode trackers, the shadow of the cursor and the history, from which a client that comes
  back is brought up to date.  Clipboard, URLs, agent and port forwarding, and file transfer ride on
  the same frames.  The commands (\<open>commands/*.rs\<close>) use the daemon through control requests; the
  tunnel supervisor (\<open>connect.rs\<close>) forwards the daemon's socket from another host.

  FOUNDATIONS
   Prelude: bytes, results (the first constructor is the error), counted folds, the collections
     \<open>scan_simps\<close> and \<open>wire_simps\<close>.
   Strings: the functions of \<open>str\<close> the code uses, on UTF-8 byte lists.
   Utf8: the check of \<open>String::from_utf8\<close> and the boundaries of characters.
   Scanners: the locales \<open>byte_fold\<close> and \<open>byte_scanner\<close>, the contract of a machine fed in
     chunks; the second gives the first by a sublocale.  They are interpreted by the scrollback, the
     query filter, the cursor shadow and the three terminal trackers, each in its own theory.

  WIRE (\<open>protocol.rs\<close>)
   Protocol, Protocol_Decode: the frames with every field at its width, the encoder, the decoder arm
     by arm with its limits and its errors.  Protocol_Proofs: the round trip, well-formedness of all
     that is decoded, no access out of bounds for any input.
   Framing: the locale \<open>frame_codec\<close>, which any codec over a stream has to satisfy; interpreted on
     the code's codec (\<open>wire\<close>), from which frames survive every cut of the stream.

  TERMINAL STATE
   Term_Modes (\<open>term_modes.rs\<close>, \<open>alt_screen.rs\<close>), Scrollback (\<open>scrollback.rs\<close>), Query_Filter
     (\<open>query_filter.rs\<close>), Line_Shadow (\<open>line_shadow.rs\<close>, over the width of characters, a
     parameter), and their \<open>_Proofs\<close>: independence of the chunks, bounded memory, and what the
     restore sequences do to a terminal.
   History: the ring of output refines the tail of the stream under absolute offsets.
   Replay (\<open>plan_replay\<close>, \<open>send_reconnect_replay\<close> of \<open>server.rs\<close> and the client's rendering),
     Replay_Proofs, Replay_Modes: after each attach the client's offset is the length of the output,
     a resume shows exactly what was missed without its queries, and leaves the modes right.

  FILE TRANSFER
   File_Transfer (\<open>server.rs\<close>, the daemon's side), Receive_Files and Wire_Names
     (\<open>commands/transfer.rs\<close>), Rendezvous (the pairing of senders and receivers as an inductive step
     relation over sessions and its reachable states).  The receiver runs over an abstract directory in
     which every step can fail; the claims speak of every state it passes through.

  SESSION (\<open>server.rs\<close>)
   Server_Relay: the state of an attached relay and each of its handlers.  Server_Session: the two
     select loops, one event per step, with attach, takeover and loss of the client.
     Server_Session_Proofs states the locale \<open>session_invariant\<close> (what one step keeps, whole runs
     keep), interpreted by the input queue, the tables of port forwarding and, in Server_Clipboard, the
     flag of agent forwarding.  Server_Session_Safety: silence of stale tasks, with the exceptions the
     code has.

  DAEMON (\<open>daemon.rs\<close>)
   Daemon, Daemon_Control: the table, handshake, version gate, reaping, every control request, the
     main loop as a run over turns.  Daemon_Proofs, Daemon_Safety: names and identifiers stay
     unambiguous, what a request can reach, and the client another device has displaced.

  CLIENT (\<open>client.rs\<close>, \<open>lib.rs\<close>)
   Client_Input: the escape processor and the rate limiters.  Client_Relay: the handlers of the
     attached client and its loop.  Client_Relay_Proofs, Client_Safety: what a server can make a client
     do, how often (the locale \<open>limited_effect\<close>, interpreted by the four limited effects), and that
     keys arrive once and in order.  Client_Reconnect: the reconnect loop with its gates, and when it
     gives up.
   Ui, Tail (\<open>ui.rs\<close>, \<open>tail\<close>): the rendering of messages, and the read-only view with its own relay and
     reconnect loops; a run is a log of frames got and effects, from which is read what it shows and sends.

  SOCKETS (\<open>security.rs\<close>)
   Sockets: the checks of the socket directory; a path with the processes that bind it
     under the lock of a companion file, one system call per step.  The inductive \<open>orderly\<close> holds of runs
     in which no lock file is removed under a process about to lock it; without it the claim fails by a
     run that is proved.

  TUNNEL (\<open>connect.rs\<close>)
   Destination: destinations, socket paths and ssh command lines.  Tunnel: exit classification, backoff,
     respawn loop and monitor.  Tunnel_Lock: lock files as a directory of inodes with processes that
     open and lock in separate steps; the inductive \<open>undisturbed\<close> holds of runs in which nobody opens a
     lock file that is then removed, and without it the claim fails by a run that is proved.
     Tunnel_Setup: the setup under the lock and its version gate.

  COMMANDS
   Config (\<open>config.rs\<close>: resolution of the settings), Naming (\<open>naming.rs\<close>, \<open>util.rs\<close>: names, targets,
     durations), Table (\<open>table.rs\<close>), Session_List (ordering, grouping, pruning, the \<open>ls\<close> columns of
     \<open>commands/session.rs\<close>).
   Line_Editor, Picker, Mark_Picker: the two interactive pickers, key by key, with what they draw.
   Connect: \<open>gritty connect\<close> as a program over an environment that answers each request it makes.
     Connect_Proofs holds for every environment, a hostile daemon included; Connect_Daemon and
     Connect_New connect it with the daemon of the theory Daemon_Control.
   Session_Commands: \<open>kill-session\<close>, \<open>prune\<close>, \<open>rename\<close> and \<open>kill-server\<close> over the same environment;
     Session_Commands_Proofs: what a prune leaves in the daemon's table.
   Port_Forward (\<open>commands/util.rs\<close>): which attached client carries \<open>lf\<close> and \<open>rf\<close>, the loop that places
     the request, and \<open>copy\<close> and \<open>open\<close>; a placed forward ends only by the user.
   Completion (\<open>commands/complete.rs\<close>): what the shell is offered, and what an offer means once taken.
   Procscan, Refresh (\<open>procscan.rs\<close>, \<open>runinfo.rs\<close>, \<open>commands/refresh.rs\<close>): the process table, the
     orphans, the identity files and the refresh of the local daemon.
   Report (\<open>commands/report.rs\<close>): the log excerpts of a report, the escapes taken out of them and their
     fence; with the inputs, proved, for which these fall short of their comments.
   Doctor (\<open>commands/doctor.rs\<close>): the checks with their messages over what the probes found, and
     \<open>--clean\<close>: nothing that carries a name of the inductive \<open>named\<close>, which lists the files
     gritty makes in its socket directory, is removed.

  BOUNDS AND FUEL.  No definition takes fuel.  Loops are structural recursion over their input, or have
  a measure; loops driven from outside (session, daemon, client, monitor, pickers) are runs over
  lists of events of any length, so a claim about a run is one about every prefix of an execution.
  The loops the code bounds itself have the code's bound: the polls of \<open>wait_until_detached\<close>, the ten
  attempts of \<open>retry_connect\<close>, the free-name search, which needs one slot more than there are names.
  Integers the code can overflow are words or have their limit written out; counters of bytes in memory
  and of elapsed time are natural numbers.

  PARAMETERS.  The width table (unicode-width), the calendar (jiff), the answers of sockets, of the
  file system, of ssh and of the process table are arguments or events of the definitions.

  NOT MODELLED.  Argument parsing in \<open>main.rs\<close> (clap's derive).  Raw mode, process start, the PTY and socket calls and logging: calls of the
  operating system without logic of their own.  The TOML syntax (a library).  The refresh of a remote
  host, and the detection of network changes (\<open>net_watch.rs\<close>): remote commands and platform calls.  The
  progress bars of a transfer and the JSON form of \<open>ls\<close>.
\<close>

end
